(* ===== verification/Prelude.thy ===== *)
theory Prelude
  imports Main "HOL-Library.AList" "HOL-Library.Sublist" "HOL-Library.List_Lexorder"
    "HOL-Library.Char_ord" "HOL-Library.Product_Lexorder"
begin

text \<open>
  The Python constructs every component shares: exceptions as a datatype and fallible code as a
  sum, the validation chains of the frozen dataclasses, insertion-ordered dictionaries as
  association lists, \<open>dict.fromkeys\<close> as an order-preserving duplicate removal, and the string
  operations the source uses. Characters are bytes; the model's strings are ASCII, on which
  Python's code points and these bytes agree.
\<close>

named_theorems checks_simps \<open>unfolding rules for validation chains\<close>
named_theorems frame_simps \<open>fields an operation leaves alone\<close>

section \<open>Exceptions and results\<close>

datatype py_error =
    ValueError string
  | TypeError string
  | KeyError string
  | IndexError
  | RuntimeError string
  | ConnectionError string
  | InvalidOperation
  | OverflowError
  | TimeoutError string
  | ZeroDivision
  | AssertionError
  | AttributeError string

type_synonym 'a result = "py_error + 'a"

definition r_bind :: "'a result \<Rightarrow> ('a \<Rightarrow> 'b result) \<Rightarrow> 'b result" where
  "r_bind m f = (case m of Inl e \<Rightarrow> Inl e | Inr x \<Rightarrow> f x)"

lemma r_bind_simps [simp]:
  "r_bind (Inl e) f = Inl e"
  "r_bind (Inr x) f = f x"
  by (simp_all add: r_bind_def)

lemma r_bind_Inr: "r_bind m f = Inr y \<longleftrightarrow> (\<exists>x. m = Inr x \<and> f x = Inr y)"
  by (cases m) simp_all

lemma r_bind_Inl: "r_bind m f = Inl e \<longleftrightarrow> m = Inl e \<or> (\<exists>x. m = Inr x \<and> f x = Inl e)"
  by (cases m) simp_all

text \<open>A loop whose body may raise: the first exception ends it.\<close>

fun r_map :: "('a \<Rightarrow> 'b result) \<Rightarrow> 'a list \<Rightarrow> 'b list result" where
  "r_map f [] = Inr []"
| "r_map f (x # xs) = r_bind (f x) (\<lambda>y. r_bind (r_map f xs) (\<lambda>ys. Inr (y # ys)))"

fun r_foldl :: "('s \<Rightarrow> 'a \<Rightarrow> 's result) \<Rightarrow> 's \<Rightarrow> 'a list \<Rightarrow> 's result" where
  "r_foldl f s [] = Inr s"
| "r_foldl f s (x # xs) = r_bind (f s x) (\<lambda>s'. r_foldl f s' xs)"

lemma r_map_Inr_length: "r_map f xs = Inr ys \<Longrightarrow> length ys = length xs"
  by (induction xs arbitrary: ys) (auto simp: r_bind_Inr)

lemma r_map_Inr_nth:
  "r_map f xs = Inr ys \<Longrightarrow> i < length xs \<Longrightarrow> f (xs ! i) = Inr (ys ! i)"
proof (induction xs arbitrary: ys i)
  case Nil
  then show ?case by simp
next
  case (Cons x xs)
  then show ?case by (cases i) (auto simp: r_bind_Inr)
qed

lemma r_map_Inr_list_all2: "r_map f xs = Inr ys \<longleftrightarrow> list_all2 (\<lambda>x y. f x = Inr y) xs ys"
  by (induction xs arbitrary: ys) (auto simp: r_bind_Inr list_all2_Cons1)

lemma r_map_Inr_set: "r_map f xs = Inr ys \<Longrightarrow> y \<in> set ys \<Longrightarrow> \<exists>x\<in>set xs. f x = Inr y"
  by (induction xs arbitrary: ys) (auto simp: r_bind_Inr)

lemma r_map_total: "(\<And>x. x \<in> set xs \<Longrightarrow> f x = Inr (g x)) \<Longrightarrow> r_map f xs = Inr (map g xs)"
  by (induction xs) auto

lemma r_foldl_append: "r_foldl f s (xs @ ys) = r_bind (r_foldl f s xs) (\<lambda>s'. r_foldl f s' ys)"
proof (induction xs arbitrary: s)
  case Nil
  show ?case by simp
next
  case (Cons x xs)
  then show ?case by (cases "f s x") simp_all
qed

lemma r_foldl_invariant:
  assumes "\<And>s x s'. P s \<Longrightarrow> x \<in> set xs \<Longrightarrow> f s x = Inr s' \<Longrightarrow> P s'"
    and "P s" and "r_foldl f s xs = Inr s'"
  shows "P s'"
  using assms
proof (induction xs arbitrary: s)
  case Nil
  then show ?case by simp
next
  case (Cons x xs)
  from Cons.prems(3) obtain t where t: "f s x = Inr t" "r_foldl f t xs = Inr s'"
    by (auto simp: r_bind_Inr)
  have "P t" using Cons.prems(1) [OF Cons.prems(2) _ t(1)] by simp
  show ?case
  proof (rule Cons.IH [OF _ \<open>P t\<close> t(2)])
    fix s y s' assume "P s" "y \<in> set xs" "f s y = Inr s'"
    then show "P s'" by (intro Cons.prems(1) [of s y s']) simp_all
  qed
qed

section \<open>Validation chains\<close>

text \<open>
  A \<open>__post_init__\<close> is a sequence of guards, each raising its own exception; the first failing
  guard decides. A chain is the list of its guards with their exceptions.
\<close>

type_synonym checks = "(bool \<times> py_error) list"

fun run_checks :: "checks \<Rightarrow> py_error option" where
  "run_checks [] = None"
| "run_checks ((ok, e) # cs) = (if ok then run_checks cs else Some e)"

definition validated :: "('a \<Rightarrow> checks) \<Rightarrow> 'a \<Rightarrow> 'a result" where
  "validated cs x = (case run_checks (cs x) of None \<Rightarrow> Inr x | Some e \<Rightarrow> Inl e)"

definition passes :: "checks \<Rightarrow> bool" where
  "passes cs \<longleftrightarrow> (\<forall>c\<in>set cs. fst c)"

lemma passes_simps [simp, checks_simps]:
  "passes []"
  "passes ((ok, e) # cs) \<longleftrightarrow> ok \<and> passes cs"
  "passes (cs @ cs') \<longleftrightarrow> passes cs \<and> passes cs'"
  by (auto simp: passes_def)

lemma passes_map: "passes (map (\<lambda>x. (p x, e x)) xs) \<longleftrightarrow> (\<forall>x\<in>set xs. p x)"
  by (auto simp: passes_def)

lemma passes_concat: "passes (concat css) \<longleftrightarrow> (\<forall>cs\<in>set css. passes cs)"
  by (auto simp: passes_def)

lemma run_checks_None: "run_checks cs = None \<longleftrightarrow> passes cs"
  by (induction cs rule: run_checks.induct) auto

lemma run_checks_append:
  "run_checks (cs @ cs') = (case run_checks cs of None \<Rightarrow> run_checks cs' | Some e \<Rightarrow> Some e)"
  by (induction cs rule: run_checks.induct) auto

lemma run_checks_Some: "run_checks cs = Some e \<Longrightarrow> (False, e) \<in> set cs"
  by (induction cs rule: run_checks.induct) (auto split: if_splits)

lemma validated_Inr [simp]: "validated cs x = Inr y \<longleftrightarrow> y = x \<and> passes (cs x)"
  by (auto simp: validated_def split: option.splits simp flip: run_checks_None)

lemma validated_passes: "passes (cs x) \<Longrightarrow> validated cs x = Inr x"
  by simp

lemma validated_Inl: "validated cs x = Inl e \<longleftrightarrow> run_checks (cs x) = Some e"
  by (auto simp: validated_def split: option.splits)

lemma validated_total: "\<not> passes (cs x) \<Longrightarrow> \<exists>e. validated cs x = Inl e"
  by (auto simp: validated_def split: option.splits simp flip: run_checks_None)

section \<open>Dictionaries\<close>

text \<open>
  A dict keeps its insertion order, and iteration over it depends on it: an association list with
  distinct keys. \<open>AList.update\<close> overwrites in place and appends a new key, as \<open>d[k] = v\<close> does.
\<close>

type_synonym ('k, 'v) dict = "('k \<times> 'v) list"

abbreviation dict_get :: "('k, 'v) dict \<Rightarrow> 'k \<Rightarrow> 'v option" where
  "dict_get \<equiv> map_of"

abbreviation dict_set :: "'k \<Rightarrow> 'v \<Rightarrow> ('k, 'v) dict \<Rightarrow> ('k, 'v) dict" where
  "dict_set \<equiv> AList.update"

definition dict_get_default :: "('k, 'v) dict \<Rightarrow> 'k \<Rightarrow> 'v \<Rightarrow> 'v" where
  "dict_get_default d k v = (case map_of d k of None \<Rightarrow> v | Some w \<Rightarrow> w)"

definition dict_setdefault :: "'k \<Rightarrow> 'v \<Rightarrow> ('k, 'v) dict \<Rightarrow> ('k, 'v) dict" where
  "dict_setdefault k v d = (case map_of d k of None \<Rightarrow> d @ [(k, v)] | Some _ \<Rightarrow> d)"

definition wf_dict :: "('k, 'v) dict \<Rightarrow> bool" where
  "wf_dict d \<longleftrightarrow> distinct (map fst d)"

lemma dict_get_set: "dict_get (dict_set k v d) k' = (if k' = k then Some v else dict_get d k')"
  by (simp add: update_conv')

lemma wf_dict_simps [simp]:
  "wf_dict []"
  "wf_dict [(k, v)]"
  by (simp_all add: wf_dict_def)

lemma wf_dict_set [intro, simp]: "wf_dict d \<Longrightarrow> wf_dict (dict_set k v d)"
  by (simp add: wf_dict_def distinct_update)

lemma dict_get_setdefault:
  "dict_get (dict_setdefault k v d) k' =
     (if k' = k \<and> dict_get d k = None then Some v else dict_get d k')"
  by (auto simp: dict_setdefault_def map_add_def split: option.splits)

lemma wf_dict_setdefault [intro, simp]: "wf_dict d \<Longrightarrow> wf_dict (dict_setdefault k v d)"
  by (auto simp: wf_dict_def dict_setdefault_def map_of_eq_None_iff split: option.splits)

lemma wf_dict_get: "wf_dict d \<Longrightarrow> (k, v) \<in> set d \<longleftrightarrow> dict_get d k = Some v"
  by (simp add: wf_dict_def)

lemma keys_dict_set: "fst ` set (dict_set k v d) = insert k (fst ` set d)"
  by (induction d) auto

lemma set_dict_set_subset: "set (dict_set k v d) \<subseteq> insert (k, v) (set d)"
  by (induction d) auto

lemma dict_get_default_set:
  "dict_get_default (dict_set k v d) k' w = (if k' = k then v else dict_get_default d k' w)"
  by (simp add: dict_get_default_def dict_get_set)

text \<open>\<open>{f(x): g(x) for x in xs}\<close>: a later entry overwrites an earlier one with the same key.\<close>

definition dict_of :: "('a \<Rightarrow> 'k) \<Rightarrow> ('a \<Rightarrow> 'v) \<Rightarrow> 'a list \<Rightarrow> ('k, 'v) dict" where
  "dict_of f g xs = foldl (\<lambda>d x. dict_set (f x) (g x) d) [] xs"

lemma wf_dict_foldl: "wf_dict d \<Longrightarrow> wf_dict (foldl (\<lambda>d x. dict_set (f x) (g x) d) d xs)"
  by (induction xs arbitrary: d) auto

lemma wf_dict_of [simp]: "wf_dict (dict_of f g xs)"
  by (simp add: dict_of_def wf_dict_foldl)

lemma dict_of_snoc: "dict_of f g (xs @ [x]) = dict_set (f x) (g x) (dict_of f g xs)"
  by (simp add: dict_of_def)

lemma dict_of_get:
  "dict_get (dict_of f g xs) k = map_option g (find (\<lambda>x. f x = k) (rev xs))"
  by (induction xs rule: rev_induct) (auto simp: dict_of_snoc dict_get_set, simp add: dict_of_def)

lemma dict_of_get_Some: "dict_get (dict_of f g xs) k = Some v \<Longrightarrow> \<exists>x\<in>set xs. f x = k \<and> g x = v"
  by (auto simp: dict_of_get find_Some_iff) (metis nth_mem length_rev set_rev)

lemma dict_of_get_None: "dict_get (dict_of f g xs) k = None \<longleftrightarrow> k \<notin> f ` set xs"
  by (auto simp: dict_of_get find_None_iff)

section \<open>Order-preserving duplicate removal\<close>

text \<open>\<open>tuple(dict.fromkeys(xs))\<close> keeps the first occurrence of each element, in order.\<close>

fun dedup :: "'a list \<Rightarrow> 'a list" where
  "dedup [] = []"
| "dedup (x # xs) = x # removeAll x (dedup xs)"

lemma set_dedup [simp]: "set (dedup xs) = set xs"
  by (induction xs) auto

lemma distinct_dedup [simp]: "distinct (dedup xs)"
  by (induction xs) (auto simp: distinct_removeAll)

lemma dedup_Nil [simp]: "dedup xs = [] \<longleftrightarrow> xs = []"
  by (cases xs) auto

lemma dedup_distinct: "distinct xs \<Longrightarrow> dedup xs = xs"
  by (induction xs) (auto simp: removeAll_id)

lemma dedup_idem [simp]: "dedup (dedup xs) = dedup xs"
  by (simp add: dedup_distinct)

lemma subseq_dedup: "subseq (dedup xs) xs"
proof (induction xs)
  case Nil
  show ?case by simp
next
  case (Cons x xs)
  have "subseq (removeAll x (dedup xs)) (dedup xs)"
    by (simp add: removeAll_filter_not_eq subseq_filter_left)
  with Cons show ?case by (auto intro: subseq_order.order_trans)
qed

lemma dedup_snoc: "dedup (xs @ [x]) = (if x \<in> set xs then dedup xs else dedup xs @ [x])"
  by (induction xs) (auto simp: removeAll_filter_not_eq)

lemma dedup_prefix: "dedup (dedup xs @ ys) = dedup (xs @ ys)"
  by (induction ys rule: rev_induct) (simp_all add: dedup_snoc flip: append_assoc)

text \<open>
  Grouping by a key, as \<open>d.setdefault(key(x), []).append(x)\<close> does for every element in turn: the
  group of a key holds exactly its elements in their order, the groups come in the order in which
  their keys were first seen.
\<close>

definition dict_append :: "'k \<Rightarrow> 'v \<Rightarrow> ('k, 'v list) dict \<Rightarrow> ('k, 'v list) dict" where
  "dict_append k x g = dict_set k (dict_get_default g k [] @ [x]) g"

definition group_by :: "('v \<Rightarrow> 'k) \<Rightarrow> 'v list \<Rightarrow> ('k, 'v list) dict" where
  "group_by f xs = foldl (\<lambda>g x. dict_append (f x) x g) [] xs"

lemma group_by_Nil [simp]: "group_by f [] = []"
  by (simp add: group_by_def)

lemma group_by_snoc: "group_by f (xs @ [x]) = dict_append (f x) x (group_by f xs)"
  by (simp add: group_by_def)

lemma wf_group_by [simp]: "wf_dict (group_by f xs)"
  by (induction xs rule: rev_induct) (auto simp: group_by_snoc dict_append_def)

lemma group_by_get:
  "dict_get (group_by f xs) k =
     (let gs = filter (\<lambda>x. f x = k) xs in if gs = [] then None else Some gs)"
proof (induction xs rule: rev_induct)
  case (snoc x xs)
  then show ?case
    by (auto simp: group_by_snoc dict_append_def dict_get_set dict_get_default_def Let_def
        split: if_splits)
qed simp

lemma group_by_mem:
  assumes "(k, gs) \<in> set (group_by f xs)"
  shows "gs = filter (\<lambda>x. f x = k) xs" and "gs \<noteq> []"
proof -
  have "dict_get (group_by f xs) k = Some gs" using assms wf_dict_get [OF wf_group_by] by metis
  then show "gs = filter (\<lambda>x. f x = k) xs" "gs \<noteq> []"
    by (auto simp: group_by_get Let_def split: if_splits)
qed

lemma map_fst_dict_set:
  "map fst (dict_set k v d) = (if k \<in> set (map fst d) then map fst d else map fst d @ [k])"
  by (induction d) auto

lemma keys_group_by: "map fst (group_by f xs) = dedup (map f xs)"
proof (induction xs rule: rev_induct)
  case (snoc x xs)
  have "set (map fst (group_by f xs)) = f ` set xs" unfolding snoc by simp
  then show ?case using snoc
    by (simp add: group_by_snoc dict_append_def map_fst_dict_set dedup_snoc)
qed simp

section \<open>Strings\<close>

definition py_space :: "char \<Rightarrow> bool" where
  "py_space c \<longleftrightarrow> (let n = of_char c :: nat in (9 \<le> n \<and> n \<le> 13) \<or> (28 \<le> n \<and> n \<le> 32))"

text \<open>\<open>s.strip()\<close> is empty exactly when every character is white space.\<close>

definition blank :: "string \<Rightarrow> bool" where
  "blank s \<longleftrightarrow> list_all py_space s"

definition truthy :: "string option \<Rightarrow> bool" where
  "truthy s \<longleftrightarrow> (case s of None \<Rightarrow> False | Some t \<Rightarrow> t \<noteq> [])"

definition py_or :: "string option \<Rightarrow> string \<Rightarrow> string" where
  "py_or s d = (case s of None \<Rightarrow> d | Some t \<Rightarrow> if t = [] then d else t)"

definition py_or_opt :: "string option \<Rightarrow> string option \<Rightarrow> string option" where
  "py_or_opt s d = (if truthy s then s else d)"

fun str_contains :: "string \<Rightarrow> string \<Rightarrow> bool" where
  "str_contains p [] \<longleftrightarrow> p = []"
| "str_contains p (c # cs) \<longleftrightarrow> take (length p) (c # cs) = p \<or> str_contains p cs"

definition str_before :: "char \<Rightarrow> string \<Rightarrow> string" where
  "str_before c s = takeWhile (\<lambda>d. d \<noteq> c) s"

definition str_starts :: "string \<Rightarrow> string \<Rightarrow> bool" where
  "str_starts p s \<longleftrightarrow> take (length p) s = p"

definition str_ends :: "string \<Rightarrow> string \<Rightarrow> bool" where
  "str_ends p s \<longleftrightarrow> length p \<le> length s \<and> drop (length s - length p) s = p"

definition char_lower :: "char \<Rightarrow> char" where
  "char_lower c = (let n = of_char c :: nat in if 65 \<le> n \<and> n \<le> 90 then char_of (n + 32) else c)"

definition str_lower :: "string \<Rightarrow> string" where
  "str_lower = map char_lower"

fun str_join :: "string \<Rightarrow> string list \<Rightarrow> string" where
  "str_join sep [] = []"
| "str_join sep [s] = s"
| "str_join sep (s # t # ss) = s @ sep @ str_join sep (t # ss)"

fun str_split :: "char \<Rightarrow> string \<Rightarrow> string list" where
  "str_split c [] = [[]]"
| "str_split c (d # ds) =
     (if d = c then [] # str_split c ds
      else (case str_split c ds of [] \<Rightarrow> [[d]] | s # ss \<Rightarrow> (d # s) # ss))"

lemma str_contains_iff: "str_contains p s \<longleftrightarrow> sublist p s"
proof (induction s)
  case Nil
  show ?case by simp
next
  case (Cons c cs)
  have "take (length p) (c # cs) = p \<longleftrightarrow> prefix p (c # cs)"
    by (metis append_eq_conv_conj prefix_def)
  with Cons show ?case by (simp add: sublist_Cons_right)
qed

lemma str_split_not_Nil [simp]: "str_split c s \<noteq> []"
  by (induction s) (auto split: list.splits)

lemma hd_str_split: "hd (str_split c s) = str_before c s"
  by (induction s) (auto simp: str_before_def split: list.splits)

text \<open>Splitting and joining at the same separator is the identity on strings.\<close>

lemma join_split: "str_join [c] (str_split c s) = s"
proof (induction s)
  case Nil
  show ?case by simp
next
  case (Cons d ds)
  obtain t ts where ts: "str_split c ds = t # ts"
    by (cases "str_split c ds") auto
  with Cons show ?case by (cases ts) auto
qed

text \<open>\<open>str(n)\<close> for an int.\<close>

fun nat_str :: "nat \<Rightarrow> string" where
  "nat_str n = (if n < 10 then [char_of (48 + n)] else nat_str (n div 10) @ [char_of (48 + n mod 10)])"

declare nat_str.simps [simp del]

definition int_str :: "int \<Rightarrow> string" where
  "int_str i = (if i < 0 then ''-'' @ nat_str (nat (- i)) else nat_str (nat i))"

definition pad0 :: "nat \<Rightarrow> nat \<Rightarrow> string" where
  "pad0 w n = (let s = nat_str n in replicate (w - length s) (CHR ''0'') @ s)"

lemma nat_str_not_Nil [simp]: "nat_str n \<noteq> []"
  by (subst nat_str.simps) simp

lemma int_str_not_Nil [simp]: "int_str i \<noteq> []"
  by (simp add: int_str_def)

definition char_upper :: "char \<Rightarrow> char" where
  "char_upper c = (let n = of_char c :: nat in if 97 \<le> n \<and> n \<le> 122 then char_of (n - 32) else c)"

definition str_upper :: "string \<Rightarrow> string" where
  "str_upper = map char_upper"

definition str_strip :: "string \<Rightarrow> string" where
  "str_strip s = rev (dropWhile py_space (rev (dropWhile py_space s)))"

text \<open>
  \<open>int(s)\<close>: surrounding white space, an optional sign, decimal digits with single underscores
  between them; \<open>None\<close> is the \<open>ValueError\<close>.
\<close>

definition digit_val :: "char \<Rightarrow> nat option" where
  "digit_val c = (let n = of_char c :: nat in if 48 \<le> n \<and> n \<le> 57 then Some (n - 48) else None)"

fun parse_digits :: "nat \<Rightarrow> string \<Rightarrow> nat option" where
  "parse_digits acc [] = Some acc"
| "parse_digits acc (c # cs) =
     (case digit_val c of
        Some d \<Rightarrow> parse_digits (10 * acc + d) cs
      | None \<Rightarrow>
          if c = CHR ''_'' then
            (case cs of
               [] \<Rightarrow> None
             | d # ds \<Rightarrow> (case digit_val d of None \<Rightarrow> None | Some _ \<Rightarrow> parse_digits acc cs))
          else None)"

definition parse_nat :: "string \<Rightarrow> nat option" where
  "parse_nat s =
     (case s of [] \<Rightarrow> None
      | c # cs \<Rightarrow> (case digit_val c of None \<Rightarrow> None | Some d \<Rightarrow> parse_digits d cs))"

definition parse_int :: "string \<Rightarrow> int option" where
  "parse_int s =
     (case str_strip s of
        [] \<Rightarrow> None
      | c # cs \<Rightarrow>
          if c = CHR ''-'' then map_option (\<lambda>n. - int n) (parse_nat cs)
          else if c = CHR ''+'' then map_option int (parse_nat cs)
          else map_option int (parse_nat (c # cs)))"

text \<open>Reading back what \<open>str\<close> printed.\<close>

lemma digit_val_char: "n < 10 \<Longrightarrow> digit_val (char_of (48 + n)) = Some n"
  by (simp add: digit_val_def Let_def take_bit_eq_mod)

lemma parse_digits_append:
  "\<forall>c\<in>set s. digit_val c \<noteq> None \<Longrightarrow>
     parse_digits acc (s @ t) = (case parse_digits acc s of None \<Rightarrow> None | Some a \<Rightarrow> parse_digits a t)"
  by (induction s arbitrary: acc) (auto split: option.splits)

lemma nat_str_digits: "\<forall>c\<in>set (nat_str n). digit_val c \<noteq> None"
proof (induction n rule: nat_str.induct)
  case (1 n)
  then show ?case by (subst nat_str.simps) (auto simp: digit_val_char)
qed

lemma parse_digits_nat_str: "parse_digits 0 (nat_str n) = Some n"
proof (induction n rule: nat_str.induct)
  case (1 n)
  show ?case
  proof (cases "n < 10")
    case True
    then show ?thesis by (subst nat_str.simps) (simp add: digit_val_char)
  next
    case False
    with 1 have "parse_digits 0 (nat_str (n div 10)) = Some (n div 10)" by simp
    with False show ?thesis
      by (subst nat_str.simps) (simp add: parse_digits_append nat_str_digits digit_val_char)
  qed
qed

lemma parse_nat_str: "parse_nat (nat_str n) = Some n"
proof -
  obtain c cs where s: "nat_str n = c # cs" by (cases "nat_str n") auto
  moreover have "digit_val c \<noteq> None" using nat_str_digits [of n] s by simp
  ultimately show ?thesis using parse_digits_nat_str [of n] by (auto simp: parse_nat_def)
qed

lemma digit_not_space: "digit_val c \<noteq> None \<Longrightarrow> \<not> py_space c"
  by (auto simp: digit_val_def py_space_def Let_def split: if_splits)

lemma str_strip_id:
  "s \<noteq> [] \<Longrightarrow> \<not> py_space (hd s) \<Longrightarrow> \<not> py_space (last s) \<Longrightarrow> str_strip s = s"
proof -
  assume "s \<noteq> []" "\<not> py_space (hd s)" "\<not> py_space (last s)"
  then have "dropWhile py_space s = s" "dropWhile py_space (rev s) = rev s"
    by (simp_all add: dropWhile_eq_self_iff hd_rev)
  then show "str_strip s = s" by (simp add: str_strip_def)
qed

lemma parse_int_str: "parse_int (int_str i) = Some i"
proof (cases "i < 0")
  case True
  have "last (nat_str (nat (- i))) \<in> set (nat_str (nat (- i)))" by simp
  then have "\<not> py_space (last (nat_str (nat (- i))))"
    using nat_str_digits digit_not_space by blast
  then have "str_strip (CHR ''-'' # nat_str (nat (- i))) = CHR ''-'' # nat_str (nat (- i))"
    by (intro str_strip_id) (simp_all add: py_space_def)
  with True show ?thesis by (simp add: parse_int_def int_str_def parse_nat_str)
next
  case False
  obtain c cs where s: "nat_str (nat i) = c # cs" by (cases "nat_str (nat i)") auto
  have d: "digit_val c \<noteq> None" "digit_val (last (c # cs)) \<noteq> None"
    using nat_str_digits [of "nat i"] unfolding s by (blast intro: last_in_set list.set_intros)+
  then have "str_strip (c # cs) = c # cs"
    using digit_not_space by (intro str_strip_id) auto
  moreover have "c \<noteq> CHR ''-''" "c \<noteq> CHR ''+''" using d(1) by (auto simp: digit_val_def)
  ultimately show ?thesis
    using False parse_nat_str [of "nat i"] s by (simp add: parse_int_def int_str_def)
qed

section \<open>Lists\<close>

lemma list_all2_left: "list_all2 P xs ys \<Longrightarrow> x \<in> set xs \<Longrightarrow> \<exists>y\<in>set ys. P x y"
  by (induction rule: list_all2_induct) auto

lemma list_all2_right: "list_all2 P xs ys \<Longrightarrow> y \<in> set ys \<Longrightarrow> \<exists>x\<in>set xs. P x y"
  by (induction rule: list_all2_induct) auto

lemma filter_concat_length:
  assumes "\<And>xs. xs \<in> set xss \<Longrightarrow> filter P xs \<noteq> []"
  shows "length xss \<le> length (filter P (concat xss))"
  using assms
proof (induction xss)
  case (Cons xs xss)
  have "filter P xs \<noteq> []" using Cons.prems by simp
  then have "1 \<le> length (filter P xs)" by (simp add: Suc_leI)
  with Cons show ?case by fastforce
qed simp

end
