(* ===== verification/PyDecimal.thy ===== *)
theory PyDecimal
  imports Prelude Complex_Main
begin

text \<open>
  Python's \<open>decimal.Decimal\<close> under the default context: 28 significant digits, ROUND_HALF_EVEN.
  A finite Decimal is its numerical value, a rational; \<open>+\<close>, \<open>-\<close>, \<open>*\<close>, \<open>/\<close> and \<open>abs\<close>
  round their exact result to 28 significant digits, comparisons and the constructor are exact.
  Not modelled: NaN and the infinities (every comparison of the source with one raises or fails
  its guard), the exponent limits at \<open>10 ^ 999999\<close>, and trailing zeros, which numerical equality
  ignores and only \<open>str\<close> shows.
\<close>

section \<open>Rounding to 28 significant digits\<close>

text \<open>The number of decimal digits of a natural number.\<close>

fun digits :: "nat \<Rightarrow> nat" where
  "digits n = (if n < 10 then 1 else Suc (digits (n div 10)))"

declare digits.simps [simp del]

lemma digits_pos [simp]: "0 < digits n"
  by (subst digits.simps) simp

lemma digits_upper: "n < 10 ^ digits n"
proof (induction n rule: digits.induct)
  case (1 n)
  show ?case
  proof (cases "n < 10")
    case True
    then show ?thesis by (simp add: digits.simps [of n])
  next
    case False
    with 1 have "n div 10 < 10 ^ digits (n div 10)" by simp
    then have "n < 10 * 10 ^ digits (n div 10)" by linarith
    with False show ?thesis by (simp add: digits.simps [of n])
  qed
qed

lemma digits_lower: "0 < n \<Longrightarrow> 10 ^ (digits n - 1) \<le> n"
proof (induction n rule: digits.induct)
  case (1 n)
  show ?case
  proof (cases "n < 10")
    case True
    with 1 show ?thesis by (simp add: digits.simps [of n])
  next
    case False
    then have "0 < n div 10" by simp
    with 1 False have "10 ^ (digits (n div 10) - 1) \<le> n div 10" by simp
    then have "10 * 10 ^ (digits (n div 10) - 1) \<le> n" by linarith
    moreover have "10 * 10 ^ (digits (n div 10) - 1) = (10::nat) ^ digits (n div 10)"
      by (metis Suc_pred' digits_pos power_Suc)
    ultimately show ?thesis using False by (simp add: digits.simps [of n])
  qed
qed

text \<open>The adjusted exponent: the power of ten of the first significant digit of a positive value.\<close>

definition adjusted :: "rat \<Rightarrow> int" where
  "adjusted a =
     (if 1 \<le> a then int (digits (nat \<lfloor>a\<rfloor>)) - 1 else - int (digits (nat (\<lceil>1 / a\<rceil> - 1))))"

lemma adjusted_lower:
  assumes "0 < a" shows "10 powi adjusted a \<le> a"
proof (cases "1 \<le> a")
  case True
  then have pos: "0 < nat \<lfloor>a\<rfloor>" by simp
  have "(10::rat) ^ (digits (nat \<lfloor>a\<rfloor>) - 1) \<le> of_nat (nat \<lfloor>a\<rfloor>)"
    using digits_lower [OF pos] by (metis of_nat_le_iff of_nat_numeral of_nat_power)
  also have "\<dots> \<le> a" using True by simp
  finally have "(10::rat) ^ (digits (nat \<lfloor>a\<rfloor>) - 1) \<le> a" .
  moreover have "nat (int (digits (nat \<lfloor>a\<rfloor>)) - 1) = digits (nat \<lfloor>a\<rfloor>) - 1" by simp
  moreover have "0 \<le> int (digits (nat \<lfloor>a\<rfloor>)) - 1" using digits_pos [of "nat \<lfloor>a\<rfloor>"] by linarith
  ultimately show ?thesis
    using True by (simp add: adjusted_def power_int_def del: digits_pos)
next
  case False
  define m where "m = nat (\<lceil>1 / a\<rceil> - 1)"
  have "1 < 1 / a" using False assms by simp
  then have "1 < \<lceil>1 / a\<rceil>" by linarith
  then have "int m + 1 = \<lceil>1 / a\<rceil>" unfolding m_def by linarith
  then have "1 / a \<le> of_nat m + 1"
    by (metis le_of_int_ceiling of_int_1 of_int_add of_int_of_nat_eq)
  also have "of_nat m + 1 \<le> (10::rat) ^ digits m"
    using digits_upper [of m] by (metis Suc_leI of_nat_Suc of_nat_le_iff of_nat_numeral of_nat_power add.commute)
  finally have "inverse ((10::rat) ^ digits m) \<le> a"
    using assms by (simp add: field_simps)
  moreover have "adjusted a = - int (digits m)" using False by (simp add: adjusted_def m_def)
  ultimately show ?thesis by (simp only: power_int_minus power_int_of_nat)
qed

lemma adjusted_upper:
  assumes "0 < a" shows "a < 10 powi (adjusted a + 1)"
proof (cases "1 \<le> a")
  case True
  have "a < of_int \<lfloor>a\<rfloor> + 1" by linarith
  then have "a < of_nat (nat \<lfloor>a\<rfloor>) + 1" using True by simp
  also have "\<dots> \<le> (10::rat) ^ digits (nat \<lfloor>a\<rfloor>)"
    using digits_upper [of "nat \<lfloor>a\<rfloor>"]
    by (metis Suc_leI of_nat_Suc of_nat_le_iff of_nat_numeral of_nat_power add.commute)
  finally show ?thesis
    using True by (simp add: adjusted_def)
next
  case False
  define m where "m = nat (\<lceil>1 / a\<rceil> - 1)"
  have "1 < 1 / a" using False assms by simp
  then have c: "1 < \<lceil>1 / a\<rceil>" by linarith
  then have m: "0 < m" "int m = \<lceil>1 / a\<rceil> - 1" unfolding m_def by linarith+
  have "of_nat m < 1 / a" using m(2) by (metis less_ceiling_iff of_int_of_nat_eq diff_less_eq less_add_one add.commute lessI)
  moreover have "(10::rat) ^ (digits m - 1) \<le> of_nat m"
    using digits_lower [OF m(1)] by (metis of_nat_le_iff of_nat_numeral of_nat_power)
  ultimately have "(10::rat) ^ (digits m - 1) < 1 / a" by linarith
  then have "a < inverse ((10::rat) ^ (digits m - 1))"
    using assms by (simp add: field_simps)
  moreover have "adjusted a + 1 = - int (digits m - 1)"
    using False digits_pos [of m] by (simp add: adjusted_def m_def of_nat_diff del: digits_pos)
  ultimately show ?thesis by (simp only: power_int_minus power_int_of_nat)
qed

lemma adjusted_unique_upper:
  assumes "0 < a" and "a < 10 powi k" shows "adjusted a < k"
proof -
  have "(10::rat) powi adjusted a < 10 powi k"
    using adjusted_lower [OF assms(1)] assms(2) by linarith
  then show ?thesis
    using power_int_increasing [of k "adjusted a" "10::rat"] by (rule_tac ccontr) simp
qed

text \<open>Rounding a rational to the nearest integer, ties to the even neighbour.\<close>

definition half_even :: "rat \<Rightarrow> int" where
  "half_even x =
     (let n = \<lfloor>x\<rfloor>; r = x - of_int n
      in if r < 1 / 2 then n else if 1 / 2 < r then n + 1 else if even n then n else n + 1)"

lemma half_even_int [simp]: "half_even (of_int i) = i"
  by (simp add: half_even_def)

lemma half_even_nonneg: "0 \<le> x \<Longrightarrow> 0 \<le> half_even x"
  by (auto simp: half_even_def Let_def)

lemma half_even_dist: "\<bar>of_int (half_even x) - x\<bar> \<le> 1 / 2"
proof -
  have f: "of_int \<lfloor>x\<rfloor> \<le> x" "x < of_int \<lfloor>x\<rfloor> + 1" by linarith+
  consider "half_even x = \<lfloor>x\<rfloor>" "x - of_int \<lfloor>x\<rfloor> \<le> 1 / 2"
    | "half_even x = \<lfloor>x\<rfloor> + 1" "1 / 2 \<le> x - of_int \<lfloor>x\<rfloor>"
    unfolding half_even_def Let_def by (metis linorder_not_less order_less_imp_le)
  then show ?thesis
  proof cases
    case 1
    with f show ?thesis by (simp only: abs_le_iff) linarith
  next
    case 2
    with f show ?thesis by (simp only: abs_le_iff of_int_add of_int_1) linarith
  qed
qed

lemma half_even_pos: "1 \<le> x \<Longrightarrow> 0 < half_even x"
  by (auto simp: half_even_def Let_def)

definition prec :: int where
  "prec = 28"

definition quantum :: "rat \<Rightarrow> rat" where
  "quantum a = 10 powi (adjusted a - (prec - 1))"

definition dround :: "rat \<Rightarrow> rat" where
  "dround x =
     (if x = 0 then 0
      else let a = \<bar>x\<bar>; q = quantum a in sgn x * (of_int (half_even (a / q)) * q))"

lemma quantum_pos [simp]: "0 < quantum a"
  by (simp add: quantum_def)

lemma dround_0 [simp]: "dround 0 = 0"
  by (simp add: dround_def)

lemma dround_minus [simp]: "dround (- x) = - dround x"
  by (simp add: dround_def Let_def sgn_if)

lemma scaled_ge_1:
  assumes "0 < a" shows "1 \<le> a / quantum a"
proof -
  have "(10::rat) powi (adjusted a - (prec - 1)) \<le> 10 powi adjusted a"
    by (rule power_int_increasing) (simp_all add: prec_def)
  with adjusted_lower [OF assms] have "quantum a \<le> a" by (simp add: quantum_def)
  then show ?thesis by simp
qed

lemma dround_pos: "0 < x \<Longrightarrow> 0 < dround x"
  using half_even_pos [OF scaled_ge_1] by (simp add: dround_def Let_def)

lemma dround_pos_iff [simp]: "0 < dround x \<longleftrightarrow> 0 < x"
proof (cases x "0 :: rat" rule: linorder_cases)
  case less
  then have "0 < dround (- x)" by (intro dround_pos) simp
  with less show ?thesis by simp
qed (simp_all add: dround_pos)

lemma dround_neg_iff [simp]: "dround x < 0 \<longleftrightarrow> x < 0"
  using dround_pos_iff [of "- x"] by (simp del: dround_pos_iff)

lemma dround_nonneg_iff [simp]: "0 \<le> dround x \<longleftrightarrow> 0 \<le> x"
  using dround_neg_iff [of x] by linarith

lemma dround_nonpos_iff [simp]: "dround x \<le> 0 \<longleftrightarrow> x \<le> 0"
  using dround_pos_iff [of x] by linarith

lemma dround_eq_0_iff [simp]: "dround x = 0 \<longleftrightarrow> x = 0"
  using dround_neg_iff [of x] dround_pos_iff [of x]
  by (cases x "0 :: rat" rule: linorder_cases) (auto simp del: dround_neg_iff dround_pos_iff)

text \<open>
  A value with at most 28 significant digits is not changed: \<open>i\<close> units of \<open>10 powi k\<close>
  with \<open>\<bar>i\<bar> < 10 ^ 28\<close>.
\<close>

lemma dround_exact:
  assumes "x = of_int i * 10 powi k" and "\<bar>i\<bar> < 10 ^ 28"
  shows "dround x = x"
proof (cases "x = 0")
  case False
  define a where "a = \<bar>x\<bar>"
  have a: "0 < a" using False by (simp add: a_def)
  have "a = of_int \<bar>i\<bar> * 10 powi k"
    using assms(1) by (simp add: a_def abs_mult)
  moreover have "of_int \<bar>i\<bar> < (10::rat) ^ 28"
    using assms(2) by (metis of_int_less_iff of_int_numeral of_int_power)
  ultimately have "a < 10 ^ 28 * 10 powi k" by simp
  also have "\<dots> = 10 powi (28 + k)" by (simp add: power_int_add)
  finally have "adjusted a < 28 + k" by (rule adjusted_unique_upper [OF a])
  then have e: "0 \<le> k - (adjusted a - (prec - 1))" by (simp add: prec_def)
  have "a / quantum a = of_int \<bar>i\<bar> * 10 powi (k - (adjusted a - (prec - 1)))"
    using \<open>a = of_int \<bar>i\<bar> * 10 powi k\<close> by (simp add: quantum_def power_int_diff)
  also have "\<dots> = of_int (\<bar>i\<bar> * 10 ^ nat (k - (adjusted a - (prec - 1))))"
    using e by (simp add: power_int_def)
  finally have "of_int (half_even (a / quantum a)) = a / quantum a"
    by (simp only: half_even_int)
  then have "of_int (half_even (a / quantum a)) * quantum a = a" by (simp add: less_imp_neq [symmetric])
  then show ?thesis using False by (simp add: dround_def Let_def a_def sgn_mult_abs)
qed simp

lemma dround_of_int: "\<bar>i\<bar> < 10 ^ 28 \<Longrightarrow> dround (of_int i) = of_int i"
  by (rule dround_exact [where k = 0]) simp_all

lemma dround_numeral [simp]: "numeral n < (10::int) ^ 28 \<Longrightarrow> dround (numeral n) = numeral n"
  using dround_of_int [of "numeral n"] by simp

lemma dround_1 [simp]: "dround 1 = 1"
  using dround_of_int [of 1] by simp

text \<open>The rounding error is at most half a unit in the 28th digit.\<close>

lemma dround_error: "\<bar>dround x - x\<bar> \<le> \<bar>x\<bar> / (2 * 10 ^ 27)"
proof (cases "x = 0")
  case False
  define a where "a = \<bar>x\<bar>"
  have a: "0 < a" using False by (simp add: a_def)
  have q: "0 < quantum a" by simp
  have "x = sgn x * a" by (simp add: a_def sgn_mult_abs)
  then have "\<bar>dround x - x\<bar> = \<bar>sgn x * (of_int (half_even (a / quantum a)) * quantum a - a)\<bar>"
    using False by (simp add: dround_def Let_def a_def algebra_simps)
  also have "\<dots> = \<bar>of_int (half_even (a / quantum a)) * quantum a - a\<bar>"
    using False by (simp add: abs_mult abs_sgn_eq)
  also have "\<dots> = \<bar>of_int (half_even (a / quantum a)) - a / quantum a\<bar> * quantum a"
  proof -
    have "of_int (half_even (a / quantum a)) * quantum a - a
        = (of_int (half_even (a / quantum a)) - a / quantum a) * quantum a"
      using q by (simp add: left_diff_distrib less_imp_neq [symmetric])
    then show ?thesis by (simp only: abs_mult abs_of_pos [OF q])
  qed
  also have "\<dots> \<le> 1 / 2 * quantum a"
    using q by (intro mult_right_mono half_even_dist) (rule less_imp_le)
  also have "\<dots> \<le> a / (2 * 10 ^ 27)"
  proof -
    have "quantum a * 10 ^ 27 = 10 powi adjusted a"
      by (simp add: quantum_def prec_def power_int_diff)
    with adjusted_lower [OF a] have "quantum a * 10 ^ 27 \<le> a" by simp
    then show ?thesis by (simp add: field_simps)
  qed
  finally show ?thesis by (simp add: a_def)
qed simp

section \<open>The Decimal type\<close>

text \<open>
  \<open>Decimal\<close> values with Python's operators. They are no ring (addition is not associative), so
  only the operator classes and the linear order are instantiated.
\<close>

datatype decimal = Dec (dec_val: rat)

instantiation decimal :: "{zero, one, plus, minus, uminus, times, abs}"
begin

definition "0 = Dec 0"

definition "1 = Dec 1"

definition "x + y = Dec (dround (dec_val x + dec_val y))"

definition "x - y = Dec (dround (dec_val x - dec_val y))"

definition "- x = Dec (dround (- dec_val x))"

definition "x * y = Dec (dround (dec_val x * dec_val y))"

definition "\<bar>x\<bar> = Dec (dround \<bar>dec_val x\<bar>)"

instance ..

end

instantiation decimal :: linorder
begin

definition "x \<le> y \<longleftrightarrow> dec_val x \<le> dec_val y"

definition "x < y \<longleftrightarrow> dec_val x < dec_val y"

instance
  by standard (auto simp: less_eq_decimal_def less_decimal_def decimal.expand)

end

lemmas decimal_defs =
  zero_decimal_def one_decimal_def plus_decimal_def minus_decimal_def uminus_decimal_def
  times_decimal_def abs_decimal_def less_eq_decimal_def less_decimal_def

lemma decimal_eq_iff: "x = y \<longleftrightarrow> dec_val x = dec_val y"
  by (auto intro: decimal.expand)

lemma dec_val_simps [simp]:
  "dec_val 0 = 0"
  "dec_val 1 = 1"
  "dec_val (x + y) = dround (dec_val x + dec_val y)"
  "dec_val (x - y) = dround (dec_val x - dec_val y)"
  "dec_val (- x) = dround (- dec_val x)"
  "dec_val (x * y) = dround (dec_val x * dec_val y)"
  "dec_val \<bar>x\<bar> = dround \<bar>dec_val x\<bar>"
  by (simp_all add: decimal_defs)

lemma Dec_simps [simp]:
  "Dec a + Dec b = Dec (dround (a + b))"
  "Dec a - Dec b = Dec (dround (a - b))"
  "Dec a * Dec b = Dec (dround (a * b))"
  "Dec a \<le> Dec b \<longleftrightarrow> a \<le> b"
  "Dec a < Dec b \<longleftrightarrow> a < b"
  "Dec a = 0 \<longleftrightarrow> a = 0"
  "0 = Dec a \<longleftrightarrow> a = 0"
  "Dec 0 = 0"
  "Dec 1 = 1"
  by (simp_all add: decimal_eq_iff less_eq_decimal_def less_decimal_def)

lemma Dec_zero_simps [simp]:
  "Dec a + 0 = Dec (dround a)"
  "0 + Dec a = Dec (dround a)"
  "Dec a - 0 = Dec (dround a)"
  "Dec a * 0 = 0"
  "0 * Dec a = 0"
  "Dec a - Dec a = 0"
  "0 \<le> Dec a \<longleftrightarrow> 0 \<le> a"
  "0 < Dec a \<longleftrightarrow> 0 < a"
  "Dec a \<le> 0 \<longleftrightarrow> a \<le> 0"
  "Dec a < 0 \<longleftrightarrow> a < 0"
  "(0 :: decimal) + 0 = 0"
  "(0 :: decimal) - 0 = 0"
  "\<bar>0 :: decimal\<bar> = 0"
  by (simp_all add: decimal_eq_iff less_eq_decimal_def less_decimal_def)

lemma decimal_one_simps [simp]:
  "(0 :: decimal) \<le> 1" "(0 :: decimal) < 1" "Dec a \<le> 1 \<longleftrightarrow> a \<le> 1" "1 \<le> Dec a \<longleftrightarrow> 1 \<le> a"
  by (simp_all add: less_eq_decimal_def less_decimal_def)

lemma decimal_sub_self [simp]: "(x :: decimal) - x = 0"
  by (simp add: decimal_eq_iff)

lemma decimal_mult_zero [simp]: "x * 0 = (0 :: decimal)" "0 * x = (0 :: decimal)"
  by (simp_all add: decimal_eq_iff less_eq_decimal_def less_decimal_def)

lemma decimal_nonneg_add [intro]: "0 \<le> x \<Longrightarrow> 0 \<le> y \<Longrightarrow> 0 \<le> x + (y :: decimal)"
  by (simp add: less_eq_decimal_def)

lemma decimal_nonneg_mult [intro]: "0 \<le> x \<Longrightarrow> 0 \<le> y \<Longrightarrow> 0 \<le> x * (y :: decimal)"
  by (simp add: less_eq_decimal_def)

lemma decimal_pos_add [intro]: "0 \<le> x \<Longrightarrow> 0 < y \<Longrightarrow> 0 < x + (y :: decimal)"
  by (simp add: less_eq_decimal_def less_decimal_def)

lemma decimal_pos_mult [intro]: "0 < x \<Longrightarrow> 0 < y \<Longrightarrow> 0 < x * (y :: decimal)"
  by (simp add: less_eq_decimal_def less_decimal_def)

lemma decimal_nonneg_sub_iff: "0 \<le> x - y \<longleftrightarrow> y \<le> (x :: decimal)"
  by (simp add: less_eq_decimal_def)

lemma decimal_sub_eq_0_iff: "x - y = 0 \<longleftrightarrow> x = (y :: decimal)"
  by (simp add: decimal_eq_iff)

lemma decimal_abs_nonneg [simp]: "0 \<le> \<bar>x :: decimal\<bar>"
  by (simp add: less_eq_decimal_def)

text \<open>Division raises on a zero divisor.\<close>

definition dec_div :: "decimal \<Rightarrow> decimal \<Rightarrow> decimal result" where
  "dec_div x y =
     (if y = 0 then Inl (if x = 0 then InvalidOperation else ZeroDivision)
      else Inr (Dec (dround (dec_val x / dec_val y))))"

lemma dec_div_Inr: "y \<noteq> 0 \<Longrightarrow> dec_div x y = Inr (Dec (dround (dec_val x / dec_val y)))"
  by (simp add: dec_div_def)

lemma dec_div_nonneg: "0 \<le> x \<Longrightarrow> 0 \<le> y \<Longrightarrow> dec_div x y = Inr z \<Longrightarrow> 0 \<le> z"
  by (auto simp: dec_div_def less_eq_decimal_def split: if_splits)

text \<open>\<open>sum(xs)\<close> starts from the integer 0 and rounds at every addition.\<close>

definition dec_sum :: "decimal list \<Rightarrow> decimal" where
  "dec_sum xs = foldl (+) 0 xs"

lemma foldl_add_nonneg:
  "0 \<le> a \<Longrightarrow> \<forall>x\<in>set xs. 0 \<le> x \<Longrightarrow> (0 :: decimal) \<le> foldl (+) a xs"
  by (induction xs arbitrary: a) auto

lemma foldl_add_pos:
  "0 < a \<Longrightarrow> \<forall>x\<in>set xs. 0 \<le> x \<Longrightarrow> (0 :: decimal) < foldl (+) a xs"
proof (induction xs arbitrary: a)
  case (Cons x xs)
  then have "0 < a + x" by (simp add: less_eq_decimal_def less_decimal_def)
  with Cons show ?case by simp
qed simp

lemma dec_sum_nonneg: "\<forall>x\<in>set xs. 0 \<le> x \<Longrightarrow> 0 \<le> dec_sum xs"
  by (simp add: dec_sum_def foldl_add_nonneg)

lemma dec_sum_pos: "xs \<noteq> [] \<Longrightarrow> \<forall>x\<in>set xs. 0 < x \<Longrightarrow> 0 < dec_sum xs"
  by (cases xs) (auto simp: dec_sum_def intro!: foldl_add_pos)

section \<open>Values on a common grid\<close>

text \<open>
  Exchange quantities and prices are multiples of a step \<open>10 powi (- k)\<close>. \<open>on_grid k x\<close> says that
  \<open>x\<close> is such a multiple and has at most 28 digits there: sums that stay on the grid are exact.
\<close>

definition on_grid :: "int \<Rightarrow> rat \<Rightarrow> bool" where
  "on_grid k x \<longleftrightarrow> (\<exists>i. x = of_int i * 10 powi (- k) \<and> \<bar>i\<bar> < 10 ^ 28)"

lemma on_grid_exact: "on_grid k x \<Longrightarrow> dround x = x"
  by (auto simp: on_grid_def intro: dround_exact)

lemma on_grid_0 [simp]: "on_grid k 0"
  by (auto simp: on_grid_def intro: exI [of _ 0])

lemma on_grid_intI: "\<bar>i\<bar> < 10 ^ 28 \<Longrightarrow> on_grid 0 (of_int i)"
  by (auto simp: on_grid_def)

lemma on_grid_numeral: "numeral n < (10::int) ^ 28 \<Longrightarrow> on_grid 0 (numeral n)"
  using on_grid_intI [of "numeral n"] by simp

lemma on_grid_diff:
  assumes "on_grid k x" "on_grid k y" "0 \<le> y" "y \<le> x"
  shows "on_grid k (x - y)"
proof -
  obtain i j where i: "x = of_int i * 10 powi (- k)" "\<bar>i\<bar> < 10 ^ 28"
    and j: "y = of_int j * 10 powi (- k)" using assms(1,2) by (auto simp: on_grid_def)
  have p: "0 < (10::rat) powi (- k)" by simp
  from assms(3,4) p have "0 \<le> (of_int j :: rat)" "(of_int j :: rat) \<le> of_int i"
    unfolding i j by (simp_all add: zero_le_mult_iff mult_le_cancel_right del: of_int_le_iff of_int_0_le_iff)
  then have "0 \<le> j" "j \<le> i" by simp_all
  with i j have "x - y = of_int (i - j) * 10 powi (- k) \<and> \<bar>i - j\<bar> < 10 ^ 28"
    by (simp add: left_diff_distrib)
  then show ?thesis unfolding on_grid_def by blast
qed

lemma on_grid_add:
  assumes "on_grid k x" "on_grid k y" "on_grid k z" "0 \<le> x" "0 \<le> y" "x + y \<le> z"
  shows "on_grid k (x + y)"
proof -
  have "on_grid k (z - (z - (x + y)))"
  proof -
    have "on_grid k (z - x)" using assms by (intro on_grid_diff) auto
    then have "on_grid k (z - x - y)" using assms by (intro on_grid_diff) auto
    then have "on_grid k (z - (z - x - y))" using assms by (intro on_grid_diff) auto
    then show ?thesis by simp
  qed
  then show ?thesis by simp
qed

text \<open>
  \<open>fine k x\<close>: \<open>x\<close> is a multiple of \<open>10 powi (- k)\<close>. Sums and products of such values are again
  multiples, and one that stays below \<open>10 powi (28 - k)\<close> is not rounded.
\<close>

definition fine :: "int \<Rightarrow> rat \<Rightarrow> bool" where
  "fine k x \<longleftrightarrow> (\<exists>i. x = of_int i * 10 powi (- k))"

lemma fine_exact:
  assumes "fine k x" and "\<bar>x\<bar> < 10 powi (28 - k)"
  shows "dround x = x"
proof -
  obtain i where i: "x = of_int i * 10 powi (- k)" using assms(1) by (auto simp: fine_def)
  have p: "0 < (10::rat) powi (- k)" by simp
  have "(10::rat) powi (28 - k) = 10 ^ 28 * 10 powi (- k)"
    by (simp add: power_int_diff power_int_minus_left field_simps power_int_minus)
  with assms(2) p have "of_int \<bar>i\<bar> < (10::rat) ^ 28"
    by (simp add: i abs_mult mult_less_cancel_right)
  then have "\<bar>i\<bar> < 10 ^ 28" by (metis of_int_less_iff of_int_numeral of_int_power)
  with i show ?thesis by (rule dround_exact)
qed

lemma fine_0 [simp, intro]: "fine k 0"
  by (auto simp: fine_def intro: exI [of _ 0])

lemma fine_numeral [simp, intro]: "fine 0 (numeral n)"
  by (auto simp: fine_def intro: exI [of _ "numeral n"])

lemma fine_1 [simp, intro]: "fine 0 1"
  by (auto simp: fine_def intro: exI [of _ 1])

lemma fine_minus [intro]: "fine k x \<Longrightarrow> fine k (- x)"
  by (auto simp: fine_def intro: exI [of _ "- i" for i])

lemma fine_add [intro]: "fine k x \<Longrightarrow> fine k y \<Longrightarrow> fine k (x + y)"
  unfolding fine_def by (metis distrib_right of_int_add)

lemma fine_diff [intro]: "fine k x \<Longrightarrow> fine k y \<Longrightarrow> fine k (x - y)"
  unfolding fine_def by (metis left_diff_distrib of_int_diff)

lemma fine_mult [intro]:
  assumes "fine k x" "fine l y" shows "fine (k + l) (x * y)"
proof -
  obtain i j where "x = of_int i * 10 powi (- k)" "y = of_int j * 10 powi (- l)"
    using assms by (auto simp: fine_def)
  moreover have "(10::rat) powi (- (k + l)) = 10 powi (- k) * 10 powi (- l)"
    using power_int_add [of "10::rat" "- k" "- l"] by simp
  ultimately have "x * y = of_int (i * j) * 10 powi (- (k + l))"
    by (simp only: of_int_mult mult.assoc mult.commute mult.left_commute)
  then show ?thesis unfolding fine_def by blast
qed

end
