(* ===== verification/PyTime.thy ===== *)
theory PyTime
  imports Prelude
begin

text \<open>
  Python's \<open>datetime\<close> and \<open>timedelta\<close>. A datetime is its instant in microseconds since the Unix
  epoch (for a naive one, its wall-clock reading) and its UTC offset in seconds, if it has one.
  Comparison and subtraction of aware datetimes are those of the instants. A timedelta is a
  number of microseconds.
\<close>

datatype datetime = DateTime (dt_us: int) (dt_offset: "int option")

type_synonym timedelta = int

abbreviation utc :: "int \<Rightarrow> datetime" where
  "utc t \<equiv> DateTime t (Some 0)"

definition dt_less :: "datetime \<Rightarrow> datetime \<Rightarrow> bool" where
  "dt_less a b \<longleftrightarrow> dt_us a < dt_us b"

definition dt_le :: "datetime \<Rightarrow> datetime \<Rightarrow> bool" where
  "dt_le a b \<longleftrightarrow> dt_us a \<le> dt_us b"

definition dt_diff :: "datetime \<Rightarrow> datetime \<Rightarrow> timedelta" where
  "dt_diff a b = dt_us a - dt_us b"

definition dt_add :: "datetime \<Rightarrow> timedelta \<Rightarrow> datetime" where
  "dt_add a d = DateTime (dt_us a + d) (dt_offset a)"

definition is_utc :: "datetime \<Rightarrow> bool" where
  "is_utc d \<longleftrightarrow> dt_offset d = Some 0"

definition seconds :: "int \<Rightarrow> timedelta" where
  "seconds n = n * 1000000"

lemma is_utc_DateTime [simp]: "is_utc (DateTime t off) \<longleftrightarrow> off = Some 0"
  by (simp add: is_utc_def)

lemma is_utc_add [simp]: "is_utc (dt_add d t) = is_utc d"
  by (simp add: is_utc_def dt_add_def)

lemma is_utc_expand: "is_utc d \<Longrightarrow> d = utc (dt_us d)"
  by (cases d) simp

lemma utc_eq_iff: "is_utc a \<Longrightarrow> is_utc b \<Longrightarrow> a = b \<longleftrightarrow> dt_us a = dt_us b"
  by (cases a; cases b) auto

lemma dt_less_simps [simp]:
  "dt_less (DateTime a x) (DateTime b y) \<longleftrightarrow> a < b"
  "dt_le (DateTime a x) (DateTime b y) \<longleftrightarrow> a \<le> b"
  "dt_diff (DateTime a x) (DateTime b y) = a - b"
  by (simp_all add: dt_less_def dt_le_def dt_diff_def)

lemma dt_less_trans: "dt_less a b \<Longrightarrow> dt_less b c \<Longrightarrow> dt_less a c"
  by (simp add: dt_less_def)

lemma dt_not_less: "\<not> dt_less a b \<longleftrightarrow> dt_le b a"
  by (auto simp: dt_less_def dt_le_def)

section \<open>The ISO format\<close>

text \<open>The civil date of a day number counted from 1970-01-01 (proleptic Gregorian calendar).\<close>

definition civil :: "int \<Rightarrow> int \<times> int \<times> int" where
  "civil days =
     (let z = days + 719468;
          era = z div 146097;
          doe = z - era * 146097;
          yoe = (doe - doe div 1460 + doe div 36524 - doe div 146096) div 365;
          doy = doe - (365 * yoe + yoe div 4 - yoe div 100);
          mp = (5 * doy + 2) div 153;
          d = doy - (153 * mp + 2) div 5 + 1;
          m = (if mp < 10 then mp + 3 else mp - 9);
          y = yoe + era * 400 + (if m \<le> 2 then 1 else 0)
      in (y, m, d))"

definition pad :: "nat \<Rightarrow> int \<Rightarrow> string" where
  "pad w i = pad0 w (nat i)"

definition iso_offset :: "int option \<Rightarrow> string" where
  "iso_offset off =
     (case off of None \<Rightarrow> []
      | Some s \<Rightarrow>
          (let a = \<bar>s\<bar> in
           (if s < 0 then ''-'' else ''+'') @ pad 2 (a div 3600) @ '':'' @ pad 2 (a div 60 mod 60)
           @ (if a mod 60 = 0 then [] else '':'' @ pad 2 (a mod 60))))"

definition isoformat :: "datetime \<Rightarrow> string" where
  "isoformat dt =
     (let wall = dt_us dt + (case dt_offset dt of None \<Rightarrow> 0 | Some s \<Rightarrow> s * 1000000);
          day = wall div 86400000000;
          us = wall mod 86400000000;
          secs = us div 1000000;
          frac = us mod 1000000;
          (y, m, d) = civil day
      in pad 4 y @ ''-'' @ pad 2 m @ ''-'' @ pad 2 d @ ''T''
         @ pad 2 (secs div 3600) @ '':'' @ pad 2 (secs div 60 mod 60) @ '':'' @ pad 2 (secs mod 60)
         @ (if frac = 0 then [] else ''.'' @ pad 6 frac)
         @ iso_offset (dt_offset dt))"

end
