(* ===== verification/ContractsBase.thy ===== *)
theory ContractsBase
  imports Prelude PyDecimal PyTime
begin

text \<open>
  The guards and enumerations of \<open>app/contracts/models.py\<close>. A guard \<open>_require_...\<close> is one link
  of a validation chain; the messages are the source's.
\<close>

section \<open>Guards\<close>

definition require_non_empty :: "string \<Rightarrow> string \<Rightarrow> checks" where
  "require_non_empty v field = [(\<not> blank v, ValueError (field @ '' must be a non-empty string''))]"

definition require_aware_utc :: "datetime \<Rightarrow> string \<Rightarrow> checks" where
  "require_aware_utc v field =
     [(dt_offset v \<noteq> None, ValueError (field @ '' must be timezone-aware'')),
      (dt_offset v = Some 0, ValueError (field @ '' must be normalized to UTC''))]"

definition require_non_negative :: "decimal \<Rightarrow> string \<Rightarrow> checks" where
  "require_non_negative v field = [(\<not> v < 0, ValueError (field @ '' must be non-negative''))]"

definition require_probability :: "decimal \<Rightarrow> string \<Rightarrow> checks" where
  "require_probability v field =
     [(\<not> (v < 0 \<or> Dec 1 < v), ValueError (field @ '' must be within [0, 1]''))]"

definition require_opt :: "('a \<Rightarrow> string \<Rightarrow> checks) \<Rightarrow> 'a option \<Rightarrow> string \<Rightarrow> checks" where
  "require_opt req v field = (case v of None \<Rightarrow> [] | Some x \<Rightarrow> req x field)"

definition require_each :: "('a \<Rightarrow> string \<Rightarrow> checks) \<Rightarrow> 'a list \<Rightarrow> string \<Rightarrow> checks" where
  "require_each req xs field = concat (map (\<lambda>x. req x field) xs)"

definition opt_all :: "('a \<Rightarrow> bool) \<Rightarrow> 'a option \<Rightarrow> bool" where
  "opt_all p v \<longleftrightarrow> (case v of None \<Rightarrow> True | Some x \<Rightarrow> p x)"

definition opt_any :: "('a \<Rightarrow> bool) \<Rightarrow> 'a option \<Rightarrow> bool" where
  "opt_any p v \<longleftrightarrow> (case v of None \<Rightarrow> False | Some x \<Rightarrow> p x)"

lemma opt_any_simps [simp]:
  "\<not> opt_any p None"
  "opt_any p (Some x) = p x"
  by (simp_all add: opt_any_def)

lemma opt_all_simps [simp]:
  "opt_all p None"
  "opt_all p (Some x) = p x"
  by (simp_all add: opt_all_def)

lemma passes_require [simp, checks_simps]:
  "passes (require_non_empty s f) \<longleftrightarrow> \<not> blank s"
  "passes (require_aware_utc t f) \<longleftrightarrow> is_utc t"
  "passes (require_non_negative d f) \<longleftrightarrow> 0 \<le> d"
  "passes (require_probability d f) \<longleftrightarrow> 0 \<le> d \<and> d \<le> Dec 1"
  by (auto simp: require_non_empty_def require_aware_utc_def require_non_negative_def
      require_probability_def is_utc_def)

lemma passes_require_opt [simp, checks_simps]:
  "passes (require_opt req v f) \<longleftrightarrow> opt_all (\<lambda>x. passes (req x f)) v"
  by (simp add: require_opt_def opt_all_def split: option.splits)

lemma passes_require_each [simp, checks_simps]:
  "passes (require_each req xs f) \<longleftrightarrow> (\<forall>x\<in>set xs. passes (req x f))"
  by (auto simp: require_each_def passes_concat)

section \<open>Enumerations\<close>

datatype signal_side = Buy | Sell | Flat

datatype risk_decision_status = Allow | Adjust | Reject

datatype order_side = BUY | SELL

datatype order_type = MARKET | LIMIT

datatype time_in_force = GTC | IOC | FOK | POST_ONLY

datatype order_status =
    NEW | ACKNOWLEDGED | PARTIALLY_FILLED | FILLED | CANCELED | REJECTED | EXPIRED
  | RECOVERING | UNRECONCILED

datatype reconciliation_state =
    SUBMIT_SENT | UNKNOWN_EXECUTION | STATUS_QUERY_PENDING | RECOVERED_TERMINAL_STATE
  | UNRECONCILED_MANUAL_ATTENTION

datatype liquidity_role = MAKER | TAKER | UNKNOWN_ROLE

datatype data_quality_state =
    MISSING_DATA | STALE_DATA | VERSION_MISMATCH | INCOMPLETE_BAR | TIME_SYNC_UNCERTAIN

text \<open>The string values of the enumerations that the code writes out.\<close>

fun order_status_value :: "order_status \<Rightarrow> string" where
  "order_status_value NEW = ''new''"
| "order_status_value ACKNOWLEDGED = ''acknowledged''"
| "order_status_value PARTIALLY_FILLED = ''partially_filled''"
| "order_status_value FILLED = ''filled''"
| "order_status_value CANCELED = ''canceled''"
| "order_status_value REJECTED = ''rejected''"
| "order_status_value EXPIRED = ''expired''"
| "order_status_value RECOVERING = ''recovering''"
| "order_status_value UNRECONCILED = ''unreconciled''"

fun recon_state_value :: "reconciliation_state \<Rightarrow> string" where
  "recon_state_value SUBMIT_SENT = ''submit_sent''"
| "recon_state_value UNKNOWN_EXECUTION = ''unknown_execution''"
| "recon_state_value STATUS_QUERY_PENDING = ''status_query_pending''"
| "recon_state_value RECOVERED_TERMINAL_STATE = ''recovered_terminal_state''"
| "recon_state_value UNRECONCILED_MANUAL_ATTENTION = ''unreconciled_manual_attention''"

fun signal_side_value :: "signal_side \<Rightarrow> string" where
  "signal_side_value Buy = ''buy''"
| "signal_side_value Sell = ''sell''"
| "signal_side_value Flat = ''flat''"

fun risk_status_value :: "risk_decision_status \<Rightarrow> string" where
  "risk_status_value Allow = ''allow''"
| "risk_status_value Adjust = ''adjust''"
| "risk_status_value Reject = ''reject''"

fun order_side_value :: "order_side \<Rightarrow> string" where
  "order_side_value BUY = ''buy''"
| "order_side_value SELL = ''sell''"

fun order_type_value :: "order_type \<Rightarrow> string" where
  "order_type_value MARKET = ''market''"
| "order_type_value LIMIT = ''limit''"

fun time_in_force_value :: "time_in_force \<Rightarrow> string" where
  "time_in_force_value GTC = ''gtc''"
| "time_in_force_value IOC = ''ioc''"
| "time_in_force_value FOK = ''fok''"
| "time_in_force_value POST_ONLY = ''post_only''"

fun quality_state_value :: "data_quality_state \<Rightarrow> string" where
  "quality_state_value MISSING_DATA = ''missing_data''"
| "quality_state_value STALE_DATA = ''stale_data''"
| "quality_state_value VERSION_MISMATCH = ''version_mismatch''"
| "quality_state_value INCOMPLETE_BAR = ''incomplete_bar''"
| "quality_state_value TIME_SYNC_UNCERTAIN = ''time_sync_uncertain''"

text \<open>Different members of an enumeration have different values.\<close>

lemma recon_state_value_inject [simp]: "recon_state_value a = recon_state_value b \<longleftrightarrow> a = b"
  by (cases a; cases b) simp_all

lemma signal_side_value_inject [simp]: "signal_side_value a = signal_side_value b \<longleftrightarrow> a = b"
  by (cases a; cases b) simp_all

lemma risk_status_value_inject [simp]: "risk_status_value a = risk_status_value b \<longleftrightarrow> a = b"
  by (cases a; cases b) simp_all

lemma order_side_value_inject [simp]: "order_side_value a = order_side_value b \<longleftrightarrow> a = b"
  by (cases a; cases b) simp_all

lemma order_type_value_inject [simp]: "order_type_value a = order_type_value b \<longleftrightarrow> a = b"
  by (cases a; cases b) simp_all

lemma time_in_force_value_inject [simp]: "time_in_force_value a = time_in_force_value b \<longleftrightarrow> a = b"
  by (cases a; cases b) simp_all

lemma quality_state_value_inject [simp]: "quality_state_value a = quality_state_value b \<longleftrightarrow> a = b"
  by (cases a; cases b) simp_all

end
