(* ===== verification/ContractsTrade.thy ===== *)
theory ContractsTrade
  imports ContractsBase
begin

text \<open>
  The contracts of the decision-to-portfolio path of \<open>app/contracts/models.py\<close>: signals, risk
  decisions, execution intents, orders, fills, account snapshots, portfolios. Each frozen dataclass
  is a record; its \<open>__post_init__\<close> is the validation chain \<open>..._checks\<close>, in the source's order;
  \<open>mk_...\<close> is the constructor call, which returns the record or raises. The guards of the form
  \<open>isinstance(value, Decimal)\<close> hold by typing and are left out.
\<close>

section \<open>Signals, risk decisions, intents\<close>

record signal_decision =
  sd_strategy_name :: string
  sd_instrument_id :: string
  sd_timeframe :: string
  sd_as_of :: datetime
  sd_side :: signal_side
  sd_confidence :: decimal
  sd_rationale :: string
  sd_target_notional :: "decimal option"
  sd_target_quantity :: "decimal option"

definition signal_decision_checks :: "signal_decision \<Rightarrow> checks" where
  "signal_decision_checks s =
     require_non_empty (sd_strategy_name s) ''strategy_name''
     @ require_non_empty (sd_instrument_id s) ''instrument_id''
     @ require_non_empty (sd_timeframe s) ''timeframe''
     @ require_aware_utc (sd_as_of s) ''as_of''
     @ require_probability (sd_confidence s) ''confidence''
     @ require_non_empty (sd_rationale s) ''rationale''
     @ require_opt require_non_negative (sd_target_notional s) ''target_notional''
     @ require_opt require_non_negative (sd_target_quantity s) ''target_quantity''"

definition mk_signal_decision :: "signal_decision \<Rightarrow> signal_decision result" where
  "mk_signal_decision = validated signal_decision_checks"

record risk_decision =
  rd_signal :: signal_decision
  rd_status :: risk_decision_status
  rd_evaluated_at :: datetime
  rd_reasons :: "string list"
  rd_approved_notional :: "decimal option"
  rd_approved_quantity :: "decimal option"
  rd_rule_hits :: "string list"

definition risk_decision_checks :: "risk_decision \<Rightarrow> checks" where
  "risk_decision_checks r =
     require_aware_utc (rd_evaluated_at r) ''evaluated_at''
     @ [(rd_reasons r \<noteq> [], ValueError ''reasons must contain at least one entry'')]
     @ require_each require_non_empty (rd_reasons r) ''reason''
     @ require_each require_non_empty (rd_rule_hits r) ''rule_hit''
     @ require_opt require_non_negative (rd_approved_notional r) ''approved_notional''
     @ require_opt require_non_negative (rd_approved_quantity r) ''approved_quantity''"

definition mk_risk_decision :: "risk_decision \<Rightarrow> risk_decision result" where
  "mk_risk_decision = validated risk_decision_checks"

record execution_intent =
  ei_intent_id :: string
  ei_venue :: string
  ei_instrument_id :: string
  ei_side :: order_side
  ei_order_type :: order_type
  ei_time_in_force :: time_in_force
  ei_quantity :: decimal
  ei_submitted_at :: datetime
  ei_source_strategy :: string
  ei_rationale :: string
  ei_limit_price :: "decimal option"
  ei_reduce_only :: bool

definition execution_intent_checks :: "execution_intent \<Rightarrow> checks" where
  "execution_intent_checks i =
     require_non_empty (ei_intent_id i) ''intent_id''
     @ require_non_empty (ei_venue i) ''venue''
     @ require_non_empty (ei_instrument_id i) ''instrument_id''
     @ require_aware_utc (ei_submitted_at i) ''submitted_at''
     @ require_non_empty (ei_source_strategy i) ''source_strategy''
     @ require_non_empty (ei_rationale i) ''rationale''
     @ [(\<not> ei_quantity i \<le> 0, ValueError ''quantity must be positive'')]
     @ (if ei_order_type i = LIMIT
        then (case ei_limit_price i of
                None \<Rightarrow> [(False, ValueError ''limit_price is required for limit orders'')]
              | Some p \<Rightarrow> require_non_negative p ''limit_price'')
        else require_opt require_non_negative (ei_limit_price i) ''limit_price'')"

definition mk_execution_intent :: "execution_intent \<Rightarrow> execution_intent result" where
  "mk_execution_intent = validated execution_intent_checks"

section \<open>Orders and fills\<close>

record order_state =
  os_venue :: string
  os_order_id :: string
  os_client_order_id :: string
  os_instrument_id :: string
  os_side :: order_side
  os_order_type :: order_type
  os_status :: order_status
  os_requested_quantity :: decimal
  os_filled_quantity :: decimal
  os_remaining_quantity :: decimal
  os_last_update_time :: datetime
  os_limit_price :: "decimal option"
  os_average_fill_price :: "decimal option"
  os_reconciliation_state :: "reconciliation_state option"
  os_reconciliation_detail :: "string option"

definition order_state_checks :: "order_state \<Rightarrow> checks" where
  "order_state_checks s =
     require_non_empty (os_venue s) ''venue''
     @ require_non_empty (os_order_id s) ''order_id''
     @ require_non_empty (os_client_order_id s) ''client_order_id''
     @ require_non_empty (os_instrument_id s) ''instrument_id''
     @ require_aware_utc (os_last_update_time s) ''last_update_time''
     @ require_non_negative (os_requested_quantity s) ''requested_quantity''
     @ require_non_negative (os_filled_quantity s) ''filled_quantity''
     @ require_non_negative (os_remaining_quantity s) ''remaining_quantity''
     @ [(os_filled_quantity s + os_remaining_quantity s = os_requested_quantity s,
         ValueError ''filled_quantity + remaining_quantity must equal requested_quantity'')]
     @ require_opt require_non_negative (os_limit_price s) ''limit_price''
     @ require_opt require_non_negative (os_average_fill_price s) ''average_fill_price''"

definition mk_order_state :: "order_state \<Rightarrow> order_state result" where
  "mk_order_state = validated order_state_checks"

definition valid_order :: "order_state \<Rightarrow> bool" where
  "valid_order s \<longleftrightarrow> passes (order_state_checks s)"

record fill_event =
  fe_venue :: string
  fe_order_id :: string
  fe_fill_id :: string
  fe_instrument_id :: string
  fe_side :: order_side
  fe_quantity :: decimal
  fe_price :: decimal
  fe_fee :: decimal
  fe_fee_asset :: string
  fe_occurred_at :: datetime
  fe_liquidity_role :: liquidity_role

definition fill_event_checks :: "fill_event \<Rightarrow> checks" where
  "fill_event_checks f =
     require_non_empty (fe_venue f) ''venue''
     @ require_non_empty (fe_order_id f) ''order_id''
     @ require_non_empty (fe_fill_id f) ''fill_id''
     @ require_non_empty (fe_instrument_id f) ''instrument_id''
     @ require_non_empty (fe_fee_asset f) ''fee_asset''
     @ require_aware_utc (fe_occurred_at f) ''occurred_at''
     @ [(\<not> fe_quantity f \<le> 0, ValueError ''quantity must be positive'')]
     @ require_non_negative (fe_price f) ''price''
     @ require_non_negative (fe_fee f) ''fee''"

definition mk_fill_event :: "fill_event \<Rightarrow> fill_event result" where
  "mk_fill_event = validated fill_event_checks"

definition valid_fill :: "fill_event \<Rightarrow> bool" where
  "valid_fill f \<longleftrightarrow> passes (fill_event_checks f)"

section \<open>Account snapshots and reconciliation events\<close>

record asset_balance =
  ab_asset :: string
  ab_free :: "decimal option"
  ab_locked :: "decimal option"
  ab_delta :: "decimal option"
  ab_updated_at :: "datetime option"

definition asset_balance_checks :: "asset_balance \<Rightarrow> checks" where
  "asset_balance_checks b =
     require_non_empty (ab_asset b) ''asset''
     @ [(\<not> (ab_free b = None \<and> ab_locked b = None \<and> ab_delta b = None),
         ValueError ''at least one of free, locked, or delta must be provided'')]
     @ require_opt require_non_negative (ab_free b) ''free''
     @ require_opt require_non_negative (ab_locked b) ''locked''
     @ require_opt require_aware_utc (ab_updated_at b) ''updated_at''"

definition mk_asset_balance :: "asset_balance \<Rightarrow> asset_balance result" where
  "mk_asset_balance = validated asset_balance_checks"

record account_snapshot =
  acc_venue :: string
  acc_account_scope :: string
  acc_as_of :: datetime
  acc_balances :: "asset_balance list"
  acc_source_event_type :: string
  acc_translation_version :: string
  acc_is_partial :: bool
  acc_alerts :: "string list"

definition account_snapshot_checks :: "account_snapshot \<Rightarrow> checks" where
  "account_snapshot_checks a =
     require_non_empty (acc_venue a) ''venue''
     @ require_non_empty (acc_account_scope a) ''account_scope''
     @ require_aware_utc (acc_as_of a) ''as_of''
     @ require_non_empty (acc_source_event_type a) ''source_event_type''
     @ require_non_empty (acc_translation_version a) ''translation_version''
     @ [(acc_balances a \<noteq> [], ValueError ''balances must not be empty'')]"

definition mk_account_snapshot :: "account_snapshot \<Rightarrow> account_snapshot result" where
  "mk_account_snapshot = validated account_snapshot_checks"

record reconciliation_event =
  re_venue :: string
  re_order_id :: string
  re_state :: reconciliation_state
  re_occurred_at :: datetime
  re_detail :: string

definition reconciliation_event_checks :: "reconciliation_event \<Rightarrow> checks" where
  "reconciliation_event_checks e =
     require_non_empty (re_venue e) ''venue''
     @ require_non_empty (re_order_id e) ''order_id''
     @ require_non_empty (re_detail e) ''detail''
     @ require_aware_utc (re_occurred_at e) ''occurred_at''"

definition mk_reconciliation_event :: "reconciliation_event \<Rightarrow> reconciliation_event result" where
  "mk_reconciliation_event = validated reconciliation_event_checks"

section \<open>Portfolio and positions\<close>

record portfolio_state =
  pf_as_of :: datetime
  pf_cash :: "(string, decimal) dict"
  pf_position_qty :: "(string, decimal) dict"
  pf_avg_entry :: "(string, decimal) dict"
  pf_realized_pnl :: decimal
  pf_unrealized_pnl :: decimal
  pf_gross_exposure :: decimal
  pf_net_exposure :: decimal

definition mapping_checks :: "string \<Rightarrow> bool \<Rightarrow> (string, decimal) dict \<Rightarrow> checks" where
  "mapping_checks name signed d =
     concat (map (\<lambda>(key, value).
       require_non_empty key (name @ '' key'')
       @ [(signed \<or> \<not> value < 0, ValueError (name @ '' values must be non-negative''))]) d)"

definition portfolio_state_checks :: "portfolio_state \<Rightarrow> checks" where
  "portfolio_state_checks p =
     require_aware_utc (pf_as_of p) ''as_of''
     @ require_non_negative (pf_gross_exposure p) ''gross_exposure''
     @ mapping_checks ''cash_by_asset'' False (pf_cash p)
     @ mapping_checks ''position_qty_by_instrument'' True (pf_position_qty p)
     @ mapping_checks ''average_entry_price_by_instrument'' False (pf_avg_entry p)"

definition mk_portfolio_state :: "portfolio_state \<Rightarrow> portfolio_state result" where
  "mk_portfolio_state = validated portfolio_state_checks"

definition valid_portfolio :: "portfolio_state \<Rightarrow> bool" where
  "valid_portfolio p \<longleftrightarrow> passes (portfolio_state_checks p)"

record position_state =
  ps_instrument_id :: string
  ps_quantity :: decimal
  ps_average_entry_price :: decimal
  ps_mark_price :: decimal
  ps_market_value :: decimal
  ps_unrealized_pnl :: decimal

definition position_state_checks :: "position_state \<Rightarrow> checks" where
  "position_state_checks p =
     require_non_empty (ps_instrument_id p) ''instrument_id''
     @ require_non_negative (ps_quantity p) ''quantity''
     @ require_non_negative (ps_average_entry_price p) ''average_entry_price''
     @ require_non_negative (ps_mark_price p) ''mark_price''
     @ require_non_negative (ps_market_value p) ''market_value''"

definition mk_position_state :: "position_state \<Rightarrow> position_state result" where
  "mk_position_state = validated position_state_checks"

section \<open>The cycle result\<close>

record cycle_result =
  rc_cycle_id :: string
  rc_started_at :: datetime
  rc_completed_at :: datetime
  rc_processed_instruments :: "string list"
  rc_signals :: "signal_decision list"
  rc_risk_decisions :: "risk_decision list"
  rc_execution_intents :: "execution_intent list"
  rc_reconciliation_events :: "reconciliation_event list"
  rc_quality_states :: "data_quality_state list"
  rc_quality_details :: "string list"
  rc_alerts :: "string list"
  rc_success :: bool

definition cycle_result_checks :: "cycle_result \<Rightarrow> checks" where
  "cycle_result_checks r =
     require_non_empty (rc_cycle_id r) ''cycle_id''
     @ require_aware_utc (rc_started_at r) ''started_at''
     @ require_aware_utc (rc_completed_at r) ''completed_at''
     @ [(\<not> dt_less (rc_completed_at r) (rc_started_at r),
         ValueError ''started_at must be earlier than or equal to completed_at'')]
     @ require_each require_non_empty (rc_processed_instruments r) ''processed_instrument''
     @ require_each require_non_empty (rc_quality_details r) ''quality_detail''
     @ require_each require_non_empty (rc_alerts r) ''alert''
     @ [(\<not> (\<not> rc_success r \<and> rc_alerts r = []
             \<and> \<not> list_ex (\<lambda>d. rd_status d = Reject) (rc_risk_decisions r)),
         ValueError ''failed cycles must include alerts or rejected risk decisions'')]"

definition mk_cycle_result :: "cycle_result \<Rightarrow> cycle_result result" where
  "mk_cycle_result = validated cycle_result_checks"

section \<open>What the constructors guarantee\<close>

lemma passes_mapping_checks [simp, checks_simps]:
  "passes (mapping_checks name signed d) \<longleftrightarrow>
     (\<forall>(k, v)\<in>set d. \<not> blank k \<and> (signed \<or> 0 \<le> v))"
  by (auto simp: mapping_checks_def passes_concat not_less)

lemma valid_orderD:
  assumes "valid_order s"
  shows "os_filled_quantity s + os_remaining_quantity s = os_requested_quantity s"
    and "0 \<le> os_filled_quantity s" and "0 \<le> os_remaining_quantity s"
    and "0 \<le> os_requested_quantity s" and "is_utc (os_last_update_time s)"
    and "opt_all (\<lambda>p. 0 \<le> p) (os_average_fill_price s)"
  using assms by (auto simp: valid_order_def order_state_checks_def)

lemma valid_fillD:
  assumes "valid_fill f"
  shows "0 < fe_quantity f" and "0 \<le> fe_price f" and "0 \<le> fe_fee f"
    and "is_utc (fe_occurred_at f)" and "\<not> blank (fe_instrument_id f)" and "\<not> blank (fe_fill_id f)"
  using assms by (auto simp: valid_fill_def fill_event_checks_def)

lemma mk_order_state_Inr [simp]: "mk_order_state s = Inr s' \<longleftrightarrow> s' = s \<and> valid_order s"
  by (simp add: mk_order_state_def valid_order_def)

lemma mk_fill_event_Inr [simp]: "mk_fill_event f = Inr f' \<longleftrightarrow> f' = f \<and> valid_fill f"
  by (simp add: mk_fill_event_def valid_fill_def)

lemma mk_portfolio_state_Inr [simp]:
  "mk_portfolio_state p = Inr p' \<longleftrightarrow> p' = p \<and> valid_portfolio p"
  by (simp add: mk_portfolio_state_def valid_portfolio_def)

lemma mk_execution_intent_Inr:
  "mk_execution_intent i = Inr i' \<longleftrightarrow> i' = i \<and> passes (execution_intent_checks i)"
  by (simp add: mk_execution_intent_def)

lemma mk_risk_decision_Inr:
  "mk_risk_decision r = Inr r' \<longleftrightarrow> r' = r \<and> passes (risk_decision_checks r)"
  by (simp add: mk_risk_decision_def)

lemma intent_quantity_pos: "passes (execution_intent_checks i) \<Longrightarrow> 0 < ei_quantity i"
  by (auto simp: execution_intent_checks_def not_le)

lemma valid_portfolio_iff:
  "valid_portfolio p \<longleftrightarrow>
     is_utc (pf_as_of p) \<and> 0 \<le> pf_gross_exposure p \<and>
     (\<forall>(k, v)\<in>set (pf_cash p). \<not> blank k \<and> 0 \<le> v) \<and>
     (\<forall>(k, v)\<in>set (pf_position_qty p). \<not> blank k) \<and>
     (\<forall>(k, v)\<in>set (pf_avg_entry p). \<not> blank k \<and> 0 \<le> v)"
  by (auto simp: valid_portfolio_def portfolio_state_checks_def)

section \<open>Sample values\<close>

text \<open>Concrete values on which the properties are instantiated.\<close>

definition sample_intent :: execution_intent where
  "sample_intent =
     \<lparr>ei_intent_id = ''i1'', ei_venue = ''binance'', ei_instrument_id = ''BTC-USDT'', ei_side = BUY,
      ei_order_type = MARKET, ei_time_in_force = IOC, ei_quantity = Dec 2, ei_submitted_at = utc 0,
      ei_source_strategy = ''breakout'', ei_rationale = ''r'', ei_limit_price = None,
      ei_reduce_only = False\<rparr>"

definition sample_order :: "order_status \<Rightarrow> decimal \<Rightarrow> order_state" where
  "sample_order st q =
     \<lparr>os_venue = ''binance'', os_order_id = ''o1'', os_client_order_id = ''c1'',
      os_instrument_id = ''BTC-USDT'', os_side = BUY, os_order_type = MARKET, os_status = st,
      os_requested_quantity = q, os_filled_quantity = 0, os_remaining_quantity = q,
      os_last_update_time = utc 0, os_limit_price = None, os_average_fill_price = None,
      os_reconciliation_state = None, os_reconciliation_detail = None\<rparr>"

definition sample_fill :: "string \<Rightarrow> decimal \<Rightarrow> fill_event" where
  "sample_fill fid q =
     \<lparr>fe_venue = ''binance'', fe_order_id = ''o1'', fe_fill_id = fid,
      fe_instrument_id = ''BTC-USDT'', fe_side = BUY, fe_quantity = q, fe_price = Dec 100,
      fe_fee = 0, fe_fee_asset = ''USDT'', fe_occurred_at = utc 1, fe_liquidity_role = TAKER\<rparr>"

definition sample_portfolio :: portfolio_state where
  "sample_portfolio =
     \<lparr>pf_as_of = utc 0, pf_cash = [(''USDT'', Dec 1000)], pf_position_qty = [], pf_avg_entry = [],
      pf_realized_pnl = 0, pf_unrealized_pnl = 0, pf_gross_exposure = 0, pf_net_exposure = 0\<rparr>"

lemma sample_fill_fields [simp]:
  "fe_quantity (sample_fill i q) = q" "fe_price (sample_fill i q) = Dec 100"
  "fe_fee (sample_fill i q) = 0" "fe_fill_id (sample_fill i q) = i"
  "fe_order_id (sample_fill i q) = ''o1''" "fe_instrument_id (sample_fill i q) = ''BTC-USDT''"
  "fe_side (sample_fill i q) = BUY" "fe_occurred_at (sample_fill i q) = utc 1"
  by (simp_all add: sample_fill_def)

lemma sample_order_fields [simp]:
  "os_status (sample_order st q) = st" "os_requested_quantity (sample_order st q) = q"
  "os_filled_quantity (sample_order st q) = 0" "os_remaining_quantity (sample_order st q) = q"
  "os_order_id (sample_order st q) = ''o1''"
  by (simp_all add: sample_order_def)

lemma valid_sample_fill [simp]: "valid_fill (sample_fill i q) \<longleftrightarrow> \<not> blank i \<and> 0 < q"
  by (auto simp: sample_fill_def valid_fill_def fill_event_checks_def blank_def py_space_def)

lemma valid_sample_order [simp]: "0 \<le> q \<Longrightarrow> 0 + q = q \<Longrightarrow> valid_order (sample_order st q)"
  by (simp add: sample_order_def valid_order_def order_state_checks_def blank_def py_space_def)

lemma valid_sample_intent [simp]: "passes (execution_intent_checks sample_intent)"
  by (simp add: sample_intent_def execution_intent_checks_def blank_def py_space_def)

lemma valid_sample_portfolio [simp]: "valid_portfolio sample_portfolio"
  by (simp add: sample_portfolio_def valid_portfolio_iff blank_def py_space_def)

end
