(* ===== verification/ContractsMarket.thy ===== *)
theory ContractsMarket
  imports ContractsTrade
begin

text \<open>
  The market-data contracts of \<open>app/contracts/models.py\<close>: instruments, venue profiles, candles, bar
  slices, index and stablecoin snapshots, feature vectors and the strategy's decision context, as
  records with their validation chains. The last section shows the invariants that the class
  documentation of the source promises for accepted values.
\<close>

section \<open>Instruments and venues\<close>

record instrument =
  in_instrument_id :: string
  in_base_asset :: string
  in_quote_asset :: string
  in_price_precision :: int
  in_quantity_precision :: int
  in_price_increment :: "decimal option"
  in_quantity_increment :: "decimal option"
  in_min_quantity :: "decimal option"
  in_min_notional :: "decimal option"
  in_is_active :: bool

definition require_positive_opt :: "decimal option \<Rightarrow> string \<Rightarrow> checks" where
  "require_positive_opt v field =
     (case v of None \<Rightarrow> []
      | Some d \<Rightarrow> [(\<not> d \<le> 0, ValueError (field @ '' must be positive when provided''))])"

definition instrument_checks :: "instrument \<Rightarrow> checks" where
  "instrument_checks i =
     require_non_empty (in_instrument_id i) ''instrument_id''
     @ require_non_empty (in_base_asset i) ''base_asset''
     @ require_non_empty (in_quote_asset i) ''quote_asset''
     @ [(\<not> in_price_precision i < 0, ValueError ''price_precision must be non-negative''),
        (\<not> in_quantity_precision i < 0, ValueError ''quantity_precision must be non-negative'')]
     @ require_positive_opt (in_price_increment i) ''price_increment''
     @ require_positive_opt (in_quantity_increment i) ''quantity_increment''
     @ require_opt require_non_negative (in_min_quantity i) ''min_quantity''
     @ require_opt require_non_negative (in_min_notional i) ''min_notional''"

definition mk_instrument :: "instrument \<Rightarrow> instrument result" where
  "mk_instrument = validated instrument_checks"

record venue_profile =
  vp_venue :: string
  vp_account_scope :: string
  vp_maker_fee_bps :: decimal
  vp_taker_fee_bps :: decimal
  vp_supports_market_orders :: bool
  vp_supports_post_only :: bool
  vp_default_time_in_force :: time_in_force
  vp_supports_reduce_only :: bool
  vp_supports_client_order_ids :: bool
  vp_supported_time_in_force :: "time_in_force list"
  vp_max_requests_per_second :: "int option"

definition venue_profile_checks :: "venue_profile \<Rightarrow> checks" where
  "venue_profile_checks v =
     require_non_empty (vp_venue v) ''venue''
     @ require_non_empty (vp_account_scope v) ''account_scope''
     @ require_non_negative (vp_maker_fee_bps v) ''maker_fee_bps''
     @ require_non_negative (vp_taker_fee_bps v) ''taker_fee_bps''
     @ [(vp_supported_time_in_force v \<noteq> [] \<longrightarrow>
           vp_default_time_in_force v \<in> set (vp_supported_time_in_force v),
         ValueError ''default_time_in_force must be included in supported_time_in_force''),
        ((case vp_max_requests_per_second v of None \<Rightarrow> True | Some n \<Rightarrow> \<not> n \<le> 0),
         ValueError ''max_requests_per_second must be positive when provided'')]"

definition mk_venue_profile :: "venue_profile \<Rightarrow> venue_profile result" where
  "mk_venue_profile = validated venue_profile_checks"

section \<open>Candles and bar slices\<close>

record candle =
  cd_instrument_id :: string
  cd_timeframe :: string
  cd_open_time :: datetime
  cd_close_time :: datetime
  cd_open :: decimal
  cd_high :: decimal
  cd_low :: decimal
  cd_close :: decimal
  cd_volume :: decimal
  cd_quote_volume :: "decimal option"
  cd_trade_count :: int
  cd_is_closed :: bool

definition candle_checks :: "candle \<Rightarrow> checks" where
  "candle_checks c =
     require_non_empty (cd_instrument_id c) ''instrument_id''
     @ require_non_empty (cd_timeframe c) ''timeframe''
     @ require_aware_utc (cd_open_time c) ''open_time''
     @ require_aware_utc (cd_close_time c) ''close_time''
     @ [(dt_less (cd_open_time c) (cd_close_time c),
         ValueError ''open_time must be earlier than close_time'')]
     @ require_non_negative (cd_open c) ''open''
     @ require_non_negative (cd_high c) ''high''
     @ require_non_negative (cd_low c) ''low''
     @ require_non_negative (cd_close c) ''close''
     @ require_non_negative (cd_volume c) ''volume''
     @ require_opt require_non_negative (cd_quote_volume c) ''quote_volume''
     @ [(\<not> cd_trade_count c < 0, ValueError ''trade_count must be non-negative''),
        (\<not> cd_high c < max (max (cd_open c) (cd_close c)) (cd_low c),
         ValueError ''high must be greater than or equal to open, close, and low''),
        (\<not> min (min (cd_open c) (cd_close c)) (cd_high c) < cd_low c,
         ValueError ''low must be less than or equal to open, close, and high'')]"

definition mk_candle :: "candle \<Rightarrow> candle result" where
  "mk_candle = validated candle_checks"

record bar_slice =
  bs_instrument_id :: string
  bs_timeframe :: string
  bs_end_time :: datetime
  bs_candles :: "candle list"

text \<open>The loop over the candles, with the open time of the previous one.\<close>

fun candle_chain_checks :: "string \<Rightarrow> string \<Rightarrow> datetime option \<Rightarrow> candle list \<Rightarrow> checks" where
  "candle_chain_checks iid tf prev [] = []"
| "candle_chain_checks iid tf prev (c # cs) =
     [(cd_instrument_id c = iid, ValueError ''all candles must share instrument_id''),
      (cd_timeframe c = tf, ValueError ''all candles must share timeframe''),
      ((case prev of None \<Rightarrow> True | Some t \<Rightarrow> \<not> dt_le (cd_open_time c) t),
       ValueError ''candles must be ordered by increasing open_time'')]
     @ candle_chain_checks iid tf (Some (cd_open_time c)) cs"

definition bar_slice_checks :: "bar_slice \<Rightarrow> checks" where
  "bar_slice_checks b =
     require_non_empty (bs_instrument_id b) ''instrument_id''
     @ require_non_empty (bs_timeframe b) ''timeframe''
     @ require_aware_utc (bs_end_time b) ''end_time''
     @ (if bs_candles b = []
        then [(False, ValueError ''candles must contain at least one candle'')]
        else candle_chain_checks (bs_instrument_id b) (bs_timeframe b) None (bs_candles b)
          @ [(bs_end_time b = cd_close_time (last (bs_candles b)),
              ValueError ''end_time must equal the last candle close_time'')])"

definition mk_bar_slice :: "bar_slice \<Rightarrow> bar_slice result" where
  "mk_bar_slice = validated bar_slice_checks"

section \<open>Snapshots and features\<close>

record index_snapshot =
  ix_name :: string
  ix_instrument_id :: string
  ix_index_version :: string
  ix_as_of :: datetime
  ix_value :: decimal
  ix_constituents :: "string list"
  ix_methodology :: string

definition index_snapshot_checks :: "index_snapshot \<Rightarrow> checks" where
  "index_snapshot_checks x =
     require_non_empty (ix_name x) ''name''
     @ require_non_empty (ix_instrument_id x) ''instrument_id''
     @ require_non_empty (ix_index_version x) ''index_version''
     @ require_aware_utc (ix_as_of x) ''as_of''
     @ require_non_negative (ix_value x) ''value''
     @ require_non_empty (ix_methodology x) ''methodology''
     @ [(ix_constituents x \<noteq> [], ValueError ''constituents must contain at least one instrument'')]
     @ require_each require_non_empty (ix_constituents x) ''constituent''"

definition mk_index_snapshot :: "index_snapshot \<Rightarrow> index_snapshot result" where
  "mk_index_snapshot = validated index_snapshot_checks"

record stablecoin_snapshot =
  sc_pair :: string
  sc_reference_asset :: string
  sc_snapshot_version :: string
  sc_source_type :: string
  sc_as_of :: datetime
  sc_source_fresh_until :: datetime
  sc_net_mint_24h :: decimal
  sc_net_burn_24h :: decimal
  sc_supply_change_pct_24h :: decimal
  sc_chain_supply_delta_24h :: decimal
  sc_abnormal_transfer_count :: int
  sc_price :: "decimal option"
  sc_premium_bps :: "decimal option"
  sc_volume_24h :: "decimal option"
  sc_liquidity_score :: "decimal option"
  sc_is_depegged :: bool

definition stablecoin_snapshot_checks :: "stablecoin_snapshot \<Rightarrow> checks" where
  "stablecoin_snapshot_checks s =
     require_non_empty (sc_pair s) ''pair''
     @ require_non_empty (sc_reference_asset s) ''reference_asset''
     @ require_non_empty (sc_snapshot_version s) ''snapshot_version''
     @ require_non_empty (sc_source_type s) ''source_type''
     @ require_aware_utc (sc_as_of s) ''as_of''
     @ require_aware_utc (sc_source_fresh_until s) ''source_fresh_until''
     @ require_non_negative (sc_net_mint_24h s) ''stablecoin_net_mint_24h''
     @ require_non_negative (sc_net_burn_24h s) ''stablecoin_net_burn_24h''
     @ [(\<not> sc_abnormal_transfer_count s < 0,
         ValueError ''stablecoin_abnormal_transfer_count must be non-negative'')]
     @ require_opt require_non_negative (sc_price s) ''price''
     @ require_opt require_non_negative (sc_volume_24h s) ''volume_24h''
     @ require_opt require_non_negative (sc_liquidity_score s) ''liquidity_score''"

definition mk_stablecoin_snapshot :: "stablecoin_snapshot \<Rightarrow> stablecoin_snapshot result" where
  "mk_stablecoin_snapshot = validated stablecoin_snapshot_checks"

record feature_snapshot =
  ft_instrument_id :: string
  ft_timeframe :: string
  ft_as_of :: datetime
  ft_feature_values :: "(string, decimal) dict"
  ft_source_bar_count :: int
  ft_is_complete :: bool

definition feature_snapshot_checks :: "feature_snapshot \<Rightarrow> checks" where
  "feature_snapshot_checks f =
     require_non_empty (ft_instrument_id f) ''instrument_id''
     @ require_non_empty (ft_timeframe f) ''timeframe''
     @ require_aware_utc (ft_as_of f) ''as_of''
     @ [(\<not> ft_source_bar_count f \<le> 0, ValueError ''source_bar_count must be positive''),
        (ft_feature_values f \<noteq> [], ValueError ''feature_values must contain at least one feature'')]
     @ require_each require_non_empty (map fst (ft_feature_values f)) ''feature name''"

definition mk_feature_snapshot :: "feature_snapshot \<Rightarrow> feature_snapshot result" where
  "mk_feature_snapshot = validated feature_snapshot_checks"

record decision_context =
  dc_cycle_id :: string
  dc_as_of :: datetime
  dc_instrument :: instrument
  dc_latest_candle :: candle
  dc_bar_slice :: bar_slice
  dc_features :: feature_snapshot
  dc_portfolio_state :: portfolio_state
  dc_index_snapshot :: "index_snapshot option"
  dc_stablecoin_snapshot :: "stablecoin_snapshot option"
  dc_index_snapshot_status :: "string option"
  dc_index_snapshot_detail :: "string option"
  dc_index_snapshot_requested_version :: "string option"
  dc_stablecoin_snapshot_status :: "string option"
  dc_stablecoin_snapshot_detail :: "string option"
  dc_quality_states :: "data_quality_state list"
  dc_quality_details :: "string list"

definition decision_context_checks :: "decision_context \<Rightarrow> checks" where
  "decision_context_checks d =
     require_non_empty (dc_cycle_id d) ''cycle_id''
     @ require_aware_utc (dc_as_of d) ''as_of''
     @ [(in_instrument_id (dc_instrument d) = cd_instrument_id (dc_latest_candle d),
         ValueError ''instrument and latest_candle must share instrument_id''),
        (bs_instrument_id (dc_bar_slice d) = in_instrument_id (dc_instrument d),
         ValueError ''bar_slice must share instrument_id with instrument''),
        (ft_instrument_id (dc_features d) = in_instrument_id (dc_instrument d),
         ValueError ''features must share instrument_id with instrument''),
        (ft_timeframe (dc_features d) = cd_timeframe (dc_latest_candle d),
         ValueError ''features and latest_candle must share timeframe''),
        (bs_timeframe (dc_bar_slice d) = cd_timeframe (dc_latest_candle d),
         ValueError ''bar_slice and latest_candle must share timeframe''),
        (\<not> dt_less (dc_as_of d) (cd_close_time (dc_latest_candle d)),
         ValueError ''as_of must be on or after latest_candle.close_time'')]
     @ require_each require_non_empty (dc_quality_details d) ''quality_detail''"

definition mk_decision_context :: "decision_context \<Rightarrow> decision_context result" where
  "mk_decision_context = validated decision_context_checks"

section \<open>The documented invariants\<close>

definition candle_invariant :: "candle \<Rightarrow> bool" where
  "candle_invariant c \<longleftrightarrow>
     dt_less (cd_open_time c) (cd_close_time c) \<and>
     0 \<le> cd_low c \<and> cd_low c \<le> cd_open c \<and> cd_open c \<le> cd_high c \<and>
     cd_low c \<le> cd_close c \<and> cd_close c \<le> cd_high c \<and> 0 \<le> cd_volume c \<and> 0 \<le> cd_trade_count c"

lemma candle_checks_invariant: "passes (candle_checks c) \<Longrightarrow> candle_invariant c"
  by (simp add: candle_checks_def candle_invariant_def not_less)

lemma candle_chain_passes:
  "passes (candle_chain_checks iid tf prev cs) \<longleftrightarrow>
     (\<forall>c\<in>set cs. cd_instrument_id c = iid \<and> cd_timeframe c = tf) \<and>
     (\<forall>t c cs'. prev = Some t \<and> cs = c # cs' \<longrightarrow> dt_less t (cd_open_time c)) \<and>
     sorted_wrt (\<lambda>a b. dt_less (cd_open_time a) (cd_open_time b)) cs"
proof (induction cs arbitrary: prev)
  case Nil
  show ?case by simp
next
  case (Cons c cs)
  let ?lt = "\<lambda>a b. dt_less (cd_open_time a) (cd_open_time b)"
  have "sorted_wrt ?lt (c # cs) \<longleftrightarrow>
      (\<forall>d ds. cs = d # ds \<longrightarrow> ?lt c d) \<and> sorted_wrt ?lt cs"
    by (cases cs) (auto intro: dt_less_trans)
  then show ?case
    by (cases prev) (auto simp: Cons.IH dt_not_less [symmetric])
qed

text \<open>The slice's candles are strictly ordered, of one instrument and timeframe, up to its end.\<close>

definition bar_slice_invariant :: "bar_slice \<Rightarrow> bool" where
  "bar_slice_invariant b \<longleftrightarrow>
     bs_candles b \<noteq> [] \<and>
     (\<forall>c\<in>set (bs_candles b).
        cd_instrument_id c = bs_instrument_id b \<and> cd_timeframe c = bs_timeframe b) \<and>
     sorted_wrt (\<lambda>a b. dt_less (cd_open_time a) (cd_open_time b)) (bs_candles b) \<and>
     bs_end_time b = cd_close_time (last (bs_candles b))"

lemma bar_slice_checks_iff:
  "passes (bar_slice_checks b) \<longleftrightarrow>
     bar_slice_invariant b \<and> \<not> blank (bs_instrument_id b) \<and> \<not> blank (bs_timeframe b) \<and>
     is_utc (bs_end_time b)"
  by (auto simp: bar_slice_checks_def bar_slice_invariant_def candle_chain_passes)

section \<open>Properties\<close>

text \<open>
  A bar slice is accepted exactly when it is what it is documented to be: non-empty, all candles
  of its instrument and timeframe, strictly increasing in open time (for every pair, not only for
  neighbours), its end the close of the last candle, its ids non-blank and its end time UTC.
\<close>

theorem bar_slice_accepted_iff:
  "(\<exists>b'. mk_bar_slice b = Inr b') \<longleftrightarrow>
     bar_slice_invariant b \<and> \<not> blank (bs_instrument_id b) \<and> \<not> blank (bs_timeframe b) \<and>
     is_utc (bs_end_time b)"
  by (simp add: mk_bar_slice_def bar_slice_checks_iff)

text \<open>
  A candle that was constructed satisfies the price relations every consumer relies on: opened
  before closed, low at most open and close, high at least open and close, nothing negative.
\<close>

theorem candle_constructed_invariant:
  assumes "mk_candle c = Inr c'"
  shows "c' = c \<and> candle_invariant c'"
  using assms candle_checks_invariant [of c] by (simp add: mk_candle_def)

lemma candle_constructed_invariant_witness:
  "\<exists>c'. mk_candle \<lparr>cd_instrument_id = ''BTC-USDT'', cd_timeframe = ''1h'', cd_open_time = utc 0,
      cd_close_time = utc 9, cd_open = Dec 5, cd_high = Dec 7, cd_low = Dec 4, cd_close = Dec 6,
      cd_volume = Dec 1, cd_quote_volume = None, cd_trade_count = 3, cd_is_closed = True\<rparr> = Inr c' \<and>
    candle_invariant c'"
proof -
  let ?c = "\<lparr>cd_instrument_id = ''BTC-USDT'', cd_timeframe = ''1h'', cd_open_time = utc 0,
      cd_close_time = utc 9, cd_open = Dec 5, cd_high = Dec 7, cd_low = Dec 4, cd_close = Dec 6,
      cd_volume = Dec 1, cd_quote_volume = None, cd_trade_count = 3, cd_is_closed = True\<rparr>"
  have "mk_candle ?c = Inr ?c"
    by (simp add: mk_candle_def candle_checks_def blank_def py_space_def)
  with candle_constructed_invariant [OF this] show ?thesis by blast
qed

end
