(* ===== verification/AuditedMachine.thy ===== *)
theory AuditedMachine
  imports Prelude
begin

text \<open>
  The interface of a state machine whose every successful step returns the new state and an
  audit record of the transition. A client runs a sequence of events and keeps the records; the
  first exception ends the run. The locale's laws are what one step of the provider promises, its
  lemmas what a whole run gives the client.
\<close>

fun machine_run :: "('s \<Rightarrow> 'e \<Rightarrow> ('s \<times> 't) result) \<Rightarrow> 's \<Rightarrow> 'e list \<Rightarrow> ('s \<times> 't list) result" where
  "machine_run step s [] = Inr (s, [])"
| "machine_run step s (e # es) =
     r_bind (step s e) (\<lambda>(s', t).
       r_bind (machine_run step s' es) (\<lambda>(s'', ts). Inr (s'', t # ts)))"

text \<open>A trail leads from one status to another when its records connect end to end.\<close>

fun trail_connects :: "('t \<Rightarrow> 'q) \<Rightarrow> ('t \<Rightarrow> 'q) \<Rightarrow> 'q \<Rightarrow> 't list \<Rightarrow> 'q \<Rightarrow> bool" where
  "trail_connects src dst q [] q' \<longleftrightarrow> q = q'"
| "trail_connects src dst q (t # ts) q' \<longleftrightarrow> src t = q \<and> trail_connects src dst (dst t) ts q'"

lemma machine_run_Cons_Inr:
  "machine_run step s (e # es) = Inr (s'', ts) \<longleftrightarrow>
     (\<exists>s' t us. step s e = Inr (s', t) \<and> machine_run step s' es = Inr (s'', us) \<and> ts = t # us)"
  by (auto simp: r_bind_Inr)

lemma machine_run_append:
  "machine_run step s (es @ es') =
     r_bind (machine_run step s es) (\<lambda>(s', ts).
       r_bind (machine_run step s' es') (\<lambda>(s'', us). Inr (s'', ts @ us)))"
proof (induction es arbitrary: s)
  case Nil
  show ?case by (cases "machine_run step s es'") auto
next
  case (Cons e es)
  show ?case
  proof (cases "step s e")
    case (Inl x)
    then show ?thesis by simp
  next
    case (Inr p)
    obtain s' t where p: "p = (s', t)" by (cases p)
    show ?thesis
    proof (cases "machine_run step s' es")
      case Inl: (Inl y)
      with Inr p show ?thesis by (simp add: Cons.IH)
    next
      case Inr': (Inr q)
      obtain s'' us where q: "q = (s'', us)" by (cases q)
      from Inr Inr' p q show ?thesis
        by (cases "machine_run step s'' es'") (auto simp: Cons.IH)
    qed
  qed
qed

locale audited_machine =
  fixes step :: "'s \<Rightarrow> 'e \<Rightarrow> ('s \<times> 't) result"
    and inv :: "'s \<Rightarrow> bool"
    and ident :: "'s \<Rightarrow> 'k"
    and status :: "'s \<Rightarrow> 'q"
    and src :: "'t \<Rightarrow> 'q"
    and dst :: "'t \<Rightarrow> 'q"
  assumes step_inv: "inv s \<Longrightarrow> step s e = Inr (s', t) \<Longrightarrow> inv s'"
    and step_ident: "step s e = Inr (s', t) \<Longrightarrow> ident s' = ident s"
    and step_audit: "step s e = Inr (s', t) \<Longrightarrow> src t = status s \<and> dst t = status s'"
begin

lemma run_inv: "inv s \<Longrightarrow> machine_run step s es = Inr (s', ts) \<Longrightarrow> inv s'"
proof (induction es arbitrary: s ts)
  case Nil
  then show ?case by simp
next
  case (Cons e es)
  then show ?case unfolding machine_run_Cons_Inr by (blast intro: step_inv)
qed

lemma run_ident: "machine_run step s es = Inr (s', ts) \<Longrightarrow> ident s' = ident s"
proof (induction es arbitrary: s ts)
  case Nil
  then show ?case by simp
next
  case (Cons e es)
  then obtain u t us where "step s e = Inr (u, t)" "machine_run step u es = Inr (s', us)"
    unfolding machine_run_Cons_Inr by blast
  then show ?case using Cons.IH step_ident by metis
qed

lemma run_trail:
  "machine_run step s es = Inr (s', ts) \<Longrightarrow>
     length ts = length es \<and> trail_connects src dst (status s) ts (status s')"
proof (induction es arbitrary: s ts)
  case Nil
  then show ?case by simp
next
  case (Cons e es)
  then obtain u t us where "step s e = Inr (u, t)" "machine_run step u es = Inr (s', us)"
    and "ts = t # us"
    unfolding machine_run_Cons_Inr by blast
  with Cons.IH step_audit show ?case by fastforce
qed

end

end
