(* ===== verification/OrderLifecycle.thy ===== *)
theory OrderLifecycle
  imports ContractsTrade AuditedMachine
begin

text \<open>
  \<open>app/execution/order_lifecycle.py\<close>: the order lifecycle machine every runtime mode shares. Each
  method builds a new \<open>OrderState\<close>, whose constructor may raise, and an audit record.
\<close>

section \<open>The machine\<close>

record lifecycle_transition =
  lt_order_id :: string
  lt_from_status :: order_status
  lt_to_status :: order_status
  lt_detail :: string
  lt_occurred_at :: datetime

definition mk_transition ::
    "order_state \<Rightarrow> order_state \<Rightarrow> string \<Rightarrow> datetime \<Rightarrow> lifecycle_transition" where
  "mk_transition before after detail occurred_at =
     \<lparr>lt_order_id = os_order_id after, lt_from_status = os_status before,
      lt_to_status = os_status after, lt_detail = detail, lt_occurred_at = occurred_at\<rparr>"

definition with_transition ::
    "order_state \<Rightarrow> order_state result \<Rightarrow> string \<Rightarrow> datetime
      \<Rightarrow> (order_state \<times> lifecycle_transition) result" where
  "with_transition before after detail occurred_at =
     r_bind after (\<lambda>s. Inr (s, mk_transition before s detail occurred_at))"

definition new_from_intent :: "execution_intent \<Rightarrow> order_state result" where
  "new_from_intent i = mk_order_state
     \<lparr>os_venue = ei_venue i, os_order_id = ''pending:'' @ ei_intent_id i,
      os_client_order_id = ei_intent_id i, os_instrument_id = ei_instrument_id i,
      os_side = ei_side i, os_order_type = ei_order_type i, os_status = NEW,
      os_requested_quantity = ei_quantity i, os_filled_quantity = 0,
      os_remaining_quantity = ei_quantity i, os_last_update_time = ei_submitted_at i,
      os_limit_price = ei_limit_price i, os_average_fill_price = None,
      os_reconciliation_state = None, os_reconciliation_detail = None\<rparr>"

definition acknowledge ::
    "order_state \<Rightarrow> string option \<Rightarrow> datetime \<Rightarrow> (order_state \<times> lifecycle_transition) result" where
  "acknowledge s order_id occurred_at =
     with_transition s
       (mk_order_state (s\<lparr>os_order_id := py_or order_id (os_order_id s), os_status := ACKNOWLEDGED,
          os_last_update_time := occurred_at\<rparr>))
       ''order acknowledged'' occurred_at"

definition average_fill_price :: "order_state \<Rightarrow> fill_event \<Rightarrow> decimal \<Rightarrow> decimal result" where
  "average_fill_price s f cumulative_filled =
     (let prior_filled = os_filled_quantity s;
          prior_avg = (case os_average_fill_price s of None \<Rightarrow> 0 | Some p \<Rightarrow> p)
      in dec_div (prior_filled * prior_avg + fe_quantity f * fe_price f) cumulative_filled)"

definition apply_fill ::
    "order_state \<Rightarrow> fill_event \<Rightarrow> (order_state \<times> lifecycle_transition) result" where
  "apply_fill s f =
     (let cumulative_filled = os_filled_quantity s + fe_quantity f;
          remaining_quantity = os_requested_quantity s - cumulative_filled;
          new_status = (if remaining_quantity = 0 then FILLED else PARTIALLY_FILLED)
      in r_bind (average_fill_price s f cumulative_filled) (\<lambda>avg.
           with_transition s
             (mk_order_state (s\<lparr>os_status := new_status, os_filled_quantity := cumulative_filled,
                os_remaining_quantity := remaining_quantity,
                os_last_update_time := fe_occurred_at f, os_average_fill_price := Some avg\<rparr>))
             (if new_status = FILLED then ''order fully filled'' else ''order partially filled'')
             (fe_occurred_at f)))"

definition replace_status :: "order_state \<Rightarrow> order_status \<Rightarrow> datetime \<Rightarrow> order_state result" where
  "replace_status s st occurred_at =
     mk_order_state (s\<lparr>os_status := st, os_last_update_time := occurred_at\<rparr>)"

definition cancel ::
    "order_state \<Rightarrow> datetime \<Rightarrow> string \<Rightarrow> (order_state \<times> lifecycle_transition) result" where
  "cancel s occurred_at detail =
     with_transition s (replace_status s CANCELED occurred_at) detail occurred_at"

definition expire ::
    "order_state \<Rightarrow> datetime \<Rightarrow> string \<Rightarrow> (order_state \<times> lifecycle_transition) result" where
  "expire s occurred_at detail =
     with_transition s (replace_status s EXPIRED occurred_at) detail occurred_at"

definition reject ::
    "order_state \<Rightarrow> datetime \<Rightarrow> string \<Rightarrow> (order_state \<times> lifecycle_transition) result" where
  "reject s occurred_at detail =
     with_transition s (replace_status s REJECTED occurred_at) detail occurred_at"

definition mark_recovering ::
    "order_state \<Rightarrow> datetime \<Rightarrow> string \<Rightarrow> reconciliation_state
      \<Rightarrow> (order_state \<times> lifecycle_transition) result" where
  "mark_recovering s occurred_at detail rs =
     with_transition s
       (mk_order_state (s\<lparr>os_status := RECOVERING, os_last_update_time := occurred_at,
          os_reconciliation_state := Some rs, os_reconciliation_detail := Some detail\<rparr>))
       detail occurred_at"

definition mark_unreconciled ::
    "order_state \<Rightarrow> datetime \<Rightarrow> string \<Rightarrow> (order_state \<times> lifecycle_transition) result" where
  "mark_unreconciled s occurred_at detail =
     with_transition s
       (mk_order_state (s\<lparr>os_status := UNRECONCILED, os_last_update_time := occurred_at,
          os_reconciliation_state := Some UNRECONCILED_MANUAL_ATTENTION,
          os_reconciliation_detail := Some detail\<rparr>))
       detail occurred_at"

definition resolve_recovery ::
    "order_state \<Rightarrow> order_status \<Rightarrow> datetime \<Rightarrow> string
      \<Rightarrow> (order_state \<times> lifecycle_transition) result" where
  "resolve_recovery s resolved_status occurred_at detail =
     with_transition s
       (mk_order_state (s\<lparr>os_status := resolved_status, os_last_update_time := occurred_at,
          os_reconciliation_state := Some RECOVERED_TERMINAL_STATE,
          os_reconciliation_detail := Some detail\<rparr>))
       detail occurred_at"

section \<open>Events and runs\<close>

text \<open>One event per method; a run applies a sequence of them to one order.\<close>

datatype lifecycle_event =
    Ack "string option" datetime
  | Fill fill_event
  | Cancel datetime string
  | Expire datetime string
  | RejectOrder datetime string
  | MarkRecovering datetime string reconciliation_state
  | MarkUnreconciled datetime string
  | ResolveRecovery order_status datetime string

fun lifecycle_step ::
    "order_state \<Rightarrow> lifecycle_event \<Rightarrow> (order_state \<times> lifecycle_transition) result" where
  "lifecycle_step s (Ack oid t) = acknowledge s oid t"
| "lifecycle_step s (Fill f) = apply_fill s f"
| "lifecycle_step s (Cancel t d) = cancel s t d"
| "lifecycle_step s (Expire t d) = expire s t d"
| "lifecycle_step s (RejectOrder t d) = reject s t d"
| "lifecycle_step s (MarkRecovering t d rs) = mark_recovering s t d rs"
| "lifecycle_step s (MarkUnreconciled t d) = mark_unreconciled s t d"
| "lifecycle_step s (ResolveRecovery st t d) = resolve_recovery s st t d"

text \<open>What no event of the lifecycle may change.\<close>

definition order_identity ::
    "order_state \<Rightarrow> string \<times> string \<times> string \<times> order_side \<times> order_type \<times> decimal \<times> decimal option"
where
  "order_identity s =
     (os_venue s, os_client_order_id s, os_instrument_id s, os_side s, os_order_type s,
      os_requested_quantity s, os_limit_price s)"

lemma with_transition_Inr:
  "with_transition s m d t = Inr (s', tr) \<longleftrightarrow> m = Inr s' \<and> tr = mk_transition s s' d t"
  by (auto simp: with_transition_def r_bind_Inr)

lemmas lifecycle_defs =
  acknowledge_def cancel_def expire_def reject_def mark_recovering_def mark_unreconciled_def
  resolve_recovery_def replace_status_def

lemma apply_fill_Inr:
  "apply_fill s f = Inr (s', tr) \<longleftrightarrow>
     (\<exists>avg. average_fill_price s f (os_filled_quantity s + fe_quantity f) = Inr avg \<and>
        s' = s\<lparr>os_status :=
                 (if os_requested_quantity s = os_filled_quantity s + fe_quantity f
                  then FILLED else PARTIALLY_FILLED),
               os_filled_quantity := os_filled_quantity s + fe_quantity f,
               os_remaining_quantity :=
                 os_requested_quantity s - (os_filled_quantity s + fe_quantity f),
               os_last_update_time := fe_occurred_at f, os_average_fill_price := Some avg\<rparr> \<and>
        valid_order s' \<and>
        tr = mk_transition s s'
          (if os_status s' = FILLED then ''order fully filled'' else ''order partially filled'')
          (fe_occurred_at f))"
  by (auto simp: apply_fill_def Let_def r_bind_Inr with_transition_Inr decimal_sub_eq_0_iff)

lemma lifecycle_step_valid: "lifecycle_step s e = Inr (s', t) \<Longrightarrow> valid_order s'"
  by (cases e) (auto simp: lifecycle_defs with_transition_Inr apply_fill_Inr)

lemma lifecycle_step_identity:
  "lifecycle_step s e = Inr (s', t) \<Longrightarrow> order_identity s' = order_identity s"
  by (cases e) (auto simp: lifecycle_defs with_transition_Inr apply_fill_Inr order_identity_def)

lemma lifecycle_step_audit:
  "lifecycle_step s e = Inr (s', t) \<Longrightarrow>
     lt_from_status t = os_status s \<and> lt_to_status t = os_status s'"
  by (cases e)
    (auto simp: lifecycle_defs with_transition_Inr apply_fill_Inr mk_transition_def)

interpretation lifecycle: audited_machine lifecycle_step valid_order order_identity os_status
    lt_from_status lt_to_status
  by unfold_locales
    (blast intro: lifecycle_step_valid lifecycle_step_identity dest: lifecycle_step_audit)+

fun is_fill :: "lifecycle_event \<Rightarrow> bool" where
  "is_fill (Fill f) = True"
| "is_fill e = False"

lemma non_fill_quantities:
  "lifecycle_step s e = Inr (s', t) \<Longrightarrow> \<not> is_fill e \<Longrightarrow>
     os_filled_quantity s' = os_filled_quantity s \<and>
     os_remaining_quantity s' = os_remaining_quantity s \<and>
     os_average_fill_price s' = os_average_fill_price s"
  by (cases e) (auto simp: lifecycle_defs with_transition_Inr)

section \<open>Fills\<close>

lemma average_fill_price_Inr:
  assumes "valid_order s" and "valid_fill f"
  shows "\<exists>avg. average_fill_price s f (os_filled_quantity s + fe_quantity f) = Inr avg \<and> 0 \<le> avg"
proof -
  have pos: "0 < os_filled_quantity s + fe_quantity f"
    using valid_orderD(2) [OF assms(1)] valid_fillD(1) [OF assms(2)] by (rule decimal_pos_add)
  let ?prior = "case os_average_fill_price s of None \<Rightarrow> 0 | Some p \<Rightarrow> p"
  have "0 \<le> ?prior" using valid_orderD(6) [OF assms(1)] by (simp add: opt_all_def split: option.splits)
  then have num: "0 \<le> os_filled_quantity s * ?prior + fe_quantity f * fe_price f"
    using valid_orderD(2) [OF assms(1)] valid_fillD(1,2) [OF assms(2)]
    by (intro decimal_nonneg_add decimal_nonneg_mult) auto
  have ne: "os_filled_quantity s + fe_quantity f \<noteq> 0" using pos by auto
  then obtain avg where avg:
    "dec_div (os_filled_quantity s * ?prior + fe_quantity f * fe_price f)
       (os_filled_quantity s + fe_quantity f) = Inr avg"
    using dec_div_Inr by blast
  with num pos have "0 \<le> avg" by (blast intro: dec_div_nonneg less_imp_le)
  with avg show ?thesis unfolding average_fill_price_def Let_def by blast
qed

text \<open>
  Quantities on a common grid: the fill applies exactly when it does not overfill the order, the
  new quantities are then exact, and an overfill raises.
\<close>

definition fill_on_grid :: "int \<Rightarrow> order_state \<Rightarrow> fill_event \<Rightarrow> bool" where
  "fill_on_grid k s f \<longleftrightarrow>
     on_grid k (dec_val (os_filled_quantity s)) \<and> on_grid k (dec_val (fe_quantity f)) \<and>
     on_grid k (dec_val (os_requested_quantity s))"

lemma apply_fill_fits:
  assumes v: "valid_order s" and f: "valid_fill f" and g: "fill_on_grid k s f"
    and fits: "dec_val (os_filled_quantity s) + dec_val (fe_quantity f)
      \<le> dec_val (os_requested_quantity s)"
  shows "\<exists>s' t. apply_fill s f = Inr (s', t) \<and>
     dec_val (os_filled_quantity s') = dec_val (os_filled_quantity s) + dec_val (fe_quantity f) \<and>
     dec_val (os_remaining_quantity s') =
       dec_val (os_requested_quantity s)
       - (dec_val (os_filled_quantity s) + dec_val (fe_quantity f)) \<and>
     (os_status s' = FILLED \<longleftrightarrow>
       dec_val (os_filled_quantity s) + dec_val (fe_quantity f)
         = dec_val (os_requested_quantity s)) \<and>
     (os_status s' = FILLED \<or> os_status s' = PARTIALLY_FILLED)"
proof -
  let ?fl = "dec_val (os_filled_quantity s)" and ?q = "dec_val (fe_quantity f)"
    and ?rq = "dec_val (os_requested_quantity s)"
  have nn: "0 \<le> ?fl" "0 < ?q"
    using valid_orderD(2) [OF v] valid_fillD(1) [OF f]
    by (simp_all add: less_eq_decimal_def less_decimal_def)
  have gs: "on_grid k (?fl + ?q)"
    using g nn fits unfolding fill_on_grid_def by (intro on_grid_add [where z = ?rq]) auto
  have gr: "on_grid k (?rq - (?fl + ?q))"
    using g gs nn fits unfolding fill_on_grid_def by (intro on_grid_diff) auto
  note ex = on_grid_exact [OF gs] on_grid_exact [OF gr]
  have rqx: "dround ?rq = ?rq" using g on_grid_exact by (auto simp: fill_on_grid_def)
  obtain avg where avg: "average_fill_price s f (os_filled_quantity s + fe_quantity f) = Inr avg"
    "0 \<le> avg" using average_fill_price_Inr [OF v f] by blast
  define s' where "s' = s\<lparr>os_status :=
      (if os_requested_quantity s = os_filled_quantity s + fe_quantity f
       then FILLED else PARTIALLY_FILLED),
    os_filled_quantity := os_filled_quantity s + fe_quantity f,
    os_remaining_quantity := os_requested_quantity s - (os_filled_quantity s + fe_quantity f),
    os_last_update_time := fe_occurred_at f, os_average_fill_price := Some avg\<rparr>"
  have "valid_order s'"
    using v f nn fits avg(2) unfolding valid_order_def valid_fill_def s'_def
    by (auto simp: order_state_checks_def fill_event_checks_def less_eq_decimal_def decimal_eq_iff
        ex rqx)
  then have "apply_fill s f = Inr (s', mk_transition s s'
      (if os_status s' = FILLED then ''order fully filled'' else ''order partially filled'')
      (fe_occurred_at f))"
    unfolding apply_fill_Inr using avg(1) s'_def by blast
  then show ?thesis by (auto simp: s'_def ex decimal_eq_iff)
qed

lemma apply_fill_overfill:
  assumes v: "valid_order s" and f: "valid_fill f" and g: "fill_on_grid k s f"
    and big: "dec_val (os_requested_quantity s)
      < dec_val (os_filled_quantity s) + dec_val (fe_quantity f)"
    and small: "on_grid k (dec_val (os_filled_quantity s) + dec_val (fe_quantity f))"
  shows "apply_fill s f = Inl (ValueError ''remaining_quantity must be non-negative'')"
proof -
  obtain avg where avg: "average_fill_price s f (os_filled_quantity s + fe_quantity f) = Inr avg"
    using average_fill_price_Inr [OF v f] by blast
  have neg: "\<not> 0 \<le> os_requested_quantity s - (os_filled_quantity s + fe_quantity f)"
    "os_requested_quantity s - (os_filled_quantity s + fe_quantity f) \<noteq> 0"
    using big on_grid_exact [OF small] by (auto simp: less_eq_decimal_def decimal_eq_iff)
  have nn: "0 \<le> os_filled_quantity s + fe_quantity f"
    using valid_orderD(2) [OF v] valid_fillD(1) [OF f]
    by (simp add: less_eq_decimal_def less_decimal_def)
  show ?thesis
    using v f avg neg nn
    by (simp add: apply_fill_def Let_def with_transition_def mk_order_state_def validated_def
        valid_order_def valid_fill_def order_state_checks_def fill_event_checks_def run_checks_append
        require_non_empty_def require_aware_utc_def require_non_negative_def is_utc_def not_less)
qed

text \<open>The exact total of a sequence of fills.\<close>

definition fill_total :: "fill_event list \<Rightarrow> rat" where
  "fill_total fs = sum_list (map (\<lambda>f. dec_val (fe_quantity f)) fs)"

lemma fill_total_simps [simp]:
  "fill_total [] = 0"
  "fill_total (f # fs) = dec_val (fe_quantity f) + fill_total fs"
  by (simp_all add: fill_total_def)

lemma fill_total_nonneg: "\<forall>f\<in>set fs. valid_fill f \<Longrightarrow> 0 \<le> fill_total fs"
proof (induction fs)
  case (Cons f fs)
  then show ?case using valid_fillD(1) [of f] by (auto simp: less_decimal_def)
qed simp

text \<open>
  A sequence of fills that does not exceed the requested quantity is accepted in full, the filled
  quantity is its exact total, and the order ends filled exactly when nothing remains.
\<close>

lemma fill_run:
  assumes "valid_order s" and "\<forall>f\<in>set fs. valid_fill f"
    and "\<forall>f\<in>set fs. on_grid k (dec_val (fe_quantity f))"
    and "on_grid k (dec_val (os_filled_quantity s))"
    and "on_grid k (dec_val (os_requested_quantity s))"
    and "dec_val (os_filled_quantity s) + fill_total fs \<le> dec_val (os_requested_quantity s)"
    and "fs \<noteq> []"
  shows "\<exists>s' ts. machine_run lifecycle_step s (map Fill fs) = Inr (s', ts) \<and>
     dec_val (os_filled_quantity s') = dec_val (os_filled_quantity s) + fill_total fs \<and>
     (os_status s' = FILLED \<longleftrightarrow>
       dec_val (os_filled_quantity s) + fill_total fs = dec_val (os_requested_quantity s)) \<and>
     (os_status s' = FILLED \<or> os_status s' = PARTIALLY_FILLED)"
  using assms
proof (induction fs arbitrary: s)
  case Nil
  then show ?case by simp
next
  case (Cons f fs)
  have rest: "0 \<le> fill_total fs" using Cons.prems(2) by (auto intro: fill_total_nonneg)
  have g: "fill_on_grid k s f" using Cons.prems by (simp add: fill_on_grid_def)
  have fits: "dec_val (os_filled_quantity s) + dec_val (fe_quantity f)
      \<le> dec_val (os_requested_quantity s)"
    using Cons.prems(6) rest by simp
  obtain u t where step: "lifecycle_step s (Fill f) = Inr (u, t)"
    and filled: "dec_val (os_filled_quantity u)
      = dec_val (os_filled_quantity s) + dec_val (fe_quantity f)"
    and st: "os_status u = FILLED \<longleftrightarrow> dec_val (os_filled_quantity s) + dec_val (fe_quantity f)
         = dec_val (os_requested_quantity s)"
      "os_status u = FILLED \<or> os_status u = PARTIALLY_FILLED"
    using apply_fill_fits [OF Cons.prems(1) _ g fits] Cons.prems(2) by auto
  have rq: "os_requested_quantity u = os_requested_quantity s"
    using lifecycle.step_ident [OF step] by (simp add: order_identity_def)
  have nn: "0 \<le> dec_val (os_filled_quantity s)" "0 < dec_val (fe_quantity f)"
    using valid_orderD(2) [OF Cons.prems(1)] valid_fillD(1) [of f] Cons.prems(2)
    by (simp_all add: less_eq_decimal_def less_decimal_def)
  have gu: "on_grid k (dec_val (os_filled_quantity u))"
    unfolding filled using g nn fits unfolding fill_on_grid_def
    by (intro on_grid_add [where z = "dec_val (os_requested_quantity s)"]) auto
  show ?case
  proof (cases "fs = []")
    case True
    with step filled st show ?thesis by auto
  next
    case False
    have "valid_order u" using lifecycle.step_inv [OF Cons.prems(1) step] .
    then obtain s' ts where "machine_run lifecycle_step u (map Fill fs) = Inr (s', ts)"
      "dec_val (os_filled_quantity s') = dec_val (os_filled_quantity u) + fill_total fs"
      "os_status s' = FILLED \<longleftrightarrow>
         dec_val (os_filled_quantity u) + fill_total fs = dec_val (os_requested_quantity u)"
      "os_status s' = FILLED \<or> os_status s' = PARTIALLY_FILLED"
      using Cons.IH [of u] Cons.prems gu rq filled False by auto
    with step filled rq show ?thesis by (auto simp: add.assoc)
  qed
qed

section \<open>Properties\<close>

text \<open>
  C36. A whole run of lifecycle events on a valid order that succeeds ends in a valid order (every
  constructor invariant holds, in particular filled + remaining = requested), never changes the
  order's identity (venue, client id, instrument, side, type, requested quantity, limit), and its
  audit records connect the first status to the last, one record per event.
\<close>

theorem lifecycle_run_sound:
  assumes "valid_order s" and "machine_run lifecycle_step s es = Inr (s', ts)"
  shows "valid_order s' \<and> order_identity s' = order_identity s \<and> length ts = length es \<and>
    trail_connects lt_from_status lt_to_status (os_status s) ts (os_status s')"
  using lifecycle.run_inv [OF assms] lifecycle.run_ident [OF assms(2)]
    lifecycle.run_trail [OF assms(2)] by blast

lemma lifecycle_run_sound_witness:
  "\<exists>s' ts. machine_run lifecycle_step (sample_order NEW (Dec 2))
      [Ack (Some ''x9'') (utc 1), Cancel (utc 2) ''user''] = Inr (s', ts) \<and> valid_order s' \<and>
    trail_connects lt_from_status lt_to_status NEW ts (os_status s')"
proof -
  let ?s = "sample_order NEW (Dec 2)"
  let ?a = "?s\<lparr>os_order_id := ''x9'', os_status := ACKNOWLEDGED, os_last_update_time := utc 1\<rparr>"
  let ?c = "?a\<lparr>os_status := CANCELED, os_last_update_time := utc 2\<rparr>"
  have run: "machine_run lifecycle_step ?s [Ack (Some ''x9'') (utc 1), Cancel (utc 2) ''user'']
      = Inr (?c, [mk_transition ?s ?a ''order acknowledged'' (utc 1),
                  mk_transition ?a ?c ''user'' (utc 2)])"
    unfolding machine_run_Cons_Inr
    by (simp add: acknowledge_def cancel_def replace_status_def with_transition_Inr py_or_def
        valid_order_def order_state_checks_def sample_order_def blank_def py_space_def)
  have v: "valid_order ?s" by simp
  show ?thesis using run lifecycle_run_sound [OF v run] by auto
qed

text \<open>
  C37. Fills on a common decimal grid that together do not exceed the requested quantity are all
  accepted, the filled quantity is exactly their total (no rounding error accumulates), and the
  order ends FILLED exactly when nothing remains.
\<close>

theorem fills_fill_the_order:
  assumes "valid_order s" and "\<forall>f\<in>set fs. valid_fill f"
    and "\<forall>f\<in>set fs. on_grid k (dec_val (fe_quantity f))"
    and "on_grid k (dec_val (os_filled_quantity s))"
    and "on_grid k (dec_val (os_requested_quantity s))"
    and "dec_val (os_filled_quantity s) + fill_total fs \<le> dec_val (os_requested_quantity s)"
    and "fs \<noteq> []"
  shows "\<exists>s' ts. machine_run lifecycle_step s (map Fill fs) = Inr (s', ts) \<and>
     dec_val (os_filled_quantity s') = dec_val (os_filled_quantity s) + fill_total fs \<and>
     (os_status s' = FILLED \<longleftrightarrow>
       dec_val (os_filled_quantity s) + fill_total fs = dec_val (os_requested_quantity s)) \<and>
     (os_status s' = FILLED \<or> os_status s' = PARTIALLY_FILLED)"
  using assms by (rule fill_run)

lemma fills_fill_the_order_witness:
  "\<exists>s' ts. machine_run lifecycle_step (sample_order ACKNOWLEDGED (Dec 5))
      (map Fill [sample_fill ''f1'' (Dec 2), sample_fill ''f2'' (Dec 3)]) = Inr (s', ts) \<and>
     dec_val (os_filled_quantity s') = 5 \<and> os_status s' = FILLED"
  using fills_fill_the_order [of "sample_order ACKNOWLEDGED (Dec 5)"
      "[sample_fill ''f1'' (Dec 2), sample_fill ''f2'' (Dec 3)]" 0]
  by (auto simp: blank_def py_space_def on_grid_numeral)

text \<open>
  A fill that would take the filled quantity above the requested quantity is not applied: the
  order state constructor raises its remaining-quantity error.
\<close>

theorem overfill_raises:
  assumes "valid_order s" and "valid_fill f" and "fill_on_grid k s f"
    and "dec_val (os_requested_quantity s)
      < dec_val (os_filled_quantity s) + dec_val (fe_quantity f)"
    and "on_grid k (dec_val (os_filled_quantity s) + dec_val (fe_quantity f))"
  shows "apply_fill s f = Inl (ValueError ''remaining_quantity must be non-negative'')"
  using assms by (rule apply_fill_overfill)

lemma overfill_raises_witness:
  "apply_fill (sample_order ACKNOWLEDGED (Dec 2)) (sample_fill ''f1'' (Dec 3))
     = Inl (ValueError ''remaining_quantity must be non-negative'')"
  by (rule overfill_raises [where k = 0])
    (simp_all add: fill_on_grid_def on_grid_numeral blank_def py_space_def)

text \<open>
  Events other than fills never change the quantities: after any successful run without fills
  the filled and remaining quantities and the average price are those of the start.
\<close>

theorem status_events_keep_quantities:
  assumes "machine_run lifecycle_step s es = Inr (s', ts)" and "list_all (\<lambda>e. \<not> is_fill e) es"
  shows "os_filled_quantity s' = os_filled_quantity s \<and>
    os_remaining_quantity s' = os_remaining_quantity s \<and>
    os_average_fill_price s' = os_average_fill_price s"
  using assms
proof (induction es arbitrary: s ts)
  case (Cons e es)
  then obtain u t us where "lifecycle_step s e = Inr (u, t)"
    "machine_run lifecycle_step u es = Inr (s', us)" unfolding machine_run_Cons_Inr by blast
  then show ?case using Cons non_fill_quantities [of s e u t] by fastforce
qed simp

lemma status_events_keep_quantities_witness:
  "\<exists>s' ts. machine_run lifecycle_step (sample_order ACKNOWLEDGED (Dec 2))
      [Expire (utc 2) ''expired''] = Inr (s', ts) \<and> os_remaining_quantity s' = Dec 2"
proof -
  let ?s = "sample_order ACKNOWLEDGED (Dec 2)"
  let ?c = "?s\<lparr>os_status := EXPIRED, os_last_update_time := utc 2\<rparr>"
  have run: "machine_run lifecycle_step ?s [Expire (utc 2) ''expired'']
      = Inr (?c, [mk_transition ?s ?c ''expired'' (utc 2)])"
    unfolding machine_run_Cons_Inr
    by (simp add: expire_def replace_status_def with_transition_Inr
        valid_order_def order_state_checks_def sample_order_def blank_def py_space_def)
  show ?thesis using run status_events_keep_quantities [OF run] by simp
qed

text \<open>
  The status guard the doc strings of cancel, expire and reject speak of (a non-terminal order)
  is not in the code: from any status of a valid order, FILLED included, each of them succeeds.
\<close>

theorem terminal_orders_unguarded:
  assumes "valid_order s" and "is_utc t"
  shows "(\<exists>a. cancel s t d = Inr (s\<lparr>os_status := CANCELED, os_last_update_time := t\<rparr>, a)) \<and>
    (\<exists>a. expire s t d = Inr (s\<lparr>os_status := EXPIRED, os_last_update_time := t\<rparr>, a)) \<and>
    (\<exists>a. reject s t d = Inr (s\<lparr>os_status := REJECTED, os_last_update_time := t\<rparr>, a))"
  using assms
  by (simp add: lifecycle_defs with_transition_Inr valid_order_def order_state_checks_def)

lemma terminal_orders_unguarded_witness:
  "\<exists>a. cancel (sample_order FILLED (Dec 2)) (utc 5) ''late'' =
     Inr ((sample_order FILLED (Dec 2))\<lparr>os_status := CANCELED, os_last_update_time := utc 5\<rparr>, a)"
  using terminal_orders_unguarded [of "sample_order FILLED (Dec 2)" "utc 5" "''late''"] by simp

end
