(* ===== verification/PaperTrading.thy ===== *)
theory PaperTrading
  imports OrderLifecycle
begin

text \<open>
  The paper-mode path: \<open>app/risk/report_only.py\<close> (risk decisions), \<open>app/execution/report_only.py\<close>
  (intents), \<open>app/execution/paper.py\<close> (immediate fills) and \<open>app/portfolio/paper.py\<close> (the portfolio
  after fills, and its positions).
\<close>

section \<open>Risk evaluation\<close>

definition evaluate_signal :: "decimal \<Rightarrow> signal_decision \<Rightarrow> risk_decision result" where
  "evaluate_signal max_notional signal =
     (if sd_side signal = Flat then
        mk_risk_decision
          \<lparr>rd_signal = signal, rd_status = Allow, rd_evaluated_at = sd_as_of signal,
           rd_reasons = [''context-only signal recorded''], rd_approved_notional = None,
           rd_approved_quantity = Some (case sd_target_quantity signal of None \<Rightarrow> 0 | Some q \<Rightarrow> q),
           rd_rule_hits = []\<rparr>
      else
        (let target_notional = (case sd_target_notional signal of None \<Rightarrow> 0 | Some n \<Rightarrow> n) in
         if max_notional < target_notional then
           mk_risk_decision
             \<lparr>rd_signal = signal, rd_status = Reject, rd_evaluated_at = sd_as_of signal,
              rd_reasons = [''target notional exceeds report-only safety bound''],
              rd_approved_notional = None, rd_approved_quantity = None,
              rd_rule_hits = [''max_notional'']\<rparr>
         else
           mk_risk_decision
             \<lparr>rd_signal = signal, rd_status = Allow, rd_evaluated_at = sd_as_of signal,
              rd_reasons = [''report-only placeholder allow''],
              rd_approved_notional = sd_target_notional signal,
              rd_approved_quantity = sd_target_quantity signal,
              rd_rule_hits = [''report_only_placeholder'']\<rparr>))"

definition evaluate_risk :: "decimal \<Rightarrow> signal_decision list \<Rightarrow> risk_decision list result" where
  "evaluate_risk max_notional signals = r_map (evaluate_signal max_notional) signals"

lemma evaluate_signal_total:
  assumes "passes (signal_decision_checks s)"
  shows "\<exists>d. evaluate_signal m s = Inr d"
  using assms
  by (auto simp: evaluate_signal_def Let_def mk_risk_decision_Inr risk_decision_checks_def
      signal_decision_checks_def blank_def py_space_def opt_all_def split: option.splits)

lemma evaluate_signal_Inr:
  assumes "evaluate_signal m s = Inr d"
  shows "rd_signal d = s"
    and "rd_status d = Reject \<longleftrightarrow> sd_side s \<noteq> Flat \<and> (\<exists>n. sd_target_notional s = Some n \<and> m < n)
           \<or> (sd_side s \<noteq> Flat \<and> sd_target_notional s = None \<and> m < 0)"
    and "rd_status d \<noteq> Adjust"
  using assms
  by (auto simp: evaluate_signal_def Let_def mk_risk_decision_Inr split: if_splits option.splits)

lemma evaluate_signal_allowed:
  assumes "evaluate_signal m s = Inr d" and "rd_status d \<noteq> Reject" and "sd_side s \<noteq> Flat"
    and "sd_target_notional s = Some n"
  shows "n \<le> m"
  using assms
  by (auto simp: evaluate_signal_def Let_def mk_risk_decision_Inr not_less split: if_splits)

section \<open>Execution intents\<close>

definition intent_quantity :: "risk_decision \<Rightarrow> decimal" where
  "intent_quantity d =
     (case rd_approved_quantity d of
        Some q \<Rightarrow> q
      | None \<Rightarrow>
          (case rd_approved_notional d of
             Some n \<Rightarrow> if n \<noteq> 0 then n
               else (case sd_target_notional (rd_signal d) of
                       Some t \<Rightarrow> if t \<noteq> 0 then t else Dec 1 | None \<Rightarrow> Dec 1)
           | None \<Rightarrow> (case sd_target_notional (rd_signal d) of
                       Some t \<Rightarrow> if t \<noteq> 0 then t else Dec 1 | None \<Rightarrow> Dec 1)))"

definition build_intent ::
    "string \<Rightarrow> string \<Rightarrow> datetime \<Rightarrow> risk_decision \<Rightarrow> execution_intent result" where
  "build_intent default_venue venue submitted_at d =
     mk_execution_intent
       \<lparr>ei_intent_id = sd_strategy_name (rd_signal d) @ '':'' @ sd_instrument_id (rd_signal d) @ '':''
          @ isoformat submitted_at,
        ei_venue = (if venue = [] then default_venue else venue),
        ei_instrument_id = sd_instrument_id (rd_signal d),
        ei_side = (if sd_side (rd_signal d) = Buy then BUY else SELL),
        ei_order_type = MARKET, ei_time_in_force = IOC, ei_quantity = intent_quantity d,
        ei_submitted_at = submitted_at, ei_source_strategy = sd_strategy_name (rd_signal d),
        ei_rationale = ''report-only generated intent; not submitted'',
        ei_limit_price = None, ei_reduce_only = False\<rparr>"

fun build_intents ::
    "string \<Rightarrow> string \<Rightarrow> datetime \<Rightarrow> risk_decision list \<Rightarrow> execution_intent list result" where
  "build_intents default_venue venue submitted_at [] = Inr []"
| "build_intents default_venue venue submitted_at (d # ds) =
     (if rd_status d \<notin> {Allow, Adjust} then build_intents default_venue venue submitted_at ds
      else if sd_side (rd_signal d) = Flat then build_intents default_venue venue submitted_at ds
      else r_bind (build_intent default_venue venue submitted_at d) (\<lambda>i.
             r_bind (build_intents default_venue venue submitted_at ds) (\<lambda>is. Inr (i # is))))"

lemma build_intents_eq:
  "build_intents dv v t ds =
     r_map (build_intent dv v t)
       (filter (\<lambda>d. rd_status d \<noteq> Reject \<and> sd_side (rd_signal d) \<noteq> Flat) ds)"
proof (induction ds)
  case Nil
  show ?case by simp
next
  case (Cons d ds)
  then show ?case by (cases "rd_status d") auto
qed

section \<open>Simulated execution\<close>

record paper_simulator =
  sim_fee_bps :: decimal
  sim_fee_asset :: string

definition simulate_intent ::
    "paper_simulator \<Rightarrow> decimal \<Rightarrow> datetime \<Rightarrow> execution_intent \<Rightarrow> (order_state \<times> fill_event) result"
where
  "simulate_intent sim fill_price occurred_at intent =
     r_bind (dec_div (ei_quantity intent * fill_price * sim_fee_bps sim) (Dec 10000)) (\<lambda>fee.
     r_bind (new_from_intent intent) (\<lambda>new_state.
     r_bind (acknowledge new_state (Some (''paper:'' @ ei_intent_id intent)) occurred_at)
       (\<lambda>(acknowledged, _).
     r_bind (mk_fill_event
        \<lparr>fe_venue = ei_venue intent, fe_order_id = ''paper:'' @ ei_intent_id intent,
         fe_fill_id = ''fill:'' @ ei_intent_id intent,
         fe_instrument_id = ei_instrument_id intent, fe_side = ei_side intent,
         fe_quantity = ei_quantity intent, fe_price = fill_price, fe_fee = fee,
         fe_fee_asset = sim_fee_asset sim, fe_occurred_at = occurred_at,
         fe_liquidity_role = UNKNOWN_ROLE\<rparr>) (\<lambda>fill.
     r_bind (apply_fill acknowledged fill) (\<lambda>(filled_state, _).
       Inr (filled_state, fill))))))"

definition simulate ::
    "paper_simulator \<Rightarrow> execution_intent list \<Rightarrow> decimal \<Rightarrow> datetime
      \<Rightarrow> (order_state list \<times> fill_event list) result" where
  "simulate sim intents fill_price occurred_at =
     r_bind (r_map (simulate_intent sim fill_price occurred_at) intents)
       (\<lambda>ps. Inr (map fst ps, map snd ps))"

text \<open>
  An intent whose quantity has at most 28 digits is filled completely by one fill of that
  quantity, at the given price.
\<close>

definition representable :: "decimal \<Rightarrow> bool" where
  "representable d \<longleftrightarrow> dround (dec_val d) = dec_val d"

lemma representable_add_0: "representable d \<Longrightarrow> 0 + d = d" "representable d \<Longrightarrow> d + 0 = d"
  by (simp_all add: representable_def decimal_eq_iff)

lemma simulate_intent_fills:
  assumes i: "passes (execution_intent_checks i)" and p: "0 \<le> p" and t: "is_utc t"
    and fb: "0 \<le> sim_fee_bps sim" and fa: "\<not> blank (sim_fee_asset sim)"
    and q: "representable (ei_quantity i)"
  shows "\<exists>s f. simulate_intent sim p t i = Inr (s, f) \<and>
    os_status s = FILLED \<and> os_filled_quantity s = ei_quantity i \<and> os_remaining_quantity s = 0 \<and>
    os_requested_quantity s = ei_quantity i \<and> os_instrument_id s = ei_instrument_id i \<and>
    fe_quantity f = ei_quantity i \<and> fe_price f = p \<and> fe_side f = ei_side i \<and>
    fe_instrument_id f = ei_instrument_id i \<and> fe_order_id f = os_order_id s \<and> valid_fill f \<and>
    valid_order s"
proof -
  let ?q = "ei_quantity i"
  have pos: "0 < ?q" using i by (rule intent_quantity_pos)
  note qs = representable_add_0 [OF q]
  obtain fee where fee: "dec_div (?q * p * sim_fee_bps sim) (Dec 10000) = Inr fee" "0 \<le> fee"
  proof -
    have nn: "0 \<le> ?q * p * sim_fee_bps sim" using pos p fb by (intro decimal_nonneg_mult) auto
    have "dec_div (?q * p * sim_fee_bps sim) (Dec 10000)
        = Inr (Dec (dround (dec_val (?q * p * sim_fee_bps sim) / 10000)))"
      using dec_div_Inr [of "Dec 10000"] by simp
    then show thesis using dec_div_nonneg [OF nn] that by (metis Dec_zero_simps(7) zero_le_numeral)
  qed
  define new where "new = \<lparr>os_venue = ei_venue i, os_order_id = ''pending:'' @ ei_intent_id i,
      os_client_order_id = ei_intent_id i, os_instrument_id = ei_instrument_id i,
      os_side = ei_side i, os_order_type = ei_order_type i, os_status = NEW,
      os_requested_quantity = ?q, os_filled_quantity = 0, os_remaining_quantity = ?q,
      os_last_update_time = ei_submitted_at i, os_limit_price = ei_limit_price i,
      os_average_fill_price = None, os_reconciliation_state = None, os_reconciliation_detail = None\<rparr>"
  define ack where "ack = new\<lparr>os_order_id := ''paper:'' @ ei_intent_id i,
      os_status := ACKNOWLEDGED, os_last_update_time := t\<rparr>"
  define fill where "fill = \<lparr>fe_venue = ei_venue i, fe_order_id = ''paper:'' @ ei_intent_id i,
      fe_fill_id = ''fill:'' @ ei_intent_id i, fe_instrument_id = ei_instrument_id i,
      fe_side = ei_side i, fe_quantity = ?q, fe_price = p, fe_fee = fee,
      fe_fee_asset = sim_fee_asset sim, fe_occurred_at = t, fe_liquidity_role = UNKNOWN_ROLE\<rparr>"
  have new: "new_from_intent i = Inr new" and vnew: "valid_order new"
    using i pos by (auto simp: new_from_intent_def new_def valid_order_def order_state_checks_def
        execution_intent_checks_def qs blank_def py_space_def opt_all_def split: if_splits option.splits)
  have ack: "acknowledge new (Some (''paper:'' @ ei_intent_id i)) t
      = Inr (ack, mk_transition new ack ''order acknowledged'' t)" and vack: "valid_order ack"
    using vnew t by (auto simp: acknowledge_def with_transition_Inr ack_def py_or_def
        valid_order_def order_state_checks_def blank_def py_space_def)
  have vf: "valid_fill fill"
    using i pos p t fee(2) fa by (auto simp: fill_def valid_fill_def fill_event_checks_def
        execution_intent_checks_def blank_def py_space_def)
  obtain avg where avg: "average_fill_price ack fill (os_filled_quantity ack + fe_quantity fill)
      = Inr avg" "0 \<le> avg"
    using average_fill_price_Inr [OF vack vf] by blast
  define s where "s = ack\<lparr>os_status := FILLED, os_filled_quantity := ?q,
      os_remaining_quantity := 0, os_last_update_time := t, os_average_fill_price := Some avg\<rparr>"
  have vs: "valid_order s"
    using vack t avg(2) pos
    by (simp add: s_def ack_def new_def valid_order_def order_state_checks_def qs)
  have s_eq: "s = ack\<lparr>os_status := (if os_requested_quantity ack
         = os_filled_quantity ack + fe_quantity fill then FILLED else PARTIALLY_FILLED),
       os_filled_quantity := os_filled_quantity ack + fe_quantity fill,
       os_remaining_quantity := os_requested_quantity ack
         - (os_filled_quantity ack + fe_quantity fill),
       os_last_update_time := fe_occurred_at fill, os_average_fill_price := Some avg\<rparr>"
    by (simp add: s_def ack_def new_def fill_def qs)
  have "apply_fill ack fill = Inr (s, mk_transition ack s
      (if os_status s = FILLED then ''order fully filled'' else ''order partially filled'')
      (fe_occurred_at fill))"
    unfolding apply_fill_Inr using avg(1) s_eq vs by blast
  then have "simulate_intent sim p t i = Inr (s, fill)"
    using fee(1) new ack vf by (simp add: simulate_intent_def fill_def mk_fill_event_def valid_fill_def
        validated_passes)
  then show ?thesis using vf vs by (intro exI [of _ s] exI [of _ fill]) (simp add: s_def fill_def ack_def new_def)
qed

section \<open>Properties\<close>

text \<open>
  Every valid signal gets exactly one risk decision, in the order of the signals, and none is
  an ADJUST decision: the evaluation never raises.
\<close>

theorem risk_decides_every_signal:
  assumes "\<forall>s\<in>set sigs. passes (signal_decision_checks s)"
  shows "\<exists>ds. evaluate_risk m sigs = Inr ds \<and> map rd_signal ds = sigs \<and>
    (\<forall>d\<in>set ds. rd_status d \<noteq> Adjust)"
proof -
  have "\<exists>ds. evaluate_risk m sigs = Inr ds"
    using assms r_map_total [of sigs "evaluate_signal m" "\<lambda>s. projr (evaluate_signal m s)"]
      evaluate_signal_total [of _ m] unfolding evaluate_risk_def by fastforce
  then obtain ds where ds: "evaluate_risk m sigs = Inr ds" by blast
  then have l: "list_all2 (\<lambda>s d. evaluate_signal m s = Inr d) sigs ds"
    by (simp add: evaluate_risk_def r_map_Inr_list_all2)
  then have "list_all2 (\<lambda>s d. rd_signal d = s \<and> rd_status d \<noteq> Adjust) sigs ds"
    by (rule list_all2_mono) (auto dest: evaluate_signal_Inr)
  then have "map rd_signal ds = sigs \<and> (\<forall>d\<in>set ds. rd_status d \<noteq> Adjust)"
    by (induction rule: list_all2_induct) auto
  with ds show ?thesis by blast
qed

definition sample_signal :: "signal_side \<Rightarrow> decimal \<Rightarrow> signal_decision" where
  "sample_signal side n =
     \<lparr>sd_strategy_name = ''breakout'', sd_instrument_id = ''BTC-USDT'', sd_timeframe = ''1h'',
      sd_as_of = utc 0, sd_side = side, sd_confidence = 1, sd_rationale = ''r'',
      sd_target_notional = Some n, sd_target_quantity = None\<rparr>"

lemma valid_sample_signal: "0 \<le> n \<Longrightarrow> passes (signal_decision_checks (sample_signal side n))"
  by (simp add: sample_signal_def signal_decision_checks_def blank_def py_space_def opt_all_def)

lemma risk_decides_every_signal_witness:
  "\<exists>ds. evaluate_risk (Dec 100) [sample_signal Buy (Dec 50), sample_signal Sell (Dec 200)] = Inr ds
    \<and> length ds = 2"
  using risk_decides_every_signal [of "[sample_signal Buy (Dec 50), sample_signal Sell (Dec 200)]"
      "Dec 100"]
  by (auto simp: valid_sample_signal dest!: arg_cong [where f = length])

lemma build_intent_Inr:
  assumes "build_intent dv v t d = Inr i"
  shows "passes (execution_intent_checks i)" "ei_order_type i = MARKET"
    "ei_instrument_id i = sd_instrument_id (rd_signal d)"
    "ei_side i = (if sd_side (rd_signal d) = Buy then BUY else SELL)"
    "ei_quantity i = intent_quantity d"
  using assms by (auto simp: build_intent_def mk_execution_intent_Inr)

text \<open>
  The risk cap holds through to the intents: every intent built from the decisions on a list of
  signals stems from a directional signal whose target notional does not exceed the bound, trades
  that signal's instrument in its direction, and is a valid market order.
\<close>

theorem risk_cap_reaches_intents:
  assumes "evaluate_risk m sigs = Inr ds" and "build_intents dv v t ds = Inr is" and "i \<in> set is"
  shows "\<exists>s\<in>set sigs. sd_side s \<noteq> Flat \<and> opt_all (\<lambda>n. n \<le> m) (sd_target_notional s) \<and>
    ei_instrument_id i = sd_instrument_id s \<and> (ei_side i = BUY \<longleftrightarrow> sd_side s = Buy) \<and>
    ei_order_type i = MARKET \<and> 0 < ei_quantity i"
proof -
  obtain d where d: "d \<in> set ds" "rd_status d \<noteq> Reject" "sd_side (rd_signal d) \<noteq> Flat"
    "build_intent dv v t d = Inr i"
    using r_map_Inr_set [OF assms(2) [unfolded build_intents_eq] assms(3)] by auto
  obtain s where s: "s \<in> set sigs" "evaluate_signal m s = Inr d"
    using r_map_Inr_set [OF assms(1) [unfolded evaluate_risk_def] d(1)] by auto
  have rs: "rd_signal d = s" using s(2) by (rule evaluate_signal_Inr)
  have "opt_all (\<lambda>n. n \<le> m) (sd_target_notional s)"
    using evaluate_signal_allowed [OF s(2) d(2)] d(3) rs
    by (cases "sd_target_notional s") (auto simp: opt_all_def)
  with s(1) d(3) rs build_intent_Inr [OF d(4)]
    intent_quantity_pos [OF build_intent_Inr(1) [OF d(4)]] show ?thesis
    by (intro bexI [of _ s]) auto
qed

lemma sample_risk:
  "evaluate_risk (Dec 100) [sample_signal Buy (Dec 50)] =
     Inr [\<lparr>rd_signal = sample_signal Buy (Dec 50), rd_status = Allow, rd_evaluated_at = utc 0,
       rd_reasons = [''report-only placeholder allow''], rd_approved_notional = Some (Dec 50),
       rd_approved_quantity = None, rd_rule_hits = [''report_only_placeholder'']\<rparr>]"
  by (simp add: evaluate_risk_def evaluate_signal_def sample_signal_def mk_risk_decision_Inr
      r_bind_Inr risk_decision_checks_def blank_def py_space_def opt_all_def)

lemma sample_build:
  "evaluate_risk (Dec 100) [sample_signal Buy (Dec 50)] = Inr ds \<Longrightarrow>
   \<exists>i. build_intents ''paper'' ''binance'' (utc 0) ds = Inr [i]"
  unfolding sample_risk
  by (auto simp: r_bind_Inr build_intent_def mk_execution_intent_Inr intent_quantity_def
      execution_intent_checks_def sample_signal_def blank_def py_space_def)

lemma risk_cap_reaches_intents_witness:
  "\<exists>ds i. evaluate_risk (Dec 100) [sample_signal Buy (Dec 50)] = Inr ds \<and>
     build_intents ''paper'' ''binance'' (utc 0) ds = Inr [i] \<and> ei_side i = BUY"
proof -
  let ?sigs = "[sample_signal Buy (Dec 50)]"
  obtain ds where ds: "evaluate_risk (Dec 100) ?sigs = Inr ds" using sample_risk by blast
  obtain i where i: "build_intents ''paper'' ''binance'' (utc 0) ds = Inr [i]"
    using sample_build [OF ds] by blast
  have "i \<in> set [i]" by simp
  from risk_cap_reaches_intents [OF ds i this] have "ei_side i = BUY"
    by (auto simp: sample_signal_def)
  with ds i show ?thesis by blast
qed

text \<open>
  Without an approved quantity the intent's base quantity is the approved quote notional itself,
  whatever the price: the builder does not divide by a price.
\<close>

theorem notional_becomes_quantity:
  assumes "build_intent dv v t d = Inr i" and "rd_approved_quantity d = None"
    and "rd_approved_notional d = Some n" and "0 < n"
  shows "ei_quantity i = n"
  using assms build_intent_Inr(5) [OF assms(1)] by (auto simp: intent_quantity_def)

lemma notional_becomes_quantity_witness:
  "\<exists>ds i. evaluate_risk (Dec 100) [sample_signal Buy (Dec 50)] = Inr ds \<and>
     build_intents ''paper'' ''binance'' (utc 0) ds = Inr [i] \<and> ei_quantity i = Dec 50"
proof -
  obtain ds where ds: "evaluate_risk (Dec 100) [sample_signal Buy (Dec 50)] = Inr ds"
    using sample_risk by blast
  obtain i where i: "build_intents ''paper'' ''binance'' (utc 0) ds = Inr [i]"
    using sample_build [OF ds] by blast
  from ds i obtain d where d: "build_intent ''paper'' ''binance'' (utc 0) d = Inr i"
    "rd_approved_quantity d = None" "rd_approved_notional d = Some (Dec 50)"
    unfolding sample_risk by (auto simp: sample_signal_def r_bind_Inr split: if_splits)
  have "ei_quantity i = Dec 50" by (rule notional_becomes_quantity [OF d]) simp
  with ds i show ?thesis by blast
qed

text \<open>
  Simulated execution at a non-negative price fills every valid intent completely: the run
  returns one FILLED order and one fill per intent, in order, with the intent's exact quantity,
  the given price, and the order's own id on the fill.
\<close>

theorem simulation_fills_everything:
  assumes "\<forall>i\<in>set is. passes (execution_intent_checks i) \<and> representable (ei_quantity i)"
    and "0 \<le> p" and "is_utc t" and "0 \<le> sim_fee_bps sim" and "\<not> blank (sim_fee_asset sim)"
  shows "\<exists>os fs. simulate sim is p t = Inr (os, fs) \<and> length os = length is \<and>
    map fe_quantity fs = map ei_quantity is \<and> map fe_order_id fs = map os_order_id os \<and>
    map fe_instrument_id fs = map ei_instrument_id is \<and> map fe_side fs = map ei_side is \<and>
    (\<forall>s\<in>set os. os_status s = FILLED \<and> os_remaining_quantity s = 0 \<and> valid_order s) \<and>
    (\<forall>f\<in>set fs. fe_price f = p \<and> valid_fill f)"
proof -
  have one: "\<exists>s f. simulate_intent sim p t i = Inr (s, f) \<and>
      os_status s = FILLED \<and> os_remaining_quantity s = 0 \<and> valid_order s \<and> valid_fill f \<and>
      fe_quantity f = ei_quantity i \<and> fe_price f = p \<and> fe_side f = ei_side i \<and>
      fe_instrument_id f = ei_instrument_id i \<and> fe_order_id f = os_order_id s" if "i \<in> set is" for i
    using assms that simulate_intent_fills [of i p t sim] by blast
  define g where "g i = projr (simulate_intent sim p t i)" for i
  have g: "simulate_intent sim p t i = Inr (g i) \<and>
      os_status (fst (g i)) = FILLED \<and> os_remaining_quantity (fst (g i)) = 0 \<and>
      valid_order (fst (g i)) \<and> valid_fill (snd (g i)) \<and>
      fe_quantity (snd (g i)) = ei_quantity i \<and> fe_price (snd (g i)) = p \<and>
      fe_side (snd (g i)) = ei_side i \<and> fe_instrument_id (snd (g i)) = ei_instrument_id i \<and>
      fe_order_id (snd (g i)) = os_order_id (fst (g i))" if "i \<in> set is" for i
    using one [OF that] by (auto simp: g_def)
  have "r_map (simulate_intent sim p t) is = Inr (map g is)"
    using g by (intro r_map_total) blast
  then show ?thesis using g by (auto simp: simulate_def)
qed

lemma simulation_fills_everything_witness:
  "\<exists>s f. simulate \<lparr>sim_fee_bps = Dec 10, sim_fee_asset = ''USDT''\<rparr> [sample_intent] (Dec 100) (utc 5)
     = Inr ([s], [f]) \<and> os_status s = FILLED \<and> fe_quantity f = Dec 2"
proof -
  obtain os fs where r: "simulate \<lparr>sim_fee_bps = Dec 10, sim_fee_asset = ''USDT''\<rparr> [sample_intent]
      (Dec 100) (utc 5) = Inr (os, fs)" "length os = 1" "map fe_quantity fs = [Dec 2]"
    "\<forall>s\<in>set os. os_status s = FILLED"
    using simulation_fills_everything [of "[sample_intent]" "Dec 100" "utc 5"
        "\<lparr>sim_fee_bps = Dec 10, sim_fee_asset = ''USDT''\<rparr>"]
    by (auto simp: representable_def sample_intent_def execution_intent_checks_def blank_def
        py_space_def)
  then show ?thesis by (cases os; cases fs) auto
qed

end
