(* ===== verification/PaperPortfolio.thy ===== *)
theory PaperPortfolio
  imports ContractsTrade
begin

text \<open>
  \<open>app/portfolio/paper.py\<close>: the portfolio after a sequence of fills (\<open>apply_fills\<close>) and its
  per-instrument positions (\<open>derive_position_states\<close>). The loop's locals are the record
  \<open>paper_acc\<close>; its dictionaries are insertion-ordered.
\<close>

section \<open>Applying fills\<close>

record paper_acc =
  pa_cash :: "(string, decimal) dict"
  pa_qty :: "(string, decimal) dict"
  pa_avg :: "(string, decimal) dict"
  pa_realized :: decimal
  pa_marks :: "(string, decimal) dict"

definition apply_one :: "string \<Rightarrow> paper_acc \<Rightarrow> fill_event \<Rightarrow> paper_acc result" where
  "apply_one quote_asset a f =
     (let iid = fe_instrument_id f; qty = fe_quantity f; price = fe_price f; fee = fe_fee f;
          existing_qty = dict_get_default (pa_qty a) iid 0;
          existing_avg = dict_get_default (pa_avg a) iid 0;
          quote_cash = dict_get_default (pa_cash a) quote_asset 0;
          marks = dict_set iid price (pa_marks a)
      in if fe_side f = BUY then
           (let new_qty = existing_qty + qty in
            r_bind (if new_qty = qty then Inr price
                    else dec_div (existing_qty * existing_avg + qty * price) new_qty) (\<lambda>new_avg.
              Inr (a\<lparr>pa_qty := dict_set iid new_qty (pa_qty a),
                     pa_avg := dict_set iid new_avg (pa_avg a),
                     pa_cash := dict_set quote_asset (quote_cash - qty * price - fee) (pa_cash a),
                     pa_marks := marks\<rparr>)))
         else
           (let new_qty = existing_qty - qty in
            Inr (a\<lparr>pa_realized := pa_realized a + ((price - existing_avg) * qty - fee),
                   pa_qty := dict_set iid new_qty (pa_qty a),
                   pa_avg := dict_set iid (if new_qty \<noteq> 0 then existing_avg else 0) (pa_avg a),
                   pa_cash := dict_set quote_asset (quote_cash + qty * price - fee) (pa_cash a),
                   pa_marks := marks\<rparr>)))"

fun exposures ::
    "paper_acc \<Rightarrow> (string, decimal) dict \<Rightarrow> decimal \<times> decimal \<times> decimal \<Rightarrow> decimal \<times> decimal \<times> decimal"
where
  "exposures a [] acc = acc"
| "exposures a ((iid, qty) # items) (gross, net, unrealized) =
     (let avg_entry = dict_get_default (pa_avg a) iid 0;
          mark_price = dict_get_default (pa_marks a) iid avg_entry;
          exposure = qty * mark_price
      in exposures a items
           (gross + \<bar>exposure\<bar>, net + exposure, unrealized + (mark_price - avg_entry) * qty))"

definition initial_acc :: "portfolio_state \<Rightarrow> paper_acc" where
  "initial_acc p =
     \<lparr>pa_cash = pf_cash p, pa_qty = pf_position_qty p, pa_avg = pf_avg_entry p,
      pa_realized = pf_realized_pnl p, pa_marks = []\<rparr>"

definition finish_acc :: "datetime \<Rightarrow> paper_acc \<Rightarrow> portfolio_state result" where
  "finish_acc as_of a =
     (let (gross, net, unrealized) = exposures a (pa_qty a) (0, 0, 0)
      in mk_portfolio_state
        \<lparr>pf_as_of = as_of, pf_cash = pa_cash a, pf_position_qty = pa_qty a, pf_avg_entry = pa_avg a,
         pf_realized_pnl = pa_realized a, pf_unrealized_pnl = unrealized,
         pf_gross_exposure = gross, pf_net_exposure = net\<rparr>)"

definition apply_fills ::
    "string \<Rightarrow> portfolio_state \<Rightarrow> fill_event list \<Rightarrow> portfolio_state result" where
  "apply_fills quote_asset p fills =
     r_bind (r_foldl (apply_one quote_asset) (initial_acc p) fills)
       (finish_acc (if fills = [] then pf_as_of p else fe_occurred_at (last fills)))"

lemma apply_fills_Inr:
  assumes "apply_fills q p fills = Inr p'"
  obtains a where "r_foldl (apply_one q) (initial_acc p) fills = Inr a"
    and "pf_cash p' = pa_cash a" and "pf_position_qty p' = pa_qty a"
    and "pf_avg_entry p' = pa_avg a" and "pf_realized_pnl p' = pa_realized a"
    and "valid_portfolio p'"
    and "pf_as_of p' = (if fills = [] then pf_as_of p else fe_occurred_at (last fills))"
proof -
  obtain a where a: "r_foldl (apply_one q) (initial_acc p) fills = Inr a"
    and fin: "finish_acc (if fills = [] then pf_as_of p else fe_occurred_at (last fills)) a = Inr p'"
    using assms by (auto simp: apply_fills_def r_bind_Inr)
  obtain g n u where e: "exposures a (pa_qty a) (0, 0, 0) = (g, n, u)"
    by (cases "exposures a (pa_qty a) (0, 0, 0)") auto
  show thesis
    by (rule that [OF a]) (use fin e in \<open>auto simp: finish_acc_def\<close>)
qed

lemma apply_one_qty:
  assumes "apply_one q a f = Inr a'"
  shows "dict_get_default (pa_qty a') i 0 =
    (if i = fe_instrument_id f
     then (if fe_side f = BUY then dict_get_default (pa_qty a) i 0 + fe_quantity f
           else dict_get_default (pa_qty a) i 0 - fe_quantity f)
     else dict_get_default (pa_qty a) i 0)"
  using assms
  by (auto simp: apply_one_def Let_def r_bind_Inr dict_get_default_set split: if_splits)

lemma apply_one_cash:
  assumes "apply_one q a f = Inr a'"
  shows "dict_get_default (pa_cash a') c 0 =
    (if c = q
     then (if fe_side f = BUY
           then dict_get_default (pa_cash a) q 0 - fe_quantity f * fe_price f - fe_fee f
           else dict_get_default (pa_cash a) q 0 + fe_quantity f * fe_price f - fe_fee f)
     else dict_get_default (pa_cash a) c 0)"
  using assms
  by (auto simp: apply_one_def Let_def r_bind_Inr dict_get_default_set split: if_splits)

lemma apply_one_wf:
  assumes "apply_one q a f = Inr a'"
    and "wf_dict (pa_cash a)" "wf_dict (pa_qty a)" "wf_dict (pa_avg a)"
  shows "wf_dict (pa_cash a')" "wf_dict (pa_qty a')" "wf_dict (pa_avg a')"
  using assms by (auto simp: apply_one_def Let_def r_bind_Inr split: if_splits)

section \<open>Exact accounting\<close>

text \<open>What a fill does to the quote cash and to the position of its instrument, without rounding.\<close>

definition notional :: "fill_event \<Rightarrow> rat" where
  "notional f = dec_val (fe_quantity f) * dec_val (fe_price f)"

definition cash_delta :: "fill_event \<Rightarrow> rat" where
  "cash_delta f = (if fe_side f = BUY then - notional f else notional f) - dec_val (fe_fee f)"

definition qty_delta :: "string \<Rightarrow> fill_event \<Rightarrow> rat" where
  "qty_delta i f =
     (if fe_instrument_id f \<noteq> i then 0
      else if fe_side f = BUY then dec_val (fe_quantity f) else - dec_val (fe_quantity f))"

definition turnover :: "fill_event \<Rightarrow> rat" where
  "turnover f = notional f + dec_val (fe_fee f)"

lemma valid_fill_vals:
  assumes "valid_fill f"
  shows "0 < dec_val (fe_quantity f)" "0 \<le> dec_val (fe_price f)" "0 \<le> dec_val (fe_fee f)"
  using valid_fillD(1-3) [OF assms] by (simp_all add: less_eq_decimal_def less_decimal_def)

lemma notional_nonneg: "valid_fill f \<Longrightarrow> 0 \<le> notional f"
  using valid_fill_vals [of f] by (simp add: notional_def)

definition exact_prices :: "int \<Rightarrow> int \<Rightarrow> fill_event \<Rightarrow> bool" where
  "exact_prices kq kp f \<longleftrightarrow>
     fine kq (dec_val (fe_quantity f)) \<and> fine kp (dec_val (fe_price f))
     \<and> fine (kq + kp) (dec_val (fe_fee f))"

lemma apply_one_cash_exact:
  assumes step: "apply_one q a f = Inr a'" and v: "valid_fill f" and ex: "exact_prices kq kp f"
    and c: "fine (kq + kp) c" "dec_val (dict_get_default (pa_cash a) q 0) = c"
    and b: "\<bar>c\<bar> + turnover f < 10 powi (28 - (kq + kp))"
  shows "dec_val (dict_get_default (pa_cash a') q 0) = c + cash_delta f"
    and "fine (kq + kp) (c + cash_delta f)"
    and "\<bar>c + cash_delta f\<bar> \<le> \<bar>c\<bar> + turnover f"
proof -
  let ?k = "kq + kp" and ?fee = "dec_val (fe_fee f)"
  note vals = valid_fill_vals [OF v] notional_nonneg [OF v]
  have fn: "fine ?k (notional f)" and ff: "fine ?k ?fee"
    using ex by (auto simp: exact_prices_def notional_def)
  have rn: "dround (notional f) = notional f"
    by (rule fine_exact [OF fn]) (use b vals in \<open>simp add: turnover_def\<close>)
  have rm: "dround (c - notional f) = c - notional f" "dround (c + notional f) = c + notional f"
    by (rule fine_exact [where k = ?k], use c fn in blast,
        use b vals in \<open>simp add: turnover_def\<close>)+
  have rf: "dround (c - notional f - ?fee) = c - notional f - ?fee"
    "dround (c + notional f - ?fee) = c + notional f - ?fee"
    by (rule fine_exact [where k = ?k], use c fn ff in blast,
        use b vals in \<open>simp add: turnover_def\<close>)+
  show "dec_val (dict_get_default (pa_cash a') q 0) = c + cash_delta f"
    using rn rm rf c(2)
    by (simp add: apply_one_cash [OF step] cash_delta_def flip: notional_def)
  show "fine ?k (c + cash_delta f)"
    using c(1) fn ff by (auto simp: cash_delta_def)
  show "\<bar>c + cash_delta f\<bar> \<le> \<bar>c\<bar> + turnover f"
  proof -
    have "\<bar>cash_delta f\<bar> \<le> turnover f" using vals by (auto simp: cash_delta_def turnover_def abs_le_iff)
    then show ?thesis using abs_triangle_ineq [of c "cash_delta f"] by linarith
  qed
qed

lemma cash_exact_foldl:
  assumes "r_foldl (apply_one q) a fs = Inr a'"
    and "\<forall>f\<in>set fs. valid_fill f \<and> exact_prices kq kp f"
    and "fine (kq + kp) c" and "dec_val (dict_get_default (pa_cash a) q 0) = c"
    and "\<bar>c\<bar> + sum_list (map turnover fs) < 10 powi (28 - (kq + kp))"
  shows "dec_val (dict_get_default (pa_cash a') q 0) = c + sum_list (map cash_delta fs)"
  using assms
proof (induction fs arbitrary: a c)
  case Nil
  then show ?case by simp
next
  case (Cons f fs)
  then obtain u where step: "apply_one q a f = Inr u" and rest: "r_foldl (apply_one q) u fs = Inr a'"
    by (auto simp: r_bind_Inr)
  have t: "0 \<le> sum_list (map turnover fs)"
    using Cons.prems(2) notional_nonneg valid_fill_vals(3)
    by (auto simp: turnover_def intro!: sum_list_nonneg add_nonneg_nonneg)
  have "\<bar>c\<bar> + turnover f < 10 powi (28 - (kq + kp))" using Cons.prems(5) t by simp
  note s = apply_one_cash_exact [OF step _ _ Cons.prems(3,4) this]
  have "dec_val (dict_get_default (pa_cash a') q 0)
      = c + cash_delta f + sum_list (map cash_delta fs)"
    by (rule Cons.IH [OF rest]) (use Cons.prems s in auto)
  then show ?case by simp
qed

lemma qty_exact_foldl:
  assumes "r_foldl (apply_one q) a fs = Inr a'"
    and "\<forall>f\<in>set fs. valid_fill f \<and> fine k (dec_val (fe_quantity f))"
    and "fine k x" and "dec_val (dict_get_default (pa_qty a) i 0) = x"
    and "\<bar>x\<bar> + sum_list (map (\<lambda>f. dec_val (fe_quantity f)) fs) < 10 powi (28 - k)"
  shows "dec_val (dict_get_default (pa_qty a') i 0) = x + sum_list (map (qty_delta i) fs)"
  using assms
proof (induction fs arbitrary: a x)
  case Nil
  then show ?case by simp
next
  case (Cons f fs)
  let ?n = "dec_val (fe_quantity f)"
  obtain u where step: "apply_one q a f = Inr u" and rest: "r_foldl (apply_one q) u fs = Inr a'"
    using Cons.prems(1) by (auto simp: r_bind_Inr)
  have v: "valid_fill f" and fn: "fine k ?n" using Cons.prems(2) by auto
  have pos: "0 < ?n" using valid_fill_vals(1) [OF v] .
  have "0 \<le> sum_list (map (\<lambda>f. dec_val (fe_quantity f)) fs)"
    using Cons.prems(2) by (intro sum_list_nonneg) (auto intro: less_imp_le dest: valid_fill_vals(1))
  with Cons.prems(5) have b: "\<bar>x\<bar> + ?n < 10 powi (28 - k)" by simp
  have ex: "dround (x + ?n) = x + ?n" "dround (x - ?n) = x - ?n"
    by (rule fine_exact [where k = k], use Cons.prems(3) fn in blast, use b pos in simp)+
  have val: "dec_val (dict_get_default (pa_qty u) i 0) = x + qty_delta i f"
    using Cons.prems(4) ex by (auto simp: apply_one_qty [OF step] qty_delta_def)
  have fx: "fine k (x + qty_delta i f)"
    using Cons.prems(3) fn by (auto simp: qty_delta_def)
  have "\<bar>qty_delta i f\<bar> \<le> ?n" using pos by (auto simp: qty_delta_def)
  then have "\<bar>x + qty_delta i f\<bar> \<le> \<bar>x\<bar> + ?n"
    using abs_triangle_ineq [of x "qty_delta i f"] by linarith
  with Cons.prems(5) have
    "\<bar>x + qty_delta i f\<bar> + sum_list (map (\<lambda>f. dec_val (fe_quantity f)) fs) < 10 powi (28 - k)"
    by simp
  then have "dec_val (dict_get_default (pa_qty a') i 0)
      = x + qty_delta i f + sum_list (map (qty_delta i) fs)"
    using Cons.IH [OF rest _ fx val] Cons.prems(2) by simp
  then show ?case by simp
qed

section \<open>Frame: what fills do not touch\<close>

lemma apply_fills_other_cash:
  assumes "apply_fills q p fs = Inr p'" and "c \<noteq> q"
  shows "dict_get_default (pf_cash p') c 0 = dict_get_default (pf_cash p) c 0"
proof -
  obtain a where a: "r_foldl (apply_one q) (initial_acc p) fs = Inr a" "pf_cash p' = pa_cash a"
    using assms(1) by (rule apply_fills_Inr)
  have "dict_get_default (pa_cash a) c 0 = dict_get_default (pf_cash p) c 0"
    by (rule r_foldl_invariant [OF _ _ a(1), where
          P = "\<lambda>a. dict_get_default (pa_cash a) c 0 = dict_get_default (pf_cash p) c 0"])
      (use assms(2) in \<open>auto simp: apply_one_cash initial_acc_def\<close>)
  with a(2) show ?thesis by simp
qed

lemma apply_fills_other_qty:
  assumes "apply_fills q p fs = Inr p'" and "\<forall>f\<in>set fs. fe_instrument_id f \<noteq> i"
  shows "dict_get_default (pf_position_qty p') i 0 = dict_get_default (pf_position_qty p) i 0"
proof -
  obtain a where a: "r_foldl (apply_one q) (initial_acc p) fs = Inr a" "pf_position_qty p' = pa_qty a"
    using assms(1) by (rule apply_fills_Inr)
  have "dict_get_default (pa_qty a) i 0 = dict_get_default (pf_position_qty p) i 0"
    by (rule r_foldl_invariant [OF _ _ a(1), where
          P = "\<lambda>a. dict_get_default (pa_qty a) i 0 = dict_get_default (pf_position_qty p) i 0"])
      (use assms(2) in \<open>auto simp: apply_one_qty initial_acc_def\<close>)
  with a(2) show ?thesis by simp
qed

lemma apply_fills_wf:
  assumes "apply_fills q p fs = Inr p'"
    and "wf_dict (pf_cash p)" "wf_dict (pf_position_qty p)" "wf_dict (pf_avg_entry p)"
  shows "wf_dict (pf_cash p') \<and> wf_dict (pf_position_qty p') \<and> wf_dict (pf_avg_entry p')"
proof -
  obtain a where a: "r_foldl (apply_one q) (initial_acc p) fs = Inr a" "pf_cash p' = pa_cash a"
    "pf_position_qty p' = pa_qty a" "pf_avg_entry p' = pa_avg a"
    using assms(1) by (rule apply_fills_Inr)
  have "wf_dict (pa_cash a) \<and> wf_dict (pa_qty a) \<and> wf_dict (pa_avg a)"
    by (rule r_foldl_invariant [OF _ _ a(1), where
          P = "\<lambda>a. wf_dict (pa_cash a) \<and> wf_dict (pa_qty a) \<and> wf_dict (pa_avg a)"])
      (use assms(2-4) apply_one_wf in \<open>auto simp: initial_acc_def\<close>)
  with a show ?thesis by simp
qed

section \<open>Positions\<close>

definition derive_position_states ::
    "portfolio_state \<Rightarrow> (string, decimal) dict option \<Rightarrow> position_state list result" where
  "derive_position_states p mark_prices =
     (let prices = (case mark_prices of None \<Rightarrow> [] | Some d \<Rightarrow> d) in
      r_map (\<lambda>iid.
        let quantity = dict_get_default (pf_position_qty p) iid 0;
            average_entry_price = dict_get_default (pf_avg_entry p) iid 0;
            mark_price = dict_get_default prices iid average_entry_price
        in mk_position_state
          \<lparr>ps_instrument_id = iid, ps_quantity = quantity,
           ps_average_entry_price = average_entry_price, ps_mark_price = mark_price,
           ps_market_value = quantity * mark_price,
           ps_unrealized_pnl = (mark_price - average_entry_price) * quantity\<rparr>)
        (sort (map fst (pf_position_qty p))))"

lemma derive_position_ids:
  assumes "derive_position_states p m = Inr ps"
  shows "map ps_instrument_id ps = sort (map fst (pf_position_qty p))"
proof -
  have "list_all2 (\<lambda>x y. ps_instrument_id y = x) (sort (map fst (pf_position_qty p))) ps"
    using assms unfolding derive_position_states_def Let_def r_map_Inr_list_all2
    by (rule list_all2_mono) (auto simp: mk_position_state_def)
  then show ?thesis by (auto simp: list_all2_conv_all_nth intro: nth_equalityI)
qed

text \<open>A short position has no position state: the constructor raises.\<close>

lemma derive_position_long_only:
  assumes "derive_position_states p m = Inr ps" and "i \<in> fst ` set (pf_position_qty p)"
  shows "0 \<le> dict_get_default (pf_position_qty p) i 0"
proof -
  have "i \<in> ps_instrument_id ` set ps"
    using derive_position_ids [OF assms(1)] assms(2) by (metis image_set set_sort)
  then obtain s where s: "s \<in> set ps" "ps_instrument_id s = i" by blast
  then obtain iid where "mk_position_state
      \<lparr>ps_instrument_id = iid, ps_quantity = dict_get_default (pf_position_qty p) iid 0,
       ps_average_entry_price = dict_get_default (pf_avg_entry p) iid 0,
       ps_mark_price = dict_get_default (case m of None \<Rightarrow> [] | Some d \<Rightarrow> d) iid
         (dict_get_default (pf_avg_entry p) iid 0),
       ps_market_value = dict_get_default (pf_position_qty p) iid 0 *
         dict_get_default (case m of None \<Rightarrow> [] | Some d \<Rightarrow> d) iid
           (dict_get_default (pf_avg_entry p) iid 0),
       ps_unrealized_pnl = (dict_get_default (case m of None \<Rightarrow> [] | Some d \<Rightarrow> d) iid
           (dict_get_default (pf_avg_entry p) iid 0) - dict_get_default (pf_avg_entry p) iid 0)
         * dict_get_default (pf_position_qty p) iid 0\<rparr> = Inr s"
    using r_map_Inr_set [OF assms(1) [unfolded derive_position_states_def Let_def]] by blast
  with s(2) show ?thesis by (auto simp: mk_position_state_def position_state_checks_def)
qed

section \<open>Properties\<close>

text \<open>
  C38. The quote cash is exact: after any list of valid fills whose quantities, prices and fees have
  bounded precision, and whose turnover fits 28 digits, the balance is the old one minus every buy's
  notional, plus every sell's, minus the fees, with no rounding error.
\<close>

theorem quote_cash_exact:
  assumes "apply_fills q p fs = Inr p'"
    and "\<forall>f\<in>set fs. valid_fill f \<and> exact_prices kq kp f"
    and "fine (kq + kp) (dec_val (dict_get_default (pf_cash p) q 0))"
    and "\<bar>dec_val (dict_get_default (pf_cash p) q 0)\<bar> + sum_list (map turnover fs)
      < 10 powi (28 - (kq + kp))"
  shows "dec_val (dict_get_default (pf_cash p') q 0)
    = dec_val (dict_get_default (pf_cash p) q 0) + sum_list (map cash_delta fs)"
proof -
  obtain a where a: "r_foldl (apply_one q) (initial_acc p) fs = Inr a" "pf_cash p' = pa_cash a"
    using assms(1) by (rule apply_fills_Inr)
  show ?thesis unfolding a(2)
    by (rule cash_exact_foldl [OF a(1) assms(2,3) _ assms(4)]) (simp add: initial_acc_def)
qed

text \<open>
  The position of an instrument is exact: it changes by the sum of the bought quantities minus
  the sold ones of that instrument's fills.
\<close>

theorem position_exact:
  assumes "apply_fills q p fs = Inr p'"
    and "\<forall>f\<in>set fs. valid_fill f \<and> fine k (dec_val (fe_quantity f))"
    and "fine k (dec_val (dict_get_default (pf_position_qty p) i 0))"
    and "\<bar>dec_val (dict_get_default (pf_position_qty p) i 0)\<bar>
      + sum_list (map (\<lambda>f. dec_val (fe_quantity f)) fs) < 10 powi (28 - k)"
  shows "dec_val (dict_get_default (pf_position_qty p') i 0)
    = dec_val (dict_get_default (pf_position_qty p) i 0) + sum_list (map (qty_delta i) fs)"
proof -
  obtain a where a: "r_foldl (apply_one q) (initial_acc p) fs = Inr a" "pf_position_qty p' = pa_qty a"
    using assms(1) by (rule apply_fills_Inr)
  show ?thesis unfolding a(2)
    by (rule qty_exact_foldl [OF a(1) assms(2,3) _ assms(4)]) (simp add: initial_acc_def)
qed

lemma sample_apply:
  assumes "0 < d" "d \<le> 9" "dround d = d" "dround (d * 100) = d * 100" "dround (1000 - d * 100) = 1000 - d * 100"
  shows "\<exists>p'. apply_fills ''USDT'' sample_portfolio [sample_fill ''f1'' (Dec d)] = Inr p'"
proof -
  have "(0::rat) \<le> 100 * d" using assms by simp
  then show ?thesis using assms
    by (auto simp: apply_fills_def apply_one_def initial_acc_def sample_portfolio_def r_bind_Inr
        finish_acc_def valid_portfolio_iff dict_get_default_def Let_def decimal_eq_iff
        mult.commute blank_def py_space_def)
qed

lemma sample_apply_2: "\<exists>p'. apply_fills ''USDT'' sample_portfolio [sample_fill ''f1'' (Dec 2)] = Inr p'"
  by (rule sample_apply) simp_all

lemma quote_cash_exact_witness:
  "\<exists>p'. apply_fills ''USDT'' sample_portfolio [sample_fill ''f1'' (Dec 2)] = Inr p' \<and>
     dec_val (dict_get_default (pf_cash p') ''USDT'' 0) = 800"
proof -
  obtain p' where p': "apply_fills ''USDT'' sample_portfolio [sample_fill ''f1'' (Dec 2)] = Inr p'"
    using sample_apply_2 by blast
  have c: "dec_val (dict_get_default (pf_cash sample_portfolio) ''USDT'' 0) = 1000"
    by (simp add: sample_portfolio_def dict_get_default_def)
  have "dec_val (dict_get_default (pf_cash p') ''USDT'' 0) = 1000
      + sum_list (map cash_delta [sample_fill ''f1'' (Dec 2)])"
    using quote_cash_exact [OF p', of 0 0] unfolding c
    by (simp add: exact_prices_def turnover_def notional_def blank_def py_space_def)
  then have "dec_val (dict_get_default (pf_cash p') ''USDT'' 0) = 800"
    by (simp add: cash_delta_def notional_def)
  with p' show ?thesis by blast
qed

lemma position_exact_witness:
  "\<exists>p'. apply_fills ''USDT'' sample_portfolio [sample_fill ''f1'' (Dec 2)] = Inr p' \<and>
     dec_val (dict_get_default (pf_position_qty p') ''BTC-USDT'' 0) = 2"
proof -
  obtain p' where p': "apply_fills ''USDT'' sample_portfolio [sample_fill ''f1'' (Dec 2)] = Inr p'"
    using sample_apply_2 by blast
  have c: "dec_val (dict_get_default (pf_position_qty sample_portfolio) ''BTC-USDT'' 0) = 0"
    by (simp add: sample_portfolio_def dict_get_default_def)
  have "dec_val (dict_get_default (pf_position_qty p') ''BTC-USDT'' 0) = 0
      + sum_list (map (qty_delta ''BTC-USDT'') [sample_fill ''f1'' (Dec 2)])"
    using position_exact [OF p', of 0 "''BTC-USDT''"] unfolding c
    by (simp add: blank_def py_space_def)
  then have "dec_val (dict_get_default (pf_position_qty p') ''BTC-USDT'' 0) = 2"
    by (simp add: qty_delta_def)
  with p' show ?thesis by blast
qed

lemma valid_portfolio_cash:
  assumes "valid_portfolio p"
  shows "0 \<le> dict_get_default (pf_cash p) c 0"
  using assms by (auto simp: valid_portfolio_iff dict_get_default_def split: option.splits
      dest!: map_of_SomeD)

text \<open>
  Overspending raises: when the exact balance after the fills would be negative, no portfolio
  is returned (the portfolio constructor refuses negative cash).
\<close>

theorem overspending_raises:
  assumes "\<forall>f\<in>set fs. valid_fill f \<and> exact_prices kq kp f"
    and "fine (kq + kp) (dec_val (dict_get_default (pf_cash p) q 0))"
    and "\<bar>dec_val (dict_get_default (pf_cash p) q 0)\<bar> + sum_list (map turnover fs)
      < 10 powi (28 - (kq + kp))"
    and "dec_val (dict_get_default (pf_cash p) q 0) + sum_list (map cash_delta fs) < 0"
  shows "\<exists>e. apply_fills q p fs = Inl e"
proof (cases "apply_fills q p fs")
  case (Inr p')
  obtain a where a: "r_foldl (apply_one q) (initial_acc p) fs = Inr a" "pf_cash p' = pa_cash a"
    "valid_portfolio p'"
    using Inr by (rule apply_fills_Inr)
  have "dec_val (dict_get_default (pf_cash p') q 0) < 0"
    unfolding a(2) using assms(4)
    by (subst cash_exact_foldl [OF a(1) assms(1,2) _ assms(3)]) (simp_all add: initial_acc_def)
  with valid_portfolio_cash [OF a(3), of q] show ?thesis by (simp add: less_eq_decimal_def)
qed blast

lemma overspending_raises_witness:
  "\<exists>e. apply_fills ''USDT'' sample_portfolio [sample_fill ''f1'' (Dec 20)] = Inl e"
  by (rule overspending_raises [where kq = 0 and kp = 0])
    (simp_all add: exact_prices_def turnover_def notional_def cash_delta_def blank_def py_space_def
      sample_portfolio_def dict_get_default_def)

text \<open>
  Position states are derived for every instrument of the portfolio, sorted by id, and only for
  a long-only portfolio: a negative quantity raises.
\<close>

theorem positions_sorted_long_only:
  assumes "derive_position_states p m = Inr ps"
  shows "map ps_instrument_id ps = sort (map fst (pf_position_qty p)) \<and>
    (\<forall>i\<in>fst ` set (pf_position_qty p). 0 \<le> dict_get_default (pf_position_qty p) i 0)"
  using derive_position_ids [OF assms] derive_position_long_only [OF assms] by blast

lemma positions_sorted_long_only_witness:
  "\<exists>ps. derive_position_states (sample_portfolio
      \<lparr>pf_position_qty := [(''ETH-USDT'', Dec 1), (''BTC-USDT'', Dec 2)]\<rparr>) None = Inr ps \<and>
     map ps_instrument_id ps = [''BTC-USDT'', ''ETH-USDT'']"
proof -
  let ?p = "sample_portfolio\<lparr>pf_position_qty := [(''ETH-USDT'', Dec 1), (''BTC-USDT'', Dec 2)]\<rparr>"
  have srt: "sort [''ETH-USDT'', ''BTC-USDT''] = [''BTC-USDT'', ''ETH-USDT'']" by code_simp
  have "\<exists>ps. derive_position_states ?p None = Inr ps"
    by (auto simp: derive_position_states_def sample_portfolio_def dict_get_default_def srt
        mk_position_state_def position_state_checks_def r_bind_Inr blank_def py_space_def Let_def)
  then obtain ps where ps: "derive_position_states ?p None = Inr ps" by blast
  have "map ps_instrument_id ps = sort [''ETH-USDT'', ''BTC-USDT'']"
    using positions_sorted_long_only [OF ps] by simp
  with ps srt show ?thesis by auto
qed

end
