(* ===== verification/LivePortfolio.thy ===== *)
theory LivePortfolio
  imports PaperPortfolio
begin

text \<open>
  \<open>app/portfolio/live.py\<close>: the safeguarded translation of live orders and fills into the
  portfolio. \<open>translate_with\<close> is \<open>LivePortfolioTranslator.translate\<close> over the portfolio updater
  it holds in its field \<open>paper_updater\<close>; the locale \<open>portfolio_updater\<close> is that interface, and
  its interpretation is the paper updater of \<open>PaperPortfolio\<close>.
\<close>

section \<open>Data\<close>

datatype live_status = APPLIED | APPLIED_WITH_PENDING | AMBIGUOUS_REVIEW_REQUIRED

record live_aggregation =
  la_order_id :: string
  la_fill_ids :: "string list"
  la_total_quantity :: decimal
  la_average_price :: decimal

record live_result =
  lr_status :: live_status
  lr_portfolio :: portfolio_state
  lr_applied_fill_ids :: "string list"
  lr_ignored_fill_ids :: "string list"
  lr_pending_order_ids :: "string list"
  lr_alerts :: "string list"
  lr_aggregations :: "live_aggregation list"
  lr_manual_attention :: bool

record mutation_outcome =
  mo_attempted :: bool
  mo_applied :: bool
  mo_portfolio :: portfolio_state
  mo_translation :: live_result
  mo_events :: "reconciliation_event list"
  mo_alerts :: "string list"

definition is_recovered_fill :: "fill_event \<Rightarrow> bool" where
  "is_recovered_fill f \<longleftrightarrow> str_contains '':recovered:'' (fe_fill_id f)"

definition recovered_fill_order_id :: "string \<Rightarrow> string option" where
  "recovered_fill_order_id fid =
     (if \<not> str_contains '':recovered:'' fid then None else Some (str_before CHR '':'' fid))"

section \<open>The baseline from an account snapshot\<close>

definition balance_total :: "asset_balance \<Rightarrow> decimal" where
  "balance_total b =
     (case ab_free b of None \<Rightarrow> 0 | Some x \<Rightarrow> x) + (case ab_locked b of None \<Rightarrow> 0 | Some x \<Rightarrow> x)"

definition find_balance :: "string \<Rightarrow> asset_balance list \<Rightarrow> decimal" where
  "find_balance asset bs =
     (case find (\<lambda>b. ab_asset b = asset) bs of None \<Rightarrow> 0 | Some b \<Rightarrow> balance_total b)"

definition baseline_cash :: "string \<Rightarrow> asset_balance list \<Rightarrow> (string, decimal) dict" where
  "baseline_cash base_asset bs =
     foldl (\<lambda>d b. if ab_asset b = base_asset then d
                  else if 0 < balance_total b then dict_set (ab_asset b) (balance_total b) d else d)
       [] bs"

definition portfolio_baseline ::
    "account_snapshot \<Rightarrow> string \<Rightarrow> string \<Rightarrow> string \<Rightarrow> portfolio_state result" where
  "portfolio_baseline snapshot instrument_id base_asset quote_asset =
     (let bs = acc_balances snapshot;
          cash = dict_setdefault quote_asset (find_balance quote_asset bs) (baseline_cash base_asset bs)
      in mk_portfolio_state
        \<lparr>pf_as_of = acc_as_of snapshot, pf_cash = cash,
         pf_position_qty = [(instrument_id, find_balance base_asset bs)],
         pf_avg_entry = [(instrument_id, 0)], pf_realized_pnl = 0, pf_unrealized_pnl = 0,
         pf_gross_exposure = 0, pf_net_exposure = 0\<rparr>)"

section \<open>The translation\<close>

record tr_state =
  ts_alerts :: "string list"
  ts_pending :: "string list"
  ts_ambiguous :: bool
  ts_ignored :: "string list"
  ts_applied :: "fill_event list"
  ts_aggregations :: "live_aggregation list"

definition tr_start :: tr_state where
  "tr_start = \<lparr>ts_alerts = [], ts_pending = [], ts_ambiguous = False, ts_ignored = [],
     ts_applied = [], ts_aggregations = []\<rparr>"

definition flag_ambiguous :: "string \<Rightarrow> tr_state \<Rightarrow> tr_state" where
  "flag_ambiguous alert st = st\<lparr>ts_ambiguous := True, ts_alerts := ts_alerts st @ [alert]\<rparr>"

definition flag_pending :: "string \<Rightarrow> string \<Rightarrow> tr_state \<Rightarrow> tr_state" where
  "flag_pending order_id alert st =
     st\<lparr>ts_pending := ts_pending st @ [order_id], ts_alerts := ts_alerts st @ [alert]\<rparr>"

definition ignore_fills :: "string list \<Rightarrow> tr_state \<Rightarrow> tr_state" where
  "ignore_fills ids st = st\<lparr>ts_ignored := ts_ignored st @ ids\<rparr>"

text \<open>First loop: drop fills already applied, and duplicates; a conflicting duplicate is ambiguous.\<close>

type_synonym scan_state = "(string, fill_event) dict \<times> tr_state"

definition scan_fill :: "string list \<Rightarrow> scan_state \<Rightarrow> fill_event \<Rightarrow> scan_state" where
  "scan_fill already = (\<lambda>(seen, st) f.
     if fe_fill_id f \<in> set already then (seen, ignore_fills [fe_fill_id f] st)
     else (case dict_get seen (fe_fill_id f) of
             None \<Rightarrow> (dict_set (fe_fill_id f) f seen, st)
           | Some existing \<Rightarrow>
               if existing \<noteq> f
               then (seen, flag_ambiguous
                       (''conflicting duplicate fill_id observed: '' @ fe_fill_id f) st)
               else (seen, ignore_fills [fe_fill_id f] st)))"

definition scan_fills :: "string list \<Rightarrow> fill_event list \<Rightarrow> scan_state" where
  "scan_fills already fills = foldl (scan_fill already) ([], tr_start) fills"

definition group_fills :: "fill_event list \<Rightarrow> (string, fill_event list) dict" where
  "group_fills fills = group_by fe_order_id fills"

definition quantity_sum :: "fill_event list \<Rightarrow> decimal" where
  "quantity_sum fs = dec_sum (map fe_quantity fs)"

definition notional_sum :: "fill_event list \<Rightarrow> decimal" where
  "notional_sum fs = dec_sum (map (\<lambda>f. fe_quantity f * fe_price f) fs)"

definition fill_sort_key :: "fill_event \<Rightarrow> int \<times> string" where
  "fill_sort_key f = (dt_us (fe_occurred_at f), fe_fill_id f)"

text \<open>
  The part of the second loop from the aggregation on: the fills that count for this order are
  aggregated, checked against the order's quantities and applied.
\<close>

definition settle_group ::
    "order_state \<Rightarrow> string \<Rightarrow> fill_event list \<Rightarrow> tr_state \<Rightarrow> tr_state result" where
  "settle_group order order_id effective st0 =
     (let total_quantity = quantity_sum effective in
      r_bind (dec_div (notional_sum effective) total_quantity) (\<lambda>average_price.
        let st = st0\<lparr>ts_aggregations := ts_aggregations st0 @
              [\<lparr>la_order_id = order_id, la_fill_ids = map fe_fill_id effective,
                la_total_quantity = total_quantity, la_average_price = average_price\<rparr>]\<rparr>
        in if os_filled_quantity order < total_quantity then
             Inr (flag_ambiguous
               (''fill quantity exceeds order_state.filled_quantity for '' @ order_id) st)
           else if os_requested_quantity order < total_quantity then
             Inr (flag_ambiguous
               (''fill quantity exceeds order_state.requested_quantity for '' @ order_id) st)
           else if total_quantity < os_filled_quantity order \<and> os_status order = FILLED then
             Inr (flag_ambiguous (''terminal filled order missing fill details: '' @ order_id) st)
           else
             (let st' = (if total_quantity < os_filled_quantity order
                  then flag_pending order_id
                    (''fill aggregation still pending for order: '' @ order_id) st
                  else st);
                  st'' = (if os_status order = PARTIALLY_FILLED \<and> order_id \<notin> set (ts_pending st')
                  then flag_pending order_id
                    (''partial order remains open after applied fills: '' @ order_id) st'
                  else st')
              in Inr (st''\<lparr>ts_applied := ts_applied st'' @ sort_key fill_sort_key effective\<rparr>))))"

definition process_group ::
    "(string, order_state) dict \<Rightarrow> string list \<Rightarrow> tr_state \<Rightarrow> string \<times> fill_event list
      \<Rightarrow> tr_state result" where
  "process_group order_map recovered_orders st = (\<lambda>(order_id, fills).
     (case dict_get order_map order_id of
        None \<Rightarrow> Inr (flag_ambiguous (''fill received without matching order state: '' @ order_id) st)
      | Some order \<Rightarrow>
          if os_status order \<in> {RECOVERING, UNRECONCILED} then
            Inr (flag_ambiguous
              (''portfolio mutation blocked for ambiguous order state: '' @ order_id) st)
          else
            (let private = filter (\<lambda>f. \<not> is_recovered_fill f) fills;
                 recovered = filter is_recovered_fill fills
             in if private \<noteq> [] \<and> recovered = [] \<and> os_status order = FILLED
                   \<and> order_id \<in> set recovered_orders
                   \<and> quantity_sum private \<le> os_filled_quantity order
                then Inr (ignore_fills (map fe_fill_id private) st)
                else if private \<noteq> [] \<and> recovered \<noteq> []
                   \<and> quantity_sum private \<le> os_filled_quantity order
                then settle_group order order_id private
                       (ignore_fills (map fe_fill_id recovered) st)
                else settle_group order order_id fills st)))"

text \<open>Third loop: orders for which no new fill arrived.\<close>

definition check_order ::
    "(string, fill_event list) dict \<Rightarrow> tr_state \<Rightarrow> order_state \<Rightarrow> tr_state" where
  "check_order grouped st order =
     (let oid = os_order_id order;
          st' = (if os_status order = PARTIALLY_FILLED \<and> dict_get grouped oid = None
                 then flag_pending oid
                   (''partially filled order has no new fill events yet: '' @ oid) st
                 else st)
      in if os_status order = FILLED \<and> 0 < os_filled_quantity order \<and> dict_get grouped oid = None
         then flag_ambiguous (''filled order missing fill events: '' @ oid) st' else st')"

definition projected_asset_balance :: "portfolio_state \<Rightarrow> string \<Rightarrow> decimal" where
  "projected_asset_balance p asset =
     (case dict_get (pf_cash p) asset of
        Some c \<Rightarrow> c
      | None \<Rightarrow>
          (case filter (\<lambda>i. str_before CHR ''-'' i = asset) (map fst (pf_position_qty p)) of
             [i] \<Rightarrow> dict_get_default (pf_position_qty p) i 0
           | _ \<Rightarrow> 0))"

definition mismatch_assets ::
    "portfolio_state \<Rightarrow> (string, decimal) dict \<Rightarrow> string list \<Rightarrow> string list" where
  "mismatch_assets p snapshot assets =
     filter (\<lambda>a. dict_get snapshot a \<noteq> Some (projected_asset_balance p a)) assets"

definition review_required ::
    "portfolio_state \<Rightarrow> tr_state \<Rightarrow> string list \<Rightarrow> live_result" where
  "review_required p st alerts =
     \<lparr>lr_status = AMBIGUOUS_REVIEW_REQUIRED, lr_portfolio = p, lr_applied_fill_ids = [],
      lr_ignored_fill_ids = sort (dedup (ts_ignored st)), lr_pending_order_ids = dedup (ts_pending st),
      lr_alerts = dedup alerts, lr_aggregations = ts_aggregations st, lr_manual_attention = True\<rparr>"

definition gather ::
    "order_state list \<Rightarrow> fill_event list \<Rightarrow> string list \<Rightarrow> tr_state result" where
  "gather order_states fills already =
     (let order_map = dict_of os_order_id (\<lambda>s. s) order_states;
          recovered_orders = List.map_filter recovered_fill_order_id already;
          (seen, st) = scan_fills already fills;
          grouped = group_fills (map snd seen)
      in r_bind (r_foldl (process_group order_map recovered_orders) st grouped) (\<lambda>st'.
           Inr (foldl (check_order grouped) st' order_states)))"

definition translate_with ::
    "(portfolio_state \<Rightarrow> fill_event list \<Rightarrow> portfolio_state result) \<Rightarrow> portfolio_state
      \<Rightarrow> order_state list \<Rightarrow> fill_event list \<Rightarrow> string list \<Rightarrow> (string, decimal) dict option
      \<Rightarrow> string list \<Rightarrow> live_result result" where
  "translate_with apply p order_states fills already snapshot updated_assets =
     r_bind (gather order_states fills already) (\<lambda>st.
       if ts_ambiguous st then Inr (review_required p st (ts_alerts st))
       else r_bind (apply p (ts_applied st)) (\<lambda>translated.
         let mismatches = (case snapshot of None \<Rightarrow> []
               | Some s \<Rightarrow> mismatch_assets translated s updated_assets)
         in if mismatches \<noteq> []
            then Inr (review_required p st (ts_alerts st @
              [''account snapshot mismatch after projected portfolio translation: ''
               @ str_join '','' mismatches]))
            else Inr
              \<lparr>lr_status = (if ts_pending st \<noteq> [] then APPLIED_WITH_PENDING else APPLIED),
               lr_portfolio = translated, lr_applied_fill_ids = map fe_fill_id (ts_applied st),
               lr_ignored_fill_ids = sort (dedup (ts_ignored st)),
               lr_pending_order_ids = dedup (ts_pending st), lr_alerts = dedup (ts_alerts st),
               lr_aggregations = ts_aggregations st, lr_manual_attention = False\<rparr>))"

definition translate ::
    "string \<Rightarrow> portfolio_state \<Rightarrow> order_state list \<Rightarrow> fill_event list \<Rightarrow> string list
      \<Rightarrow> (string, decimal) dict option \<Rightarrow> string list \<Rightarrow> live_result result" where
  "translate quote_asset = translate_with (apply_fills quote_asset)"

section \<open>The scan\<close>

lemma tr_field_simps [simp, frame_simps]:
  "ts_applied (flag_ambiguous al st) = ts_applied st"
  "ts_applied (flag_pending oid al st) = ts_applied st"
  "ts_applied (ignore_fills ids st) = ts_applied st"
  "ts_ambiguous (flag_ambiguous al st)"
  "ts_ambiguous (flag_pending oid al st) = ts_ambiguous st"
  "ts_ambiguous (ignore_fills ids st) = ts_ambiguous st"
  "ts_ignored (flag_ambiguous al st) = ts_ignored st"
  "ts_ignored (flag_pending oid al st) = ts_ignored st"
  "ts_ignored (ignore_fills ids st) = ts_ignored st @ ids"
  by (simp_all add: flag_ambiguous_def flag_pending_def ignore_fills_def)

definition scan_inv :: "string list \<Rightarrow> fill_event list \<Rightarrow> scan_state \<Rightarrow> bool" where
  "scan_inv already fills = (\<lambda>(seen, st).
     wf_dict seen \<and> ts_applied st = [] \<and>
     (\<forall>(k, f)\<in>set seen. k = fe_fill_id f \<and> f \<in> set fills \<and> k \<notin> set already))"

lemma scan_fill_inv:
  assumes "scan_inv already fills p" and "f \<in> set fills"
  shows "scan_inv already fills (scan_fill already p f)"
proof -
  obtain seen st where p: "p = (seen, st)" by (cases p)
  have "set (dict_set (fe_fill_id f) f seen) \<subseteq> insert (fe_fill_id f, f) (set seen)"
    by (rule set_dict_set_subset)
  with assms p show ?thesis
    by (fastforce simp: scan_inv_def scan_fill_def split: option.splits)
qed

lemma scan_fills_inv: "scan_inv already fills (scan_fills already fills)"
proof -
  have "set fs \<subseteq> set fills \<Longrightarrow> scan_inv already fills p
      \<Longrightarrow> scan_inv already fills (foldl (scan_fill already) p fs)" for fs p
    by (induction fs arbitrary: p) (simp_all add: scan_fill_inv)
  then show ?thesis by (simp add: scan_fills_def scan_inv_def tr_start_def)
qed

lemma scan_fills_seen:
  assumes "scan_fills already fills = (seen, st)"
  shows "ts_applied st = []" and "distinct (map fe_fill_id (map snd seen))"
    and "\<And>f. f \<in> set (map snd seen) \<Longrightarrow> f \<in> set fills \<and> fe_fill_id f \<notin> set already"
proof -
  have inv: "scan_inv already fills (seen, st)" using scan_fills_inv assms by metis
  then show "ts_applied st = []" by (simp add: scan_inv_def)
  from inv have ids: "map fe_fill_id (map snd seen) = map fst seen"
    by (auto simp: scan_inv_def)
  from inv show "distinct (map fe_fill_id (map snd seen))"
    unfolding ids by (simp add: scan_inv_def wf_dict_def)
  fix f assume "f \<in> set (map snd seen)"
  with inv show "f \<in> set fills \<and> fe_fill_id f \<notin> set already"
    by (auto simp: scan_inv_def)
qed

lemma seen_all_applied:
  assumes "\<forall>f\<in>set fs. fe_fill_id f \<in> set already"
  shows "foldl (scan_fill already) (seen, st) fs = (seen, ignore_fills (map fe_fill_id fs) st)"
  using assms
proof (induction fs arbitrary: st)
  case Nil
  show ?case by (simp add: ignore_fills_def)
next
  case (Cons f fs)
  then show ?case by (simp add: scan_fill_def ignore_fills_def)
qed

section \<open>What one group may apply\<close>

text \<open>
  An order's fills are applied only when the order is known and settled, and when their total
  quantity does not exceed what the order reports; a filled order needs all of its fills.
\<close>

definition group_admissible ::
    "(string, order_state) dict \<Rightarrow> string \<Rightarrow> fill_event list \<Rightarrow> bool" where
  "group_admissible om k eff \<longleftrightarrow>
     (\<exists>order. dict_get om k = Some order \<and> os_status order \<notin> {RECOVERING, UNRECONCILED} \<and>
        quantity_sum eff \<le> os_filled_quantity order \<and>
        quantity_sum eff \<le> os_requested_quantity order \<and>
        (os_status order = FILLED \<longrightarrow> quantity_sum eff = os_filled_quantity order))"

lemma settle_group_applied:
  assumes "settle_group order k eff st = Inr st'"
  shows "ts_applied st' = ts_applied st \<and> ts_ambiguous st' \<or>
    ts_applied st' = ts_applied st @ sort_key fill_sort_key eff \<and>
    ts_ambiguous st' = ts_ambiguous st \<and>
    quantity_sum eff \<le> os_filled_quantity order \<and>
    quantity_sum eff \<le> os_requested_quantity order \<and>
    (os_status order = FILLED \<longrightarrow> quantity_sum eff = os_filled_quantity order)"
proof -
  let ?t = "quantity_sum eff"
  obtain avg where avg: "dec_div (notional_sum eff) ?t = Inr avg"
    using assms by (cases "dec_div (notional_sum eff) ?t") (simp_all add: settle_group_def Let_def)
  note eq = assms [unfolded settle_group_def Let_def avg r_bind_simps]
  show ?thesis
  proof (cases "os_filled_quantity order < ?t \<or> os_requested_quantity order < ?t
      \<or> ?t < os_filled_quantity order \<and> os_status order = FILLED")
    case True
    then have "ts_applied st' = ts_applied st \<and> ts_ambiguous st'"
      using eq by (cases "os_filled_quantity order < ?t"; cases "os_requested_quantity order < ?t") auto
    then show ?thesis ..
  next
    case False
    then have "ts_applied st' = ts_applied st @ sort_key fill_sort_key eff
        \<and> ts_ambiguous st' = ts_ambiguous st"
      using eq by (auto split: if_splits)
    with False show ?thesis by (auto simp: not_less)
  qed
qed

lemma process_group_applied:
  assumes "process_group om recs st (k, l) = Inr st'"
  shows "ts_applied st' = ts_applied st \<or>
    (\<exists>eff. (eff = l \<or> eff = filter (\<lambda>f. \<not> is_recovered_fill f) l) \<and>
       ts_applied st' = ts_applied st @ sort_key fill_sort_key eff \<and> group_admissible om k eff)"
proof (cases "dict_get om k")
  case None
  with assms show ?thesis by (auto simp: process_group_def)
next
  case (Some order)
  let ?priv = "filter (\<lambda>f. \<not> is_recovered_fill f) l"
  define a where "a \<longleftrightarrow> ?priv \<noteq> [] \<and> filter is_recovered_fill l = [] \<and> os_status order = FILLED
      \<and> k \<in> set recs \<and> quantity_sum ?priv \<le> os_filled_quantity order"
  define b where "b \<longleftrightarrow> ?priv \<noteq> [] \<and> filter is_recovered_fill l \<noteq> []
      \<and> quantity_sum ?priv \<le> os_filled_quantity order"
  define blocked where "blocked \<longleftrightarrow> os_status order \<in> {RECOVERING, UNRECONCILED}"
  have eq: "(if blocked
      then Inr (flag_ambiguous (''portfolio mutation blocked for ambiguous order state: '' @ k) st)
      else if a then Inr (ignore_fills (map fe_fill_id ?priv) st)
      else if b then settle_group order k ?priv
        (ignore_fills (map fe_fill_id (filter is_recovered_fill l)) st)
      else settle_group order k l st) = Inr st'"
    using assms Some by (simp only: process_group_def Let_def prod.case option.case a_def b_def blocked_def)
  consider "ts_applied st' = ts_applied st"
    | eff st0 where "eff = l \<or> eff = ?priv" "ts_applied st0 = ts_applied st"
      "settle_group order k eff st0 = Inr st'" "\<not> blocked"
  proof (cases "blocked \<or> a")
    case True
    with eq have "ts_applied st' = ts_applied st" by (cases blocked) auto
    then show thesis by (rule that(1))
  next
    case False
    show thesis
    proof (cases b)
      case True
      with False eq show thesis by (intro that(2) [of ?priv]) auto
    next
      case nb: False
      with False eq show thesis by (intro that(2) [of l st]) auto
    qed
  qed
  then show ?thesis
  proof cases
    case 1
    then show ?thesis by simp
  next
    case (2 eff st0)
    from settle_group_applied [OF 2(3)] consider "ts_applied st' = ts_applied st"
      | "ts_applied st' = ts_applied st @ sort_key fill_sort_key eff" "group_admissible om k eff"
      using 2(2,4) Some unfolding group_admissible_def blocked_def by metis
    then show ?thesis using 2(1) by cases blast+
  qed
qed

definition applied_inv ::
    "(string, order_state) dict \<Rightarrow> fill_event list \<Rightarrow> string set \<Rightarrow> fill_event list \<Rightarrow> bool" where
  "applied_inv om fs ks app \<longleftrightarrow>
     set app \<subseteq> set fs \<and> distinct app \<and> fe_order_id ` set app \<subseteq> ks \<and>
     (\<forall>k. filter (\<lambda>f. fe_order_id f = k) app = [] \<or>
        (\<exists>eff. filter (\<lambda>f. fe_order_id f = k) app = sort_key fill_sort_key eff
           \<and> group_admissible om k eff))"

lemma applied_inv_extend:
  assumes inv: "applied_inv om fs ks app" and k: "k \<notin> ks"
    and sub: "set eff \<subseteq> set (filter (\<lambda>f. fe_order_id f = k) fs)" and d: "distinct eff"
    and adm: "group_admissible om k eff"
  shows "applied_inv om fs (insert k ks) (app @ sort_key fill_sort_key eff)"
proof -
  have other: "filter (\<lambda>f. fe_order_id f = k) app = []"
    using inv k by (auto simp: applied_inv_def filter_empty_conv)
  have own: "filter (\<lambda>f. fe_order_id f = j) (sort_key fill_sort_key eff) =
      (if j = k then sort_key fill_sort_key eff else [])" for j
  proof (cases "j = k")
    case True
    with sub show ?thesis by (auto simp: filter_id_conv)
  next
    case False
    with sub show ?thesis by (auto intro!: filter_False)
  qed
  have "set app \<inter> set eff = {}" using inv k sub by (auto simp: applied_inv_def)
  with inv sub d show ?thesis
    unfolding applied_inv_def using own other adm by (auto simp: filter_append)
qed

lemma process_groups_applied:
  assumes "r_foldl (process_group om recs) st gs = Inr st'"
    and "distinct (map fst gs)" and "distinct fs"
    and "\<forall>(k, l)\<in>set gs. l = filter (\<lambda>f. fe_order_id f = k) fs"
    and "applied_inv om fs ks (ts_applied st)" and "ks \<inter> fst ` set gs = {}"
  shows "applied_inv om fs (ks \<union> fst ` set gs) (ts_applied st')"
  using assms
proof (induction gs arbitrary: st ks)
  case Nil
  then show ?case by simp
next
  case (Cons g gs)
  obtain k l where g: "g = (k, l)" by (cases g)
  obtain u where step: "process_group om recs st (k, l) = Inr u"
    and rest: "r_foldl (process_group om recs) u gs = Inr st'"
    using Cons.prems(1) g by (auto simp: r_bind_Inr)
  have l: "l = filter (\<lambda>f. fe_order_id f = k) fs" and k: "k \<notin> ks"
    using Cons.prems(4,6) g by auto
  have "applied_inv om fs (insert k ks) (ts_applied u)"
  proof (cases "ts_applied u = ts_applied st")
    case True
    with Cons.prems(5) show ?thesis by (auto simp: applied_inv_def)
  next
    case False
    then obtain eff where "eff = l \<or> eff = filter (\<lambda>f. \<not> is_recovered_fill f) l"
      "ts_applied u = ts_applied st @ sort_key fill_sort_key eff" "group_admissible om k eff"
      using process_group_applied [OF step] by blast
    moreover from this(1) l Cons.prems(3)
    have "set eff \<subseteq> set (filter (\<lambda>f. fe_order_id f = k) fs)" "distinct eff" by auto
    ultimately show ?thesis using applied_inv_extend [OF Cons.prems(5) k] by metis
  qed
  from Cons.IH [OF rest _ Cons.prems(3) _ this] Cons.prems(2,4,6) g
  show ?case by (auto simp: insert_commute)
qed

lemma check_order_applied: "ts_applied (check_order g st order) = ts_applied st"
  by (simp add: check_order_def Let_def)

lemma check_orders_applied: "ts_applied (foldl (check_order g) st os) = ts_applied st"
  by (induction os arbitrary: st) (simp_all add: check_order_applied)

lemma gather_applied:
  assumes "gather order_states fills already = Inr st"
  shows "distinct (map fe_fill_id (ts_applied st))"
    and "set (ts_applied st) \<subseteq> set fills"
    and "\<forall>f\<in>set (ts_applied st). fe_fill_id f \<notin> set already"
    and "\<forall>k. filter (\<lambda>f. fe_order_id f = k) (ts_applied st) = [] \<or>
      (\<exists>eff. filter (\<lambda>f. fe_order_id f = k) (ts_applied st) = sort_key fill_sort_key eff
         \<and> group_admissible (dict_of os_order_id (\<lambda>s. s) order_states) k eff)"
proof -
  let ?om = "dict_of os_order_id (\<lambda>s. s) order_states"
  obtain seen st0 where scan: "scan_fills already fills = (seen, st0)"
    by (cases "scan_fills already fills")
  let ?fs = "map snd seen"
  obtain st1 where run: "r_foldl (process_group ?om (List.map_filter recovered_fill_order_id already))
      st0 (group_fills ?fs) = Inr st1"
    and st: "ts_applied st = ts_applied st1"
    using assms scan by (auto simp: gather_def Let_def r_bind_Inr check_orders_applied)
  have df: "distinct ?fs" using scan_fills_seen(2) [OF scan] by (rule distinct_map [THEN iffD1, THEN conjunct1])
  have "applied_inv ?om ?fs ({} \<union> fst ` set (group_fills ?fs)) (ts_applied st1)"
    using wf_group_by [of fe_order_id ?fs] scan_fills_seen(1) [OF scan] group_by_mem(1) [of _ _ fe_order_id ?fs]
    by (intro process_groups_applied [OF run _ df]) (auto simp: wf_dict_def applied_inv_def group_fills_def)
  then have inv: "applied_inv ?om ?fs (fst ` set (group_fills ?fs)) (ts_applied st)"
    by (simp add: st)
  then have sub: "set (ts_applied st) \<subseteq> set ?fs" by (simp add: applied_inv_def)
  show "distinct (map fe_fill_id (ts_applied st))"
  proof -
    have "inj_on fe_fill_id (set ?fs)" using scan_fills_seen(2) [OF scan]
      by (rule distinct_map [THEN iffD1, THEN conjunct2])
    then have "inj_on fe_fill_id (set (ts_applied st))" using sub by (rule inj_on_subset)
    then show ?thesis using inv by (simp add: distinct_map applied_inv_def)
  qed
  show "set (ts_applied st) \<subseteq> set fills" "\<forall>f\<in>set (ts_applied st). fe_fill_id f \<notin> set already"
    using sub scan_fills_seen(3) [OF scan] by blast+
  show "\<forall>k. filter (\<lambda>f. fe_order_id f = k) (ts_applied st) = [] \<or>
      (\<exists>eff. filter (\<lambda>f. fe_order_id f = k) (ts_applied st) = sort_key fill_sort_key eff
         \<and> group_admissible ?om k eff)"
    using inv by (simp add: applied_inv_def)
qed

section \<open>The portfolio updater as an interface\<close>

text \<open>
  What the translator relies on: an updated portfolio is valid, fills change only the quote cash
  and the positions of their own instruments.
\<close>

locale portfolio_updater =
  fixes upd :: "portfolio_state \<Rightarrow> fill_event list \<Rightarrow> portfolio_state result"
    and quote :: string
  assumes updated_valid: "upd p fs = Inr p' \<Longrightarrow> valid_portfolio p'"
    and updated_qty: "upd p fs = Inr p' \<Longrightarrow> \<forall>f\<in>set fs. fe_instrument_id f \<noteq> i \<Longrightarrow>
      dict_get_default (pf_position_qty p') i 0 = dict_get_default (pf_position_qty p) i 0"
    and updated_cash: "upd p fs = Inr p' \<Longrightarrow> c \<noteq> quote \<Longrightarrow>
      dict_get_default (pf_cash p') c 0 = dict_get_default (pf_cash p) c 0"
begin

lemma translate_Inr:
  assumes "translate_with upd p os fs already snap assets = Inr r"
  obtains st where "gather os fs already = Inr st"
    and "lr_manual_attention r \<Longrightarrow> lr_portfolio r = p \<and> lr_applied_fill_ids r = []
      \<and> lr_status r = AMBIGUOUS_REVIEW_REQUIRED"
    and "\<not> lr_manual_attention r \<Longrightarrow> \<not> ts_ambiguous st \<and> upd p (ts_applied st) = Inr (lr_portfolio r)
      \<and> lr_applied_fill_ids r = map fe_fill_id (ts_applied st)
      \<and> lr_status r = (if ts_pending st \<noteq> [] then APPLIED_WITH_PENDING else APPLIED)
      \<and> (case snap of None \<Rightarrow> True | Some s \<Rightarrow> mismatch_assets (lr_portfolio r) s assets = [])"
proof -
  obtain st where st: "gather os fs already = Inr st"
    using assms by (auto simp: translate_with_def r_bind_Inr)
  show thesis
  proof (rule that [OF st])
    assume "lr_manual_attention r"
    with assms st show "lr_portfolio r = p \<and> lr_applied_fill_ids r = []
      \<and> lr_status r = AMBIGUOUS_REVIEW_REQUIRED"
      by (auto simp: translate_with_def r_bind_Inr review_required_def Let_def split: if_splits)
  next
    assume "\<not> lr_manual_attention r"
    with assms st show "\<not> ts_ambiguous st \<and> upd p (ts_applied st) = Inr (lr_portfolio r)
      \<and> lr_applied_fill_ids r = map fe_fill_id (ts_applied st)
      \<and> lr_status r = (if ts_pending st \<noteq> [] then APPLIED_WITH_PENDING else APPLIED)
      \<and> (case snap of None \<Rightarrow> True | Some s \<Rightarrow> mismatch_assets (lr_portfolio r) s assets = [])"
      by (auto simp: translate_with_def r_bind_Inr review_required_def Let_def
          split: if_splits option.splits)
  qed
qed

lemma review_keeps_portfolio:
  assumes "translate_with upd p os fs already snap assets = Inr r"
    and "lr_status r = AMBIGUOUS_REVIEW_REQUIRED"
  shows "lr_portfolio r = p" "lr_applied_fill_ids r = []" "lr_manual_attention r"
  using assms by (auto elim!: translate_Inr split: if_splits)

lemma applied_once:
  assumes "translate_with upd p os fs already snap assets = Inr r"
  shows "distinct (lr_applied_fill_ids r)"
    and "set (lr_applied_fill_ids r) \<inter> set already = {}"
    and "set (lr_applied_fill_ids r) \<subseteq> fe_fill_id ` set fs"
proof -
  obtain st where st: "gather os fs already = Inr st"
    and m: "lr_manual_attention r \<Longrightarrow> lr_applied_fill_ids r = []"
    and n: "\<not> lr_manual_attention r \<Longrightarrow> lr_applied_fill_ids r = map fe_fill_id (ts_applied st)"
    using translate_Inr [OF assms] by metis
  note g = gather_applied [OF st]
  show "distinct (lr_applied_fill_ids r)" "set (lr_applied_fill_ids r) \<inter> set already = {}"
    "set (lr_applied_fill_ids r) \<subseteq> fe_fill_id ` set fs"
    using m n g(1-3) by (cases "lr_manual_attention r", force, force)+
qed

lemma untouched_instrument:
  assumes "translate_with upd p os fs already snap assets = Inr r"
    and "\<forall>f\<in>set fs. fe_instrument_id f \<noteq> i"
  shows "dict_get_default (pf_position_qty (lr_portfolio r)) i 0
    = dict_get_default (pf_position_qty p) i 0"
proof -
  obtain st where st: "gather os fs already = Inr st"
    and m: "lr_manual_attention r \<Longrightarrow> lr_portfolio r = p"
    and n: "\<not> lr_manual_attention r \<Longrightarrow> upd p (ts_applied st) = Inr (lr_portfolio r)"
    using translate_Inr [OF assms(1)] by metis
  have "\<forall>f\<in>set (ts_applied st). fe_instrument_id f \<noteq> i"
    using gather_applied(2) [OF st] assms(2) by blast
  with m n updated_qty show ?thesis by (cases "lr_manual_attention r") metis+
qed

lemma untouched_cash:
  assumes "translate_with upd p os fs already snap assets = Inr r" and "c \<noteq> quote"
  shows "dict_get_default (pf_cash (lr_portfolio r)) c 0 = dict_get_default (pf_cash p) c 0"
  using assms updated_cash by (elim translate_Inr) metis

lemma translated_valid:
  assumes "translate_with upd p os fs already snap assets = Inr r" and "valid_portfolio p"
  shows "valid_portfolio (lr_portfolio r)"
  using assms updated_valid by (elim translate_Inr) metis

end

interpretation paper: portfolio_updater "apply_fills q" q for q
proof unfold_locales
  fix p fs p' i c
  assume step: "apply_fills q p fs = Inr p'"
  show "valid_portfolio p'" using step by (rule apply_fills_Inr)
  show "\<forall>f\<in>set fs. fe_instrument_id f \<noteq> i \<Longrightarrow>
      dict_get_default (pf_position_qty p') i 0 = dict_get_default (pf_position_qty p) i 0"
    using step by (rule apply_fills_other_qty)
  show "c \<noteq> q \<Longrightarrow> dict_get_default (pf_cash p') c 0 = dict_get_default (pf_cash p) c 0"
    using step by (rule apply_fills_other_cash)
qed

section \<open>Properties\<close>

text \<open>The start of a witness: one order and its fills, translated into the sample portfolio.\<close>

definition sample_filled :: "decimal \<Rightarrow> order_state" where
  "sample_filled q = (sample_order FILLED q)\<lparr>os_filled_quantity := q, os_remaining_quantity := 0\<rparr>"

lemma sample_order_map [simp]:
  "dict_get (dict_of os_order_id (\<lambda>s. s) [s]) k = (if k = os_order_id s then Some s else None)"
  by (simp add: dict_of_def)

lemma sample_gather:
  "gather [sample_filled (Dec 2)] [sample_fill ''f1'' (Dec 2)] [] = Inr
     \<lparr>ts_alerts = [], ts_pending = [], ts_ambiguous = False, ts_ignored = [],
      ts_applied = [sample_fill ''f1'' (Dec 2)],
      ts_aggregations = [\<lparr>la_order_id = ''o1'', la_fill_ids = [''f1''], la_total_quantity = Dec 2,
        la_average_price = Dec 100\<rparr>]\<rparr>"
proof -
  have "\<not> is_recovered_fill (sample_fill ''f1'' (Dec 2))"
    by (simp add: is_recovered_fill_def)
  then show ?thesis
    by (simp add: gather_def scan_fills_def scan_fill_def tr_start_def group_fills_def group_by_def dict_append_def
        dict_get_default_def process_group_def settle_group_def quantity_sum_def notional_sum_def
        dec_sum_def dec_div_def check_order_def sample_filled_def Let_def)
qed

lemma sample_translate:
  "\<exists>r. translate ''USDT'' sample_portfolio [sample_filled (Dec 2)] [sample_fill ''f1'' (Dec 2)] []
     None [] = Inr r \<and> lr_status r = APPLIED \<and> lr_applied_fill_ids r = [''f1'']"
  using sample_apply_2 by (auto simp: translate_def translate_with_def sample_gather)

text \<open>
  A translation that needs review changes nothing: the portfolio it returns is the one it got,
  no fill counts as applied, and manual attention is requested.
\<close>

theorem review_changes_nothing:
  assumes "translate q p os fs already snap assets = Inr r"
    and "lr_status r = AMBIGUOUS_REVIEW_REQUIRED"
  shows "lr_portfolio r = p \<and> lr_applied_fill_ids r = [] \<and> lr_manual_attention r"
  using paper.review_keeps_portfolio [OF assms(1) [unfolded translate_def] assms(2)] by blast

lemma sample_review:
  "\<exists>r. translate ''USDT'' sample_portfolio [] [sample_fill ''f1'' (Dec 2)] [] None [] = Inr r
     \<and> lr_status r = AMBIGUOUS_REVIEW_REQUIRED"
  by (simp add: translate_def translate_with_def gather_def scan_fills_def scan_fill_def tr_start_def
      group_fills_def group_by_def dict_append_def dict_get_default_def process_group_def dict_of_def Let_def
      flag_ambiguous_def review_required_def)

lemma review_changes_nothing_witness:
  "\<exists>r. translate ''USDT'' sample_portfolio [] [sample_fill ''f1'' (Dec 2)] [] None [] = Inr r
     \<and> lr_portfolio r = sample_portfolio \<and> lr_applied_fill_ids r = []"
  using sample_review review_changes_nothing by blast

text \<open>
  C1. No fill is applied twice by one translation: the applied ids are distinct, none of them was
  already applied, and each is the id of a fill that was received.
\<close>

theorem fills_applied_at_most_once:
  assumes "translate q p os fs already snap assets = Inr r"
  shows "distinct (lr_applied_fill_ids r) \<and> set (lr_applied_fill_ids r) \<inter> set already = {} \<and>
    set (lr_applied_fill_ids r) \<subseteq> fe_fill_id ` set fs"
  using paper.applied_once [OF assms [unfolded translate_def]] by blast

lemma fills_applied_at_most_once_witness:
  "\<exists>r. translate ''USDT'' sample_portfolio [sample_filled (Dec 2)] [sample_fill ''f1'' (Dec 2)] []
     None [] = Inr r \<and> lr_applied_fill_ids r = [''f1''] \<and> distinct (lr_applied_fill_ids r)"
  using sample_translate fills_applied_at_most_once by blast

text \<open>
  C2. What is applied is backed by the orders: a translation without review applies a list of the
  received fills through the paper updater, and for each order the fills applied for it belong to a
  known order that is neither recovering nor unreconciled, add up to no more than its filled and
  requested quantities, and to exactly the filled quantity when the order is FILLED.
\<close>

theorem applied_fills_backed_by_orders:
  assumes "translate q p os fs already snap assets = Inr r" and "\<not> lr_manual_attention r"
  shows "\<exists>app. set app \<subseteq> set fs \<and> lr_applied_fill_ids r = map fe_fill_id app \<and>
    apply_fills q p app = Inr (lr_portfolio r) \<and>
    (\<forall>k. filter (\<lambda>f. fe_order_id f = k) app = [] \<or>
      (\<exists>eff. filter (\<lambda>f. fe_order_id f = k) app = sort_key fill_sort_key eff \<and>
         group_admissible (dict_of os_order_id (\<lambda>s. s) os) k eff))"
proof -
  obtain st where st: "gather os fs already = Inr st"
    and "\<not> lr_manual_attention r \<Longrightarrow> apply_fills q p (ts_applied st) = Inr (lr_portfolio r)
      \<and> lr_applied_fill_ids r = map fe_fill_id (ts_applied st)"
    using paper.translate_Inr [OF assms(1) [unfolded translate_def]] by metis
  with assms(2) gather_applied(2,4) [OF st] show ?thesis by blast
qed

lemma applied_fills_backed_by_orders_witness:
  "\<exists>r app. translate ''USDT'' sample_portfolio [sample_filled (Dec 2)]
     [sample_fill ''f1'' (Dec 2)] [] None [] = Inr r \<and>
     lr_applied_fill_ids r = map fe_fill_id app \<and>
     apply_fills ''USDT'' sample_portfolio app = Inr (lr_portfolio r)"
proof -
  obtain r where r: "translate ''USDT'' sample_portfolio [sample_filled (Dec 2)]
     [sample_fill ''f1'' (Dec 2)] [] None [] = Inr r" "lr_status r = APPLIED"
    "lr_applied_fill_ids r = [''f1'']" using sample_translate by blast
  have m: "\<not> lr_manual_attention r"
    using paper.translate_Inr [OF r(1) [unfolded translate_def]] r(3) by (metis list.distinct(1))
  from applied_fills_backed_by_orders [OF r(1) m] r(1) show ?thesis by blast
qed

lemma gather_all_applied:
  assumes "\<forall>f\<in>set fs. fe_fill_id f \<in> set already" and "gather os fs already = Inr st"
  shows "ts_applied st = []"
  using gather_applied(2,3) [OF assms(2)] assms(1) by (cases "ts_applied st") auto

text \<open>
  Replay safety: when every received fill has already been applied, translating again leaves
  cash, positions, entry prices and realised profit exactly as they are.
\<close>

theorem replay_changes_nothing:
  assumes "translate q p os fs already snap assets = Inr r"
    and "\<forall>f\<in>set fs. fe_fill_id f \<in> set already"
  shows "pf_cash (lr_portfolio r) = pf_cash p \<and>
    pf_position_qty (lr_portfolio r) = pf_position_qty p \<and>
    pf_avg_entry (lr_portfolio r) = pf_avg_entry p \<and>
    pf_realized_pnl (lr_portfolio r) = pf_realized_pnl p"
proof -
  obtain st where st: "gather os fs already = Inr st"
    and m: "lr_manual_attention r \<Longrightarrow> lr_portfolio r = p"
    and n: "\<not> lr_manual_attention r \<Longrightarrow> apply_fills q p (ts_applied st) = Inr (lr_portfolio r)"
    using paper.translate_Inr [OF assms(1) [unfolded translate_def]] by metis
  show ?thesis
  proof (cases "lr_manual_attention r")
    case True
    with m show ?thesis by simp
  next
    case False
    from n [OF this] have "apply_fills q p [] = Inr (lr_portfolio r)"
      by (simp add: gather_all_applied [OF assms(2) st])
    then show ?thesis by (rule apply_fills_Inr) (simp add: initial_acc_def)
  qed
qed

lemma replay_changes_nothing_witness:
  "\<exists>r. translate ''USDT'' sample_portfolio [] [sample_fill ''f1'' (Dec 2)] [''f1''] None [] = Inr r
     \<and> pf_cash (lr_portfolio r) = [(''USDT'', Dec 1000)]"
proof -
  let ?t = "translate ''USDT'' sample_portfolio [] [sample_fill ''f1'' (Dec 2)] [''f1''] None []"
  have g: "gather [] [sample_fill ''f1'' (Dec 2)] [''f1''] = Inr (ignore_fills [''f1''] tr_start)"
    by (simp add: gather_def scan_fills_def scan_fill_def group_fills_def dict_of_def)
  have "apply_fills ''USDT'' sample_portfolio [] = Inr sample_portfolio"
    by (simp add: apply_fills_def initial_acc_def finish_acc_def sample_portfolio_def
        valid_portfolio_iff blank_def py_space_def)
  then have "\<exists>r. ?t = Inr r"
    by (simp add: translate_def translate_with_def g tr_start_def ignore_fills_def)
  then obtain r where r: "?t = Inr r" by blast
  have "pf_cash (lr_portfolio r) = [(''USDT'', Dec 1000)]"
    using replay_changes_nothing [OF r] by (simp add: sample_portfolio_def)
  with r show ?thesis by blast
qed

text \<open>
  Frame of a translation: instruments without a received fill keep their position, assets other
  than the quote asset keep their balance, and a valid portfolio stays valid.
\<close>

theorem translation_frame:
  assumes "translate q p os fs already snap assets = Inr r"
  shows "(\<forall>i. i \<notin> fe_instrument_id ` set fs \<longrightarrow>
      dict_get_default (pf_position_qty (lr_portfolio r)) i 0
        = dict_get_default (pf_position_qty p) i 0) \<and>
    (\<forall>c. c \<noteq> q \<longrightarrow> dict_get_default (pf_cash (lr_portfolio r)) c 0
        = dict_get_default (pf_cash p) c 0) \<and>
    (valid_portfolio p \<longrightarrow> valid_portfolio (lr_portfolio r))"
proof (intro conjI allI impI)
  note t = assms [unfolded translate_def]
  show "dict_get_default (pf_position_qty (lr_portfolio r)) i 0
      = dict_get_default (pf_position_qty p) i 0" if "i \<notin> fe_instrument_id ` set fs" for i
    using that by (intro paper.untouched_instrument [OF t]) auto
  show "dict_get_default (pf_cash (lr_portfolio r)) c 0 = dict_get_default (pf_cash p) c 0"
    if "c \<noteq> q" for c using paper.untouched_cash [OF t that] .
  show "valid_portfolio p \<Longrightarrow> valid_portfolio (lr_portfolio r)"
    by (rule paper.translated_valid [OF t])
qed

lemma translation_frame_witness:
  "\<exists>r. translate ''USDT'' sample_portfolio [sample_filled (Dec 2)] [sample_fill ''f1'' (Dec 2)] []
     None [] = Inr r \<and> dict_get_default (pf_position_qty (lr_portfolio r)) ''ETH-USDT'' 0 = 0 \<and>
     valid_portfolio (lr_portfolio r)"
proof -
  obtain r where r: "translate ''USDT'' sample_portfolio [sample_filled (Dec 2)]
     [sample_fill ''f1'' (Dec 2)] [] None [] = Inr r" using sample_translate by blast
  from translation_frame [OF r] have "dict_get_default (pf_position_qty (lr_portfolio r)) ''ETH-USDT'' 0
      = dict_get_default (pf_position_qty sample_portfolio) ''ETH-USDT'' 0"
    and "valid_portfolio (lr_portfolio r)"
    by simp_all
  with r show ?thesis by (simp add: sample_portfolio_def dict_get_default_def)
qed

end
