(* ===== verification/BinanceModels.thy ===== *)
theory BinanceModels
  imports ContractsTrade ContractsMarket
begin

text \<open>
  The adapter-level records and enumerations of \<open>app/exchanges/binance/models.py\<close>. These classes
  have no validation of their own; each record holds the class's fields in the class's order.
\<close>

section \<open>Enumerations\<close>

datatype error_category = AUTH | CLOCK_SKEW | RATE_LIMIT | TRANSIENT_NETWORK | ORDER_REJECT | UNKNOWN

datatype recovery_action =
    NO_ACTION | QUERY_ORDER_STATUS | QUERY_OPEN_ORDERS | HOLD_PORTFOLIO_MUTATION | ESCALATE_OPERATOR

datatype convergence_state = CONV_PENDING | CONVERGED_TERMINAL | CONV_UNRECONCILED

fun convergence_value :: "convergence_state \<Rightarrow> string" where
  "convergence_value CONV_PENDING = ''pending''"
| "convergence_value CONVERGED_TERMINAL = ''converged_terminal''"
| "convergence_value CONV_UNRECONCILED = ''unreconciled_manual_attention''"

datatype trigger_reason =
    NOT_REQUIRED | MISSING_PRIVATE_UPDATES | PRIVATE_STREAM_GAP | RESTART_RESUME
  | UNKNOWN_EXECUTION_TRIGGER

fun trigger_value :: "trigger_reason \<Rightarrow> string" where
  "trigger_value NOT_REQUIRED = ''not_required''"
| "trigger_value MISSING_PRIVATE_UPDATES = ''missing_private_updates''"
| "trigger_value PRIVATE_STREAM_GAP = ''private_stream_gap''"
| "trigger_value RESTART_RESUME = ''restart_resume''"
| "trigger_value UNKNOWN_EXECUTION_TRIGGER = ''unknown_execution''"

datatype private_stream_state =
    INITIALIZING | AUTHENTICATED | SUBSCRIBED | STREAMING | DEGRADED | SESSION_ROLLOVER
  | TERMINATED | SHUTDOWN

datatype public_stream_state =
    PUB_CONNECTING | PUB_STREAMING | PUB_DEGRADED | PUB_FAILOVER_REST | PUB_SESSION_ROLLOVER

datatype private_event_family = ORDER_UPDATE | ACCOUNT_UPDATE | STREAM_STATUS

fun family_value :: "private_event_family \<Rightarrow> string" where
  "family_value ORDER_UPDATE = ''order_update''"
| "family_value ACCOUNT_UPDATE = ''account_update''"
| "family_value STREAM_STATUS = ''stream_status''"

datatype translation_status = TRANSLATED | IGNORED | MALFORMED

datatype status_query_state = QUERY_SUCCESS | QUERY_FAILED | QUERY_BLOCKED

section \<open>Configuration, errors, clock, request weight\<close>

record endpoint_profile =
  ep_name :: string
  ep_allowed_rest_hosts :: "string list"
  ep_allowed_websocket_hosts :: "string list"
  ep_signed_query_enabled :: bool
  ep_private_stream_enabled :: bool

record client_error =
  ce_category :: error_category
  ce_message :: string
  ce_retryable :: bool
  ce_raw_code :: "string option"
  ce_http_status :: "int option"
  ce_retry_after_seconds :: "rat option"
  ce_request_id :: "string option"

record adapter_config =
  cfg_rest_base_url :: string
  cfg_websocket_base_url :: string
  cfg_api_key :: string
  cfg_api_secret :: string
  cfg_recv_window_ms :: int
  cfg_max_clock_skew_ms :: int
  cfg_allow_order_submission :: bool
  cfg_endpoint_profile_name :: string
  cfg_request_weight_limit_per_minute :: int

record symbol_mapping =
  sm_instrument_id :: string
  sm_venue_symbol :: string

record clock_status =
  cs_offset_ms :: int
  cs_round_trip_ms :: int
  cs_is_within_tolerance :: bool
  cs_checked_at :: datetime
  cs_server_time_ms :: "int option"
  cs_local_time_ms :: "int option"
  cs_is_uncertain :: bool
  cs_recalibration_attempts :: int
  cs_source :: string
  cs_alert :: "string option"

record server_time_sample =
  sts_server_time_ms :: int
  sts_local_time_ms :: int
  sts_round_trip_ms :: int

record calibration_result =
  cal_final_status :: clock_status
  cal_samples :: "server_time_sample list"
  cal_alerts :: "string list"

record weight_snapshot =
  ws_used_weight :: int
  ws_max_weight :: int
  ws_remaining_weight :: int
  ws_window_started_at :: datetime
  ws_endpoint :: "string option"
  ws_is_throttled :: bool
  ws_alert :: "string option"

section \<open>The private stream\<close>

record private_event =
  pe_event_type :: string
  pe_family :: private_event_family
  pe_event_time :: datetime
  pe_account_scope :: string
  pe_sequence_id :: "string option"
  pe_client_order_id :: "string option"
  pe_exchange_order_id :: "string option"
  pe_summary :: "(string, string) dict option"

record private_batch =
  pb_events :: "private_event list"
  pb_source :: string
  pb_cursor :: "string option"
  pb_has_gap :: bool
  pb_alerts :: "string list"
  pb_stream_state :: private_stream_state
  pb_family_counts :: "(string, int) dict"
  pb_last_event_time :: "datetime option"
  pb_last_sequence_id :: "string option"

record stream_subscription =
  sub_subscription_id :: string
  sub_stream_key :: string
  sub_bootstrap_method :: string
  sub_expires_at :: "datetime option"

record private_session =
  ses_stream_key :: string
  ses_state :: private_stream_state
  ses_account_scope :: string
  ses_started_at :: datetime
  ses_expires_at :: "datetime option"
  ses_connection_id :: "string option"
  ses_subscription_id :: "string option"
  ses_bootstrap_method :: string
  ses_last_message_at :: "datetime option"
  ses_last_keepalive_at :: "datetime option"
  ses_reconnect_attempts :: int
  ses_alerts :: "string list"

record stream_health =
  sh_state :: private_stream_state
  sh_reconnect_attempts :: int
  sh_last_message_at :: "datetime option"
  sh_last_reconnect_at :: "datetime option"
  sh_session_expires_at :: "datetime option"
  sh_is_authoritative :: bool
  sh_alerts :: "string list"

record account_sync_summary =
  asy_account_scope :: string
  asy_event_time :: datetime
  asy_updated_assets :: "string list"
  asy_alerts :: "string list"

record payload_translation =
  pt_version :: string
  pt_status :: translation_status
  pt_source_event_type :: string
  pt_family :: private_event_family
  pt_occurred_at :: "datetime option"
  pt_order_state :: "order_state option"
  pt_fill_event :: "fill_event option"
  pt_account_snapshot :: "account_snapshot option"
  pt_stream_invalidated :: bool
  pt_alerts :: "string list"

section \<open>Order lookup and reconciliation\<close>

record query_health =
  qh_lookup_field :: string
  qh_lookup_value :: string
  qh_state :: status_query_state
  qh_checked_at :: datetime
  qh_transport :: string
  qh_http_status :: "int option"
  qh_alert :: "string option"
  qh_request_weight_used :: "int option"
  qh_request_weight_limit :: "int option"
  qh_endpoint_profile_name :: "string option"

record lookup_result =
  lk_found :: bool
  lk_field :: string
  lk_value :: string
  lk_source :: string
  lk_status_summary :: "string option"
  lk_alert :: "string option"
  lk_order_state :: "order_state option"
  lk_fill_events :: "fill_event list"
  lk_attempt_number :: int

record reconciliation_result =
  rr_matched :: "string list"
  rr_missing :: "string list"
  rr_unknown_ids :: "string list"
  rr_alerts :: "string list"
  rr_unknown_client_ids :: "string list"
  rr_unknown_exchange_only_ids :: "string list"
  rr_actions :: "recovery_action list"

record recovery_plan =
  rp_reason :: string
  rp_actions :: "recovery_action list"
  rp_lookup_requests :: "(string \<times> string) list"
  rp_alerts :: "string list"
  rp_trigger :: trigger_reason
  rp_automatic :: bool
  rp_gap_detected :: bool
  rp_resumed :: bool

record recovery_summary =
  rs_order_id :: string
  rs_attempts :: int
  rs_convergence :: convergence_state
  rs_last_field :: "string option"
  rs_last_source :: "string option"
  rs_terminal_status :: "string option"
  rs_detail :: "string option"

end
