(* ===== verification/ExchangeEdge.thy ===== *)
theory ExchangeEdge
  imports BinanceModels
begin

text \<open>
  The adapter's edge: precision and notional helpers and retry back-off
  (\<open>app/exchanges/common/\<close>), the error classifier, endpoint profiles, the request-weight tracker
  and the clock synchronisation (\<open>app/exchanges/binance/\<close>). The clock's \<open>datetime.now\<close>, the random
  source, URL parsing and float parsing are parameters.
\<close>

section \<open>Precision\<close>

definition trunc_int :: "rat \<Rightarrow> int" where
  "trunc_int x = (if 0 \<le> x then \<lfloor>x\<rfloor> else \<lceil>x\<rceil>)"

definition snap_to_increment :: "decimal \<Rightarrow> decimal \<Rightarrow> decimal result" where
  "snap_to_increment v increment =
     (if increment \<le> 0 then Inl (ValueError ''increment must be positive'')
      else if v \<le> 0 then Inr 0
      else r_bind (dec_div v increment) (\<lambda>ratio.
             Inr (Dec (of_int (trunc_int (dec_val ratio))) * increment)))"

definition select_preferred_step_size ::
    "decimal option \<Rightarrow> decimal option \<Rightarrow> decimal option" where
  "select_preferred_step_size market_step lot_step =
     (case market_step of
        Some m \<Rightarrow> if 0 < m then Some m
          else (case lot_step of Some l \<Rightarrow> if 0 < l then Some l else None | None \<Rightarrow> None)
      | None \<Rightarrow> (case lot_step of Some l \<Rightarrow> if 0 < l then Some l else None | None \<Rightarrow> None))"

definition meets_min_notional :: "decimal \<Rightarrow> decimal \<Rightarrow> decimal option \<Rightarrow> bool" where
  "meets_min_notional quantity price min_notional =
     (case min_notional of
        None \<Rightarrow> True
      | Some m \<Rightarrow> if m \<le> 0 then True else m \<le> quantity * price)"

section \<open>Retry back-off\<close>

text \<open>
  \<open>base * 2.0 ** attempt\<close> scales by a power of two, exact in binary floating point;
  \<open>2.0 ** attempt\<close> itself raises from attempt 1024 on.
\<close>

definition exponential_backoff_seconds ::
    "int \<Rightarrow> rat \<Rightarrow> rat \<Rightarrow> string \<Rightarrow> (rat \<Rightarrow> rat \<Rightarrow> rat) \<Rightarrow> rat result" where
  "exponential_backoff_seconds attempt base_seconds cap_seconds jitter rand_fn =
     (let n = nat (max 0 attempt) in
      if 1024 \<le> n then Inl OverflowError
      else
        (let max_sleep = min cap_seconds (base_seconds * 2 ^ n) in
         if max_sleep \<le> 0 then Inr 0
         else if jitter = ''full'' then Inr (rand_fn 0 max_sleep)
         else Inr max_sleep))"

section \<open>Error classification\<close>

definition classify_http_error ::
    "(string \<Rightarrow> rat option) \<Rightarrow> int option \<Rightarrow> int option \<Rightarrow> string option
      \<Rightarrow> (string, string) dict \<Rightarrow> client_error" where
  "classify_http_error parse_float http_status json_code message headers =
     (let text = str_strip (py_or message []);
          normalized = dict_of (\<lambda>(k, v). str_lower k) snd headers;
          request_id = py_or_opt (dict_get normalized ''x-request-id'')
                         (dict_get normalized ''x-mbx-uuid'');
          retry_after = Option.bind (dict_get normalized ''retry-after'') parse_float;
          raw_code = map_option int_str json_code;
          code_in = (\<lambda>cs. case json_code of None \<Rightarrow> False | Some c \<Rightarrow> c \<in> set cs);
          mk = (\<lambda>category default retryable retry.
            \<lparr>ce_category = category, ce_message = (if text = [] then default else text),
             ce_retryable = retryable, ce_raw_code = raw_code, ce_http_status = http_status,
             ce_retry_after_seconds = retry, ce_request_id = request_id\<rparr>)
      in case http_status of
           None \<Rightarrow> mk TRANSIENT_NETWORK ''binance network error'' True None
         | Some status \<Rightarrow>
             if status \<in> {401, 403} \<or> code_in [-2014, -2015] then
               mk AUTH ''binance authentication error'' False None
             else if status \<in> {418, 429} \<or> code_in [-1003] then
               mk RATE_LIMIT ''binance rate limit error'' True retry_after
             else if code_in [-1021] \<or> str_contains ''TIMESTAMP'' (str_upper text) then
               mk CLOCK_SKEW ''binance timestamp drift error'' True None
             else if 500 \<le> status \<or> code_in [-1013, -2010] then
               mk (if code_in [-1013, -2010] then ORDER_REJECT else UNKNOWN)
                 ''binance upstream error'' (500 \<le> status) None
             else mk UNKNOWN ''binance unknown error'' False None)"

section \<open>Endpoint profiles\<close>

definition profiles :: "(string, endpoint_profile) dict" where
  "profiles =
     [(''binance_spot_prod'',
        \<lparr>ep_name = ''binance_spot_prod'', ep_allowed_rest_hosts = [''api.binance.com''],
         ep_allowed_websocket_hosts = [''stream.binance.com''],
         ep_signed_query_enabled = True, ep_private_stream_enabled = True\<rparr>),
      (''binance_spot_testnet'',
        \<lparr>ep_name = ''binance_spot_testnet'', ep_allowed_rest_hosts = [''testnet.binance.vision''],
         ep_allowed_websocket_hosts = [''stream.testnet.binance.vision''],
         ep_signed_query_enabled = True, ep_private_stream_enabled = True\<rparr>)]"

definition resolve_endpoint_profile :: "string \<Rightarrow> endpoint_profile result" where
  "resolve_endpoint_profile name =
     (case dict_get profiles name of
        Some p \<Rightarrow> Inr p
      | None \<Rightarrow> Inl (ValueError (''unknown Binance endpoint profile: '' @ name)))"

definition validate_endpoint_profile ::
    "(string \<Rightarrow> string option) \<Rightarrow> adapter_config \<Rightarrow> endpoint_profile result" where
  "validate_endpoint_profile hostname config =
     r_bind (resolve_endpoint_profile (cfg_endpoint_profile_name config)) (\<lambda>profile.
       let rest_host = str_lower (py_or (hostname (cfg_rest_base_url config)) []);
           websocket_host = str_lower (py_or (hostname (cfg_websocket_base_url config)) [])
       in if rest_host \<notin> set (ep_allowed_rest_hosts profile) then
            Inl (ValueError (''configured Binance REST host does not match endpoint profile ''
              @ ep_name profile @ '': '' @ rest_host))
          else if websocket_host \<notin> set (ep_allowed_websocket_hosts profile) then
            Inl (ValueError (''configured Binance websocket host does not match endpoint profile ''
              @ ep_name profile @ '': '' @ websocket_host))
          else Inr profile)"

section \<open>The request-weight tracker\<close>

record weight_tracker =
  wt_max_weight :: int
  wt_window :: timedelta
  wt_used :: int
  wt_started :: "datetime option"
  wt_last :: "weight_snapshot option"

definition new_tracker :: "int \<Rightarrow> timedelta \<Rightarrow> weight_tracker" where
  "new_tracker max_weight window =
     \<lparr>wt_max_weight = max_weight, wt_window = window, wt_used = 0, wt_started = None, wt_last = None\<rparr>"

definition roll_window :: "datetime \<Rightarrow> weight_tracker \<Rightarrow> weight_tracker" where
  "roll_window now t =
     (if (case wt_started t of None \<Rightarrow> True | Some s \<Rightarrow> wt_window t \<le> dt_diff now s)
      then t\<lparr>wt_started := Some now, wt_used := 0\<rparr> else t)"

definition tracker_snapshot ::
    "weight_tracker \<Rightarrow> datetime \<Rightarrow> string \<Rightarrow> bool \<Rightarrow> string option \<Rightarrow> weight_snapshot" where
  "tracker_snapshot t now endpoint throttled alert =
     \<lparr>ws_used_weight = wt_used t, ws_max_weight = wt_max_weight t,
      ws_remaining_weight = max (wt_max_weight t - wt_used t) 0,
      ws_window_started_at = (case wt_started t of None \<Rightarrow> now | Some s \<Rightarrow> s),
      ws_endpoint = Some endpoint, ws_is_throttled = throttled, ws_alert = alert\<rparr>"

definition consume ::
    "string \<Rightarrow> int \<Rightarrow> datetime \<Rightarrow> weight_tracker \<Rightarrow> weight_snapshot \<times> weight_tracker" where
  "consume endpoint weight now t0 =
     (let t = roll_window now t0; next_weight = wt_used t + weight in
      if wt_max_weight t < next_weight then
        (let snap = tracker_snapshot t now endpoint True
           (Some (''request-weight budget exceeded before '' @ endpoint))
         in (snap, t\<lparr>wt_last := Some snap\<rparr>))
      else
        (let t' = t\<lparr>wt_used := next_weight\<rparr>;
             snap = tracker_snapshot t' now endpoint False None
         in (snap, t'\<lparr>wt_last := Some snap\<rparr>)))"

definition observe_response_headers ::
    "(string, string) dict \<Rightarrow> string \<Rightarrow> datetime \<Rightarrow> weight_tracker
      \<Rightarrow> weight_snapshot option \<times> weight_tracker" where
  "observe_response_headers headers endpoint now t0 =
     (if headers = [] then (wt_last t0, t0)
      else
        (let t = roll_window now t0;
             lowered = dict_of (\<lambda>(k, v). str_lower k) snd headers
         in case dict_get lowered ''x-mbx-used-weight-1m'' of
              None \<Rightarrow> (wt_last t, t)
            | Some header_value \<Rightarrow>
                (case parse_int header_value of
                   None \<Rightarrow> (wt_last t, t)
                 | Some used_weight \<Rightarrow>
                     (let t' = t\<lparr>wt_used := max (wt_used t) used_weight\<rparr>;
                          exhausted = wt_max_weight t' \<le> wt_used t';
                          snap = tracker_snapshot t' now endpoint exhausted
                            (if exhausted
                             then Some (''request-weight budget exhausted after '' @ endpoint)
                             else None)
                      in (Some snap, t'\<lparr>wt_last := Some snap\<rparr>)))))"

section \<open>Clock synchronisation\<close>

definition status_from_offset ::
    "adapter_config \<Rightarrow> datetime \<Rightarrow> int \<Rightarrow> int \<Rightarrow> int option \<Rightarrow> int option \<Rightarrow> string \<Rightarrow> clock_status" where
  "status_from_offset config now offset_ms round_trip_ms server_time local_time source =
     (let ok = \<bar>offset_ms\<bar> \<le> cfg_max_clock_skew_ms config in
      \<lparr>cs_offset_ms = offset_ms, cs_round_trip_ms = round_trip_ms, cs_is_within_tolerance = ok,
       cs_checked_at = now, cs_server_time_ms = server_time, cs_local_time_ms = local_time,
       cs_is_uncertain = (\<not> ok), cs_recalibration_attempts = 0, cs_source = source,
       cs_alert = (if \<not> ok then Some ''clock skew outside configured tolerance'' else None)\<rparr>)"

definition clock_check ::
    "adapter_config \<Rightarrow> datetime \<Rightarrow> int option \<Rightarrow> int option \<Rightarrow> clock_status" where
  "clock_check config now server_time local_time =
     (case (server_time, local_time) of
        (Some s, Some l) \<Rightarrow>
          status_from_offset config now (s - l) 0 server_time local_time ''direct_check''
      | _ \<Rightarrow>
          \<lparr>cs_offset_ms = 0, cs_round_trip_ms = 0, cs_is_within_tolerance = False,
           cs_checked_at = now, cs_server_time_ms = server_time, cs_local_time_ms = local_time,
           cs_is_uncertain = True, cs_recalibration_attempts = 0,
           cs_source = ''missing_reference'',
           cs_alert = Some ''server time reference unavailable''\<rparr>)"

definition sample_server_time :: "int \<Rightarrow> int \<Rightarrow> int \<Rightarrow> server_time_sample" where
  "sample_server_time server_time local_time round_trip =
     \<lparr>sts_server_time_ms = server_time, sts_local_time_ms = local_time,
      sts_round_trip_ms = round_trip\<rparr>"

definition half_trunc :: "int \<Rightarrow> int" where
  "half_trunc x = (if 0 \<le> x then x div 2 else - ((- x) div 2))"

definition check_sample :: "adapter_config \<Rightarrow> datetime \<Rightarrow> server_time_sample \<Rightarrow> clock_status" where
  "check_sample config now sample =
     (let adjusted_local = sts_local_time_ms sample + half_trunc (sts_round_trip_ms sample);
          offset_ms = sts_server_time_ms sample - adjusted_local
      in status_from_offset config now offset_ms (sts_round_trip_ms sample)
           (Some (sts_server_time_ms sample)) (Some (sts_local_time_ms sample))
           ''server_time_sample'')"

text \<open>\<open>min(xs, key=...)\<close>: the first element with the least key.\<close>

fun min_by :: "('a \<Rightarrow> 'k::linorder) \<Rightarrow> 'a \<Rightarrow> 'a list \<Rightarrow> 'a" where
  "min_by key best [] = best"
| "min_by key best (x # xs) = min_by key (if key x < key best then x else best) xs"

definition status_key :: "clock_status \<Rightarrow> int \<times> int" where
  "status_key s = (\<bar>cs_offset_ms s\<bar>, cs_round_trip_ms s)"

text \<open>
  The sampling loop: \<open>fetch i\<close> is the transport's answer at attempt \<open>i\<close>, read at time \<open>now i\<close>;
  \<open>statuses\<close> collects the statuses of the failed attempts.
\<close>

function recalibrate_loop ::
    "adapter_config \<Rightarrow> (int \<Rightarrow> datetime) \<Rightarrow> (int \<Rightarrow> server_time_sample) \<Rightarrow> int \<Rightarrow> int
      \<Rightarrow> server_time_sample list \<Rightarrow> clock_status list \<Rightarrow> calibration_result result" where
  "recalibrate_loop config now fetch max_attempts attempt samples statuses =
     (if attempt \<le> max_attempts then
        (let sample = fetch attempt;
             status = (check_sample config (now attempt) sample)
               \<lparr>cs_recalibration_attempts := attempt, cs_source := ''recalibration''\<rparr>;
             samples' = samples @ [sample];
             statuses' = statuses @ [status]
         in if cs_is_within_tolerance status then
              Inr \<lparr>cal_final_status = status, cal_samples = samples',
                   cal_alerts = (if 1 < attempt
                     then [''clock recalibrated after '' @ int_str attempt @ '' attempt(s)'']
                     else [])\<rparr>
            else recalibrate_loop config now fetch max_attempts (attempt + 1) samples' statuses')
      else
        (case statuses of
           [] \<Rightarrow> Inl (ValueError ''min() arg is an empty sequence'')
         | s # ss \<Rightarrow>
             Inr \<lparr>cal_final_status = (min_by status_key s ss)
                    \<lparr>cs_is_within_tolerance := False, cs_is_uncertain := True,
                     cs_recalibration_attempts := max_attempts, cs_source := ''recalibration'',
                     cs_alert := Some ''time sync uncertain after recalibration attempts''\<rparr>,
                  cal_samples = samples,
                  cal_alerts = [''clock remained outside tolerance after '' @ int_str max_attempts
                    @ '' attempt(s)'']\<rparr>))"
  by pat_completeness auto
termination
  by (relation "measure (\<lambda>(c, n, f, m, a, ss, st). nat (m + 1 - a))") auto

declare recalibrate_loop.simps [simp del]

definition recalibrate ::
    "adapter_config \<Rightarrow> (int \<Rightarrow> datetime) \<Rightarrow> (int \<Rightarrow> server_time_sample) \<Rightarrow> int
      \<Rightarrow> calibration_result result" where
  "recalibrate config now fetch max_attempts =
     recalibrate_loop config now fetch max_attempts 1 [] []"

definition recalibrate_if_needed ::
    "adapter_config \<Rightarrow> (int \<Rightarrow> datetime) \<Rightarrow> (int \<Rightarrow> server_time_sample) \<Rightarrow> int \<Rightarrow> clock_status
      \<Rightarrow> calibration_result option result" where
  "recalibrate_if_needed config now fetch max_attempts current =
     (if cs_is_within_tolerance current \<and> \<not> cs_is_uncertain current then Inr None
      else r_bind (recalibrate config now fetch max_attempts) (\<lambda>r. Inr (Some r)))"

section \<open>Facts: precision and back-off\<close>

lemma trunc_int_nonneg: "0 \<le> x \<Longrightarrow> trunc_int x = \<lfloor>x\<rfloor>"
  by (simp add: trunc_int_def)

text \<open>
  When the quotient and the product need no rounding, the snapped value is the largest multiple of
  the increment that does not exceed the value.
\<close>

lemma snap_exact:
  assumes inc: "0 < increment" and v: "0 < v"
    and q: "dround (dec_val v / dec_val increment) = dec_val v / dec_val increment"
    and p: "dround (of_int \<lfloor>dec_val v / dec_val increment\<rfloor> * dec_val increment)
      = of_int \<lfloor>dec_val v / dec_val increment\<rfloor> * dec_val increment"
  shows "\<exists>r. snap_to_increment v increment = Inr r \<and>
    dec_val r = of_int \<lfloor>dec_val v / dec_val increment\<rfloor> * dec_val increment \<and>
    0 \<le> r \<and> r \<le> v \<and> dec_val v < dec_val r + dec_val increment"
proof -
  let ?n = "\<lfloor>dec_val v / dec_val increment\<rfloor>"
  have pos: "0 < dec_val increment" "0 < dec_val v"
    using inc v by (simp_all add: less_decimal_def)
  have ne: "increment \<noteq> 0" using inc by auto
  have eq: "snap_to_increment v increment = Inr (Dec (of_int ?n) * increment)"
  proof -
    have "trunc_int (dec_val (Dec (dround (dec_val v / dec_val increment)))) = ?n"
      unfolding decimal.sel q using pos by (intro trunc_int_nonneg) simp
    then show ?thesis
      using inc v by (simp only: snap_to_increment_def dec_div_Inr [OF ne] r_bind_simps not_le [symmetric]
          if_False)
  qed
  have val: "dec_val (Dec (of_int ?n) * increment) = of_int ?n * dec_val increment"
    using p by simp
  have n0: "0 \<le> ?n" using pos by simp
  have le: "of_int ?n * dec_val increment \<le> dec_val v"
    using of_int_floor_le [of "dec_val v / dec_val increment"]
    by (simp only: pos_le_divide_eq [OF pos(1)])
  have "dec_val v / dec_val increment < of_int ?n + 1" by linarith
  then have lt: "dec_val v < of_int ?n * dec_val increment + dec_val increment"
    by (simp only: pos_divide_less_eq [OF pos(1)] distrib_right mult_1)
  show ?thesis
  proof (intro exI conjI)
    show "0 \<le> Dec (of_int ?n) * increment" "Dec (of_int ?n) * increment \<le> v"
      unfolding less_eq_decimal_def val using n0 pos le by simp_all
    show "dec_val v < dec_val (Dec (of_int ?n) * increment) + dec_val increment"
      unfolding val by (rule lt)
  qed (rule eq val)+
qed

lemma snap_error: "increment \<le> 0 \<Longrightarrow> snap_to_increment v increment = Inl (ValueError ''increment must be positive'')"
  by (simp add: snap_to_increment_def)

lemma backoff_bounds:
  assumes "exponential_backoff_seconds n base cap jitter rnd = Inr r"
    and "\<And>a b. a \<le> b \<Longrightarrow> a \<le> rnd a b \<and> rnd a b \<le> b"
  shows "0 \<le> r \<and> (0 \<le> cap \<longrightarrow> r \<le> cap)"
proof -
  let ?m = "min cap (base * 2 ^ nat (max 0 n))"
  have "r = 0 \<or> 0 < ?m \<and> (r = ?m \<or> r = rnd 0 ?m)"
    using assms(1) by (auto simp: exponential_backoff_seconds_def Let_def not_le split: if_splits)
  then consider "r = 0" | "0 < ?m" "r = ?m" | "0 < ?m" "r = rnd 0 ?m" by blast
  then show ?thesis
  proof cases
    case 3
    then have "0 \<le> r" "r \<le> ?m" using assms(2) [OF less_imp_le [OF 3(1)]] by simp_all
    then show ?thesis by simp
  qed auto
qed

lemma backoff_monotone:
  assumes "0 \<le> base" and "m \<le> n" and "n < 1024" and "jitter \<noteq> ''full''"
  shows "\<exists>a b. exponential_backoff_seconds m base cap jitter rnd = Inr a \<and>
    exponential_backoff_seconds n base cap jitter rnd = Inr b \<and> a \<le> b"
proof -
  have "(2::rat) ^ nat (max 0 m) \<le> 2 ^ nat (max 0 n)"
    using assms(2) by (intro power_increasing) auto
  then have "base * 2 ^ nat (max 0 m) \<le> base * 2 ^ nat (max 0 n)"
    using assms(1) by (rule mult_left_mono)
  then show ?thesis
    using assms(2-4) by (auto simp: exponential_backoff_seconds_def Let_def min_le_iff_disj)
qed

section \<open>Facts: endpoint isolation\<close>

lemma resolve_Inr:
  "resolve_endpoint_profile name = Inr p \<Longrightarrow>
     ep_name p = name \<and>
     (name = ''binance_spot_prod'' \<and> ep_allowed_rest_hosts p = [''api.binance.com''] \<and>
        ep_allowed_websocket_hosts p = [''stream.binance.com''] \<or>
      name = ''binance_spot_testnet'' \<and> ep_allowed_rest_hosts p = [''testnet.binance.vision''] \<and>
        ep_allowed_websocket_hosts p = [''stream.testnet.binance.vision''])"
  by (auto simp: resolve_endpoint_profile_def profiles_def split: if_splits)

lemma validate_profile_hosts:
  assumes "validate_endpoint_profile hostname config = Inr p"
  shows "ep_name p = cfg_endpoint_profile_name config"
    and "str_lower (py_or (hostname (cfg_rest_base_url config)) []) \<in> set (ep_allowed_rest_hosts p)"
    and "str_lower (py_or (hostname (cfg_websocket_base_url config)) [])
      \<in> set (ep_allowed_websocket_hosts p)"
  using assms
  by (auto simp: validate_endpoint_profile_def r_bind_Inr Let_def dest: resolve_Inr
      split: if_splits)

section \<open>The weight budget as an interface\<close>

text \<open>
  A client reserves weight before each request. Within one window the granted weights add up, and
  the total never exceeds the capacity.
\<close>

fun reserve_all :: "('s \<Rightarrow> 'r \<Rightarrow> bool \<times> 's) \<Rightarrow> ('r \<Rightarrow> int) \<Rightarrow> 's \<Rightarrow> 'r list \<Rightarrow> int \<times> 's" where
  "reserve_all reserve weight s [] = (0, s)"
| "reserve_all reserve weight s (r # rs) =
     (let (granted, s') = reserve s r; (total, s'') = reserve_all reserve weight s' rs
      in ((if granted then weight r else 0) + total, s''))"

locale weight_budget =
  fixes reserve :: "'s \<Rightarrow> 'r \<Rightarrow> bool \<times> 's"
    and weight :: "'r \<Rightarrow> int"
    and used :: "'s \<Rightarrow> int"
    and cap :: "'s \<Rightarrow> int"
    and in_window :: "'s \<Rightarrow> 'r \<Rightarrow> bool"
  assumes grant: "in_window s r \<Longrightarrow> reserve s r = (True, s') \<Longrightarrow>
      used s' = used s + weight r \<and> used s' \<le> cap s"
    and deny: "in_window s r \<Longrightarrow> reserve s r = (False, s') \<Longrightarrow>
      used s' = used s \<and> cap s < used s + weight r"
    and keeps_cap: "reserve s r = (b, s') \<Longrightarrow> cap s' = cap s"
    and keeps_window: "in_window s r \<Longrightarrow> reserve s r = (b, s') \<Longrightarrow> in_window s' q = in_window s q"
begin

lemma granted_total:
  assumes "reserve_all reserve weight s rs = (tot, s')" and "\<forall>r\<in>set rs. in_window s r"
    and "used s \<le> cap s"
  shows "used s' = used s + tot \<and> used s' \<le> cap s"
  using assms
proof (induction rs arbitrary: s tot)
  case Nil
  then show ?case by simp
next
  case (Cons r rs)
  obtain b u where step: "reserve s r = (b, u)" by (cases "reserve s r")
  obtain t where rest: "reserve_all reserve weight u rs = (t, s')"
    and tot: "tot = (if b then weight r else 0) + t"
    using Cons.prems(1) step by (auto split: prod.splits)
  have w: "in_window s r" using Cons.prems(2) by simp
  have u: "used u = used s + (if b then weight r else 0)" "used u \<le> cap s"
  proof -
    have "used u = used s + (if b then weight r else 0) \<and> used u \<le> cap s"
    proof (cases b)
      case True
      then show ?thesis using grant [OF w, of u] step by simp
    next
      case False
      then show ?thesis using deny [OF w, of u] step Cons.prems(3) by simp
    qed
    then show "used u = used s + (if b then weight r else 0)" "used u \<le> cap s" by simp_all
  qed
  have c: "cap u = cap s" using keeps_cap [OF step] .
  have "\<forall>q\<in>set rs. in_window u q" using Cons.prems(2) keeps_window [OF w step] by simp
  from Cons.IH [OF rest this] u c tot show ?case by simp
qed

end

type_synonym weight_request = "string \<times> int \<times> datetime"

definition tracker_reserve :: "weight_tracker \<Rightarrow> weight_request \<Rightarrow> bool \<times> weight_tracker" where
  "tracker_reserve t = (\<lambda>(endpoint, weight, now).
     let (snap, t') = consume endpoint weight now t in (\<not> ws_is_throttled snap, t'))"

definition request_in_window :: "weight_tracker \<Rightarrow> weight_request \<Rightarrow> bool" where
  "request_in_window t = (\<lambda>(endpoint, weight, now).
     case wt_started t of None \<Rightarrow> False | Some s \<Rightarrow> dt_diff now s < wt_window t)"

lemma roll_window_in: "request_in_window t (e, w, now) \<Longrightarrow> roll_window now t = t"
  by (auto simp: request_in_window_def roll_window_def split: option.splits)

lemma tracker_reserve_in_window:
  assumes "request_in_window t (e, w, now)" and "tracker_reserve t (e, w, now) = (b, t')"
  shows "b = (wt_used t + w \<le> wt_max_weight t)"
    and "wt_used t' = (if b then wt_used t + w else wt_used t)"
    and "wt_max_weight t' = wt_max_weight t"
    and "wt_window t' = wt_window t" and "wt_started t' = wt_started t"
proof -
  have "(b, t') = (let (snap, u) = consume e w now t in (\<not> ws_is_throttled snap, u))"
    using assms(2) by (simp add: tracker_reserve_def)
  then have "b = (wt_used t + w \<le> wt_max_weight t)
      \<and> wt_used t' = (if b then wt_used t + w else wt_used t)
      \<and> wt_max_weight t' = wt_max_weight t \<and> wt_window t' = wt_window t
      \<and> wt_started t' = wt_started t"
    by (cases "wt_max_weight t < wt_used t + w")
      (simp_all add: consume_def roll_window_in [OF assms(1)] Let_def tracker_snapshot_def)
  then show "b = (wt_used t + w \<le> wt_max_weight t)"
    "wt_used t' = (if b then wt_used t + w else wt_used t)"
    "wt_max_weight t' = wt_max_weight t" "wt_window t' = wt_window t" "wt_started t' = wt_started t"
    by blast+
qed

lemma tracker_reserve_max: "tracker_reserve t r = (b, t') \<Longrightarrow> wt_max_weight t' = wt_max_weight t"
  by (cases r) (auto simp: tracker_reserve_def consume_def roll_window_def Let_def split: if_splits)

interpretation tracker: weight_budget tracker_reserve "\<lambda>(e, w, n). w" wt_used wt_max_weight
    request_in_window
proof unfold_locales
  fix t t' :: weight_tracker and r q :: weight_request and b
  obtain e w now where r: "r = (e, w, now)" by (cases r)
  show "tracker_reserve t r = (b, t') \<Longrightarrow> wt_max_weight t' = wt_max_weight t"
    by (rule tracker_reserve_max)
  assume "request_in_window t r"
  note win = tracker_reserve_in_window [OF this [unfolded r]]
  show "tracker_reserve t r = (True, t') \<Longrightarrow>
      wt_used t' = wt_used t + (case r of (e, w, n) \<Rightarrow> w) \<and> wt_used t' \<le> wt_max_weight t"
    using win [of True t'] by (simp add: r)
  show "tracker_reserve t r = (False, t') \<Longrightarrow>
      wt_used t' = wt_used t \<and> wt_max_weight t < wt_used t + (case r of (e, w, n) \<Rightarrow> w)"
    using win [of False t'] by (simp add: r)
  show "tracker_reserve t r = (b, t') \<Longrightarrow> request_in_window t' q = request_in_window t q"
    using win [of b t'] by (simp add: r request_in_window_def split: prod.splits option.splits)
qed

section \<open>Facts: clock calibration\<close>

lemma check_sample_tolerance:
  "cs_is_within_tolerance (check_sample c n s) \<longleftrightarrow>
     \<bar>sts_server_time_ms s - (sts_local_time_ms s + half_trunc (sts_round_trip_ms s))\<bar>
       \<le> cfg_max_clock_skew_ms c"
  by (simp add: check_sample_def status_from_offset_def Let_def)

lemma min_by_in: "min_by key b xs \<in> insert b (set xs)"
  by (induction xs arbitrary: b) auto

lemma min_by_least: "x \<in> insert b (set xs) \<Longrightarrow> key (min_by key b xs) \<le> key x"
proof (induction xs arbitrary: b x)
  case Nil
  then show ?case by simp
next
  case (Cons y ys)
  let ?b = "if key y < key b then y else b"
  have "key (min_by key ?b ys) \<le> key ?b" by (rule Cons.IH) (rule insertI1)
  moreover have "key ?b \<le> key y" "key ?b \<le> key b" by auto
  moreover have "x \<in> set ys \<Longrightarrow> key (min_by key ?b ys) \<le> key x" by (rule Cons.IH) simp
  ultimately show ?case using Cons.prems order_trans by fastforce
qed

definition sample_ok :: "adapter_config \<Rightarrow> (int \<Rightarrow> server_time_sample) \<Rightarrow> int \<Rightarrow> bool" where
  "sample_ok c fetch i \<longleftrightarrow> cs_is_within_tolerance (check_sample c (utc 0) (fetch i))"

lemma sample_ok_now: "cs_is_within_tolerance (check_sample c n (fetch i)) = sample_ok c fetch i"
  by (simp add: sample_ok_def check_sample_tolerance)

text \<open>
  The loop stops at the first sample within tolerance, having read exactly the samples up to it;
  when there is none it has read all of them.
\<close>

lemma recalibrate_loop_found:
  assumes "attempt \<le> k" and "k \<le> m" and "sample_ok c fetch k"
    and "\<forall>i. attempt \<le> i \<and> i < k \<longrightarrow> \<not> sample_ok c fetch i"
  shows "\<exists>r. recalibrate_loop c now fetch m attempt samples statuses = Inr r \<and>
    cs_is_within_tolerance (cal_final_status r) \<and> \<not> cs_is_uncertain (cal_final_status r) \<and>
    cs_recalibration_attempts (cal_final_status r) = k \<and>
    cal_samples r = samples @ map fetch [attempt..k]"
  using assms
proof (induction c now fetch m attempt samples statuses rule: recalibrate_loop.induct)
  case (1 c now fetch m attempt samples statuses)
  show ?case
  proof (cases "attempt = k")
    case True
    then show ?thesis using 1(4,3)
      by (subst recalibrate_loop.simps)
        (auto simp: Let_def sample_ok_def check_sample_def status_from_offset_def)
  next
    case False
    then have bad: "\<not> sample_ok c fetch attempt" "attempt \<le> m" "attempt + 1 \<le> k"
      using 1(2,3,5) by auto
    have "\<exists>r. recalibrate_loop c now fetch m (attempt + 1) (samples @ [fetch attempt])
        (statuses @ [(check_sample c (now attempt) (fetch attempt))
          \<lparr>cs_recalibration_attempts := attempt, cs_source := ''recalibration''\<rparr>]) = Inr r \<and>
      cs_is_within_tolerance (cal_final_status r) \<and> \<not> cs_is_uncertain (cal_final_status r) \<and>
      cs_recalibration_attempts (cal_final_status r) = k \<and>
      cal_samples r = (samples @ [fetch attempt]) @ map fetch [attempt + 1..k]"
      using bad 1(3-5) by (intro 1(1)) (auto simp: sample_ok_now)
    moreover have "[attempt..k] = attempt # [attempt + 1..k]"
      using 1(2) by (subst upto.simps) simp
    ultimately show ?thesis using bad
      by (subst recalibrate_loop.simps) (simp add: Let_def sample_ok_now)
  qed
qed

lemma recalibrate_loop_none:
  assumes "\<forall>i. attempt \<le> i \<and> i \<le> m \<longrightarrow> \<not> sample_ok c fetch i"
    and "statuses \<noteq> [] \<or> attempt \<le> m"
  shows "\<exists>r. recalibrate_loop c now fetch m attempt samples statuses = Inr r \<and>
    \<not> cs_is_within_tolerance (cal_final_status r) \<and> cs_is_uncertain (cal_final_status r) \<and>
    cal_samples r = samples @ map fetch [attempt..m]"
  using assms
proof (induction c now fetch m attempt samples statuses rule: recalibrate_loop.induct)
  case (1 c now fetch m attempt samples statuses)
  show ?case
  proof (cases "attempt \<le> m")
    case True
    then have bad: "\<not> sample_ok c fetch attempt" using 1(2) by auto
    have "\<exists>r. recalibrate_loop c now fetch m (attempt + 1) (samples @ [fetch attempt])
        (statuses @ [(check_sample c (now attempt) (fetch attempt))
          \<lparr>cs_recalibration_attempts := attempt, cs_source := ''recalibration''\<rparr>]) = Inr r \<and>
      \<not> cs_is_within_tolerance (cal_final_status r) \<and> cs_is_uncertain (cal_final_status r) \<and>
      cal_samples r = (samples @ [fetch attempt]) @ map fetch [attempt + 1..m]"
      using True bad 1(2) by (intro 1(1)) (auto simp: sample_ok_now)
    moreover have "[attempt..m] = attempt # [attempt + 1..m]"
      using True by (subst upto.simps) simp
    ultimately show ?thesis using True bad
      by (subst recalibrate_loop.simps) (simp add: Let_def sample_ok_now)
  next
    case False
    then obtain s ss where "statuses = s # ss" using 1(3) by (cases statuses) auto
    with False show ?thesis by (subst recalibrate_loop.simps) simp
  qed
qed

section \<open>Properties\<close>

definition sample_config :: "string \<Rightarrow> string \<Rightarrow> adapter_config" where
  "sample_config rest profile =
     \<lparr>cfg_rest_base_url = rest, cfg_websocket_base_url = ''wss://s'', cfg_api_key = ''k'',
      cfg_api_secret = ''s'', cfg_recv_window_ms = 5000, cfg_max_clock_skew_ms = 1000,
      cfg_allow_order_submission = True, cfg_endpoint_profile_name = profile,
      cfg_request_weight_limit_per_minute = 1200\<rparr>"

text \<open>
  Snapping rounds down onto the grid: when the quotient and the product fit 28 digits, the
  result is the largest multiple of the increment not above the value.
\<close>

theorem snap_rounds_down:
  assumes "0 < increment" and "0 < v"
    and "dround (dec_val v / dec_val increment) = dec_val v / dec_val increment"
    and "dround (of_int \<lfloor>dec_val v / dec_val increment\<rfloor> * dec_val increment)
      = of_int \<lfloor>dec_val v / dec_val increment\<rfloor> * dec_val increment"
  shows "\<exists>r. snap_to_increment v increment = Inr r \<and>
    dec_val r = of_int \<lfloor>dec_val v / dec_val increment\<rfloor> * dec_val increment \<and>
    0 \<le> r \<and> r \<le> v \<and> dec_val v < dec_val r + dec_val increment"
  using assms by (rule snap_exact)

lemma snap_rounds_down_witness:
  "\<exists>r. snap_to_increment (Dec 7) (Dec 2) = Inr r \<and> dec_val r = 6 \<and> r \<le> Dec 7"
proof -
  have q: "dround (7 / 2) = 7 / 2"
    by (rule on_grid_exact [where k = 1]) (simp add: on_grid_def)
  have f: "\<lfloor>(7 :: rat) / 2\<rfloor> = 3" by (simp add: floor_unique)
  show ?thesis using snap_rounds_down [of "Dec 2" "Dec 7"] q f by auto
qed

text \<open>
  The back-off is a non-negative time that never exceeds a non-negative cap, whatever the
  attempt, for every random source that stays in its bounds.
\<close>

theorem backoff_within_cap:
  assumes "exponential_backoff_seconds n base cap jitter rnd = Inr r"
    and "\<And>a b. a \<le> b \<Longrightarrow> a \<le> rnd a b \<and> rnd a b \<le> b"
  shows "0 \<le> r \<and> (0 \<le> cap \<longrightarrow> r \<le> cap)"
  using assms by (rule backoff_bounds)

lemma backoff_within_cap_witness:
  "exponential_backoff_seconds 7 1 30 ''full'' (\<lambda>a b. b) = Inr 30 \<and> (30 :: rat) \<le> 30"
  using backoff_within_cap [of 7 1 30 "''full''" "\<lambda>a b. b" 30]
  by (simp add: exponential_backoff_seconds_def Let_def)

text \<open>
  From attempt 1024 on the computation raises OverflowError instead of returning the cap.
\<close>

theorem backoff_overflows:
  assumes "1024 \<le> n"
  shows "exponential_backoff_seconds n base cap jitter rnd = Inl OverflowError"
  using assms by (simp add: exponential_backoff_seconds_def Let_def)

lemma backoff_overflows_witness:
  "exponential_backoff_seconds 1024 (1 / 2) 30 ''none'' (\<lambda>a b. a) = Inl OverflowError"
  by (rule backoff_overflows) simp

text \<open>
  An HTTP error is retryable exactly when there was no response at all, or it is not an
  authentication error and it is a rate limit, a clock skew or a server-side failure; authentication
  errors are never retried.
\<close>

theorem retryable_errors:
  "ce_retryable (classify_http_error pf status code msg headers) \<longleftrightarrow>
     status = None \<or>
     ce_category (classify_http_error pf status code msg headers) \<in> {RATE_LIMIT, CLOCK_SKEW} \<or>
     (ce_category (classify_http_error pf status code msg headers) \<noteq> AUTH
      \<and> opt_all (\<lambda>s. 500 \<le> s) status)"
  by (cases status) (auto simp: classify_http_error_def Let_def opt_all_def)

text \<open>
  Endpoint isolation: two configurations that both pass validation and use the same REST base
  URL have the same endpoint profile, so one URL can never serve both production and testnet; the
  same holds for the websocket base URL.
\<close>

theorem endpoint_isolation:
  assumes "validate_endpoint_profile hostname c1 = Inr p1"
    and "validate_endpoint_profile hostname c2 = Inr p2"
    and "cfg_rest_base_url c1 = cfg_rest_base_url c2 \<or>
      cfg_websocket_base_url c1 = cfg_websocket_base_url c2"
  shows "p1 = p2 \<and> cfg_endpoint_profile_name c1 = cfg_endpoint_profile_name c2"
proof -
  have r: "resolve_endpoint_profile (cfg_endpoint_profile_name c1) = Inr p1"
    "resolve_endpoint_profile (cfg_endpoint_profile_name c2) = Inr p2"
    using assms(1,2) by (auto simp: validate_endpoint_profile_def r_bind_Inr Let_def split: if_splits)
  have "cfg_endpoint_profile_name c1 = cfg_endpoint_profile_name c2"
    using assms(3) validate_profile_hosts [OF assms(1)] validate_profile_hosts [OF assms(2)]
      resolve_Inr [OF r(1)] resolve_Inr [OF r(2)] by auto
  with r show ?thesis by simp
qed

lemma endpoint_isolation_witness:
  "\<exists>p1 p2. validate_endpoint_profile
      (\<lambda>u. if u = ''https://r'' then Some ''API.binance.com'' else Some ''stream.binance.com'')
      (sample_config ''https://r'' ''binance_spot_prod'') = Inr p1 \<and>
    validate_endpoint_profile
      (\<lambda>u. if u = ''https://r'' then Some ''API.binance.com'' else Some ''stream.binance.com'')
      ((sample_config ''https://r'' ''binance_spot_prod'')\<lparr>cfg_api_key := ''other''\<rparr>) = Inr p2 \<and>
    p1 = p2"
proof -
  let ?h = "\<lambda>u. if u = ''https://r'' then Some ''API.binance.com'' else Some ''stream.binance.com''"
  let ?c = "sample_config ''https://r'' ''binance_spot_prod''"
  have l: "str_lower ''API.binance.com'' = ''api.binance.com''"
    "str_lower ''stream.binance.com'' = ''stream.binance.com''" by code_simp+
  note ev = validate_endpoint_profile_def resolve_endpoint_profile_def profiles_def
    sample_config_def py_or_def l
  obtain p1 where p1: "validate_endpoint_profile ?h ?c = Inr p1" by (auto simp: ev)
  obtain p2 where p2: "validate_endpoint_profile ?h (?c\<lparr>cfg_api_key := ''other''\<rparr>) = Inr p2"
    by (auto simp: ev)
  have "p1 = p2" using endpoint_isolation [OF p1 p2] by simp
  with p1 p2 show ?thesis by blast
qed

text \<open>
  C40. The request-weight budget holds: over any sequence of requests within one window, the granted
  weights add up exactly in the tracker, and their total never exceeds the limit.
\<close>

theorem weight_budget_kept:
  assumes "reserve_all tracker_reserve (\<lambda>(e, w, n). w) t reqs = (tot, t')"
    and "\<forall>r\<in>set reqs. request_in_window t r" and "wt_used t \<le> wt_max_weight t"
  shows "wt_used t' = wt_used t + tot \<and> wt_used t' \<le> wt_max_weight t"
  using tracker.granted_total [OF assms] .

lemma weight_budget_kept_witness:
  "\<exists>t'. reserve_all tracker_reserve (\<lambda>(e, w, n). w) ((new_tracker 10 60)\<lparr>wt_started := Some (utc 0)\<rparr>)
     [(''a'', 6, utc 1), (''a'', 6, utc 2), (''b'', 4, utc 3)] = (10, t') \<and> wt_used t' = 10"
proof -
  let ?t = "(new_tracker 10 60)\<lparr>wt_started := Some (utc 0)\<rparr>"
  let ?rs = "[(''a'', 6, utc 1), (''a'', 6, utc 2), (''b'', 4, utc 3)]"
  obtain t' where r: "reserve_all tracker_reserve (\<lambda>(e, w, n). w) ?t ?rs = (10, t')"
    by (simp add: tracker_reserve_def consume_def roll_window_def new_tracker_def tracker_snapshot_def
        Let_def)
  have "wt_used t' = 10"
    using weight_budget_kept [OF r] by (simp add: request_in_window_def new_tracker_def)
  with r show ?thesis by blast
qed

text \<open>
  Recalibration stops at the first sample within tolerance, reading no further sample, and
  reports a certain clock with that attempt number; without one it reads all the samples and reports
  an uncertain clock. With at least one attempt it never raises.
\<close>

theorem recalibration_outcome:
  "(\<forall>k. 1 \<le> k \<and> k \<le> m \<and> sample_ok c fetch k \<and> (\<forall>i. 1 \<le> i \<and> i < k \<longrightarrow> \<not> sample_ok c fetch i) \<longrightarrow>
      (\<exists>r. recalibrate c now fetch m = Inr r \<and> cs_is_within_tolerance (cal_final_status r) \<and>
         \<not> cs_is_uncertain (cal_final_status r) \<and>
         cs_recalibration_attempts (cal_final_status r) = k \<and>
         cal_samples r = map fetch [1..k])) \<and>
   ((\<forall>i. 1 \<le> i \<and> i \<le> m \<longrightarrow> \<not> sample_ok c fetch i) \<and> 1 \<le> m \<longrightarrow>
      (\<exists>r. recalibrate c now fetch m = Inr r \<and> \<not> cs_is_within_tolerance (cal_final_status r) \<and>
         cs_is_uncertain (cal_final_status r) \<and> cal_samples r = map fetch [1..m]))"
proof (intro conjI allI impI; elim conjE)
  fix k assume k: "1 \<le> k" "k \<le> m" "sample_ok c fetch k"
    "\<forall>i. 1 \<le> i \<and> i < k \<longrightarrow> \<not> sample_ok c fetch i"
  from recalibrate_loop_found [OF k, of now "[]" "[]"]
  show "\<exists>r. recalibrate c now fetch m = Inr r \<and> cs_is_within_tolerance (cal_final_status r) \<and>
         \<not> cs_is_uncertain (cal_final_status r) \<and>
         cs_recalibration_attempts (cal_final_status r) = k \<and>
         cal_samples r = map fetch [1..k]"
    unfolding recalibrate_def by simp
next
  assume m: "\<forall>i. 1 \<le> i \<and> i \<le> m \<longrightarrow> \<not> sample_ok c fetch i" "1 \<le> m"
  from recalibrate_loop_none [OF m(1), of "[]" now "[]"] m(2)
  show "\<exists>r. recalibrate c now fetch m = Inr r \<and> \<not> cs_is_within_tolerance (cal_final_status r) \<and>
         cs_is_uncertain (cal_final_status r) \<and> cal_samples r = map fetch [1..m]"
    unfolding recalibrate_def by simp
qed

lemma recalibration_outcome_witness:
  "\<exists>r. recalibrate (sample_config [] []) (\<lambda>i. utc i)
      (\<lambda>i. \<lparr>sts_server_time_ms = (if i = 1 then 9000 else 100), sts_local_time_ms = 0,
            sts_round_trip_ms = 20\<rparr>) 3 = Inr r \<and>
     cs_recalibration_attempts (cal_final_status r) = 2"
proof -
  let ?f = "\<lambda>i :: int. \<lparr>sts_server_time_ms = (if i = 1 then 9000 else 100), sts_local_time_ms = 0,
    sts_round_trip_ms = 20\<rparr>"
  have ok: "sample_ok (sample_config [] []) ?f i \<longleftrightarrow> i \<noteq> 1" for i
    by (simp add: sample_ok_def check_sample_tolerance half_trunc_def sample_config_def)
  have k: "1 \<le> (2 :: int) \<and> (2 :: int) \<le> 3 \<and> sample_ok (sample_config [] []) ?f 2 \<and>
    (\<forall>i. 1 \<le> i \<and> i < 2 \<longrightarrow> \<not> sample_ok (sample_config [] []) ?f i)"
    unfolding ok by auto
  from recalibration_outcome [of 3 "sample_config [] []" ?f "\<lambda>i. utc i", THEN conjunct1,
      THEN spec, THEN mp, OF k]
  show ?thesis by blast
qed

text \<open>
  A clock check without a server and a local time reference is never within tolerance, in any
  configuration.
\<close>

theorem clock_check_needs_reference:
  assumes "server_time = None \<or> local_time = None"
  shows "\<not> cs_is_within_tolerance (clock_check config now server_time local_time) \<and>
    cs_is_uncertain (clock_check config now server_time local_time) \<and>
    cs_alert (clock_check config now server_time local_time)
      = Some ''server time reference unavailable''"
  using assms by (auto simp: clock_check_def split: option.splits)

lemma clock_check_needs_reference_witness:
  "\<not> cs_is_within_tolerance (clock_check (sample_config [] []) (utc 0) None (Some 5))"
  using clock_check_needs_reference [of None "Some 5"] by simp

end
