(* ===== verification/Payload.thy ===== *)
theory Payload
  imports ContractsTrade
begin

text \<open>
  Raw exchange payloads: what \<open>json.loads\<close> returns, and the Python operations the adapter applies to
  it (\<open>str\<close>, \<open>int\<close>, truth value, \<open>Decimal(str(v))\<close>, \<open>dict.get\<close>). A JSON float is kept as its
  \<open>repr\<close>. Decimal's special values (NaN, Infinity) are outside the model: the parser refuses them.
\<close>

section \<open>JSON values\<close>

datatype json =
    JNull
  | JBool bool
  | JInt int
  | JFloat string
  | JStr string
  | JList "json list"
  | JObj "(string \<times> json) list"

type_synonym payload = "(string, json) dict"

definition jget :: "payload \<Rightarrow> string \<Rightarrow> json" where
  "jget p k = (case dict_get p k of None \<Rightarrow> JNull | Some v \<Rightarrow> v)"

definition jitem :: "payload \<Rightarrow> string \<Rightarrow> json result" where
  "jitem p k = (case dict_get p k of None \<Rightarrow> Inl (KeyError k) | Some v \<Rightarrow> Inr v)"

text \<open>\<open>v in (None, "")\<close>\<close>

definition absent :: "json \<Rightarrow> bool" where
  "absent v \<longleftrightarrow> v = JNull \<or> v = JStr []"

section \<open>Decimal and integer literals\<close>

definition is_digit :: "char \<Rightarrow> bool" where
  "is_digit c \<longleftrightarrow> digit_val c \<noteq> None"

definition digits_value :: "string \<Rightarrow> nat" where
  "digits_value s = foldl (\<lambda>n c. 10 * n + (case digit_val c of None \<Rightarrow> 0 | Some d \<Rightarrow> d)) 0 s"

definition parse_exponent :: "string \<Rightarrow> int option" where
  "parse_exponent s =
     (let (sg, ds) = (case s of c # cs \<Rightarrow>
            if c = CHR ''-'' then (-1, cs) else if c = CHR ''+'' then (1, cs) else (1, s)
          | [] \<Rightarrow> (1, []))
      in if ds = [] \<or> \<not> list_all is_digit ds then None else Some (sg * int (digits_value ds)))"

definition parse_unsigned :: "string \<Rightarrow> rat option" where
  "parse_unsigned u =
     (let ip = takeWhile is_digit u; r1 = dropWhile is_digit u;
          (fp, r2) = (case r1 of c # cs \<Rightarrow>
               if c = CHR ''.'' then (takeWhile is_digit cs, dropWhile is_digit cs) else ([], r1)
             | [] \<Rightarrow> ([], []));
          m = of_nat (digits_value (ip @ fp)) / 10 ^ length fp
      in if ip = [] \<and> fp = [] then None
         else (case r2 of
                 [] \<Rightarrow> Some m
               | c # cs \<Rightarrow> if c = CHR ''e'' \<or> c = CHR ''E''
                   then map_option (\<lambda>e. m * 10 powi e) (parse_exponent cs) else None))"

text \<open>\<open>Decimal(s)\<close>: exact, whatever the number of digits.\<close>

definition parse_decimal :: "string \<Rightarrow> decimal result" where
  "parse_decimal s =
     (let t = filter (\<lambda>c. c \<noteq> CHR ''_'') (str_strip s);
          v = (case t of
                 [] \<Rightarrow> None
               | c # cs \<Rightarrow> if c = CHR ''-'' then map_option uminus (parse_unsigned cs)
                   else if c = CHR ''+'' then parse_unsigned cs else parse_unsigned t)
      in case v of None \<Rightarrow> Inl InvalidOperation | Some x \<Rightarrow> Inr (Dec x))"

section \<open>Python operations on JSON values\<close>

definition hex_digit :: "nat \<Rightarrow> char" where
  "hex_digit n = (if n < 10 then char_of (48 + n) else char_of (87 + n))"

definition repr_char :: "char \<Rightarrow> char \<Rightarrow> string" where
  "repr_char quote c =
     (let n = of_char c :: nat in
      if c = quote \<or> n = 92 then [char_of (92 :: nat), c]
      else if n = 9 then [char_of (92 :: nat), CHR ''t'']
      else if n = 10 then [char_of (92 :: nat), CHR ''n'']
      else if n = 13 then [char_of (92 :: nat), CHR ''r'']
      else if n < 32 \<or> (127 \<le> n \<and> n \<le> 160) \<or> n = 173
        then [char_of (92 :: nat), CHR ''x'', hex_digit (n div 16), hex_digit (n mod 16)]
      else [c])"

definition str_repr :: "string \<Rightarrow> string" where
  "str_repr s =
     (let single = char_of (39 :: nat); double = char_of (34 :: nat);
          quote = (if single \<in> set s \<and> double \<notin> set s then double else single)
      in quote # concat (map (repr_char quote) s) @ [quote])"

function (sequential) json_repr :: "json \<Rightarrow> string" where
  "json_repr JNull = ''None''"
| "json_repr (JBool b) = (if b then ''True'' else ''False'')"
| "json_repr (JInt i) = int_str i"
| "json_repr (JFloat r) = r"
| "json_repr (JStr s) = str_repr s"
| "json_repr (JList js) = ''['' @ str_join '', '' (map json_repr js) @ '']''"
| "json_repr (JObj kvs) =
     ''{'' @ str_join '', '' (map (\<lambda>kv. str_repr (fst kv) @ '': '' @ json_repr (snd kv)) kvs) @ ''}''"
  by pat_completeness auto
termination
proof (relation "measure size", goal_cases)
  case (2 js z)
  then show ?case by (induction js) auto
next
  case (3 kvs z)
  then show ?case by (induction kvs) auto
qed simp

text \<open>\<open>str(v)\<close>\<close>

definition py_str :: "json \<Rightarrow> string" where
  "py_str v = (case v of JStr s \<Rightarrow> s | _ \<Rightarrow> json_repr v)"

definition float_value :: "string \<Rightarrow> rat option" where
  "float_value r = (case parse_decimal r of Inl e \<Rightarrow> None | Inr d \<Rightarrow> Some (dec_val d))"

definition json_truthy :: "json \<Rightarrow> bool" where
  "json_truthy v =
     (case v of
        JNull \<Rightarrow> False | JBool b \<Rightarrow> b | JInt i \<Rightarrow> i \<noteq> 0 | JFloat r \<Rightarrow> float_value r \<noteq> Some 0
      | JStr s \<Rightarrow> s \<noteq> [] | JList js \<Rightarrow> js \<noteq> [] | JObj kvs \<Rightarrow> kvs \<noteq> [])"

definition json_or :: "json \<Rightarrow> json \<Rightarrow> json" where
  "json_or a b = (if json_truthy a then a else b)"

text \<open>\<open>int(v)\<close>\<close>

definition json_int :: "json \<Rightarrow> int result" where
  "json_int v =
     (case v of
        JBool b \<Rightarrow> Inr (if b then 1 else 0)
      | JInt i \<Rightarrow> Inr i
      | JFloat r \<Rightarrow> (case float_value r of
            None \<Rightarrow> Inl (ValueError ''cannot convert float to integer'')
          | Some x \<Rightarrow> Inr (if 0 \<le> x then \<lfloor>x\<rfloor> else \<lceil>x\<rceil>))
      | JStr s \<Rightarrow> (case parse_int s of
            None \<Rightarrow> Inl (ValueError ''invalid literal for int() with base 10'')
          | Some i \<Rightarrow> Inr i)
      | _ \<Rightarrow> Inl (TypeError ''int() argument must be a string or a real number''))"

text \<open>\<open>v == -1\<close>\<close>

definition is_minus_one :: "json \<Rightarrow> bool" where
  "is_minus_one v =
     (case v of JInt i \<Rightarrow> i = -1 | JFloat r \<Rightarrow> float_value r = Some (-1) | _ \<Rightarrow> False)"

text \<open>\<open>str(exc)\<close>\<close>

definition exc_str :: "py_error \<Rightarrow> string" where
  "exc_str e =
     (case e of
        ValueError s \<Rightarrow> s | TypeError s \<Rightarrow> s | KeyError s \<Rightarrow> str_repr s | RuntimeError s \<Rightarrow> s
      | ConnectionError s \<Rightarrow> s | TimeoutError s \<Rightarrow> s | AttributeError s \<Rightarrow> s
      | InvalidOperation \<Rightarrow> ''[<class '' @ str_repr ''decimal.ConversionSyntax'' @ ''>]''
      | IndexError \<Rightarrow> ''index out of range'' | OverflowError \<Rightarrow> ''out of range'' | AssertionError \<Rightarrow> []
      | ZeroDivision \<Rightarrow> ''[<class '' @ str_repr ''decimal.DivisionByZero'' @ ''>]'')"

text \<open>
  \<open>except (ArithmeticError, KeyError, TypeError, ValueError)\<close>: the arithmetic errors are Decimal's
  signals, overflow and division by zero.
\<close>

definition payload_error :: "py_error \<Rightarrow> bool" where
  "payload_error e =
     (case e of
        ValueError s \<Rightarrow> True | TypeError s \<Rightarrow> True | KeyError s \<Rightarrow> True | InvalidOperation \<Rightarrow> True
      | OverflowError \<Rightarrow> True | ZeroDivision \<Rightarrow> True | _ \<Rightarrow> False)"

definition catching :: "(py_error \<Rightarrow> bool) \<Rightarrow> 'a result \<Rightarrow> (py_error \<Rightarrow> 'a) \<Rightarrow> 'a result" where
  "catching caught m handler =
     (case m of Inr x \<Rightarrow> Inr x | Inl e \<Rightarrow> if caught e then Inr (handler e) else Inl e)"

lemma catching_Inr:
  "catching c m h = Inr x \<longleftrightarrow> m = Inr x \<or> (\<exists>e. m = Inl e \<and> c e \<and> x = h e)"
  by (auto simp: catching_def split: sum.splits)

text \<open>
  \<open>datetime.fromtimestamp(ms / 1000, tz=UTC)\<close>, exact to the millisecond: a year outside 1 to 9999
  raises ValueError, a time outside the platform's \<open>time_t\<close> OverflowError.
\<close>

definition from_timestamp_ms :: "int \<Rightarrow> datetime result" where
  "from_timestamp_ms ms =
     (if 9223372036854775808000 \<le> ms \<or> ms < - 9223372036854775808000 then Inl OverflowError
      else if ms < - 62135596800000 \<or> 253402300800000 \<le> ms then Inl (ValueError ''year is out of range'')
      else Inr (utc (ms * 1000)))"

text \<open>\<open>_parse_event_time\<close> and \<open>_parse_optional_decimal\<close>, shared by the adapter's parsers.\<close>

definition parse_event_time :: "json \<Rightarrow> datetime option result" where
  "parse_event_time raw =
     (if absent raw then Inr None
      else catching (\<lambda>e. (case e of TypeError s \<Rightarrow> True | ValueError s \<Rightarrow> True | _ \<Rightarrow> False))
             (r_bind (json_int raw) (\<lambda>ms. r_bind (from_timestamp_ms ms) (\<lambda>t. Inr (Some t))))
             (\<lambda>e. None))"

definition parse_optional_decimal :: "json \<Rightarrow> decimal option result" where
  "parse_optional_decimal raw =
     (if absent raw then Inr None else r_bind (parse_decimal (py_str raw)) (\<lambda>d. Inr (Some d)))"

lemma parse_event_time_utc: "parse_event_time raw = Inr (Some t) \<Longrightarrow> is_utc t"
  by (auto simp: parse_event_time_def catching_Inr r_bind_Inr from_timestamp_ms_def split: if_splits)

lemma jget_simps [simp]:
  "jget [] k = JNull"
  "jget ((k', v) # p) k = (if k = k' then v else jget p k)"
  by (simp_all add: jget_def)

lemma jitem_simps [simp]:
  "jitem [] k = Inl (KeyError k)"
  "jitem ((k', v) # p) k = (if k = k' then Inr v else jitem p k)"
  by (simp_all add: jitem_def)

lemma absent_simps [simp]:
  "absent JNull" "absent (JStr s) \<longleftrightarrow> s = []" "\<not> absent (JInt i)" "\<not> absent (JBool b)"
  "\<not> absent (JFloat s)" "\<not> absent (JList js)" "\<not> absent (JObj kvs)"
  by (simp_all add: absent_def)

lemma py_str_simps [simp]:
  "py_str (JStr s) = s" "py_str (JInt i) = int_str i" "py_str (JFloat r) = r" "py_str JNull = ''None''"
  by (simp_all add: py_str_def)

lemma int_str_inj: "int_str i = int_str j \<longleftrightarrow> i = j"
  using parse_int_str by (metis option.inject)

end
