(* ===== verification/PayloadTranslator.thy ===== *)
theory PayloadTranslator
  imports Payload BinanceModels
begin

text \<open>
  \<open>app/exchanges/binance/private_payload_translator.py\<close>: raw Binance private payloads become
  canonical order states, fill events and account snapshots, or a visible malformed record. Two
  library computations are parameters, bundled as \<open>text_env\<close>: the float arithmetic of
  \<open>int(event_time.timestamp() * 1000)\<close> and the text of a Decimal made from a string.
\<close>

section \<open>Instrument ids and enumerations\<close>

definition known_quotes :: "string list" where
  "known_quotes = [''USDT'', ''USDC'', ''BTC'', ''ETH'', ''BNB'', ''KRW'', ''USD'']"

definition infer_instrument_id :: "string \<Rightarrow> symbol_mapping list \<Rightarrow> string result" where
  "infer_instrument_id venue_symbol mappings =
     (case find (\<lambda>m. sm_venue_symbol m = venue_symbol) mappings of
        Some m \<Rightarrow> Inr (sm_instrument_id m)
      | None \<Rightarrow>
          (case find (\<lambda>q. str_ends q venue_symbol \<and> length q < length venue_symbol) known_quotes of
             Some q \<Rightarrow> Inr (take (length venue_symbol - length q) venue_symbol @ ''-'' @ q)
           | None \<Rightarrow> Inl (ValueError (''unable to infer instrument_id for symbol: '' @ venue_symbol))))"

definition map_side :: "string \<Rightarrow> order_side result" where
  "map_side v =
     (if v = ''BUY'' then Inr BUY else if v = ''SELL'' then Inr SELL
      else Inl (ValueError (''unsupported order side: '' @ v)))"

definition map_order_type :: "string \<Rightarrow> order_type result" where
  "map_order_type v =
     (if v = ''MARKET'' then Inr MARKET else if v = ''LIMIT'' then Inr LIMIT
      else Inl (ValueError (''unsupported order type: '' @ v)))"

definition status_table :: "(string, order_status) dict" where
  "status_table =
     [(''NEW'', NEW), (''PARTIALLY_FILLED'', PARTIALLY_FILLED), (''FILLED'', FILLED),
      (''CANCELED'', CANCELED), (''CANCELLED'', CANCELED), (''EXPIRED'', EXPIRED),
      (''REJECTED'', REJECTED)]"

definition map_order_status :: "string \<Rightarrow> order_status result" where
  "map_order_status v =
     (case dict_get status_table v of
        Some s \<Rightarrow> Inr s
      | None \<Rightarrow> Inl (ValueError (''unsupported order status: '' @ v)))"

section \<open>The translator\<close>

record translator =
  tr_version :: string
  tr_venue :: string
  tr_scope :: string
  tr_mappings :: "symbol_mapping list"

record text_env =
  env_timestamp_ms :: "datetime \<Rightarrow> int"
  env_decimal_text :: "string \<Rightarrow> string"

definition malformed ::
    "translator \<Rightarrow> string \<Rightarrow> private_event_family \<Rightarrow> datetime option \<Rightarrow> string \<Rightarrow> payload_translation" where
  "malformed tr event_type family occurred_at message =
     \<lparr>pt_version = tr_version tr, pt_status = MALFORMED, pt_source_event_type = event_type,
      pt_family = family, pt_occurred_at = occurred_at, pt_order_state = None, pt_fill_event = None,
      pt_account_snapshot = None, pt_stream_invalidated = False, pt_alerts = [message]\<rparr>"

definition split_last :: "char \<Rightarrow> string \<Rightarrow> string" where
  "split_last c s = last (str_split c s)"

text \<open>The identity of a fill: the order and the trade id, or, without one, time, size and price.\<close>

definition fill_identity ::
    "text_env \<Rightarrow> string \<Rightarrow> json \<Rightarrow> datetime \<Rightarrow> json \<Rightarrow> json \<Rightarrow> string" where
  "fill_identity env order_id trade_id event_time last_qty last_price =
     (if \<not> absent trade_id \<and> \<not> is_minus_one trade_id then order_id @ '':'' @ py_str trade_id
      else order_id @ '':'' @ int_str (env_timestamp_ms env event_time) @ '':''
        @ env_decimal_text env (py_str last_qty) @ '':'' @ env_decimal_text env (py_str last_price))"

definition execution_type :: "payload \<Rightarrow> string" where
  "execution_type p = (case dict_get p ''x'' of None \<Rightarrow> [] | Some v \<Rightarrow> py_str v)"

definition payload_fill ::
    "text_env \<Rightarrow> translator \<Rightarrow> payload \<Rightarrow> order_state \<Rightarrow> datetime \<Rightarrow> decimal \<Rightarrow> decimal \<Rightarrow> decimal
      \<Rightarrow> fill_event" where
  "payload_fill env tr p order event_time qty price fee =
     \<lparr>fe_venue = tr_venue tr, fe_order_id = os_order_id order,
      fe_fill_id = fill_identity env (os_order_id order) (jget p ''t'') event_time
        (jget p ''l'') (jget p ''L''),
      fe_instrument_id = os_instrument_id order, fe_side = os_side order,
      fe_quantity = qty, fe_price = price, fe_fee = fee,
      fe_fee_asset = py_str (json_or (jget p ''N'')
        (JStr (split_last CHR ''-'' (os_instrument_id order)))),
      fe_occurred_at = event_time,
      fe_liquidity_role = (if json_truthy (jget p ''m'') then MAKER else TAKER)\<rparr>"

definition build_fill_event ::
    "text_env \<Rightarrow> translator \<Rightarrow> payload \<Rightarrow> order_state \<Rightarrow> datetime \<Rightarrow> fill_event option result" where
  "build_fill_event env tr p order event_time =
     r_bind (parse_optional_decimal (jget p ''l'')) (\<lambda>last_quantity.
       case last_quantity of
         None \<Rightarrow> Inr None
       | Some qty \<Rightarrow>
           if execution_type p \<noteq> ''TRADE'' \<or> qty \<le> 0 then Inr None
           else r_bind (parse_optional_decimal (jget p ''L'')) (\<lambda>last_price.
             case last_price of
               None \<Rightarrow> Inr None
             | Some price \<Rightarrow>
                 if price \<le> 0 then Inr None
                 else r_bind (parse_optional_decimal (jget p ''n'')) (\<lambda>fee.
                   r_bind (mk_fill_event (payload_fill env tr p order event_time qty price
                       (case fee of None \<Rightarrow> 0 | Some f \<Rightarrow> f)))
                     (\<lambda>f. Inr (Some f)))))"

text \<open>The \<open>try\<close> block of \<open>translate_order_execution_update\<close>.\<close>

definition execution_order_state ::
    "translator \<Rightarrow> payload \<Rightarrow> datetime \<Rightarrow> order_state result" where
  "execution_order_state tr p event_time =
     r_bind (jitem p ''s'') (\<lambda>s.
     r_bind (infer_instrument_id (py_str s) (tr_mappings tr)) (\<lambda>instrument_id.
     r_bind (jitem p ''S'') (\<lambda>side_text. r_bind (map_side (py_str side_text)) (\<lambda>side.
     r_bind (jitem p ''o'') (\<lambda>type_text. r_bind (map_order_type (py_str type_text)) (\<lambda>otype.
     r_bind (jitem p ''X'') (\<lambda>status_text. r_bind (map_order_status (py_str status_text)) (\<lambda>status.
     r_bind (jitem p ''q'') (\<lambda>q. r_bind (parse_decimal (py_str q)) (\<lambda>requested.
     r_bind (jitem p ''z'') (\<lambda>z. r_bind (parse_decimal (py_str z)) (\<lambda>filled.
       let remaining = requested - filled in
     r_bind (parse_optional_decimal (jget p ''Z'')) (\<lambda>quote_total.
     r_bind (case quote_total of
               Some t \<Rightarrow> if 0 < filled then r_bind (dec_div t filled) (\<lambda>a. Inr (Some a))
                 else if \<not> absent (jget p ''ap'')
                   then r_bind (parse_decimal (py_str (jget p ''ap''))) (\<lambda>a. Inr (Some a))
                 else Inr (Some t)
             | None \<Rightarrow> if \<not> absent (jget p ''ap'')
                 then r_bind (parse_decimal (py_str (jget p ''ap''))) (\<lambda>a. Inr (Some a))
                 else Inr None) (\<lambda>average.
     r_bind (parse_optional_decimal (jget p ''p'')) (\<lambda>price.
     r_bind (jitem p ''c'') (\<lambda>c.
       mk_order_state
         \<lparr>os_venue = tr_venue tr, os_order_id = py_str (json_or (jget p ''i'') c),
          os_client_order_id = py_str c, os_instrument_id = instrument_id, os_side = side,
          os_order_type = otype, os_status = status, os_requested_quantity = requested,
          os_filled_quantity = filled, os_remaining_quantity = remaining,
          os_last_update_time = event_time,
          os_limit_price = (if price = Some 0 then None else price),
          os_average_fill_price = average, os_reconciliation_state = None,
          os_reconciliation_detail = None\<rparr>))))))))))))))))"

definition required_fields :: "string list" where
  "required_fields = [''s'', ''S'', ''o'', ''X'', ''q'', ''z'', ''c'']"

definition translated_order ::
    "translator \<Rightarrow> datetime \<Rightarrow> order_state \<Rightarrow> fill_event option \<Rightarrow> string list \<Rightarrow> payload_translation" where
  "translated_order tr event_time order fill alerts =
     \<lparr>pt_version = tr_version tr, pt_status = TRANSLATED, pt_source_event_type = ''executionReport'',
      pt_family = ORDER_UPDATE, pt_occurred_at = Some event_time, pt_order_state = Some order,
      pt_fill_event = fill, pt_account_snapshot = None, pt_stream_invalidated = False,
      pt_alerts = alerts\<rparr>"

definition finish_execution ::
    "text_env \<Rightarrow> translator \<Rightarrow> payload \<Rightarrow> datetime \<Rightarrow> order_state \<Rightarrow> payload_translation result" where
  "finish_execution env tr p event_time order =
     r_bind (build_fill_event env tr p order event_time) (\<lambda>fill.
       Inr (translated_order tr event_time order fill
         (if fill = None \<and> execution_type p = ''TRADE''
          then [''trade execution payload did not yield a valid fill event''] else [])))"

definition translate_order_execution_update ::
    "text_env \<Rightarrow> translator \<Rightarrow> payload \<Rightarrow> payload_translation result" where
  "translate_order_execution_update env tr p =
     r_bind (parse_event_time (jget p ''E'')) (\<lambda>et.
       case et of
         None \<Rightarrow> Inr (malformed tr ''executionReport'' ORDER_UPDATE None ''missing or invalid event time'')
       | Some event_time \<Rightarrow>
           (let missing = filter (\<lambda>k. absent (jget p k)) required_fields in
            if missing \<noteq> [] then
              Inr (malformed tr ''executionReport'' ORDER_UPDATE (Some event_time)
                (''missing required executionReport fields: '' @ str_join '','' missing))
            else
              (case execution_order_state tr p event_time of
                 Inl e \<Rightarrow>
                   if payload_error e
                   then Inr (malformed tr ''executionReport'' ORDER_UPDATE (Some event_time)
                     (''invalid executionReport payload: '' @ exc_str e))
                   else Inl e
               | Inr order \<Rightarrow> finish_execution env tr p event_time order)))"

section \<open>Account and stream payloads\<close>

definition balance_entry :: "datetime \<Rightarrow> payload \<Rightarrow> asset_balance result" where
  "balance_entry event_time b =
     r_bind (jitem b ''a'') (\<lambda>a.
     r_bind (jitem b ''f'') (\<lambda>f. r_bind (parse_decimal (py_str f)) (\<lambda>free.
     r_bind (jitem b ''l'') (\<lambda>l. r_bind (parse_decimal (py_str l)) (\<lambda>locked.
       mk_asset_balance
         \<lparr>ab_asset = py_str a, ab_free = Some free, ab_locked = Some locked, ab_delta = None,
          ab_updated_at = Some event_time\<rparr>)))))"

definition json_objects :: "json list \<Rightarrow> payload list" where
  "json_objects js = List.map_filter (\<lambda>j. case j of JObj kvs \<Rightarrow> Some kvs | _ \<Rightarrow> None) js"

definition account_position_snapshot ::
    "translator \<Rightarrow> payload \<Rightarrow> datetime \<Rightarrow> account_snapshot result" where
  "account_position_snapshot tr p event_time =
     (case jget p ''B'' of
        JList (j # js) \<Rightarrow>
          r_bind (r_map (balance_entry event_time) (json_objects (j # js))) (\<lambda>balances.
            if balances = [] then Inl (ValueError ''account update contains no valid balances'')
            else mk_account_snapshot
              \<lparr>acc_venue = tr_venue tr, acc_account_scope = tr_scope tr, acc_as_of = event_time,
               acc_balances = balances, acc_source_event_type = ''outboundAccountPosition'',
               acc_translation_version = tr_version tr, acc_is_partial = False, acc_alerts = []\<rparr>)
      | _ \<Rightarrow> Inl (ValueError ''account update balances must be a non-empty list''))"

definition balance_update_snapshot ::
    "translator \<Rightarrow> payload \<Rightarrow> datetime \<Rightarrow> account_snapshot result" where
  "balance_update_snapshot tr p event_time =
     r_bind (jitem p ''a'') (\<lambda>a.
     r_bind (jitem p ''d'') (\<lambda>d. r_bind (parse_decimal (py_str d)) (\<lambda>delta.
     r_bind (mk_asset_balance
        \<lparr>ab_asset = py_str a, ab_free = None, ab_locked = None, ab_delta = Some delta,
         ab_updated_at = Some event_time\<rparr>) (\<lambda>b.
       mk_account_snapshot
         \<lparr>acc_venue = tr_venue tr, acc_account_scope = tr_scope tr, acc_as_of = event_time,
          acc_balances = [b], acc_source_event_type = ''balanceUpdate'',
          acc_translation_version = tr_version tr, acc_is_partial = True, acc_alerts = []\<rparr>))))"

definition payload_type :: "payload \<Rightarrow> string \<Rightarrow> string" where
  "payload_type p fallback = (case dict_get p ''e'' of None \<Rightarrow> fallback | Some v \<Rightarrow> py_str v)"

definition translated_account ::
    "translator \<Rightarrow> string \<Rightarrow> datetime \<Rightarrow> account_snapshot \<Rightarrow> payload_translation" where
  "translated_account tr event_type event_time snapshot =
     \<lparr>pt_version = tr_version tr, pt_status = TRANSLATED, pt_source_event_type = event_type,
      pt_family = ACCOUNT_UPDATE, pt_occurred_at = Some event_time, pt_order_state = None,
      pt_fill_event = None, pt_account_snapshot = Some snapshot, pt_stream_invalidated = False,
      pt_alerts = []\<rparr>"

definition account_update_body ::
    "translator \<Rightarrow> payload \<Rightarrow> string \<Rightarrow> datetime \<Rightarrow> payload_translation result" where
  "account_update_body tr p event_type event_time =
     (if event_type \<notin> {''outboundAccountPosition'', ''balanceUpdate''} then
        Inr (malformed tr event_type ACCOUNT_UPDATE (Some event_time)
               (''unsupported account payload type: '' @ event_type))
      else
        (case (if event_type = ''outboundAccountPosition'' then account_position_snapshot tr p event_time
               else balance_update_snapshot tr p event_time) of
           Inr snapshot \<Rightarrow> Inr (translated_account tr event_type event_time snapshot)
         | Inl e \<Rightarrow>
             if payload_error e
             then Inr (malformed tr event_type ACCOUNT_UPDATE (Some event_time)
               (''invalid '' @ event_type @ '' payload: '' @ exc_str e))
             else Inl e))"

definition translate_balance_account_update ::
    "translator \<Rightarrow> payload \<Rightarrow> payload_translation result" where
  "translate_balance_account_update tr p =
     r_bind (parse_event_time (jget p ''E'')) (\<lambda>et.
       case et of
         None \<Rightarrow> Inr (malformed tr (payload_type p ''unknown'') ACCOUNT_UPDATE None
                        ''missing or invalid account event time'')
       | Some event_time \<Rightarrow> account_update_body tr p (payload_type p ''unknown'') event_time)"

definition translate_stream_status :: "translator \<Rightarrow> payload \<Rightarrow> payload_translation result" where
  "translate_stream_status tr p =
     (let event_type = payload_type p ''unknown'' in
      r_bind (parse_event_time (jget p ''E'')) (\<lambda>et.
        Inr \<lparr>pt_version = tr_version tr, pt_status = TRANSLATED, pt_source_event_type = event_type,
             pt_family = STREAM_STATUS, pt_occurred_at = et, pt_order_state = None,
             pt_fill_event = None, pt_account_snapshot = None, pt_stream_invalidated = True,
             pt_alerts = [''private stream invalidated by '' @ event_type]\<rparr>))"

definition translate_payload ::
    "text_env \<Rightarrow> translator \<Rightarrow> payload \<Rightarrow> payload_translation result" where
  "translate_payload env tr p =
     (let event_type = payload_type p [] in
      if event_type = ''executionReport'' then translate_order_execution_update env tr p
      else if event_type \<in> {''outboundAccountPosition'', ''balanceUpdate''} then
        translate_balance_account_update tr p
      else if event_type \<in> {''listenKeyExpired'', ''eventStreamTerminated''} then
        translate_stream_status tr p
      else
        (let shown = (if event_type = [] then ''unknown'' else event_type) in
         r_bind (parse_event_time (jget p ''E'')) (\<lambda>et.
           Inr \<lparr>pt_version = tr_version tr, pt_status = IGNORED, pt_source_event_type = shown,
                pt_family = STREAM_STATUS, pt_occurred_at = et, pt_order_state = None,
                pt_fill_event = None, pt_account_snapshot = None, pt_stream_invalidated = False,
                pt_alerts = [''unsupported private payload type: '' @ shown]\<rparr>)))"

definition translate_payloads ::
    "text_env \<Rightarrow> translator \<Rightarrow> payload list \<Rightarrow> payload_translation list result" where
  "translate_payloads env tr ps = r_map (translate_payload env tr) ps"

section \<open>Facts\<close>

lemma execution_order_state_Inr:
  assumes "execution_order_state tr p t = Inr s"
  shows "valid_order s" "os_last_update_time s = t" "os_venue s = tr_venue tr"
  using assms by (auto simp: execution_order_state_def r_bind_Inr Let_def)

lemma build_fill_event_Some:
  assumes "build_fill_event env tr p order t = Inr (Some f)"
  obtains qty price fee where "f = payload_fill env tr p order t qty price fee" and "valid_fill f"
proof -
  obtain lq where lq: "parse_optional_decimal (jget p ''l'') = Inr lq"
    using assms by (auto simp: build_fill_event_def r_bind_Inr)
  with assms obtain qty where q: "lq = Some qty" "\<not> (execution_type p \<noteq> ''TRADE'' \<or> qty \<le> 0)"
    by (cases lq) (auto simp: build_fill_event_def simp del: mk_fill_event_Inr split: if_splits)
  obtain lp where lp: "parse_optional_decimal (jget p ''L'') = Inr lp"
    using assms lq q by (auto simp: build_fill_event_def r_bind_Inr)
  with assms lq q obtain price where pr: "lp = Some price" "\<not> price \<le> 0"
    by (cases lp) (auto simp: build_fill_event_def simp del: mk_fill_event_Inr split: if_splits)
  obtain fee where fee: "parse_optional_decimal (jget p ''n'') = Inr fee"
    using assms lq q lp pr by (auto simp: build_fill_event_def r_bind_Inr)
  show thesis
    by (rule that [of qty price "case fee of None \<Rightarrow> 0 | Some f \<Rightarrow> f"])
      (use assms lq q lp pr fee in \<open>auto simp: build_fill_event_def r_bind_Inr\<close>)
qed

lemma build_fill_event_Inr:
  assumes "build_fill_event env tr p order t = Inr (Some f)"
  shows "valid_fill f" "fe_order_id f = os_order_id order"
    "fe_instrument_id f = os_instrument_id order" "fe_side f = os_side order"
    "fe_fill_id f = fill_identity env (os_order_id order) (jget p ''t'') t (jget p ''l'') (jget p ''L'')"
proof -
  obtain qty price fee where "f = payload_fill env tr p order t qty price fee" "valid_fill f"
    using assms by (rule build_fill_event_Some)
  then show "valid_fill f" "fe_order_id f = os_order_id order"
    "fe_instrument_id f = os_instrument_id order" "fe_side f = os_side order"
    "fe_fill_id f = fill_identity env (os_order_id order) (jget p ''t'') t (jget p ''l'') (jget p ''L'')"
    by (simp_all add: payload_fill_def)
qed

text \<open>What a translation of an execution report carries.\<close>

definition carries_nothing :: "payload_translation \<Rightarrow> bool" where
  "carries_nothing t \<longleftrightarrow>
     pt_order_state t = None \<and> pt_fill_event t = None \<and> pt_account_snapshot t = None"

definition carries_order :: "payload_translation \<Rightarrow> bool" where
  "carries_order t \<longleftrightarrow>
     (\<exists>order. pt_order_state t = Some order \<and> valid_order order \<and> pt_account_snapshot t = None \<and>
        opt_all (\<lambda>f. valid_fill f \<and> fe_order_id f = os_order_id order \<and>
          fe_instrument_id f = os_instrument_id order \<and> fe_side f = os_side order) (pt_fill_event t))"

lemma carries_nothing_malformed [simp]: "carries_nothing (malformed tr et fam t msg)"
  "pt_status (malformed tr et fam t msg) = MALFORMED"
  "pt_stream_invalidated (malformed tr et fam t msg) = False"
  by (simp_all add: carries_nothing_def malformed_def)

lemma translate_order_outcome:
  assumes "translate_order_execution_update env tr p = Inr t"
  shows "pt_status t = MALFORMED \<and> carries_nothing t \<or> pt_status t = TRANSLATED \<and> carries_order t"
proof -
  obtain et where et: "parse_event_time (jget p ''E'') = Inr et"
    using assms by (auto simp: translate_order_execution_update_def r_bind_Inr)
  show ?thesis
  proof (cases "et = None \<or> filter (\<lambda>k. absent (jget p k)) required_fields \<noteq> []")
    case True
    with assms et show ?thesis
      by (auto simp: translate_order_execution_update_def Let_def split: option.splits if_splits)
  next
    case False
    then obtain e where e: "et = Some e" and m: "filter (\<lambda>k. absent (jget p k)) required_fields = []"
      by auto
    show ?thesis
    proof (cases "execution_order_state tr p e")
      case (Inl x)
      with assms et e m show ?thesis
        by (auto simp: translate_order_execution_update_def split: if_splits)
    next
      case (Inr order)
      with assms et e m have "finish_execution env tr p e order = Inr t"
        by (simp add: translate_order_execution_update_def)
      then obtain fill alerts where f: "build_fill_event env tr p order e = Inr fill"
        and t: "t = translated_order tr e order fill alerts"
        by (auto simp: finish_execution_def r_bind_Inr)
      have "carries_order t"
        using execution_order_state_Inr [OF Inr] build_fill_event_Inr [of env tr p order e] f t
        by (cases fill) (auto simp: carries_order_def translated_order_def opt_all_def)
      then show ?thesis using t by (simp add: translated_order_def)
    qed
  qed
qed

lemma translate_account_outcome:
  assumes "translate_balance_account_update tr p = Inr t"
  shows "carries_nothing t \<and> pt_status t = MALFORMED \<or>
    pt_status t = TRANSLATED \<and> pt_order_state t = None \<and> pt_fill_event t = None \<and>
    pt_account_snapshot t \<noteq> None"
proof -
  obtain et where et: "parse_event_time (jget p ''E'') = Inr et"
    using assms by (auto simp: translate_balance_account_update_def r_bind_Inr)
  show ?thesis
  proof (cases et)
    case None
    with assms et show ?thesis by (auto simp: translate_balance_account_update_def)
  next
    case (Some e)
    with assms et have "account_update_body tr p (payload_type p ''unknown'') e = Inr t"
      by (simp add: translate_balance_account_update_def)
    then show ?thesis
      unfolding account_update_body_def
      by (auto simp: translated_account_def split: if_split_asm sum.split_asm)
  qed
qed

lemma translate_payload_outcome:
  assumes "translate_payload env tr p = Inr t"
  shows "pt_status t \<noteq> TRANSLATED \<and> carries_nothing t \<or>
    pt_status t = TRANSLATED \<and>
      (carries_order t \<or>
       pt_order_state t = None \<and> pt_fill_event t = None \<and>
         (pt_account_snapshot t \<noteq> None \<or> pt_stream_invalidated t))"
proof -
  let ?e = "payload_type p []"
  consider "?e = ''executionReport''" | "?e \<in> {''outboundAccountPosition'', ''balanceUpdate''}"
    | "?e \<in> {''listenKeyExpired'', ''eventStreamTerminated''}"
    | "?e \<notin> {''executionReport'', ''outboundAccountPosition'', ''balanceUpdate'',
         ''listenKeyExpired'', ''eventStreamTerminated''}" by blast
  then show ?thesis
  proof cases
    case 1
    with assms translate_order_outcome [of env tr p t] show ?thesis
      by (auto simp: translate_payload_def)
  next
    case 2
    with assms translate_account_outcome [of tr p t] show ?thesis
      by (auto simp: translate_payload_def)
  next
    case 3
    with assms show ?thesis
      by (auto simp: translate_payload_def translate_stream_status_def Let_def r_bind_Inr)
  next
    case 4
    with assms show ?thesis
      by (auto simp: translate_payload_def Let_def r_bind_Inr carries_nothing_def)
  qed
qed

section \<open>Properties\<close>

definition sample_report :: "string \<Rightarrow> payload" where
  "sample_report fee =
     [(''e'', JStr ''executionReport''), (''E'', JInt 1000), (''s'', JStr ''BTCUSDT''),
      (''S'', JStr ''BUY''), (''o'', JStr ''MARKET''), (''X'', JStr ''FILLED''), (''q'', JStr ''2''),
      (''z'', JStr ''2''), (''c'', JStr ''c1''), (''i'', JInt 77), (''x'', JStr ''TRADE''),
      (''l'', JStr ''2''), (''L'', JStr ''100''), (''n'', JStr fee), (''N'', JStr ''USDT''),
      (''t'', JInt 5)]"

definition sample_env :: text_env where
  "sample_env = \<lparr>env_timestamp_ms = (\<lambda>t. dt_us t div 1000), env_decimal_text = (\<lambda>s. s)\<rparr>"

definition sample_translator :: translator where
  "sample_translator =
     \<lparr>tr_version = ''v1'', tr_venue = ''binance'', tr_scope = ''spot'', tr_mappings = []\<rparr>"

lemma parse_samples:
  "parse_decimal ''2'' = Inr (Dec 2)" "parse_decimal ''100'' = Inr (Dec 100)"
  "parse_decimal ''1'' = Inr (Dec 1)" "parse_decimal ''-1'' = Inr (Dec (-1))"
  "infer_instrument_id ''BTCUSDT'' [] = Inr ''BTC-USDT''"
  "int_str 77 = ''77''"
  by code_simp+

definition reported_order :: order_state where
  "reported_order =
     \<lparr>os_venue = ''binance'', os_order_id = ''77'', os_client_order_id = ''c1'',
      os_instrument_id = ''BTC-USDT'', os_side = BUY, os_order_type = MARKET, os_status = FILLED,
      os_requested_quantity = Dec 2, os_filled_quantity = Dec 2, os_remaining_quantity = 0,
      os_last_update_time = utc 1000000, os_limit_price = None, os_average_fill_price = None,
      os_reconciliation_state = None, os_reconciliation_detail = None\<rparr>"

lemma sample_report_order:
  "execution_order_state sample_translator (sample_report fee) (utc 1000000) = Inr reported_order"
  by (simp add: reported_order_def execution_order_state_def sample_report_def sample_translator_def parse_samples
      map_side_def map_order_type_def map_order_status_def status_table_def json_or_def
      json_truthy_def parse_optional_decimal_def valid_order_def order_state_checks_def blank_def
      py_space_def)

lemma sample_report_time:
  "parse_event_time (jget (sample_report fee) ''E'') = Inr (Some (utc 1000000))"
  by (simp add: parse_event_time_def sample_report_def json_int_def from_timestamp_ms_def catching_def)

lemma sample_report_translate:
  "translate_payload env sample_translator (sample_report fee) =
     finish_execution env sample_translator (sample_report fee) (utc 1000000) reported_order"
proof -
  have "payload_type (sample_report fee) [] = ''executionReport''"
    "filter (\<lambda>k. absent (jget (sample_report fee) k)) required_fields = []"
    by (simp_all add: payload_type_def sample_report_def required_fields_def)
  then show ?thesis
    by (simp add: translate_payload_def translate_order_execution_update_def sample_report_time
        sample_report_order)
qed

lemma sample_report_fill:
  assumes "parse_decimal fee = Inr d" and "fee \<noteq> []"
  shows "build_fill_event env sample_translator (sample_report fee) reported_order (utc 1000000)
     = r_bind (mk_fill_event
         \<lparr>fe_venue = ''binance'', fe_order_id = ''77'', fe_fill_id = ''77:5'',
          fe_instrument_id = ''BTC-USDT'', fe_side = BUY, fe_quantity = Dec 2, fe_price = Dec 100,
          fe_fee = d, fe_fee_asset = ''USDT'', fe_occurred_at = utc 1000000,
          fe_liquidity_role = TAKER\<rparr>) (\<lambda>f. Inr (Some f))"
proof -
  have i: "int_str 5 = ''5''" by code_simp
  have "payload_fill env sample_translator (sample_report fee) reported_order (utc 1000000)
      (Dec 2) (Dec 100) d =
         \<lparr>fe_venue = ''binance'', fe_order_id = ''77'', fe_fill_id = ''77:5'',
          fe_instrument_id = ''BTC-USDT'', fe_side = BUY, fe_quantity = Dec 2, fe_price = Dec 100,
          fe_fee = d, fe_fee_asset = ''USDT'', fe_occurred_at = utc 1000000,
          fe_liquidity_role = TAKER\<rparr>"
    by (simp add: payload_fill_def fill_identity_def reported_order_def sample_report_def
        sample_translator_def is_minus_one_def json_or_def json_truthy_def i)
  moreover have "execution_type (sample_report fee) = ''TRADE''"
    "parse_optional_decimal (jget (sample_report fee) ''l'') = Inr (Some (Dec 2))"
    "parse_optional_decimal (jget (sample_report fee) ''L'') = Inr (Some (Dec 100))"
    "parse_optional_decimal (jget (sample_report fee) ''n'') = Inr (Some d)"
    using assms by (simp_all add: execution_type_def sample_report_def parse_optional_decimal_def
        parse_samples)
  ultimately show ?thesis by (simp add: build_fill_event_def)
qed

text \<open>
  C31. What the translator returns for any payload is of one of three kinds: not translated and
  carrying nothing (malformed or ignored, with an alert); a valid order state with, at most, a valid
  fill of that same order, instrument and side; or an account snapshot or stream invalidation without
  order data. No unvalidated order or fill reaches the runtime.
\<close>

theorem translation_outcomes:
  assumes "translate_payload env tr p = Inr t"
  shows "pt_status t \<noteq> TRANSLATED \<and> carries_nothing t \<or>
    pt_status t = TRANSLATED \<and>
      (carries_order t \<or>
       pt_order_state t = None \<and> pt_fill_event t = None \<and>
         (pt_account_snapshot t \<noteq> None \<or> pt_stream_invalidated t))"
  using assms by (rule translate_payload_outcome)

lemma sample_report_translated:
  "\<exists>t. translate_payload env sample_translator (sample_report ''1'') = Inr t \<and>
     pt_status t = TRANSLATED \<and> pt_order_state t \<noteq> None \<and>
     (\<exists>f. pt_fill_event t = Some f \<and> fe_fill_id f = ''77:5'')"
proof -
  define f where "f = \<lparr>fe_venue = ''binance'', fe_order_id = ''77'', fe_fill_id = ''77:5'',
    fe_instrument_id = ''BTC-USDT'', fe_side = BUY, fe_quantity = Dec 2, fe_price = Dec 100,
    fe_fee = Dec 1, fe_fee_asset = ''USDT'', fe_occurred_at = utc 1000000, fe_liquidity_role = TAKER\<rparr>"
  have "mk_fill_event f = Inr f"
    by (simp add: f_def valid_fill_def fill_event_checks_def blank_def py_space_def)
  then have "build_fill_event env sample_translator (sample_report ''1'') reported_order (utc 1000000)
      = Inr (Some f)"
    using sample_report_fill [OF parse_samples(3), of env] by (simp add: f_def del: mk_fill_event_Inr)
  then show ?thesis
    by (simp add: sample_report_translate finish_execution_def translated_order_def f_def)
qed

lemma translation_outcomes_witness:
  "\<exists>t. translate_payload sample_env sample_translator (sample_report ''1'') = Inr t \<and> carries_order t"
proof -
  obtain t where t: "translate_payload sample_env sample_translator (sample_report ''1'') = Inr t"
    "pt_status t = TRANSLATED" "pt_order_state t \<noteq> None"
    using sample_report_translated by blast
  from translation_outcomes [OF t(1)] t show ?thesis by auto
qed

lemma append_colon_eq:
  assumes "CHR '':'' \<notin> set a" and "CHR '':'' \<notin> set b"
  shows "a @ '':'' @ x = b @ '':'' @ y \<longleftrightarrow> a = b \<and> x = y"
proof
  assume eq: "a @ '':'' @ x = b @ '':'' @ y"
  have tw: "takeWhile (\<lambda>c. c \<noteq> CHR '':'') (u @ '':'' @ v) = u" if "CHR '':'' \<notin> set u" for u v
  proof -
    have "\<forall>c\<in>set u. c \<noteq> CHR '':''" using that by blast
    then show ?thesis by (simp add: takeWhile_append2)
  qed
  have "a = b" using arg_cong [OF eq, of "takeWhile (\<lambda>c. c \<noteq> CHR '':'')"] tw assms by simp
  with eq show "a = b \<and> x = y" by simp
qed simp

text \<open>
  Fill ids identify trades: two fills with integer trade ids have the same fill id exactly when
  they are the same trade of the same order (order ids without a colon), so deduplication by fill id
  neither merges two trades nor misses a repeated one.
\<close>

theorem fill_ids_identify_trades:
  assumes "CHR '':'' \<notin> set o1" and "CHR '':'' \<notin> set o2" and "t1 \<noteq> -1" and "t2 \<noteq> -1"
  shows "fill_identity env o1 (JInt t1) tm1 q1 p1 = fill_identity env o2 (JInt t2) tm2 q2 p2
    \<longleftrightarrow> o1 = o2 \<and> t1 = t2"
  using assms append_colon_eq [OF assms(1,2), of "int_str t1" "int_str t2"]
  by (simp add: fill_identity_def is_minus_one_def int_str_inj)

lemma fill_ids_identify_trades_witness:
  "fill_identity sample_env ''77'' (JInt 5) (utc 0) JNull JNull \<noteq> fill_identity sample_env ''77'' (JInt 6) (utc 0) JNull JNull"
  using fill_ids_identify_trades [of "''77''" "''77''" 5 6 sample_env "utc 0" JNull JNull "utc 0" JNull JNull]
  by simp

text \<open>
  Not every malformed execution report is reported as malformed: the fill event is built outside
  the guarded block, so a negative commission in an otherwise valid trade report escapes as a
  ValueError instead of the malformed record the translator's design rules promise.
\<close>

theorem bad_fee_escapes:
  "translate_payload env sample_translator (sample_report ''-1'')
     = Inl (ValueError ''fee must be non-negative'')"
proof -
  have "build_fill_event env sample_translator (sample_report ''-1'') reported_order (utc 1000000)
      = Inl (ValueError ''fee must be non-negative'')"
    by (simp add: sample_report_fill [OF parse_samples(4)] mk_fill_event_def validated_def
        fill_event_checks_def blank_def py_space_def run_checks_append
        require_non_empty_def require_aware_utc_def require_non_negative_def is_utc_def)
  then show ?thesis by (simp add: sample_report_translate finish_execution_def)
qed

end
