(* ===== verification/OrderClient.thy ===== *)
theory OrderClient
  imports PayloadTranslator ExchangeEdge LivePortfolio
begin

text \<open>
  \<open>app/exchanges/binance/order_client.py\<close>: the signed order-status lookup, its recovered order and
  fill, and the order client. The HTTP exchange, the signature, URL encoding and the clock are
  parameters (\<open>rest_env\<close>, with \<open>datetime.now(UTC)\<close> in microseconds); the transport's mutable fields are the record \<open>rest_transport\<close>. The
  protocol \<open>BinanceOrderStatusLookupTransport\<close> is the record of operations \<open>lookup_ops\<close> and the
  locale \<open>status_lookup\<close>.
\<close>

section \<open>The signed REST transport\<close>

datatype http_response =
    HttpFailed string
  | HttpOk json "int option" "(string, string) dict"

record rest_env =
  renv_http :: "string \<Rightarrow> http_response"
  renv_time_ms :: int
  renv_now :: int
  renv_urlencode :: "(string \<times> string) list \<Rightarrow> string"
  renv_sign :: "string \<Rightarrow> string \<Rightarrow> string"

record rest_transport =
  rt_config :: adapter_config
  rt_venue_symbol :: string
  rt_tracker :: "weight_tracker option"
  rt_weight_cost :: int
  rt_last_health :: "query_health option"

definition new_rest_transport ::
    "(string \<Rightarrow> string option) \<Rightarrow> adapter_config \<Rightarrow> string \<Rightarrow> weight_tracker option \<Rightarrow> int
      \<Rightarrow> rest_transport result" where
  "new_rest_transport hostname config venue_symbol tracker cost =
     r_bind (validate_endpoint_profile hostname config) (\<lambda>_.
       Inr \<lparr>rt_config = config, rt_venue_symbol = venue_symbol, rt_tracker = tracker,
            rt_weight_cost = cost, rt_last_health = None\<rparr>)"

definition normalize_status :: "string \<Rightarrow> string" where
  "normalize_status v =
     (case dict_get
        [(''NEW'', ''acknowledged''), (''PARTIALLY_FILLED'', ''partially_filled''),
         (''FILLED'', ''filled''), (''CANCELED'', ''cancelled''), (''CANCELLED'', ''cancelled''),
         (''REJECTED'', ''rejected''), (''EXPIRED'', ''expired'')] v of
        Some s \<Rightarrow> s
      | None \<Rightarrow> if v = [] then ''unknown'' else str_lower v)"

text \<open>The \<open>try\<close> block of \<open>_build_recovered_order_state\<close>.\<close>

definition recovered_order_body :: "payload \<Rightarrow> datetime \<Rightarrow> order_state result" where
  "recovered_order_body p checked_at =
     r_bind (jitem p ''symbol'') (\<lambda>sym. r_bind (infer_instrument_id (py_str sym) []) (\<lambda>instrument_id.
     r_bind (jitem p ''side'') (\<lambda>sd. r_bind (map_side (py_str sd)) (\<lambda>side.
     r_bind (jitem p ''type'') (\<lambda>ty. r_bind (map_order_type (py_str ty)) (\<lambda>otype.
     r_bind (jitem p ''status'') (\<lambda>st. r_bind (map_order_status (py_str st)) (\<lambda>status.
     r_bind (jitem p ''origQty'') (\<lambda>oq. r_bind (parse_decimal (py_str oq)) (\<lambda>requested.
     r_bind (jitem p ''executedQty'') (\<lambda>eq. r_bind (parse_decimal (py_str eq)) (\<lambda>filled.
       let remaining = requested - filled in
     r_bind (parse_optional_decimal (jget p ''price'')) (\<lambda>price.
     r_bind (parse_optional_decimal (jget p ''cummulativeQuoteQty'')) (\<lambda>quote_total.
     r_bind (case quote_total of
               Some t \<Rightarrow> if 0 < filled then r_bind (dec_div t filled) (\<lambda>a. Inr (Some a)) else Inr None
             | None \<Rightarrow> Inr None) (\<lambda>average.
     r_bind (parse_event_time (jget p ''updateTime'')) (\<lambda>update_time.
       mk_order_state
         \<lparr>os_venue = ''binance'',
          os_order_id = py_str (json_or (jget p ''orderId'') (jget p ''origClientOrderId'')),
          os_client_order_id = py_str (json_or (jget p ''origClientOrderId'') (jget p ''orderId'')),
          os_instrument_id = instrument_id, os_side = side, os_order_type = otype,
          os_status = status, os_requested_quantity = requested, os_filled_quantity = filled,
          os_remaining_quantity = remaining,
          os_last_update_time = (case update_time of None \<Rightarrow> checked_at | Some t \<Rightarrow> t),
          os_limit_price = (if price = Some 0 then None else price),
          os_average_fill_price = average, os_reconciliation_state = None,
          os_reconciliation_detail = None\<rparr>))))))))))))))))"

definition build_recovered_order_state ::
    "payload \<Rightarrow> datetime \<Rightarrow> order_state option result" where
  "build_recovered_order_state p checked_at =
     (case recovered_order_body p checked_at of
        Inr s \<Rightarrow> Inr (Some s)
      | Inl e \<Rightarrow> if payload_error e then Inr None else Inl e)"

definition build_recovered_fill_events ::
    "payload \<Rightarrow> order_state \<Rightarrow> datetime \<Rightarrow> fill_event list result" where
  "build_recovered_fill_events p order checked_at =
     (if os_status order \<noteq> FILLED \<or> os_filled_quantity order \<le> 0 then Inr []
      else (case os_average_fill_price order of
              None \<Rightarrow> Inr []
            | Some fill_price \<Rightarrow>
                if fill_price \<le> 0 then Inr []
                else r_bind (parse_event_time (jget p ''updateTime'')) (\<lambda>update_time.
                  r_bind (mk_fill_event
                    \<lparr>fe_venue = ''binance'', fe_order_id = os_order_id order,
                     fe_fill_id = os_order_id order @ '':recovered:'' @ py_str (jget p ''orderId''),
                     fe_instrument_id = os_instrument_id order, fe_side = os_side order,
                     fe_quantity = os_filled_quantity order, fe_price = fill_price, fe_fee = 0,
                     fe_fee_asset = split_last CHR ''-'' (os_instrument_id order),
                     fe_occurred_at = (case update_time of None \<Rightarrow> checked_at | Some t \<Rightarrow> t),
                     fe_liquidity_role = UNKNOWN_ROLE\<rparr>) (\<lambda>f. Inr [f]))))"

definition lookup_miss :: "string \<Rightarrow> string \<Rightarrow> string option \<Rightarrow> lookup_result" where
  "lookup_miss field val alert =
     \<lparr>lk_found = False, lk_field = field, lk_value = val, lk_source = ''signed_rest_order_lookup'',
      lk_status_summary = None, lk_alert = alert, lk_order_state = None, lk_fill_events = [],
      lk_attempt_number = 1\<rparr>"

definition lookup_health ::
    "rest_transport \<Rightarrow> string \<Rightarrow> string \<Rightarrow> status_query_state \<Rightarrow> datetime \<Rightarrow> int option \<Rightarrow> string option
      \<Rightarrow> weight_snapshot option \<Rightarrow> query_health" where
  "lookup_health st field val state checked_at http_status alert snap =
     \<lparr>qh_lookup_field = field, qh_lookup_value = val, qh_state = state, qh_checked_at = checked_at,
      qh_transport = ''signed_rest_order_lookup'', qh_http_status = http_status, qh_alert = alert,
      qh_request_weight_used = map_option ws_used_weight snap,
      qh_request_weight_limit = map_option ws_max_weight snap,
      qh_endpoint_profile_name = Some (cfg_endpoint_profile_name (rt_config st))\<rparr>"

definition signed_url :: "rest_env \<Rightarrow> adapter_config \<Rightarrow> (string \<times> string) list \<Rightarrow> string" where
  "signed_url env config query =
     (let qs = renv_urlencode env
            (query @ [(''timestamp'', int_str (renv_time_ms env)),
                      (''recvWindow'', int_str (cfg_recv_window_ms config))]);
          base = rev (dropWhile (\<lambda>c. c = CHR ''/'') (rev (cfg_rest_base_url config)))
      in base @ ''/api/v3/order?'' @ qs @ ''&signature='' @ renv_sign env (cfg_api_secret config) qs)"

text \<open>From the response on: what the payload says of the order.\<close>

definition order_endpoint :: string where
  "order_endpoint = ''/api/v3/order''"

definition finish_lookup ::
    "datetime \<Rightarrow> string \<Rightarrow> string \<Rightarrow> payload \<Rightarrow> int option \<Rightarrow> weight_snapshot option \<Rightarrow> rest_transport
      \<Rightarrow> (lookup_result \<times> rest_transport) result" where
  "finish_lookup now field val p http_status snap st =
     (let status_summary = normalize_status
            (case dict_get p ''status'' of None \<Rightarrow> [] | Some v \<Rightarrow> py_str v);
          found = (p \<noteq> [] \<and> jget p ''orderId'' \<noteq> JNull);
          alert = (if found then None else Some ''empty lookup payload'')
      in r_bind (if found then build_recovered_order_state p now else Inr None) (\<lambda>order.
         r_bind (case order of None \<Rightarrow> Inr [] | Some s \<Rightarrow> build_recovered_fill_events p s now) (\<lambda>fills.
           Inr (\<lparr>lk_found = found, lk_field = field, lk_value = val,
                 lk_source = ''signed_rest_order_lookup'',
                 lk_status_summary = (if found then Some status_summary else None), lk_alert = alert,
                 lk_order_state = order, lk_fill_events = fills, lk_attempt_number = 1\<rparr>,
                st\<lparr>rt_last_health := Some (lookup_health st field val
                     (if found then QUERY_SUCCESS else QUERY_FAILED) now http_status alert snap)\<rparr>))))"

definition failed_lookup ::
    "datetime \<Rightarrow> string \<Rightarrow> string \<Rightarrow> string \<Rightarrow> int option \<Rightarrow> weight_snapshot option \<Rightarrow> rest_transport
      \<Rightarrow> lookup_result \<times> rest_transport" where
  "failed_lookup now field val alert http_status snap st =
     (lookup_miss field val (Some alert),
      st\<lparr>rt_last_health := Some
        (lookup_health st field val QUERY_FAILED now http_status (Some alert) snap)\<rparr>)"

definition handle_response ::
    "datetime \<Rightarrow> string \<Rightarrow> string \<Rightarrow> json \<Rightarrow> int option \<Rightarrow> (string, string) dict \<Rightarrow> weight_snapshot option
      \<Rightarrow> rest_transport \<Rightarrow> (lookup_result \<times> rest_transport) result" where
  "handle_response now field val body http_status headers snap st =
     (let (observed, st') = (case rt_tracker st of
            None \<Rightarrow> (None, st)
          | Some t \<Rightarrow> (let (obs, t') = observe_response_headers headers order_endpoint now t
                       in (obs, st\<lparr>rt_tracker := Some t'\<rparr>)));
          snap' = (case observed of None \<Rightarrow> snap | Some s \<Rightarrow> Some s)
      in case body of
           JObj p \<Rightarrow>
             if dict_get p ''code'' \<noteq> None \<and> dict_get p ''msg'' \<noteq> None \<and> jget p ''status'' = JNull
             then Inr (failed_lookup now field val
               (''binance lookup error '' @ py_str (jget p ''code'') @ '': '' @ py_str (jget p ''msg''))
               http_status snap' st')
             else finish_lookup now field val p http_status snap' st'
         | _ \<Rightarrow> Inr (failed_lookup now field val ''non-object lookup payload'' http_status snap' st'))"

definition send_lookup ::
    "rest_env \<Rightarrow> string \<Rightarrow> string \<Rightarrow> (string \<times> string) list \<Rightarrow> weight_snapshot option \<Rightarrow> rest_transport
      \<Rightarrow> (lookup_result \<times> rest_transport) result" where
  "send_lookup env field val query snap st =
     (case renv_http env (signed_url env (rt_config st) query) of
        HttpFailed msg \<Rightarrow> Inr (failed_lookup (utc (renv_now env)) field val msg None snap st)
      | HttpOk body http_status headers \<Rightarrow>
          handle_response (utc (renv_now env)) field val body http_status headers snap st)"

definition perform_lookup ::
    "rest_env \<Rightarrow> string \<Rightarrow> string \<Rightarrow> (string \<times> string) list \<Rightarrow> rest_transport
      \<Rightarrow> (lookup_result \<times> rest_transport) result" where
  "perform_lookup env field val query st =
     (case rt_tracker st of
        None \<Rightarrow> send_lookup env field val query None st
      | Some t \<Rightarrow>
          (let (snap, t') = consume order_endpoint (rt_weight_cost st) (utc (renv_now env)) t;
               st' = st\<lparr>rt_tracker := Some t'\<rparr>
           in if ws_is_throttled snap then
                Inr (lookup_miss field val (ws_alert snap),
                     st'\<lparr>rt_last_health := Some (lookup_health st' field val QUERY_BLOCKED
                       (utc (renv_now env)) None (ws_alert snap) (Some snap))\<rparr>)
              else send_lookup env field val query (Some snap) st'))"

definition lookup_by_client_order_id ::
    "rest_env \<Rightarrow> string \<Rightarrow> rest_transport \<Rightarrow> (lookup_result \<times> rest_transport) result" where
  "lookup_by_client_order_id env oid st =
     perform_lookup env ''client_order_id'' oid
       [(''symbol'', rt_venue_symbol st), (''origClientOrderId'', oid)] st"

definition lookup_by_exchange_order_id ::
    "rest_env \<Rightarrow> string \<Rightarrow> rest_transport \<Rightarrow> (lookup_result \<times> rest_transport) result" where
  "lookup_by_exchange_order_id env oid st =
     perform_lookup env ''exchange_order_id'' oid
       [(''symbol'', rt_venue_symbol st), (''orderId'', oid)] st"

section \<open>The order client\<close>

record 't lookup_ops =
  lo_client :: "string \<Rightarrow> 't \<Rightarrow> (lookup_result \<times> 't) result"
  lo_exchange :: "string \<Rightarrow> 't \<Rightarrow> (lookup_result \<times> 't) result"
  lo_health :: "'t \<Rightarrow> query_health option"

definition rest_ops :: "rest_env \<Rightarrow> rest_transport lookup_ops" where
  "rest_ops env =
     \<lparr>lo_client = lookup_by_client_order_id env, lo_exchange = lookup_by_exchange_order_id env,
      lo_health = rt_last_health\<rparr>"

definition placeholder_lookup :: "string \<Rightarrow> string \<Rightarrow> string \<Rightarrow> lookup_result" where
  "placeholder_lookup field val alert =
     \<lparr>lk_found = False, lk_field = field, lk_value = val, lk_source = ''order_client_placeholder'',
      lk_status_summary = None, lk_alert = Some alert, lk_order_state = None, lk_fill_events = [],
      lk_attempt_number = 1\<rparr>"

definition lookup_order_by_client_id ::
    "'t lookup_ops option \<Rightarrow> string \<Rightarrow> 't \<Rightarrow> (lookup_result \<times> 't) result" where
  "lookup_order_by_client_id transport oid t =
     (case transport of
        None \<Rightarrow> Inr (placeholder_lookup ''client_order_id'' oid
                     ''client-order-id lookup transport not implemented'', t)
      | Some ops \<Rightarrow> lo_client ops oid t)"

definition lookup_order_by_exchange_id ::
    "'t lookup_ops option \<Rightarrow> string \<Rightarrow> 't \<Rightarrow> (lookup_result \<times> 't) result" where
  "lookup_order_by_exchange_id transport oid t =
     (case transport of
        None \<Rightarrow> Inr (placeholder_lookup ''exchange_order_id'' oid
                     ''exchange-order-id lookup transport not implemented'', t)
      | Some ops \<Rightarrow> lo_exchange ops oid t)"

definition can_submit_orders :: "adapter_config \<Rightarrow> bool" where
  "can_submit_orders config = cfg_allow_order_submission config"

definition validate_submission_readiness ::
    "adapter_config \<Rightarrow> datetime \<Rightarrow> execution_intent \<Rightarrow> client_error option" where
  "validate_submission_readiness config now intent =
     (let err = (\<lambda>category message retryable.
        Some \<lparr>ce_category = category, ce_message = message, ce_retryable = retryable,
              ce_raw_code = None, ce_http_status = None, ce_retry_after_seconds = None,
              ce_request_id = None\<rparr>)
      in if \<not> cfg_allow_order_submission config then
           err UNKNOWN ''order submission disabled by configuration'' False
         else if \<not> cs_is_within_tolerance (clock_check config now None None) then
           err CLOCK_SKEW ''clock skew outside configured tolerance'' True
         else if ei_venue intent \<noteq> ''binance'' then
           err ORDER_REJECT ''execution intent venue does not match binance'' False
         else None)"

definition plan_unknown_execution_recovery :: "string option \<Rightarrow> string option \<Rightarrow> recovery_plan" where
  "plan_unknown_execution_recovery client_order_id exchange_order_id =
     (let reqs = (if truthy client_order_id then [(''client_order_id'', the client_order_id)] else [])
            @ (if truthy exchange_order_id then [(''exchange_order_id'', the exchange_order_id)] else [])
      in \<lparr>rp_reason = ''unknown execution requires order-status recovery'',
          rp_actions = [QUERY_ORDER_STATUS, HOLD_PORTFOLIO_MUTATION, ESCALATE_OPERATOR],
          rp_lookup_requests = (if reqs = [] then [(''open_orders'', ''all'')] else reqs),
          rp_alerts = [''unknown execution recovery is scaffolded only; no transport implemented''],
          rp_trigger = NOT_REQUIRED, rp_automatic = False, rp_gap_detected = False,
          rp_resumed = False\<rparr>)"

section \<open>Facts\<close>

lemma split_last_append:
  assumes "c \<notin> set q"
  shows "split_last c (x @ c # q) = q"
proof -
  have q: "str_split c q = [q]" using assms by (induction q) auto
  have "str_split c (x @ c # q) = butlast (str_split c (x @ c # q)) @ [q]"
  proof (induction x)
    case Nil
    show ?case using q by simp
  next
    case (Cons d x)
    obtain s ss where ss: "str_split c (x @ c # q) = s # ss" by (cases "str_split c (x @ c # q)") auto
    have "ss \<noteq> []"
    proof
      assume "ss = []"
      have "c \<in> set (x @ c # q)" by simp
      moreover have "length (str_split c y) = Suc (length (filter (\<lambda>d. d = c) y))" for y
        by (induction y) (auto split: list.splits)
      ultimately show False using ss \<open>ss = []\<close> filter_empty_conv [of "\<lambda>d. d = c" "x @ c # q"]
        by (metis length_0_conv length_Cons nat.inject)
    qed
    with Cons ss show ?case by (cases "d = c") auto
  qed
  then show ?thesis by (metis last_snoc split_last_def)
qed

lemma infer_known_quote:
  assumes "infer_instrument_id v [] = Inr i"
  shows "\<exists>x q. i = x @ CHR ''-'' # q \<and> q \<in> set known_quotes"
proof -
  obtain q where q: "find (\<lambda>q. str_ends q v \<and> length q < length v) known_quotes = Some q"
    "i = take (length v - length q) v @ ''-'' @ q"
    using assms by (auto simp: infer_instrument_id_def split: option.splits)
  then have "q \<in> set known_quotes" by (auto simp: find_Some_iff)
  with q(2) show ?thesis by auto
qed

lemma known_quote_asset:
  assumes "q \<in> set known_quotes"
  shows "split_last CHR ''-'' (x @ CHR ''-'' # q) = q" "\<not> blank q"
proof -
  have "CHR ''-'' \<notin> set q" using assms by (auto simp: known_quotes_def)
  then show "split_last CHR ''-'' (x @ CHR ''-'' # q) = q" by (rule split_last_append)
  show "\<not> blank q" using assms by (auto simp: known_quotes_def blank_def py_space_def)
qed

lemma recovered_order_body_Inr:
  assumes "recovered_order_body p t = Inr s"
  shows "valid_order s" "\<exists>x q. os_instrument_id s = x @ CHR ''-'' # q \<and> q \<in> set known_quotes"
    "\<exists>u. parse_event_time (jget p ''updateTime'') = Inr u"
    "os_order_id s = py_str (json_or (jget p ''orderId'') (jget p ''origClientOrderId''))"
  using assms
  by (auto simp: recovered_order_body_def r_bind_Inr Let_def dest: infer_known_quote)

lemma build_recovered_Some:
  "build_recovered_order_state p t = Inr (Some s) \<longleftrightarrow> recovered_order_body p t = Inr s"
  by (auto simp: build_recovered_order_state_def split: sum.splits)

text \<open>Which exceptions the \<open>try\<close> block can meet: all of them are caught.\<close>

lemma parse_decimal_error: "parse_decimal s = Inl e \<Longrightarrow> e = InvalidOperation"
  by (auto simp: parse_decimal_def Let_def split: option.splits)

lemma parse_event_time_error: "parse_event_time j = Inl e \<Longrightarrow> e = OverflowError"
  by (auto simp: parse_event_time_def catching_def r_bind_Inl r_bind_Inr json_int_def
      from_timestamp_ms_def split: json.splits sum.splits if_splits option.splits)

lemma jitem_error: "jitem p k = Inl e \<Longrightarrow> e = KeyError k"
  by (auto simp: jitem_def split: option.splits)

lemma dec_div_error: "dec_div x y = Inl e \<Longrightarrow> e = ZeroDivision \<or> e = InvalidOperation"
  by (auto simp: dec_div_def split: if_splits)

lemma payload_error_simps [simp]:
  "payload_error (ValueError s)" "payload_error (KeyError s)" "payload_error InvalidOperation"
  "payload_error OverflowError" "payload_error ZeroDivision" "payload_error (TypeError s)"
  by (simp_all add: payload_error_def)

lemma run_checks_order_error: "run_checks (order_state_checks s) = Some e \<Longrightarrow> payload_error e"
  by (drule run_checks_Some)
    (auto simp: order_state_checks_def require_non_empty_def require_aware_utc_def
      require_non_negative_def require_opt_def split: option.splits if_splits)

lemma mk_order_error: "mk_order_state s = Inl e \<Longrightarrow> payload_error e"
  by (auto simp: mk_order_state_def validated_Inl run_checks_order_error)

lemma parse_optional_error: "parse_optional_decimal j = Inl e \<Longrightarrow> e = InvalidOperation"
  by (auto simp: parse_optional_decimal_def r_bind_Inl dest: parse_decimal_error split: if_splits)

lemma map_error:
  "infer_instrument_id v ms = Inl e \<Longrightarrow> payload_error e"
  "map_side v = Inl e \<Longrightarrow> payload_error e" "map_order_type v = Inl e \<Longrightarrow> payload_error e"
  "map_order_status v = Inl e \<Longrightarrow> payload_error e"
  by (auto simp: infer_instrument_id_def map_side_def map_order_type_def map_order_status_def
      split: option.splits if_splits)

definition guarded :: "'a result \<Rightarrow> bool" where
  "guarded m \<longleftrightarrow> (\<forall>e. m = Inl e \<longrightarrow> payload_error e)"

lemma guarded_bind: "guarded m \<Longrightarrow> (\<And>x. guarded (f x)) \<Longrightarrow> guarded (r_bind m f)"
  by (auto simp: guarded_def r_bind_Inl)

lemma guarded_intros:
  "guarded (Inr x)" "guarded (parse_decimal s)" "guarded (parse_event_time j)"
  "guarded (jitem p k)" "guarded (dec_div a b)" "guarded (mk_order_state st)"
  "guarded (parse_optional_decimal j)" "guarded (infer_instrument_id v ms)" "guarded (map_side v)"
  "guarded (map_order_type v)" "guarded (map_order_status v)"
  by (auto simp: guarded_def mk_order_error map_error
      dest: parse_decimal_error parse_event_time_error jitem_error dec_div_error parse_optional_error)

lemma guarded_recovered_order_body: "guarded (recovered_order_body p t)"
  unfolding recovered_order_body_def Let_def
  by (intro guarded_bind guarded_intros)
    (auto split: option.splits intro!: guarded_bind guarded_intros)

lemma build_recovered_order_total: "\<exists>s. build_recovered_order_state p t = Inr s"
  using guarded_recovered_order_body [of p t]
  by (cases "recovered_order_body p t") (auto simp: build_recovered_order_state_def guarded_def)

text \<open>What a lookup may report as recovered.\<close>

definition recovered_fill_of :: "order_state \<Rightarrow> fill_event \<Rightarrow> bool" where
  "recovered_fill_of s f \<longleftrightarrow>
     valid_fill f \<and> (\<exists>x. fe_fill_id f = os_order_id s @ '':recovered:'' @ x) \<and>
     fe_order_id f = os_order_id s \<and>
     fe_instrument_id f = os_instrument_id s \<and> fe_side f = os_side s \<and>
     fe_quantity f = os_filled_quantity s \<and> os_average_fill_price s = Some (fe_price f) \<and>
     os_status s = FILLED"

definition recovered_ok :: "lookup_result \<Rightarrow> bool" where
  "recovered_ok r \<longleftrightarrow>
     opt_all valid_order (lk_order_state r) \<and> length (lk_fill_events r) \<le> 1 \<and>
     (\<forall>f\<in>set (lk_fill_events r). \<exists>s. lk_order_state r = Some s \<and> recovered_fill_of s f)"

lemma is_recovered_id: "str_contains '':recovered:'' (a @ '':recovered:'' @ b)"
  unfolding str_contains_iff sublist_def by blast

lemma recovered_fill_events_ok:
  assumes s: "recovered_order_body p t = Inr s" and t: "is_utc t"
  shows "\<exists>fs. build_recovered_fill_events p s t = Inr fs \<and> length fs \<le> 1 \<and>
    (\<forall>f\<in>set fs. recovered_fill_of s f)"
proof (cases "os_status s \<noteq> FILLED \<or> os_filled_quantity s \<le> 0")
  case True
  then show ?thesis by (simp add: build_recovered_fill_events_def)
next
  case live: False
  show ?thesis
  proof (cases "os_average_fill_price s")
    case None
    then show ?thesis by (simp add: build_recovered_fill_events_def)
  next
    case (Some price)
    obtain u where u: "parse_event_time (jget p ''updateTime'') = Inr u"
      using recovered_order_body_Inr(3) [OF s] by blast
    have tu: "is_utc (case u of None \<Rightarrow> t | Some v \<Rightarrow> v)"
      using t u by (auto split: option.splits intro: parse_event_time_utc)
    obtain x q where iq: "os_instrument_id s = x @ CHR ''-'' # q" "q \<in> set known_quotes"
      using recovered_order_body_Inr(2) [OF s] by blast
    have v: "\<not> blank (os_order_id s)" "\<not> blank (os_instrument_id s)"
      using recovered_order_body_Inr(1) [OF s] by (auto simp: valid_order_def order_state_checks_def)
    let ?f = "\<lparr>fe_venue = ''binance'', fe_order_id = os_order_id s,
       fe_fill_id = os_order_id s @ '':recovered:'' @ py_str (jget p ''orderId''),
       fe_instrument_id = os_instrument_id s, fe_side = os_side s,
       fe_quantity = os_filled_quantity s, fe_price = price, fe_fee = 0,
       fe_fee_asset = split_last CHR ''-'' (os_instrument_id s),
       fe_occurred_at = (case u of None \<Rightarrow> t | Some v \<Rightarrow> v), fe_liquidity_role = UNKNOWN_ROLE\<rparr>"
    show ?thesis
    proof (cases "price \<le> 0")
      case True
      with Some show ?thesis by (simp add: build_recovered_fill_events_def)
    next
      case False
      have "valid_fill ?f"
        using False live tu v known_quote_asset [OF iq(2)]
        by (auto simp: valid_fill_def fill_event_checks_def iq(1) not_le blank_def py_space_def)
      then show ?thesis
        using False live Some u
        by (auto simp: build_recovered_fill_events_def recovered_fill_of_def r_bind_Inr)
    qed
  qed
qed

lemma finish_lookup_ok:
  assumes "is_utc now"
  shows "\<exists>r st'. finish_lookup now field val p hs snap st = Inr (r, st') \<and>
    lk_field r = field \<and> lk_value r = val \<and> recovered_ok r"
proof (cases "p \<noteq> [] \<and> jget p ''orderId'' \<noteq> JNull")
  case False
  then show ?thesis
    unfolding finish_lookup_def Let_def by (simp only: if_False) (simp add: recovered_ok_def opt_all_def)
next
  case True
  obtain os where os: "build_recovered_order_state p now = Inr os"
    using build_recovered_order_total by blast
  show ?thesis
  proof (cases os)
    case None
    with True os show ?thesis by (simp add: finish_lookup_def recovered_ok_def opt_all_def)
  next
    case (Some s)
    with os have body: "recovered_order_body p now = Inr s" by (simp add: build_recovered_Some)
    obtain fs where "build_recovered_fill_events p s now = Inr fs" "length fs \<le> 1"
      "\<forall>f\<in>set fs. recovered_fill_of s f"
      using recovered_fill_events_ok [OF body assms] by blast
    then show ?thesis
      using True os Some recovered_order_body_Inr(1) [OF body]
      by (simp add: finish_lookup_def recovered_ok_def opt_all_def)
  qed
qed

lemma failed_lookup_ok:
  "lk_field (fst (failed_lookup now field val al hs snap st)) = field \<and>
   lk_value (fst (failed_lookup now field val al hs snap st)) = val \<and>
   recovered_ok (fst (failed_lookup now field val al hs snap st))"
  by (simp add: failed_lookup_def lookup_miss_def recovered_ok_def opt_all_def)

definition answers :: "string \<Rightarrow> string \<Rightarrow> (lookup_result \<times> 't) result \<Rightarrow> bool" where
  "answers field val m \<longleftrightarrow>
     (\<exists>r t'. m = Inr (r, t') \<and> lk_field r = field \<and> lk_value r = val \<and> recovered_ok r)"

lemma failed_lookup_answers: "answers field val (Inr (failed_lookup now field val al hs snap st))"
  using failed_lookup_ok [of now field val al hs snap st]
  unfolding answers_def by (metis prod.collapse)

lemma handle_response_answers:
  "is_utc now \<Longrightarrow> answers field val (handle_response now field val body hs headers snap st)"
  using finish_lookup_ok [of now field val]
  unfolding handle_response_def
  by (cases body)
    (auto simp: failed_lookup_answers Let_def split: prod.splits, auto simp: answers_def)

lemma perform_lookup_answers: "answers field val (perform_lookup env field val query st)"
proof -
  have send: "answers field val (send_lookup env field val query snap u)" for snap u
    unfolding send_lookup_def
    by (auto simp: failed_lookup_answers intro: handle_response_answers split: http_response.splits)
  have miss: "answers field val (Inr (lookup_miss field val al, u))" for al and u :: rest_transport
    by (simp add: answers_def lookup_miss_def recovered_ok_def opt_all_def)
  show ?thesis
    unfolding perform_lookup_def by (auto simp: send miss Let_def split: option.splits prod.splits)
qed

section \<open>The lookup transport as an interface\<close>

text \<open>
  What recovery relies on: a lookup always returns, its result names the field and value it was asked
  for, and what it reports as recovered is a valid order and at most one fill of that order.
\<close>

locale status_lookup =
  fixes ops :: "'t lookup_ops"
  assumes client_answers: "answers ''client_order_id'' v (lo_client ops v t)"
    and exchange_answers: "answers ''exchange_order_id'' v (lo_exchange ops v t)"
begin

lemma client_lookup:
  obtains r t' where "lookup_order_by_client_id (Some ops) v t = Inr (r, t')"
    and "lk_field r = ''client_order_id''" and "lk_value r = v" and "recovered_ok r"
  using client_answers [of v t] by (auto simp: answers_def lookup_order_by_client_id_def)

lemma exchange_lookup:
  obtains r t' where "lookup_order_by_exchange_id (Some ops) v t = Inr (r, t')"
    and "lk_field r = ''exchange_order_id''" and "lk_value r = v" and "recovered_ok r"
  using exchange_answers [of v t] by (auto simp: answers_def lookup_order_by_exchange_id_def)

end

interpretation rest: status_lookup "rest_ops env" for env
  by unfold_locales
    (simp_all add: rest_ops_def lookup_by_client_order_id_def lookup_by_exchange_order_id_def
      perform_lookup_answers)

section \<open>Properties\<close>


lemma str_before_append: "c \<notin> set a \<Longrightarrow> str_before c (a @ c # x) = a"
proof -
  assume "c \<notin> set a"
  then have "\<forall>d\<in>set a. d \<noteq> c" by blast
  then show ?thesis by (simp add: str_before_def takeWhile_append2)
qed

text \<open>
  Recovered fills are recognised as such: the fill a lookup synthesises is classified as recovered
  by the portfolio translator, which reads its order id back from the fill id (for an order id without
  a colon).
\<close>

theorem recovered_fill_recognised:
  assumes "lookup_by_exchange_order_id env oid st = Inr (r, st')" and "f \<in> set (lk_fill_events r)"
    and "CHR '':'' \<notin> set (fe_order_id f)"
  shows "is_recovered_fill f \<and> recovered_fill_order_id (fe_fill_id f) = Some (fe_order_id f)"
proof -
  have "recovered_ok r"
    using rest.exchange_answers [of oid env st] assms(1) by (simp add: answers_def rest_ops_def)
  then obtain s :: order_state and x where x: "fe_fill_id f = os_order_id s @ '':recovered:'' @ x"
    and o: "fe_order_id f = os_order_id s"
    using assms(2) unfolding recovered_ok_def recovered_fill_of_def by blast
  have "str_before CHR '':'' (fe_order_id f @ '':recovered:'' @ x) = fe_order_id f"
    using str_before_append [OF assms(3), of "''recovered:'' @ x"] by simp
  then show ?thesis
    using x o is_recovered_id [of "os_order_id s" x]
    by (simp add: is_recovered_fill_def recovered_fill_order_id_def)
qed

definition sample_lookup_payload :: payload where
  "sample_lookup_payload =
     [(''symbol'', JStr ''BTCUSDT''), (''side'', JStr ''BUY''), (''type'', JStr ''MARKET''),
      (''status'', JStr ''FILLED''), (''origQty'', JStr ''2''), (''executedQty'', JStr ''2''),
      (''cummulativeQuoteQty'', JStr ''100''), (''orderId'', JInt 77)]"

definition sample_rest_env :: rest_env where
  "sample_rest_env =
     \<lparr>renv_http = (\<lambda>url. HttpOk (JObj sample_lookup_payload) (Some 200) []), renv_time_ms = 5,
      renv_now = 9, renv_urlencode = (\<lambda>q. []), renv_sign = (\<lambda>k s. ''sig'')\<rparr>"

definition sample_transport :: rest_transport where
  "sample_transport =
     \<lparr>rt_config = sample_config ''https://r'' ''binance_spot_prod'', rt_venue_symbol = ''BTCUSDT'',
      rt_tracker = None, rt_weight_cost = 4, rt_last_health = None\<rparr>"

definition sample_recovered :: order_state where
  "sample_recovered = reported_order\<lparr>os_client_order_id := ''77'', os_last_update_time := utc 9,
     os_average_fill_price := Some (Dec 50)\<rparr>"

lemma sample_recovered_body: "recovered_order_body sample_lookup_payload (utc 9) = Inr sample_recovered"
  by (simp add: recovered_order_body_def sample_lookup_payload_def parse_samples map_side_def
      map_order_type_def map_order_status_def status_table_def json_or_def json_truthy_def
      parse_optional_decimal_def dec_div_def valid_order_def order_state_checks_def blank_def
      py_space_def sample_recovered_def reported_order_def parse_event_time_def)

lemma sample_recovered_lookup:
  "\<exists>r st'. lookup_by_exchange_order_id sample_rest_env ''77'' sample_transport = Inr (r, st') \<and>
     (\<exists>f. lk_fill_events r = [f] \<and> fe_order_id f = ''77'') \<and>
     lk_status_summary r = Some ''filled'' \<and> lk_order_state r = Some sample_recovered \<and> lk_found r"
proof -
  obtain fs where fs: "build_recovered_fill_events sample_lookup_payload sample_recovered (utc 9) = Inr fs"
    "\<forall>f\<in>set fs. recovered_fill_of sample_recovered f"
    using recovered_fill_events_ok [OF sample_recovered_body] by auto
  have "fs \<noteq> []" "length fs \<le> 1"
    using fs(1) by (auto simp: build_recovered_fill_events_def sample_recovered_def reported_order_def
        r_bind_Inr)
  then obtain f where f: "fs = [f]" by (cases fs) auto
  have n: "normalize_status ''FILLED'' = ''filled''" by (simp add: normalize_status_def)
  have st: "(case dict_get sample_lookup_payload ''status'' of None \<Rightarrow> [] | Some v \<Rightarrow> py_str v) = ''FILLED''"
    "sample_lookup_payload \<noteq> [] \<and> jget sample_lookup_payload ''orderId'' \<noteq> JNull"
    "dict_get sample_lookup_payload ''code'' = None"
    by (simp_all add: sample_lookup_payload_def)
  have "build_recovered_order_state sample_lookup_payload (utc 9) = Inr (Some sample_recovered)"
    by (simp add: build_recovered_Some sample_recovered_body)
  then show ?thesis using f fs st n
    by (simp add: lookup_by_exchange_order_id_def perform_lookup_def sample_transport_def
        send_lookup_def sample_rest_env_def handle_response_def finish_lookup_def Let_def
        recovered_fill_of_def) (simp add: sample_recovered_def reported_order_def)
qed

lemma recovered_fill_recognised_witness:
  "\<exists>r st' f. lookup_by_exchange_order_id sample_rest_env ''77'' sample_transport = Inr (r, st') \<and>
     lk_fill_events r = [f] \<and> recovered_fill_order_id (fe_fill_id f) = Some ''77''"
proof -
  obtain r st' f where r: "lookup_by_exchange_order_id sample_rest_env ''77'' sample_transport
      = Inr (r, st')" "lk_fill_events r = [f]" "fe_order_id f = ''77''"
    using sample_recovered_lookup by blast
  have "recovered_fill_order_id (fe_fill_id f) = Some ''77''"
    using recovered_fill_recognised [OF r(1), of f] r(2,3) by simp
  with r show ?thesis by blast
qed

text \<open>
  No order can ever pass the submission check: with submission enabled the check calls the clock
  without references, which is never within tolerance, so readiness always reports an error.
\<close>

theorem submission_never_ready:
  "\<exists>e. validate_submission_readiness config now intent = Some e \<and>
     (cfg_allow_order_submission config \<longrightarrow> ce_category e = CLOCK_SKEW)"
  by (simp add: validate_submission_readiness_def clock_check_def Let_def)

lemma submission_never_ready_witness:
  "\<exists>e. validate_submission_readiness (sample_config [] []) (utc 0) sample_intent = Some e \<and>
     ce_category e = CLOCK_SKEW"
  using submission_never_ready [of "sample_config [] []" "utc 0" sample_intent]
  by (simp add: sample_config_def)

text \<open>
  A lookup the weight budget cannot afford is blocked before the network: the result does not
  depend on what the exchange would have answered, nothing is reported as found, and the health is
  BLOCKED with the budget's alert.
\<close>

theorem throttled_lookup_stays_local:
  assumes "rt_tracker st = Some t" and "request_in_window t (order_endpoint, rt_weight_cost st, utc (renv_now env))"
    and "wt_max_weight t < wt_used t + rt_weight_cost st"
  shows "\<exists>r st'. (\<forall>http. lookup_by_client_order_id (env\<lparr>renv_http := http\<rparr>) oid st = Inr (r, st')) \<and>
    \<not> lk_found r \<and> lk_alert r = Some (''request-weight budget exceeded before '' @ order_endpoint) \<and>
    (\<exists>h. rt_last_health st' = Some h \<and> qh_state h = QUERY_BLOCKED)"
  using assms roll_window_in [OF assms(2)]
  by (simp add: lookup_by_client_order_id_def perform_lookup_def consume_def tracker_snapshot_def
      Let_def lookup_miss_def lookup_health_def)

lemma throttled_lookup_stays_local_witness:
  "\<exists>r st'. lookup_by_client_order_id sample_rest_env ''a'' (sample_transport
      \<lparr>rt_tracker := Some ((new_tracker 3 60)\<lparr>wt_started := Some (utc 0)\<rparr>)\<rparr>) = Inr (r, st') \<and>
     \<not> lk_found r"
proof -
  let ?t = "(new_tracker 3 60)\<lparr>wt_started := Some (utc 0)\<rparr>"
  let ?st = "sample_transport\<lparr>rt_tracker := Some ?t\<rparr>"
  obtain r st' where "\<forall>http. lookup_by_client_order_id (sample_rest_env\<lparr>renv_http := http\<rparr>) ''a'' ?st
      = Inr (r, st')" "\<not> lk_found r"
    using throttled_lookup_stays_local [of ?st ?t sample_rest_env "''a''"]
    by (auto simp: sample_transport_def new_tracker_def request_in_window_def sample_rest_env_def)
  moreover have "sample_rest_env\<lparr>renv_http := renv_http sample_rest_env\<rparr> = sample_rest_env" by simp
  ultimately show ?thesis by metis
qed

end
