(* ===== verification/ReconCoordinator.thy ===== *)
theory ReconCoordinator
  imports OrderLifecycle BinanceModels
begin

text \<open>
  \<open>app/exchanges/binance/reconciliation_coordinator.py\<close>: the recovery workflow built from a
  reconciliation result and the status lookups. The method's four loops are \<open>matched_states\<close>,
  \<open>marked_orders\<close> (the second and third, which differ in their texts) and \<open>coordinate_lookup\<close> over
  the lookups grouped by value; the lists they append to are the record \<open>workflow_acc\<close>.
\<close>

section \<open>The workflow\<close>

record workflow_result =
  wr_reconciliation :: reconciliation_result
  wr_order_states :: "order_state list"
  wr_recovered_fills :: "fill_event list"
  wr_events :: "reconciliation_event list"
  wr_attempts :: "lookup_result list"
  wr_summaries :: "recovery_summary list"
  wr_alerts :: "string list"
  wr_trigger_reason :: "string option"
  wr_automatic :: bool
  wr_gap_detected :: bool
  wr_resumed :: bool
  wr_convergence :: "string option"

record workflow_acc =
  wa_order_states :: "order_state list"
  wa_recovered_fills :: "fill_event list"
  wa_events :: "reconciliation_event list"
  wa_summaries :: "recovery_summary list"
  wa_alerts :: "string list"

record coordinator =
  co_venue :: string
  co_max_attempts :: nat

definition default_coordinator :: coordinator where
  "default_coordinator = \<lparr>co_venue = ''binance'', co_max_attempts = 3\<rparr>"

definition make_order_state ::
    "coordinator \<Rightarrow> string \<Rightarrow> reconciliation_state \<Rightarrow> datetime \<Rightarrow> string \<Rightarrow> order_state result" where
  "make_order_state co oid rs occurred_at detail = mk_order_state
     \<lparr>os_venue = co_venue co, os_order_id = oid, os_client_order_id = oid,
      os_instrument_id = ''UNKNOWN'', os_side = BUY, os_order_type = MARKET, os_status = NEW,
      os_requested_quantity = 0, os_filled_quantity = 0, os_remaining_quantity = 0,
      os_last_update_time = occurred_at, os_limit_price = None, os_average_fill_price = None,
      os_reconciliation_state = Some rs, os_reconciliation_detail = Some detail\<rparr>"

definition coordinator_event ::
    "coordinator \<Rightarrow> string \<Rightarrow> reconciliation_state \<Rightarrow> datetime \<Rightarrow> string \<Rightarrow> reconciliation_event result" where
  "coordinator_event co oid rs occurred_at detail = mk_reconciliation_event
     \<lparr>re_venue = co_venue co, re_order_id = oid, re_state = rs, re_occurred_at = occurred_at,
      re_detail = detail\<rparr>"

definition matched_state :: "coordinator \<Rightarrow> datetime \<Rightarrow> workflow_acc \<Rightarrow> string \<Rightarrow> workflow_acc result" where
  "matched_state co t acc oid =
     r_bind (make_order_state co oid SUBMIT_SENT t ''submit observed or matched by reconciliation'')
       (\<lambda>s. r_bind (acknowledge s (Some oid) t) (\<lambda>(a, _).
         Inr (acc\<lparr>wa_order_states := wa_order_states acc @ [a]\<rparr>)))"

text \<open>One iteration of the unknown-execution loop, or of the missing-order loop.\<close>

definition marked_order ::
    "coordinator \<Rightarrow> datetime \<Rightarrow> reconciliation_state \<Rightarrow> string \<Rightarrow> string \<Rightarrow> workflow_acc \<Rightarrow> string
      \<Rightarrow> workflow_acc result" where
  "marked_order co t rs detail transition_detail acc oid =
     r_bind (make_order_state co oid rs t detail) (\<lambda>s0.
     r_bind (mark_recovering s0 t transition_detail rs) (\<lambda>(s, _).
     r_bind (coordinator_event co oid rs t detail) (\<lambda>e.
       Inr (acc\<lparr>wa_order_states := wa_order_states acc @ [s], wa_events := wa_events acc @ [e]\<rparr>))))"

definition unknown_order ::
    "coordinator \<Rightarrow> datetime \<Rightarrow> workflow_acc \<Rightarrow> string \<Rightarrow> workflow_acc result" where
  "unknown_order co t =
     marked_order co t UNKNOWN_EXECUTION
       ''unknown execution detected; transport convergence required''
       ''unknown execution detected; recovery started''"

definition missing_order ::
    "coordinator \<Rightarrow> datetime \<Rightarrow> workflow_acc \<Rightarrow> string \<Rightarrow> workflow_acc result" where
  "missing_order co t =
     marked_order co t STATUS_QUERY_PENDING ''status query pending for missing order update''
       ''status query pending for missing order update''"

definition group_lookups :: "lookup_result list \<Rightarrow> (string, lookup_result list) dict" where
  "group_lookups lookups = group_by lk_value lookups"

definition terminal_statuses :: "(string, order_status) dict" where
  "terminal_statuses =
     [(''filled'', FILLED), (''cancelled'', CANCELED), (''rejected'', REJECTED), (''expired'', EXPIRED)]"

definition is_terminal :: "lookup_result \<Rightarrow> bool" where
  "is_terminal l \<longleftrightarrow>
     lk_found l \<and> (case lk_status_summary l of None \<Rightarrow> False
                    | Some s \<Rightarrow> dict_get terminal_statuses s \<noteq> None)"

definition resolved_status :: "lookup_result \<Rightarrow> order_status" where
  "resolved_status l = the (dict_get terminal_statuses (the (lk_status_summary l)))"

definition opt_text :: "string option \<Rightarrow> string" where
  "opt_text s = (case s of None \<Rightarrow> ''None'' | Some t \<Rightarrow> t)"

text \<open>The branches on the attempts for one order: the state, convergence, order, fills, detail, alerts.\<close>

record lookup_outcome =
  lu_state :: reconciliation_state
  lu_convergence :: convergence_state
  lu_order :: order_state
  lu_fills :: "fill_event list"
  lu_detail :: string
  lu_alerts :: "string list"

definition terminal_outcome ::
    "datetime \<Rightarrow> nat \<Rightarrow> order_state \<Rightarrow> lookup_result \<Rightarrow> lookup_outcome result" where
  "terminal_outcome t n base l =
     (let detail = ''recovered via status lookup after '' @ nat_str n @ '' attempt(s): ''
            @ opt_text (lk_status_summary l);
          base' = (case lk_order_state l of None \<Rightarrow> base | Some s \<Rightarrow> s)
      in r_bind (resolve_recovery base' (resolved_status l) t detail) (\<lambda>(s, _).
           Inr \<lparr>lu_state = RECOVERED_TERMINAL_STATE, lu_convergence = CONVERGED_TERMINAL,
                lu_order = s, lu_fills = lk_fill_events l, lu_detail = detail, lu_alerts = []\<rparr>))"

definition lookup_outcome_of ::
    "coordinator \<Rightarrow> datetime \<Rightarrow> order_state \<Rightarrow> string \<Rightarrow> lookup_result list \<Rightarrow> lookup_outcome result" where
  "lookup_outcome_of co t base value attempts =
     (let lst = last attempts; n = length attempts in
      case find is_terminal (rev attempts) of
        Some l \<Rightarrow> terminal_outcome t n base l
      | None \<Rightarrow>
          if lk_found lst then
            Inr \<lparr>lu_state = STATUS_QUERY_PENDING, lu_convergence = CONV_PENDING, lu_order = base,
                 lu_fills = [],
                 lu_detail = ''non-terminal recovery status after '' @ nat_str n @ '' attempt(s): ''
                   @ opt_text (lk_status_summary lst),
                 lu_alerts = []\<rparr>
          else if co_max_attempts co \<le> n then
            (let detail = ''recovery unresolved after '' @ nat_str n @ '' attempt(s): ''
                   @ py_or (lk_alert lst) ''manual attention required''
             in r_bind (mark_unreconciled base t detail) (\<lambda>(s, _).
                  Inr \<lparr>lu_state = UNRECONCILED_MANUAL_ATTENTION, lu_convergence = CONV_UNRECONCILED,
                       lu_order = s, lu_fills = [], lu_detail = detail,
                       lu_alerts = [''manual attention required for '' @ lk_field lst @ ''='' @ value
                         @ '' after '' @ nat_str n @ '' attempt(s)'']\<rparr>))
          else
            Inr \<lparr>lu_state = STATUS_QUERY_PENDING, lu_convergence = CONV_PENDING, lu_order = base,
                 lu_fills = [], lu_detail = py_or (lk_alert lst) ''recovery unresolved'',
                 lu_alerts = []\<rparr>)"

definition coordinate_lookup ::
    "coordinator \<Rightarrow> datetime \<Rightarrow> workflow_acc \<Rightarrow> string \<times> lookup_result list \<Rightarrow> workflow_acc result" where
  "coordinate_lookup co t acc = (\<lambda>(value, attempts).
     r_bind (make_order_state co value STATUS_QUERY_PENDING t
               ''status lookup initiated for reconciliation recovery'') (\<lambda>s0.
     r_bind (mark_recovering s0 t ''recovery in progress'' STATUS_QUERY_PENDING) (\<lambda>(base, _).
     r_bind (lookup_outcome_of co t base value attempts) (\<lambda>u.
     r_bind (mk_order_state ((lu_order u)\<lparr>os_reconciliation_state := Some (lu_state u),
               os_reconciliation_detail := Some (lu_detail u)\<rparr>)) (\<lambda>order.
     r_bind (coordinator_event co value (lu_state u) t (lu_detail u)) (\<lambda>e.
       Inr \<lparr>wa_order_states = wa_order_states acc @ [order],
            wa_recovered_fills = wa_recovered_fills acc @ lu_fills u,
            wa_events = wa_events acc @ [e],
            wa_summaries = wa_summaries acc @
              [\<lparr>rs_order_id = value, rs_attempts = int (length attempts),
                rs_convergence = lu_convergence u,
                rs_last_field = Some (lk_field (last attempts)),
                rs_last_source = Some (lk_source (last attempts)),
                rs_terminal_status = (case find is_terminal (rev attempts) of None \<Rightarrow> None
                  | Some l \<Rightarrow> lk_status_summary l),
                rs_detail = Some (lu_detail u)\<rparr>],
            wa_alerts = wa_alerts acc @ lu_alerts u\<rparr>))))))"

definition convergence_of :: "recovery_summary list \<Rightarrow> string" where
  "convergence_of summaries =
     (if summaries = [] then ''not_required''
      else if list_ex (\<lambda>s. rs_convergence s = CONV_UNRECONCILED) summaries
        then convergence_value CONV_UNRECONCILED
      else if list_ex (\<lambda>s. rs_convergence s = CONV_PENDING) summaries
        then convergence_value CONV_PENDING
      else convergence_value CONVERGED_TERMINAL)"

definition coordinate ::
    "coordinator \<Rightarrow> reconciliation_result \<Rightarrow> lookup_result list \<Rightarrow> datetime \<Rightarrow> workflow_result result" where
  "coordinate co rr lookups t =
     r_bind (r_foldl (matched_state co t)
        \<lparr>wa_order_states = [], wa_recovered_fills = [], wa_events = [], wa_summaries = [],
         wa_alerts = rr_alerts rr\<rparr> (rr_matched rr)) (\<lambda>a1.
     r_bind (r_foldl (unknown_order co t) a1 (rr_unknown_ids rr)) (\<lambda>a2.
     r_bind (r_foldl (missing_order co t) a2 (rr_missing rr)) (\<lambda>a3.
     r_bind (r_foldl (coordinate_lookup co t) a3 (group_lookups lookups)) (\<lambda>a.
       Inr \<lparr>wr_reconciliation = rr, wr_order_states = wa_order_states a,
            wr_recovered_fills = wa_recovered_fills a, wr_events = wa_events a,
            wr_attempts = lookups, wr_summaries = wa_summaries a, wr_alerts = wa_alerts a,
            wr_trigger_reason = None, wr_automatic = False, wr_gap_detected = False,
            wr_resumed = False, wr_convergence = Some (convergence_of (wa_summaries a))\<rparr>))))"

section \<open>What the attempts on one order amount to\<close>

text \<open>The abstract verdict on the attempts for one order, and the fills it releases.\<close>

definition verdict :: "nat \<Rightarrow> lookup_result list \<Rightarrow> convergence_state" where
  "verdict max_attempts attempts =
     (if list_ex is_terminal attempts then CONVERGED_TERMINAL
      else if \<not> lk_found (last attempts) \<and> max_attempts \<le> length attempts then CONV_UNRECONCILED
      else CONV_PENDING)"

definition released_fills :: "lookup_result list \<Rightarrow> fill_event list" where
  "released_fills attempts =
     (case find is_terminal (rev attempts) of None \<Rightarrow> [] | Some l \<Rightarrow> lk_fill_events l)"

fun verdict_state :: "convergence_state \<Rightarrow> reconciliation_state" where
  "verdict_state CONVERGED_TERMINAL = RECOVERED_TERMINAL_STATE"
| "verdict_state CONV_UNRECONCILED = UNRECONCILED_MANUAL_ATTENTION"
| "verdict_state CONV_PENDING = STATUS_QUERY_PENDING"

lemma find_terminal_None: "find is_terminal (rev as) = None \<longleftrightarrow> \<not> list_ex is_terminal as"
  by (auto simp: find_None_iff list_ex_iff)

lemma find_terminal_Some: "find is_terminal (rev as) = Some l \<Longrightarrow> l \<in> set as \<and> is_terminal l"
  by (auto simp: find_Some_iff) (metis nth_mem length_rev set_rev)

lemma lookup_outcome_Inr:
  assumes "lookup_outcome_of co t base v as = Inr u"
  shows "lu_convergence u = verdict (co_max_attempts co) as"
    and "lu_fills u = released_fills as"
    and "lu_state u = verdict_state (lu_convergence u)"
    and "os_status (lu_order u) = (case find is_terminal (rev as) of Some l \<Rightarrow> resolved_status l
      | None \<Rightarrow> if lu_convergence u = CONV_UNRECONCILED then UNRECONCILED else os_status base)"
    and "lu_alerts u = [] \<longleftrightarrow> lu_convergence u \<noteq> CONV_UNRECONCILED"
proof -
  have "lu_convergence u = verdict (co_max_attempts co) as \<and> lu_fills u = released_fills as \<and>
    lu_state u = verdict_state (lu_convergence u) \<and>
    os_status (lu_order u) = (case find is_terminal (rev as) of Some l \<Rightarrow> resolved_status l
      | None \<Rightarrow> if lu_convergence u = CONV_UNRECONCILED then UNRECONCILED else os_status base) \<and>
    (lu_alerts u = [] \<longleftrightarrow> lu_convergence u \<noteq> CONV_UNRECONCILED)"
  proof (cases "find is_terminal (rev as)")
    case None
    then have "\<not> list_ex is_terminal as" using find_terminal_None [of as] by simp
    with None show ?thesis
      using assms
      by (auto simp: lookup_outcome_of_def Let_def verdict_def released_fills_def r_bind_Inr
          mark_unreconciled_def with_transition_Inr split: if_splits)
  next
    case (Some l)
    then have "list_ex is_terminal as" using find_terminal_None [of as] by simp
    with Some show ?thesis
      using assms
      by (auto simp: lookup_outcome_of_def Let_def terminal_outcome_def verdict_def
          released_fills_def r_bind_Inr resolve_recovery_def with_transition_Inr)
  qed
  then show "lu_convergence u = verdict (co_max_attempts co) as"
    "lu_fills u = released_fills as" "lu_state u = verdict_state (lu_convergence u)"
    "os_status (lu_order u) = (case find is_terminal (rev as) of Some l \<Rightarrow> resolved_status l
      | None \<Rightarrow> if lu_convergence u = CONV_UNRECONCILED then UNRECONCILED else os_status base)"
    "lu_alerts u = [] \<longleftrightarrow> lu_convergence u \<noteq> CONV_UNRECONCILED"
    by blast+
qed

definition summary_view :: "recovery_summary \<Rightarrow> string \<times> int \<times> convergence_state" where
  "summary_view s = (rs_order_id s, rs_attempts s, rs_convergence s)"

text \<open>The final order of one group: its status and reconciliation state follow from the attempts.\<close>

definition group_order_ok :: "coordinator \<Rightarrow> lookup_result list \<Rightarrow> order_state \<Rightarrow> bool" where
  "group_order_ok co as s \<longleftrightarrow>
     valid_order s \<and>
     os_reconciliation_state s = Some (verdict_state (verdict (co_max_attempts co) as)) \<and>
     os_status s = (case find is_terminal (rev as) of Some l \<Rightarrow> resolved_status l
       | None \<Rightarrow> if verdict (co_max_attempts co) as = CONV_UNRECONCILED then UNRECONCILED
                 else RECOVERING)"

lemma coordinate_lookup_Inr:
  assumes "coordinate_lookup co t acc (v, as) = Inr acc'"
  obtains s e where "group_order_ok co as s"
    and "wa_order_states acc' = wa_order_states acc @ [s]"
    and "wa_recovered_fills acc' = wa_recovered_fills acc @ released_fills as"
    and "wa_events acc' = wa_events acc @ [e]" and "re_order_id e = v"
    and "map summary_view (wa_summaries acc') = map summary_view (wa_summaries acc)
      @ [(v, int (length as), verdict (co_max_attempts co) as)]"
proof -
  obtain s0 base tr0 u s e where b: "mark_recovering s0 t ''recovery in progress'' STATUS_QUERY_PENDING
      = Inr (base, tr0)"
    and u: "lookup_outcome_of co t base v as = Inr u"
    and s: "mk_order_state ((lu_order u)\<lparr>os_reconciliation_state := Some (lu_state u),
        os_reconciliation_detail := Some (lu_detail u)\<rparr>) = Inr s"
    and e: "coordinator_event co v (lu_state u) t (lu_detail u) = Inr e"
    and acc': "wa_order_states acc' = wa_order_states acc @ [s]"
      "wa_recovered_fills acc' = wa_recovered_fills acc @ lu_fills u"
      "wa_events acc' = wa_events acc @ [e]"
      "map summary_view (wa_summaries acc') = map summary_view (wa_summaries acc)
        @ [(v, int (length as), lu_convergence u)]"
    using assms unfolding coordinate_lookup_def
    by (auto simp: r_bind_Inr summary_view_def simp del: mk_order_state_Inr)
  note o = lookup_outcome_Inr [OF u]
  have "os_status base = RECOVERING"
    using b by (auto simp: mark_recovering_def with_transition_Inr)
  then have "group_order_ok co as s"
    using s o by (auto simp: group_order_ok_def split: option.splits)
  moreover have "re_order_id e = v"
    using e by (auto simp: coordinator_event_def mk_reconciliation_event_def)
  ultimately show thesis using that acc' o by metis
qed

lemma coordinate_lookups_Inr:
  assumes "r_foldl (coordinate_lookup co t) acc gs = Inr acc'"
  shows "\<exists>ss. wa_order_states acc' = wa_order_states acc @ ss \<and>
      list_all2 (\<lambda>(v, as) s. group_order_ok co as s) gs ss"
    and "wa_recovered_fills acc' = wa_recovered_fills acc @ concat (map (\<lambda>(v, as). released_fills as) gs)"
    and "map re_order_id (wa_events acc') = map re_order_id (wa_events acc) @ map fst gs"
    and "map summary_view (wa_summaries acc') = map summary_view (wa_summaries acc)
      @ map (\<lambda>(v, as). (v, int (length as), verdict (co_max_attempts co) as)) gs"
proof -
  have "(\<exists>ss. wa_order_states acc' = wa_order_states acc @ ss \<and>
      list_all2 (\<lambda>(v, as) s. group_order_ok co as s) gs ss) \<and>
    wa_recovered_fills acc' = wa_recovered_fills acc @ concat (map (\<lambda>(v, as). released_fills as) gs) \<and>
    map re_order_id (wa_events acc') = map re_order_id (wa_events acc) @ map fst gs \<and>
    map summary_view (wa_summaries acc') = map summary_view (wa_summaries acc)
      @ map (\<lambda>(v, as). (v, int (length as), verdict (co_max_attempts co) as)) gs"
    using assms
  proof (induction gs arbitrary: acc)
    case Nil
    then show ?case by simp
  next
    case (Cons g gs)
    obtain v as where g: "g = (v, as)" by (cases g)
    obtain u where step: "coordinate_lookup co t acc (v, as) = Inr u"
      and rest: "r_foldl (coordinate_lookup co t) u gs = Inr acc'"
      using Cons.prems g by (auto simp: r_bind_Inr)
    obtain s e where "group_order_ok co as s"
      "wa_order_states u = wa_order_states acc @ [s]"
      "wa_recovered_fills u = wa_recovered_fills acc @ released_fills as"
      "wa_events u = wa_events acc @ [e]" "re_order_id e = v"
      "map summary_view (wa_summaries u) = map summary_view (wa_summaries acc)
        @ [(v, int (length as), verdict (co_max_attempts co) as)]"
      using step by (rule coordinate_lookup_Inr)
    moreover obtain ss where "wa_order_states acc' = wa_order_states u @ ss"
      "list_all2 (\<lambda>(v, as) s. group_order_ok co as s) gs ss"
      using Cons.IH [OF rest] by blast
    ultimately show ?case using Cons.IH [OF rest] g
      by (auto intro!: exI [of _ "s # ss"])
  qed
  then show "\<exists>ss. wa_order_states acc' = wa_order_states acc @ ss \<and>
      list_all2 (\<lambda>(v, as) s. group_order_ok co as s) gs ss"
    "wa_recovered_fills acc' = wa_recovered_fills acc @ concat (map (\<lambda>(v, as). released_fills as) gs)"
    "map re_order_id (wa_events acc') = map re_order_id (wa_events acc) @ map fst gs"
    "map summary_view (wa_summaries acc') = map summary_view (wa_summaries acc)
      @ map (\<lambda>(v, as). (v, int (length as), verdict (co_max_attempts co) as)) gs"
    by blast+
qed

text \<open>The first three loops: one order per id, one event per unknown or missing id, nothing else.\<close>

definition no_quantities :: "order_state \<Rightarrow> bool" where
  "no_quantities s \<longleftrightarrow>
     os_requested_quantity s = 0 \<and> os_filled_quantity s = 0 \<and> os_remaining_quantity s = 0"

lemma matched_state_valid:
  "matched_state co t acc i = Inr u \<Longrightarrow> list_all valid_order (wa_order_states acc) \<Longrightarrow>
     list_all valid_order (wa_order_states u)"
  by (auto simp: matched_state_def make_order_state_def acknowledge_def r_bind_Inr with_transition_Inr)

lemma matched_states_valid:
  "r_foldl (matched_state co t) acc ids = Inr u \<Longrightarrow> list_all valid_order (wa_order_states acc) \<Longrightarrow>
     list_all valid_order (wa_order_states u)"
  by (rule r_foldl_invariant [where P = "\<lambda>a. list_all valid_order (wa_order_states a)"])
    (auto dest: matched_state_valid)

lemma matched_states_Inr:
  assumes "r_foldl (matched_state co t) acc ids = Inr acc'"
  shows "\<exists>ss. wa_order_states acc' = wa_order_states acc @ ss \<and> map os_order_id ss = ids \<and>
      list_all no_quantities ss \<and> list_all (\<lambda>s. os_status s = ACKNOWLEDGED \<and> os_reconciliation_state s = Some SUBMIT_SENT) ss \<and>
      wa_recovered_fills acc' = wa_recovered_fills acc \<and> wa_events acc' = wa_events acc \<and>
      wa_summaries acc' = wa_summaries acc \<and> wa_alerts acc' = wa_alerts acc"
  using assms
proof (induction ids arbitrary: acc)
  case Nil
  then show ?case by simp
next
  case (Cons i ids)
  obtain u where step: "matched_state co t acc i = Inr u"
    and rest: "r_foldl (matched_state co t) u ids = Inr acc'"
    using Cons.prems by (auto simp: r_bind_Inr)
  obtain s where "wa_order_states u = wa_order_states acc @ [s]" "os_order_id s = i" "no_quantities s"
    "os_status s = ACKNOWLEDGED" "os_reconciliation_state s = Some SUBMIT_SENT"
    "wa_recovered_fills u = wa_recovered_fills acc" "wa_events u = wa_events acc"
    "wa_summaries u = wa_summaries acc" "wa_alerts u = wa_alerts acc"
    using step by (auto simp: matched_state_def make_order_state_def acknowledge_def r_bind_Inr
        with_transition_Inr py_or_def no_quantities_def)
  moreover obtain ss where "wa_order_states acc' = wa_order_states u @ ss"
    "map os_order_id ss = ids" "list_all no_quantities ss"
    "list_all (\<lambda>s. os_status s = ACKNOWLEDGED \<and> os_reconciliation_state s = Some SUBMIT_SENT) ss"
    "wa_recovered_fills acc' = wa_recovered_fills u" "wa_events acc' = wa_events u"
    "wa_summaries acc' = wa_summaries u" "wa_alerts acc' = wa_alerts u"
    using Cons.IH [OF rest] by blast
  ultimately show ?case by (intro exI [of _ "s # ss"]) simp
qed

lemma marked_orders_Inr:
  assumes "r_foldl (marked_order co t rs d td) acc ids = Inr acc'"
  shows "\<exists>ss. wa_order_states acc' = wa_order_states acc @ ss \<and> map os_order_id ss = ids \<and>
      list_all (\<lambda>s. os_status s = RECOVERING \<and> os_reconciliation_state s = Some rs) ss \<and>
      wa_recovered_fills acc' = wa_recovered_fills acc \<and>
      map re_order_id (wa_events acc') = map re_order_id (wa_events acc) @ ids \<and>
      wa_summaries acc' = wa_summaries acc \<and> wa_alerts acc' = wa_alerts acc"
  using assms
proof (induction ids arbitrary: acc)
  case Nil
  then show ?case by simp
next
  case (Cons i ids)
  obtain u where step: "marked_order co t rs d td acc i = Inr u"
    and rest: "r_foldl (marked_order co t rs d td) u ids = Inr acc'"
    using Cons.prems by (auto simp: r_bind_Inr)
  obtain s e where "wa_order_states u = wa_order_states acc @ [s]" "os_order_id s = i"
    "os_status s = RECOVERING" "os_reconciliation_state s = Some rs"
    "wa_recovered_fills u = wa_recovered_fills acc" "wa_events u = wa_events acc @ [e]"
    "re_order_id e = i" "wa_summaries u = wa_summaries acc" "wa_alerts u = wa_alerts acc"
    using step by (auto simp: marked_order_def make_order_state_def mark_recovering_def r_bind_Inr
        with_transition_Inr coordinator_event_def mk_reconciliation_event_def)
  moreover obtain ss where "wa_order_states acc' = wa_order_states u @ ss" "map os_order_id ss = ids"
    "list_all (\<lambda>s. os_status s = RECOVERING \<and> os_reconciliation_state s = Some rs) ss"
    "wa_recovered_fills acc' = wa_recovered_fills u"
    "map re_order_id (wa_events acc') = map re_order_id (wa_events u) @ ids"
    "wa_summaries acc' = wa_summaries u" "wa_alerts acc' = wa_alerts u"
    using Cons.IH [OF rest] by blast
  ultimately show ?case by (intro exI [of _ "s # ss"]) simp
qed

section \<open>The whole workflow\<close>

definition states_are :: "order_status \<Rightarrow> reconciliation_state \<Rightarrow> order_state list \<Rightarrow> bool" where
  "states_are st rs ss \<longleftrightarrow> list_all (\<lambda>s. os_status s = st \<and> os_reconciliation_state s = Some rs) ss"

lemma coordinate_Inr:
  assumes "coordinate co rr lookups t = Inr w"
  obtains ms us ns ls where "wr_order_states w = ms @ us @ ns @ ls"
    and "states_are ACKNOWLEDGED SUBMIT_SENT ms" and "list_all no_quantities ms"
    and "map os_order_id ms = rr_matched rr" and "list_all valid_order ms"
    and "states_are RECOVERING UNKNOWN_EXECUTION us" and "map os_order_id us = rr_unknown_ids rr"
    and "states_are RECOVERING STATUS_QUERY_PENDING ns" and "map os_order_id ns = rr_missing rr"
    and "list_all2 (\<lambda>(v, as) s. group_order_ok co as s) (group_lookups lookups) ls"
    and "wr_recovered_fills w = concat (map (\<lambda>(v, as). released_fills as) (group_lookups lookups))"
    and "map re_order_id (wr_events w)
      = rr_unknown_ids rr @ rr_missing rr @ map fst (group_lookups lookups)"
    and "map summary_view (wr_summaries w)
      = map (\<lambda>(v, as). (v, int (length as), verdict (co_max_attempts co) as)) (group_lookups lookups)"
    and "wr_convergence w = Some (convergence_of (wr_summaries w))" and "wr_attempts w = lookups"
proof -
  let ?a0 = "\<lparr>wa_order_states = [], wa_recovered_fills = [], wa_events = [], wa_summaries = [],
     wa_alerts = rr_alerts rr\<rparr>"
  obtain a1 a2 a3 a where f1: "r_foldl (matched_state co t) ?a0 (rr_matched rr) = Inr a1"
    and f2: "r_foldl (unknown_order co t) a1 (rr_unknown_ids rr) = Inr a2"
    and f3: "r_foldl (missing_order co t) a2 (rr_missing rr) = Inr a3"
    and f4: "r_foldl (coordinate_lookup co t) a3 (group_lookups lookups) = Inr a"
    and w: "wr_order_states w = wa_order_states a" "wr_recovered_fills w = wa_recovered_fills a"
      "wr_events w = wa_events a" "wr_summaries w = wa_summaries a"
      "wr_convergence w = Some (convergence_of (wr_summaries w))" "wr_attempts w = lookups"
    using assms by (auto simp: coordinate_def r_bind_Inr)
  obtain ms where 1: "wa_order_states a1 = ms" "states_are ACKNOWLEDGED SUBMIT_SENT ms"
    "list_all no_quantities ms" "map os_order_id ms = rr_matched rr" "wa_recovered_fills a1 = []"
    "wa_events a1 = []" "wa_summaries a1 = []"
    using matched_states_Inr [OF f1] unfolding states_are_def by auto
  have v: "list_all valid_order ms" using matched_states_valid [OF f1] 1(1) by simp
  obtain us where 2: "wa_order_states a2 = ms @ us" "states_are RECOVERING UNKNOWN_EXECUTION us"
    "map os_order_id us = rr_unknown_ids rr" "wa_recovered_fills a2 = []"
    "map re_order_id (wa_events a2) = rr_unknown_ids rr" "wa_summaries a2 = []"
    using marked_orders_Inr [OF f2 [unfolded unknown_order_def]] 1 unfolding states_are_def by auto
  obtain ns where 3: "wa_order_states a3 = ms @ us @ ns" "states_are RECOVERING STATUS_QUERY_PENDING ns"
    "map os_order_id ns = rr_missing rr" "wa_recovered_fills a3 = []"
    "map re_order_id (wa_events a3) = rr_unknown_ids rr @ rr_missing rr" "wa_summaries a3 = []"
    using marked_orders_Inr [OF f3 [unfolded missing_order_def]] 2 unfolding states_are_def by auto
  note 4 = coordinate_lookups_Inr [OF f4]
  obtain ls where "wa_order_states a = wa_order_states a3 @ ls"
    "list_all2 (\<lambda>(v, as) s. group_order_ok co as s) (group_lookups lookups) ls"
    using 4(1) by blast
  with 1 2 3 4(2-4) w v show thesis by (intro that [of ms us ns ls]) simp_all
qed

lemma convergence_of_terminal:
  "convergence_of ss = ''converged_terminal'' \<longleftrightarrow>
     ss \<noteq> [] \<and> (\<forall>s\<in>set ss. rs_convergence s = CONVERGED_TERMINAL)"
proof -
  have "rs_convergence s = CONVERGED_TERMINAL \<longleftrightarrow>
      rs_convergence s \<noteq> CONV_UNRECONCILED \<and> rs_convergence s \<noteq> CONV_PENDING" for s :: recovery_summary
    by (cases "rs_convergence s") auto
  then show ?thesis by (auto simp: convergence_of_def list_ex_iff)
qed

lemma group_lookups_mem:
  assumes "(v, as) \<in> set (group_lookups lookups)"
  shows "as = filter (\<lambda>l. lk_value l = v) lookups" "as \<noteq> []"
  using group_by_mem [OF assms [unfolded group_lookups_def]] by simp_all

lemma group_lookups_keys: "fst ` set (group_lookups lookups) = lk_value ` set lookups"
  using arg_cong [OF keys_group_by [of lk_value lookups], of set]
  by (simp add: group_lookups_def)

section \<open>The workflow always completes\<close>

definition clean_lookup :: "lookup_result \<Rightarrow> bool" where
  "clean_lookup l \<longleftrightarrow> \<not> blank (lk_value l) \<and> opt_all valid_order (lk_order_state l) \<and>
     opt_all (\<lambda>a. a = [] \<or> \<not> blank a) (lk_alert l)"

lemma make_order_state_total:
  assumes "\<not> blank (co_venue co)" and "\<not> blank oid" and "is_utc t"
  shows "\<exists>s. make_order_state co oid rs t d = Inr s \<and> valid_order s \<and> os_order_id s = oid"
  using assms by (simp add: make_order_state_def valid_order_def order_state_checks_def opt_all_def
      blank_def py_space_def)

lemma coordinator_event_total:
  assumes "\<not> blank (co_venue co)" and "\<not> blank oid" and "is_utc t" and "\<not> blank d"
  shows "\<exists>e. coordinator_event co oid rs t d = Inr e"
  using assms by (simp add: coordinator_event_def mk_reconciliation_event_def
      reconciliation_event_checks_def)

lemma blank_append [simp]: "blank (a @ b) \<longleftrightarrow> blank a \<and> blank b"
  by (simp add: blank_def)

lemma lookup_outcome_total:
  assumes base: "valid_order base" and t: "is_utc t" and ne: "as \<noteq> []"
    and clean: "\<forall>l\<in>set as. clean_lookup l"
  shows "\<exists>u. lookup_outcome_of co t base v as = Inr u \<and> valid_order (lu_order u) \<and> \<not> blank (lu_detail u)"
proof (cases "find is_terminal (rev as)")
  case (Some l)
  then have l: "clean_lookup l" using find_terminal_Some clean by blast
  let ?b = "case lk_order_state l of None \<Rightarrow> base | Some s \<Rightarrow> s"
  have "valid_order ?b" using base l by (auto simp: clean_lookup_def opt_all_def split: option.splits)
  with t Some show ?thesis
    by (simp add: lookup_outcome_of_def terminal_outcome_def Let_def r_bind_Inr resolve_recovery_def
        with_transition_Inr valid_order_def order_state_checks_def)
      (simp add: blank_def py_space_def)
next
  case None
  have "clean_lookup (last as)" using ne clean by simp
  then have d: "\<not> blank (py_or (lk_alert (last as)) ''recovery unresolved'')"
    by (auto simp: clean_lookup_def opt_all_def py_or_def blank_def py_space_def split: option.splits)
  show ?thesis
  proof (cases "\<not> lk_found (last as) \<and> co_max_attempts co \<le> length as")
    case True
    with None base t show ?thesis
      by (simp add: lookup_outcome_of_def Let_def r_bind_Inr mark_unreconciled_def
          with_transition_Inr valid_order_def order_state_checks_def)
        (simp add: blank_def py_space_def)
  next
    case False
    with None base d show ?thesis
      by (cases "lk_found (last as)") (simp_all add: lookup_outcome_of_def Let_def,
          simp add: blank_def py_space_def)
  qed
qed

lemma r_foldl_total: "(\<And>s x. x \<in> set xs \<Longrightarrow> \<exists>s'. f s x = Inr s') \<Longrightarrow> \<exists>s'. r_foldl f s xs = Inr s'"
proof (induction xs arbitrary: s)
  case Nil
  then show ?case by simp
next
  case (Cons x xs)
  obtain u where "f s x = Inr u" using Cons.prems [of x s] by auto
  moreover obtain s' where "r_foldl f u xs = Inr s'" using Cons by (metis list.set_intros(2))
  ultimately show ?case by simp
qed

lemma coordinate_lookup_total:
  assumes v: "\<not> blank (co_venue co)" and t: "is_utc t"
    and g: "(val, as) \<in> set (group_lookups lookups)" and clean: "\<forall>l\<in>set lookups. clean_lookup l"
  shows "\<exists>acc'. coordinate_lookup co t acc (val, as) = Inr acc'"
proof -
  have as: "as \<noteq> []" "\<forall>l\<in>set as. clean_lookup l \<and> lk_value l = val"
    using group_lookups_mem [OF g] clean by auto
  have nb: "\<not> blank val" using as by (cases as) (auto simp: clean_lookup_def)
  obtain s0 where s0: "make_order_state co val STATUS_QUERY_PENDING t
      ''status lookup initiated for reconciliation recovery'' = Inr s0" "valid_order s0"
    using make_order_state_total [OF v nb t] by blast
  obtain base tr where b: "mark_recovering s0 t ''recovery in progress'' STATUS_QUERY_PENDING = Inr (base, tr)"
    "valid_order base"
    using s0(2) t by (auto simp: mark_recovering_def with_transition_Inr valid_order_def
        order_state_checks_def)
  obtain u where u: "lookup_outcome_of co t base val as = Inr u" "valid_order (lu_order u)"
    "\<not> blank (lu_detail u)"
    using lookup_outcome_total [OF b(2) t as(1)] as(2) by blast
  have o: "mk_order_state ((lu_order u)\<lparr>os_reconciliation_state := Some (lu_state u),
      os_reconciliation_detail := Some (lu_detail u)\<rparr>) = Inr ((lu_order u)
      \<lparr>os_reconciliation_state := Some (lu_state u), os_reconciliation_detail := Some (lu_detail u)\<rparr>)"
    using u(2) by (simp add: valid_order_def order_state_checks_def)
  obtain e where "coordinator_event co val (lu_state u) t (lu_detail u) = Inr e"
    using coordinator_event_total [OF v nb t u(3)] by blast
  then show ?thesis using s0 b u o by (simp add: coordinate_lookup_def del: mk_order_state_Inr)
qed

lemma coordinate_total:
  assumes v: "\<not> blank (co_venue co)" and t: "is_utc t"
    and ids: "\<forall>i\<in>set (rr_matched rr) \<union> set (rr_unknown_ids rr) \<union> set (rr_missing rr). \<not> blank i"
    and clean: "\<forall>l\<in>set lookups. clean_lookup l"
  shows "\<exists>w. coordinate co rr lookups t = Inr w"
proof -
  have m: "\<exists>a'. matched_state co t a i = Inr a'" if nb: "\<not> blank i" for a i
  proof -
    obtain s where "make_order_state co i SUBMIT_SENT t ''submit observed or matched by reconciliation''
        = Inr s" "valid_order s" using make_order_state_total [OF v nb t] by blast
    moreover from this(2) have "\<exists>a tr. acknowledge s (Some i) t = Inr (a, tr)"
      using nb t by (auto simp: acknowledge_def with_transition_Inr valid_order_def
          order_state_checks_def py_or_def)
    ultimately show ?thesis by (auto simp: matched_state_def)
  qed
  have k: "\<exists>a'. marked_order co t rs d td a i = Inr a'" if nb: "\<not> blank i" "\<not> blank d" for a i rs d td
  proof -
    obtain s where "make_order_state co i rs t d = Inr s" "valid_order s"
      using make_order_state_total [OF v nb(1) t] by blast
    moreover from this(2) have "\<exists>a tr. mark_recovering s t td rs = Inr (a, tr)"
      using t by (auto simp: mark_recovering_def with_transition_Inr valid_order_def
          order_state_checks_def)
    moreover obtain e where "coordinator_event co i rs t d = Inr e"
      using coordinator_event_total [OF v nb(1) t nb(2)] by blast
    ultimately show ?thesis by (auto simp: marked_order_def)
  qed
  let ?a0 = "\<lparr>wa_order_states = [], wa_recovered_fills = [], wa_events = [], wa_summaries = [],
     wa_alerts = rr_alerts rr\<rparr>"
  have "\<exists>a'. r_foldl (matched_state co t) ?a0 (rr_matched rr) = Inr a'"
    using m ids by (intro r_foldl_total) auto
  then obtain a1 where 1: "r_foldl (matched_state co t) ?a0 (rr_matched rr) = Inr a1" ..
  have "\<exists>a'. r_foldl (unknown_order co t) a1 (rr_unknown_ids rr) = Inr a'"
    unfolding unknown_order_def using k ids by (intro r_foldl_total) (auto simp: blank_def py_space_def)
  then obtain a2 where 2: "r_foldl (unknown_order co t) a1 (rr_unknown_ids rr) = Inr a2" ..
  have "\<exists>a'. r_foldl (missing_order co t) a2 (rr_missing rr) = Inr a'"
    unfolding missing_order_def using k ids by (intro r_foldl_total) (auto simp: blank_def py_space_def)
  then obtain a3 where 3: "r_foldl (missing_order co t) a2 (rr_missing rr) = Inr a3" ..
  have "\<exists>a'. r_foldl (coordinate_lookup co t) a3 (group_lookups lookups) = Inr a'"
    using coordinate_lookup_total [OF v t _ clean] by (intro r_foldl_total) auto
  then obtain a4 where 4: "r_foldl (coordinate_lookup co t) a3 (group_lookups lookups) = Inr a4" ..
  show ?thesis unfolding coordinate_def 1 r_bind_simps 2 3 4 by blast
qed

lemma coordinate_converged:
  assumes "coordinate co rr lookups t = Inr w"
  shows "wr_convergence w = Some ''converged_terminal'' \<longleftrightarrow>
    lookups \<noteq> [] \<and> (\<forall>l\<in>set lookups. \<exists>l'\<in>set lookups. lk_value l' = lk_value l \<and> is_terminal l')"
  using assms
proof (rule coordinate_Inr)
  let ?gs = "group_lookups lookups"
  assume sv: "map summary_view (wr_summaries w)
      = map (\<lambda>(v, as). (v, int (length as), verdict (co_max_attempts co) as)) ?gs"
    and cv: "wr_convergence w = Some (convergence_of (wr_summaries w))"
  have conv: "map rs_convergence (wr_summaries w)
      = map (\<lambda>(v, as). verdict (co_max_attempts co) as) ?gs"
    using arg_cong [OF sv, of "map (snd \<circ> snd)"]
    by (simp add: comp_def summary_view_def case_prod_unfold)
  have empty: "wr_summaries w = [] \<longleftrightarrow> lookups = []"
  proof -
    have "?gs = [] \<longleftrightarrow> lookups = []" using group_lookups_keys [of lookups] by auto
    then show ?thesis using arg_cong [OF conv, of length] by auto
  qed
  have vt: "verdict n as = CONVERGED_TERMINAL \<longleftrightarrow> list_ex is_terminal as" for n as
    by (simp add: verdict_def)
  have "(\<forall>s\<in>set (wr_summaries w). rs_convergence s = CONVERGED_TERMINAL) \<longleftrightarrow>
      (\<forall>(v, as)\<in>set ?gs. list_ex is_terminal as)"
  proof -
    have "rs_convergence ` set (wr_summaries w) = (\<lambda>(v, as). verdict (co_max_attempts co) as) ` set ?gs"
      using arg_cong [OF conv, of set] by simp
    then have "(\<forall>c\<in>rs_convergence ` set (wr_summaries w). c = CONVERGED_TERMINAL) \<longleftrightarrow>
        (\<forall>c\<in>(\<lambda>(v, as). verdict (co_max_attempts co) as) ` set ?gs. c = CONVERGED_TERMINAL)" by simp
    then show ?thesis by (simp add: case_prod_unfold vt)
  qed
  also have "\<dots> \<longleftrightarrow> (\<forall>l\<in>set lookups. \<exists>l'\<in>set lookups. lk_value l' = lk_value l \<and> is_terminal l')"
  proof -
    have "set ?gs = (\<lambda>v. (v, filter (\<lambda>l. lk_value l = v) lookups)) ` lk_value ` set lookups"
    proof (intro set_eqI iffI)
      fix p assume p: "p \<in> set ?gs"
      obtain v as where va: "p = (v, as)" by (cases p)
      have "v \<in> fst ` set ?gs" using p va by force
      then show "p \<in> (\<lambda>v. (v, filter (\<lambda>l. lk_value l = v) lookups)) ` lk_value ` set lookups"
        using group_lookups_mem(1) [of v as lookups] p va group_lookups_keys [of lookups] by simp
    next
      fix p assume "p \<in> (\<lambda>v. (v, filter (\<lambda>l. lk_value l = v) lookups)) ` lk_value ` set lookups"
      then obtain v where v: "v \<in> fst ` set ?gs" "p = (v, filter (\<lambda>l. lk_value l = v) lookups)"
        unfolding group_lookups_keys by blast
      then obtain as where "(v, as) \<in> set ?gs" by force
      with v(2) group_lookups_mem(1) [OF this] show "p \<in> set ?gs" by simp
    qed
    then show ?thesis by (auto simp: list_ex_iff)
  qed
  finally show ?thesis using cv empty by (simp add: convergence_of_terminal)
qed

section \<open>Properties\<close>

text \<open>
  Recovered fills are released once per order: the workflow's recovered fills are exactly, for each
  looked-up order, the fills of its last terminal attempt, so an order found in several attempts does
  not contribute its fills several times, and an order without a terminal attempt contributes none.
\<close>

theorem recovered_fills_released_once:
  assumes "coordinate co rr lookups t = Inr w"
  shows "wr_recovered_fills w = concat (map (\<lambda>(v, as). released_fills as) (group_lookups lookups)) \<and>
    distinct (map fst (group_lookups lookups)) \<and>
    (\<forall>(v, as)\<in>set (group_lookups lookups). as = filter (\<lambda>l. lk_value l = v) lookups \<and>
       (\<forall>l\<in>set as. \<not> is_terminal l) = (find is_terminal (rev as) = None))"
  using assms
proof (rule coordinate_Inr)
  assume "wr_recovered_fills w = concat (map (\<lambda>(v, as). released_fills as) (group_lookups lookups))"
  moreover have "distinct (map fst (group_lookups lookups))"
    using wf_group_by [of lk_value lookups] by (simp add: wf_dict_def group_lookups_def)
  moreover have "\<forall>(v, as)\<in>set (group_lookups lookups). as = filter (\<lambda>l. lk_value l = v) lookups \<and>
       (\<forall>l\<in>set as. \<not> is_terminal l) = (find is_terminal (rev as) = None)"
    using group_lookups_mem(1) by (auto simp: find_None_iff)
  ultimately show ?thesis by blast
qed

definition sample_lookup :: "bool \<Rightarrow> string \<Rightarrow> string \<Rightarrow> fill_event list \<Rightarrow> lookup_result" where
  "sample_lookup found val status fills =
     \<lparr>lk_found = found, lk_field = ''exchange_order_id'', lk_value = val, lk_source = ''src'',
      lk_status_summary = (if found then Some status else None), lk_alert = None,
      lk_order_state = None, lk_fill_events = fills, lk_attempt_number = 1\<rparr>"

definition sample_rr :: "string list \<Rightarrow> reconciliation_result" where
  "sample_rr missing =
     \<lparr>rr_matched = [], rr_missing = missing, rr_unknown_ids = [], rr_alerts = [],
      rr_unknown_client_ids = [], rr_unknown_exchange_only_ids = [], rr_actions = []\<rparr>"

lemma sample_coordinate:
  assumes "\<forall>l\<in>set lookups. clean_lookup l" and "\<forall>i\<in>set missing. \<not> blank i"
  shows "\<exists>w. coordinate default_coordinator (sample_rr missing) lookups (utc 9) = Inr w"
  using assms by (intro coordinate_total)
    (auto simp: default_coordinator_def sample_rr_def blank_def py_space_def)

lemma clean_sample_lookup [simp]: "clean_lookup (sample_lookup b v st fs) \<longleftrightarrow> \<not> blank v"
  by (simp add: clean_lookup_def sample_lookup_def opt_all_def)

lemma recovered_fills_released_once_witness:
  "\<exists>w. coordinate default_coordinator (sample_rr [])
      [sample_lookup True ''o1'' ''filled'' [sample_fill ''f1'' (Dec 2)],
       sample_lookup True ''o1'' ''filled'' [sample_fill ''f1'' (Dec 2)]] (utc 9) = Inr w \<and>
     wr_recovered_fills w = [sample_fill ''f1'' (Dec 2)]"
proof -
  let ?l = "sample_lookup True ''o1'' ''filled'' [sample_fill ''f1'' (Dec 2)]"
  obtain w where w: "coordinate default_coordinator (sample_rr []) [?l, ?l] (utc 9) = Inr w"
    using sample_coordinate [of "[?l, ?l]" "[]"] by (auto simp: blank_def py_space_def)
  have g: "group_lookups [?l, ?l] = [(''o1'', [?l, ?l])]"
    by (simp add: group_lookups_def group_by_def dict_append_def dict_get_default_def sample_lookup_def)
  have "is_terminal ?l" by (simp add: is_terminal_def sample_lookup_def terminal_statuses_def)
  then have "wr_recovered_fills w = [sample_fill ''f1'' (Dec 2)]"
    using recovered_fills_released_once [OF w] unfolding g
    by (simp add: released_fills_def) (simp add: sample_lookup_def)
  with w show ?thesis by blast
qed



text \<open>
  The workflow always completes: for non-blank order ids, a UTC time, valid recovered orders and
  alerts that are not white space only, no constructor on its way raises.
\<close>

theorem workflow_total:
  assumes "\<not> blank (co_venue co)" and "is_utc t"
    and "\<forall>i\<in>set (rr_matched rr) \<union> set (rr_unknown_ids rr) \<union> set (rr_missing rr). \<not> blank i"
    and "\<forall>l\<in>set lookups. clean_lookup l"
  shows "\<exists>w. coordinate co rr lookups t = Inr w"
  using assms by (rule coordinate_total)

lemma workflow_total_witness:
  "\<exists>w. coordinate default_coordinator (sample_rr [''o2'']) [sample_lookup False ''o2'' [] []] (utc 9)
     = Inr w"
  by (rule workflow_total) (auto simp: default_coordinator_def sample_rr_def blank_def py_space_def)

end
