(* ===== verification/ReconStore.thy ===== *)
theory ReconStore
  imports ReconCoordinator
begin

text \<open>
  \<open>app/storage/reconciliation_state.py\<close>: the restart-safe reconciliation state. The file's content
  is the snapshot it was written from, if it exists (the JSON encoding and \<open>isoformat\<close> are read back
  by \<open>load_snapshot\<close> field by field). The protocol \<open>BinanceReconciliationStateStore\<close> is the locale
  \<open>recovery_store\<close>.
\<close>

section \<open>The snapshot\<close>

record persisted_attempt =
  pat_fingerprint :: string
  pat_field :: string
  pat_value :: string
  pat_source :: string
  pat_number :: int
  pat_found :: bool
  pat_status_summary :: "string option"
  pat_alert :: "string option"
  pat_cursor :: "string option"
  pat_first_seen :: datetime
  pat_last_seen :: datetime

record cursor_snapshot =
  cu_schema_version :: string
  cu_updated_at :: "datetime option"
  cu_cursor :: "string option"
  cu_gap_active :: bool
  cu_unresolved :: "string list"
  cu_manual_attention :: "string list"
  cu_trigger_reason :: "string option"
  cu_automatic :: bool
  cu_convergence :: "string option"
  cu_manual_attention_at :: "datetime option"
  cu_attempts :: "persisted_attempt list"

type_synonym json_store = "cursor_snapshot option"

definition empty_snapshot :: cursor_snapshot where
  "empty_snapshot =
     \<lparr>cu_schema_version = ''binance_reconciliation_state.v1'', cu_updated_at = None, cu_cursor = None,
      cu_gap_active = False, cu_unresolved = [], cu_manual_attention = [], cu_trigger_reason = None,
      cu_automatic = False, cu_convergence = None, cu_manual_attention_at = None, cu_attempts = []\<rparr>"

definition load_snapshot :: "json_store \<Rightarrow> cursor_snapshot" where
  "load_snapshot st = (case st of None \<Rightarrow> empty_snapshot | Some s \<Rightarrow> s)"

definition resume_expected_order_ids :: "json_store \<Rightarrow> string list \<Rightarrow> string list" where
  "resume_expected_order_ids st expected = dedup (expected @ cu_unresolved (load_snapshot st))"

section \<open>Numbering the attempts\<close>

definition fingerprint :: "lookup_result \<Rightarrow> string option \<Rightarrow> string" where
  "fingerprint l cursor =
     str_join ''|''
       [lk_field l, lk_value l, lk_source l, py_or (lk_status_summary l) [], py_or (lk_alert l) [],
        (if lk_found l then ''found'' else ''missing''), py_or cursor []]"

definition max_default :: "int list \<Rightarrow> int" where
  "max_default xs = (case xs of [] \<Rightarrow> 0 | y # ys \<Rightarrow> foldl max y ys)"

definition next_attempt_number :: "persisted_attempt list \<Rightarrow> lookup_result \<Rightarrow> int" where
  "next_attempt_number attempts l =
     1 + max_default (map pat_number
           (filter (\<lambda>a. pat_field a = lk_field l \<and> pat_value a = lk_value l) attempts))"

definition new_attempt ::
    "persisted_attempt list \<Rightarrow> lookup_result \<Rightarrow> datetime \<Rightarrow> string option \<Rightarrow> persisted_attempt" where
  "new_attempt attempts l occurred_at cursor =
     \<lparr>pat_fingerprint = fingerprint l cursor, pat_field = lk_field l, pat_value = lk_value l,
      pat_source = lk_source l, pat_number = next_attempt_number attempts l, pat_found = lk_found l,
      pat_status_summary = lk_status_summary l, pat_alert = lk_alert l, pat_cursor = cursor,
      pat_first_seen = occurred_at, pat_last_seen = occurred_at\<rparr>"

type_synonym register_state =
  "(string, persisted_attempt) dict \<times> persisted_attempt list \<times> lookup_result list"

definition register_one ::
    "datetime \<Rightarrow> string option \<Rightarrow> register_state \<Rightarrow> lookup_result \<Rightarrow> register_state" where
  "register_one occurred_at cursor = (\<lambda>(by_fp, attempts, normalized) l.
     case dict_get by_fp (fingerprint l cursor) of
       Some existing \<Rightarrow>
         (by_fp, attempts, normalized @ [l\<lparr>lk_attempt_number := pat_number existing\<rparr>])
     | None \<Rightarrow>
         (let a = new_attempt attempts l occurred_at cursor
          in (dict_set (fingerprint l cursor) a by_fp, attempts @ [a],
              normalized @ [l\<lparr>lk_attempt_number := pat_number a\<rparr>])))"

definition register_lookup_results ::
    "lookup_result list \<Rightarrow> datetime \<Rightarrow> string option \<Rightarrow> json_store \<Rightarrow> lookup_result list \<times> json_store" where
  "register_lookup_results lookups occurred_at cursor st =
     (let snap = load_snapshot st;
          (by_fp, attempts, normalized) = foldl (register_one occurred_at cursor)
            (dict_of pat_fingerprint (\<lambda>a. a) (cu_attempts snap), cu_attempts snap, []) lookups
      in (normalized,
          Some (snap\<lparr>cu_updated_at := Some occurred_at,
                     cu_cursor := py_or_opt cursor (cu_cursor snap), cu_attempts := attempts\<rparr>)))"

section \<open>Persisting a workflow\<close>

definition is_pending :: "order_state \<Rightarrow> bool" where
  "is_pending s \<longleftrightarrow>
     os_status s \<in> {RECOVERING, UNRECONCILED} \<or>
     os_reconciliation_state s \<in>
       {Some UNKNOWN_EXECUTION, Some STATUS_QUERY_PENDING, Some UNRECONCILED_MANUAL_ATTENTION}"

definition needs_attention :: "order_state \<Rightarrow> bool" where
  "needs_attention s \<longleftrightarrow> os_reconciliation_state s = Some UNRECONCILED_MANUAL_ATTENTION"

definition track :: "(order_state \<Rightarrow> bool) \<Rightarrow> string set \<Rightarrow> order_state \<Rightarrow> string set" where
  "track p ids s = (if p s then insert (os_order_id s) ids else ids - {os_order_id s})"

definition sorted_ids :: "string set \<Rightarrow> string list" where
  "sorted_ids ids = sorted_list_of_set ids"

definition next_snapshot ::
    "workflow_result \<Rightarrow> datetime \<Rightarrow> string option \<Rightarrow> bool \<Rightarrow> cursor_snapshot \<Rightarrow> cursor_snapshot" where
  "next_snapshot w occurred_at cursor has_gap snap =
     snap\<lparr>cu_updated_at := Some occurred_at, cu_cursor := py_or_opt cursor (cu_cursor snap),
          cu_gap_active := has_gap,
          cu_unresolved := sorted_ids
            (foldl (track is_pending) (set (cu_unresolved snap)) (wr_order_states w)),
          cu_manual_attention := sorted_ids
            (foldl (track needs_attention) (set (cu_manual_attention snap)) (wr_order_states w)),
          cu_trigger_reason := wr_trigger_reason w, cu_automatic := wr_automatic w,
          cu_convergence := wr_convergence w,
          cu_manual_attention_at :=
            (if wr_convergence w = Some ''unreconciled_manual_attention'' then Some occurred_at
             else cu_manual_attention_at snap)\<rparr>"

definition persist_workflow_state ::
    "workflow_result \<Rightarrow> datetime \<Rightarrow> string option \<Rightarrow> bool \<Rightarrow> json_store
      \<Rightarrow> cursor_snapshot \<times> json_store" where
  "persist_workflow_state w occurred_at cursor has_gap st =
     (let s = next_snapshot w occurred_at cursor has_gap (load_snapshot st) in (s, Some s))"

section \<open>Facts: tracking\<close>

text \<open>After the loop an id is tracked when the last state with that id says so.\<close>

lemma finite_track_fold: "finite ids \<Longrightarrow> finite (foldl (track p) ids ss)"
  by (induction ss arbitrary: ids) (simp_all add: track_def)

lemma track_fold:
  "i \<in> foldl (track p) ids ss \<longleftrightarrow>
     (case find (\<lambda>s. os_order_id s = i) (rev ss) of None \<Rightarrow> i \<in> ids | Some s \<Rightarrow> p s)"
proof (induction ss rule: rev_induct)
  case (snoc s ss)
  then show ?case by (auto simp: track_def)
qed simp

lemma track_subset:
  assumes "\<And>s. q s \<Longrightarrow> p s" and "b \<subseteq> a"
  shows "foldl (track q) b ss \<subseteq> foldl (track p) a ss"
  using assms(2)
proof (induction ss arbitrary: a b)
  case (Cons s ss)
  have "track q b s \<subseteq> track p a s" using Cons.prems assms(1) [of s] by (auto simp: track_def)
  then show ?case using Cons.IH by simp
qed simp

lemma set_sorted_ids: "finite a \<Longrightarrow> set (sorted_ids a) = a"
  by (simp add: sorted_ids_def)

lemma next_snapshot_ids:
  "set (cu_unresolved (next_snapshot w t c g s))
     = foldl (track is_pending) (set (cu_unresolved s)) (wr_order_states w)"
  "set (cu_manual_attention (next_snapshot w t c g s))
     = foldl (track needs_attention) (set (cu_manual_attention s)) (wr_order_states w)"
  by (simp_all add: next_snapshot_def set_sorted_ids finite_track_fold)

lemma needs_attention_pending: "needs_attention s \<Longrightarrow> is_pending s"
  by (auto simp: needs_attention_def is_pending_def)

section \<open>Facts: the attempt numbers\<close>

text \<open>
  The attempts on one lookup are numbered 1, 2, 3, ... in the order they were stored, and no
  fingerprint is stored twice.
\<close>

definition attempts_of :: "string \<Rightarrow> string \<Rightarrow> persisted_attempt list \<Rightarrow> persisted_attempt list" where
  "attempts_of field val as = filter (\<lambda>a. pat_field a = field \<and> pat_value a = val) as"

definition numbered :: "persisted_attempt list \<Rightarrow> bool" where
  "numbered as \<longleftrightarrow>
     distinct (map pat_fingerprint as) \<and>
     (\<forall>field val. map pat_number (attempts_of field val as)
        = map int [1..<Suc (length (attempts_of field val as))])"

lemma max_default_snoc: "max_default (xs @ [x]) = (if xs = [] then x else max (max_default xs) x)"
  by (cases xs) (simp_all add: max_default_def)

lemma max_default_upt: "max_default (map int [1..<Suc n]) = int n"
proof (induction n)
  case (Suc n)
  have "[1..<Suc (Suc n)] = [1..<Suc n] @ [Suc n]" by simp
  then have "max_default (map int [1..<Suc (Suc n)])
      = max_default (map int [1..<Suc n] @ [int (Suc n)])"
    by (simp only: map_append list.map)
  also have "\<dots> = int (Suc n)"
    unfolding max_default_snoc Suc.IH by (simp add: max_def)
  finally show ?case .
qed (simp add: max_default_def)

lemma next_number:
  assumes "numbered as"
  shows "next_attempt_number as l = int (Suc (length (attempts_of (lk_field l) (lk_value l) as)))"
proof -
  have "map pat_number (attempts_of (lk_field l) (lk_value l) as)
      = map int [1..<Suc (length (attempts_of (lk_field l) (lk_value l) as))]"
    using assms unfolding numbered_def by blast
  then show ?thesis
    unfolding next_attempt_number_def attempts_of_def [symmetric] by (simp only: max_default_upt)
qed

lemma numbered_extend:
  assumes n: "numbered as" and new: "fingerprint l c \<notin> pat_fingerprint ` set as"
  shows "numbered (as @ [new_attempt as l t c])"
proof -
  have "map pat_number (attempts_of f v (as @ [new_attempt as l t c]))
      = map int [1..<Suc (length (attempts_of f v (as @ [new_attempt as l t c])))]" for f v
    using n next_number [OF n, of l]
    by (auto simp: numbered_def attempts_of_def new_attempt_def)
  moreover have "distinct (map pat_fingerprint (as @ [new_attempt as l t c]))"
    using n new by (simp add: numbered_def new_attempt_def)
  ultimately show ?thesis by (simp add: numbered_def)
qed

definition register_inv :: "register_state \<Rightarrow> bool" where
  "register_inv = (\<lambda>(by_fp, attempts, normalized).
     numbered attempts \<and> (\<forall>fp. dict_get by_fp fp = None \<longleftrightarrow> fp \<notin> pat_fingerprint ` set attempts))"

lemma register_one_inv:
  assumes "register_inv s"
  shows "register_inv (register_one t c s l)"
proof -
  obtain by_fp attempts normalized where s: "s = (by_fp, attempts, normalized)" by (cases s)
  show ?thesis
  proof (cases "dict_get by_fp (fingerprint l c)")
    case None
    then have "fingerprint l c \<notin> pat_fingerprint ` set attempts"
      using assms s by (simp add: register_inv_def)
    then have "numbered (attempts @ [new_attempt attempts l t c])"
      using numbered_extend assms s by (simp add: register_inv_def)
    moreover have "pat_fingerprint (new_attempt attempts l t c) = fingerprint l c"
      by (simp add: new_attempt_def)
    ultimately show ?thesis
      using assms unfolding s register_one_def register_inv_def prod.case None option.case Let_def
      by (simp add: dict_get_set)
  next
    case (Some a)
    then show ?thesis
      using assms unfolding s register_one_def register_inv_def prod.case Some option.case by simp
  qed
qed

lemma register_fold_inv:
  "register_inv s \<Longrightarrow> register_inv (foldl (register_one t c) s ls)"
  by (induction ls arbitrary: s) (simp_all add: register_one_inv)

text \<open>Registration changes nothing but the attempt numbers.\<close>

definition unnumbered :: "lookup_result \<Rightarrow> lookup_result" where
  "unnumbered l = l\<lparr>lk_attempt_number := 0\<rparr>"

lemma register_fold_normalized:
  "foldl (register_one t c) (d, as, ns) ls = (d', as', ns') \<Longrightarrow>
     map unnumbered ns' = map unnumbered ns @ map unnumbered ls"
proof (induction ls arbitrary: d as ns)
  case Nil
  then show ?case by simp
next
  case (Cons l ls)
  obtain d1 as1 ns1 where s: "register_one t c (d, as, ns) l = (d1, as1, ns1)"
    by (cases "register_one t c (d, as, ns) l")
  then have "map unnumbered ns1 = map unnumbered ns @ [unnumbered l]"
    by (auto simp: register_one_def Let_def unnumbered_def split: option.splits)
  with Cons.IH [of d1 as1 ns1] Cons.prems s show ?case by simp
qed

lemma register_lookup_results_facts:
  assumes "register_lookup_results ls t c st = (ns, st')"
  shows "map unnumbered ns = map unnumbered ls"
    and "cu_unresolved (load_snapshot st') = cu_unresolved (load_snapshot st)"
    and "numbered (cu_attempts (load_snapshot st)) \<Longrightarrow> numbered (cu_attempts (load_snapshot st'))"
proof -
  let ?snap = "load_snapshot st"
  let ?init = "(dict_of pat_fingerprint (\<lambda>a. a) (cu_attempts ?snap), cu_attempts ?snap, [] :: lookup_result list)"
  obtain d as ns' where f: "foldl (register_one t c) ?init ls = (d, as, ns')"
    by (cases "foldl (register_one t c) ?init ls")
  then have st': "ns = ns'" "st' = Some (?snap\<lparr>cu_updated_at := Some t,
      cu_cursor := py_or_opt c (cu_cursor ?snap), cu_attempts := as\<rparr>)"
    using assms by (auto simp: register_lookup_results_def Let_def)
  show "map unnumbered ns = map unnumbered ls"
    using register_fold_normalized [OF f] st' by simp
  show "cu_unresolved (load_snapshot st') = cu_unresolved ?snap"
    using st' by (simp add: load_snapshot_def)
  assume "numbered (cu_attempts ?snap)"
  then have "register_inv ?init" by (simp add: register_inv_def dict_of_get_None)
  from register_fold_inv [OF this, of t c ls] f show "numbered (cu_attempts (load_snapshot st'))"
    using st' by (simp add: register_inv_def load_snapshot_def)
qed

section \<open>The store as an interface\<close>

text \<open>
  What recovery relies on: a resume asks for the expected orders and every unresolved one; numbering
  the attempts changes neither their content nor what is unresolved; persisting tracks the last state
  of every order.
\<close>

locale recovery_store =
  fixes load :: "'s \<Rightarrow> cursor_snapshot"
    and resume :: "'s \<Rightarrow> string list \<Rightarrow> string list"
    and register :: "lookup_result list \<Rightarrow> datetime \<Rightarrow> string option \<Rightarrow> 's \<Rightarrow> lookup_result list \<times> 's"
    and persist :: "workflow_result \<Rightarrow> datetime \<Rightarrow> string option \<Rightarrow> bool \<Rightarrow> 's \<Rightarrow> cursor_snapshot \<times> 's"
  assumes resume_ids: "set (resume s ids) = set ids \<union> set (cu_unresolved (load s))"
    and register_keeps: "register ls t c s = (ns, s') \<Longrightarrow>
      map unnumbered ns = map unnumbered ls \<and> cu_unresolved (load s') = cu_unresolved (load s)"
    and persist_tracks: "persist w t c g s = (snap, s') \<Longrightarrow>
      load s' = snap \<and> set (cu_unresolved snap)
        = foldl (track is_pending) (set (cu_unresolved (load s))) (wr_order_states w)"
begin

lemma pending_order_resumed:
  assumes "find (\<lambda>s. os_order_id s = i) (rev (wr_order_states w)) = Some x" and "is_pending x"
    and "persist w t c g s = (snap, s')"
  shows "i \<in> set (resume s' ids)"
proof -
  have "load s' = snap" "set (cu_unresolved snap)
      = foldl (track is_pending) (set (cu_unresolved (load s))) (wr_order_states w)"
    using persist_tracks [OF assms(3)] by blast+
  then show ?thesis using assms(1,2) by (simp add: resume_ids track_fold)
qed

lemma unmentioned_order_resumed:
  assumes "i \<in> set (cu_unresolved (load s))" and "i \<notin> os_order_id ` set (wr_order_states w)"
    and "persist w t c g s = (snap, s')"
  shows "i \<in> set (resume s' ids)"
proof -
  have "load s' = snap" "set (cu_unresolved snap)
      = foldl (track is_pending) (set (cu_unresolved (load s))) (wr_order_states w)"
    using persist_tracks [OF assms(3)] by blast+
  moreover have "find (\<lambda>s. os_order_id s = i) (rev (wr_order_states w)) = None"
    using assms(2) by (auto simp: find_None_iff)
  ultimately show ?thesis using assms(1) by (simp add: resume_ids track_fold)
qed

end

interpretation json: recovery_store load_snapshot resume_expected_order_ids register_lookup_results
    persist_workflow_state
  by unfold_locales
    (auto simp: resume_expected_order_ids_def persist_workflow_state_def Let_def load_snapshot_def
      next_snapshot_ids dest: register_lookup_results_facts)

section \<open>Facts: registering twice\<close>

lemma register_fold_covers:
  assumes "register_inv (d, as, ns)" and "foldl (register_one t c) (d, as, ns) ls = (d', as', ns')"
  shows "set as \<subseteq> set as' \<and> (\<forall>l\<in>set ls. fingerprint l c \<in> pat_fingerprint ` set as')"
  using assms
proof (induction ls arbitrary: d as ns)
  case Nil
  then show ?case by simp
next
  case (Cons l ls)
  obtain d1 as1 ns1 where s: "register_one t c (d, as, ns) l = (d1, as1, ns1)"
    by (cases "register_one t c (d, as, ns) l")
  have inv: "register_inv (d1, as1, ns1)" using register_one_inv [OF Cons.prems(1), of t c l] s by simp
  have one: "set as \<subseteq> set as1 \<and> fingerprint l c \<in> pat_fingerprint ` set as1"
  proof (cases "dict_get d (fingerprint l c)")
    case None
    with s have "as1 = as @ [new_attempt as l t c]" by (simp add: register_one_def Let_def)
    then show ?thesis by (auto simp: new_attempt_def)
  next
    case (Some a)
    with s Cons.prems(1) show ?thesis
      by (auto simp: register_one_def register_inv_def) (metis option.distinct(1))
  qed
  have "set as1 \<subseteq> set as' \<and> (\<forall>l\<in>set ls. fingerprint l c \<in> pat_fingerprint ` set as')"
    using Cons.IH [OF inv] Cons.prems(2) s by simp
  with one show ?case by auto
qed

lemma register_fold_known:
  assumes "\<forall>l\<in>set ls. dict_get d (fingerprint l c) \<noteq> None"
  shows "\<exists>ns'. foldl (register_one t c) (d, as, ns) ls = (d, as, ns')"
  using assms by (induction ls arbitrary: ns) (auto simp: register_one_def)

lemma register_twice:
  assumes n: "numbered (cu_attempts (load_snapshot st))"
    and first: "register_lookup_results ls t c st = (ns, st')"
    and again: "set ls' \<subseteq> set ls" "register_lookup_results ls' t' c st' = (ns2, st2)"
  shows "cu_attempts (load_snapshot st2) = cu_attempts (load_snapshot st')"
proof -
  let ?snap = "load_snapshot st"
  let ?init = "(dict_of pat_fingerprint (\<lambda>a. a) (cu_attempts ?snap), cu_attempts ?snap,
    [] :: lookup_result list)"
  obtain d as ns' where f: "foldl (register_one t c) ?init ls = (d, as, ns')"
    by (cases "foldl (register_one t c) ?init ls")
  then have st': "cu_attempts (load_snapshot st') = as"
    using first by (auto simp: register_lookup_results_def Let_def load_snapshot_def)
  have "register_inv ?init" using n by (simp add: register_inv_def dict_of_get_None)
  then have "\<forall>l\<in>set ls. fingerprint l c \<in> pat_fingerprint ` set as"
    using register_fold_covers f by blast
  then have "\<forall>l\<in>set ls'. dict_get (dict_of pat_fingerprint (\<lambda>a. a) as) (fingerprint l c) \<noteq> None"
    using again(1) by (auto simp: dict_of_get_None)
  then obtain ns'' where "foldl (register_one t' c)
      (dict_of pat_fingerprint (\<lambda>a. a) as, as, []) ls' = (dict_of pat_fingerprint (\<lambda>a. a) as, as, ns'')"
    using register_fold_known by blast
  then show ?thesis
    using again(2) st' by (auto simp: register_lookup_results_def Let_def load_snapshot_def)
qed

section \<open>Properties\<close>

text \<open>
  C32. A restart forgets no open order: after a workflow is persisted, the next resume asks for every
  expected order, for every order whose last state in the workflow is pending, and for every order that
  was unresolved before and that the workflow says nothing about; an unresolved order is only dropped
  when its last state in the workflow is not pending.
\<close>

theorem restart_forgets_no_order:
  assumes "persist_workflow_state w t c g st = (snap, st')"
  shows "set ids \<subseteq> set (resume_expected_order_ids st' ids) \<and>
    (\<forall>i x. find (\<lambda>s. os_order_id s = i) (rev (wr_order_states w)) = Some x \<longrightarrow> is_pending x \<longrightarrow>
       i \<in> set (resume_expected_order_ids st' ids)) \<and>
    (\<forall>i\<in>set (cu_unresolved (load_snapshot st)).
       i \<notin> os_order_id ` set (wr_order_states w) \<longrightarrow> i \<in> set (resume_expected_order_ids st' ids))"
  using json.resume_ids json.pending_order_resumed [OF _ _ assms]
    json.unmentioned_order_resumed [OF _ _ assms] by blast

definition sample_workflow :: "order_state list \<Rightarrow> workflow_result" where
  "sample_workflow ss =
     \<lparr>wr_reconciliation = sample_rr [], wr_order_states = ss, wr_recovered_fills = [], wr_events = [],
      wr_attempts = [], wr_summaries = [], wr_alerts = [], wr_trigger_reason = None,
      wr_automatic = False, wr_gap_detected = False, wr_resumed = False, wr_convergence = None\<rparr>"

lemma restart_forgets_no_order_witness:
  "\<exists>snap st'. persist_workflow_state (sample_workflow [sample_order RECOVERING (Dec 2)]) (utc 9) None False
      (Some (empty_snapshot\<lparr>cu_unresolved := [''gone'']\<rparr>)) = (snap, st') \<and>
     {''e'', ''gone'', os_order_id (sample_order RECOVERING (Dec 2))}
       \<subseteq> set (resume_expected_order_ids st' [''e''])"
proof -
  let ?w = "sample_workflow [sample_order RECOVERING (Dec 2)]"
  let ?st = "Some (empty_snapshot\<lparr>cu_unresolved := [''gone'']\<rparr>)"
  obtain snap st' where p: "persist_workflow_state ?w (utc 9) None False ?st = (snap, st')"
    by (cases "persist_workflow_state ?w (utc 9) None False ?st")
  have "os_order_id (sample_order RECOVERING (Dec 2)) \<noteq> ''gone''" "is_pending (sample_order RECOVERING (Dec 2))"
    by (simp_all add: sample_order_def is_pending_def)
  then have "{''e'', ''gone'', os_order_id (sample_order RECOVERING (Dec 2))}
      \<subseteq> set (resume_expected_order_ids st' [''e''])"
    using restart_forgets_no_order [OF p, of "[''e'']"]
    by (auto simp: sample_workflow_def load_snapshot_def)
  with p show ?thesis by blast
qed

text \<open>
  Lookup attempts are numbered and stored once: registering lookups returns them unchanged but
  for their attempt numbers, keeps what is unresolved, keeps the stored attempts on every lookup
  numbered 1, 2, 3, ... with no fingerprint stored twice, and registering any of them again under the
  same cursor stores nothing new.
\<close>

theorem attempts_numbered_once:
  assumes "numbered (cu_attempts (load_snapshot st))"
    and "register_lookup_results ls t c st = (ns, st')"
    and "set ls' \<subseteq> set ls" and "register_lookup_results ls' t' c st' = (ns2, st2)"
  shows "map unnumbered ns = map unnumbered ls \<and>
    cu_unresolved (load_snapshot st') = cu_unresolved (load_snapshot st) \<and>
    numbered (cu_attempts (load_snapshot st')) \<and>
    cu_attempts (load_snapshot st2) = cu_attempts (load_snapshot st')"
  using register_lookup_results_facts [OF assms(2)] register_twice [OF assms] assms(1) by simp

lemma attempts_numbered_once_witness:
  "\<exists>ns st' ns2 st2.
     register_lookup_results [sample_lookup False ''o1'' [] []] (utc 1) None None = (ns, st') \<and>
     register_lookup_results [sample_lookup False ''o1'' [] []] (utc 2) None st' = (ns2, st2) \<and>
     cu_attempts (load_snapshot st2) = cu_attempts (load_snapshot st')"
proof -
  let ?ls = "[sample_lookup False ''o1'' [] []]"
  obtain ns st' where a: "register_lookup_results ?ls (utc 1) None None = (ns, st')"
    by (cases "register_lookup_results ?ls (utc 1) None None")
  obtain ns2 st2 where b: "register_lookup_results ?ls (utc 2) None st' = (ns2, st2)"
    by (cases "register_lookup_results ?ls (utc 2) None st'")
  have "numbered (cu_attempts (load_snapshot None))"
    by (simp add: load_snapshot_def empty_snapshot_def numbered_def attempts_of_def)
  from attempts_numbered_once [OF this a _ b] a b show ?thesis by blast
qed

text \<open>
  Orders needing manual attention stay unresolved: if the persisted state lists every order that
  needs attention among the unresolved ones, it still does after any workflow is persisted.
\<close>

theorem manual_attention_unresolved:
  assumes "set (cu_manual_attention (load_snapshot st)) \<subseteq> set (cu_unresolved (load_snapshot st))"
    and "persist_workflow_state w t c g st = (snap, st')"
  shows "set (cu_manual_attention (load_snapshot st')) \<subseteq> set (cu_unresolved (load_snapshot st'))"
proof -
  have "load_snapshot st' = next_snapshot w t c g (load_snapshot st)"
    using assms(2) by (auto simp: persist_workflow_state_def Let_def load_snapshot_def)
  then show ?thesis
    using track_subset [OF needs_attention_pending assms(1)]
    by (simp add: next_snapshot_ids)
qed

lemma manual_attention_unresolved_witness:
  "\<exists>snap st'. persist_workflow_state (sample_workflow [sample_order RECOVERING (Dec 2)]) (utc 9) None False None
      = (snap, st') \<and>
     set (cu_manual_attention (load_snapshot st')) \<subseteq> set (cu_unresolved (load_snapshot st'))"
proof -
  let ?w = "sample_workflow [sample_order RECOVERING (Dec 2)]"
  obtain snap st' where p: "persist_workflow_state ?w (utc 9) None False None = (snap, st')"
    by (cases "persist_workflow_state ?w (utc 9) None False None")
  have "set (cu_manual_attention (load_snapshot None)) \<subseteq> set (cu_unresolved (load_snapshot None))"
    by (simp add: load_snapshot_def empty_snapshot_def)
  from manual_attention_unresolved [OF this p] p show ?thesis by blast
qed

end
