(* ===== verification/PrivateStream.thy ===== *)
theory PrivateStream
  imports PayloadTranslator
begin

text \<open>
  \<open>app/exchanges/binance/private_stream_client.py\<close>: the private stream's session lifecycle, its
  health, and the normalisation of raw payloads into batches. The transport is the protocol
  \<open>BinancePrivateStreamTransport\<close>: the record of operations \<open>stream_ops\<close> over a transport state.
\<close>

section \<open>Sessions\<close>

record 't stream_ops =
  so_open :: "string \<Rightarrow> 't \<Rightarrow> (string \<times> 't) result"
  so_subscribe :: "string \<Rightarrow> string \<Rightarrow> 't \<Rightarrow> (stream_subscription \<times> 't) result"
  so_close :: "string \<Rightarrow> 't \<Rightarrow> 't result"

record stream_client =
  psc_scope :: string
  psc_ttl :: timedelta
  psc_rollover_window :: timedelta
  psc_heartbeat_timeout :: timedelta
  psc_method :: string

definition default_stream_client :: stream_client where
  "default_stream_client =
     \<lparr>psc_scope = ''spot'', psc_ttl = seconds (24 * 3600), psc_rollover_window = seconds (55 * 60),
      psc_heartbeat_timeout = seconds 90, psc_method = ''userDataStream.subscribe.signature''\<rparr>"

definition initialize_session ::
    "stream_client \<Rightarrow> string \<Rightarrow> datetime \<Rightarrow> string option \<Rightarrow> string option \<Rightarrow> datetime option
      \<Rightarrow> string option \<Rightarrow> private_session" where
  "initialize_session cl stream_key started_at connection subscription expires_at bootstrap =
     \<lparr>ses_stream_key = stream_key, ses_state = AUTHENTICATED, ses_account_scope = psc_scope cl,
      ses_started_at = started_at,
      ses_expires_at = Some (case expires_at of None \<Rightarrow> dt_add started_at (psc_ttl cl) | Some t \<Rightarrow> t),
      ses_connection_id = connection, ses_subscription_id = subscription,
      ses_bootstrap_method = py_or bootstrap (psc_method cl), ses_last_message_at = None,
      ses_last_keepalive_at = None, ses_reconnect_attempts = 0, ses_alerts = []\<rparr>"

definition subscribe :: "private_session \<Rightarrow> private_session" where
  "subscribe s = s\<lparr>ses_state := SUBSCRIBED\<rparr>"

definition open_subscription ::
    "'t stream_ops \<Rightarrow> string \<Rightarrow> 't \<Rightarrow> (string \<times> stream_subscription \<times> 't) result" where
  "open_subscription ops scope t0 =
     r_bind (so_open ops scope t0) (\<lambda>(connection, t1).
     r_bind (so_subscribe ops connection scope t1) (\<lambda>(sub, t2). Inr (connection, sub, t2)))"

definition close_session :: "'t stream_ops \<Rightarrow> private_session \<Rightarrow> 't \<Rightarrow> 't result" where
  "close_session ops s t =
     (case ses_connection_id s of None \<Rightarrow> Inr t | Some c \<Rightarrow> so_close ops c t)"

definition bootstrap_session ::
    "stream_client \<Rightarrow> 't stream_ops \<Rightarrow> datetime \<Rightarrow> 't \<Rightarrow> (private_session \<times> 't) result" where
  "bootstrap_session cl ops started_at t =
     r_bind (open_subscription ops (psc_scope cl) t) (\<lambda>(connection, sub, t').
       Inr (subscribe (initialize_session cl (sub_stream_key sub) started_at (Some connection)
              (Some (sub_subscription_id sub)) (sub_expires_at sub)
              (Some (sub_bootstrap_method sub))), t'))"

definition mark_streaming :: "private_session \<Rightarrow> datetime \<Rightarrow> private_session" where
  "mark_streaming s occurred_at = s\<lparr>ses_state := STREAMING, ses_last_message_at := Some occurred_at\<rparr>"

definition refresh_session ::
    "stream_client \<Rightarrow> 't stream_ops option \<Rightarrow> private_session \<Rightarrow> datetime \<Rightarrow> 't
      \<Rightarrow> (private_session \<times> 't) result" where
  "refresh_session cl transport s occurred_at t =
     (let renewed = s\<lparr>ses_state := STREAMING, ses_started_at := occurred_at,
            ses_last_keepalive_at := Some occurred_at,
            ses_alerts := ses_alerts s @ [''private stream subscription renewed'']\<rparr>;
          fresh_expiry = dt_add occurred_at (psc_ttl cl)
      in case transport of
           None \<Rightarrow> Inr (renewed\<lparr>ses_expires_at := Some fresh_expiry\<rparr>, t)
         | Some ops \<Rightarrow>
             r_bind (close_session ops s t) (\<lambda>t1.
             r_bind (open_subscription ops (ses_account_scope s) t1) (\<lambda>(connection, sub, t2).
               Inr (renewed\<lparr>ses_stream_key := sub_stream_key sub,
                      ses_connection_id := Some connection,
                      ses_subscription_id := Some (sub_subscription_id sub),
                      ses_expires_at := Some (case sub_expires_at sub of None \<Rightarrow> fresh_expiry
                        | Some e \<Rightarrow> e),
                      ses_bootstrap_method := sub_bootstrap_method sub\<rparr>, t2))))"

definition reconnect_session ::
    "'t stream_ops \<Rightarrow> private_session \<Rightarrow> datetime \<Rightarrow> 't \<Rightarrow> (private_session \<times> 't) result" where
  "reconnect_session ops s occurred_at t =
     r_bind (close_session ops s t) (\<lambda>t1.
     r_bind (open_subscription ops (ses_account_scope s) t1) (\<lambda>(connection, sub, t2).
       Inr (s\<lparr>ses_stream_key := sub_stream_key sub, ses_state := STREAMING,
              ses_expires_at := (case sub_expires_at sub of None \<Rightarrow> ses_expires_at s | Some e \<Rightarrow> Some e),
              ses_connection_id := Some connection,
              ses_subscription_id := Some (sub_subscription_id sub),
              ses_bootstrap_method := sub_bootstrap_method sub,
              ses_last_message_at := Some occurred_at,
              ses_reconnect_attempts := ses_reconnect_attempts s + 1,
              ses_alerts := [''private stream reconnected'']\<rparr>, t2)))"

section \<open>Health\<close>

definition on_reconnect :: "private_session \<Rightarrow> datetime \<Rightarrow> string option \<Rightarrow> stream_health" where
  "on_reconnect s occurred_at connection =
     \<lparr>sh_state = STREAMING, sh_reconnect_attempts = ses_reconnect_attempts s + 1,
      sh_last_message_at = Some occurred_at, sh_last_reconnect_at = Some occurred_at,
      sh_session_expires_at = ses_expires_at s, sh_is_authoritative = True,
      sh_alerts = ''private stream reconnected''
        # (if truthy connection then [''private stream connection replaced''] else [])\<rparr>"

definition check_session_rollover ::
    "stream_client \<Rightarrow> private_session \<Rightarrow> datetime \<Rightarrow> stream_health option" where
  "check_session_rollover cl s occurred_at =
     (case ses_expires_at s of
        None \<Rightarrow> None
      | Some e \<Rightarrow>
          if psc_ttl cl - psc_rollover_window cl < dt_diff e occurred_at then None
          else Some \<lparr>sh_state = SESSION_ROLLOVER, sh_reconnect_attempts = ses_reconnect_attempts s,
                 sh_last_message_at = Some (case ses_last_message_at s of None \<Rightarrow> occurred_at
                   | Some m \<Rightarrow> m),
                 sh_last_reconnect_at = None, sh_session_expires_at = Some e,
                 sh_is_authoritative = False,
                 sh_alerts = [''private stream subscription rollover required'']\<rparr>)"

definition shutdown ::
    "'t stream_ops option \<Rightarrow> private_session \<Rightarrow> datetime \<Rightarrow> 't \<Rightarrow> (stream_health \<times> 't) result" where
  "shutdown transport s occurred_at t =
     r_bind (case transport of None \<Rightarrow> Inr t | Some ops \<Rightarrow> close_session ops s t) (\<lambda>t'.
       Inr (\<lparr>sh_state = SHUTDOWN, sh_reconnect_attempts = ses_reconnect_attempts s,
             sh_last_message_at = Some occurred_at, sh_last_reconnect_at = None,
             sh_session_expires_at = ses_expires_at s, sh_is_authoritative = False,
             sh_alerts = [''private stream shutdown complete'']\<rparr>, t'))"

definition unhealthy ::
    "private_session \<Rightarrow> private_stream_state \<Rightarrow> string \<Rightarrow> stream_health" where
  "unhealthy s state alert =
     \<lparr>sh_state = state, sh_reconnect_attempts = ses_reconnect_attempts s,
      sh_last_message_at = ses_last_message_at s, sh_last_reconnect_at = None,
      sh_session_expires_at = ses_expires_at s, sh_is_authoritative = False, sh_alerts = [alert]\<rparr>"

definition check_runtime_health ::
    "stream_client \<Rightarrow> private_session \<Rightarrow> datetime option \<Rightarrow> stream_health option" where
  "check_runtime_health cl s occurred_at =
     (case occurred_at of
        None \<Rightarrow> None
      | Some now \<Rightarrow>
          if (case ses_expires_at s of None \<Rightarrow> False | Some e \<Rightarrow> dt_le e now) then
            Some (unhealthy s TERMINATED ''private stream subscription expired; reauthentication required'')
          else if (case ses_last_message_at s of None \<Rightarrow> False
                   | Some m \<Rightarrow> psc_heartbeat_timeout cl < dt_diff now m) then
            Some (unhealthy s DEGRADED ''private stream heartbeat overdue'')
          else None)"

definition build_health_snapshot ::
    "stream_client \<Rightarrow> private_session \<Rightarrow> private_batch option \<Rightarrow> datetime option \<Rightarrow> datetime option
      \<Rightarrow> stream_health" where
  "build_health_snapshot cl s batch occurred_at last_reconnect_at =
     (let resolved_time = (case batch of
              Some b \<Rightarrow> (case pb_last_event_time b of Some t \<Rightarrow> Some t
                | None \<Rightarrow> (case occurred_at of None \<Rightarrow> ses_last_message_at s | Some t \<Rightarrow> Some t))
            | None \<Rightarrow> (case occurred_at of None \<Rightarrow> ses_last_message_at s | Some t \<Rightarrow> Some t));
          (state, alerts, authoritative) = (case batch of
              None \<Rightarrow> (ses_state s, ses_alerts s, ses_state s = STREAMING)
            | Some b \<Rightarrow>
                (let st = (if pb_has_gap b \<and> pb_stream_state b \<noteq> TERMINATED then DEGRADED
                           else pb_stream_state b)
                 in (st, ses_alerts s @ pb_alerts b, st = STREAMING)));
          (state, alerts, authoritative) = (case check_runtime_health cl s occurred_at of
              None \<Rightarrow> (state, alerts, authoritative)
            | Some wd \<Rightarrow> if state \<noteq> TERMINATED
                then (sh_state wd, alerts @ sh_alerts wd, sh_is_authoritative wd)
                else (state, alerts, authoritative))
      in \<lparr>sh_state = state, sh_reconnect_attempts = ses_reconnect_attempts s,
          sh_last_message_at = resolved_time, sh_last_reconnect_at = last_reconnect_at,
          sh_session_expires_at = ses_expires_at s, sh_is_authoritative = authoritative,
          sh_alerts = dedup alerts\<rparr>)"

definition terminated_stream_health :: "datetime \<Rightarrow> string \<Rightarrow> stream_health" where
  "terminated_stream_health occurred_at reason =
     \<lparr>sh_state = TERMINATED, sh_reconnect_attempts = 0, sh_last_message_at = Some occurred_at,
      sh_last_reconnect_at = None, sh_session_expires_at = None, sh_is_authoritative = False,
      sh_alerts = [''private stream terminated: '' @ reason]\<rparr>"

section \<open>Normalisation\<close>

definition jget_or :: "payload \<Rightarrow> string \<Rightarrow> json \<Rightarrow> json" where
  "jget_or p k d = (case dict_get p k of None \<Rightarrow> d | Some v \<Rightarrow> v)"

definition opt_str :: "json \<Rightarrow> string option" where
  "opt_str v = (if v = JNull then None else Some (py_str v))"

definition updated_assets :: "json \<Rightarrow> string list result" where
  "updated_assets balances =
     (case balances of
        JList js \<Rightarrow> Inr (map (\<lambda>b. py_str (jget b ''a''))
                       (filter (\<lambda>b. jget b ''a'' \<noteq> JNull) (json_objects js)))
      | JStr s \<Rightarrow> Inr []
      | JObj kvs \<Rightarrow> Inr []
      | _ \<Rightarrow> Inl (TypeError ''object is not iterable''))"

definition stream_event ::
    "stream_client \<Rightarrow> string \<Rightarrow> private_event_family \<Rightarrow> datetime \<Rightarrow> (string, string) dict \<Rightarrow> private_event"
where
  "stream_event cl event_type family event_time summary =
     \<lparr>pe_event_type = event_type, pe_family = family, pe_event_time = event_time,
      pe_account_scope = psc_scope cl, pe_sequence_id = None, pe_client_order_id = None,
      pe_exchange_order_id = None, pe_summary = Some summary\<rparr>"

definition stream_end_types :: "string list" where
  "stream_end_types =
     [''listenKeyExpired'', ''eventStreamTerminated'', ''userDataStreamExpired'', ''sessionExpired'']"

definition normalize_event_payload :: "stream_client \<Rightarrow> payload \<Rightarrow> private_event result" where
  "normalize_event_payload cl p =
     (let event_type = payload_type p ''unknown'' in
      r_bind (json_int (jget_or p ''E'' (JInt 0))) (\<lambda>ms.
      r_bind (from_timestamp_ms ms) (\<lambda>event_time.
        if event_type = ''executionReport'' then
          Inr ((stream_event cl ''execution_report'' ORDER_UPDATE event_time
                  [(''order_status'', py_str (jget_or p ''X'' (JStr []))),
                   (''execution_type'', py_str (jget_or p ''x'' (JStr []))),
                   (''symbol'', py_str (jget_or p ''s'' (JStr [])))])
               \<lparr>pe_sequence_id := opt_str (jget p ''i''), pe_client_order_id := opt_str (jget p ''c''),
                pe_exchange_order_id := opt_str (jget p ''i'')\<rparr>)
        else if event_type = ''outboundAccountPosition'' then
          r_bind (updated_assets (jget_or p ''B'' (JList []))) (\<lambda>assets.
            Inr (stream_event cl ''account_update'' ACCOUNT_UPDATE event_time
                   [(''updated_assets'', str_join '','' assets)]))
        else if event_type = ''balanceUpdate'' then
          Inr (stream_event cl ''balance_update'' ACCOUNT_UPDATE event_time
                 [(''asset'', py_str (jget_or p ''a'' (JStr []))),
                  (''delta'', py_str (jget_or p ''d'' (JStr [])))])
        else if event_type \<in> set stream_end_types then
          Inr (stream_event cl ''stream_terminated'' STREAM_STATUS event_time
                 [(''reason'', event_type)])
        else Inl (ValueError ''unsupported private-stream payload''))))"

text \<open>The loop over the batch: its locals are the accumulator.\<close>

type_synonym ingest_state = "(string, int) dict \<times> datetime option \<times> string option \<times> bool"

definition ingest_one :: "ingest_state \<Rightarrow> private_event \<Rightarrow> ingest_state" where
  "ingest_one = (\<lambda>(counts, last_time, last_seq, terminated) e.
     (dict_set (family_value (pe_family e))
        (dict_get_default counts (family_value (pe_family e)) 0 + 1) counts,
      (case last_time of
         None \<Rightarrow> Some (pe_event_time e)
       | Some t \<Rightarrow> if dt_less t (pe_event_time e) then Some (pe_event_time e) else last_time),
      (case pe_sequence_id e of None \<Rightarrow> last_seq | Some i \<Rightarrow> Some i),
      terminated \<or> pe_family e = STREAM_STATUS))"

definition ingest_events ::
    "private_event list \<Rightarrow> string option \<Rightarrow> bool \<Rightarrow> private_stream_state \<Rightarrow> private_batch" where
  "ingest_events events cursor has_gap stream_state =
     (let (counts, last_time, last_seq, terminated) =
            foldl ingest_one ([], None, None, stream_state = TERMINATED) events
      in \<lparr>pb_events = events, pb_source = ''binance_private_stream'', pb_cursor = cursor,
          pb_has_gap = has_gap,
          pb_alerts = (if has_gap
              then [''private-stream gap detected; reconciliation fallback required''] else [])
            @ (if terminated
              then [''private stream terminated; session reinitialization required''] else []),
          pb_stream_state = (if terminated then TERMINATED else stream_state),
          pb_family_counts = counts, pb_last_event_time = last_time,
          pb_last_sequence_id = last_seq\<rparr>)"

definition ingest_payloads ::
    "stream_client \<Rightarrow> payload list \<Rightarrow> string option \<Rightarrow> bool \<Rightarrow> private_batch result" where
  "ingest_payloads cl payloads cursor has_gap =
     r_bind (r_map (normalize_event_payload cl) payloads) (\<lambda>events.
       Inr (ingest_events events cursor has_gap STREAMING))"

definition events_for_reconciliation :: "private_batch \<Rightarrow> private_event list" where
  "events_for_reconciliation b = filter (\<lambda>e. pe_family e = ORDER_UPDATE) (pb_events b)"

definition summary_assets :: "private_event \<Rightarrow> string list" where
  "summary_assets e =
     (let d = (case pe_summary e of None \<Rightarrow> [] | Some d \<Rightarrow> d)
      in (if truthy (dict_get d ''updated_assets'')
          then filter (\<lambda>a. a \<noteq> []) (str_split CHR '','' (the (dict_get d ''updated_assets''))) else [])
         @ (if truthy (dict_get d ''asset'') then [the (dict_get d ''asset'')] else []))"

definition map_account_sync_summary ::
    "stream_client \<Rightarrow> private_event list \<Rightarrow> account_sync_summary option" where
  "map_account_sync_summary cl events =
     (let account_events = filter (\<lambda>e. pe_family e = ACCOUNT_UPDATE) events
      in if account_events = [] then None
         else Some \<lparr>asy_account_scope = psc_scope cl, asy_event_time = pe_event_time (last account_events),
                asy_updated_assets = dedup (concat (map summary_assets account_events)),
                asy_alerts = []\<rparr>)"

section \<open>Facts\<close>

lemma health_authoritative:
  "sh_is_authoritative (build_health_snapshot cl s batch now reconnect) \<longleftrightarrow>
     sh_state (build_health_snapshot cl s batch now reconnect) = STREAMING"
proof (cases "check_runtime_health cl s now")
  case None
  then show ?thesis by (cases batch) (simp_all add: build_health_snapshot_def Let_def)
next
  case (Some wd)
  then have "\<not> sh_is_authoritative wd" "sh_state wd \<noteq> STREAMING"
    by (auto simp: check_runtime_health_def unhealthy_def split: option.splits if_splits)
  with Some show ?thesis by (cases batch) (simp_all add: build_health_snapshot_def Let_def)
qed

lemma ingest_terminated:
  "(case foldl ingest_one (c, t, q, b) es of (c', t', q', b') \<Rightarrow> b')
     \<longleftrightarrow> b \<or> (\<exists>e\<in>set es. pe_family e = STREAM_STATUS)"
  by (induction es arbitrary: c t q b) (simp_all add: ingest_one_def)

lemma ingest_state:
  "pb_stream_state (ingest_events es c g st) =
     (if st = TERMINATED \<or> (\<exists>e\<in>set es. pe_family e = STREAM_STATUS) then TERMINATED else st)"
proof -
  obtain c' t' q' b' where f: "foldl ingest_one ([], None, None, st = TERMINATED) es = (c', t', q', b')"
    by (cases "foldl ingest_one ([], None, None, st = TERMINATED) es") auto
  then have "b' \<longleftrightarrow> st = TERMINATED \<or> (\<exists>e\<in>set es. pe_family e = STREAM_STATUS)"
    using ingest_terminated [of "[]" None None "st = TERMINATED" es] by simp
  with f show ?thesis by (simp add: ingest_events_def)
qed

lemma ingest_fields [simp]:
  "pb_events (ingest_events es c g st) = es" "pb_has_gap (ingest_events es c g st) = g"
  by (simp_all add: ingest_events_def Let_def split: prod.splits)

section \<open>Properties\<close>

text \<open>
  Authority of the private stream: a health snapshot is authoritative exactly when its state is
  STREAMING, and then the batch had no gap and no termination event, the session has not expired and
  its heartbeat is not overdue.
\<close>

theorem authoritative_means_healthy:
  "(sh_is_authoritative (build_health_snapshot cl s batch (Some now) reconnect) \<longleftrightarrow>
      sh_state (build_health_snapshot cl s batch (Some now) reconnect) = STREAMING) \<and>
   (sh_is_authoritative (build_health_snapshot cl s (Some (ingest_events es c g STREAMING)) (Some now) reconnect)
    \<longrightarrow> \<not> g \<and> (\<forall>e\<in>set es. pe_family e \<noteq> STREAM_STATUS) \<and>
      opt_all (\<lambda>e. dt_less now e) (ses_expires_at s) \<and>
      opt_all (\<lambda>m. dt_diff now m \<le> psc_heartbeat_timeout cl) (ses_last_message_at s))"
proof (intro conjI impI)
  show "sh_is_authoritative (build_health_snapshot cl s batch (Some now) reconnect) \<longleftrightarrow>
      sh_state (build_health_snapshot cl s batch (Some now) reconnect) = STREAMING"
    by (rule health_authoritative)
  assume a: "sh_is_authoritative
      (build_health_snapshot cl s (Some (ingest_events es c g STREAMING)) (Some now) reconnect)"
  have "check_runtime_health cl s (Some now) = None"
  proof (rule ccontr)
    assume "check_runtime_health cl s (Some now) \<noteq> None"
    then obtain wd where "check_runtime_health cl s (Some now) = Some wd" "\<not> sh_is_authoritative wd"
      by (auto simp: check_runtime_health_def unhealthy_def split: if_splits)
    with a show False by (auto simp: build_health_snapshot_def Let_def split: if_splits)
  qed
  note c = this
  show "opt_all (\<lambda>e. dt_less now e) (ses_expires_at s)"
    "opt_all (\<lambda>m. dt_diff now m \<le> psc_heartbeat_timeout cl) (ses_last_message_at s)"
    using c by (auto simp: check_runtime_health_def opt_all_def not_less dt_not_less [symmetric]
        split: if_splits option.splits)
  show "\<not> g" "\<forall>e\<in>set es. pe_family e \<noteq> STREAM_STATUS"
    using a c by (auto simp: build_health_snapshot_def ingest_state split: if_splits)
qed

definition sample_session :: "int \<Rightarrow> private_session" where
  "sample_session expires =
     mark_streaming (initialize_session default_stream_client ''key'' (utc 0) None None
       (Some (utc expires)) None) (utc 0)"

lemma authoritative_means_healthy_witness:
  "\<not> sh_is_authoritative (build_health_snapshot default_stream_client (sample_session 50)
     (Some (ingest_events [] None False STREAMING)) (Some (utc 60)) None)"
  using authoritative_means_healthy [of default_stream_client "sample_session 50" None "utc 60" None
      "[]" None False]
  by (auto simp: sample_session_def mark_streaming_def initialize_session_def opt_all_def)

text \<open>
  The session rollover is not tied to the end of the session: with the default settings it is
  demanded whenever at most 23 hours and 5 minutes of the 24-hour session remain, that is from 55
  minutes after the start on, although it is meant for sessions near expiry.
\<close>

theorem rollover_demanded_early:
  assumes "ses_expires_at s = Some e"
  shows "check_session_rollover default_stream_client s now \<noteq> None \<longleftrightarrow>
    dt_diff e now \<le> seconds (24 * 3600 - 55 * 60)"
  using assms by (simp add: check_session_rollover_def default_stream_client_def seconds_def not_less)

lemma rollover_demanded_early_witness:
  "check_session_rollover default_stream_client (sample_session (24 * 3600 * 1000000))
     (utc (3600 * 1000000)) \<noteq> None"
  using rollover_demanded_early [of "sample_session (24 * 3600 * 1000000)"
      "utc (24 * 3600 * 1000000)" "utc (3600 * 1000000)"]
  by (simp add: sample_session_def mark_streaming_def initialize_session_def seconds_def)

text \<open>
  Two readings of the same end-of-session payload: for the types userDataStreamExpired and
  sessionExpired the stream client ends the batch as TERMINATED, while the translator ignores the
  payload and does not mark the stream as invalidated.
\<close>

theorem session_end_read_differently:
  assumes "dict_get p ''e'' = Some (JStr ty)" and "ty \<in> {''userDataStreamExpired'', ''sessionExpired''}"
    and "dict_get p ''E'' = Some (JInt ms)" and "0 \<le> ms" and "ms < 253402300800000"
  shows "(\<exists>b. ingest_payloads cl [p] cursor gap = Inr b \<and> pb_stream_state b = TERMINATED) \<and>
    (\<exists>t. translate_payload env tr p = Inr t \<and> pt_status t = IGNORED \<and> \<not> pt_stream_invalidated t)"
proof -
  have ts: "from_timestamp_ms ms = Inr (utc (ms * 1000))"
    using assms(4,5) by (simp add: from_timestamp_ms_def)
  have ty: "payload_type p d = ty" for d using assms(1) by (simp add: payload_type_def)
  have neq: "ty \<noteq> ''executionReport''" "ty \<noteq> ''outboundAccountPosition''" "ty \<noteq> ''balanceUpdate''"
    "ty \<noteq> ''listenKeyExpired''" "ty \<noteq> ''eventStreamTerminated''" "ty \<in> set stream_end_types"
    using assms(2) by (auto simp: stream_end_types_def)
  have n: "normalize_event_payload cl p = Inr (stream_event cl ''stream_terminated'' STREAM_STATUS
      (utc (ms * 1000)) [(''reason'', ty)])"
    using neq assms(3) ts by (simp add: normalize_event_payload_def ty jget_or_def json_int_def)
  have "pe_family (stream_event cl ''stream_terminated'' STREAM_STATUS (utc (ms * 1000))
      [(''reason'', ty)]) = STREAM_STATUS" by (simp add: stream_event_def)
  then have "\<exists>b. ingest_payloads cl [p] cursor gap = Inr b \<and> pb_stream_state b = TERMINATED"
    by (simp add: ingest_payloads_def n ingest_state)
  moreover have "parse_event_time (jget p ''E'') = Inr (Some (utc (ms * 1000)))"
    using assms(3) ts by (simp add: parse_event_time_def jget_def json_int_def catching_def)
  then have "\<exists>t. translate_payload env tr p = Inr t \<and> pt_status t = IGNORED \<and> \<not> pt_stream_invalidated t"
    using neq by (simp add: translate_payload_def ty Let_def)
  ultimately show ?thesis by blast
qed

lemma session_end_read_differently_witness:
  "\<exists>t. translate_payload sample_env sample_translator [(''e'', JStr ''sessionExpired''), (''E'', JInt 5)]
     = Inr t \<and> \<not> pt_stream_invalidated t"
  using session_end_read_differently [of "[(''e'', JStr ''sessionExpired''), (''E'', JInt 5)]"
      "''sessionExpired''" 5 default_stream_client None False sample_env sample_translator]
  by auto

end
