(* ===== verification/Reconciliation.thy ===== *)
theory Reconciliation
  imports OrderClient ReconStore PrivateStream
begin

text \<open>
  \<open>app/exchanges/binance/reconciliation.py\<close>: comparing the expected orders with the private events,
  the automatic recovery plan, the lookup rounds, and the whole transport-backed reconciliation. The
  lookup transport is a record of operations with its state threaded through (\<open>status_lookup\<close> is its
  contract); the optional state store is a record of operations too (\<open>recovery_store\<close>).
\<close>

section \<open>Comparing expectations with events\<close>

definition unexpected :: "string list \<Rightarrow> private_event \<Rightarrow> bool" where
  "unexpected expected e \<longleftrightarrow>
     truthy (pe_sequence_id e) \<and> the (pe_sequence_id e) \<notin> set expected"

definition reconcile :: "string list \<Rightarrow> private_event list \<Rightarrow> reconciliation_result" where
  "reconcile expected events =
     (let seen = List.map_filter (\<lambda>e. if truthy (pe_sequence_id e) then pe_sequence_id e else None) events;
          foreign = filter (unexpected expected) events;
          unknown = map (\<lambda>e. the (pe_sequence_id e)) foreign;
          missing = filter (\<lambda>i. i \<notin> set seen) expected
      in \<lparr>rr_matched = filter (\<lambda>i. i \<in> set seen) expected, rr_missing = missing,
          rr_unknown_ids = unknown,
          rr_alerts = (if missing \<noteq> []
              then [''missing private-stream updates for one or more orders''] else [])
            @ (if unknown \<noteq> []
              then [''unknown execution ids observed; recovery flow required''] else []),
          rr_unknown_client_ids = dedup (map (\<lambda>e. the (pe_client_order_id e))
            (filter (\<lambda>e. truthy (pe_client_order_id e)) foreign)),
          rr_unknown_exchange_only_ids = dedup (map (\<lambda>e. the (pe_sequence_id e))
            (filter (\<lambda>e. \<not> truthy (pe_client_order_id e)) foreign)),
          rr_actions = (if missing \<noteq> [] then [QUERY_ORDER_STATUS, HOLD_PORTFOLIO_MUTATION] else [])
            @ (if unknown \<noteq> [] then [QUERY_OPEN_ORDERS, ESCALATE_OPERATOR] else [])\<rparr>)"

definition lookup_stub :: "string \<Rightarrow> string \<Rightarrow> lookup_result" where
  "lookup_stub field val =
     \<lparr>lk_found = False, lk_field = field, lk_value = val, lk_source = ''order_status_placeholder'',
      lk_status_summary = None, lk_alert = Some ''transport not implemented; lookup is placeholder only'',
      lk_order_state = None, lk_fill_events = [], lk_attempt_number = 1\<rparr>"

definition plan_actions :: "reconciliation_result \<Rightarrow> recovery_action list" where
  "plan_actions rr = (if rr_actions rr = [] then [NO_ACTION] else rr_actions rr)"

definition build_recovery_plan :: "reconciliation_result \<Rightarrow> recovery_plan" where
  "build_recovery_plan rr =
     \<lparr>rp_reason = ''reconciliation uncertainty'', rp_actions = plan_actions rr,
      rp_lookup_requests = map (Pair ''exchange_order_id'') (rr_missing rr)
        @ map (Pair ''exchange_order_id'') (rr_unknown_ids rr),
      rp_alerts = rr_alerts rr, rp_trigger = NOT_REQUIRED, rp_automatic = False,
      rp_gap_detected = False, rp_resumed = False\<rparr>"

definition lookup_requests :: "reconciliation_result \<Rightarrow> (string \<times> string) list" where
  "lookup_requests rr =
     dedup (map (Pair ''exchange_order_id'') (rr_missing rr)
        @ map (Pair ''client_order_id'') (rr_unknown_client_ids rr)
        @ map (Pair ''exchange_order_id'') (rr_unknown_exchange_only_ids rr))"

definition recovery_trigger ::
    "reconciliation_result \<Rightarrow> bool \<Rightarrow> bool \<Rightarrow> trigger_reason \<times> string" where
  "recovery_trigger rr gap resumed =
     (if gap then (PRIVATE_STREAM_GAP, ''automatic recovery triggered by private-stream gap'')
      else if resumed then (RESTART_RESUME,
        ''automatic recovery resumed from persisted unresolved reconciliation state'')
      else if rr_unknown_ids rr \<noteq> [] then (UNKNOWN_EXECUTION_TRIGGER,
        ''automatic recovery triggered by unknown execution'')
      else if rr_missing rr \<noteq> [] then (MISSING_PRIVATE_UPDATES,
        ''automatic recovery triggered by missing private-stream updates'')
      else (NOT_REQUIRED, ''no automatic recovery required''))"

definition build_automatic_recovery_plan ::
    "reconciliation_result \<Rightarrow> bool \<Rightarrow> bool \<Rightarrow> recovery_plan" where
  "build_automatic_recovery_plan rr gap resumed =
     (let (trigger, reason) = recovery_trigger rr gap resumed;
          automatic = (lookup_requests rr \<noteq> [] \<and> trigger \<noteq> NOT_REQUIRED)
      in \<lparr>rp_reason = reason, rp_actions = plan_actions rr, rp_lookup_requests = lookup_requests rr,
          rp_alerts = dedup (rr_alerts rr @ (if automatic then [reason] else [])),
          rp_trigger = trigger, rp_automatic = automatic, rp_gap_detected = gap,
          rp_resumed = resumed\<rparr>)"

definition unknown_execution_fallbacks ::
    "string list \<Rightarrow> private_event list \<Rightarrow> (string, string) dict" where
  "unknown_execution_fallbacks expected events =
     foldl (\<lambda>d e. dict_setdefault (the (pe_client_order_id e)) (the (pe_exchange_order_id e)) d) []
       (filter (\<lambda>e. unexpected expected e \<and> truthy (pe_client_order_id e) \<and>
                     truthy (pe_exchange_order_id e)) events)"

section \<open>The lookup rounds\<close>

definition terminal_lookup_statuses :: "string list" where
  "terminal_lookup_statuses = [''filled'', ''cancelled'', ''rejected'', ''expired'']"

definition reports_terminal :: "lookup_result \<Rightarrow> bool" where
  "reports_terminal l \<longleftrightarrow>
     lk_found l \<and> opt_any (\<lambda>s. s \<in> set terminal_lookup_statuses) (lk_status_summary l)"

definition should_use_fallback :: "lookup_result \<Rightarrow> query_health option \<Rightarrow> bool" where
  "should_use_fallback l health =
     (let open_status = (\<not> opt_any (\<lambda>s. s \<in> set terminal_lookup_statuses) (lk_status_summary l)) in
      if reports_terminal l then False
      else if opt_any (\<lambda>h. opt_any (\<lambda>s. 400 \<le> s \<and> s < 500) (qh_http_status h)) health then True
      else (case lk_alert l of
              None \<Rightarrow> \<not> lk_found l \<or> open_status
            | Some alert \<Rightarrow>
                (let low = str_lower alert in
                 str_contains ''http error 4'' low \<or> str_contains ''bad request'' low \<or>
                 str_contains ''does not exist'' low \<or> str_contains ''not found'' low \<or>
                 \<not> lk_found l \<or> open_status)))"

record 't round_state =
  rd_lookups :: "lookup_result list"
  rd_health :: "query_health list"
  rd_switched :: "(string, string) dict"
  rd_latest :: "(string, lookup_result) dict"
  rd_transport :: 't

definition rounds_start :: "'t \<Rightarrow> 't round_state" where
  "rounds_start t =
     \<lparr>rd_lookups = [], rd_health = [], rd_switched = [], rd_latest = [], rd_transport = t\<rparr>"

definition lookup_by :: "'t lookup_ops \<Rightarrow> string \<Rightarrow> string \<Rightarrow> 't \<Rightarrow> (lookup_result \<times> 't) result" where
  "lookup_by ops field val t =
     (if field = ''client_order_id'' then lookup_order_by_client_id (Some ops) val t
      else lookup_order_by_exchange_id (Some ops) val t)"

text \<open>What one iteration of the inner loop appends to the lists and dictionaries.\<close>

definition record_lookup ::
    "lookup_result \<Rightarrow> query_health list \<Rightarrow> 't \<Rightarrow> 't round_state \<Rightarrow> 't round_state" where
  "record_lookup l health t st =
     st\<lparr>rd_lookups := rd_lookups st @ [l], rd_health := rd_health st @ health,
        rd_latest := dict_set (lk_value l) l (rd_latest st), rd_transport := t\<rparr>"

definition opt_list :: "'a option \<Rightarrow> 'a list" where
  "opt_list x = (case x of None \<Rightarrow> [] | Some y \<Rightarrow> [y])"

definition effective_lookup :: "(string, string) dict \<Rightarrow> string \<Rightarrow> string \<Rightarrow> string \<times> string" where
  "effective_lookup switched field val =
     (let v = dict_get_default switched val val
      in (if field = ''client_order_id'' \<and> v \<noteq> val then ''exchange_order_id'' else field, v))"

definition one_request ::
    "'t lookup_ops \<Rightarrow> (string, string) dict \<Rightarrow> 't round_state \<Rightarrow> string \<times> string
      \<Rightarrow> 't round_state result" where
  "one_request ops fallbacks st = (\<lambda>(field, val).
     (let (eff_field, eff_value) = effective_lookup (rd_switched st) field val in
      r_bind (lookup_by ops eff_field eff_value (rd_transport st)) (\<lambda>(l, t).
        let health = lo_health ops t;
            fallback = (if field = ''client_order_id'' then dict_get fallbacks val else None)
        in case fallback of
             Some oid \<Rightarrow>
               if eff_field = ''client_order_id'' \<and> should_use_fallback l health then
                 r_bind (lookup_order_by_exchange_id (Some ops) oid t) (\<lambda>(l', t').
                   Inr (record_lookup l' (opt_list health @ opt_list (lo_health ops t')) t'
                          (st\<lparr>rd_switched := dict_set val oid (rd_switched st)\<rparr>)))
               else Inr (record_lookup l (opt_list health) t st)
           | None \<Rightarrow> Inr (record_lookup l (opt_list health) t st))))"

fun lookup_rounds ::
    "'t lookup_ops \<Rightarrow> (string, string) dict \<Rightarrow> bool \<Rightarrow> (string \<times> string) list \<Rightarrow> nat
      \<Rightarrow> 't round_state \<Rightarrow> 't round_state result" where
  "lookup_rounds ops fallbacks automatic requests 0 st = Inr st"
| "lookup_rounds ops fallbacks automatic requests (Suc n) st =
     r_bind (r_foldl (one_request ops fallbacks) st requests) (\<lambda>st'.
       if \<not> automatic \<or> rd_latest st' = [] then Inr st'
       else if list_all (\<lambda>(k, l). reports_terminal l) (rd_latest st') then Inr st'
       else lookup_rounds ops fallbacks automatic requests n st')"

section \<open>The transport-backed reconciliation\<close>

record 's store_ops =
  sp_load :: "'s \<Rightarrow> cursor_snapshot"
  sp_resume :: "'s \<Rightarrow> string list \<Rightarrow> string list"
  sp_register :: "lookup_result list \<Rightarrow> datetime \<Rightarrow> string option \<Rightarrow> 's \<Rightarrow> lookup_result list \<times> 's"
  sp_persist :: "workflow_result \<Rightarrow> datetime \<Rightarrow> string option \<Rightarrow> bool \<Rightarrow> 's \<Rightarrow> cursor_snapshot \<times> 's"

definition json_store_ops :: "json_store store_ops" where
  "json_store_ops =
     \<lparr>sp_load = load_snapshot, sp_resume = resume_expected_order_ids,
      sp_register = register_lookup_results, sp_persist = persist_workflow_state\<rparr>"

record service_env =
  sv_max_rounds :: nat
  sv_coordinator :: coordinator
  sv_client :: stream_client
  sv_translator :: translator
  sv_text :: text_env
  sv_session :: "private_session option"
  sv_cursor :: "string option"
  sv_has_gap :: bool
  sv_effective_time :: datetime
  sv_coordination_time :: datetime

record transport_result =
  tx_batch_health :: "stream_health option"
  tx_translations :: "payload_translation list"
  tx_reconciliation :: reconciliation_result
  tx_workflow :: workflow_result
  tx_query_health :: "query_health list"
  tx_snapshot :: "cursor_snapshot option"

text \<open>The effects of a reconciliation: the lookup transport's state and the store's.\<close>

type_synonym ('t, 's) recon_state = "'t \<times> 's"

definition coordinate_recovery ::
    "coordinator \<Rightarrow> datetime \<Rightarrow> reconciliation_result \<Rightarrow> lookup_result list \<Rightarrow> workflow_result result" where
  "coordinate_recovery co now rr lookups = coordinate co rr lookups now"

definition finish_workflow :: "recovery_plan \<Rightarrow> workflow_result \<Rightarrow> workflow_result" where
  "finish_workflow plan w =
     w\<lparr>wr_alerts := dedup (wr_alerts w @ rp_alerts plan),
       wr_trigger_reason := Some (trigger_value (rp_trigger plan)),
       wr_automatic := rp_automatic plan, wr_gap_detected := rp_gap_detected plan,
       wr_resumed := rp_resumed plan,
       wr_convergence := Some (convergence_of (wr_summaries w))\<rparr>"

definition resume_snapshot :: "'s store_ops option \<Rightarrow> 's \<Rightarrow> cursor_snapshot option" where
  "resume_snapshot store s = map_option (\<lambda>ops. sp_load ops s) store"

definition resumed_expected :: "'s store_ops option \<Rightarrow> 's \<Rightarrow> string list \<Rightarrow> string list" where
  "resumed_expected store s expected =
     (case store of None \<Rightarrow> expected | Some ops \<Rightarrow> sp_resume ops s expected)"

definition gap_detected ::
    "'s store_ops option \<Rightarrow> 's \<Rightarrow> bool \<Rightarrow> private_batch \<Rightarrow> bool" where
  "gap_detected store s has_gap batch \<longleftrightarrow>
     has_gap \<or> pb_has_gap batch \<or> opt_any cu_gap_active (resume_snapshot store s)"

definition resumed_from_snapshot :: "'s store_ops option \<Rightarrow> 's \<Rightarrow> bool" where
  "resumed_from_snapshot store s \<longleftrightarrow>
     opt_any (\<lambda>snap. cu_unresolved snap \<noteq> []) (resume_snapshot store s)"

definition register_with ::
    "'s store_ops option \<Rightarrow> lookup_result list \<Rightarrow> datetime \<Rightarrow> string option \<Rightarrow> 's
      \<Rightarrow> lookup_result list \<times> 's" where
  "register_with store ls t cursor s =
     (case store of None \<Rightarrow> (ls, s) | Some ops \<Rightarrow> sp_register ops ls t cursor s)"

definition persist_with ::
    "'s store_ops option \<Rightarrow> workflow_result \<Rightarrow> datetime \<Rightarrow> string option \<Rightarrow> bool \<Rightarrow> 's
      \<Rightarrow> cursor_snapshot option \<times> 's" where
  "persist_with store w t cursor gap s =
     (case store of None \<Rightarrow> (None, s)
      | Some ops \<Rightarrow> (let (snap, s') = sp_persist ops w t cursor gap s in (Some snap, s')))"

text \<open>From the plan on: look up, register, coordinate, persist, report.\<close>

definition run_recovery ::
    "service_env \<Rightarrow> 't lookup_ops \<Rightarrow> 's store_ops option \<Rightarrow> string list \<Rightarrow> private_batch
      \<Rightarrow> payload_translation list \<Rightarrow> ('t, 's) recon_state
      \<Rightarrow> (transport_result \<times> ('t, 's) recon_state) result" where
  "run_recovery sv ops store expected batch translations = (\<lambda>(t, s).
     (let events = events_for_reconciliation batch;
          rr = reconcile expected events;
          gap = gap_detected store s (sv_has_gap sv) batch;
          plan = build_automatic_recovery_plan rr gap (resumed_from_snapshot store s)
      in r_bind (lookup_rounds ops (unknown_execution_fallbacks expected events) (rp_automatic plan)
              (rp_lookup_requests plan) (if rp_automatic plan then sv_max_rounds sv else 1)
              (rounds_start t)) (\<lambda>st.
         let (lookups, s1) = register_with store (rd_lookups st) (sv_effective_time sv) (sv_cursor sv) s
         in r_bind (coordinate_recovery (sv_coordinator sv) (sv_coordination_time sv) rr lookups) (\<lambda>w0.
           let w = finish_workflow plan w0;
               (snap, s2) = persist_with store w (sv_effective_time sv) (sv_cursor sv) gap s1
           in Inr (\<lparr>tx_batch_health = map_option (\<lambda>ses. build_health_snapshot (sv_client sv) ses
                       (Some batch) (Some (sv_effective_time sv)) None) (sv_session sv),
                    tx_translations = translations, tx_reconciliation = rr, tx_workflow = w,
                    tx_query_health = rd_health st, tx_snapshot = snap\<rparr>,
                   (rd_transport st, s2))))))"

definition reconcile_with_transports ::
    "service_env \<Rightarrow> 't lookup_ops \<Rightarrow> 's store_ops option \<Rightarrow> string list \<Rightarrow> payload list
      \<Rightarrow> ('t, 's) recon_state \<Rightarrow> (transport_result \<times> ('t, 's) recon_state) result" where
  "reconcile_with_transports sv ops store expected payloads ts =
     r_bind (ingest_payloads (sv_client sv) payloads (sv_cursor sv) (sv_has_gap sv)) (\<lambda>batch.
     r_bind (translate_payloads (sv_text sv) (sv_translator sv) payloads) (\<lambda>translations.
       run_recovery sv ops store (resumed_expected store (snd ts) expected) batch translations ts))"

section \<open>Facts: the plan\<close>

lemma reports_terminal_is_terminal: "reports_terminal l \<longleftrightarrow> is_terminal l"
  by (auto simp: reports_terminal_def is_terminal_def opt_any_def terminal_lookup_statuses_def
      terminal_statuses_def split: option.splits if_splits)

lemma unexpected_requested:
  assumes "e \<in> set events" and "unexpected expected e"
  shows "(if truthy (pe_client_order_id e) then (''client_order_id'', the (pe_client_order_id e))
     else (''exchange_order_id'', the (pe_sequence_id e))) \<in> set (lookup_requests (reconcile expected events))"
  using assms by (auto simp: lookup_requests_def reconcile_def Let_def)

lemma missing_requested:
  "i \<in> set (rr_missing rr) \<Longrightarrow> (''exchange_order_id'', i) \<in> set (lookup_requests rr)"
  by (simp add: lookup_requests_def)

lemma requests_iff:
  "lookup_requests (reconcile expected events) \<noteq> [] \<longleftrightarrow>
     rr_missing (reconcile expected events) \<noteq> [] \<or> rr_unknown_ids (reconcile expected events) \<noteq> []"
proof -
  let ?rr = "reconcile expected events"
  have "rr_unknown_ids ?rr \<noteq> [] \<longleftrightarrow> (\<exists>e\<in>set events. unexpected expected e)"
    by (auto simp: reconcile_def Let_def filter_empty_conv)
  moreover have "rr_unknown_client_ids ?rr \<noteq> [] \<or> rr_unknown_exchange_only_ids ?rr \<noteq> []
      \<longleftrightarrow> (\<exists>e\<in>set events. unexpected expected e)"
    by (auto simp: reconcile_def Let_def filter_empty_conv)
  moreover have "lookup_requests ?rr \<noteq> [] \<longleftrightarrow> rr_missing ?rr \<noteq> [] \<or> rr_unknown_client_ids ?rr \<noteq> []
      \<or> rr_unknown_exchange_only_ids ?rr \<noteq> []"
    by (simp add: lookup_requests_def)
  ultimately show ?thesis by blast
qed

lemma plan_fields [simp]:
  "rp_lookup_requests (build_automatic_recovery_plan rr gap resumed) = lookup_requests rr"
  "rp_gap_detected (build_automatic_recovery_plan rr gap resumed) = gap"
  by (simp_all add: build_automatic_recovery_plan_def Let_def split: prod.splits)

lemma plan_automatic:
  "rp_automatic (build_automatic_recovery_plan (reconcile expected events) gap resumed) \<longleftrightarrow>
     lookup_requests (reconcile expected events) \<noteq> []"
  using requests_iff [of expected events]
  by (auto simp: build_automatic_recovery_plan_def recovery_trigger_def Let_def
      split: prod.splits if_splits)

section \<open>Facts: the lookup rounds\<close>

text \<open>
  A lookup answers a request when it is for its value, or for the exchange id that replaces it, and
  when it came from the exchange-id lookup or, for a client-id request, from the client-id lookup.
\<close>

definition answers_request ::
    "'t lookup_ops \<Rightarrow> (string, string) dict \<Rightarrow> string \<times> string \<Rightarrow> lookup_result \<Rightarrow> bool" where
  "answers_request ops fallbacks r l \<longleftrightarrow>
     (lk_value l = snd r \<or> dict_get fallbacks (snd r) = Some (lk_value l)) \<and>
     ((\<exists>t t'. lo_exchange ops (lk_value l) t = Inr (l, t')) \<or>
      fst r = ''client_order_id'' \<and> lk_value l = snd r \<and>
        (\<exists>t t'. lo_client ops (lk_value l) t = Inr (l, t')))"

definition switched_ok :: "(string, string) dict \<Rightarrow> 't round_state \<Rightarrow> bool" where
  "switched_ok fallbacks st \<longleftrightarrow>
     (\<forall>k v. dict_get (rd_switched st) k = Some v \<longrightarrow> dict_get fallbacks k = Some v)"

lemma record_lookup_fields [simp]:
  "rd_lookups (record_lookup l h t st) = rd_lookups st @ [l]"
  "rd_switched (record_lookup l h t st) = rd_switched st"
  "rd_latest (record_lookup l h t st) = dict_set (lk_value l) l (rd_latest st)"
  by (simp_all add: record_lookup_def)

definition rounds_of ::
    "'t lookup_ops \<Rightarrow> (string, string) dict \<Rightarrow> (string \<times> string) list \<Rightarrow> lookup_result list list \<Rightarrow> bool" where
  "rounds_of ops fb reqs lss \<longleftrightarrow>
     (\<forall>ls\<in>set lss. list_all2 (answers_request ops fb) reqs ls)"

context status_lookup
begin

lemma lookup_by_answers:
  obtains l t' where "lookup_by ops field v t = Inr (l, t')" and "lk_value l = v" and "recovered_ok l"
proof (cases "field = ''client_order_id''")
  case True
  then show thesis using client_lookup [of v t] that by (simp add: lookup_by_def) blast
next
  case False
  then show thesis using exchange_lookup [of v t] that by (simp add: lookup_by_def) blast
qed

lemma one_request_answers:
  assumes "switched_ok fb st"
  obtains st' l where "one_request ops fb st (field, v) = Inr st'" and "rd_lookups st' = rd_lookups st @ [l]"
    and "answers_request ops fb (field, v) l" and "recovered_ok l" and "switched_ok fb st'"
    and "rd_latest st' = dict_set (lk_value l) l (rd_latest st)"
proof -
  obtain ef ev where e: "effective_lookup (rd_switched st) field v = (ef, ev)"
    by (cases "effective_lookup (rd_switched st) field v")
  then have ev: "ev = dict_get_default (rd_switched st) v v" by (auto simp: effective_lookup_def Let_def)
  obtain l t where l: "lookup_by ops ef ev (rd_transport st) = Inr (l, t)" "lk_value l = ev" "recovered_ok l"
    by (rule lookup_by_answers)
  have "ef \<noteq> ''client_order_id'' \<Longrightarrow> \<exists>t t'. lo_exchange ops ev t = Inr (l, t')"
    using l(1) by (auto simp: lookup_by_def lookup_order_by_exchange_id_def)
  moreover have "ef = ''client_order_id'' \<Longrightarrow> field = ''client_order_id'' \<and> ev = v"
    using e by (auto simp: effective_lookup_def Let_def split: if_splits)
  moreover have "ef = ''client_order_id'' \<Longrightarrow> \<exists>t t'. lo_client ops ev t = Inr (l, t')"
    using l(1) by (auto simp: lookup_by_def lookup_order_by_client_id_def)
  moreover have "ev = v \<or> dict_get fb v = Some ev"
    using assms ev by (auto simp: switched_ok_def dict_get_default_def split: option.splits)
  ultimately have al: "answers_request ops fb (field, v) l"
    using l(2) by (auto simp: answers_request_def)
  show thesis
  proof (cases "if field = ''client_order_id'' then dict_get fb v else None")
    case None
    then show thesis using l e al assms
      by (intro that [of "record_lookup l (opt_list (lo_health ops t)) t st" l])
        (simp_all add: one_request_def switched_ok_def)
  next
    case (Some oid)
    then have fb: "dict_get fb v = Some oid" "field = ''client_order_id''" by (auto split: if_splits)
    obtain l' t' where l': "lookup_order_by_exchange_id (Some ops) oid t = Inr (l', t')"
      "lk_value l' = oid" "recovered_ok l'" by (rule exchange_lookup)
    show thesis
    proof (cases "ef = ''client_order_id'' \<and> should_use_fallback l (lo_health ops t)")
      case True
      let ?s = "record_lookup l' (opt_list (lo_health ops t) @ opt_list (lo_health ops t')) t'
          (st\<lparr>rd_switched := dict_set v oid (rd_switched st)\<rparr>)"
      have "one_request ops fb st (field, v) = Inr ?s"
        using l e fb True l' by (simp add: one_request_def)
      moreover have "switched_ok fb ?s" using assms fb by (simp add: switched_ok_def dict_get_set)
      moreover have "answers_request ops fb (field, v) l'"
        using l' fb unfolding answers_request_def lookup_order_by_exchange_id_def by auto
      ultimately show thesis using l' by (intro that [of ?s l']) simp_all
    next
      case False
      have "one_request ops fb st (field, v) = Inr (record_lookup l (opt_list (lo_health ops t)) t st)"
        using l e fb False by (auto simp: one_request_def Let_def)
      then show thesis using l al assms
        by (intro that [of "record_lookup l (opt_list (lo_health ops t)) t st" l])
          (simp_all add: switched_ok_def)
    qed
  qed
qed

text \<open>
  One round answers every request once, in order; the rounds together are a list of rounds, ending
  early only without automatic recovery, without anything looked up, or with every latest lookup
  terminal.
\<close>

lemma one_round:
  assumes "switched_ok fb st"
  shows "\<exists>st' ls. r_foldl (one_request ops fb) st reqs = Inr st' \<and> rd_lookups st' = rd_lookups st @ ls \<and>
    list_all2 (answers_request ops fb) reqs ls \<and> (\<forall>l\<in>set ls. recovered_ok l) \<and> switched_ok fb st' \<and>
    rd_latest st' = foldl (\<lambda>d l. dict_set (lk_value l) l d) (rd_latest st) ls"
  using assms
proof (induction reqs arbitrary: st)
  case Nil
  then show ?case by simp
next
  case (Cons r reqs)
  obtain st1 l where 1: "one_request ops fb st r = Inr st1" "rd_lookups st1 = rd_lookups st @ [l]"
    "answers_request ops fb r l" "recovered_ok l" "switched_ok fb st1"
    "rd_latest st1 = dict_set (lk_value l) l (rd_latest st)"
    using one_request_answers [OF Cons.prems, of "fst r" "snd r"] by auto
  from Cons.IH [OF 1(5)] obtain st' ls where "r_foldl (one_request ops fb) st1 reqs = Inr st'"
    "rd_lookups st' = rd_lookups st1 @ ls" "list_all2 (answers_request ops fb) reqs ls"
    "\<forall>l\<in>set ls. recovered_ok l" "switched_ok fb st'"
    "rd_latest st' = foldl (\<lambda>d l. dict_set (lk_value l) l d) (rd_latest st1) ls" by blast
  with 1 show ?case by (intro exI [of _ st'] exI [of _ "l # ls"]) simp
qed

lemma rounds:
  assumes "switched_ok fb st"
  shows "\<exists>st' lss. lookup_rounds ops fb automatic reqs n st = Inr st' \<and>
    rd_lookups st' = rd_lookups st @ concat lss \<and> rounds_of ops fb reqs lss \<and> length lss \<le> n \<and>
    (0 < n \<longrightarrow> lss \<noteq> []) \<and> (\<forall>l\<in>set (concat lss). recovered_ok l) \<and>
    (length lss < n \<longrightarrow> \<not> automatic \<or> rd_latest st' = [] \<or>
       (\<forall>(k, l)\<in>set (rd_latest st'). reports_terminal l)) \<and>
    rd_latest st' = foldl (\<lambda>d l. dict_set (lk_value l) l d) (rd_latest st) (concat lss)"
  using assms
proof (induction n arbitrary: st)
  case 0
  then show ?case by (auto simp: rounds_of_def intro: exI [of _ "[]"])
next
  case (Suc n)
  obtain st1 ls where 1: "r_foldl (one_request ops fb) st reqs = Inr st1"
    "rd_lookups st1 = rd_lookups st @ ls" "list_all2 (answers_request ops fb) reqs ls"
    "\<forall>l\<in>set ls. recovered_ok l" "switched_ok fb st1"
    "rd_latest st1 = foldl (\<lambda>d l. dict_set (lk_value l) l d) (rd_latest st) ls"
    using one_round [OF Suc.prems, of reqs] by blast
  show ?case
  proof (cases "\<not> automatic \<or> rd_latest st1 = [] \<or>
      list_all (\<lambda>(k, l). reports_terminal l) (rd_latest st1)")
    case True
    then have "lookup_rounds ops fb automatic reqs (Suc n) st = Inr st1" using 1(1) by auto
    with True 1 show ?thesis
      by (intro exI [of _ st1] exI [of _ "[ls]"]) (auto simp: rounds_of_def list_all_iff)
  next
    case False
    from Suc.IH [OF 1(5)] obtain st' lss where 2: "lookup_rounds ops fb automatic reqs n st1 = Inr st'"
      "rd_lookups st' = rd_lookups st1 @ concat lss" "rounds_of ops fb reqs lss" "length lss \<le> n"
      "\<forall>l\<in>set (concat lss). recovered_ok l"
      "length lss < n \<longrightarrow> \<not> automatic \<or> rd_latest st' = [] \<or>
         (\<forall>(k, l)\<in>set (rd_latest st'). reports_terminal l)"
      "rd_latest st' = foldl (\<lambda>d l. dict_set (lk_value l) l d) (rd_latest st1) (concat lss)" by blast
    have "lookup_rounds ops fb automatic reqs (Suc n) st = Inr st'" using False 1(1) 2(1) by auto
    moreover have "rounds_of ops fb reqs (ls # lss)" using 1(3) 2(3) by (simp add: rounds_of_def)
    moreover have "\<forall>l\<in>set (concat (ls # lss)). recovered_ok l" using 1(4) 2(5) by auto
    ultimately show ?thesis
      using 1(2,6) 2(2,4,6,7) by (intro exI [of _ st'] exI [of _ "ls # lss"]) simp
  qed
qed

end

section \<open>Facts: the whole reconciliation\<close>

lemma run_recovery_Inr:
  assumes "run_recovery sv ops store expected batch trs (t, s) = Inr (r, (t', s'))"
  obtains st lookups s1 w0 events rr plan where
    "events = events_for_reconciliation batch" and "rr = reconcile expected events"
    and "plan = build_automatic_recovery_plan rr (gap_detected store s (sv_has_gap sv) batch)
           (resumed_from_snapshot store s)"
    and "lookup_rounds ops (unknown_execution_fallbacks expected events) (rp_automatic plan)
      (lookup_requests rr) (if rp_automatic plan then sv_max_rounds sv else 1) (rounds_start t) = Inr st"
    and "register_with store (rd_lookups st) (sv_effective_time sv) (sv_cursor sv) s = (lookups, s1)"
    and "coordinate (sv_coordinator sv) rr lookups (sv_coordination_time sv) = Inr w0"
    and "tx_workflow r = finish_workflow plan w0" and "tx_reconciliation r = rr"
    and "tx_translations r = trs" and "tx_query_health r = rd_health st"
    and "persist_with store (tx_workflow r) (sv_effective_time sv) (sv_cursor sv)
      (gap_detected store s (sv_has_gap sv) batch) s1 = (tx_snapshot r, s')"
proof -
  let ?events = "events_for_reconciliation batch"
  let ?rr = "reconcile expected ?events"
  let ?gap = "gap_detected store s (sv_has_gap sv) batch"
  let ?plan = "build_automatic_recovery_plan ?rr ?gap (resumed_from_snapshot store s)"
  obtain st where 1: "lookup_rounds ops (unknown_execution_fallbacks expected ?events) (rp_automatic ?plan)
      (lookup_requests ?rr) (if rp_automatic ?plan then sv_max_rounds sv else 1) (rounds_start t) = Inr st"
    using assms unfolding run_recovery_def Let_def prod.case plan_fields by (auto simp: r_bind_Inr)
  obtain lookups s1 where 2: "register_with store (rd_lookups st) (sv_effective_time sv) (sv_cursor sv) s
      = (lookups, s1)" by (cases "register_with store (rd_lookups st) (sv_effective_time sv) (sv_cursor sv) s")
  obtain w0 where 3: "coordinate (sv_coordinator sv) ?rr lookups (sv_coordination_time sv) = Inr w0"
    using assms unfolding run_recovery_def Let_def prod.case plan_fields 1 r_bind_simps 2
      coordinate_recovery_def by (auto simp: r_bind_Inr)
  obtain snap s2 where 4: "persist_with store (finish_workflow ?plan w0) (sv_effective_time sv)
      (sv_cursor sv) ?gap s1 = (snap, s2)"
    by (cases "persist_with store (finish_workflow ?plan w0) (sv_effective_time sv) (sv_cursor sv) ?gap s1")
  have "tx_workflow r = finish_workflow ?plan w0" "tx_reconciliation r = ?rr" "tx_translations r = trs"
    "tx_query_health r = rd_health st" "tx_snapshot r = snap" "s' = s2"
    using assms unfolding run_recovery_def Let_def prod.case plan_fields 1 r_bind_simps 2
      coordinate_recovery_def 3 4 by auto
  with 1 2 3 4 show thesis by (intro that [OF refl refl refl, of st lookups s1 w0]) simp_all
qed

lemma reconcile_with_transports_Inr:
  assumes "reconcile_with_transports sv ops store expected payloads (t, s) = Inr (r, ts')"
  obtains batch trs where
    "ingest_payloads (sv_client sv) payloads (sv_cursor sv) (sv_has_gap sv) = Inr batch"
    and "translate_payloads (sv_text sv) (sv_translator sv) payloads = Inr trs"
    and "run_recovery sv ops store (resumed_expected store s expected) batch trs (t, s) = Inr (r, ts')"
  using assms by (auto simp: reconcile_with_transports_def r_bind_Inr)

lemma finish_workflow_fields [simp]:
  "wr_order_states (finish_workflow plan w) = wr_order_states w"
  "wr_summaries (finish_workflow plan w) = wr_summaries w"
  "wr_recovered_fills (finish_workflow plan w) = wr_recovered_fills w"
  "wr_attempts (finish_workflow plan w) = wr_attempts w"
  "wr_events (finish_workflow plan w) = wr_events w"
  "wr_convergence (finish_workflow plan w) = Some (convergence_of (wr_summaries w))"
  by (simp_all add: finish_workflow_def)

text \<open>Numbering keeps what a lookup says.\<close>

lemma unnumbered_fields [simp]:
  "lk_value (unnumbered l) = lk_value l" "lk_found (unnumbered l) = lk_found l"
  "lk_status_summary (unnumbered l) = lk_status_summary l"
  by (simp_all add: unnumbered_def)

lemma is_terminal_unnumbered [simp]: "is_terminal (unnumbered l) = is_terminal l"
  by (simp add: is_terminal_def)

lemma register_with_unnumbered:
  assumes "store = None \<or> store = Some json_store_ops" and "register_with store ls t c s = (ns, s')"
  shows "map unnumbered ns = map unnumbered ls"
  using assms register_lookup_results_facts(1)
  by (auto simp: register_with_def json_store_ops_def)

lemma unnumbered_same:
  assumes "map unnumbered ns = map unnumbered ls"
  shows "\<And>l. l \<in> set ls \<Longrightarrow> \<exists>n\<in>set ns. unnumbered n = unnumbered l"
    and "\<And>n. n \<in> set ns \<Longrightarrow> \<exists>l\<in>set ls. unnumbered n = unnumbered l"
    and "length (filter (\<lambda>l. lk_value l = v) ns) = length (filter (\<lambda>l. lk_value l = v) ls)"
proof -
  have s: "unnumbered ` set ns = unnumbered ` set ls" using arg_cong [OF assms, of set] by simp
  show "\<exists>n\<in>set ns. unnumbered n = unnumbered l" if "l \<in> set ls" for l
    using s that by (metis imageE imageI)
  show "\<exists>l\<in>set ls. unnumbered n = unnumbered l" if "n \<in> set ns" for n
    using s that by (metis imageE imageI)
  have "length (filter (\<lambda>l. lk_value l = v) xs)
      = length (filter (\<lambda>l. lk_value l = v) (map unnumbered xs))" for xs
    by (simp add: filter_map comp_def)
  then show "length (filter (\<lambda>l. lk_value l = v) ns) = length (filter (\<lambda>l. lk_value l = v) ls)"
    using assms by metis
qed

lemma fallback_requested:
  assumes "dict_get (unknown_execution_fallbacks expected events) k = Some v"
  shows "(''client_order_id'', k) \<in> set (lookup_requests (reconcile expected events))"
proof -
  let ?P = "\<lambda>e. unexpected expected e \<and> truthy (pe_client_order_id e) \<and> truthy (pe_exchange_order_id e)"
  have "dict_get (foldl (\<lambda>d e. dict_setdefault (the (pe_client_order_id e))
      (the (pe_exchange_order_id e)) d) d es) k \<noteq> None
      \<Longrightarrow> dict_get d k \<noteq> None \<or> (\<exists>e\<in>set es. the (pe_client_order_id e) = k)" for es d
    by (induction es arbitrary: d) (force simp: dict_get_setdefault split: if_splits)+
  from this [of "[]" "filter ?P events"] assms
  obtain e where "e \<in> set events" "?P e" "the (pe_client_order_id e) = k"
    by (auto simp: unknown_execution_fallbacks_def)
  with unexpected_requested [of e events expected] show ?thesis by auto
qed

lemma verdict_convergence:
  assumes "coordinate co rr lookups t = Inr w" and "(v, as) \<in> set (group_lookups lookups)"
  shows "\<exists>x\<in>set (wr_summaries w). rs_order_id x = v \<and>
    rs_convergence x = verdict (co_max_attempts co) as"
  using assms(1)
proof (rule coordinate_Inr)
  assume "map summary_view (wr_summaries w)
      = map (\<lambda>(v, as). (v, int (length as), verdict (co_max_attempts co) as)) (group_lookups lookups)"
  then have "(v, int (length as), verdict (co_max_attempts co) as) \<in> set (map summary_view (wr_summaries w))"
    using assms(2) by force
  then show ?thesis by (auto simp: summary_view_def)
qed

lemma group_lookups_of:
  assumes "l \<in> set lookups"
  shows "(lk_value l, filter (\<lambda>x. lk_value x = lk_value l) lookups) \<in> set (group_lookups lookups)"
proof -
  have "lk_value l \<in> fst ` set (group_lookups lookups)" using assms by (simp add: group_lookups_keys)
  then obtain as where "(lk_value l, as) \<in> set (group_lookups lookups)" by auto
  with group_lookups_mem(1) [OF this] show ?thesis by simp
qed

lemma convergence_of_unreconciled:
  "x \<in> set xs \<Longrightarrow> rs_convergence x = CONV_UNRECONCILED
     \<Longrightarrow> convergence_of xs = ''unreconciled_manual_attention''"
  by (auto simp: convergence_of_def list_ex_iff)

lemma latest_lookup:
  assumes "l \<in> set ls"
  shows "\<exists>l'\<in>set ls. lk_value l' = lk_value l \<and>
    (lk_value l, l') \<in> set (foldl (\<lambda>d l. dict_set (lk_value l) l d) [] ls)"
proof -
  let ?d = "dict_of lk_value (\<lambda>l. l) ls"
  have d: "?d = foldl (\<lambda>d l. dict_set (lk_value l) l d) [] ls" by (simp add: dict_of_def)
  obtain l' where l': "dict_get ?d (lk_value l) = Some l'"
    using dict_of_get_None [of lk_value "\<lambda>l. l" ls "lk_value l"] assms
    by (cases "dict_get ?d (lk_value l)") auto
  from dict_of_get_Some [OF this] have "l' \<in> set ls \<and> lk_value l' = lk_value l" by auto
  moreover have "(lk_value l, l') \<in> set ?d" using l' by (rule map_of_SomeD)
  ultimately show ?thesis unfolding d by blast
qed

text \<open>Ids and alerts that are not white space only.\<close>

definition readable :: "string option \<Rightarrow> bool" where
  "readable a \<longleftrightarrow> opt_all (\<lambda>s. s = [] \<or> \<not> blank s) a"

definition named_event :: "private_event \<Rightarrow> bool" where
  "named_event e \<longleftrightarrow> readable (pe_sequence_id e) \<and> readable (pe_client_order_id e) \<and>
     readable (pe_exchange_order_id e)"

lemma truthy_readable: "truthy a \<Longrightarrow> readable a \<Longrightarrow> \<not> blank (the a)"
  by (auto simp: truthy_def readable_def split: option.splits)

lemma requested_ids_named:
  assumes "q \<in> set (lookup_requests (reconcile expected events))"
    and "\<forall>i\<in>set expected. \<not> blank i" and "\<forall>e\<in>set events. named_event e"
  shows "\<not> blank (snd q)"
  using assms truthy_readable
  by (fastforce simp: lookup_requests_def reconcile_def Let_def unexpected_def named_event_def)

lemma fallback_named:
  assumes "dict_get (unknown_execution_fallbacks expected events) k = Some v"
    and "\<forall>e\<in>set events. named_event e"
  shows "\<not> blank v"
proof -
  let ?P = "\<lambda>e. unexpected expected e \<and> truthy (pe_client_order_id e) \<and> truthy (pe_exchange_order_id e)"
  have "dict_get (foldl (\<lambda>d e. dict_setdefault (the (pe_client_order_id e))
      (the (pe_exchange_order_id e)) d) d es) k = Some v
      \<Longrightarrow> dict_get d k = Some v \<or> (\<exists>e\<in>set es. the (pe_exchange_order_id e) = v)" for es d
  proof (induction es arbitrary: d)
    case (Cons e es)
    then show ?case
      by (auto simp: dict_get_setdefault split: if_splits option.splits dest!: Cons.IH)
  qed simp
  from this [of "[]" "filter ?P events"] assms(1)
  obtain e where "e \<in> set events" "?P e" "the (pe_exchange_order_id e) = v"
    by (auto simp: unknown_execution_fallbacks_def)
  with assms(2) truthy_readable show ?thesis by (auto simp: named_event_def)
qed

lemma clean_unnumbered: "unnumbered x = unnumbered y \<Longrightarrow> clean_lookup x = clean_lookup y"
proof -
  assume eq: "unnumbered x = unnumbered y"
  have "clean_lookup z = clean_lookup (unnumbered z)" for z
    by (simp add: clean_lookup_def unnumbered_def)
  with eq show ?thesis by metis
qed

section \<open>Facts: what the rounds mean for the workflow\<close>

context status_lookup
begin

lemma run_recovery_rounds:
  assumes "run_recovery sv ops store expected batch trs (t, s) = Inr (r, (t', s'))"
    and "store = None \<or> store = Some json_store_ops"
  obtains w0 lss lookups where
    "coordinate (sv_coordinator sv) (tx_reconciliation r) lookups (sv_coordination_time sv) = Inr w0"
    and "map unnumbered lookups = map unnumbered (concat lss)"
    and "rounds_of ops (unknown_execution_fallbacks expected (events_for_reconciliation batch))
      (lookup_requests (tx_reconciliation r)) lss"
    and "wr_summaries (tx_workflow r) = wr_summaries w0"
    and "wr_convergence (tx_workflow r) = Some (convergence_of (wr_summaries w0))"
    and "wr_attempts (tx_workflow r) = lookups"
    and "tx_reconciliation r = reconcile expected (events_for_reconciliation batch)"
    and "lookup_requests (tx_reconciliation r) \<noteq> [] \<Longrightarrow> length lss < sv_max_rounds sv
      \<Longrightarrow> concat lss = [] \<or> (\<forall>(k, l)\<in>set (foldl (\<lambda>d l. dict_set (lk_value l) l d) [] (concat lss)).
            reports_terminal l)"
    and "0 < sv_max_rounds sv \<Longrightarrow> lss \<noteq> []"
  using assms(1)
proof (rule run_recovery_Inr)
  fix st s1 and lookups :: "lookup_result list" and w0 :: workflow_result and events :: "private_event list"
    and rr :: reconciliation_result and plan :: recovery_plan
  let ?fb = "unknown_execution_fallbacks expected events"
  let ?n = "if rp_automatic plan then sv_max_rounds sv else 1"
  assume ev: "events = events_for_reconciliation batch" "rr = reconcile expected events"
    and plan: "plan = build_automatic_recovery_plan rr (gap_detected store s (sv_has_gap sv) batch)
           (resumed_from_snapshot store s)"
    and st: "lookup_rounds ops ?fb (rp_automatic plan) (lookup_requests rr) ?n (rounds_start t) = Inr st"
    and reg: "register_with store (rd_lookups st) (sv_effective_time sv) (sv_cursor sv) s = (lookups, s1)"
    and co: "coordinate (sv_coordinator sv) rr lookups (sv_coordination_time sv) = Inr w0"
    and w: "tx_workflow r = finish_workflow plan w0" and rr: "tx_reconciliation r = rr"
  have "switched_ok ?fb (rounds_start t)" by (simp add: switched_ok_def rounds_start_def)
  from rounds [OF this, of "rp_automatic plan" "lookup_requests rr" ?n] obtain st' lss where
    st': "lookup_rounds ops ?fb (rp_automatic plan) (lookup_requests rr) ?n (rounds_start t) = Inr st'"
    and l': "rd_lookups st' = rd_lookups (rounds_start t) @ concat lss"
      "rounds_of ops ?fb (lookup_requests rr) lss" "0 < ?n \<longrightarrow> lss \<noteq> []"
      "length lss < ?n \<longrightarrow> \<not> rp_automatic plan \<or> rd_latest st' = [] \<or>
       (\<forall>(k, l)\<in>set (rd_latest st'). reports_terminal l)"
      "rd_latest st' = foldl (\<lambda>d l. dict_set (lk_value l) l d) (rd_latest (rounds_start t)) (concat lss)"
    by (elim exE conjE) (rule that)
  from st' st have "st' = st" by simp
  with l' have l: "rd_lookups st = concat lss" "rounds_of ops ?fb (lookup_requests rr) lss" "0 < ?n \<longrightarrow> lss \<noteq> []"
      "length lss < ?n \<longrightarrow> \<not> rp_automatic plan \<or> rd_latest st = [] \<or>
       (\<forall>(k, l)\<in>set (rd_latest st). reports_terminal l)"
      "rd_latest st = foldl (\<lambda>d l. dict_set (lk_value l) l d) [] (concat lss)"
    by (simp_all add: rounds_start_def)
  have auto_on: "rp_automatic plan \<longleftrightarrow> lookup_requests rr \<noteq> []"
    unfolding plan ev by (rule plan_automatic)
  have none: "rd_latest st = [] \<Longrightarrow> concat lss = []"
    using l(5) latest_lookup [of _ "concat lss"] by (cases "concat lss") auto
  show thesis
  proof (rule that [of lookups w0 lss])
    show "coordinate (sv_coordinator sv) (tx_reconciliation r) lookups (sv_coordination_time sv) = Inr w0"
      using co rr by simp
    show "map unnumbered lookups = map unnumbered (concat lss)"
      using register_with_unnumbered [OF assms(2) reg] l(1) by simp
    show "rounds_of ops (unknown_execution_fallbacks expected (events_for_reconciliation batch))
      (lookup_requests (tx_reconciliation r)) lss" using l(2) ev rr by simp
    show "wr_summaries (tx_workflow r) = wr_summaries w0" using w by simp
    show "wr_convergence (tx_workflow r) = Some (convergence_of (wr_summaries w0))" using w by simp
    show "wr_attempts (tx_workflow r) = lookups"
      unfolding w finish_workflow_fields using co by (rule coordinate_Inr)
    show "tx_reconciliation r = reconcile expected (events_for_reconciliation batch)" using ev rr by simp
    show "lookup_requests (tx_reconciliation r) \<noteq> [] \<Longrightarrow> length lss < sv_max_rounds sv
      \<Longrightarrow> concat lss = [] \<or> (\<forall>(k, l)\<in>set (foldl (\<lambda>d l. dict_set (lk_value l) l d) [] (concat lss)).
            reports_terminal l)"
      using l(4) none unfolding l(5) [symmetric] rr auto_on by simp blast
    show "0 < sv_max_rounds sv \<Longrightarrow> lss \<noteq> []" using l(3) by auto
  qed
qed

text \<open>A missing order the exchange never finds uses up all the rounds and is given up on.\<close>

lemma unfound_escalates:
  assumes run: "run_recovery sv ops store expected batch trs (t, s) = Inr (r, (t', s'))"
    and store: "store = None \<or> store = Some json_store_ops"
    and v: "v \<in> set (rr_missing (tx_reconciliation r))"
    and nc: "(''client_order_id'', v) \<notin> set (lookup_requests (tx_reconciliation r))"
    and never: "\<And>u l u'. lo_exchange ops v u = Inr (l, u') \<Longrightarrow> \<not> lk_found l"
    and n: "0 < sv_max_rounds sv" "co_max_attempts (sv_coordinator sv) \<le> sv_max_rounds sv"
  shows "wr_convergence (tx_workflow r) = Some ''unreconciled_manual_attention'' \<and>
    (\<exists>x\<in>set (wr_summaries (tx_workflow r)). rs_order_id x = v \<and> rs_convergence x = CONV_UNRECONCILED)"
  using run store
proof (rule run_recovery_rounds)
  fix w0 :: workflow_result and lss :: "lookup_result list list" and lookups :: "lookup_result list"
  let ?rr = "tx_reconciliation r" and ?ls = "concat lss"
  let ?fb = "unknown_execution_fallbacks expected (events_for_reconciliation batch)"
  assume co: "coordinate (sv_coordinator sv) ?rr lookups (sv_coordination_time sv) = Inr w0"
    and same: "map unnumbered lookups = map unnumbered ?ls"
    and rounds: "rounds_of ops ?fb (lookup_requests ?rr) lss"
    and w: "wr_summaries (tx_workflow r) = wr_summaries w0"
      "wr_convergence (tx_workflow r) = Some (convergence_of (wr_summaries w0))"
    and rr: "?rr = reconcile expected (events_for_reconciliation batch)"
    and early: "lookup_requests ?rr \<noteq> [] \<Longrightarrow> length lss < sv_max_rounds sv
      \<Longrightarrow> ?ls = [] \<or> (\<forall>(k, l)\<in>set (foldl (\<lambda>d l. dict_set (lk_value l) l d) [] ?ls). reports_terminal l)"
    and ne: "0 < sv_max_rounds sv \<Longrightarrow> lss \<noteq> []"
  have req: "(''exchange_order_id'', v) \<in> set (lookup_requests ?rr)" using v by (rule missing_requested)
  have fb: "dict_get ?fb v = None"
    using fallback_requested [of expected "events_for_reconciliation batch" v] nc rr
    by (cases "dict_get ?fb v") auto
  have unfound: "\<not> lk_found l" if l: "l \<in> set ?ls" "lk_value l = v" for l
  proof -
    obtain ls where "ls \<in> set lss" "l \<in> set ls" using l(1) by auto
    then obtain q where "q \<in> set (lookup_requests ?rr)" "answers_request ops ?fb q l"
      using rounds list_all2_right unfolding rounds_of_def by meson
    with nc never l(2) show ?thesis by (cases q) (auto simp: answers_request_def)
  qed
  have asked: "filter (\<lambda>l. lk_value l = v) ls \<noteq> []" if "ls \<in> set lss" for ls
  proof -
    have "list_all2 (answers_request ops ?fb) (lookup_requests ?rr) ls"
      using rounds that by (simp add: rounds_of_def)
    from list_all2_left [OF this req] obtain l where "l \<in> set ls"
      "answers_request ops ?fb (''exchange_order_id'', v) l" by blast
    with fb show ?thesis by (auto simp: answers_request_def filter_empty_conv)
  qed
  have all_rounds: "sv_max_rounds sv \<le> length lss"
  proof (rule ccontr)
    assume "\<not> sv_max_rounds sv \<le> length lss"
    then have few: "length lss < sv_max_rounds sv" by simp
    have hd: "hd lss \<in> set lss" using ne [OF n(1)] by simp
    then have "filter (\<lambda>l. lk_value l = v) (hd lss) \<noteq> []" by (rule asked)
    then obtain l where "l \<in> set (hd lss)" "lk_value l = v" unfolding filter_empty_conv by blast
    with hd have l: "l \<in> set ?ls" "lk_value l = v" by auto
    have "lookup_requests ?rr \<noteq> []" using req by auto
    from early [OF this few] l(1)
    have "\<forall>(k, l)\<in>set (foldl (\<lambda>d l. dict_set (lk_value l) l d) [] ?ls). reports_terminal l" by force
    with latest_lookup [OF l(1)] unfound l(2) show False by (auto simp: reports_terminal_def)
  qed
  let ?as = "filter (\<lambda>l. lk_value l = v) lookups"
  have "length ?as = length (filter (\<lambda>l. lk_value l = v) ?ls)" by (rule unnumbered_same(3) [OF same])
  also have "\<dots> \<ge> length lss" using asked by (rule filter_concat_length)
  finally have many: "sv_max_rounds sv \<le> length ?as" using all_rounds by simp
  have dead: "\<not> lk_found l" if "l \<in> set lookups" "lk_value l = v" for l
    using unnumbered_same(2) [OF same that(1)] unfound that(2) by (metis unnumbered_fields(1,2))
  have ne': "?as \<noteq> []" using many n(1) by auto
  then obtain l where l: "l \<in> set lookups" "lk_value l = v" by (auto simp: filter_empty_conv)
  have "\<not> list_ex is_terminal ?as" using dead by (auto simp: list_ex_iff is_terminal_def)
  moreover have "\<not> lk_found (last ?as)" using dead last_in_set [OF ne'] by auto
  ultimately have "verdict (co_max_attempts (sv_coordinator sv)) ?as = CONV_UNRECONCILED"
    using many n(2) by (simp add: verdict_def)
  with verdict_convergence [OF co, of v ?as] group_lookups_of [OF l(1)] l(2)
  obtain x where "x \<in> set (wr_summaries w0)" "rs_order_id x = v" "rs_convergence x = CONV_UNRECONCILED"
    by auto
  with w convergence_of_unreconciled show ?thesis by auto
qed

text \<open>A converged workflow has a terminal answer for every request.\<close>

lemma converged_answered:
  assumes run: "run_recovery sv ops store expected batch trs (t, s) = Inr (r, (t', s'))"
    and store: "store = None \<or> store = Some json_store_ops"
    and conv: "wr_convergence (tx_workflow r) = Some ''converged_terminal''"
    and q: "q \<in> set (lookup_requests (tx_reconciliation r))"
  shows "\<exists>l\<in>set (wr_attempts (tx_workflow r)). is_terminal l \<and>
    (lk_value l = snd q \<or>
     dict_get (unknown_execution_fallbacks expected (events_for_reconciliation batch)) (snd q)
       = Some (lk_value l))"
  using run store
proof (rule run_recovery_rounds)
  fix w0 :: workflow_result and lss :: "lookup_result list list" and lookups :: "lookup_result list"
  let ?rr = "tx_reconciliation r" and ?ls = "concat lss"
  let ?fb = "unknown_execution_fallbacks expected (events_for_reconciliation batch)"
  assume co: "coordinate (sv_coordinator sv) ?rr lookups (sv_coordination_time sv) = Inr w0"
    and same: "map unnumbered lookups = map unnumbered ?ls"
    and rounds: "rounds_of ops ?fb (lookup_requests ?rr) lss"
    and cv: "wr_convergence (tx_workflow r) = Some (convergence_of (wr_summaries w0))"
    and at: "wr_attempts (tx_workflow r) = lookups"
  have conv': "wr_convergence w0 = Some ''converged_terminal''"
    using co conv cv by (auto elim: coordinate_Inr)
  have all: "lookups \<noteq> [] \<and> (\<forall>l\<in>set lookups. \<exists>l'\<in>set lookups. lk_value l' = lk_value l \<and> is_terminal l')"
    using coordinate_converged [OF co] conv'  by blast
  obtain n0 where n0: "n0 \<in> set lookups" using all by (cases lookups) auto
  obtain ls where ls: "ls \<in> set lss"
    using unnumbered_same(2) [OF same n0] by auto
  have "list_all2 (answers_request ops ?fb) (lookup_requests ?rr) ls" using rounds ls by (simp add: rounds_of_def)
  from list_all2_left [OF this q] obtain l where l: "l \<in> set ls" "answers_request ops ?fb q l" by blast
  have "l \<in> set ?ls" using l(1) ls by auto
  from unnumbered_same(1) [OF same this] obtain n where n: "n \<in> set lookups" "unnumbered n = unnumbered l"
    by blast
  have "lk_value n = lk_value l" using n(2) by (metis unnumbered_fields(1))
  moreover obtain l' where "l' \<in> set lookups" "lk_value l' = lk_value n" "is_terminal l'"
    using all n(1) by blast
  ultimately show ?thesis using l(2) unfolding at answers_request_def by metis
qed

text \<open>The reconciliation completes: no constructor on its way raises.\<close>

lemma run_recovery_total:
  assumes alerts: "\<And>v u l u'. lo_client ops v u = Inr (l, u') \<or> lo_exchange ops v u = Inr (l, u')
      \<Longrightarrow> readable (lk_alert l)"
    and v: "\<not> blank (co_venue (sv_coordinator sv))" and utc: "is_utc (sv_coordination_time sv)"
    and expected: "\<forall>i\<in>set expected. \<not> blank i"
    and named: "\<forall>e\<in>set (events_for_reconciliation batch). named_event e"
    and store: "store = None \<or> store = Some json_store_ops"
  shows "\<exists>r ts'. run_recovery sv ops store expected batch trs (t, s) = Inr (r, ts')"
proof -
  let ?events = "events_for_reconciliation batch"
  let ?rr = "reconcile expected ?events"
  let ?fb = "unknown_execution_fallbacks expected ?events"
  let ?gap = "gap_detected store s (sv_has_gap sv) batch"
  let ?plan = "build_automatic_recovery_plan ?rr ?gap (resumed_from_snapshot store s)"
  let ?n = "if rp_automatic ?plan then sv_max_rounds sv else 1"
  have "switched_ok ?fb (rounds_start t)" by (simp add: switched_ok_def rounds_start_def)
  from rounds [OF this, of "rp_automatic ?plan" "lookup_requests ?rr" ?n] obtain st lss where
    st: "lookup_rounds ops ?fb (rp_automatic ?plan) (lookup_requests ?rr) ?n (rounds_start t) = Inr st"
    and l: "rd_lookups st = rd_lookups (rounds_start t) @ concat lss"
      "rounds_of ops ?fb (lookup_requests ?rr) lss" "\<forall>l\<in>set (concat lss). recovered_ok l"
    by (elim exE conjE) (rule that)
  obtain lookups s1 where reg: "register_with store (rd_lookups st) (sv_effective_time sv) (sv_cursor sv) s
      = (lookups, s1)" by (cases "register_with store (rd_lookups st) (sv_effective_time sv) (sv_cursor sv) s")
  have same: "map unnumbered lookups = map unnumbered (concat lss)"
    using register_with_unnumbered [OF store reg] l(1) by (simp add: rounds_start_def)
  have ids: "\<not> blank (snd q)" if "q \<in> set (lookup_requests ?rr)" for q
    using that expected named requested_ids_named by metis
  have clean: "clean_lookup x" if x: "x \<in> set (concat lss)" for x
  proof -
    obtain ls where ls: "ls \<in> set lss" "x \<in> set ls" using x by auto
    have "list_all2 (answers_request ops ?fb) (lookup_requests ?rr) ls"
      using l(2) ls(1) by (simp add: rounds_of_def)
    from list_all2_right [OF this ls(2)] obtain q where q: "q \<in> set (lookup_requests ?rr)"
      "answers_request ops ?fb q x" by blast
    have "\<not> blank (lk_value x)"
      using q ids [OF q(1)] fallback_named [of expected ?events "snd q" "lk_value x"] named
      unfolding answers_request_def by metis
    moreover have "readable (lk_alert x)" using q(2) alerts unfolding answers_request_def by blast
    ultimately show ?thesis using l(3) x by (auto simp: clean_lookup_def recovered_ok_def readable_def)
  qed
  have "\<forall>x\<in>set lookups. clean_lookup x"
  proof
    fix x assume "x \<in> set lookups"
    then obtain y where y: "y \<in> set (concat lss)" "unnumbered x = unnumbered y"
      using unnumbered_same(2) [OF same] by blast
    then show "clean_lookup x" using clean [OF y(1)] clean_unnumbered by metis
  qed
  moreover have "\<forall>i\<in>set (rr_matched ?rr) \<union> set (rr_unknown_ids ?rr) \<union> set (rr_missing ?rr). \<not> blank i"
    using expected named truthy_readable
    by (fastforce simp: reconcile_def Let_def unexpected_def named_event_def)
  ultimately obtain w0 where w0: "coordinate (sv_coordinator sv) ?rr lookups (sv_coordination_time sv) = Inr w0"
    using coordinate_total [OF v utc] by blast
  obtain snap s2 where "persist_with store (finish_workflow ?plan w0) (sv_effective_time sv)
      (sv_cursor sv) ?gap s1 = (snap, s2)"
    by (cases "persist_with store (finish_workflow ?plan w0) (sv_effective_time sv) (sv_cursor sv) ?gap s1")
  then show ?thesis
    unfolding run_recovery_def Let_def prod.case plan_fields st r_bind_simps reg
      coordinate_recovery_def w0 by simp
qed

end

context recovery_store
begin

lemma run_recovery_persists:
  assumes "run_recovery sv lops (Some \<lparr>sp_load = load, sp_resume = resume, sp_register = register,
      sp_persist = persist\<rparr>) expected batch trs (t, s) = Inr (r, (t', s'))"
  shows "\<exists>s1 gap. cu_unresolved (load s1) = cu_unresolved (load s) \<and>
    persist (tx_workflow r) (sv_effective_time sv) (sv_cursor sv) gap s1 = (load s', s') \<and>
    tx_snapshot r = Some (load s') \<and>
    (gap \<longleftrightarrow> sv_has_gap sv \<or> pb_has_gap batch \<or> cu_gap_active (load s))"
  using assms
proof (rule run_recovery_Inr)
  fix st s1 and lookups :: "lookup_result list"
  let ?store = "Some \<lparr>sp_load = load, sp_resume = resume, sp_register = register, sp_persist = persist\<rparr>"
  let ?gap = "gap_detected ?store s (sv_has_gap sv) batch"
  assume reg: "register_with ?store (rd_lookups st) (sv_effective_time sv) (sv_cursor sv) s = (lookups, s1)"
    and per: "persist_with ?store (tx_workflow r) (sv_effective_time sv) (sv_cursor sv) ?gap s1
      = (tx_snapshot r, s')"
  have "cu_unresolved (load s1) = cu_unresolved (load s)"
    using reg register_keeps by (auto simp: register_with_def)
  moreover obtain snap where p: "persist (tx_workflow r) (sv_effective_time sv) (sv_cursor sv) ?gap s1
      = (snap, s')" "tx_snapshot r = Some snap"
    using per by (auto simp: persist_with_def Let_def split: prod.splits)
  moreover have "load s' = snap" using persist_tracks [OF p(1)] by simp
  ultimately show ?thesis
    by (intro exI [of _ s1] exI [of _ ?gap]) (auto simp: gap_detected_def resume_snapshot_def)
qed

lemma run_recovery_resumes:
  assumes "run_recovery sv lops (Some \<lparr>sp_load = load, sp_resume = resume, sp_register = register,
      sp_persist = persist\<rparr>) expected batch trs (t, s) = Inr (r, (t', s'))"
    and "i \<in> set (cu_unresolved (load s))"
  shows "i \<in> set (resume s' ids) \<or>
    (\<exists>x. find (\<lambda>s. os_order_id s = i) (rev (wr_order_states (tx_workflow r))) = Some x \<and> \<not> is_pending x)"
proof -
  obtain s1 gap where u: "cu_unresolved (load s1) = cu_unresolved (load s)"
    and p: "persist (tx_workflow r) (sv_effective_time sv) (sv_cursor sv) gap s1 = (load s', s')"
    using run_recovery_persists [OF assms(1)] by blast
  show ?thesis
  proof (cases "find (\<lambda>s. os_order_id s = i) (rev (wr_order_states (tx_workflow r)))")
    case None
    then have "i \<notin> os_order_id ` set (wr_order_states (tx_workflow r))" by (auto simp: find_None_iff)
    with unmentioned_order_resumed [OF _ this p] u assms(2) show ?thesis by simp
  next
    case (Some x)
    then show ?thesis using pending_order_resumed [OF Some _ p] by auto
  qed
qed

end

section \<open>Properties\<close>

definition request_of :: "private_event \<Rightarrow> string \<times> string" where
  "request_of e =
     (if truthy (pe_client_order_id e) then (''client_order_id'', the (pe_client_order_id e))
      else (''exchange_order_id'', the (pe_sequence_id e)))"

text \<open>
  C8. The recovery plan covers every discrepancy and nothing else: the matched and the missing orders
  split the expected ones, unknown executions are never expected orders, the requests are exactly the
  missing orders by exchange id and the unknown executions by client id, or by exchange id when they
  have none, each once; and recovery is automatic exactly when something is missing or unknown.
\<close>

theorem recovery_plan_complete:
  "set (rr_matched (reconcile expected events)) \<union> set (rr_missing (reconcile expected events)) = set expected \<and>
   set (rr_matched (reconcile expected events)) \<inter> set (rr_missing (reconcile expected events)) = {} \<and>
   set (rr_unknown_ids (reconcile expected events)) \<inter> set expected = {} \<and>
   set (rp_lookup_requests (build_automatic_recovery_plan (reconcile expected events) gap resumed))
     = Pair ''exchange_order_id'' ` set (rr_missing (reconcile expected events))
       \<union> request_of ` set (filter (unexpected expected) events) \<and>
   distinct (rp_lookup_requests (build_automatic_recovery_plan (reconcile expected events) gap resumed)) \<and>
   rp_automatic (build_automatic_recovery_plan (reconcile expected events) gap resumed)
     = (\<not> (rr_missing (reconcile expected events) = [] \<and> rr_unknown_ids (reconcile expected events) = []))"
proof (intro conjI)
  let ?rr = "reconcile expected events"
  show "set (rr_matched ?rr) \<union> set (rr_missing ?rr) = set expected"
    "set (rr_matched ?rr) \<inter> set (rr_missing ?rr) = {}"
    "set (rr_unknown_ids ?rr) \<inter> set expected = {}"
    by (auto simp: reconcile_def Let_def unexpected_def)
  show "set (rp_lookup_requests (build_automatic_recovery_plan ?rr gap resumed))
     = Pair ''exchange_order_id'' ` set (rr_missing ?rr) \<union> request_of ` set (filter (unexpected expected) events)"
    by (auto simp: lookup_requests_def reconcile_def Let_def request_of_def image_iff)
  show "distinct (rp_lookup_requests (build_automatic_recovery_plan ?rr gap resumed))"
    by (simp add: lookup_requests_def)
  show "rp_automatic (build_automatic_recovery_plan ?rr gap resumed)
     = (\<not> (rr_missing ?rr = [] \<and> rr_unknown_ids ?rr = []))"
    by (simp add: plan_automatic requests_iff)
qed

lemma sample_rounds:
  "\<exists>l st. reports_terminal l \<and> lookup_rounds (rest_ops sample_rest_env) [] True
     [(''exchange_order_id'', ''77'')] 3 (rounds_start sample_transport) = Inr st \<and> rd_lookups st = [l]"
proof -
  obtain l u where l: "lookup_by_exchange_order_id sample_rest_env ''77'' sample_transport = Inr (l, u)"
    "lk_status_summary l = Some ''filled''" "lk_found l" using sample_recovered_lookup by blast
  have req: "one_request (rest_ops sample_rest_env) [] (rounds_start sample_transport)
      (''exchange_order_id'', ''77'') = Inr (record_lookup l (opt_list (rt_last_health u)) u (rounds_start sample_transport))"
    using l(1) by (simp add: one_request_def effective_lookup_def rounds_start_def dict_get_default_def
        lookup_by_def lookup_order_by_exchange_id_def rest_ops_def Let_def)
  have "reports_terminal l" using l(2,3) by (simp add: reports_terminal_def terminal_lookup_statuses_def)
  then have rounds: "lookup_rounds (rest_ops sample_rest_env) [] True [(''exchange_order_id'', ''77'')] 3
      (rounds_start sample_transport) = Inr (record_lookup l (opt_list (rt_last_health u)) u (rounds_start sample_transport))"
    using req by (simp add: numeral_3_eq_3) (simp add: rounds_start_def)
  then show ?thesis using \<open>reports_terminal l\<close> by (auto simp: rounds_start_def record_lookup_def)
qed



lemma rest_alerts:
  assumes "\<And>url msg. renv_http env url = HttpFailed msg \<Longrightarrow> msg = [] \<or> \<not> blank msg"
    and "lo_client (rest_ops env) v u = Inr (l, u') \<or> lo_exchange (rest_ops env) v u = Inr (l, u')"
  shows "readable (lk_alert l)"
proof -
  have plain: "readable None" "\<And>c x. \<not> py_space c \<Longrightarrow> readable (Some (c # x))"
    by (simp_all add: readable_def blank_def)
  have fin: "finish_lookup now f v p hs snap st = Inr (l, u') \<Longrightarrow> readable (lk_alert l)" for now f p hs snap st
    by (auto simp: finish_lookup_def Let_def r_bind_Inr plain py_space_def)
  have resp: "handle_response now f v b hs h snap st = Inr (l, u') \<Longrightarrow> readable (lk_alert l)"
    for now f b hs h snap st
    by (cases b) (auto simp: handle_response_def failed_lookup_def lookup_miss_def plain py_space_def
        Let_def split: prod.splits if_splits dest!: fin)
  have send: "send_lookup env f v q snap st = Inr (l, u') \<Longrightarrow> readable (lk_alert l)" for f q snap st
    using assms(1) by (auto simp: send_lookup_def failed_lookup_def lookup_miss_def readable_def
        split: http_response.splits dest!: resp [unfolded readable_def])
  have "perform_lookup env f v q u = Inr (l, u') \<Longrightarrow> readable (lk_alert l)" for f q
    by (auto simp: perform_lookup_def consume_def tracker_snapshot_def lookup_miss_def Let_def plain
        py_space_def split: option.splits prod.splits if_splits dest!: send)
  then show ?thesis
    using assms(2) by (auto simp: rest_ops_def lookup_by_client_order_id_def lookup_by_exchange_order_id_def)
qed

lemma rest_reconcile_total:
  assumes "ingest_payloads (sv_client sv) payloads (sv_cursor sv) (sv_has_gap sv) = Inr batch"
    and "translate_payloads (sv_text sv) (sv_translator sv) payloads = Inr trs"
    and "\<forall>e\<in>set (events_for_reconciliation batch). named_event e"
    and "\<forall>i\<in>set (resumed_expected store s expected). \<not> blank i"
    and "\<And>url msg. renv_http env url = HttpFailed msg \<Longrightarrow> msg = [] \<or> \<not> blank msg"
    and "\<not> blank (co_venue (sv_coordinator sv))" and "is_utc (sv_coordination_time sv)"
    and "store = None \<or> store = Some json_store_ops"
  shows "\<exists>r t' s'. reconcile_with_transports sv (rest_ops env) store expected payloads (t, s) = Inr (r, (t', s'))"
proof -
  have "\<exists>r ts'. run_recovery sv (rest_ops env) store (resumed_expected store s expected) batch trs (t, s)
      = Inr (r, ts')"
    using rest_alerts [OF assms(5)] assms(6,7,4,3,8) by (rule rest.run_recovery_total)
  then show ?thesis by (auto simp: reconcile_with_transports_def assms(1,2))
qed

definition sample_service :: service_env where
  "sample_service =
     \<lparr>sv_max_rounds = 3, sv_coordinator = default_coordinator, sv_client = default_stream_client,
      sv_translator = sample_translator, sv_text = sample_env, sv_session = None, sv_cursor = None,
      sv_has_gap = False, sv_effective_time = utc 9, sv_coordination_time = utc 9\<rparr>"

definition down_env :: rest_env where
  "down_env = sample_rest_env\<lparr>renv_http := (\<lambda>url. HttpFailed ''timed out'')\<rparr>"

lemma sample_empty_ingest:
  "ingest_payloads (sv_client sample_service) [] (sv_cursor sample_service) (sv_has_gap sample_service)
     = Inr (ingest_events [] None False STREAMING)"
  by (simp add: ingest_payloads_def sample_service_def)

lemma sample_empty_translate:
  "translate_payloads (sv_text sample_service) (sv_translator sample_service) [] = Inr []"
  by (simp add: translate_payloads_def)

lemma sample_empty_events: "events_for_reconciliation (ingest_events [] None False STREAMING) = []"
  by (simp add: events_for_reconciliation_def)

lemma sample_resumed:
  "resumed_expected (Some json_store_ops) s ids = resume_expected_order_ids s ids"
  by (simp add: resumed_expected_def json_store_ops_def)

lemma sample_resumed_fresh [simp]: "resumed_expected (Some json_store_ops) None ids = dedup ids"
  by (simp add: sample_resumed resume_expected_order_ids_def load_snapshot_def empty_snapshot_def)

lemma sample_reconcile:
  assumes "store = None \<or> store = Some json_store_ops"
    and "\<forall>i\<in>set (resumed_expected store s expected). \<not> blank i"
  shows "\<exists>r t' s'. reconcile_with_transports sample_service (rest_ops down_env) store expected []
     (sample_transport, s) = Inr (r, (t', s'))"
  by (rule rest_reconcile_total [OF sample_empty_ingest sample_empty_translate _ assms(2) _ _ _ assms(1)])
    (auto simp: sample_empty_events down_env_def sample_service_def default_coordinator_def blank_def
      py_space_def)



lemma reconcile_rest_Inr:
  assumes "reconcile_with_transports sv ops store expected payloads (t, s) = Inr (r, (t', s'))"
  obtains batch trs where
    "ingest_payloads (sv_client sv) payloads (sv_cursor sv) (sv_has_gap sv) = Inr batch"
    and "run_recovery sv ops store (resumed_expected store s expected) batch trs (t, s) = Inr (r, (t', s'))"
    and "tx_reconciliation r = reconcile (resumed_expected store s expected) (events_for_reconciliation batch)"
proof -
  obtain batch trs where b: "ingest_payloads (sv_client sv) payloads (sv_cursor sv) (sv_has_gap sv) = Inr batch"
    "run_recovery sv ops store (resumed_expected store s expected) batch trs (t, s) = Inr (r, (t', s'))"
    using reconcile_with_transports_Inr [OF assms] by blast
  moreover have "tx_reconciliation r
      = reconcile (resumed_expected store s expected) (events_for_reconciliation batch)"
    using b(2) by (rule run_recovery_Inr) simp
  ultimately show thesis by (rule that)
qed

text \<open>
  C12. An order the exchange never finds is escalated: if an order is missing, is not also somebody's
  client id, and no exchange-id lookup ever finds it, then a reconciliation whose rounds reach the
  coordinator's limit of attempts (three each by default) ends with that order unreconciled and the
  whole workflow in need of manual attention; it is never left pending silently.
\<close>

theorem unfound_order_escalated:
  assumes "reconcile_with_transports sv (rest_ops env) store expected payloads (t, s) = Inr (r, (t', s'))"
    and "store = None \<or> store = Some json_store_ops"
    and "v \<in> set (rr_missing (tx_reconciliation r))"
    and "(''client_order_id'', v) \<notin> set (lookup_requests (tx_reconciliation r))"
    and "\<And>u l u'. lookup_by_exchange_order_id env v u = Inr (l, u') \<Longrightarrow> \<not> lk_found l"
    and "0 < sv_max_rounds sv" and "co_max_attempts (sv_coordinator sv) \<le> sv_max_rounds sv"
  shows "wr_convergence (tx_workflow r) = Some ''unreconciled_manual_attention'' \<and>
    (\<exists>x\<in>set (wr_summaries (tx_workflow r)). rs_order_id x = v \<and> rs_convergence x = CONV_UNRECONCILED)"
proof -
  have never: "lo_exchange (rest_ops env) v u = Inr (l, u') \<Longrightarrow> \<not> lk_found l" for u l u'
    using assms(5) by (simp add: rest_ops_def)
  obtain batch trs where "run_recovery sv (rest_ops env) store (resumed_expected store s expected) batch trs (t, s)
      = Inr (r, (t', s'))" using reconcile_rest_Inr [OF assms(1)] by blast
  then show ?thesis using assms(2,3,4) never assms(6,7) by (rule rest.unfound_escalates)
qed

lemma down_lookup: "lookup_by_exchange_order_id down_env v sample_transport' = Inr (l, u') \<Longrightarrow> \<not> lk_found l"
  by (auto simp: lookup_by_exchange_order_id_def perform_lookup_def send_lookup_def down_env_def
      failed_lookup_def lookup_miss_def Let_def split: option.splits prod.splits if_splits)

lemma unfound_order_escalated_witness:
  "\<exists>r ts'. reconcile_with_transports sample_service (rest_ops down_env) (Some json_store_ops) [''77''] []
     (sample_transport, None) = Inr (r, ts') \<and>
     wr_convergence (tx_workflow r) = Some ''unreconciled_manual_attention''"
proof -
  have "\<exists>r t' s'. reconcile_with_transports sample_service (rest_ops down_env) (Some json_store_ops) [''77''] []
      (sample_transport, None) = Inr (r, (t', s'))"
    by (rule sample_reconcile) (simp_all add: sample_resumed_fresh blank_def py_space_def)
  then obtain r t' s' where r: "reconcile_with_transports sample_service (rest_ops down_env) (Some json_store_ops) [''77''] []
      (sample_transport, None) = Inr (r, (t', s'))" by auto
  have rr: "tx_reconciliation r = reconcile [''77''] []"
    using r by (rule reconcile_rest_Inr)
      (auto simp: sample_empty_ingest sample_empty_events sample_resumed_fresh)
  have "wr_convergence (tx_workflow r) = Some ''unreconciled_manual_attention''"
    using unfound_order_escalated [OF r, of "''77''"] down_lookup
    by (auto simp: rr reconcile_def lookup_requests_def sample_service_def default_coordinator_def)
  with r show ?thesis by blast
qed

text \<open>
  C11. Convergence means answers: when a reconciliation reports converged_terminal, every missing order
  and every unknown execution has a terminal lookup among the recorded attempts, under its own id or
  the exchange id that replaces its client id.
\<close>

theorem converged_means_answered:
  assumes "reconcile_with_transports sv (rest_ops env) store expected payloads (t, s) = Inr (r, (t', s'))"
    and "store = None \<or> store = Some json_store_ops"
    and "wr_convergence (tx_workflow r) = Some ''converged_terminal''"
    and "ingest_payloads (sv_client sv) payloads (sv_cursor sv) (sv_has_gap sv) = Inr batch"
    and "(field, v) \<in> set (lookup_requests (tx_reconciliation r))"
  shows "\<exists>l\<in>set (wr_attempts (tx_workflow r)). is_terminal l \<and>
    (lk_value l = v \<or> dict_get (unknown_execution_fallbacks (resumed_expected store s expected)
       (events_for_reconciliation batch)) v = Some (lk_value l))"
proof -
  obtain trs where "run_recovery sv (rest_ops env) store (resumed_expected store s expected) batch trs (t, s)
      = Inr (r, (t', s'))" using reconcile_rest_Inr [OF assms(1)] assms(4) by (metis sum.inject(2))
  from rest.converged_answered [OF this assms(2,3,5)] show ?thesis by simp
qed

lemma sample_converges:
  assumes "reconcile_with_transports sample_service (rest_ops sample_rest_env) (Some json_store_ops) [''77''] []
     (sample_transport, None) = Inr (r, (t', s'))"
  shows "wr_convergence (tx_workflow r) = Some ''converged_terminal''"
proof -
  obtain batch trs where batch: "ingest_payloads (sv_client sample_service) [] (sv_cursor sample_service)
      (sv_has_gap sample_service) = Inr batch"
    and run: "run_recovery sample_service (rest_ops sample_rest_env) (Some json_store_ops) [''77''] batch trs
      (sample_transport, None) = Inr (r, (t', s'))"
    by (rule reconcile_rest_Inr [OF assms], erule that, simp)
  have ev: "events_for_reconciliation batch = []"
    using batch sample_empty_ingest sample_empty_events by auto
  have rr: "lookup_requests (reconcile [''77''] []) = [(''exchange_order_id'', ''77'')]"
    by (simp add: reconcile_def lookup_requests_def)
  obtain l where l: "reports_terminal l"
    and rounds: "\<exists>st. lookup_rounds (rest_ops sample_rest_env) [] True [(''exchange_order_id'', ''77'')] 3
      (rounds_start sample_transport) = Inr st \<and> rd_lookups st = [l]"
    using sample_rounds by blast
  show ?thesis using run
  proof (rule run_recovery_Inr)
    fix st s1 and lookups :: "lookup_result list" and w0 :: workflow_result and events :: "private_event list"
      and rc :: reconciliation_result and plan :: recovery_plan
    assume e: "events = events_for_reconciliation batch" "rc = reconcile [''77''] events"
      and plan: "plan = build_automatic_recovery_plan rc
        (gap_detected (Some json_store_ops) None (sv_has_gap sample_service) batch)
        (resumed_from_snapshot (Some json_store_ops) None)"
      and st: "lookup_rounds (rest_ops sample_rest_env) (unknown_execution_fallbacks [''77''] events)
        (rp_automatic plan) (lookup_requests rc) (if rp_automatic plan then sv_max_rounds sample_service else 1)
        (rounds_start sample_transport) = Inr st"
      and reg: "register_with (Some json_store_ops) (rd_lookups st) (sv_effective_time sample_service)
        (sv_cursor sample_service) None = (lookups, s1)"
      and co: "coordinate (sv_coordinator sample_service) rc lookups (sv_coordination_time sample_service) = Inr w0"
      and w: "tx_workflow r = finish_workflow plan w0"
    have "rp_automatic plan" unfolding plan e ev by (simp add: plan_automatic rr)
    moreover have "lookup_requests rc = [(''exchange_order_id'', ''77'')]"
      using e ev by (simp add: reconcile_def lookup_requests_def)
    moreover have "unknown_execution_fallbacks [''77''] events = []"
      using e ev by (simp add: unknown_execution_fallbacks_def)
    ultimately have "rd_lookups st = [l]"
      using st rounds by (auto simp: sample_service_def)
    then have "map unnumbered lookups = [unnumbered l]"
      using register_with_unnumbered [OF _ reg] by simp
    then obtain n where n: "lookups = [n]" "unnumbered n = unnumbered l" by (cases lookups) auto
    have "is_terminal n" using l n(2) reports_terminal_is_terminal
      by (metis is_terminal_unnumbered)
    then have "wr_convergence w0 = Some ''converged_terminal''"
      using coordinate_converged [OF co] n(1) by simp
    moreover have "wr_convergence w0 = Some (convergence_of (wr_summaries w0))"
      using co by (rule coordinate_Inr)
    ultimately show ?thesis using w by simp
  qed
qed

lemma converged_means_answered_witness:
  "\<exists>r ts'. reconcile_with_transports sample_service (rest_ops sample_rest_env) (Some json_store_ops) [''77''] []
     (sample_transport, None) = Inr (r, ts') \<and>
     (\<exists>l\<in>set (wr_attempts (tx_workflow r)). is_terminal l \<and> lk_value l = ''77'')"
proof -
  let ?run = "reconcile_with_transports sample_service (rest_ops sample_rest_env) (Some json_store_ops) [''77''] []
     (sample_transport, None)"
  have "\<exists>r t' s'. ?run = Inr (r, (t', s'))"
    by (rule rest_reconcile_total [OF sample_empty_ingest sample_empty_translate])
      (auto simp: sample_empty_events sample_rest_env_def sample_service_def default_coordinator_def
        blank_def py_space_def)
  then obtain r t' s' where r: "?run = Inr (r, (t', s'))" by blast
  have rr: "tx_reconciliation r = reconcile [''77''] []"
    using r by (rule reconcile_rest_Inr)
      (auto simp: sample_empty_ingest sample_empty_events)
  have "(''exchange_order_id'', ''77'') \<in> set (lookup_requests (tx_reconciliation r))"
    unfolding rr by (simp add: reconcile_def lookup_requests_def)
  from converged_means_answered [OF r _ sample_converges [OF r] sample_empty_ingest this]
  have "\<exists>l\<in>set (wr_attempts (tx_workflow r)). is_terminal l \<and> lk_value l = ''77''"
    by (simp add: sample_empty_events unknown_execution_fallbacks_def)
  with r show ?thesis by blast
qed

text \<open>
  A reconciliation loses no open order: every order that was unresolved in the store is asked for
  again on the next resume, or the last state the workflow gives for it is settled; and every order
  whose last state is pending is asked for again.
\<close>

theorem reconciliation_keeps_open_orders:
  assumes "reconcile_with_transports sv ops (Some json_store_ops) expected payloads (t, s) = Inr (r, (t', s'))"
    and "i \<in> set (cu_unresolved (load_snapshot s))"
  shows "i \<in> set (resume_expected_order_ids s' ids) \<or>
    (\<exists>x. find (\<lambda>x. os_order_id x = i) (rev (wr_order_states (tx_workflow r))) = Some x \<and> \<not> is_pending x)"
proof -
  obtain batch trs where "run_recovery sv ops (Some json_store_ops)
      (resumed_expected (Some json_store_ops) s expected) batch trs (t, s) = Inr (r, (t', s'))"
    using reconcile_rest_Inr [OF assms(1)] by blast
  from json.run_recovery_resumes [OF this [unfolded json_store_ops_def] assms(2)] show ?thesis .
qed

lemma reconciliation_keeps_open_orders_witness:
  "\<exists>r t' s'. reconcile_with_transports sample_service (rest_ops down_env) (Some json_store_ops) [] []
     (sample_transport, Some (empty_snapshot\<lparr>cu_unresolved := [''77'']\<rparr>)) = Inr (r, (t', s')) \<and>
     (''77'' \<in> set (resume_expected_order_ids s' []) \<or>
      (\<exists>x\<in>set (wr_order_states (tx_workflow r)). os_order_id x = ''77'' \<and> \<not> is_pending x))"
proof -
  let ?s = "Some (empty_snapshot\<lparr>cu_unresolved := [''77'']\<rparr>)"
  have "\<exists>r t' s'. reconcile_with_transports sample_service (rest_ops down_env) (Some json_store_ops) [] []
     (sample_transport, ?s) = Inr (r, (t', s'))"
    by (rule sample_reconcile) (simp_all add: sample_resumed resume_expected_order_ids_def load_snapshot_def
        blank_def py_space_def)
  then obtain r t' s' where r: "reconcile_with_transports sample_service (rest_ops down_env)
      (Some json_store_ops) [] [] (sample_transport, ?s) = Inr (r, (t', s'))" by blast
  have "''77'' \<in> set (cu_unresolved (load_snapshot ?s))" by (simp add: load_snapshot_def)
  from reconciliation_keeps_open_orders [OF r this, of "[]"]
  have "''77'' \<in> set (resume_expected_order_ids s' []) \<or>
      (\<exists>x\<in>set (wr_order_states (tx_workflow r)). os_order_id x = ''77'' \<and> \<not> is_pending x)"
    by (auto simp: find_Some_iff) (metis length_rev nth_mem set_rev)
  with r show ?thesis by blast
qed

lemma gap_persists:
  assumes "reconcile_with_transports sv ops (Some json_store_ops) expected payloads (t, s) = Inr (r, (t', s'))"
    and "cu_gap_active (load_snapshot s)"
  shows "wr_gap_detected (tx_workflow r) \<and> cu_gap_active (load_snapshot s')"
proof -
  obtain batch trs where run: "run_recovery sv ops (Some json_store_ops)
      (resumed_expected (Some json_store_ops) s expected) batch trs (t, s) = Inr (r, (t', s'))"
    using reconcile_rest_Inr [OF assms(1)] by blast
  have gap: "gap_detected (Some json_store_ops) s (sv_has_gap sv) batch"
    using assms(2) by (simp add: gap_detected_def resume_snapshot_def json_store_ops_def)
  obtain s1 g where p: "persist_workflow_state (tx_workflow r) (sv_effective_time sv) (sv_cursor sv) g s1
      = (load_snapshot s', s')" and "g"
    using json.run_recovery_persists [OF run [unfolded json_store_ops_def]] assms(2) by blast
  then have "cu_gap_active (load_snapshot s')"
    by (auto simp: persist_workflow_state_def Let_def next_snapshot_def load_snapshot_def)
  moreover have "wr_gap_detected (tx_workflow r)"
    using run by (rule run_recovery_Inr) (simp add: finish_workflow_def gap)
  ultimately show ?thesis by blast
qed

text \<open>
  C13. A gap is never closed: once a reconciliation was persisted with an active gap, every later
  reconciliation over the same store detects the gap again and persists it again, even without a gap
  in the stream and with every order settled.
\<close>

theorem gap_never_closes:
  assumes "reconcile_with_transports sv ops (Some json_store_ops) expected payloads (t, s) = Inr (r, (t', s'))"
    and "cu_gap_active (load_snapshot s)"
  shows "wr_gap_detected (tx_workflow r) \<and> cu_gap_active (load_snapshot s')"
  using assms by (rule gap_persists)

lemma gap_never_closes_witness:
  "\<exists>r t' s'. reconcile_with_transports sample_service (rest_ops down_env) (Some json_store_ops) [] []
     (sample_transport, Some (empty_snapshot\<lparr>cu_gap_active := True\<rparr>)) = Inr (r, (t', s')) \<and>
     cu_gap_active (load_snapshot s')"
proof -
  let ?s = "Some (empty_snapshot\<lparr>cu_gap_active := True\<rparr>)"
  have "\<exists>r t' s'. reconcile_with_transports sample_service (rest_ops down_env) (Some json_store_ops) [] []
     (sample_transport, ?s) = Inr (r, (t', s'))"
    by (rule sample_reconcile) (simp_all add: sample_resumed resume_expected_order_ids_def load_snapshot_def
        empty_snapshot_def)
  then obtain r t' s' where r: "reconcile_with_transports sample_service (rest_ops down_env)
      (Some json_store_ops) [] [] (sample_transport, ?s) = Inr (r, (t', s'))" by blast
  with gap_never_closes [OF r] show ?thesis by (simp add: load_snapshot_def)
qed

end
