(* ===== verification/LiveGate.thy ===== *)
theory LiveGate
  imports Reconciliation
begin

text \<open>
  \<open>app/exchanges/binance/live_portfolio_gate.py\<close>: the guarded mutation of the live portfolio. One
  batch of raw payloads goes through the transport-backed reconciliation; the portfolio is translated
  only when no guard blocks it. Every \<open>return\<close> of \<open>apply_with_details\<close> is a branch of \<open>settle\<close>.
\<close>

section \<open>Merging translated and reconciled orders\<close>

definition terminal_order :: "order_status \<Rightarrow> bool" where
  "terminal_order st \<longleftrightarrow> st \<in> {FILLED, CANCELED, REJECTED, EXPIRED}"

definition prefer_reconciled_shape :: "order_state \<Rightarrow> bool" where
  "prefer_reconciled_shape e \<longleftrightarrow> os_instrument_id e = ''UNKNOWN'' \<or> os_requested_quantity e = 0"

definition richer_quantities :: "order_state \<Rightarrow> order_state \<Rightarrow> bool" where
  "richer_quantities e s \<longleftrightarrow>
     os_filled_quantity e < os_filled_quantity s \<or> os_remaining_quantity s < os_remaining_quantity e \<or>
     (terminal_order (os_status s) \<and> \<not> terminal_order (os_status e))"

definition merge_state :: "order_state \<Rightarrow> order_state \<Rightarrow> order_state result" where
  "merge_state e s =
     (let shape = prefer_reconciled_shape e; richer = richer_quantities e s in
      mk_order_state
        \<lparr>os_venue = (if shape then os_venue s else os_venue e), os_order_id = os_order_id e,
         os_client_order_id = (if shape \<and> os_client_order_id s \<noteq> [] then os_client_order_id s
           else os_client_order_id e),
         os_instrument_id = (if shape then os_instrument_id s else os_instrument_id e),
         os_side = (if shape then os_side s else os_side e),
         os_order_type = (if shape then os_order_type s else os_order_type e),
         os_status = (if os_reconciliation_state s = Some SUBMIT_SENT then os_status e else os_status s),
         os_requested_quantity = (if shape \<or> richer \<or>
             (os_requested_quantity e = 0 \<and> 0 < os_requested_quantity s)
           then os_requested_quantity s else os_requested_quantity e),
         os_filled_quantity = (if shape \<or> richer then os_filled_quantity s else os_filled_quantity e),
         os_remaining_quantity = (if shape \<or> richer then os_remaining_quantity s
           else os_remaining_quantity e),
         os_last_update_time = (if dt_less (os_last_update_time e) (os_last_update_time s)
           then os_last_update_time s else os_last_update_time e),
         os_limit_price = (if shape then os_limit_price s else os_limit_price e),
         os_average_fill_price = (if shape \<or> (richer \<and> os_average_fill_price s \<noteq> None)
           then os_average_fill_price s else os_average_fill_price e),
         os_reconciliation_state = os_reconciliation_state s,
         os_reconciliation_detail = os_reconciliation_detail s\<rparr>)"

definition merge_one ::
    "(string, order_state) dict \<Rightarrow> order_state \<Rightarrow> (string, order_state) dict result" where
  "merge_one by_id s =
     (case dict_get by_id (os_order_id s) of
        None \<Rightarrow> Inr (dict_set (os_order_id s) s by_id)
      | Some e \<Rightarrow> r_bind (merge_state e s) (\<lambda>m. Inr (dict_set (os_order_id s) m by_id)))"

definition merge_order_states :: "order_state list \<Rightarrow> order_state list \<Rightarrow> order_state list result" where
  "merge_order_states translated reconciled =
     r_bind (r_foldl merge_one (dict_of os_order_id (\<lambda>s. s) translated) reconciled) (\<lambda>by_id.
       Inr (map snd by_id))"

section \<open>Account snapshots\<close>

definition latest_full_account_snapshot :: "account_snapshot list \<Rightarrow> account_snapshot option" where
  "latest_full_account_snapshot snapshots =
     (let full = filter (\<lambda>s. \<not> acc_is_partial s) snapshots
      in if full = [] then None else Some (last full))"

definition cash_snapshot :: "account_snapshot option \<Rightarrow> (string, decimal) dict option" where
  "cash_snapshot snapshot = map_option (\<lambda>s. dict_of ab_asset balance_total
     (filter (\<lambda>b. ab_free b \<noteq> None \<or> ab_locked b \<noteq> None) (acc_balances s))) snapshot"

definition snapshot_assets :: "account_snapshot option \<Rightarrow> string list" where
  "snapshot_assets snapshot =
     (case snapshot of None \<Rightarrow> [] | Some s \<Rightarrow> map ab_asset (acc_balances s))"

section \<open>The gate\<close>

record gate =
  ga_service :: service_env
  ga_config :: adapter_config
  ga_clock_now :: datetime
  ga_quote_asset :: string

record gate_result =
  gr_outcome :: mutation_outcome
  gr_transport :: "transport_result option"

definition gate_service :: "gate \<Rightarrow> service_env" where
  "gate_service g = (ga_service g)\<lparr>sv_cursor := None, sv_has_gap := False\<rparr>"

definition no_payloads :: "portfolio_state \<Rightarrow> gate_result" where
  "no_payloads p =
     (let alerts = [''no private payloads available for restricted-live mutation gate'']
      in \<lparr>gr_outcome = \<lparr>mo_attempted = False, mo_applied = False, mo_portfolio = p,
            mo_translation = \<lparr>lr_status = APPLIED, lr_portfolio = p, lr_applied_fill_ids = [],
              lr_ignored_fill_ids = [], lr_pending_order_ids = [], lr_alerts = alerts,
              lr_aggregations = [], lr_manual_attention = False\<rparr>,
            mo_events = [], mo_alerts = alerts\<rparr>,
          gr_transport = None\<rparr>)"

definition health_alerts :: "query_health list \<Rightarrow> string list" where
  "health_alerts hs = map (\<lambda>h. the (qh_alert h)) (filter (\<lambda>h. truthy (qh_alert h)) hs)"

text \<open>A blocked mutation: the translation's alerts and pending orders, and the further alerts.\<close>

definition blocked ::
    "portfolio_state \<Rightarrow> transport_result \<Rightarrow> string list \<Rightarrow> string list \<Rightarrow> string list \<Rightarrow> gate_result" where
  "blocked p tx pending alerts extra =
     \<lparr>gr_outcome = \<lparr>mo_attempted = True, mo_applied = False, mo_portfolio = p,
        mo_translation = \<lparr>lr_status = AMBIGUOUS_REVIEW_REQUIRED, lr_portfolio = p,
          lr_applied_fill_ids = [], lr_ignored_fill_ids = [], lr_pending_order_ids = pending,
          lr_alerts = dedup alerts, lr_aggregations = [], lr_manual_attention = True\<rparr>,
        mo_events = wr_events (tx_workflow tx),
        mo_alerts = dedup (dedup alerts @ wr_alerts (tx_workflow tx) @ health_alerts (tx_query_health tx)
          @ extra)\<rparr>,
      gr_transport = Some tx\<rparr>"

definition translation_alerts :: "transport_result \<Rightarrow> string list" where
  "translation_alerts tx = concat (map pt_alerts (tx_translations tx))"

definition translated_orders :: "transport_result \<Rightarrow> order_state list" where
  "translated_orders tx = List.map_filter pt_order_state (tx_translations tx)"

definition gate_fills :: "transport_result \<Rightarrow> fill_event list" where
  "gate_fills tx =
     List.map_filter pt_fill_event (tx_translations tx) @ wr_recovered_fills (tx_workflow tx)"

definition unconfirmed :: "transport_result \<Rightarrow> string list \<Rightarrow> string list" where
  "unconfirmed tx expected =
     filter (\<lambda>i. i \<notin> set (dedup (map os_order_id (translated_orders tx) @ map fe_order_id (gate_fills tx))))
       expected"

definition finish_translation :: "transport_result \<Rightarrow> account_snapshot option \<Rightarrow> live_result \<Rightarrow> gate_result" where
  "finish_translation tx snapshot tr =
     \<lparr>gr_outcome = \<lparr>mo_attempted = True, mo_applied = (\<not> lr_manual_attention tr),
        mo_portfolio = lr_portfolio tr, mo_translation = tr, mo_events = wr_events (tx_workflow tx),
        mo_alerts = dedup (lr_alerts tr @ translation_alerts tx
          @ (case snapshot of Some s \<Rightarrow> if lr_manual_attention tr then []
               else [''restricted-live portfolio mutation passed canonical translation gate using ''
                     @ acc_source_event_type s]
             | None \<Rightarrow> [])
          @ (if lr_manual_attention tr
             then [''restricted-live portfolio mutation blocked by safety gate''] else [])
          @ (case tx_batch_health tx of None \<Rightarrow> [] | Some h \<Rightarrow> sh_alerts h)
          @ wr_alerts (tx_workflow tx) @ health_alerts (tx_query_health tx))\<rparr>,
      gr_transport = Some tx\<rparr>"

text \<open>From the clock guard on.\<close>

definition mutate ::
    "gate \<Rightarrow> portfolio_state \<Rightarrow> string list \<Rightarrow> transport_result \<Rightarrow> order_state list \<Rightarrow> gate_result result" where
  "mutate g p already tx orders =
     (let clock = clock_check (ga_config g) (ga_clock_now g) None None in
      if can_submit_orders (ga_config g) \<and> \<not> cs_is_within_tolerance clock then
        Inr (blocked p tx [] (translation_alerts tx
            @ [''portfolio mutation blocked pending clock sync readiness after reconnect or restart''])
          ((case tx_batch_health tx of None \<Rightarrow> [] | Some h \<Rightarrow> sh_alerts h)
            @ (if truthy (cs_alert clock) then [the (cs_alert clock)] else [])))
      else
        (let snapshot = latest_full_account_snapshot
               (List.map_filter pt_account_snapshot (tx_translations tx))
         in r_bind (translate (ga_quote_asset g) p orders (gate_fills tx) already (cash_snapshot snapshot)
              (snapshot_assets snapshot)) (\<lambda>tr. Inr (finish_translation tx snapshot tr))))"

text \<open>From the reconciliation's result on: the guards in their order.\<close>

definition settle ::
    "gate \<Rightarrow> portfolio_state \<Rightarrow> string list \<Rightarrow> string list \<Rightarrow> transport_result \<Rightarrow> gate_result result" where
  "settle g p expected already tx =
     (if list_ex (\<lambda>t. pt_status t = MALFORMED) (tx_translations tx) then
        Inr (blocked p tx [] (''malformed Binance private payload blocked portfolio mutation''
          # translation_alerts tx) [])
      else r_bind (merge_order_states (translated_orders tx) (wr_order_states (tx_workflow tx))) (\<lambda>orders.
        let open_ids = unconfirmed tx expected;
            pending = map os_order_id (filter is_pending orders)
        in if list_ex pt_stream_invalidated (tx_translations tx) \<and> open_ids \<noteq> [] then
             Inr (blocked p tx open_ids (translation_alerts tx @ map (\<lambda>i.
               ''portfolio mutation blocked after private-stream invalidation until canonical private confirmation for order: '' @ i)
               open_ids) [])
           else if pending \<noteq> [] then
             Inr (blocked p tx pending (translation_alerts tx @ map (\<lambda>i.
               ''portfolio mutation blocked pending reconciliation for order: '' @ i) pending) [])
           else mutate g p already tx orders))"

definition apply_with_details ::
    "gate \<Rightarrow> 't lookup_ops \<Rightarrow> 's store_ops option \<Rightarrow> portfolio_state \<Rightarrow> string list \<Rightarrow> string list
      \<Rightarrow> payload list \<Rightarrow> ('t, 's) recon_state \<Rightarrow> (gate_result \<times> ('t, 's) recon_state) result" where
  "apply_with_details g ops store p expected already payloads ts =
     (if payloads = [] then Inr (no_payloads p, ts)
      else r_bind (reconcile_with_transports (gate_service g) ops store expected payloads ts) (\<lambda>(tx, ts').
        r_bind (settle g p expected already tx) (\<lambda>r. Inr (r, ts'))))"

definition gate_apply ::
    "gate \<Rightarrow> 't lookup_ops \<Rightarrow> 's store_ops option \<Rightarrow> portfolio_state \<Rightarrow> string list \<Rightarrow> string list
      \<Rightarrow> payload list \<Rightarrow> ('t, 's) recon_state \<Rightarrow> (mutation_outcome \<times> ('t, 's) recon_state) result" where
  "gate_apply g ops store p expected already payloads ts =
     r_bind (apply_with_details g ops store p expected already payloads ts) (\<lambda>(r, ts').
       Inr (gr_outcome r, ts'))"

section \<open>Facts: merging\<close>

lemma merge_state_Inr:
  assumes "merge_state e s = Inr m"
  shows "valid_order m" "os_order_id m = os_order_id e"
    "os_reconciliation_state m = os_reconciliation_state s"
    "os_status m = (if os_reconciliation_state s = Some SUBMIT_SENT then os_status e else os_status s)"
  using assms by (auto simp: merge_state_def Let_def)

definition keyed :: "(string, order_state) dict \<Rightarrow> bool" where
  "keyed d \<longleftrightarrow> wf_dict d \<and> (\<forall>(k, s)\<in>set d. os_order_id s = k)"

lemma keyed_get: "keyed d \<Longrightarrow> dict_get d k = Some s \<Longrightarrow> os_order_id s = k"
  by (auto simp: keyed_def dest: map_of_SomeD)

lemma keyed_set: "keyed d \<Longrightarrow> os_order_id s = k \<Longrightarrow> keyed (dict_set k s d)"
  using set_dict_set_subset [of k s d] by (fastforce simp: keyed_def)

lemma keyed_ids: "keyed d \<Longrightarrow> map os_order_id (map snd d) = map fst d"
  by (auto simp: keyed_def)

lemma merge_one_Inr:
  assumes "merge_one d s = Inr d'" and "keyed d"
  obtains m where "d' = dict_set (os_order_id s) m d" and "os_order_id m = os_order_id s" and "keyed d'"
    and "dict_get d (os_order_id s) = None \<Longrightarrow> m = s"
    and "\<And>e. dict_get d (os_order_id s) = Some e \<Longrightarrow> merge_state e s = Inr m"
proof (cases "dict_get d (os_order_id s)")
  case None
  then have d': "d' = dict_set (os_order_id s) s d"
    using assms(1) unfolding merge_one_def None option.case by simp
  show thesis by (rule that [OF d']) (use None assms(2) d' keyed_set in auto)
next
  case (Some e)
  then obtain m where m: "merge_state e s = Inr m" "d' = dict_set (os_order_id s) m d"
    using assms(1) by (auto simp: merge_one_def r_bind_Inr)
  have "os_order_id m = os_order_id s"
    using merge_state_Inr(2) [OF m(1)] keyed_get [OF assms(2) Some] by simp
  then show thesis by (rule that [OF m(2)]) (use m Some assms(2) keyed_set \<open>os_order_id m = os_order_id s\<close> in auto)
qed

lemma merge_fold_keyed:
  assumes "r_foldl merge_one d ss = Inr d'" and "keyed d"
  shows "keyed d' \<and> map fst d' = dedup (map fst d @ map os_order_id ss)"
  using assms
proof (induction ss arbitrary: d)
  case Nil
  then show ?case by (simp add: keyed_def wf_dict_def dedup_distinct)
next
  case (Cons s ss)
  obtain d1 where d1: "merge_one d s = Inr d1" "r_foldl merge_one d1 ss = Inr d'"
    using Cons.prems(1) by (auto simp: r_bind_Inr)
  obtain m where m: "d1 = dict_set (os_order_id s) m d" "keyed d1"
    using merge_one_Inr [OF d1(1) Cons.prems(2)] by metis
  have "map fst d1 = dedup (map fst d @ [os_order_id s])"
    using Cons.prems(2) unfolding m(1) map_fst_dict_set dedup_snoc
    by (auto simp: keyed_def wf_dict_def dedup_distinct)
  then show ?case using Cons.IH [OF d1(2) m(2)] dedup_prefix [of "map fst d @ [os_order_id s]"]
    by simp
qed

lemma keyed_translated: "keyed (dict_of os_order_id (\<lambda>s. s) ss)"
  using dict_of_get_Some [of os_order_id "\<lambda>s. s" ss]
  by (fastforce simp: keyed_def wf_dict_get)

section \<open>Facts: the guards\<close>

lemma no_reference_out_of_tolerance: "\<not> cs_is_within_tolerance (clock_check cfg now None None)"
  by (simp add: clock_check_def)

lemma blocked_fields [simp]:
  "mo_applied (gr_outcome (blocked p tx ids al ex)) = False"
  "mo_portfolio (gr_outcome (blocked p tx ids al ex)) = p"
  "lr_applied_fill_ids (mo_translation (gr_outcome (blocked p tx ids al ex))) = []"
  "lr_ignored_fill_ids (mo_translation (gr_outcome (blocked p tx ids al ex))) = []"
  "lr_manual_attention (mo_translation (gr_outcome (blocked p tx ids al ex)))"
  "gr_transport (blocked p tx ids al ex) = Some tx"
  by (simp_all add: blocked_def)

lemma finish_translation_fields [simp]:
  "mo_applied (gr_outcome (finish_translation tx sn tr)) = (\<not> lr_manual_attention tr)"
  "mo_portfolio (gr_outcome (finish_translation tx sn tr)) = lr_portfolio tr"
  "mo_translation (gr_outcome (finish_translation tx sn tr)) = tr"
  "gr_transport (finish_translation tx sn tr) = Some tx"
  by (simp_all add: finish_translation_def)

text \<open>
  What a settled batch is: either it was blocked, or the merged orders passed every guard and went
  through the live translator.
\<close>

definition translated_by ::
    "gate \<Rightarrow> portfolio_state \<Rightarrow> string list \<Rightarrow> string list \<Rightarrow> transport_result \<Rightarrow> order_state list
      \<Rightarrow> live_result \<Rightarrow> bool" where
  "translated_by g p expected already tx orders tr \<longleftrightarrow>
     merge_order_states (translated_orders tx) (wr_order_states (tx_workflow tx)) = Inr orders \<and>
     \<not> list_ex (\<lambda>t. pt_status t = MALFORMED) (tx_translations tx) \<and>
     (list_ex pt_stream_invalidated (tx_translations tx) \<longrightarrow> unconfirmed tx expected = []) \<and>
     filter is_pending orders = [] \<and> \<not> can_submit_orders (ga_config g) \<and>
     (let sn = latest_full_account_snapshot (List.map_filter pt_account_snapshot (tx_translations tx))
      in translate (ga_quote_asset g) p orders (gate_fills tx) already (cash_snapshot sn)
           (snapshot_assets sn) = Inr tr)"

lemma settle_outcomes:
  assumes "settle g p expected already tx = Inr r"
  obtains ids al ex where "r = blocked p tx ids al ex"
  | orders tr sn where "translated_by g p expected already tx orders tr" and "r = finish_translation tx sn tr"
proof (cases "list_ex (\<lambda>t. pt_status t = MALFORMED) (tx_translations tx)")
  case True
  with assms that(1) show thesis by (auto simp: settle_def)
next
  case False
  then obtain orders where o: "merge_order_states (translated_orders tx) (wr_order_states (tx_workflow tx)) = Inr orders"
    using assms by (auto simp: settle_def r_bind_Inr)
  let ?open = "list_ex pt_stream_invalidated (tx_translations tx) \<and> unconfirmed tx expected \<noteq> []"
  let ?pending = "map os_order_id (filter is_pending orders)"
  show thesis
  proof (cases "?open \<or> ?pending \<noteq> []")
    case True
    with assms False o that(1) show thesis
      unfolding settle_def by (auto simp: Let_def split: if_splits)
  next
    case clear: False
    then have m: "mutate g p already tx orders = Inr r"
      using assms False o unfolding settle_def by (auto simp: Let_def split: if_splits)
    show thesis
    proof (cases "can_submit_orders (ga_config g)")
      case True
      with m that(1) no_reference_out_of_tolerance show thesis by (auto simp: mutate_def Let_def)
    next
      case no: False
      let ?sn = "latest_full_account_snapshot (List.map_filter pt_account_snapshot (tx_translations tx))"
      obtain tr where tr: "translate (ga_quote_asset g) p orders (gate_fills tx) already (cash_snapshot ?sn)
          (snapshot_assets ?sn) = Inr tr" "r = finish_translation tx ?sn tr"
        using m no by (auto simp: mutate_def Let_def r_bind_Inr)
      have "translated_by g p expected already tx orders tr"
        using o False clear no tr(1) by (auto simp: translated_by_def)
      with tr(2) that(2) show thesis by blast
    qed
  qed
qed

lemma apply_with_details_outcomes:
  assumes "apply_with_details g ops store p expected already payloads ts = Inr (r, ts')"
  obtains "payloads = []" and "r = no_payloads p" and "ts' = ts"
  | tx where "reconcile_with_transports (gate_service g) ops store expected payloads ts = Inr (tx, ts')"
      and "settle g p expected already tx = Inr r"
  using assms by (auto simp: apply_with_details_def r_bind_Inr split: if_splits)

lemma no_payloads_fields [simp]:
  "mo_applied (gr_outcome (no_payloads p)) = False" "mo_portfolio (gr_outcome (no_payloads p)) = p"
  "lr_applied_fill_ids (mo_translation (gr_outcome (no_payloads p))) = []"
  "lr_ignored_fill_ids (mo_translation (gr_outcome (no_payloads p))) = []"
  by (simp_all add: no_payloads_def Let_def)

lemma unapplied_keeps_portfolio:
  assumes "apply_with_details g ops store p expected already payloads ts = Inr (r, ts')"
    and "\<not> mo_applied (gr_outcome r)"
  shows "mo_portfolio (gr_outcome r) = p \<and> lr_applied_fill_ids (mo_translation (gr_outcome r)) = []"
  using assms(1)
proof (cases rule: apply_with_details_outcomes)
  case 1
  then show ?thesis by simp
next
  case (2 tx)
  from 2(2) show ?thesis
  proof (cases rule: settle_outcomes)
    case (2 orders tr sn)
    then have "lr_manual_attention tr" using assms(2) by simp
    then have "lr_portfolio tr = p \<and> lr_applied_fill_ids tr = []"
      using 2(1) paper.translate_Inr unfolding translated_by_def Let_def translate_def by metis
    with 2(2) show ?thesis by simp
  qed simp
qed

lemma applied_outcome:
  assumes "apply_with_details g ops store p expected already payloads ts = Inr (r, ts')"
    and "mo_applied (gr_outcome r)"
  obtains tx orders where "reconcile_with_transports (gate_service g) ops store expected payloads ts = Inr (tx, ts')"
    and "translated_by g p expected already tx orders (mo_translation (gr_outcome r))"
    and "\<not> lr_manual_attention (mo_translation (gr_outcome r))"
    and "mo_portfolio (gr_outcome r) = lr_portfolio (mo_translation (gr_outcome r))"
  using assms(1)
proof (cases rule: apply_with_details_outcomes)
  case 1
  with assms(2) show thesis by simp
next
  case (2 tx)
  from 2(2) show thesis
  proof (cases rule: settle_outcomes)
    case (1 ids al ex)
    with assms(2) show thesis by simp
  next
    case t: (2 orders tr sn)
    with assms(2) show thesis by (intro that [OF 2(1), of orders]) simp_all
  qed
qed

lemma gate_applies_once:
  assumes "apply_with_details g ops store p expected already payloads ts = Inr (r, ts')"
  shows "distinct (lr_applied_fill_ids (mo_translation (gr_outcome r))) \<and>
    set (lr_applied_fill_ids (mo_translation (gr_outcome r))) \<inter> set already = {}"
proof (cases "mo_applied (gr_outcome r)")
  case True
  with assms obtain tx orders where "translated_by g p expected already tx orders (mo_translation (gr_outcome r))"
    by (rule applied_outcome) blast
  then show ?thesis
    using paper.applied_once(1,2) unfolding translated_by_def Let_def translate_def by metis
next
  case False
  with unapplied_keeps_portfolio [OF assms] show ?thesis by simp
qed

section \<open>Facts: a batch that matches the expected orders exactly\<close>

lemma merge_erases:
  assumes "merge_state e s = Inr m" and "no_quantities s"
    and "0 < os_remaining_quantity e \<or> no_quantities e"
  shows "no_quantities m"
  using assms
  by (auto simp: merge_state_def Let_def no_quantities_def richer_quantities_def prefer_reconciled_shape_def)

lemma merge_fold_erases:
  assumes "r_foldl merge_one d ss = Inr d'" and "keyed d" and "list_all no_quantities ss"
    and "dict_get d i = Some e" and "0 < os_remaining_quantity e \<or> no_quantities e"
  shows "\<exists>m. dict_get d' i = Some m \<and> (i \<in> os_order_id ` set ss \<or> no_quantities e \<longrightarrow> no_quantities m)"
  using assms
proof (induction ss arbitrary: d e)
  case Nil
  then show ?case by simp
next
  case (Cons s ss)
  obtain d1 where d1: "merge_one d s = Inr d1" "r_foldl merge_one d1 ss = Inr d'"
    using Cons.prems(1) by (auto simp: r_bind_Inr)
  obtain m where m: "d1 = dict_set (os_order_id s) m d" "keyed d1"
    "\<And>e. dict_get d (os_order_id s) = Some e \<Longrightarrow> merge_state e s = Inr m"
    using merge_one_Inr [OF d1(1) Cons.prems(2)] by metis
  have ss: "list_all no_quantities ss" "no_quantities s" using Cons.prems(3) by simp_all
  show ?case
  proof (cases "os_order_id s = i")
    case True
    have "no_quantities m" using merge_erases [OF m(3) ss(2)] Cons.prems(4,5) True by blast
    moreover have "dict_get d1 i = Some m" using m(1) True by (simp add: dict_get_set)
    ultimately show ?thesis using Cons.IH [OF d1(2) m(2) ss(1)] by blast
  next
    case False
    have "dict_get d1 i = Some e" using m(1) False Cons.prems(4) by (simp add: dict_get_set)
    from Cons.IH [OF d1(2) m(2) ss(1) this Cons.prems(5)] False show ?thesis by auto
  qed
qed

lemma keyed_dict_of:
  assumes "keyed d" and "dict_get (dict_of os_order_id (\<lambda>s. s) (map snd d)) k = Some v"
  shows "dict_get d k = Some v"
proof -
  obtain x where "x \<in> set (map snd d)" "os_order_id x = k" "x = v"
    using dict_of_get_Some [OF assms(2)] by blast
  with assms(1) have "(k, v) \<in> set d" by (auto simp: keyed_def)
  with assms(1) show ?thesis by (simp add: keyed_def wf_dict_get)
qed

lemma translated_fills_valid:
  assumes "translate_payloads env tr ps = Inr ts" and "t \<in> set ts" and "pt_fill_event t = Some f"
  shows "valid_fill f"
proof -
  obtain p where "translate_payload env tr p = Inr t"
    using r_map_Inr_set [OF assms(1) [unfolded translate_payloads_def] assms(2)] by blast
  from translate_payload_outcome [OF this] assms(3) show ?thesis
    by (auto simp: carries_nothing_def carries_order_def)
qed

text \<open>Without missing orders and unknown executions nothing is looked up or recovered.\<close>

lemma nothing_to_recover:
  assumes "run_recovery sv ops store expected batch trs (t, s) = Inr (tx, (t', s'))"
    and "store = None \<or> store = Some json_store_ops"
    and "rr_missing (tx_reconciliation tx) = []" and "rr_unknown_ids (tx_reconciliation tx) = []"
  shows "wr_recovered_fills (tx_workflow tx) = []"
    and "map os_order_id (wr_order_states (tx_workflow tx)) = rr_matched (tx_reconciliation tx)"
    and "list_all no_quantities (wr_order_states (tx_workflow tx))"
    and "list_all valid_order (wr_order_states (tx_workflow tx))"
    and "states_are ACKNOWLEDGED SUBMIT_SENT (wr_order_states (tx_workflow tx))"
proof -
  have "\<exists>w0 plan. coordinate (sv_coordinator sv) (tx_reconciliation tx) [] (sv_coordination_time sv) = Inr w0 \<and>
    tx_workflow tx = finish_workflow plan w0"
    using assms(1)
  proof (rule run_recovery_Inr)
    fix st s1 and lookups :: "lookup_result list" and w0 :: workflow_result and events :: "private_event list"
      and rr :: reconciliation_result and plan :: recovery_plan
    assume e: "rr = reconcile expected events"
      and st: "lookup_rounds ops (unknown_execution_fallbacks expected events) (rp_automatic plan)
        (lookup_requests rr) (if rp_automatic plan then sv_max_rounds sv else 1) (rounds_start t) = Inr st"
      and reg: "register_with store (rd_lookups st) (sv_effective_time sv) (sv_cursor sv) s = (lookups, s1)"
      and co: "coordinate (sv_coordinator sv) rr lookups (sv_coordination_time sv) = Inr w0"
      and w: "tx_workflow tx = finish_workflow plan w0" and rr: "tx_reconciliation tx = rr"
    have "lookup_requests rr = []" using requests_iff [of expected events] assms(3,4) e rr by simp
    then have "rd_lookups st = []"
      using st by (cases "if rp_automatic plan then sv_max_rounds sv else 1")
        (auto simp: rounds_start_def split: if_splits)
    then have "lookups = []" using register_with_unnumbered [OF assms(2) reg] by simp
    with co w rr show ?thesis by auto
  qed
  then obtain w0 plan where co: "coordinate (sv_coordinator sv) (tx_reconciliation tx) []
      (sv_coordination_time sv) = Inr w0" and w: "tx_workflow tx = finish_workflow plan w0" by blast
  have g: "group_lookups [] = []" by (simp add: group_lookups_def)
  from co show "wr_recovered_fills (tx_workflow tx) = []"
    by (rule coordinate_Inr) (simp add: w g)
  from co show "map os_order_id (wr_order_states (tx_workflow tx)) = rr_matched (tx_reconciliation tx)"
    by (rule coordinate_Inr) (simp add: w g assms(3,4))
  from co show "list_all no_quantities (wr_order_states (tx_workflow tx))"
    by (rule coordinate_Inr) (simp add: w g assms(3,4))
  from co show "list_all valid_order (wr_order_states (tx_workflow tx))"
    by (rule coordinate_Inr) (simp add: w g assms(3,4))
  from co show "states_are ACKNOWLEDGED SUBMIT_SENT (wr_order_states (tx_workflow tx))"
    by (rule coordinate_Inr) (simp add: w g assms(3,4))
qed

lemma merge_state_total:
  assumes "valid_order e" and "valid_order s"
  shows "\<exists>m. merge_state e s = Inr m"
  using assms
  by (auto simp: merge_state_def Let_def valid_order_def order_state_checks_def prefer_reconciled_shape_def
      opt_all_def split: option.splits)

section \<open>Properties\<close>

text \<open>
  C6. A gate that does not report the mutation as applied changes nothing: whatever the payloads, the
  exchange's answers and the store, the portfolio it returns is the one it got and no fill counts as
  applied.
\<close>

theorem blocked_gate_changes_nothing:
  assumes "apply_with_details g ops store p expected already payloads ts = Inr (r, ts')"
    and "\<not> mo_applied (gr_outcome r)"
  shows "mo_portfolio (gr_outcome r) = p \<and> lr_applied_fill_ids (mo_translation (gr_outcome r)) = []"
  using assms by (rule unapplied_keeps_portfolio)

definition sample_gate :: "bool \<Rightarrow> gate" where
  "sample_gate submit =
     \<lparr>ga_service = sample_service, ga_config = (sample_config [] [])\<lparr>cfg_allow_order_submission := submit\<rparr>,
      ga_clock_now = utc 9, ga_quote_asset = ''USDT''\<rparr>"

lemma blocked_gate_changes_nothing_witness:
  "\<exists>r ts'. apply_with_details (sample_gate False) (rest_ops down_env) (Some json_store_ops) sample_portfolio
      [''77''] [] [] (sample_transport, None) = Inr (r, ts') \<and> mo_portfolio (gr_outcome r) = sample_portfolio"
proof -
  have a: "apply_with_details (sample_gate False) (rest_ops down_env) (Some json_store_ops) sample_portfolio
      [''77''] [] [] (sample_transport, None) = Inr (no_payloads sample_portfolio, (sample_transport, None))"
    by (simp add: apply_with_details_def)
  have "\<not> mo_applied (gr_outcome (no_payloads sample_portfolio))" by simp
  from blocked_gate_changes_nothing [OF a this] a show ?thesis by blast
qed


lemma sample_gate_service:
  "gate_service (sample_gate b) = sample_service" "ga_quote_asset (sample_gate b) = ''USDT''"
  "can_submit_orders (ga_config (sample_gate b)) = b"
  by (simp_all add: gate_service_def sample_gate_def sample_service_def can_submit_orders_def)

lemma sample_gate_reconcile:
  assumes "ingest_payloads default_stream_client ps None False = Inr batch"
    and "translate_payloads sample_env sample_translator ps = Inr trs"
    and "\<forall>e\<in>set (events_for_reconciliation batch). named_event e" and "\<forall>i\<in>set expected. \<not> blank i"
    and "rr_missing (reconcile (dedup expected) (events_for_reconciliation batch)) = []"
    and "rr_unknown_ids (reconcile (dedup expected) (events_for_reconciliation batch)) = []"
  shows "\<exists>tx ts'. reconcile_with_transports sample_service (rest_ops down_env) (Some json_store_ops) expected ps
      (sample_transport, None) = Inr (tx, ts') \<and> tx_translations tx = trs \<and>
    tx_reconciliation tx = reconcile (dedup expected) (events_for_reconciliation batch) \<and>
    wr_recovered_fills (tx_workflow tx) = [] \<and>
    map os_order_id (wr_order_states (tx_workflow tx)) = rr_matched (tx_reconciliation tx) \<and>
    list_all no_quantities (wr_order_states (tx_workflow tx)) \<and>
    list_all valid_order (wr_order_states (tx_workflow tx)) \<and>
    states_are ACKNOWLEDGED SUBMIT_SENT (wr_order_states (tx_workflow tx))"
proof -
  have ing: "ingest_payloads (sv_client sample_service) ps (sv_cursor sample_service)
      (sv_has_gap sample_service) = Inr batch" and tr: "translate_payloads (sv_text sample_service)
      (sv_translator sample_service) ps = Inr trs"
    using assms(1,2) by (simp_all add: sample_service_def)
  have "\<exists>tx t' s'. reconcile_with_transports sample_service (rest_ops down_env) (Some json_store_ops) expected ps
      (sample_transport, None) = Inr (tx, (t', s'))"
    by (rule rest_reconcile_total [OF ing tr assms(3)])
      (use assms(4) in \<open>auto simp: down_env_def sample_service_def default_coordinator_def blank_def py_space_def\<close>)
  then obtain tx t' s' where tx: "reconcile_with_transports sample_service (rest_ops down_env)
      (Some json_store_ops) expected ps (sample_transport, None) = Inr (tx, (t', s'))" by blast
  obtain b trs' where run: "ingest_payloads (sv_client sample_service) ps (sv_cursor sample_service)
      (sv_has_gap sample_service) = Inr b"
    "translate_payloads (sv_text sample_service) (sv_translator sample_service) ps = Inr trs'"
    "run_recovery sample_service (rest_ops down_env) (Some json_store_ops)
      (resumed_expected (Some json_store_ops) None expected) b trs' (sample_transport, None) = Inr (tx, (t', s'))"
    using reconcile_with_transports_Inr [OF tx] by blast
  have b: "b = batch" "trs' = trs" using run(1,2) ing tr by simp_all
  have r: "tx_reconciliation tx = reconcile (dedup expected) (events_for_reconciliation batch) \<and>
      tx_translations tx = trs"
    using run(3) unfolding b sample_resumed_fresh by (rule run_recovery_Inr) simp
  have "rr_missing (tx_reconciliation tx) = []" "rr_unknown_ids (tx_reconciliation tx) = []"
    using r assms(5,6) by simp_all
  from nothing_to_recover [OF run(3) _ this] r tx show ?thesis by auto
qed

definition sample_balance_payload :: payload where
  "sample_balance_payload =
     [(''e'', JStr ''balanceUpdate''), (''E'', JInt 1000), (''a'', JStr ''USDT''), (''d'', JStr ''1'')]"

lemma sample_balance_translation:
  obtains t where "translate_payloads sample_env sample_translator [sample_balance_payload] = Inr [t]"
    and "pt_status t = TRANSLATED" and "pt_order_state t = None" and "pt_fill_event t = None"
    and "\<not> pt_stream_invalidated t" and "opt_all acc_is_partial (pt_account_snapshot t)"
proof -
  have "parse_event_time (jget sample_balance_payload ''E'') = Inr (Some (utc 1000000))"
    by (simp add: parse_event_time_def sample_balance_payload_def json_int_def from_timestamp_ms_def catching_def)
  moreover have snap: "\<exists>s. balance_update_snapshot sample_translator sample_balance_payload (utc 1000000) = Inr s \<and>
      acc_is_partial s"
    by (simp add: balance_update_snapshot_def sample_balance_payload_def parse_samples sample_translator_def
        mk_asset_balance_def mk_account_snapshot_def asset_balance_checks_def account_snapshot_checks_def
        validated_def run_checks_append blank_def py_space_def require_non_empty_def require_aware_utc_def
        require_opt_def is_utc_def)
  moreover have "payload_type sample_balance_payload d = ''balanceUpdate''" for d
    by (simp add: payload_type_def sample_balance_payload_def)
  moreover obtain s where "balance_update_snapshot sample_translator sample_balance_payload (utc 1000000) = Inr s"
    "acc_is_partial s" using snap by blast
  ultimately show thesis
    by (intro that [of "translated_account sample_translator ''balanceUpdate'' (utc 1000000) s"])
      (simp_all add: translate_payloads_def translate_payload_def translate_balance_account_update_def
        account_update_body_def translated_account_def)
qed

lemma sample_balance_ingest:
  obtains batch where "ingest_payloads default_stream_client [sample_balance_payload] None False = Inr batch"
    and "events_for_reconciliation batch = []"
  by (intro that [of "ingest_events [stream_event default_stream_client ''balance_update'' ACCOUNT_UPDATE
        (utc 1000000) [(''asset'', ''USDT''), (''delta'', ''1'')]] None False STREAMING"])
    (simp_all add: ingest_payloads_def normalize_event_payload_def sample_balance_payload_def payload_type_def
      jget_or_def json_int_def from_timestamp_ms_def events_for_reconciliation_def stream_event_def)

lemma sample_apply_nothing: "apply_fills ''USDT'' sample_portfolio [] = Inr sample_portfolio"
  by (simp add: apply_fills_def initial_acc_def finish_acc_def sample_portfolio_def
      valid_portfolio_iff blank_def py_space_def)

lemma empty_translation:
  "\<exists>tr. translate ''USDT'' sample_portfolio [] [] [] None [] = Inr tr \<and> \<not> lr_manual_attention tr"
  by (simp add: sample_apply_nothing translate_def translate_with_def gather_def scan_fills_def tr_start_def
      group_fills_def dict_of_def)



definition partial_report :: payload where
  "partial_report =
     [(''e'', JStr ''executionReport''), (''E'', JInt 1000), (''s'', JStr ''BTCUSDT''),
      (''S'', JStr ''BUY''), (''o'', JStr ''MARKET''), (''X'', JStr ''PARTIALLY_FILLED''), (''q'', JStr ''2''),
      (''z'', JStr ''1''), (''c'', JStr ''c1''), (''i'', JInt 77), (''x'', JStr ''NEW'')]"

definition partial_order :: order_state where
  "partial_order = reported_order
     \<lparr>os_status := PARTIALLY_FILLED, os_filled_quantity := Dec 1, os_remaining_quantity := Dec 1\<rparr>"

lemma halves [simp]: "Dec 2 - 1 = 1" "1 + 1 = Dec 2"
  by (simp_all add: decimal_eq_iff)

lemma partial_report_translate:
  "translate_payloads sample_env sample_translator [partial_report]
     = Inr [translated_order sample_translator (utc 1000000) partial_order None []]"
proof -
  have "execution_order_state sample_translator partial_report (utc 1000000) = Inr partial_order"
    by (simp add: reported_order_def partial_order_def execution_order_state_def partial_report_def
        sample_translator_def parse_samples map_side_def map_order_type_def map_order_status_def
        status_table_def json_or_def json_truthy_def parse_optional_decimal_def valid_order_def
        order_state_checks_def blank_def py_space_def)
  moreover have "payload_type partial_report [] = ''executionReport''"
    "filter (\<lambda>k. absent (jget partial_report k)) required_fields = []"
    "parse_event_time (jget partial_report ''E'') = Inr (Some (utc 1000000))"
    "execution_type partial_report = ''NEW''" "jget partial_report ''l'' = JNull"
    by (simp_all add: payload_type_def partial_report_def required_fields_def parse_event_time_def
        json_int_def from_timestamp_ms_def catching_def execution_type_def)
  ultimately show ?thesis
    by (simp add: translate_payloads_def translate_payload_def translate_order_execution_update_def
        finish_execution_def build_fill_event_def parse_optional_decimal_def)
qed

lemma partial_report_ingest:
  obtains batch where "ingest_payloads default_stream_client [partial_report] None False = Inr batch"
    and "reconcile [''77''] (events_for_reconciliation batch)
      = \<lparr>rr_matched = [''77''], rr_missing = [], rr_unknown_ids = [], rr_alerts = [],
         rr_unknown_client_ids = [], rr_unknown_exchange_only_ids = [], rr_actions = []\<rparr>"
    and "\<forall>e\<in>set (events_for_reconciliation batch). named_event e"
proof -
  define e where "e = (stream_event default_stream_client ''execution_report'' ORDER_UPDATE (utc 1000000)
      [(''order_status'', ''PARTIALLY_FILLED''), (''execution_type'', ''NEW''), (''symbol'', ''BTCUSDT'')])
    \<lparr>pe_sequence_id := Some ''77'', pe_client_order_id := Some ''c1'', pe_exchange_order_id := Some ''77''\<rparr>"
  have "ingest_payloads default_stream_client [partial_report] None False
      = Inr (ingest_events [e] None False STREAMING)"
    by (simp add: ingest_payloads_def normalize_event_payload_def partial_report_def payload_type_def
        jget_or_def json_int_def from_timestamp_ms_def e_def opt_str_def parse_samples)
  moreover have "events_for_reconciliation (ingest_events [e] None False STREAMING) = [e]"
    by (simp add: events_for_reconciliation_def e_def stream_event_def)
  moreover have "reconcile [''77''] [e] = \<lparr>rr_matched = [''77''], rr_missing = [], rr_unknown_ids = [],
      rr_alerts = [], rr_unknown_client_ids = [], rr_unknown_exchange_only_ids = [], rr_actions = []\<rparr>"
    by (simp add: reconcile_def e_def unexpected_def stream_event_def map_filter_def truthy_def)
  moreover have "named_event e"
    by (simp add: named_event_def e_def stream_event_def readable_def blank_def py_space_def)
  ultimately show thesis using that by simp
qed

lemma sample_matched_translate: "\<exists>tr. translate ''USDT'' sample_portfolio [m] [] [] None [] = Inr tr"
  by (auto simp: sample_apply_nothing translate_def translate_with_def gather_def scan_fills_def tr_start_def
      group_fills_def dict_of_def check_order_applied)


end
