(* ===== verification/ExchangeHealth.thy ===== *)
theory ExchangeHealth
  imports LiveGate
begin

text \<open>
  \<open>app/monitoring/exchange_health.py\<close> and the health records of \<open>app/monitoring/models.py\<close>: the
  operator's view of the private stream, the reconciliation, the clock and the status queries, and the
  severity they add up to.
\<close>

section \<open>Health records\<close>

datatype health_state = HEALTH_OK | HEALTH_DEGRADED | HEALTH_FATAL | HEALTH_UNKNOWN

fun health_value :: "health_state \<Rightarrow> string" where
  "health_value HEALTH_OK = ''healthy''"
| "health_value HEALTH_DEGRADED = ''degraded''"
| "health_value HEALTH_FATAL = ''fatal''"
| "health_value HEALTH_UNKNOWN = ''unknown''"

record component_health =
  ch_component :: string
  ch_state :: health_state
  ch_detail :: string
  ch_alerts :: "string list"

record health_snapshot =
  hs_venue :: string
  hs_generated_at :: datetime
  hs_overall :: health_state
  hs_private_stream :: component_health
  hs_reconciliation :: component_health
  hs_clock_sync :: component_health
  hs_status_query :: component_health
  hs_alerts :: "string list"

section \<open>The components\<close>

fun stream_state_value :: "private_stream_state \<Rightarrow> string" where
  "stream_state_value INITIALIZING = ''initializing''"
| "stream_state_value AUTHENTICATED = ''authenticated''"
| "stream_state_value SUBSCRIBED = ''subscribed''"
| "stream_state_value STREAMING = ''streaming''"
| "stream_state_value DEGRADED = ''degraded''"
| "stream_state_value SESSION_ROLLOVER = ''session_rollover''"
| "stream_state_value TERMINATED = ''terminated''"
| "stream_state_value SHUTDOWN = ''shutdown''"

definition private_stream_component :: "stream_health option \<Rightarrow> component_health" where
  "private_stream_component health =
     (case health of
        None \<Rightarrow> \<lparr>ch_component = ''private_stream'', ch_state = HEALTH_UNKNOWN,
          ch_detail = ''private stream health unavailable'', ch_alerts = []\<rparr>
      | Some h \<Rightarrow>
          (let (state, detail) =
             (if sh_state h = STREAMING \<and> sh_is_authoritative h then
                (HEALTH_OK, ''private stream connected and authoritative'')
              else if sh_state h = TERMINATED then (HEALTH_FATAL, ''private stream terminated'')
              else (HEALTH_DEGRADED, ''private stream '' @ stream_state_value (sh_state h)))
           in \<lparr>ch_component = ''private_stream'', ch_state = state, ch_detail = detail,
               ch_alerts = sh_alerts h\<rparr>))"

definition reconciliation_component ::
    "workflow_result option \<Rightarrow> cursor_snapshot option \<Rightarrow> component_health" where
  "reconciliation_component workflow cursor =
     (let unresolved = (case cursor of None \<Rightarrow> [] | Some c \<Rightarrow> cu_unresolved c);
          manual = (case cursor of None \<Rightarrow> [] | Some c \<Rightarrow> cu_manual_attention c);
          gap = opt_any cu_gap_active cursor;
          states = (case workflow of None \<Rightarrow> [] | Some w \<Rightarrow> map re_state (wr_events w))
      in if workflow = None \<and> cursor = None then
           \<lparr>ch_component = ''reconciliation'', ch_state = HEALTH_UNKNOWN,
            ch_detail = ''reconciliation health unavailable'', ch_alerts = []\<rparr>
         else if manual \<noteq> [] \<or> UNRECONCILED_MANUAL_ATTENTION \<in> set states then
           \<lparr>ch_component = ''reconciliation'', ch_state = HEALTH_FATAL,
            ch_detail = ''manual attention required'',
            ch_alerts = map (\<lambda>i. ''manual attention order: '' @ i) manual\<rparr>
         else if unresolved \<noteq> [] \<or> gap \<or> UNKNOWN_EXECUTION \<in> set states
             \<or> STATUS_QUERY_PENDING \<in> set states then
           \<lparr>ch_component = ''reconciliation'', ch_state = HEALTH_DEGRADED,
            ch_detail = ''reconciliation convergence pending'',
            ch_alerts = (if gap then [''private-stream gap recovery active''] else [])
              @ map (\<lambda>i. ''unresolved order: '' @ i) unresolved\<rparr>
         else
           \<lparr>ch_component = ''reconciliation'', ch_state = HEALTH_OK,
            ch_detail = ''reconciliation converged'',
            ch_alerts = (case workflow of None \<Rightarrow> [] | Some w \<Rightarrow> wr_alerts w)\<rparr>)"

definition opt_alert :: "string option \<Rightarrow> string list" where
  "opt_alert a = (if truthy a then [the a] else [])"

definition clock_component :: "clock_status option \<Rightarrow> component_health" where
  "clock_component status =
     (case status of
        None \<Rightarrow> \<lparr>ch_component = ''clock_sync'', ch_state = HEALTH_UNKNOWN,
          ch_detail = ''clock sync unavailable'', ch_alerts = []\<rparr>
      | Some s \<Rightarrow>
          if cs_is_uncertain s \<or> \<not> cs_is_within_tolerance s then
            \<lparr>ch_component = ''clock_sync'', ch_state = HEALTH_FATAL,
             ch_detail = ''clock sync uncertain or out of tolerance'', ch_alerts = opt_alert (cs_alert s)\<rparr>
          else
            \<lparr>ch_component = ''clock_sync'', ch_state = HEALTH_OK,
             ch_detail = ''clock sync within tolerance'', ch_alerts = opt_alert (cs_alert s)\<rparr>)"

definition status_query_component :: "query_health list \<Rightarrow> component_health" where
  "status_query_component items =
     (if items = [] then
        \<lparr>ch_component = ''status_query'', ch_state = HEALTH_UNKNOWN,
         ch_detail = ''no status-query attempts recorded'', ch_alerts = []\<rparr>
      else
        (let latest = last items;
             (state, detail) =
               (case qh_state latest of
                  QUERY_SUCCESS \<Rightarrow> (HEALTH_OK, ''latest signed status query succeeded'')
                | QUERY_FAILED \<Rightarrow> (HEALTH_DEGRADED, ''latest signed status query failed'')
                | QUERY_BLOCKED \<Rightarrow> (HEALTH_DEGRADED, ''status query blocked''))
         in \<lparr>ch_component = ''status_query'', ch_state = state, ch_detail = detail,
             ch_alerts = opt_alert (qh_alert latest)\<rparr>))"

section \<open>The snapshot\<close>

definition overall_state :: "health_state list \<Rightarrow> health_state" where
  "overall_state states =
     (if HEALTH_FATAL \<in> set states then HEALTH_FATAL
      else if HEALTH_DEGRADED \<in> set states then HEALTH_DEGRADED
      else if list_all (\<lambda>s. s = HEALTH_UNKNOWN) states then HEALTH_UNKNOWN
      else HEALTH_OK)"

definition build_snapshot ::
    "string \<Rightarrow> stream_health option \<Rightarrow> workflow_result option \<Rightarrow> clock_status option
      \<Rightarrow> query_health list \<Rightarrow> cursor_snapshot option \<Rightarrow> datetime \<Rightarrow> health_snapshot" where
  "build_snapshot venue stream workflow clock queries cursor now =
     (let ps = private_stream_component stream; rc = reconciliation_component workflow cursor;
          cs = clock_component clock; sq = status_query_component queries
      in \<lparr>hs_venue = venue, hs_generated_at = now,
          hs_overall = overall_state [ch_state ps, ch_state rc, ch_state cs, ch_state sq],
          hs_private_stream = ps, hs_reconciliation = rc, hs_clock_sync = cs, hs_status_query = sq,
          hs_alerts = dedup (ch_alerts ps @ ch_alerts rc @ ch_alerts cs @ ch_alerts sq)\<rparr>)"

definition component_line :: "component_health \<Rightarrow> string" where
  "component_line c =
     ''- '' @ ch_component c @ '': '' @ health_value (ch_state c) @ '' ('' @ ch_detail c @ '')''"

definition render_operator_summary :: "health_snapshot \<Rightarrow> string" where
  "render_operator_summary s = str_join [CHR 0x0A]
     [''## Exchange Health'', ''- venue: '' @ hs_venue s,
      ''- overall_state: '' @ health_value (hs_overall s), component_line (hs_private_stream s),
      component_line (hs_reconciliation s), component_line (hs_clock_sync s),
      component_line (hs_status_query s),
      ''- alerts: '' @ (if str_join '', '' (hs_alerts s) = [] then ''none''
        else str_join '', '' (hs_alerts s))]"

text \<open>
  The provider's snapshot if it gives one, an explicit unknown one for Binance, else nothing. The
  clock is read only for the unknown snapshot.
\<close>

definition current_or_unknown ::
    "string option \<Rightarrow> ('w \<Rightarrow> health_snapshot option \<times> 'w) option \<Rightarrow> ('w \<Rightarrow> datetime \<times> 'w) \<Rightarrow> 'w
      \<Rightarrow> health_snapshot option \<times> 'w" where
  "current_or_unknown venue provider now w =
     (let unknown = (\<lambda>w. if str_lower (str_strip (py_or venue [])) = ''binance''
            then (let (t, w') = now w in (Some (build_snapshot ''binance'' None None None [] None t), w'))
            else (None, w))
      in case provider of
           None \<Rightarrow> unknown w
         | Some p \<Rightarrow> (case p w of (None, w') \<Rightarrow> unknown w' | (Some s, w') \<Rightarrow> (Some s, w')))"

section \<open>Facts\<close>

definition severity :: "health_state \<Rightarrow> nat" where
  "severity s = (case s of HEALTH_UNKNOWN \<Rightarrow> 0 | HEALTH_OK \<Rightarrow> 1 | HEALTH_DEGRADED \<Rightarrow> 2 | HEALTH_FATAL \<Rightarrow> 3)"

lemma severity_inject: "severity a = severity b \<longleftrightarrow> a = b"
  by (cases a; cases b) (simp_all add: severity_def)

lemma severity_simps [simp]:
  "severity HEALTH_UNKNOWN = 0" "severity HEALTH_OK = 1" "severity HEALTH_DEGRADED = 2"
  "severity HEALTH_FATAL = 3"
  by (simp_all add: severity_def)

lemma overall_state_in:
  assumes "states \<noteq> []"
  shows "overall_state states \<in> set states" and "s \<in> set states \<Longrightarrow> severity s \<le> severity (overall_state states)"
proof -
  have ok: "HEALTH_OK \<in> set states" if not: "HEALTH_FATAL \<notin> set states" "HEALTH_DEGRADED \<notin> set states"
    "\<not> list_all (\<lambda>s. s = HEALTH_UNKNOWN) states"
  proof -
    obtain s where s: "s \<in> set states" "s \<noteq> HEALTH_UNKNOWN" using not(3) by (auto simp: list_all_iff)
    with not(1,2) show ?thesis by (cases s) auto
  qed
  show "overall_state states \<in> set states"
    using ok assms by (cases states) (auto simp: overall_state_def list_all_iff)
  assume "s \<in> set states"
  then show "severity s \<le> severity (overall_state states)"
    unfolding overall_state_def by (cases s rule: health_state.exhaust) (auto simp: list_all_iff)
qed

lemma component_states [simp]:
  "ch_state (private_stream_component None) = HEALTH_UNKNOWN"
  "ch_state (clock_component None) = HEALTH_UNKNOWN"
  by (simp_all add: private_stream_component_def clock_component_def)

lemma build_snapshot_fields [simp]:
  "hs_private_stream (build_snapshot v st w c q cu t) = private_stream_component st"
  "hs_reconciliation (build_snapshot v st w c q cu t) = reconciliation_component w cu"
  "hs_clock_sync (build_snapshot v st w c q cu t) = clock_component c"
  "hs_status_query (build_snapshot v st w c q cu t) = status_query_component q"
  "hs_overall (build_snapshot v st w c q cu t) = overall_state
     [ch_state (private_stream_component st), ch_state (reconciliation_component w cu),
      ch_state (clock_component c), ch_state (status_query_component q)]"
  by (simp_all add: build_snapshot_def Let_def)

text \<open>What a converged reconciliation component means for the workflow and the stored snapshot.\<close>

lemma reconciliation_ok_iff:
  "ch_state (reconciliation_component (Some w) (Some c)) = HEALTH_OK \<longleftrightarrow>
     cu_unresolved c = [] \<and> cu_manual_attention c = [] \<and> \<not> cu_gap_active c \<and>
     {UNRECONCILED_MANUAL_ATTENTION, UNKNOWN_EXECUTION, STATUS_QUERY_PENDING}
       \<inter> re_state ` set (wr_events w) = {}"
  by (auto simp: reconciliation_component_def Let_def image_iff)

lemma reconciliation_never_unknown:
  "ch_state (reconciliation_component (Some w) c) \<noteq> HEALTH_UNKNOWN"
  by (simp add: reconciliation_component_def Let_def)

text \<open>Every unknown and every missing order leaves its event in the workflow.\<close>

lemma marked_order_event:
  assumes "marked_order co t rs d td acc i = Inr u"
  shows "\<exists>e. wa_events u = wa_events acc @ [e] \<and> re_order_id e = i \<and> re_state e = rs"
  using assms by (auto simp: marked_order_def r_bind_Inr coordinator_event_def mk_reconciliation_event_def
      simp del: mk_order_state_Inr)

lemma marked_orders_events:
  assumes "r_foldl (marked_order co t rs d td) acc ids = Inr acc'"
  shows "\<exists>es. wa_events acc' = wa_events acc @ es \<and> map re_order_id es = ids \<and> (\<forall>e\<in>set es. re_state e = rs)"
  using assms
proof (induction ids arbitrary: acc)
  case Nil
  then show ?case by simp
next
  case (Cons i ids)
  obtain u where u: "marked_order co t rs d td acc i = Inr u"
    and rest: "r_foldl (marked_order co t rs d td) u ids = Inr acc'"
    using Cons.prems by (auto simp: r_bind_Inr)
  obtain e where e: "wa_events u = wa_events acc @ [e]" "re_order_id e = i" "re_state e = rs"
    using marked_order_event [OF u] by blast
  obtain es where "wa_events acc' = wa_events u @ es" "map re_order_id es = ids" "\<forall>e\<in>set es. re_state e = rs"
    using Cons.IH [OF rest] by blast
  with e show ?case by (intro exI [of _ "e # es"]) simp
qed

lemma lookups_keep_events:
  assumes "r_foldl (coordinate_lookup co t) acc gs = Inr acc'"
  shows "set (wa_events acc) \<subseteq> set (wa_events acc')"
  using assms
proof (induction gs arbitrary: acc)
  case (Cons g gs)
  obtain v as where g: "g = (v, as)" by (cases g)
  obtain u where u: "coordinate_lookup co t acc (v, as) = Inr u"
    and rest: "r_foldl (coordinate_lookup co t) u gs = Inr acc'"
    using Cons.prems unfolding g by (auto simp: r_bind_Inr)
  have "set (wa_events acc) \<subseteq> set (wa_events u)" using u by (rule coordinate_lookup_Inr) auto
  with Cons.IH [OF rest] show ?case by blast
qed simp

lemma coordinate_events:
  assumes "coordinate co rr lookups t = Inr w"
  shows "i \<in> set (rr_unknown_ids rr) \<Longrightarrow> \<exists>e\<in>set (wr_events w). re_order_id e = i \<and> re_state e = UNKNOWN_EXECUTION"
    and "i \<in> set (rr_missing rr) \<Longrightarrow> \<exists>e\<in>set (wr_events w). re_order_id e = i \<and> re_state e = STATUS_QUERY_PENDING"
proof -
  obtain a1 a2 a3 a where f2: "r_foldl (unknown_order co t) a1 (rr_unknown_ids rr) = Inr a2"
    and f3: "r_foldl (missing_order co t) a2 (rr_missing rr) = Inr a3"
    and f4: "r_foldl (coordinate_lookup co t) a3 (group_lookups lookups) = Inr a"
    and w: "wr_events w = wa_events a"
    using assms by (auto simp: coordinate_def r_bind_Inr)
  obtain us where us: "wa_events a2 = wa_events a1 @ us" "map re_order_id us = rr_unknown_ids rr"
    "\<forall>e\<in>set us. re_state e = UNKNOWN_EXECUTION"
    using marked_orders_events [OF f2 [unfolded unknown_order_def]] by blast
  obtain ns where ns: "wa_events a3 = wa_events a2 @ ns" "map re_order_id ns = rr_missing rr"
    "\<forall>e\<in>set ns. re_state e = STATUS_QUERY_PENDING"
    using marked_orders_events [OF f3 [unfolded missing_order_def]] by blast
  have sub: "set us \<subseteq> set (wr_events w)" "set ns \<subseteq> set (wr_events w)"
    using lookups_keep_events [OF f4] us(1) ns(1) w by auto
  show "\<exists>e\<in>set (wr_events w). re_order_id e = i \<and> re_state e = UNKNOWN_EXECUTION" if "i \<in> set (rr_unknown_ids rr)"
  proof -
    have "i \<in> re_order_id ` set us" using that by (simp flip: us(2))
    then obtain e where "e \<in> set us" "re_order_id e = i" by blast
    with us(3) sub(1) show ?thesis by blast
  qed
  show "\<exists>e\<in>set (wr_events w). re_order_id e = i \<and> re_state e = STATUS_QUERY_PENDING" if "i \<in> set (rr_missing rr)"
  proof -
    have "i \<in> re_order_id ` set ns" using that by (simp flip: ns(2))
    then obtain e where "e \<in> set ns" "re_order_id e = i" by blast
    with ns(3) sub(2) show ?thesis by blast
  qed
qed

text \<open>With the JSON store the reported snapshot is the stored one.\<close>

lemma persist_with_json:
  assumes "persist_with (Some json_store_ops) w t c g s1 = (snap, s')"
  shows "snap = Some (load_snapshot s')"
  using assms
  by (auto simp: persist_with_def json_store_ops_def persist_workflow_state_def Let_def load_snapshot_def)

lemma reported_snapshot_is_stored:
  assumes "run_recovery sv ops (Some json_store_ops) expected batch trs (t, s) = Inr (r, (t', s'))"
  shows "tx_snapshot r = Some (load_snapshot s')"
  using assms
  by (rule run_recovery_Inr) (rule persist_with_json)

lemma recovery_events:
  assumes "run_recovery sv ops store expected batch trs (t, s) = Inr (r, (t', s'))"
    and "{UNKNOWN_EXECUTION, STATUS_QUERY_PENDING} \<inter> re_state ` set (wr_events (tx_workflow r)) = {}"
  shows "rr_unknown_ids (tx_reconciliation r) = []" and "rr_missing (tx_reconciliation r) = []"
proof -
  have ev: "\<exists>w0 lookups plan. coordinate (sv_coordinator sv) (tx_reconciliation r) lookups
      (sv_coordination_time sv) = Inr w0 \<and> tx_workflow r = finish_workflow plan w0"
    using assms(1)
  proof (rule run_recovery_Inr)
    fix lookups and w0 :: workflow_result and rr plan
    assume "coordinate (sv_coordinator sv) rr lookups (sv_coordination_time sv) = Inr w0"
      and "tx_workflow r = finish_workflow plan w0" and rr: "tx_reconciliation r = rr"
    then show ?thesis unfolding rr by blast
  qed
  then obtain w0 lookups plan where co: "coordinate (sv_coordinator sv) (tx_reconciliation r) lookups
      (sv_coordination_time sv) = Inr w0" and w: "tx_workflow r = finish_workflow plan w0"
    by (elim exE conjE) (rule that)
  have w0: "wr_events (tx_workflow r) = wr_events w0" unfolding w by (rule finish_workflow_fields)
  note e = coordinate_events [OF co]
  show "rr_unknown_ids (tx_reconciliation r) = []"
  proof (rule ccontr)
    assume "rr_unknown_ids (tx_reconciliation r) \<noteq> []"
    then have "hd (rr_unknown_ids (tx_reconciliation r)) \<in> set (rr_unknown_ids (tx_reconciliation r))" by simp
    from e(1) [OF this] assms(2) show False unfolding w0 by blast
  qed
  show "rr_missing (tx_reconciliation r) = []"
  proof (rule ccontr)
    assume "rr_missing (tx_reconciliation r) \<noteq> []"
    then have "hd (rr_missing (tx_reconciliation r)) \<in> set (rr_missing (tx_reconciliation r))" by simp
    from e(2) [OF this] assms(2) show False unfolding w0 by blast
  qed
qed

section \<open>Properties\<close>

text \<open>
  The overall state is the worst component's: it is the state of one of the components and no
  component is more severe, with unknown below healthy, degraded and fatal.
\<close>

theorem overall_is_worst:
  "let s = build_snapshot venue stream workflow clock queries cursor now;
       comps = [hs_private_stream s, hs_reconciliation s, hs_clock_sync s, hs_status_query s]
   in hs_overall s \<in> ch_state ` set comps \<and>
      (\<forall>c. c \<in> set comps \<longrightarrow> severity (ch_state c) \<le> severity (hs_overall s))"
proof -
  let ?cs = "[private_stream_component stream, reconciliation_component workflow cursor,
     clock_component clock, status_query_component queries]"
  have "overall_state (map ch_state ?cs) \<in> set (map ch_state ?cs)" by (rule overall_state_in) simp
  moreover have "\<forall>c. c \<in> set ?cs \<longrightarrow> severity (ch_state c) \<le> severity (overall_state (map ch_state ?cs))"
    using overall_state_in(2) [of "map ch_state ?cs"] by (metis image_eqI list.distinct(1) list.map_disc_iff list.set_map)
  ultimately show ?thesis by (simp add: Let_def)
qed

lemma overall_is_worst_witness:
  "severity (ch_state (hs_private_stream (build_snapshot ''binance'' None None None [] None (utc 0))))
     \<le> severity (hs_overall (build_snapshot ''binance'' None None None [] None (utc 0)))"
  using overall_is_worst [of "''binance''" None None None "[]" None "utc 0"] by (simp add: Let_def)

text \<open>
  C39. A healthy report can be trusted: when the operator's snapshot of a reconciliation over the JSON store
  is healthy overall, the stream itself reported exactly the expected orders, no order of the workflow
  waits for anything, and the stored state has neither unresolved orders nor an open gap.
\<close>

theorem healthy_means_settled:
  assumes "reconcile_with_transports sv ops (Some json_store_ops) expected payloads (t, s) = Inr (tx, (t', s'))"
    and "hs_overall (build_snapshot venue stream (Some (tx_workflow tx)) clock queries (tx_snapshot tx) now) = HEALTH_OK"
  shows "rr_missing (tx_reconciliation tx) = [] \<and> rr_unknown_ids (tx_reconciliation tx) = [] \<and>
    list_all (\<lambda>o'. \<not> is_pending o') (wr_order_states (tx_workflow tx)) \<and>
    cu_unresolved (load_snapshot s') = [] \<and> cu_manual_attention (load_snapshot s') = [] \<and>
    \<not> cu_gap_active (load_snapshot s')"
proof -
  obtain batch trs where run: "run_recovery sv ops (Some json_store_ops)
      (resumed_expected (Some json_store_ops) s expected) batch trs (t, s) = Inr (tx, (t', s'))"
    using reconcile_with_transports_Inr [OF assms(1)] by blast
  note snap = reported_snapshot_is_stored [OF run]
  let ?rc = "reconciliation_component (Some (tx_workflow tx)) (Some (load_snapshot s'))"
  have "severity (ch_state ?rc) \<le> severity HEALTH_OK"
    using assms(2) overall_state_in(2) [of "[ch_state (private_stream_component stream), ch_state ?rc,
      ch_state (clock_component clock), ch_state (status_query_component queries)]" "ch_state ?rc"]
    by (simp add: snap)
  then have ok: "ch_state ?rc = HEALTH_OK"
    using reconciliation_never_unknown [of "tx_workflow tx"] by (cases "ch_state ?rc") auto
  then have ev: "{UNKNOWN_EXECUTION, STATUS_QUERY_PENDING} \<inter> re_state ` set (wr_events (tx_workflow tx)) = {}"
    and c: "cu_unresolved (load_snapshot s') = []" "cu_manual_attention (load_snapshot s') = []"
      "\<not> cu_gap_active (load_snapshot s')"
    unfolding reconciliation_ok_iff by blast+
  note rr = recovery_events [OF run ev]
  have "states_are ACKNOWLEDGED SUBMIT_SENT (wr_order_states (tx_workflow tx))"
    using nothing_to_recover(5) [OF run _ rr(2,1)] by simp
  then have "list_all (\<lambda>o'. \<not> is_pending o') (wr_order_states (tx_workflow tx))"
    by (auto simp: states_are_def list_all_iff is_pending_def)
  with rr c show ?thesis by blast
qed

text \<open>
  After one gap the reconciliation is never reported healthy again: once the store holds an active gap,
  the snapshot of every later reconciliation is degraded or fatal, even when every order is settled.
\<close>

theorem gap_never_healthy:
  assumes "reconcile_with_transports sv ops (Some json_store_ops) expected payloads (t, s) = Inr (tx, (t', s'))"
    and "cu_gap_active (load_snapshot s)"
  shows "hs_overall (build_snapshot venue stream (Some (tx_workflow tx)) clock queries (tx_snapshot tx) now)
    \<in> {HEALTH_DEGRADED, HEALTH_FATAL}"
proof -
  obtain batch trs where run: "run_recovery sv ops (Some json_store_ops)
      (resumed_expected (Some json_store_ops) s expected) batch trs (t, s) = Inr (tx, (t', s'))"
    using reconcile_with_transports_Inr [OF assms(1)] by blast
  note snap = reported_snapshot_is_stored [OF run]
  let ?rc = "reconciliation_component (Some (tx_workflow tx)) (Some (load_snapshot s'))"
  have "ch_state ?rc \<notin> {HEALTH_OK, HEALTH_UNKNOWN}"
    using gap_persists [OF assms] reconciliation_ok_iff [of "tx_workflow tx" "load_snapshot s'"]
      reconciliation_never_unknown [of "tx_workflow tx" "Some (load_snapshot s')"] by simp
  then have "2 \<le> severity (ch_state ?rc)" by (cases "ch_state ?rc") auto
  moreover let ?o = "hs_overall (build_snapshot venue stream (Some (tx_workflow tx)) clock queries (tx_snapshot tx) now)"
  have "severity (ch_state ?rc) \<le> severity ?o"
    unfolding snap build_snapshot_fields by (rule overall_state_in(2)) simp_all
  ultimately show ?thesis by (cases ?o) auto
qed

lemma healthy_means_settled_witness:
  "\<exists>tx t' s'. reconcile_with_transports sample_service (rest_ops down_env) (Some json_store_ops) [] []
      (sample_transport, None) = Inr (tx, (t', s')) \<and> cu_unresolved (load_snapshot s') = []"
proof -
  have "\<exists>r t' s'. reconcile_with_transports sample_service (rest_ops down_env) (Some json_store_ops) [] []
     (sample_transport, None) = Inr (r, (t', s'))"
    by (rule sample_reconcile) simp_all
  then obtain tx t' s' where tx: "reconcile_with_transports sample_service (rest_ops down_env)
      (Some json_store_ops) [] [] (sample_transport, None) = Inr (tx, (t', s'))" by blast
  obtain batch trs where run: "run_recovery sample_service (rest_ops down_env) (Some json_store_ops)
      [] batch trs (sample_transport, None) = Inr (tx, (t', s'))"
    and batch: "batch = ingest_events [] None False STREAMING"
    using reconcile_with_transports_Inr [OF tx] sample_empty_ingest by fastforce
  have ev: "events_for_reconciliation batch = []" by (simp add: batch sample_empty_events)
  have "wr_events (tx_workflow tx) = [] \<and> cu_unresolved (the (tx_snapshot tx)) = [] \<and>
      cu_manual_attention (the (tx_snapshot tx)) = [] \<and> \<not> cu_gap_active (the (tx_snapshot tx))"
    using run
  proof (rule run_recovery_Inr)
    fix st lookups s1 and w0 :: workflow_result and events rr plan
    assume events: "events = events_for_reconciliation batch" and rr: "rr = reconcile [] events"
      and co: "coordinate (sv_coordinator sample_service) rr lookups (sv_coordination_time sample_service) = Inr w0"
      and st: "lookup_rounds (rest_ops down_env) (unknown_execution_fallbacks [] events) (rp_automatic plan)
        (lookup_requests rr) (if rp_automatic plan then sv_max_rounds sample_service else 1)
        (rounds_start sample_transport) = Inr st"
      and reg: "register_with (Some json_store_ops) (rd_lookups st) (sv_effective_time sample_service)
        (sv_cursor sample_service) None = (lookups, s1)"
      and w: "tx_workflow tx = finish_workflow plan w0"
      and snap: "persist_with (Some json_store_ops) (tx_workflow tx) (sv_effective_time sample_service)
        (sv_cursor sample_service) (gap_detected (Some json_store_ops) None (sv_has_gap sample_service) batch) s1
        = (tx_snapshot tx, s')"
    have none: "rr_missing rr = []" "rr_unknown_ids rr = []" "lookup_requests rr = []"
      by (simp_all add: rr events ev reconcile_def lookup_requests_def)
    have "rd_lookups st = []"
      using st none(3) by (cases "rp_automatic plan") (auto simp: rounds_start_def sample_service_def
          eval_nat_numeral)
    then have lk: "lookups = []" "cu_unresolved (load_snapshot s1) = []"
        "cu_manual_attention (load_snapshot s1) = []"
      using reg by (auto simp: register_with_def json_store_ops_def register_lookup_results_def
          load_snapshot_def empty_snapshot_def Let_def split: prod.splits)
    have "wr_order_states w0 = [] \<and> wr_events w0 = []"
      using co by (rule coordinate_Inr)
        (auto simp: none lk(1) group_lookups_def, auto simp: rr events ev reconcile_def)
    moreover have "\<not> gap_detected (Some json_store_ops) None (sv_has_gap sample_service) batch"
      by (simp add: gap_detected_def resume_snapshot_def json_store_ops_def load_snapshot_def
          empty_snapshot_def sample_service_def batch ingest_events_def)
    ultimately show ?thesis
      using lk(2,3) arg_cong [OF snap [symmetric], of fst]
      by (simp add: w persist_with_def json_store_ops_def persist_workflow_state_def Let_def
          next_snapshot_def sorted_ids_def)
  qed
  then have "hs_overall (build_snapshot ''binance'' None (Some (tx_workflow tx)) None [] (tx_snapshot tx) (utc 0)) = HEALTH_OK"
    using reported_snapshot_is_stored [OF run] reconciliation_ok_iff [of "tx_workflow tx" "load_snapshot s'"]
    by (simp add: overall_state_def status_query_component_def)
  from healthy_means_settled [OF tx this] tx show ?thesis by blast
qed

lemma gap_never_healthy_witness:
  "\<exists>tx t' s'. reconcile_with_transports sample_service (rest_ops down_env) (Some json_store_ops) [] []
      (sample_transport, Some (empty_snapshot\<lparr>cu_gap_active := True\<rparr>)) = Inr (tx, (t', s')) \<and>
    hs_overall (build_snapshot ''binance'' None (Some (tx_workflow tx)) None [] (tx_snapshot tx) (utc 0))
      \<in> {HEALTH_DEGRADED, HEALTH_FATAL}"
proof -
  let ?s = "Some (empty_snapshot\<lparr>cu_gap_active := True\<rparr>)"
  have "\<exists>r t' s'. reconcile_with_transports sample_service (rest_ops down_env) (Some json_store_ops) [] []
     (sample_transport, ?s) = Inr (r, (t', s'))"
    by (rule sample_reconcile) (simp_all add: sample_resumed resume_expected_order_ids_def load_snapshot_def
        empty_snapshot_def)
  then obtain r t' s' where r: "reconcile_with_transports sample_service (rest_ops down_env)
      (Some json_store_ops) [] [] (sample_transport, ?s) = Inr (r, (t', s'))" by blast
  have "cu_gap_active (load_snapshot ?s)" by (simp add: load_snapshot_def)
  from gap_never_healthy [OF r this] r show ?thesis by blast
qed

end
