(* ===== verification/Features.thy ===== *)
theory Features
  imports ContractsMarket
begin

text \<open>
  The feature layer: the read-only snapshot repositories (\<open>app/features/index_suite/repository.py\<close>,
  \<open>app/features/stablecoin/repository.py\<close>) and their providers, the three feature services, the
  composer (\<open>app/features/base.py\<close>) and the runtime's feature builder
  (\<open>app/runtime/feature_builder.py\<close>).
\<close>

section \<open>The latest snapshot\<close>

text \<open>\<open>max(xs, key=as_of)\<close>: the first of the latest ones.\<close>

fun latest_by :: "('a \<Rightarrow> datetime) \<Rightarrow> 'a \<Rightarrow> 'a list \<Rightarrow> 'a" where
  "latest_by key best [] = best"
| "latest_by key best (x # xs) = latest_by key (if dt_less (key best) (key x) then x else best) xs"

lemma latest_by_spec:
  "latest_by key best xs \<in> insert best (set xs)"
  "y \<in> insert best (set xs) \<Longrightarrow> dt_le (key y) (key (latest_by key best xs))"
proof -
  show "latest_by key best xs \<in> insert best (set xs)"
    by (induction xs arbitrary: best) auto
  have "\<forall>y\<in>insert best (set xs). dt_le (key y) (key (latest_by key best xs))"
  proof (induction xs arbitrary: best)
    case Nil
    then show ?case by (simp add: dt_le_def)
  next
    case (Cons x xs)
    show ?case
      using Cons [of "if dt_less (key best) (key x) then x else best"]
      by (auto simp: dt_less_def dt_le_def not_less split: if_splits)
  qed
  then show "y \<in> insert best (set xs) \<Longrightarrow> dt_le (key y) (key (latest_by key best xs))" by blast
qed

section \<open>Index snapshots\<close>

datatype index_status = IX_OK | IX_MISSING | IX_STALE | IX_VERSION_MISMATCH

fun index_status_value :: "index_status \<Rightarrow> string" where
  "index_status_value IX_OK = ''ok''"
| "index_status_value IX_MISSING = ''missing''"
| "index_status_value IX_STALE = ''stale''"
| "index_status_value IX_VERSION_MISMATCH = ''version_mismatch''"

record index_lookup =
  il_status :: index_status
  il_instrument_id :: string
  il_index_version :: string
  il_as_of :: datetime
  il_snapshot :: "index_snapshot option"
  il_detail :: "string option"

definition index_resolve_latest ::
    "index_snapshot list \<Rightarrow> string \<Rightarrow> datetime \<Rightarrow> string \<Rightarrow> timedelta \<Rightarrow> index_lookup" where
  "index_resolve_latest snapshots iid as_of version max_age =
     (let result = (\<lambda>status snapshot detail.
            \<lparr>il_status = status, il_instrument_id = iid, il_index_version = version, il_as_of = as_of,
             il_snapshot = snapshot, il_detail = detail\<rparr>);
          candidates = filter (\<lambda>s. ix_instrument_id s = iid \<and> dt_le (ix_as_of s) as_of) snapshots;
          matching = filter (\<lambda>s. ix_index_version s = version) candidates
      in case candidates of
           [] \<Rightarrow> result IX_MISSING None (Some ''no snapshot found for instrument and date'')
         | c # cs \<Rightarrow>
             (case matching of
                [] \<Rightarrow> result IX_VERSION_MISMATCH (Some (latest_by ix_as_of c cs))
                  (Some ''latest snapshot version does not match requested index version'')
              | m # ms \<Rightarrow>
                  (let latest = latest_by ix_as_of m ms
                   in if max_age < dt_diff as_of (ix_as_of latest)
                      then result IX_STALE (Some latest) (Some ''snapshot is older than allowed age'')
                      else result IX_OK (Some latest) None)))"

record index_provider =
  ip_snapshots :: "index_snapshot list"
  ip_version :: string
  ip_max_age :: timedelta

definition index_resolve :: "index_provider \<Rightarrow> string \<Rightarrow> datetime \<Rightarrow> index_lookup" where
  "index_resolve p iid as_of = index_resolve_latest (ip_snapshots p) iid as_of (ip_version p) (ip_max_age p)"

definition index_get :: "index_provider \<Rightarrow> string \<Rightarrow> datetime \<Rightarrow> index_snapshot option" where
  "index_get p iid as_of =
     (let r = index_resolve p iid as_of in if il_status r \<noteq> IX_OK then None else il_snapshot r)"

section \<open>Stablecoin snapshots\<close>

datatype stable_status = SC_OK | SC_MISSING | SC_STALE

fun stable_status_value :: "stable_status \<Rightarrow> string" where
  "stable_status_value SC_OK = ''ok''"
| "stable_status_value SC_MISSING = ''missing''"
| "stable_status_value SC_STALE = ''stale''"

record stable_lookup =
  sl_status :: stable_status
  sl_as_of :: datetime
  sl_snapshot :: "stablecoin_snapshot option"
  sl_detail :: "string option"

definition stable_resolve_latest :: "stablecoin_snapshot list \<Rightarrow> datetime \<Rightarrow> stable_lookup" where
  "stable_resolve_latest snapshots as_of =
     (case filter (\<lambda>s. dt_le (sc_as_of s) as_of) snapshots of
        [] \<Rightarrow> \<lparr>sl_status = SC_MISSING, sl_as_of = as_of, sl_snapshot = None,
               sl_detail = Some ''no stablecoin snapshot found for requested time''\<rparr>
      | c # cs \<Rightarrow>
          (let latest = latest_by sc_as_of c cs
           in if dt_less (sc_source_fresh_until latest) as_of
              then \<lparr>sl_status = SC_STALE, sl_as_of = as_of, sl_snapshot = Some latest,
                    sl_detail = Some ''stablecoin snapshot freshness expired''\<rparr>
              else \<lparr>sl_status = SC_OK, sl_as_of = as_of, sl_snapshot = Some latest, sl_detail = None\<rparr>))"

definition stable_get :: "stablecoin_snapshot list \<Rightarrow> datetime \<Rightarrow> stablecoin_snapshot option" where
  "stable_get snapshots as_of =
     (let r = stable_resolve_latest snapshots as_of
      in if sl_status r \<noteq> SC_OK then None else sl_snapshot r)"

section \<open>Feature services\<close>

record feature_bundle =
  fb_values :: "(string, decimal) dict"
  fb_is_complete :: bool
  fb_bar_count :: int
  fb_missing :: "string list"

definition flag :: "bool \<Rightarrow> decimal" where
  "flag b = (if b then Dec 1 else 0)"

definition candle_features :: "bar_slice \<Rightarrow> feature_bundle result" where
  "candle_features b =
     (let cs = bs_candles b;
          latest = last cs;
          previous = (if 1 < length cs then last (butlast cs) else latest)
      in r_bind (if cd_close previous \<noteq> 0 then dec_div (cd_close latest - cd_close previous) (cd_close previous)
                 else Inr 0) (\<lambda>close_return.
         r_bind (if cd_open latest \<noteq> 0 then dec_div (cd_high latest - cd_low latest) (cd_open latest)
                 else Inr 0) (\<lambda>range_ratio.
           Inr \<lparr>fb_values = [(''candle.close'', cd_close latest), (''candle.volume'', cd_volume latest),
                  (''candle.close_return_1'', close_return), (''candle.range_ratio'', range_ratio),
                  (''candle.is_closed'', flag (cd_is_closed latest))],
                fb_is_complete = cd_is_closed latest, fb_bar_count = int (length cs), fb_missing = []\<rparr>)))"

definition index_features :: "bar_slice \<Rightarrow> index_snapshot option \<Rightarrow> feature_bundle" where
  "index_features b snapshot =
     (case snapshot of
        None \<Rightarrow> \<lparr>fb_values = [], fb_is_complete = False, fb_bar_count = int (length (bs_candles b)),
                 fb_missing = [''index_snapshot'']\<rparr>
      | Some s \<Rightarrow>
          \<lparr>fb_values = [(''index_suite.value'', ix_value s),
             (''index_suite.constituent_count'', Dec (of_nat (length (ix_constituents s)))),
             (''index_suite.version_present'', Dec 1)],
           fb_is_complete = True, fb_bar_count = int (length (bs_candles b)), fb_missing = []\<rparr>)"

definition opt_feature :: "string \<Rightarrow> decimal option \<Rightarrow> (string, decimal) dict" where
  "opt_feature name v = (case v of None \<Rightarrow> [] | Some d \<Rightarrow> [(name, d)])"

definition stablecoin_features :: "bar_slice \<Rightarrow> stablecoin_snapshot option \<Rightarrow> feature_bundle" where
  "stablecoin_features b snapshot =
     (case snapshot of
        None \<Rightarrow> \<lparr>fb_values = [], fb_is_complete = False, fb_bar_count = int (length (bs_candles b)),
                 fb_missing = [''stablecoin_snapshot'']\<rparr>
      | Some s \<Rightarrow>
          \<lparr>fb_values = [(''stablecoin.net_mint_24h'', sc_net_mint_24h s),
             (''stablecoin.net_burn_24h'', sc_net_burn_24h s),
             (''stablecoin.supply_change_pct_24h'', sc_supply_change_pct_24h s),
             (''stablecoin.chain_supply_delta_24h'', sc_chain_supply_delta_24h s),
             (''stablecoin.abnormal_transfer_count'', Dec (of_int (sc_abnormal_transfer_count s))),
             (''stablecoin.snapshot_present'', Dec 1), (''stablecoin.is_depegged'', flag (sc_is_depegged s))]
             @ opt_feature ''stablecoin.price'' (sc_price s)
             @ opt_feature ''stablecoin.premium_bps'' (sc_premium_bps s)
             @ opt_feature ''stablecoin.volume_24h'' (sc_volume_24h s)
             @ opt_feature ''stablecoin.liquidity_score'' (sc_liquidity_score s)
             @ [(''stablecoin.source_fresh'', flag (dt_le (bs_end_time b) (sc_source_fresh_until s)))],
           fb_is_complete = True, fb_bar_count = int (length (bs_candles b)), fb_missing = []\<rparr>)"

definition dict_merge :: "('k, 'v) dict \<Rightarrow> ('k, 'v) dict \<Rightarrow> ('k, 'v) dict" where
  "dict_merge d e = foldl (\<lambda>d (k, v). dict_set k v d) d e"

definition compose ::
    "bool \<Rightarrow> string \<Rightarrow> string \<Rightarrow> datetime \<Rightarrow> feature_bundle list \<Rightarrow> feature_snapshot result" where
  "compose tolerate_partial iid timeframe as_of bundles =
     (let (values, bars, complete) = foldl (\<lambda>(vs, n, c) b.
            (dict_merge vs (fb_values b), max n (fb_bar_count b), c \<and> fb_is_complete b)) ([], 0, True) bundles
      in if bundles = [] then Inl (ValueError ''bundles must contain at least one feature bundle'')
         else mk_feature_snapshot
           \<lparr>ft_instrument_id = iid, ft_timeframe = timeframe, ft_as_of = as_of,
            ft_feature_values = values, ft_source_bar_count = (if bars \<le> 0 then 1 else bars),
            ft_is_complete = (complete \<or> tolerate_partial)\<rparr>)"

section \<open>The runtime's feature builder\<close>

text \<open>
  A provider either classifies its snapshot (it has \<open>resolve_snapshot\<close>) or only returns it. The
  stablecoin provider is always asked through \<open>get_snapshot\<close> here.
\<close>

datatype index_source =
    IndexResolver "string \<Rightarrow> datetime \<Rightarrow> index_lookup"
  | IndexGetter "string \<Rightarrow> datetime \<Rightarrow> index_snapshot option"

datatype stable_source =
    StableResolver "datetime \<Rightarrow> stable_lookup" "datetime \<Rightarrow> stablecoin_snapshot option"
  | StableGetter "datetime \<Rightarrow> stablecoin_snapshot option"

definition index_of :: "index_source option \<Rightarrow> string \<Rightarrow> datetime
    \<Rightarrow> index_snapshot option \<times> index_lookup option" where
  "index_of src iid as_of =
     (case src of
        None \<Rightarrow> (None, None)
      | Some (IndexResolver f) \<Rightarrow>
          (let r = f iid as_of in (if il_status r = IX_OK then il_snapshot r else None, Some r))
      | Some (IndexGetter f) \<Rightarrow> (f iid as_of, None))"

definition stable_snapshot_of :: "stable_source option \<Rightarrow> datetime \<Rightarrow> stablecoin_snapshot option" where
  "stable_snapshot_of src as_of =
     (case src of None \<Rightarrow> None | Some (StableResolver f g) \<Rightarrow> g as_of | Some (StableGetter g) \<Rightarrow> g as_of)"

record feature_builder =
  bld_tolerate_partial :: bool
  bld_index :: "index_source option"
  bld_stable :: "stable_source option"

text \<open>The age is truncated to whole seconds; resolved snapshots are not younger than the slice's end.\<close>

definition index_enrichment :: "index_lookup option \<Rightarrow> datetime \<Rightarrow> (string, decimal) dict" where
  "index_enrichment lookup as_of =
     (case lookup of
        None \<Rightarrow> []
      | Some r \<Rightarrow>
          [(''index_suite.snapshot_present'', flag (il_status r = IX_OK)),
           (''index_suite.snapshot_stale'', flag (il_status r = IX_STALE)),
           (''index_suite.snapshot_version_match'', flag (il_status r \<noteq> IX_VERSION_MISMATCH))]
          @ (case il_snapshot r of
               None \<Rightarrow> []
             | Some s \<Rightarrow> (let us = dt_diff as_of (ix_as_of s) in
                 [(''index_suite.snapshot_age_seconds'',
                   Dec (of_int (if us < 0 then - (- us div 1000000) else us div 1000000)))])))"

definition context_features :: "bar_slice \<Rightarrow> (string, decimal) dict" where
  "context_features c =
     (let latest = last (bs_candles c);
          previous = (if 1 < length (bs_candles c) then last (butlast (bs_candles c)) else latest)
      in [(''context.1d.close'', cd_close latest),
          (''context.1d.close_delta_1'', cd_close latest - cd_close previous)])"

definition build_features ::
    "feature_builder \<Rightarrow> bar_slice \<Rightarrow> bar_slice option \<Rightarrow> feature_snapshot result" where
  "build_features fb b ctx =
     (let (index, lookup) = index_of (bld_index fb) (bs_instrument_id b) (bs_end_time b);
          stable = stable_snapshot_of (bld_stable fb) (bs_end_time b)
      in r_bind (candle_features b) (\<lambda>candle.
         r_bind (compose (bld_tolerate_partial fb) (bs_instrument_id b) (bs_timeframe b) (bs_end_time b)
             [candle, index_features b index, stablecoin_features b stable]) (\<lambda>snap.
           let enriched = dict_merge (ft_feature_values snap) (index_enrichment lookup (bs_end_time b))
           in case ctx of
                None \<Rightarrow> mk_feature_snapshot (snap\<lparr>ft_feature_values := enriched\<rparr>)
              | Some c \<Rightarrow> mk_feature_snapshot
                  (snap\<lparr>ft_feature_values := dict_merge enriched (context_features c),
                        ft_source_bar_count := max (ft_source_bar_count snap) (int (length (bs_candles c))),
                        ft_is_complete := ft_is_complete snap \<and> cd_is_closed (last (bs_candles c))\<rparr>))))"

section \<open>Facts\<close>

lemma keys_dict_merge: "fst ` set (dict_merge d e) = fst ` set d \<union> fst ` set e"
proof (induction e arbitrary: d)
  case (Cons p e)
  then show ?case
    by (cases p) (auto simp: dict_merge_def keys_dict_set)
qed (simp add: dict_merge_def)

lemma dict_merge_other:
  "k \<notin> fst ` set e \<Longrightarrow> dict_get (dict_merge d e) k = dict_get d k"
proof (induction e arbitrary: d)
  case (Cons p e)
  then show ?case by (cases p) (auto simp: dict_merge_def dict_get_set)
qed (simp add: dict_merge_def)

lemma candle_features_total:
  obtains r where "candle_features b = Inr r" and "fb_bar_count r = int (length (bs_candles b))"
    and "dict_get (dict_merge [] (fb_values r)) ''candle.close'' = Some (cd_close (last (bs_candles b)))"
    and "fst ` set (fb_values r) = {''candle.close'', ''candle.volume'', ''candle.close_return_1'',
      ''candle.range_ratio'', ''candle.is_closed''}"
proof -
  have guarded: "\<exists>d. (if y \<noteq> 0 then dec_div x y else Inr 0) = Inr d" for x y :: decimal
    by (simp add: dec_div_def)
  let ?l = "last (bs_candles b)"
  let ?p = "if 1 < length (bs_candles b) then last (butlast (bs_candles b)) else ?l"
  obtain r1 where 1: "(if cd_close ?p \<noteq> 0 then dec_div (cd_close ?l - cd_close ?p) (cd_close ?p) else Inr 0)
      = Inr r1" using guarded by blast
  obtain r2 where 2: "(if cd_open ?l \<noteq> 0 then dec_div (cd_high ?l - cd_low ?l) (cd_open ?l) else Inr 0) = Inr r2"
    using guarded by blast
  note r = candle_features_def [of b, unfolded Let_def 1 2 r_bind_simps]
  show thesis by (rule that [OF r]) (auto simp: dict_merge_def)
qed

definition service_keys :: "string list" where
  "service_keys =
     [''index_suite.value'', ''index_suite.constituent_count'', ''index_suite.version_present'',
      ''stablecoin.net_mint_24h'', ''stablecoin.net_burn_24h'', ''stablecoin.supply_change_pct_24h'',
      ''stablecoin.chain_supply_delta_24h'', ''stablecoin.abnormal_transfer_count'',
      ''stablecoin.snapshot_present'', ''stablecoin.is_depegged'', ''stablecoin.price'',
      ''stablecoin.premium_bps'', ''stablecoin.volume_24h'', ''stablecoin.liquidity_score'',
      ''stablecoin.source_fresh'', ''index_suite.snapshot_present'', ''index_suite.snapshot_stale'',
      ''index_suite.snapshot_version_match'', ''index_suite.snapshot_age_seconds'',
      ''context.1d.close'', ''context.1d.close_delta_1'']"

lemma service_keys_apart:
  "\<forall>k\<in>set service_keys. \<not> blank k \<and> take 7 k \<noteq> ''candle.''"
  by (simp add: service_keys_def blank_def py_space_def)

lemma feature_keys:
  "fst ` set (fb_values (index_features b i)) \<subseteq> set service_keys"
  "fst ` set (fb_values (stablecoin_features b s)) \<subseteq> set service_keys"
  "fst ` set (index_enrichment l t) \<subseteq> set service_keys"
  "fst ` set (context_features c) \<subseteq> set service_keys"
  by (auto simp: index_features_def stablecoin_features_def index_enrichment_def context_features_def
      opt_feature_def service_keys_def Let_def split: option.splits)

text \<open>A bundle list whose names are proper composes, and the first bundle's candle values survive.\<close>

lemma compose_total:
  assumes names: "fst ` set (fb_values c) \<subseteq> names" "fst ` set (fb_values i) \<subseteq> set service_keys"
      "fst ` set (fb_values s) \<subseteq> set service_keys"
    and "\<forall>k\<in>names. \<not> blank k" and "fb_values c \<noteq> []" and "\<not> blank iid" and "\<not> blank tf" and "is_utc t"
    and k: "take 7 k = ''candle.''"
  obtains f where "compose tol iid tf t [c, i, s] = Inr f" and "ft_instrument_id f = iid"
    and "ft_timeframe f = tf" and "ft_as_of f = t" and "0 < ft_source_bar_count f"
    and "fst ` set (ft_feature_values f) \<subseteq> names \<union> set service_keys" and "ft_feature_values f \<noteq> []"
    and "dict_get (ft_feature_values f) k = dict_get (dict_merge [] (fb_values c)) k"
proof -
  let ?vs = "dict_merge (dict_merge (dict_merge [] (fb_values c)) (fb_values i)) (fb_values s)"
  let ?n = "max (max (max 0 (fb_bar_count c)) (fb_bar_count i)) (fb_bar_count s)"
  let ?f = "\<lparr>ft_instrument_id = iid, ft_timeframe = tf, ft_as_of = t, ft_feature_values = ?vs,
     ft_source_bar_count = (if ?n \<le> 0 then 1 else ?n),
     ft_is_complete = (fb_is_complete c \<and> fb_is_complete i \<and> fb_is_complete s) \<or> tol\<rparr>"
  have keys: "fst ` set ?vs = fst ` set (fb_values c) \<union> fst ` set (fb_values i) \<union> fst ` set (fb_values s)"
    by (simp add: keys_dict_merge)
  then have sub: "fst ` set ?vs \<subseteq> names \<union> set service_keys" using names by blast
  then have nb: "\<forall>x\<in>set ?vs. \<not> blank (fst x)" using assms(4) service_keys_apart by blast
  have "fst ` set ?vs \<noteq> {}" using keys assms(5) by simp
  then have ne: "?vs \<noteq> []" by auto
  then have "compose tol iid tf t [c, i, s] = Inr ?f"
    using nb assms(6-8) by (simp add: compose_def mk_feature_snapshot_def feature_snapshot_checks_def conj_assoc)
  moreover have "k \<notin> set service_keys" using k service_keys_apart by blast
  then have "dict_get ?vs k = dict_get (dict_merge [] (fb_values c)) k"
    using names(2,3) dict_merge_other by (metis subsetD)
  ultimately show thesis using sub ne by (intro that [of ?f]) (auto simp: less_max_iff_disj)
qed

lemma build_features_total:
  assumes "bar_slice_invariant b" and "\<not> blank (bs_instrument_id b)" and "\<not> blank (bs_timeframe b)"
    and "is_utc (bs_end_time b)"
  shows "\<exists>f. build_features fb b ctx = Inr f \<and> ft_instrument_id f = bs_instrument_id b \<and>
    ft_timeframe f = bs_timeframe b \<and> ft_as_of f = bs_end_time b \<and>
    dict_get (ft_feature_values f) ''candle.close'' = Some (cd_close (last (bs_candles b)))"
proof -
  obtain index lookup where ix: "index_of (bld_index fb) (bs_instrument_id b) (bs_end_time b) = (index, lookup)"
    by (cases "index_of (bld_index fb) (bs_instrument_id b) (bs_end_time b)")
  let ?stable = "stable_snapshot_of (bld_stable fb) (bs_end_time b)"
  obtain c where c: "candle_features b = Inr c"
    "dict_get (dict_merge [] (fb_values c)) ''candle.close'' = Some (cd_close (last (bs_candles b)))"
    "fst ` set (fb_values c) = {''candle.close'', ''candle.volume'', ''candle.close_return_1'',
      ''candle.range_ratio'', ''candle.is_closed''}" by (rule candle_features_total [of b])
  have names: "\<forall>k\<in>fst ` set (fb_values c). \<not> blank k" unfolding c(3) by (simp add: blank_def py_space_def)
  have "fb_values c \<noteq> []" using c(3) by (intro notI) simp
  have k: "take 7 ''candle.close'' = ''candle.''" by (simp add: eval_nat_numeral)
  obtain f where f: "compose (bld_tolerate_partial fb) (bs_instrument_id b) (bs_timeframe b) (bs_end_time b)
      [c, index_features b index, stablecoin_features b ?stable] = Inr f"
    "ft_instrument_id f = bs_instrument_id b" "ft_timeframe f = bs_timeframe b" "ft_as_of f = bs_end_time b"
    "0 < ft_source_bar_count f" "fst ` set (ft_feature_values f) \<subseteq> fst ` set (fb_values c) \<union> set service_keys"
    "ft_feature_values f \<noteq> []" "dict_get (ft_feature_values f) ''candle.close'' = dict_get (dict_merge [] (fb_values c)) ''candle.close''"
    by (rule compose_total [OF order_refl feature_keys(1,2) names \<open>fb_values c \<noteq> []\<close> assms(2-4) k])
  let ?e = "dict_merge (ft_feature_values f) (index_enrichment lookup (bs_end_time b))"
  have ok: "passes (feature_snapshot_checks (f\<lparr>ft_feature_values := dict_merge ?e extra,
      ft_source_bar_count := n, ft_is_complete := q\<rparr>))"
    if extra: "fst ` set extra \<subseteq> set service_keys" and n: "0 < n" for extra n q
  proof -
    have keys: "fst ` set (dict_merge ?e extra) \<subseteq> fst ` set (fb_values c) \<union> set service_keys"
      unfolding keys_dict_merge using f(6) feature_keys(3) extra by blast
    then have "\<forall>x\<in>set (dict_merge ?e extra). \<not> blank (fst x)" using names service_keys_apart by blast
    moreover have "fst ` set (dict_merge ?e extra) \<noteq> {}" unfolding keys_dict_merge using f(7) by simp
    then have "dict_merge ?e extra \<noteq> []" by auto
    ultimately show ?thesis using f(2-4) assms(2-4) n by (simp add: feature_snapshot_checks_def)
  qed
  have close: "dict_get (dict_merge ?e extra) ''candle.close'' = Some (cd_close (last (bs_candles b)))"
    if extra: "fst ` set extra \<subseteq> set service_keys" for extra
  proof -
    have apart: "''candle.close'' \<notin> set service_keys" using service_keys_apart by auto
    then have "''candle.close'' \<notin> fst ` set extra" "''candle.close'' \<notin> fst ` set (index_enrichment lookup (bs_end_time b))"
      using extra feature_keys(3) by blast+
    then show ?thesis using f(8) c(2) by (simp add: dict_merge_other)
  qed
  show ?thesis
  proof (cases ctx)
    case None
    have "dict_merge ?e [] = ?e" by (simp add: dict_merge_def)
    with ok [of "[]" "ft_source_bar_count f" "ft_is_complete f"] close [of "[]"] None show ?thesis
      using f(2-5) by (simp add: build_features_def ix c f(1) mk_feature_snapshot_def)
  next
    case (Some x)
    let ?n = "max (ft_source_bar_count f) (int (length (bs_candles x)))"
    have "0 < ?n" using f(5) by simp
    with ok [of "context_features x" ?n] close [of "context_features x"] feature_keys(4) [of x] Some
    show ?thesis using f(2-4) by (simp add: build_features_def ix c f(1) mk_feature_snapshot_def)
  qed
qed

section \<open>Properties\<close>

text \<open>
  The index provider returns the latest fresh snapshot: a snapshot it returns is one of its own, of the
  asked instrument and the configured version, not from the future, not older than the allowed age, and
  no later one qualifies; when it returns none, no snapshot qualifies.
\<close>

theorem index_provider_latest:
  "case index_get p iid t of
     None \<Rightarrow> \<not> (\<exists>s. s \<in> set (ip_snapshots p) \<and> ix_instrument_id s = iid \<and> ix_index_version s = ip_version p \<and>
       dt_le (ix_as_of s) t \<and> dt_diff t (ix_as_of s) \<le> ip_max_age p)
   | Some s \<Rightarrow> s \<in> set (ip_snapshots p) \<and> ix_instrument_id s = iid \<and> ix_index_version s = ip_version p \<and>
       dt_le (ix_as_of s) t \<and> dt_diff t (ix_as_of s) \<le> ip_max_age p \<and>
       (\<forall>s'. s' \<in> set (ip_snapshots p) \<and> ix_instrument_id s' = iid \<and> ix_index_version s' = ip_version p \<and>
         dt_le (ix_as_of s') t \<longrightarrow> dt_le (ix_as_of s') (ix_as_of s))"
proof -
  define c where "c = filter (\<lambda>s. ix_instrument_id s = iid \<and> dt_le (ix_as_of s) t) (ip_snapshots p)"
  define m where "m = filter (\<lambda>s. ix_index_version s = ip_version p) c"
  have mem: "s \<in> set m \<longleftrightarrow> s \<in> set (ip_snapshots p) \<and> ix_instrument_id s = iid \<and>
      ix_index_version s = ip_version p \<and> dt_le (ix_as_of s) t" for s by (auto simp: m_def c_def)
  note get = index_get_def [of p iid t, unfolded index_resolve_def index_resolve_latest_def Let_def,
      folded c_def, folded m_def]
  show ?thesis
  proof (cases m)
    case Nil
    then have "index_get p iid t = None" unfolding get by (cases c) simp_all
    moreover have "\<not> (\<exists>s. s \<in> set m)" using Nil by simp
    ultimately show ?thesis using mem by auto
  next
    case (Cons x xs)
    let ?l = "latest_by ix_as_of x xs"
    have l: "?l \<in> set m" "\<And>s. s \<in> set m \<Longrightarrow> dt_le (ix_as_of s) (ix_as_of ?l)"
      unfolding Cons list.set using latest_by_spec [where key = ix_as_of] by fast+
    have "c \<noteq> []" using Cons by (auto simp: m_def)
    then have "index_get p iid t = (if ip_max_age p < dt_diff t (ix_as_of ?l) then None else Some ?l)"
      unfolding get Cons by (cases c) simp_all
    then show ?thesis using l mem by (fastforce simp: dt_diff_def dt_le_def)
  qed
qed

definition sample_candle :: "int \<Rightarrow> decimal \<Rightarrow> candle" where
  "sample_candle n price =
     \<lparr>cd_instrument_id = ''BTC-USDT'', cd_timeframe = ''4h'', cd_open_time = utc (seconds (n * 14400)),
      cd_close_time = utc (seconds ((n + 1) * 14400)), cd_open = price, cd_high = price, cd_low = price,
      cd_close = price, cd_volume = 1, cd_quote_volume = None, cd_trade_count = 1, cd_is_closed = True\<rparr>"

definition sample_bars :: bar_slice where
  "sample_bars =
     \<lparr>bs_instrument_id = ''BTC-USDT'', bs_timeframe = ''4h'', bs_end_time = utc (seconds 28800),
      bs_candles = [sample_candle 0 (Dec 100), sample_candle 1 (Dec 110)]\<rparr>"

lemma sample_bars_valid:
  "bar_slice_invariant sample_bars" "\<not> blank (bs_instrument_id sample_bars)"
  "\<not> blank (bs_timeframe sample_bars)" "is_utc (bs_end_time sample_bars)"
  by (simp_all add: sample_bars_def bar_slice_invariant_def sample_candle_def seconds_def blank_def py_space_def)

definition sample_index :: "int \<Rightarrow> index_snapshot" where
  "sample_index t =
     \<lparr>ix_name = ''suite'', ix_instrument_id = ''BTC-USDT'', ix_index_version = ''v1'', ix_as_of = utc t,
      ix_value = Dec 60, ix_constituents = [''BTC-USDT''], ix_methodology = ''m''\<rparr>"

lemma index_provider_latest_witness:
  "index_get \<lparr>ip_snapshots = [sample_index 1, sample_index 5, sample_index 9], ip_version = ''v1'', ip_max_age = 4\<rparr>
     ''BTC-USDT'' (utc 8) = Some (sample_index 5) \<and>
   dt_le (ix_as_of (sample_index 1)) (ix_as_of (sample_index 5))"
proof -
  let ?p = "\<lparr>ip_snapshots = [sample_index 1, sample_index 5, sample_index 9], ip_version = ''v1'', ip_max_age = 4\<rparr>"
  have get: "index_get ?p ''BTC-USDT'' (utc 8) = Some (sample_index 5)"
    by (simp add: index_get_def index_resolve_def index_resolve_latest_def sample_index_def)
  have "sample_index 1 \<in> set (ip_snapshots ?p) \<and> ix_instrument_id (sample_index 1) = ''BTC-USDT'' \<and>
      ix_index_version (sample_index 1) = ip_version ?p \<and> dt_le (ix_as_of (sample_index 1)) (utc 8)"
    by (simp add: sample_index_def)
  with index_provider_latest [of ?p "''BTC-USDT''" "utc 8"] get show ?thesis by (simp only: option.case)
qed

text \<open>
  The builder always delivers: for every bar slice the contract accepts, whatever the providers return
  and whatever context slice is given, features are built, for the slice's instrument, timeframe and
  end, and they carry the close of its last candle.
\<close>

theorem features_carry_close:
  assumes "mk_bar_slice b = Inr b"
  shows "\<exists>f. build_features fb b ctx = Inr f \<and> ft_instrument_id f = bs_instrument_id b \<and>
    ft_timeframe f = bs_timeframe b \<and> ft_as_of f = bs_end_time b \<and>
    dict_get (ft_feature_values f) ''candle.close'' = Some (cd_close (last (bs_candles b)))"
  using assms build_features_total bar_slice_checks_iff [of b] by (simp add: mk_bar_slice_def)

lemma features_carry_close_witness:
  "\<exists>f. build_features \<lparr>bld_tolerate_partial = True, bld_index = None, bld_stable = None\<rparr> sample_bars None = Inr f \<and>
     dict_get (ft_feature_values f) ''candle.close'' = Some (Dec 110)"
proof -
  have "mk_bar_slice sample_bars = Inr sample_bars"
    using sample_bars_valid by (simp add: mk_bar_slice_def bar_slice_checks_iff)
  from features_carry_close [OF this] show ?thesis
    by (auto simp: sample_bars_def sample_candle_def)
qed

end
