(* ===== verification/Strategies.thy ===== *)
theory Strategies
  imports Features PaperTrading "HOL-Library.Multiset"
begin

text \<open>
  The strategies (\<open>app/strategies/breakout/engine.py\<close>, \<open>app/strategies/regime/engine.py\<close>) and the
  router that merges their signals (\<open>app/strategies/router/router.py\<close>). A strategy is a function from
  the decision context to signals.
\<close>

type_synonym strategy = "decision_context \<Rightarrow> signal_decision list result"

record breakout =
  bk_name :: string
  bk_threshold :: decimal
  bk_min_confidence :: decimal
  bk_quantity :: decimal

definition default_breakout :: breakout where
  "default_breakout =
     \<lparr>bk_name = ''breakout'', bk_threshold = Dec (2 / 100), bk_min_confidence = Dec (60 / 100),
      bk_quantity = Dec 1\<rparr>"

definition evaluate_breakout :: "breakout \<Rightarrow> strategy" where
  "evaluate_breakout s ctx =
     (let values = ft_feature_values (dc_features ctx);
          close_return = dict_get_default values ''candle.close_return_1'' 0;
          score = dict_get_default values ''breakout.score'' 0;
          confidence = (if close_return < score then score else close_return)
      in if close_return < bk_threshold s \<and> score < bk_min_confidence s then Inr []
         else r_bind (mk_signal_decision
           \<lparr>sd_strategy_name = bk_name s, sd_instrument_id = in_instrument_id (dc_instrument ctx),
            sd_timeframe = ft_timeframe (dc_features ctx), sd_as_of = dc_as_of ctx, sd_side = Buy,
            sd_confidence = (if Dec 1 < confidence then Dec 1 else confidence),
            sd_rationale = ''placeholder breakout trigger met'', sd_target_notional = None,
            sd_target_quantity = Some (bk_quantity s)\<rparr>) (\<lambda>sig. Inr [sig]))"

definition regime_state :: "(string, decimal) dict \<Rightarrow> string" where
  "regime_state values =
     (if dict_get_default values ''stablecoin.is_depegged'' 0 = Dec 1 then ''risk_off_stablecoin_stress''
      else case dict_get values ''index_suite.value'' of
             Some v \<Rightarrow> if Dec 50 \<le> v then ''risk_on'' else ''risk_off''
           | None \<Rightarrow> ''neutral_unknown'')"

definition evaluate_regime :: "string \<Rightarrow> strategy" where
  "evaluate_regime name ctx =
     r_bind (mk_signal_decision
       \<lparr>sd_strategy_name = name, sd_instrument_id = in_instrument_id (dc_instrument ctx),
        sd_timeframe = ft_timeframe (dc_features ctx), sd_as_of = dc_as_of ctx, sd_side = Flat,
        sd_confidence = Dec 1,
        sd_rationale = ''regime_state='' @ regime_state (ft_feature_values (dc_features ctx)),
        sd_target_notional = None, sd_target_quantity = None\<rparr>) (\<lambda>sig. Inr [sig])"

definition signal_key :: "signal_decision \<Rightarrow> int \<times> string \<times> string" where
  "signal_key s = (dt_us (sd_as_of s), sd_strategy_name s, sd_instrument_id s)"

definition route :: "strategy list \<Rightarrow> bool \<Rightarrow> strategy" where
  "route strategies include_flat ctx =
     r_bind (r_map (\<lambda>s. s ctx) strategies) (\<lambda>css.
       let collected = concat css
       in Inr (sort_key signal_key
            (if include_flat then collected else filter (\<lambda>s. sd_side s \<noteq> Flat) collected)))"

section \<open>Facts\<close>

abbreviation valid_signal :: "signal_decision \<Rightarrow> bool" where
  "valid_signal s \<equiv> passes (signal_decision_checks s)"

lemma mk_signal_decision_Inr [simp]: "mk_signal_decision s = Inr s' \<longleftrightarrow> s' = s \<and> valid_signal s"
  by (simp add: mk_signal_decision_def)

text \<open>What a strategy reads of a context that its constructor accepted.\<close>

definition readable_context :: "decision_context \<Rightarrow> bool" where
  "readable_context c \<longleftrightarrow> \<not> blank (in_instrument_id (dc_instrument c)) \<and>
     \<not> blank (ft_timeframe (dc_features c)) \<and> is_utc (dc_as_of c)"

lemma evaluate_regime_total:
  assumes "readable_context c" and "\<not> blank name"
  shows "\<exists>s. evaluate_regime name c = Inr [s] \<and> valid_signal s \<and> sd_side s = Flat \<and> sd_as_of s = dc_as_of c \<and>
    sd_instrument_id s = in_instrument_id (dc_instrument c)"
proof -
  let ?s = "\<lparr>sd_strategy_name = name, sd_instrument_id = in_instrument_id (dc_instrument c),
    sd_timeframe = ft_timeframe (dc_features c), sd_as_of = dc_as_of c, sd_side = Flat,
    sd_confidence = Dec 1,
    sd_rationale = ''regime_state='' @ regime_state (ft_feature_values (dc_features c)),
    sd_target_notional = None, sd_target_quantity = None\<rparr>"
  have v: "valid_signal ?s"
    using assms by (simp add: readable_context_def signal_decision_checks_def blank_def py_space_def)
  then have "evaluate_regime name c = Inr [?s]"
    unfolding evaluate_regime_def mk_signal_decision_def by (subst validated_passes) auto
  with v show ?thesis by auto
qed

lemma evaluate_breakout_total:
  assumes "readable_context c" and "\<not> blank (bk_name b)" and "0 \<le> bk_threshold b"
    and "0 \<le> bk_min_confidence b" and "0 \<le> bk_quantity b"
  shows "\<exists>sigs. evaluate_breakout b c = Inr sigs \<and> length sigs \<le> 1 \<and>
    (\<forall>x\<in>set sigs. valid_signal x \<and> sd_side x = Buy \<and> sd_target_quantity x = Some (bk_quantity b) \<and>
      sd_target_notional x = None \<and> sd_as_of x = dc_as_of c \<and>
      sd_instrument_id x = in_instrument_id (dc_instrument c))"
proof -
  let ?vs = "ft_feature_values (dc_features c)"
  define r where "r = dict_get_default ?vs ''candle.close_return_1'' 0"
  define sc where "sc = dict_get_default ?vs ''breakout.score'' 0"
  define conf where "conf = (if r < sc then sc else r)"
  let ?s = "\<lparr>sd_strategy_name = bk_name b, sd_instrument_id = in_instrument_id (dc_instrument c),
    sd_timeframe = ft_timeframe (dc_features c), sd_as_of = dc_as_of c, sd_side = Buy,
    sd_confidence = (if Dec 1 < conf then Dec 1 else conf),
    sd_rationale = ''placeholder breakout trigger met'', sd_target_notional = None,
    sd_target_quantity = Some (bk_quantity b)\<rparr>"
  have eq: "evaluate_breakout b c = (if r < bk_threshold b \<and> sc < bk_min_confidence b then Inr []
      else r_bind (mk_signal_decision ?s) (\<lambda>sig. Inr [sig]))"
    by (simp only: evaluate_breakout_def Let_def r_def sc_def conf_def)
  show ?thesis
  proof (cases "r < bk_threshold b \<and> sc < bk_min_confidence b")
    case True
    then show ?thesis by (simp add: eq)
  next
    case False
    then have "0 \<le> conf" using assms(3,4) by (auto simp: conf_def)
    then have v: "valid_signal ?s"
      using assms(1,2,5)
      by (auto simp: readable_context_def signal_decision_checks_def blank_def py_space_def)
    then have "evaluate_breakout b c = Inr [?s]"
      unfolding eq mk_signal_decision_def if_not_P [OF False] by (subst validated_passes) auto
    with v show ?thesis by auto
  qed
qed

lemma route_set:
  assumes "route ss flat c = Inr sigs"
  shows "\<exists>css. r_map (\<lambda>s. s c) ss = Inr css \<and> set sigs \<subseteq> set (concat css)"
  using assms by (auto simp: route_def Let_def r_bind_Inr)

section \<open>Properties\<close>

text \<open>
  The router only orders: the signals it returns are exactly those of its strategies, without the flat
  ones when they are excluded, sorted by time, strategy name and instrument, and signals with the same
  key keep the order of the strategies.
\<close>

theorem router_only_orders:
  assumes "route ss flat c = Inr sigs"
  shows "\<exists>css. list_all2 (\<lambda>s cs. s c = Inr cs) ss css \<and>
    mset sigs = mset (filter (\<lambda>s. flat \<or> sd_side s \<noteq> Flat) (concat css)) \<and> sorted (map signal_key sigs) \<and>
    (\<forall>k. filter (\<lambda>s. signal_key s = k) sigs
      = filter (\<lambda>s. signal_key s = k \<and> (flat \<or> sd_side s \<noteq> Flat)) (concat css))"
proof -
  obtain css where css: "r_map (\<lambda>s. s c) ss = Inr css"
    and sigs: "sigs = sort_key signal_key (filter (\<lambda>s. flat \<or> sd_side s \<noteq> Flat) (concat css))"
    using assms by (cases flat) (auto simp: route_def Let_def r_bind_Inr)
  have "\<forall>k. filter (\<lambda>s. signal_key s = k) sigs
      = filter (\<lambda>s. signal_key s = k \<and> (flat \<or> sd_side s \<noteq> Flat)) (concat css)"
    unfolding sigs by (simp add: sort_key_stable conj_commute)
  with css sigs show ?thesis by (auto simp: r_map_Inr_list_all2 intro!: exI [of _ css])
qed

definition sample_decision :: decision_context where
  "sample_decision =
     \<lparr>dc_cycle_id = ''c1'', dc_as_of = bs_end_time sample_bars,
      dc_instrument = \<lparr>in_instrument_id = ''BTC-USDT'', in_base_asset = ''BTC'', in_quote_asset = ''USDT'',
        in_price_precision = 2, in_quantity_precision = 6, in_price_increment = None,
        in_quantity_increment = None, in_min_quantity = None, in_min_notional = None, in_is_active = True\<rparr>,
      dc_latest_candle = sample_candle 1 (Dec 110), dc_bar_slice = sample_bars,
      dc_features = \<lparr>ft_instrument_id = ''BTC-USDT'', ft_timeframe = ''4h'', ft_as_of = bs_end_time sample_bars,
        ft_feature_values = [(''candle.close_return_1'', Dec (1 / 10))], ft_source_bar_count = 2, ft_is_complete = True\<rparr>,
      dc_portfolio_state = sample_portfolio,
      dc_index_snapshot = None, dc_stablecoin_snapshot = None, dc_index_snapshot_status = None,
      dc_index_snapshot_detail = None, dc_index_snapshot_requested_version = None,
      dc_stablecoin_snapshot_status = None, dc_stablecoin_snapshot_detail = None,
      dc_quality_states = [], dc_quality_details = []\<rparr>"

lemma router_only_orders_witness:
  "\<exists>sigs. route [evaluate_regime ''regime'', evaluate_breakout default_breakout] True sample_decision = Inr sigs \<and>
     sorted (map signal_key sigs) \<and> (\<exists>a b. mset sigs = {#a, b#})"
proof -
  let ?ss = "[evaluate_regime ''regime'', evaluate_breakout default_breakout]"
  have "\<exists>b. evaluate_breakout default_breakout sample_decision = Inr [b]"
    by (simp add: evaluate_breakout_def Let_def sample_decision_def default_breakout_def dict_get_default_def
        mk_signal_decision_def signal_decision_checks_def blank_def py_space_def less_decimal_def
        less_eq_decimal_def sample_bars_def seconds_def validated_passes opt_all_def)
  moreover have "readable_context sample_decision"
    by (simp add: readable_context_def sample_decision_def blank_def py_space_def sample_bars_def)
  ultimately obtain r b where rb: "evaluate_regime ''regime'' sample_decision = Inr [r]"
    "evaluate_breakout default_breakout sample_decision = Inr [b]"
    using evaluate_regime_total [of sample_decision "''regime''"] by (auto simp: blank_def py_space_def)
  then obtain sigs where run: "route ?ss True sample_decision = Inr sigs"
    by (auto simp: route_def Let_def)
  from router_only_orders [OF this] obtain css where css: "list_all2 (\<lambda>s cs. s sample_decision = Inr cs) ?ss css"
    "mset sigs = mset (concat css)" "sorted (map signal_key sigs)" by auto
  have "css = [[r], [b]]" using css(1) rb by (auto simp: list_all2_Cons1)
  with css run show ?thesis by auto
qed

end
