(* ===== verification/Runtime.thy ===== *)
theory Runtime
  imports Strategies PaperPortfolio ExchangeHealth
begin

text \<open>
  The runtime's shared parts: the bar-close validator (\<open>app/runtime/bar_close_validator.py\<close>), the input
  quality gate (\<open>app/runtime/data_quality.py\<close>), the stage tracker (\<open>app/runtime/state_machine.py\<close>), the
  injected dependencies (\<open>app/runtime/runtime_context.py\<close>) and the decision context every runner builds
  from them. The dependencies with effects act on a state \<open>'w\<close>, the rest are functions.
\<close>

section \<open>Bar closes\<close>

record bar_validation =
  bv_is_valid :: bool
  bv_reasons :: "string list"

fun windows_overlap :: "candle list \<Rightarrow> bool" where
  "windows_overlap (previous # current # cs) \<longleftrightarrow>
     dt_less (cd_open_time current) (cd_close_time previous) \<or> windows_overlap (current # cs)"
| "windows_overlap cs \<longleftrightarrow> False"

definition validate_bars :: "bar_slice \<Rightarrow> bar_validation" where
  "validate_bars b =
     (let latest = last (bs_candles b);
          reasons = (if cd_is_closed latest then [] else [''latest candle is not closed''])
            @ (if bs_end_time b = cd_close_time latest then []
               else [''bar slice end_time does not match latest candle close_time''])
            @ (if windows_overlap (bs_candles b) then [''candle windows overlap within bar slice''] else [])
      in if reasons \<noteq> [] then \<lparr>bv_is_valid = False, bv_reasons = reasons\<rparr>
         else \<lparr>bv_is_valid = True, bv_reasons = []\<rparr>)"

section \<open>Stages\<close>

datatype runtime_stage =
    BAR_CLOSE_TRIGGER | NORMALIZED_SLICE | FEATURE_SNAPSHOT | STRATEGY_EVALUATION | RISK_EVALUATION
  | EXECUTION_INTENT | PERSISTENCE_REPORTING | EXCHANGE_RECONCILIATION

record state_machine =
  st_current :: runtime_stage
  st_completed :: "runtime_stage list"
  st_failure :: "runtime_stage option"

definition new_machine :: state_machine where
  "new_machine = \<lparr>st_current = BAR_CLOSE_TRIGGER, st_completed = [], st_failure = None\<rparr>"

definition advance :: "runtime_stage \<Rightarrow> state_machine \<Rightarrow> state_machine" where
  "advance stage m = m\<lparr>st_current := stage, st_completed := st_completed m @ [stage]\<rparr>"

definition fail_stage :: "runtime_stage \<Rightarrow> state_machine \<Rightarrow> state_machine" where
  "fail_stage stage m = m\<lparr>st_current := stage, st_failure := Some stage\<rparr>"

section \<open>Dependencies\<close>

datatype runner_mode = MODE_REPORT_ONLY | MODE_PAPER | MODE_RESTRICTED_LIVE

record 'w runtime_context =
  cx_mode :: runner_mode
  cx_features :: "bar_slice \<Rightarrow> bar_slice option \<Rightarrow> feature_snapshot result"
  cx_strategy :: strategy
  cx_risk :: "signal_decision list \<Rightarrow> portfolio_state \<Rightarrow> venue_profile option \<Rightarrow> risk_decision list result"
  cx_intents :: "risk_decision list \<Rightarrow> string \<Rightarrow> datetime \<Rightarrow> execution_intent list result"
  cx_persist :: "cycle_result \<Rightarrow> feature_snapshot \<Rightarrow> decision_context \<Rightarrow> health_snapshot option \<Rightarrow> 'w \<Rightarrow> 'w result"
  cx_index :: "index_source option"
  cx_stable :: "stable_source option"
  cx_gate :: "(portfolio_state \<Rightarrow> string list \<Rightarrow> string list \<Rightarrow> 'w \<Rightarrow> (mutation_outcome \<times> 'w) result) option"
  cx_health :: "('w \<Rightarrow> health_snapshot option \<times> 'w) option"
  cx_venue_profile :: "venue_profile option"
  cx_execution_venue :: "string option"
  cx_time_sync_ok :: "bool option"
  cx_time_sync_detail :: "string option"
  cx_now :: "'w \<Rightarrow> datetime \<times> 'w"

text \<open>The constructors of the three runners.\<close>

definition check_restricted_live :: "'w runtime_context \<Rightarrow> checks" where
  "check_restricted_live cx =
     [(cx_mode cx = MODE_RESTRICTED_LIVE, ValueError ''RestrictedLiveRunner requires restricted_live mode''),
      (truthy (cx_execution_venue cx), ValueError ''RestrictedLiveRunner requires execution_venue''),
      (cx_venue_profile cx \<noteq> None, ValueError ''RestrictedLiveRunner requires venue_profile'')]"

definition check_paper :: "'w runtime_context \<Rightarrow> checks" where
  "check_paper cx =
     [(cx_mode cx = MODE_PAPER, ValueError ''PaperRunner requires paper mode''),
      (truthy (cx_execution_venue cx), ValueError ''PaperRunner requires execution_venue'')]"

definition check_report_only :: "'w runtime_context \<Rightarrow> checks" where
  "check_report_only cx =
     [(cx_mode cx = MODE_REPORT_ONLY, ValueError ''ReportOnlyRunner requires report_only mode'')]"

definition exchange_health :: "'w runtime_context \<Rightarrow> 'w \<Rightarrow> health_snapshot option \<times> 'w" where
  "exchange_health cx =
     current_or_unknown (if truthy (cx_execution_venue cx) then cx_execution_venue cx
       else map_option vp_venue (cx_venue_profile cx)) (cx_health cx) (cx_now cx)"

section \<open>The decision context\<close>

definition stable_of :: "stable_source option \<Rightarrow> datetime \<Rightarrow> stablecoin_snapshot option \<times> stable_lookup option" where
  "stable_of src as_of =
     (case src of
        None \<Rightarrow> (None, None)
      | Some (StableResolver f g) \<Rightarrow>
          (let r = f as_of in (if sl_status r = SC_OK then sl_snapshot r else None, Some r))
      | Some (StableGetter g) \<Rightarrow> (g as_of, None))"

definition build_context ::
    "'w runtime_context \<Rightarrow> string \<Rightarrow> instrument \<Rightarrow> bar_slice \<Rightarrow> portfolio_state \<Rightarrow> feature_snapshot
      \<Rightarrow> decision_context result" where
  "build_context cx cycle_id instrument b p features =
     (let (index, il) = index_of (cx_index cx) (in_instrument_id instrument) (bs_end_time b);
          (stable, sl) = stable_of (cx_stable cx) (bs_end_time b)
      in mk_decision_context
        \<lparr>dc_cycle_id = cycle_id, dc_as_of = bs_end_time b, dc_instrument = instrument,
         dc_latest_candle = last (bs_candles b), dc_bar_slice = b, dc_features = features,
         dc_portfolio_state = p, dc_index_snapshot = index, dc_stablecoin_snapshot = stable,
         dc_index_snapshot_status = map_option (\<lambda>r. index_status_value (il_status r)) il,
         dc_index_snapshot_detail = Option.bind il il_detail,
         dc_index_snapshot_requested_version = map_option il_index_version il,
         dc_stablecoin_snapshot_status = map_option (\<lambda>r. stable_status_value (sl_status r)) sl,
         dc_stablecoin_snapshot_detail = Option.bind sl sl_detail,
         dc_quality_states = [], dc_quality_details = []\<rparr>)"

section \<open>Input quality\<close>

record quality_evaluation =
  qe_states :: "data_quality_state list"
  qe_details :: "string list"
  qe_fail_closed :: bool

definition should_fail_closed :: "runner_mode \<Rightarrow> data_quality_state list \<Rightarrow> bool" where
  "should_fail_closed mode states \<longleftrightarrow>
     (if mode \<noteq> MODE_RESTRICTED_LIVE then INCOMPLETE_BAR \<in> set states else states \<noteq> [])"

definition context_issues :: "timedelta \<Rightarrow> decision_context \<Rightarrow> bar_slice option
    \<Rightarrow> (data_quality_state \<times> string) list" where
  "context_issues max_lag dc ctx =
     (case ctx of
        None \<Rightarrow> []
      | Some c \<Rightarrow>
          (let latest = last (bs_candles c)
           in if \<not> cd_is_closed latest then [(INCOMPLETE_BAR, ''context candle is not closed'')]
              else if max_lag < dt_diff (dc_as_of dc) (cd_close_time latest)
              then [(STALE_DATA, ''context candle slice is older than allowed lag'')] else []))"

definition snapshot_issues :: "decision_context \<Rightarrow> (data_quality_state \<times> string) list" where
  "snapshot_issues dc =
     (if dc_index_snapshot_status dc = Some ''missing'' then [(MISSING_DATA, ''index suite snapshot missing'')]
      else if dc_index_snapshot_status dc = Some ''stale'' then [(STALE_DATA, ''index suite snapshot stale'')]
      else if dc_index_snapshot_status dc = Some ''version_mismatch''
      then [(VERSION_MISMATCH, ''index suite snapshot version mismatch'')] else [])
     @ (if dc_stablecoin_snapshot_status dc = Some ''missing'' then [(MISSING_DATA, ''stablecoin snapshot missing'')]
        else if dc_stablecoin_snapshot_status dc = Some ''stale'' then [(STALE_DATA, ''stablecoin snapshot stale'')]
        else [])"

definition evaluate_quality ::
    "timedelta \<Rightarrow> runner_mode \<Rightarrow> 'w runtime_context \<Rightarrow> decision_context \<Rightarrow> bar_slice option
      \<Rightarrow> quality_evaluation" where
  "evaluate_quality max_lag mode cx dc ctx =
     (let issues = (if cd_is_closed (dc_latest_candle dc) then []
              else [(INCOMPLETE_BAR, ''execution candle is not closed'')])
            @ context_issues max_lag dc ctx @ snapshot_issues dc
            @ (if cx_time_sync_ok cx = Some False
               then [(TIME_SYNC_UNCERTAIN, py_or (cx_time_sync_detail cx) ''server time reference is uncertain'')]
               else []);
          states = dedup (map fst issues)
      in \<lparr>qe_states = states, qe_details = map snd issues, qe_fail_closed = should_fail_closed mode states\<rparr>)"

text \<open>The context with the evaluation recorded in it.\<close>

definition record_quality :: "quality_evaluation \<Rightarrow> decision_context \<Rightarrow> decision_context result" where
  "record_quality q dc =
     mk_decision_context (dc\<lparr>dc_quality_states := qe_states q, dc_quality_details := qe_details q\<rparr>)"

end
