(* ===== verification/Runners.thy ===== *)
theory Runners
  imports Runtime
begin

text \<open>
  One decision cycle of each runner: restricted live (\<open>app/runtime/restricted_live_runner.py\<close>), paper
  (\<open>app/runtime/paper_runner.py\<close>, with its sessions) and report only
  (\<open>app/runtime/report_only_runner.py\<close>). An exception anywhere ends the cycle; the effects up to it
  are not part of the result then.
\<close>

section \<open>Stopped cycles\<close>

definition stopped_cycle ::
    "string \<Rightarrow> datetime \<Rightarrow> datetime \<Rightarrow> instrument \<Rightarrow> data_quality_state list \<Rightarrow> string list \<Rightarrow> string list
      \<Rightarrow> cycle_result result" where
  "stopped_cycle cycle_id started completed instrument states details alerts =
     mk_cycle_result
       \<lparr>rc_cycle_id = cycle_id, rc_started_at = started, rc_completed_at = completed,
        rc_processed_instruments = [in_instrument_id instrument], rc_signals = [],
        rc_risk_decisions = [], rc_execution_intents = [], rc_reconciliation_events = [],
        rc_quality_states = states, rc_quality_details = details, rc_alerts = alerts,
        rc_success = False\<rparr>"

definition persist ::
    "'w runtime_context \<Rightarrow> cycle_result \<Rightarrow> feature_snapshot \<Rightarrow> decision_context \<Rightarrow> 'w \<Rightarrow> (cycle_result \<times> 'w) result" where
  "persist cx r features dc w =
     (let (health, w1) = exchange_health cx w
      in r_bind (cx_persist cx r features dc health w1) (\<lambda>w2. Inr (r, w2)))"

text \<open>The cycle of a bar slice that is not a completed bar close; nothing is persisted.\<close>

definition invalid_bar_cycle ::
    "'w runtime_context \<Rightarrow> string \<Rightarrow> instrument \<Rightarrow> string list \<Rightarrow> datetime \<Rightarrow> 'w \<Rightarrow> (cycle_result \<times> 'w) result" where
  "invalid_bar_cycle cx cycle_id instrument reasons started w =
     (let (completed, w1) = cx_now cx w
      in r_bind (stopped_cycle cycle_id started completed instrument [INCOMPLETE_BAR] reasons reasons)
           (\<lambda>r. Inr (r, w1)))"

section \<open>Restricted live\<close>

fun first_nonzero :: "decimal option list \<Rightarrow> decimal" where
  "first_nonzero [] = Dec 1"
| "first_nonzero (v # vs) = (case v of Some d \<Rightarrow> if d \<noteq> 0 then d else first_nonzero vs | None \<Rightarrow> first_nonzero vs)"

definition prepared_quantity :: "risk_decision \<Rightarrow> decimal" where
  "prepared_quantity d =
     first_nonzero [rd_approved_quantity d, rd_approved_notional d, sd_target_quantity (rd_signal d),
       sd_target_notional (rd_signal d)]"

definition prepare_intents ::
    "string \<Rightarrow> string \<Rightarrow> instrument \<Rightarrow> datetime \<Rightarrow> risk_decision list \<Rightarrow> execution_intent list result" where
  "prepare_intents cycle_id venue instrument submitted_at ds =
     r_map (\<lambda>d. mk_execution_intent
         \<lparr>ei_intent_id = cycle_id @ '':'' @ sd_strategy_name (rd_signal d), ei_venue = venue,
          ei_instrument_id = in_instrument_id instrument,
          ei_side = (if sd_side (rd_signal d) = Buy then BUY else SELL), ei_order_type = MARKET,
          ei_time_in_force = IOC, ei_quantity = prepared_quantity d, ei_submitted_at = submitted_at,
          ei_source_strategy = sd_strategy_name (rd_signal d),
          ei_rationale = ''restricted-live prepared intent pending future exchange execution'',
          ei_limit_price = None, ei_reduce_only = False\<rparr>)
       (filter (\<lambda>d. rd_status d \<in> {Allow, Adjust} \<and> sd_side (rd_signal d) \<noteq> Flat) ds)"

text \<open>What the mutation gate adds to a cycle: events, alerts and success.\<close>

definition consult_gate ::
    "'w runtime_context \<Rightarrow> portfolio_state \<Rightarrow> string list \<Rightarrow> string list \<Rightarrow> 'w
      \<Rightarrow> ((reconciliation_event list \<times> string list \<times> bool) \<times> 'w) result" where
  "consult_gate cx p expected already w =
     (case cx_gate cx of
        None \<Rightarrow> Inr (([], [''restricted-live has no live portfolio mutation gate configured''], True), w)
      | Some g \<Rightarrow> r_bind (g p expected already w) (\<lambda>(o', w').
          let (alert, ok) =
            (if mo_attempted o' then
               (if mo_applied o' then (''restricted-live portfolio mutation passed mandatory safeguard gate'', True)
                else (''restricted-live portfolio mutation blocked by mandatory safeguard gate'', False))
             else (''restricted-live portfolio mutation gate observed no live updates'', True))
          in Inr ((mo_events o', mo_alerts o' @ [alert], ok), w')))"

definition prepared_cycle ::
    "'w runtime_context \<Rightarrow> string \<Rightarrow> instrument \<Rightarrow> bar_slice \<Rightarrow> portfolio_state \<Rightarrow> string list \<Rightarrow> string list
      \<Rightarrow> feature_snapshot \<Rightarrow> decision_context \<Rightarrow> quality_evaluation \<Rightarrow> datetime \<Rightarrow> 'w
      \<Rightarrow> (cycle_result \<times> 'w) result" where
  "prepared_cycle cx cycle_id instrument b p expected already features dc q started w =
     r_bind (cx_strategy cx dc) (\<lambda>signals.
     r_bind (cx_risk cx signals p (cx_venue_profile cx)) (\<lambda>decisions.
     r_bind (prepare_intents cycle_id (py_or (cx_execution_venue cx) []) instrument (bs_end_time b) decisions)
       (\<lambda>intents.
     r_bind (consult_gate cx p expected already w) (\<lambda>((events, gate_alerts, ok), w1).
       let (completed, w2) = cx_now cx w1 in
       r_bind (mk_cycle_result
         \<lparr>rc_cycle_id = cycle_id, rc_started_at = started, rc_completed_at = completed,
          rc_processed_instruments = [in_instrument_id instrument], rc_signals = signals,
          rc_risk_decisions = decisions, rc_execution_intents = intents,
          rc_reconciliation_events = events, rc_quality_states = qe_states q,
          rc_quality_details = qe_details q,
          rc_alerts = dedup ([''restricted-live mode prepared intents only'',
            ''exchange execution remains future work''] @ qe_details q @ gate_alerts),
          rc_success = ok\<rparr>) (\<lambda>r. persist cx r features dc w2)))))"

definition fail_closed_cycle ::
    "'w runtime_context \<Rightarrow> string \<Rightarrow> instrument \<Rightarrow> feature_snapshot \<Rightarrow> decision_context \<Rightarrow> quality_evaluation
      \<Rightarrow> datetime \<Rightarrow> 'w \<Rightarrow> (cycle_result \<times> 'w) result" where
  "fail_closed_cycle cx cycle_id instrument features dc q started w =
     (let (completed, w1) = cx_now cx w in
      r_bind (stopped_cycle cycle_id started completed instrument (qe_states q) (qe_details q)
          (if qe_details q = [] then [''restricted-live quality gate failed closed''] else qe_details q)) (\<lambda>r.
      r_bind (record_quality q dc) (\<lambda>dc'. persist cx r features dc' w1)))"

definition restricted_live_cycle ::
    "timedelta \<Rightarrow> 'w runtime_context \<Rightarrow> string \<Rightarrow> instrument \<Rightarrow> bar_slice \<Rightarrow> bar_slice option \<Rightarrow> portfolio_state
      \<Rightarrow> string list \<Rightarrow> string list \<Rightarrow> 'w \<Rightarrow> (cycle_result \<times> 'w) result" where
  "restricted_live_cycle max_lag cx cycle_id instrument b ctx p expected already w =
     (let v = validate_bars b; (started, w1) = cx_now cx w in
      if \<not> bv_is_valid v then invalid_bar_cycle cx cycle_id instrument (bv_reasons v) started w1
      else r_bind (cx_features cx b ctx) (\<lambda>features.
           r_bind (build_context cx cycle_id instrument b p features) (\<lambda>dc.
             let q = evaluate_quality max_lag (cx_mode cx) cx dc ctx in
             if qe_fail_closed q then fail_closed_cycle cx cycle_id instrument features dc q started w1
             else prepared_cycle cx cycle_id instrument b p expected already features dc q started w1)))"

section \<open>Report only\<close>

definition report_only_run ::
    "timedelta \<Rightarrow> 'w runtime_context \<Rightarrow> string \<Rightarrow> instrument \<Rightarrow> bar_slice \<Rightarrow> bar_slice option \<Rightarrow> portfolio_state
      \<Rightarrow> 'w \<Rightarrow> ((cycle_result \<times> state_machine) \<times> 'w) result" where
  "report_only_run max_lag cx cycle_id instrument b ctx p w =
     (let (started, w1) = cx_now cx w; v = validate_bars b in
      r_bind (cx_features cx b ctx) (\<lambda>features.
      r_bind (build_context cx cycle_id instrument b p features) (\<lambda>dc.
        if \<not> bv_is_valid v then
          (let (completed, w2) = cx_now cx w1 in
           r_bind (stopped_cycle cycle_id started completed instrument [INCOMPLETE_BAR] (bv_reasons v)
               (bv_reasons v)) (\<lambda>r.
           r_bind (persist cx r features dc w2) (\<lambda>(r, w3).
             Inr ((r, fail_stage BAR_CLOSE_TRIGGER new_machine), w3))))
        else
          (let m = advance FEATURE_SNAPSHOT (advance NORMALIZED_SLICE new_machine);
               q = evaluate_quality max_lag (cx_mode cx) cx dc ctx in
           r_bind (if qe_states q \<noteq> [] then record_quality q dc else Inr dc) (\<lambda>dc'.
           r_bind (cx_strategy cx dc') (\<lambda>signals.
           r_bind (cx_risk cx signals p (cx_venue_profile cx)) (\<lambda>decisions.
           r_bind (cx_intents cx decisions (py_or (cx_execution_venue cx) ''unassigned_venue'') (bs_end_time b))
             (\<lambda>intents.
             let m' = foldl (\<lambda>m s. advance s m) m
                   [STRATEGY_EVALUATION, RISK_EVALUATION, EXECUTION_INTENT, PERSISTENCE_REPORTING];
                 (completed, w2) = cx_now cx w1 in
             r_bind (mk_cycle_result
               \<lparr>rc_cycle_id = cycle_id, rc_started_at = started, rc_completed_at = completed,
                rc_processed_instruments = [in_instrument_id instrument], rc_signals = signals,
                rc_risk_decisions = decisions, rc_execution_intents = intents,
                rc_reconciliation_events = [], rc_quality_states = qe_states q,
                rc_quality_details = qe_details q,
                rc_alerts = (if intents \<noteq> []
                    then [''report-only generated intents were persisted only; no exchange submission'']
                    else [''report-only cycle produced no executable intents'']) @ qe_details q,
                rc_success = True\<rparr>) (\<lambda>r.
             r_bind (persist cx r features dc' w2) (\<lambda>(r, w3).
               Inr ((r, advance EXCHANGE_RECONCILIATION m'), w3)))))))))))"

section \<open>Paper\<close>

record 'w paper_runner =
  pr_context :: "'w runtime_context"
  pr_simulator :: paper_simulator
  pr_quote_asset :: string
  pr_persist_transition :: "(string \<Rightarrow> portfolio_state \<Rightarrow> portfolio_state \<Rightarrow> order_state list \<Rightarrow> fill_event list
    \<Rightarrow> 'w \<Rightarrow> 'w result) option"
  pr_persist_summary :: "(string \<Rightarrow> string list \<Rightarrow> portfolio_state \<Rightarrow> position_state list \<Rightarrow> nat \<Rightarrow> nat
    \<Rightarrow> 'w \<Rightarrow> 'w result) option"
  pr_max_lag :: timedelta

record paper_outcome =
  po_cycle :: cycle_result
  po_starting :: portfolio_state
  po_ending :: portfolio_state
  po_positions :: "position_state list"
  po_orders :: "order_state list"
  po_fills :: "fill_event list"

text \<open>From the decision context to the portfolio after the simulated fills.\<close>

record trade =
  tg_signals :: "signal_decision list"
  tg_decisions :: "risk_decision list"
  tg_intents :: "execution_intent list"
  tg_orders :: "order_state list"
  tg_fills :: "fill_event list"
  tg_ending :: portfolio_state
  tg_positions :: "position_state list"

definition paper_trade ::
    "'w paper_runner \<Rightarrow> instrument \<Rightarrow> bar_slice \<Rightarrow> portfolio_state \<Rightarrow> decision_context \<Rightarrow> trade result" where
  "paper_trade pr instrument b p dc =
     (let cx = pr_context pr; price = cd_close (last (bs_candles b)) in
      r_bind (cx_strategy cx dc) (\<lambda>signals.
      r_bind (cx_risk cx signals p (cx_venue_profile cx)) (\<lambda>decisions.
      r_bind (cx_intents cx decisions (py_or (cx_execution_venue cx) ''paper'') (bs_end_time b)) (\<lambda>intents.
      r_bind (simulate (pr_simulator pr) intents price (bs_end_time b)) (\<lambda>(orders, fills).
      r_bind (apply_fills (pr_quote_asset pr) p fills) (\<lambda>ending.
      r_bind (derive_position_states ending (Some [(in_instrument_id instrument, price)])) (\<lambda>positions.
        Inr \<lparr>tg_signals = signals, tg_decisions = decisions, tg_intents = intents, tg_orders = orders,
             tg_fills = fills, tg_ending = ending, tg_positions = positions\<rparr>)))))))"

text \<open>The cycle result of a trade, persisted, and then the transition of the portfolio.\<close>

definition report_trade ::
    "'w paper_runner \<Rightarrow> string \<Rightarrow> instrument \<Rightarrow> portfolio_state \<Rightarrow> feature_snapshot \<Rightarrow> decision_context
      \<Rightarrow> quality_evaluation \<Rightarrow> datetime \<Rightarrow> trade \<Rightarrow> 'w \<Rightarrow> (paper_outcome \<times> 'w) result" where
  "report_trade pr cycle_id instrument p features dc q started t w =
     (let cx = pr_context pr; (completed, w1) = cx_now cx w in
      r_bind (mk_cycle_result
        \<lparr>rc_cycle_id = cycle_id, rc_started_at = started, rc_completed_at = completed,
         rc_processed_instruments = [in_instrument_id instrument], rc_signals = tg_signals t,
         rc_risk_decisions = tg_decisions t, rc_execution_intents = tg_intents t,
         rc_reconciliation_events = [], rc_quality_states = qe_states q,
         rc_quality_details = qe_details q,
         rc_alerts = [''paper mode simulated order acceptance and fill only'',
           ''paper portfolio state transition persisted''] @ qe_details q,
         rc_success = True\<rparr>) (\<lambda>r.
      r_bind (persist cx r features dc w1) (\<lambda>(r, w2).
      r_bind (case pr_persist_transition pr of None \<Rightarrow> Inr w2
              | Some f \<Rightarrow> f cycle_id p (tg_ending t) (tg_orders t) (tg_fills t) w2) (\<lambda>w3.
        Inr (\<lparr>po_cycle = r, po_starting = p, po_ending = tg_ending t, po_positions = tg_positions t,
              po_orders = tg_orders t, po_fills = tg_fills t\<rparr>, w3)))))"

definition paper_cycle ::
    "'w paper_runner \<Rightarrow> string \<Rightarrow> instrument \<Rightarrow> bar_slice \<Rightarrow> portfolio_state \<Rightarrow> bar_slice option \<Rightarrow> 'w
      \<Rightarrow> (paper_outcome \<times> 'w) result" where
  "paper_cycle pr cycle_id instrument b p ctx w =
     (let cx = pr_context pr; v = validate_bars b; (started, w1) = cx_now cx w in
      if \<not> bv_is_valid v then
        r_bind (invalid_bar_cycle cx cycle_id instrument (bv_reasons v) started w1) (\<lambda>(r, w2).
        r_bind (derive_position_states p None) (\<lambda>positions.
          Inr (\<lparr>po_cycle = r, po_starting = p, po_ending = p, po_positions = positions,
                po_orders = [], po_fills = []\<rparr>, w2)))
      else
        r_bind (cx_features cx b ctx) (\<lambda>features.
        r_bind (build_context cx cycle_id instrument b p features) (\<lambda>dc0.
          let q = evaluate_quality (pr_max_lag pr) (cx_mode cx) cx dc0 ctx in
        r_bind (if qe_states q \<noteq> [] then record_quality q dc0 else Inr dc0) (\<lambda>dc.
        r_bind (paper_trade pr instrument b p dc) (\<lambda>t.
          report_trade pr cycle_id instrument p features dc q started t w1)))))"

record paper_session =
  pss_id :: string
  pss_outcomes :: "paper_outcome list"
  pss_final :: portfolio_state
  pss_positions :: "position_state list"

fun paper_cycles ::
    "'w paper_runner \<Rightarrow> instrument \<Rightarrow> (string \<times> bar_slice) list \<Rightarrow> portfolio_state \<Rightarrow> 'w
      \<Rightarrow> ((paper_outcome list \<times> portfolio_state) \<times> 'w) result" where
  "paper_cycles pr instrument [] p w = Inr (([], p), w)"
| "paper_cycles pr instrument ((cycle_id, b) # inputs) p w =
     r_bind (paper_cycle pr cycle_id instrument b p None w) (\<lambda>(o', w1).
     r_bind (paper_cycles pr instrument inputs (po_ending o') w1) (\<lambda>((os, final), w2).
       Inr ((o' # os, final), w2)))"

definition run_cycles ::
    "'w paper_runner \<Rightarrow> string \<Rightarrow> instrument \<Rightarrow> (string \<times> bar_slice) list \<Rightarrow> portfolio_state \<Rightarrow> 'w
      \<Rightarrow> (paper_session \<times> 'w) result" where
  "run_cycles pr session_id instrument inputs p w =
     r_bind (paper_cycles pr instrument inputs p w) (\<lambda>((os, final), w1).
     r_bind (if os \<noteq> [] then Inr (po_positions (last os)) else derive_position_states final None) (\<lambda>positions.
     r_bind (case pr_persist_summary pr of None \<Rightarrow> Inr w1
             | Some f \<Rightarrow> f session_id (map fst inputs) final positions (length os)
                 (length (filter (\<lambda>o'. po_orders o' \<noteq> []) os)) w1) (\<lambda>w2.
       Inr (\<lparr>pss_id = session_id, pss_outcomes = os, pss_final = final, pss_positions = positions\<rparr>, w2))))"

section \<open>Facts\<close>

lemma mk_cycle_result_Inr [simp]: "mk_cycle_result r = Inr r' \<longleftrightarrow> r' = r \<and> passes (cycle_result_checks r)"
  by (simp add: mk_cycle_result_def)

lemma persist_Inr: "persist cx r features dc w = Inr (r', w') \<Longrightarrow> r' = r"
  by (auto simp: persist_def r_bind_Inr split: prod.splits)

lemma stopped_cycle_Inr:
  assumes "stopped_cycle cid t1 t2 instrument states details alerts = Inr r"
  shows "rc_quality_states r = states" "rc_signals r = []" "rc_execution_intents r = []"
    "rc_reconciliation_events r = []" "\<not> rc_success r" "rc_risk_decisions r = []"
  using assms by (auto simp: stopped_cycle_def)

text \<open>Replacing what a stopped cycle does not use.\<close>

definition with_parts ::
    "(portfolio_state \<Rightarrow> string list \<Rightarrow> string list \<Rightarrow> 'w \<Rightarrow> (mutation_outcome \<times> 'w) result) option
      \<Rightarrow> strategy \<Rightarrow> (signal_decision list \<Rightarrow> portfolio_state \<Rightarrow> venue_profile option \<Rightarrow> risk_decision list result)
      \<Rightarrow> 'w runtime_context \<Rightarrow> 'w runtime_context" where
  "with_parts gate strategy risk cx = cx\<lparr>cx_gate := gate, cx_strategy := strategy, cx_risk := risk\<rparr>"

lemma with_parts_irrelevant [simp]:
  "invalid_bar_cycle (with_parts g s k cx) = invalid_bar_cycle cx"
  "build_context (with_parts g s k cx) = build_context cx"
  "evaluate_quality lag mode (with_parts g s k cx) = evaluate_quality lag mode cx"
  "fail_closed_cycle (with_parts g s k cx) = fail_closed_cycle cx"
  "cx_mode (with_parts g s k cx) = cx_mode cx" "cx_features (with_parts g s k cx) = cx_features cx"
  "cx_now (with_parts g s k cx) = cx_now cx"
  by (simp_all add: fun_eq_iff with_parts_def invalid_bar_cycle_def build_context_def evaluate_quality_def
      fail_closed_cycle_def persist_def exchange_health_def)

text \<open>The three ways a restricted-live cycle ends.\<close>

lemma restricted_live_cases:
  assumes "restricted_live_cycle lag cx cid instrument b ctx p expected already w = Inr (r, w')"
  obtains (invalid) started w1 where "cx_now cx w = (started, w1)" and "\<not> bv_is_valid (validate_bars b)"
      and "invalid_bar_cycle cx cid instrument (bv_reasons (validate_bars b)) started w1 = Inr (r, w')"
  | (closed) started w1 features dc where "cx_now cx w = (started, w1)" and "bv_is_valid (validate_bars b)"
      and "cx_features cx b ctx = Inr features" and "build_context cx cid instrument b p features = Inr dc"
      and "qe_fail_closed (evaluate_quality lag (cx_mode cx) cx dc ctx)"
      and "fail_closed_cycle cx cid instrument features dc (evaluate_quality lag (cx_mode cx) cx dc ctx) started w1
        = Inr (r, w')"
  | (prepared) started w1 features dc where "cx_now cx w = (started, w1)" and "bv_is_valid (validate_bars b)"
      and "cx_features cx b ctx = Inr features" and "build_context cx cid instrument b p features = Inr dc"
      and "\<not> qe_fail_closed (evaluate_quality lag (cx_mode cx) cx dc ctx)"
      and "prepared_cycle cx cid instrument b p expected already features dc
        (evaluate_quality lag (cx_mode cx) cx dc ctx) started w1 = Inr (r, w')"
proof -
  obtain started w1 where now: "cx_now cx w = (started, w1)" by (cases "cx_now cx w")
  show thesis
  proof (cases "bv_is_valid (validate_bars b)")
    case False
    with assms now show thesis by (intro invalid [OF now]) (simp_all add: restricted_live_cycle_def)
  next
    case True
    then obtain features dc where f: "cx_features cx b ctx = Inr features"
      and dc: "build_context cx cid instrument b p features = Inr dc"
      using assms now by (auto simp: restricted_live_cycle_def r_bind_Inr)
    show thesis
      using assms now True f dc closed [OF now True f dc] prepared [OF now True f dc]
      by (auto simp: restricted_live_cycle_def Let_def split: if_splits)
  qed
qed

lemma prepared_cycle_Inr:
  assumes "prepared_cycle cx cid instrument b p expected already features dc q started w = Inr (r, w')"
  obtains w1 events alerts where "consult_gate cx p expected already w = Inr ((events, alerts, rc_success r), w1)"
    and "rc_quality_states r = qe_states q" and "rc_reconciliation_events r = events"
proof -
  obtain signals decisions intents where 1: "cx_strategy cx dc = Inr signals"
    "cx_risk cx signals p (cx_venue_profile cx) = Inr decisions"
    "prepare_intents cid (py_or (cx_execution_venue cx) []) instrument (bs_end_time b) decisions = Inr intents"
    using assms unfolding prepared_cycle_def by (auto simp: r_bind_Inr)
  obtain events alerts ok w1 where 2: "consult_gate cx p expected already w = Inr ((events, alerts, ok), w1)"
    using assms unfolding prepared_cycle_def 1 r_bind_simps by (auto simp: r_bind_Inr)
  obtain t w2 where 3: "cx_now cx w1 = (t, w2)" by (cases "cx_now cx w1")
  have "rc_success r = ok" "rc_quality_states r = qe_states q" "rc_reconciliation_events r = events"
    using assms unfolding prepared_cycle_def 1 r_bind_simps 2 prod.case 3 Let_def r_bind_Inr
    by (auto simp del: dedup.simps dest!: persist_Inr)
  with 2 show thesis by (intro that) auto
qed

lemma consult_gate_Inr:
  assumes "consult_gate cx p expected already w = Inr ((events, alerts, ok), w1)" and "cx_gate cx = Some g"
  obtains o' where "g p expected already w = Inr (o', w1)" and "ok \<longleftrightarrow> mo_attempted o' \<longrightarrow> mo_applied o'"
    and "events = mo_events o'"
  using assms by (auto simp: consult_gate_def r_bind_Inr split: if_splits)

lemma fail_closed_states:
  assumes "qe_fail_closed (evaluate_quality lag MODE_RESTRICTED_LIVE cx dc ctx)"
  shows "qe_states (evaluate_quality lag MODE_RESTRICTED_LIVE cx dc ctx) \<noteq> []"
  using assms by (simp add: evaluate_quality_def Let_def should_fail_closed_def)

lemma not_fail_closed_states:
  assumes "\<not> qe_fail_closed (evaluate_quality lag MODE_RESTRICTED_LIVE cx dc ctx)"
  shows "qe_states (evaluate_quality lag MODE_RESTRICTED_LIVE cx dc ctx) = []"
  using assms by (simp add: evaluate_quality_def Let_def should_fail_closed_def)

text \<open>From accepted bars and a proper instrument on, nothing of the pipeline raises.\<close>

lemma build_context_total:
  assumes "bar_slice_invariant b" and "is_utc (bs_end_time b)" and "\<not> blank cid"
    and "in_instrument_id instrument = bs_instrument_id b" and "ft_instrument_id f = bs_instrument_id b"
    and "ft_timeframe f = bs_timeframe b"
  shows "\<exists>dc. build_context cx cid instrument b p f = Inr dc \<and> dc_instrument dc = instrument \<and>
    dc_features dc = f \<and> dc_as_of dc = bs_end_time b \<and> dc_latest_candle dc = last (bs_candles b) \<and>
    passes (decision_context_checks dc)"
proof -
  have l: "last (bs_candles b) \<in> set (bs_candles b)" using assms(1) by (simp add: bar_slice_invariant_def)
  have c: "cd_instrument_id (last (bs_candles b)) = bs_instrument_id b"
    "cd_timeframe (last (bs_candles b)) = bs_timeframe b"
    "bs_end_time b = cd_close_time (last (bs_candles b))"
    using l assms(1) unfolding bar_slice_invariant_def by blast+
  have "passes (decision_context_checks dc)"
    if "dc_cycle_id dc = cid" "dc_as_of dc = bs_end_time b" "dc_instrument dc = instrument"
      "dc_latest_candle dc = last (bs_candles b)" "dc_bar_slice dc = b" "dc_features dc = f"
      "dc_quality_details dc = []" for dc :: decision_context
    using that c assms by (simp add: decision_context_checks_def dt_less_def)
  then show ?thesis
    unfolding build_context_def mk_decision_context_def
    by (cases "index_of (cx_index cx) (in_instrument_id instrument) (bs_end_time b)";
        cases "stable_of (cx_stable cx) (bs_end_time b)")
      (simp add: validated_passes del: validated_Inr)
qed

lemma record_quality_total:
  assumes "passes (decision_context_checks dc)" and "\<forall>d\<in>set (qe_details q). \<not> blank d"
  shows "record_quality q dc = Inr (dc\<lparr>dc_quality_states := qe_states q, dc_quality_details := qe_details q\<rparr>)"
  using assms by (simp add: record_quality_def mk_decision_context_def decision_context_checks_def)

lemma quality_details_proper:
  assumes "opt_all (\<lambda>d. d = [] \<or> \<not> blank d) (cx_time_sync_detail cx)"
  shows "\<forall>d\<in>set (qe_details (evaluate_quality lag mode cx dc ctx)). \<not> blank d"
proof -
  have c: "\<forall>x\<in>set (context_issues lag dc ctx @ snapshot_issues dc). \<not> blank (snd x)"
    by (auto simp: context_issues_def snapshot_issues_def Let_def blank_def py_space_def split: option.splits)
  have "\<not> blank (py_or (cx_time_sync_detail cx) ''server time reference is uncertain'')"
    using assms by (auto simp: py_or_def blank_def py_space_def split: option.splits)
  with c show ?thesis by (auto simp: evaluate_quality_def Let_def blank_def py_space_def)
qed

lemma route_total:
  assumes "readable_context c" and "\<not> blank (bk_name k)" and "0 \<le> bk_threshold k"
    and "0 \<le> bk_min_confidence k" and "0 \<le> bk_quantity k" and "\<not> blank name"
  shows "\<exists>sigs. route [evaluate_breakout k, evaluate_regime name] flat c = Inr sigs \<and>
    (\<forall>s\<in>set sigs. valid_signal s \<and> (sd_side s = Flat \<or> sd_side s = Buy \<and> sd_target_notional s = None \<and>
      sd_target_quantity s = Some (bk_quantity k)))"
proof -
  obtain ss where ss: "evaluate_breakout k c = Inr ss" "\<forall>x\<in>set ss. valid_signal x \<and> sd_side x = Buy \<and>
      sd_target_quantity x = Some (bk_quantity k) \<and> sd_target_notional x = None"
    using evaluate_breakout_total [OF assms(1-5)] by blast
  obtain r where r: "evaluate_regime name c = Inr [r]" "valid_signal r \<and> sd_side r = Flat"
    using evaluate_regime_total [OF assms(1,6)] by blast
  show ?thesis using ss r by (auto simp: route_def Let_def)
qed

definition breakout_signal :: "decimal \<Rightarrow> signal_decision \<Rightarrow> bool" where
  "breakout_signal q s \<longleftrightarrow> valid_signal s \<and> (sd_side s = Flat \<or>
     sd_side s = Buy \<and> sd_target_notional s = None \<and> sd_target_quantity s = Some q)"

lemma evaluate_risk_total:
  assumes "\<forall>s\<in>set sigs. valid_signal s"
  shows "\<exists>ds. evaluate_risk m sigs = Inr ds"
  using assms r_map_total [of sigs "evaluate_signal m" "\<lambda>s. projr (evaluate_signal m s)"]
    evaluate_signal_total [of _ m] unfolding evaluate_risk_def by fastforce

lemma evaluate_signal_quantity:
  assumes "evaluate_signal m s = Inr d" and "rd_status d \<noteq> Reject" and "sd_side s \<noteq> Flat"
  shows "rd_approved_quantity d = sd_target_quantity s"
  using assms by (auto simp: evaluate_signal_def Let_def mk_risk_decision_Inr split: if_splits)

lemma build_intents_total:
  assumes "evaluate_risk m sigs = Inr ds" and "\<forall>s\<in>set sigs. breakout_signal q s" and "0 < q"
    and "\<not> blank v" and "is_utc t"
  shows "\<exists>is. build_intents dv v t ds = Inr is \<and> (\<forall>i\<in>set is. ei_side i = BUY \<and> ei_quantity i = q)"
proof -
  let ?ds = "filter (\<lambda>d. rd_status d \<noteq> Reject \<and> sd_side (rd_signal d) \<noteq> Flat) ds"
  have d: "\<exists>s. valid_signal s \<and> rd_signal d = s \<and> sd_side s = Buy \<and> rd_approved_quantity d = Some q"
    if mem: "d \<in> set ?ds" for d
  proof -
    have "d \<in> set ds" "rd_status d \<noteq> Reject" and nf: "sd_side (rd_signal d) \<noteq> Flat" using mem by auto
    then obtain s where s: "s \<in> set sigs" "evaluate_signal m s = Inr d"
      using r_map_Inr_set [OF assms(1) [unfolded evaluate_risk_def]] by blast
    have "rd_signal d = s" by (rule evaluate_signal_Inr(1) [OF s(2)])
    then show ?thesis
      using assms(2) s nf evaluate_signal_quantity [OF s(2)] \<open>rd_status d \<noteq> Reject\<close>
      by (auto simp: breakout_signal_def)
  qed
  have total: "\<exists>i. build_intent dv v t d = Inr i \<and> ei_side i = BUY \<and> ei_quantity i = q" if mem: "d \<in> set ?ds" for d
  proof -
    obtain s where s: "valid_signal s" "rd_signal d = s" "sd_side s = Buy" "rd_approved_quantity d = Some q"
      using d [OF mem] by blast
    have "v \<noteq> []" using assms(4) by (auto simp: blank_def)
    with s assms(3-5) show ?thesis
      by (simp add: build_intent_def mk_execution_intent_def execution_intent_checks_def intent_quantity_def
          signal_decision_checks_def blank_def py_space_def opt_all_def require_opt_def not_le)
  qed
  have "r_map (build_intent dv v t) ?ds = Inr (map (\<lambda>d. projr (build_intent dv v t d)) ?ds)"
    by (rule r_map_total) (use total in fastforce)
  then have "build_intents dv v t ds = Inr (map (\<lambda>d. projr (build_intent dv v t d)) ?ds)"
    by (simp only: build_intents_eq)
  moreover have "\<forall>i\<in>set (map (\<lambda>d. projr (build_intent dv v t d)) ?ds). ei_side i = BUY \<and> ei_quantity i = q"
    using total by fastforce
  ultimately show ?thesis by blast
qed

section \<open>Properties\<close>

text \<open>
  C16. A restricted-live cycle fails closed: when its result reports any quality state (an incomplete bar,
  missing, stale or mismatching snapshots, an uncertain clock), the gate, the strategies and the risk
  rules had no part in it - replacing them changes nothing, neither the result nor the effects - and it
  is a failure without signals, decisions, intents or reconciliation events.
\<close>

theorem bad_input_fails_closed:
  assumes "restricted_live_cycle lag cx cid instrument b ctx p expected already w = Inr (r, w')"
    and "cx_mode cx = MODE_RESTRICTED_LIVE" and "rc_quality_states r \<noteq> []"
  shows "restricted_live_cycle lag (with_parts g s k cx) cid instrument b ctx p expected already w = Inr (r, w') \<and>
    \<not> rc_success r \<and> rc_signals r = [] \<and> rc_risk_decisions r = [] \<and> rc_execution_intents r = [] \<and>
    rc_reconciliation_events r = []"
  using assms(1)
proof (cases rule: restricted_live_cases)
  case (invalid started w1)
  then show ?thesis
    using stopped_cycle_Inr by (auto simp: restricted_live_cycle_def invalid_bar_cycle_def r_bind_Inr
        split: prod.splits)
next
  case (closed started w1 features dc)
  then show ?thesis
    using stopped_cycle_Inr by (auto simp: restricted_live_cycle_def fail_closed_cycle_def r_bind_Inr
        split: prod.splits dest!: persist_Inr)
next
  case (prepared started w1 features dc)
  from prepared(6) have "rc_quality_states r = qe_states (evaluate_quality lag (cx_mode cx) cx dc ctx)"
    by (rule prepared_cycle_Inr)
  with prepared(5) assms(2,3) show ?thesis using not_fail_closed_states by metis
qed


text \<open>
  The report-only cycle always completes: with the builder, the breakout and regime strategies, the
  report-only risk rules and the intent builder wired in, every accepted bar slice with a completed
  close gives a successful result, whatever the providers say, every stage was passed in order, and
  every intent buys the configured quantity. (The clock must be UTC and not go back, the store must
  accept the cycle.)
\<close>

lemma report_only_completes:
  assumes "mk_bar_slice b = Inr b" and "bv_is_valid (validate_bars b)"
    and "in_instrument_id instrument = bs_instrument_id b" and "\<not> blank cid"
    and wiring: "cx_features cx = build_features fb"
      "cx_strategy cx = route [evaluate_breakout k, evaluate_regime name] flat"
      "cx_risk cx = (\<lambda>sigs p v. evaluate_risk m sigs)" "cx_intents cx = (\<lambda>ds v t. build_intents dv v t ds)"
    and strategy: "\<not> blank (bk_name k)" "0 \<le> bk_threshold k" "0 \<le> bk_min_confidence k" "0 < bk_quantity k"
      "\<not> blank name"
    and clock: "\<And>w. is_utc (fst (cx_now cx w))"
      "\<And>w. dt_le (fst (cx_now cx w)) (fst (cx_now cx (snd (cx_now cx w))))"
    and store: "\<And>r f dc h w. \<exists>w'. cx_persist cx r f dc h w = Inr w'"
    and texts: "opt_all (\<lambda>d. d = [] \<or> \<not> blank d) (cx_time_sync_detail cx)"
      "opt_all (\<lambda>v. v = [] \<or> \<not> blank v) (cx_execution_venue cx)"
  shows "\<exists>r mach w'. report_only_run lag cx cid instrument b ctx p w = Inr ((r, mach), w') \<and> rc_success r \<and>
    st_completed mach = [NORMALIZED_SLICE, FEATURE_SNAPSHOT, STRATEGY_EVALUATION, RISK_EVALUATION,
      EXECUTION_INTENT, PERSISTENCE_REPORTING, EXCHANGE_RECONCILIATION] \<and> st_failure mach = None \<and>
    (\<forall>i. i \<in> set (rc_execution_intents r) \<longrightarrow> ei_side i = BUY \<and> ei_quantity i = bk_quantity k)"
proof -
  have b: "bar_slice_invariant b" "\<not> blank (bs_instrument_id b)" "\<not> blank (bs_timeframe b)" "is_utc (bs_end_time b)"
    using assms(1) bar_slice_checks_iff [of b] by (auto simp: mk_bar_slice_def)
  obtain f where f: "build_features fb b ctx = Inr f" "ft_instrument_id f = bs_instrument_id b"
    "ft_timeframe f = bs_timeframe b" using build_features_total [OF b] by blast
  obtain dc where dc: "build_context cx cid instrument b p f = Inr dc" "dc_instrument dc = instrument"
    "dc_features dc = f" "dc_as_of dc = bs_end_time b" "passes (decision_context_checks dc)"
    using build_context_total [OF b(1,4) assms(4,3) f(2,3)] by blast
  define q where "q = evaluate_quality lag (cx_mode cx) cx dc ctx"
  have details: "\<forall>d\<in>set (qe_details q). \<not> blank d" unfolding q_def by (rule quality_details_proper [OF texts(1)])
  obtain dc' where dc': "(if qe_states q \<noteq> [] then record_quality q dc else Inr dc) = Inr dc'" "readable_context dc'"
    using record_quality_total [OF dc(5) details] dc(2-4) b(2-4) assms(3) f(3)
    by (cases "qe_states q = []") (auto simp: readable_context_def)
  obtain sigs where sigs: "route [evaluate_breakout k, evaluate_regime name] flat dc' = Inr sigs"
    "\<forall>s\<in>set sigs. breakout_signal (bk_quantity k) s"
    using route_total [OF dc'(2) strategy(1-3) _ strategy(5), of flat] strategy(4)
    unfolding breakout_signal_def by (metis less_imp_le)
  obtain ds where ds: "evaluate_risk m sigs = Inr ds"
    using evaluate_risk_total [of sigs m] sigs(2) by (auto simp: breakout_signal_def)
  have venue: "\<not> blank (py_or (cx_execution_venue cx) ''unassigned_venue'')"
    using texts(2) by (auto simp: py_or_def blank_def py_space_def split: option.splits)
  obtain ints where ints: "build_intents dv (py_or (cx_execution_venue cx) ''unassigned_venue'') (bs_end_time b) ds = Inr ints"
    "\<forall>i\<in>set ints. ei_side i = BUY \<and> ei_quantity i = bk_quantity k"
    using build_intents_total [OF ds sigs(2) strategy(4) venue b(4)] by blast
  obtain t1 w1 where t1: "cx_now cx w = (t1, w1)" by (cases "cx_now cx w")
  obtain t2 w2 where t2: "cx_now cx w1 = (t2, w2)" by (cases "cx_now cx w1")
  have t: "is_utc t1" "is_utc t2" "dt_le t1 t2" using clock(1) [of w] clock(1) [of w1] clock(2) [of w] t1 t2 by simp_all
  let ?r = "\<lparr>rc_cycle_id = cid, rc_started_at = t1, rc_completed_at = t2,
    rc_processed_instruments = [in_instrument_id instrument], rc_signals = sigs,
    rc_risk_decisions = ds, rc_execution_intents = ints, rc_reconciliation_events = [],
    rc_quality_states = qe_states q, rc_quality_details = qe_details q,
    rc_alerts = (if ints \<noteq> [] then [''report-only generated intents were persisted only; no exchange submission'']
      else [''report-only cycle produced no executable intents'']) @ qe_details q, rc_success = True\<rparr>"
  have r: "mk_cycle_result ?r = Inr ?r"
    using t details b(2) assms(3,4)
    by (auto simp: cycle_result_checks_def dt_less_def dt_le_def blank_def py_space_def)
  obtain w3 where p: "persist cx ?r f dc' w2 = Inr (?r, w3)"
  proof -
    obtain h wh where h: "exchange_health cx w2 = (h, wh)" by (cases "exchange_health cx w2")
    obtain w3 where "cx_persist cx ?r f dc' h wh = Inr w3" using store by blast
    then show thesis by (intro that [of w3]) (simp add: persist_def h)
  qed
  have "report_only_run lag cx cid instrument b ctx p w = Inr ((?r, foldl (\<lambda>m s. advance s m) new_machine
      [NORMALIZED_SLICE, FEATURE_SNAPSHOT, STRATEGY_EVALUATION, RISK_EVALUATION, EXECUTION_INTENT,
       PERSISTENCE_REPORTING, EXCHANGE_RECONCILIATION]), w3)"
    unfolding report_only_run_def Let_def t1 t2 prod.case wiring f(1) dc(1) r_bind_simps q_def [symmetric] dc'(1)
      sigs(1) ds ints(1) r p
    using assms(2) by simp
  with ints(2) show ?thesis by (simp add: advance_def new_machine_def)
qed

definition sample_instrument :: instrument where
  "sample_instrument =
     \<lparr>in_instrument_id = ''BTC-USDT'', in_base_asset = ''BTC'', in_quote_asset = ''USDT'',
      in_price_precision = 2, in_quantity_precision = 6, in_price_increment = None,
      in_quantity_increment = None, in_min_quantity = None, in_min_notional = None, in_is_active = True\<rparr>"

text \<open>The world of the samples is a clock that ticks at every reading.\<close>

definition sample_context :: "runner_mode \<Rightarrow> bool option
    \<Rightarrow> (portfolio_state \<Rightarrow> string list \<Rightarrow> string list \<Rightarrow> int \<Rightarrow> (mutation_outcome \<times> int) result) option
    \<Rightarrow> int runtime_context" where
  "sample_context mode time_ok gate =
     \<lparr>cx_mode = mode,
      cx_features = build_features \<lparr>bld_tolerate_partial = True, bld_index = None, bld_stable = None\<rparr>,
      cx_strategy = route [evaluate_breakout default_breakout, evaluate_regime ''regime''] True,
      cx_risk = (\<lambda>sigs p v. evaluate_risk (Dec 1000) sigs),
      cx_intents = (\<lambda>ds v t. build_intents ''paper'' v t ds),
      cx_persist = (\<lambda>r f dc h w. Inr w), cx_index = None, cx_stable = None, cx_gate = gate,
      cx_health = None, cx_venue_profile = None, cx_execution_venue = Some ''paper'',
      cx_time_sync_ok = time_ok, cx_time_sync_detail = None, cx_now = (\<lambda>w. (utc w, w + 1))\<rparr>"

lemma sample_context_fields [simp]:
  "cx_mode (sample_context mode ok g) = mode" "cx_gate (sample_context mode ok g) = g"
  "cx_now (sample_context mode ok g) = (\<lambda>w. (utc w, w + 1))"
  "cx_time_sync_ok (sample_context mode ok g) = ok" "cx_time_sync_detail (sample_context mode ok g) = None"
  "cx_features (sample_context mode ok g)
     = build_features \<lparr>bld_tolerate_partial = True, bld_index = None, bld_stable = None\<rparr>"
  "cx_index (sample_context mode ok g) = None" "cx_stable (sample_context mode ok g) = None"
  "cx_persist (sample_context mode ok g) = (\<lambda>r f dc h w. Inr w)"
  by (simp_all add: sample_context_def)

lemma sample_bars_close: "validate_bars sample_bars = \<lparr>bv_is_valid = True, bv_reasons = []\<rparr>"
  by (simp add: validate_bars_def sample_bars_def sample_candle_def seconds_def)

lemma sample_bars_accepted: "mk_bar_slice sample_bars = Inr sample_bars"
  using sample_bars_valid by (simp add: mk_bar_slice_def bar_slice_checks_iff)

lemma report_only_completes_witness:
  "\<exists>r mach w'. report_only_run 0 (sample_context MODE_REPORT_ONLY None None) ''c1'' sample_instrument sample_bars
     None sample_portfolio 0 = Inr ((r, mach), w') \<and> rc_success r \<and>
     (\<forall>i. i \<in> set (rc_execution_intents r) \<longrightarrow> ei_quantity i = Dec 1)"
proof -
  have "\<exists>r mach w'. report_only_run 0 (sample_context MODE_REPORT_ONLY None None) ''c1'' sample_instrument
      sample_bars None sample_portfolio 0 = Inr ((r, mach), w') \<and> rc_success r \<and>
    st_completed mach = [NORMALIZED_SLICE, FEATURE_SNAPSHOT, STRATEGY_EVALUATION, RISK_EVALUATION,
      EXECUTION_INTENT, PERSISTENCE_REPORTING, EXCHANGE_RECONCILIATION] \<and> st_failure mach = None \<and>
    (\<forall>i. i \<in> set (rc_execution_intents r) \<longrightarrow> ei_side i = BUY \<and> ei_quantity i = bk_quantity default_breakout)"
  proof (rule report_only_completes [OF sample_bars_accepted])
    show "bv_is_valid (validate_bars sample_bars)" by (simp add: sample_bars_close)
  qed (auto simp: sample_context_def sample_instrument_def sample_bars_def default_breakout_def blank_def
      py_space_def less_eq_decimal_def less_decimal_def)
  then show ?thesis by (auto simp: default_breakout_def)
qed

text \<open>A restricted-live cycle of the sample, up to the quality gate.\<close>

lemma sample_restricted:
  assumes cx_def: "cx = with_parts g s k (sample_context MODE_RESTRICTED_LIVE ok None)"
  obtains f dc where "restricted_live_cycle 0 cx ''c1'' sample_instrument sample_bars None sample_portfolio [] [] 0
    = (let q = evaluate_quality 0 MODE_RESTRICTED_LIVE cx dc None in
       if qe_fail_closed q then fail_closed_cycle cx ''c1'' sample_instrument f dc q (utc 0) 1
       else prepared_cycle cx ''c1'' sample_instrument sample_bars sample_portfolio [] [] f dc q (utc 0) 1)"
    and "passes (decision_context_checks dc)" and "qe_states (evaluate_quality 0 MODE_RESTRICTED_LIVE cx dc None) = (if ok = Some False then [TIME_SYNC_UNCERTAIN] else [])"
    and "readable_context dc"
proof -
  let ?cx = "sample_context MODE_RESTRICTED_LIVE ok None"
  obtain f where f: "cx_features ?cx sample_bars None = Inr f" "ft_instrument_id f = bs_instrument_id sample_bars"
    "ft_timeframe f = bs_timeframe sample_bars" using build_features_total [OF sample_bars_valid] by auto
  have c: "\<not> blank ''c1''" "in_instrument_id sample_instrument = bs_instrument_id sample_bars"
    by (simp_all add: blank_def py_space_def sample_instrument_def sample_bars_def)
  obtain dc where dc: "build_context ?cx ''c1'' sample_instrument sample_bars sample_portfolio f = Inr dc"
    "dc_instrument dc = sample_instrument" "dc_features dc = f" "dc_as_of dc = bs_end_time sample_bars"
    "dc_latest_candle dc = last (bs_candles sample_bars)" "passes (decision_context_checks dc)"
    using build_context_total [OF sample_bars_valid(1,4) c f(2,3)] by blast
  have none: "dc_index_snapshot_status dc = None" "dc_stablecoin_snapshot_status dc = None"
    using dc(1) by (auto simp: build_context_def index_of_def stable_of_def mk_decision_context_def)
  have q: "qe_states (evaluate_quality 0 MODE_RESTRICTED_LIVE ?cx dc None)
      = (if ok = Some False then [TIME_SYNC_UNCERTAIN] else [])"
    by (simp add: evaluate_quality_def Let_def dc(5) none context_issues_def snapshot_issues_def sample_bars_def
        sample_candle_def)
  have rd: "readable_context dc"
    using dc(2-4) c(2) f(3) sample_bars_valid by (simp add: readable_context_def)
  show thesis
    by (rule that [OF _ dc(6) _ rd, of f]; unfold cx_def)
      (simp_all add: restricted_live_cycle_def sample_bars_close f(1) [simplified] dc(1) q)
qed


lemma bad_input_fails_closed_witness:
  "\<exists>r w'. restricted_live_cycle 0 (sample_context MODE_RESTRICTED_LIVE (Some False) None) ''c1'' sample_instrument
     sample_bars None sample_portfolio [] [] 0 = Inr (r, w') \<and> rc_quality_states r = [TIME_SYNC_UNCERTAIN] \<and>
     \<not> rc_success r"
proof -
  let ?cx = "sample_context MODE_RESTRICTED_LIVE (Some False) None"
  have same: "with_parts None (cx_strategy ?cx) (cx_risk ?cx) ?cx = ?cx" by (simp add: with_parts_def sample_context_def)
  obtain f dc where eq: "restricted_live_cycle 0 ?cx ''c1'' sample_instrument sample_bars None sample_portfolio [] [] 0
      = (let q = evaluate_quality 0 MODE_RESTRICTED_LIVE ?cx dc None in
         if qe_fail_closed q then fail_closed_cycle ?cx ''c1'' sample_instrument f dc q (utc 0) 1
         else prepared_cycle ?cx ''c1'' sample_instrument sample_bars sample_portfolio [] [] f dc q (utc 0) 1)"
    and dc: "passes (decision_context_checks dc)"
    and q: "qe_states (evaluate_quality 0 MODE_RESTRICTED_LIVE ?cx dc None) = [TIME_SYNC_UNCERTAIN]"
    by (rule sample_restricted [OF same [symmetric]]) (simp_all only: simp_thms if_True)
  let ?q = "evaluate_quality 0 MODE_RESTRICTED_LIVE ?cx dc None"
  have closed: "qe_fail_closed ?q" using q not_fail_closed_states by fastforce
  have details: "\<forall>d\<in>set (qe_details ?q). \<not> blank d" by (rule quality_details_proper) simp
  obtain r where r: "stopped_cycle ''c1'' (utc 0) (utc 1) sample_instrument (qe_states ?q) (qe_details ?q)
      (if qe_details ?q = [] then [''restricted-live quality gate failed closed''] else qe_details ?q) = Inr r"
    using details by (auto simp: stopped_cycle_def cycle_result_checks_def sample_instrument_def blank_def py_space_def)
  obtain w' where "persist ?cx r f (dc\<lparr>dc_quality_states := qe_states ?q, dc_quality_details := qe_details ?q\<rparr>) 2 = Inr (r, w')"
    by (cases "exchange_health ?cx 2") (simp add: persist_def)
  then have run: "restricted_live_cycle 0 ?cx ''c1'' sample_instrument sample_bars None sample_portfolio [] [] 0 = Inr (r, w')"
    unfolding eq Let_def using closed r record_quality_total [OF dc details] by (simp add: fail_closed_cycle_def)
  have st: "rc_quality_states r = [TIME_SYNC_UNCERTAIN]" using stopped_cycle_Inr(1) [OF r] q by simp
  from bad_input_fails_closed [OF run] st run show ?thesis by fastforce
qed

lemma no_payloads_parts:
  "\<not> mo_attempted (gr_outcome (no_payloads p))" "mo_events (gr_outcome (no_payloads p)) = []"
  "mo_alerts (gr_outcome (no_payloads p)) = [''no private payloads available for restricted-live mutation gate'']"
  by (simp_all add: no_payloads_def Let_def)


section \<open>A paper session as one replay\<close>

text \<open>The part of a portfolio that fills act on.\<close>

definition books :: "portfolio_state \<Rightarrow> (string, decimal) dict \<times> (string, decimal) dict \<times> (string, decimal) dict \<times> decimal" where
  "books p = (pf_cash p, pf_position_qty p, pf_avg_entry p, pf_realized_pnl p)"

lemma initial_acc_books: "books p = books p' \<Longrightarrow> initial_acc p = initial_acc p'"
  by (simp add: books_def initial_acc_def)

text \<open>The marks a fill leaves behind do not matter to the next.\<close>

lemma apply_one_unmarked:
  assumes "apply_one q a f = Inr a'"
  shows "\<exists>m'. apply_one q (a\<lparr>pa_marks := m\<rparr>) f = Inr (a'\<lparr>pa_marks := m'\<rparr>)"
  using assms
  by (auto simp: apply_one_def Let_def r_bind_Inr split: if_splits)

lemma apply_fold_unmarked:
  assumes "r_foldl (apply_one q) a fs = Inr a'"
  shows "\<exists>m'. r_foldl (apply_one q) (a\<lparr>pa_marks := m\<rparr>) fs = Inr (a'\<lparr>pa_marks := m'\<rparr>)"
  using assms
proof (induction fs arbitrary: a m)
  case (Cons f fs)
  obtain u where u: "apply_one q a f = Inr u" "r_foldl (apply_one q) u fs = Inr a'"
    using Cons.prems by (auto simp: r_bind_Inr)
  obtain m1 where "apply_one q (a\<lparr>pa_marks := m\<rparr>) f = Inr (u\<lparr>pa_marks := m1\<rparr>)"
    using apply_one_unmarked [OF u(1)] by blast
  with Cons.IH [OF u(2), of m1] show ?case by simp
qed auto

lemma exposures_gross: "exposures a items (g, n, u) = (g', n', u') \<Longrightarrow> 0 \<le> g \<Longrightarrow> 0 \<le> g'"
proof (induction items arbitrary: g n u)
  case (Cons x items)
  obtain i v where x: "x = (i, v)" by (cases x)
  show ?case
    by (rule Cons.IH [OF _ decimal_nonneg_add [OF Cons.prems(2) decimal_abs_nonneg]])
      (use Cons.prems(1) in \<open>simp add: x Let_def\<close>)
qed simp

lemma apply_fills_acc:
  assumes "r_foldl (apply_one q) (initial_acc p) fs = Inr a" and "valid_portfolio p'" and "is_utc (pf_as_of p)"
    and "\<forall>f\<in>set fs. valid_fill f" and "a\<lparr>pa_marks := []\<rparr> = initial_acc p'"
  shows "\<exists>p2. apply_fills q p fs = Inr p2 \<and> books p2 = books p'"
proof -
  obtain g n u where e: "exposures a (pa_qty a) (0, 0, 0) = (g, n, u)"
    by (cases "exposures a (pa_qty a) (0, 0, 0)") auto
  have a: "pa_cash a = pf_cash p'" "pa_qty a = pf_position_qty p'" "pa_avg a = pf_avg_entry p'"
    "pa_realized a = pf_realized_pnl p'"
    using assms(5) by (cases a, simp add: initial_acc_def)+
  have "is_utc (fe_occurred_at (last fs))" if "fs \<noteq> []"
    using assms(4) last_in_set [OF that] by (auto simp: valid_fill_def fill_event_checks_def)
  moreover have "0 \<le> g" using exposures_gross [OF e] by simp
  ultimately show ?thesis
    using assms(1-3) e by (auto simp: apply_fills_def finish_acc_def a valid_portfolio_iff books_def)
qed

text \<open>One cycle: the ending books are those of applying its fills, and its fills are valid.\<close>

lemma simulate_valid_fills:
  assumes "simulate sim intents price t = Inr (os, fs)"
  shows "\<forall>f\<in>set fs. valid_fill f"
proof -
  obtain ps where ps: "r_map (simulate_intent sim price t) intents = Inr ps" "fs = map snd ps"
    using assms by (auto simp: simulate_def r_bind_Inr)
  have "valid_fill f" if "simulate_intent sim price t i = Inr (s, f)" for i s f
    using that by (auto simp: simulate_intent_def r_bind_Inr)
  then show ?thesis using r_map_Inr_set [OF ps(1)] ps(2) by fastforce
qed

lemma paper_trade_Inr:
  assumes "paper_trade pr instrument b p dc = Inr t"
  shows "\<forall>f\<in>set (tg_fills t). valid_fill f" and "apply_fills (pr_quote_asset pr) p (tg_fills t) = Inr (tg_ending t)"
  using assms simulate_valid_fills unfolding paper_trade_def Let_def r_bind_Inr
  by (auto simp: r_bind_Inr split: prod.splits)

lemma report_trade_Inr:
  assumes "report_trade pr cid instrument p f dc q t0 t w = Inr (x, w')"
  shows "po_starting x = p" "po_ending x = tg_ending t" "po_fills x = tg_fills t" "rc_cycle_id (po_cycle x) = cid"
  using assms by (auto simp: report_trade_def Let_def r_bind_Inr split: prod.splits dest!: persist_Inr)

lemma paper_cycle_Inr:
  assumes "paper_cycle pr cid instrument b p ctx w = Inr (x, w')"
  shows "po_starting x = p \<and> (\<forall>f\<in>set (po_fills x). valid_fill f) \<and>
    (po_fills x = [] \<and> po_ending x = p \<or> apply_fills (pr_quote_asset pr) p (po_fills x) = Inr (po_ending x)) \<and>
    rc_cycle_id (po_cycle x) = cid"
proof -
  let ?cx = "pr_context pr"
  obtain t1 w1 where t1: "cx_now ?cx w = (t1, w1)" by (cases "cx_now ?cx w")
  show ?thesis
  proof (cases "bv_is_valid (validate_bars b)")
    case False
    obtain r w2 where r: "invalid_bar_cycle ?cx cid instrument (bv_reasons (validate_bars b)) t1 w1 = Inr (r, w2)"
      using assms t1 False by (auto simp: paper_cycle_def r_bind_Inr)
    have "rc_cycle_id r = cid"
      using r by (auto simp: invalid_bar_cycle_def stopped_cycle_def r_bind_Inr split: prod.splits)
    then show ?thesis using assms t1 False r by (auto simp: paper_cycle_def r_bind_Inr)
  next
    case True
    obtain f dc q t where "paper_trade pr instrument b p dc = Inr t"
      "report_trade pr cid instrument p f dc q t1 t w1 = Inr (x, w')"
      using assms t1 True unfolding paper_cycle_def Let_def by (auto simp: r_bind_Inr simp del: if_split)
    then show ?thesis using paper_trade_Inr report_trade_Inr by metis
  qed
qed

lemma paper_cycles_Inr:
  assumes "paper_cycles pr instrument inputs p w = Inr ((xs, final), w')" and "valid_portfolio p"
  shows "map (\<lambda>x. rc_cycle_id (po_cycle x)) xs = map fst inputs \<and> valid_portfolio final \<and>
    (\<forall>f\<in>set (concat (map po_fills xs)). valid_fill f) \<and>
    (\<exists>a. r_foldl (apply_one (pr_quote_asset pr)) (initial_acc p) (concat (map po_fills xs)) = Inr a \<and>
      a\<lparr>pa_marks := []\<rparr> = initial_acc final)"
  using assms
proof (induction inputs arbitrary: p w xs)
  case Nil
  then show ?case by (auto simp: initial_acc_def)
next
  case (Cons c inputs)
  obtain cid b where c: "c = (cid, b)" by (cases c)
  obtain x w1 ys where x: "paper_cycle pr cid instrument b p None w = Inr (x, w1)"
    and rest: "paper_cycles pr instrument inputs (po_ending x) w1 = Inr ((ys, final), w')" and xs: "xs = x # ys"
    using Cons.prems(1) unfolding c by (auto simp: r_bind_Inr)
  note step = paper_cycle_Inr [OF x]
  have "valid_portfolio (po_ending x)"
    using step Cons.prems(2) by (auto elim: apply_fills_Inr)
  note ih = Cons.IH [OF rest this]
  have "\<exists>a. r_foldl (apply_one (pr_quote_asset pr)) (initial_acc p) (po_fills x) = Inr a \<and>
      a\<lparr>pa_marks := []\<rparr> = initial_acc (po_ending x)"
  proof (cases "po_fills x = [] \<and> po_ending x = p")
    case True
    then show ?thesis by (auto simp: initial_acc_def)
  next
    case False
    then have "apply_fills (pr_quote_asset pr) p (po_fills x) = Inr (po_ending x)" using step by blast
    then obtain a where "r_foldl (apply_one (pr_quote_asset pr)) (initial_acc p) (po_fills x) = Inr a"
      "pf_cash (po_ending x) = pa_cash a" "pf_position_qty (po_ending x) = pa_qty a"
      "pf_avg_entry (po_ending x) = pa_avg a" "pf_realized_pnl (po_ending x) = pa_realized a"
      by (rule apply_fills_Inr)
    then show ?thesis by (auto simp: initial_acc_def)
  qed
  then obtain a1 where a1: "r_foldl (apply_one (pr_quote_asset pr)) (initial_acc p) (po_fills x) = Inr a1"
    "a1\<lparr>pa_marks := []\<rparr> = initial_acc (po_ending x)" by blast
  obtain a2 where a2: "r_foldl (apply_one (pr_quote_asset pr)) (initial_acc (po_ending x)) (concat (map po_fills ys)) = Inr a2"
    "a2\<lparr>pa_marks := []\<rparr> = initial_acc final" using ih by blast
  have "(initial_acc (po_ending x))\<lparr>pa_marks := pa_marks a1\<rparr> = a1" by (simp flip: a1(2))
  then obtain m where "r_foldl (apply_one (pr_quote_asset pr)) a1 (concat (map po_fills ys)) = Inr (a2\<lparr>pa_marks := m\<rparr>)"
    using apply_fold_unmarked [OF a2(1), of "pa_marks a1"] by auto
  then have "r_foldl (apply_one (pr_quote_asset pr)) (initial_acc p) (concat (map po_fills xs)) = Inr (a2\<lparr>pa_marks := m\<rparr>)"
    by (simp add: xs r_foldl_append a1(1))
  moreover have "a2\<lparr>pa_marks := m\<rparr>\<lparr>pa_marks := []\<rparr> = initial_acc final" using a2(2) by simp
  ultimately show ?case using step ih by (auto simp: xs c)
qed

text \<open>
  C24. A paper session is one replay: the final cash, positions, entry prices and realised profit are
  those of applying all fills of its cycles, in order, to the initial portfolio at once; the session has
  one outcome per input, in the order of the inputs.
\<close>

theorem session_is_one_replay:
  assumes "run_cycles pr sid instrument inputs p w = Inr (s, w')" and "valid_portfolio p"
  shows "(\<exists>p2. apply_fills (pr_quote_asset pr) p (concat (map po_fills (pss_outcomes s))) = Inr p2 \<and>
      books p2 = books (pss_final s)) \<and>
    map (\<lambda>x. rc_cycle_id (po_cycle x)) (pss_outcomes s) = map fst inputs"
proof -
  obtain xs final w1 where xs: "paper_cycles pr instrument inputs p w = Inr ((xs, final), w1)"
    "pss_outcomes s = xs" "pss_final s = final"
    using assms(1) by (auto simp: run_cycles_def r_bind_Inr)
  note c = paper_cycles_Inr [OF xs(1) assms(2)]
  obtain a where a: "r_foldl (apply_one (pr_quote_asset pr)) (initial_acc p) (concat (map po_fills xs)) = Inr a"
    "a\<lparr>pa_marks := []\<rparr> = initial_acc final" using c by blast
  have "is_utc (pf_as_of p)" using assms(2) by (simp add: valid_portfolio_iff)
  with apply_fills_acc [OF a(1) _ this _ a(2)] c show ?thesis by (simp add: xs)
qed

text \<open>A sample runner whose cycles buy two coins at the close.\<close>

definition sample_paper :: "int paper_runner" where
  "sample_paper =
     \<lparr>pr_context = (sample_context MODE_PAPER None None)
        \<lparr>cx_strategy := (\<lambda>dc. Inr []), cx_risk := (\<lambda>sigs p v. Inr []), cx_intents := (\<lambda>ds v t. Inr [sample_intent])\<rparr>,
      pr_simulator = \<lparr>sim_fee_bps = 0, sim_fee_asset = ''USDT''\<rparr>, pr_quote_asset = ''USDT'',
      pr_persist_transition = None, pr_persist_summary = None, pr_max_lag = 0\<rparr>"

lemma sample_paper_fill:
  assumes t: "is_utc t"
  obtains s f where "simulate (pr_simulator sample_paper) [sample_intent] (Dec 110) t = Inr ([s], [f])"
    and "fe_quantity f = Dec 2" "fe_price f = Dec 110" "fe_side f = BUY" "fe_instrument_id f = ''BTC-USDT''"
    "fe_fee f = 0" "fe_fee_asset f = ''USDT''" "fe_occurred_at f = t" "valid_fill f"
proof -
  let ?sim = "\<lparr>sim_fee_bps = 0, sim_fee_asset = ''USDT''\<rparr>"
  have "passes (execution_intent_checks sample_intent) \<and> representable (ei_quantity sample_intent)"
    by (simp add: representable_def sample_intent_def execution_intent_checks_def blank_def py_space_def)
  then obtain s f where sf: "simulate_intent ?sim (Dec 110) t sample_intent = Inr (s, f)"
    "fe_quantity f = ei_quantity sample_intent" "fe_price f = Dec 110" "fe_side f = ei_side sample_intent"
    "fe_instrument_id f = ei_instrument_id sample_intent" "valid_fill f"
    using simulate_intent_fills [of sample_intent "Dec 110" t ?sim] t by (auto simp: blank_def py_space_def)
  have "fe_fee f = 0" "fe_fee_asset f = ''USDT''" "fe_occurred_at f = t"
    using sf(1) by (auto simp: simulate_intent_def r_bind_Inr dec_div_Inr decimal_eq_iff)
  with sf show thesis by (intro that [of s f]) (simp_all add: simulate_def sample_paper_def sample_intent_def)
qed

lemma sample_paper_books:
  assumes "fe_quantity f = Dec 2" "fe_price f = Dec 110" "fe_side f = BUY" "fe_instrument_id f = ''BTC-USDT''"
    "fe_fee f = 0" "fe_fee_asset f = ''USDT''" "fe_occurred_at f = t" "is_utc t"
  shows "\<exists>p' ps. apply_fills ''USDT'' sample_portfolio [f] = Inr p' \<and>
    derive_position_states p' (Some [(''BTC-USDT'', Dec 110)]) = Inr ps"
  using assms
  by (auto simp: apply_fills_def apply_one_def initial_acc_def sample_portfolio_def r_bind_Inr
        finish_acc_def valid_portfolio_iff dict_get_default_def Let_def decimal_eq_iff
        mult.commute blank_def py_space_def derive_position_states_def mk_position_state_def position_state_checks_def
        less_eq_decimal_def less_decimal_def)

text \<open>Every paper runner with the fee-free simulator that trades one sample intent completes the cycle.\<close>

lemma paper_cycle_sample:
  fixes pr :: "'w paper_runner"
  defines "cx \<equiv> pr_context pr"
  defines "q \<equiv> \<lambda>dc. evaluate_quality (pr_max_lag pr) (cx_mode cx) cx dc None"
  assumes run: "cx_features cx sample_bars None = Inr f"
      "build_context cx ''c1'' sample_instrument sample_bars sample_portfolio f = Inr dc"
      "qe_states (q dc) = []" "qe_details (q dc) = []"
    and parts: "cx_strategy cx = (\<lambda>dc. Inr [])" "cx_risk cx = (\<lambda>s p v. Inr [])"
      "cx_intents cx = (\<lambda>ds v t. Inr [sample_intent])" "pr_quote_asset pr = ''USDT''"
      "pr_simulator pr = pr_simulator sample_paper"
    and clock: "\<And>w. is_utc (fst (cx_now cx w))"
      "\<And>w. dt_le (fst (cx_now cx w)) (fst (cx_now cx (snd (cx_now cx w))))"
    and store: "\<And>r f dc h w. \<exists>w'. cx_persist cx r f dc h w = Inr w'"
      "\<And>g c p p' os fs w. pr_persist_transition pr = Some g \<Longrightarrow> \<exists>w'. g c p p' os fs w = Inr w'"
  shows "\<exists>x w'. paper_cycle pr ''c1'' sample_instrument sample_bars sample_portfolio None w = Inr (x, w') \<and>
    length (po_fills x) = 1"
proof -
  let ?t = "bs_end_time sample_bars"
  obtain s fl where sf: "simulate (pr_simulator sample_paper) [sample_intent] (Dec 110) ?t = Inr ([s], [fl])"
    "fe_quantity fl = Dec 2" "fe_price fl = Dec 110" "fe_side fl = BUY" "fe_instrument_id fl = ''BTC-USDT''"
    "fe_fee fl = 0" "fe_fee_asset fl = ''USDT''" "fe_occurred_at fl = ?t"
    using sample_paper_fill [OF sample_bars_valid(4)] by blast
  obtain p' ps where p': "apply_fills ''USDT'' sample_portfolio [fl] = Inr p'"
    "derive_position_states p' (Some [(''BTC-USDT'', Dec 110)]) = Inr ps"
    using sample_paper_books [OF sf(2-8) sample_bars_valid(4)] by blast
  note parts = parts [unfolded cx_def] and clock = clock [unfolded cx_def] and store = store [unfolded cx_def]
  obtain t1 w1 where t1: "cx_now (pr_context pr) w = (t1, w1)" by (cases "cx_now (pr_context pr) w")
  obtain t2 w2 where t2: "cx_now (pr_context pr) w1 = (t2, w2)" by (cases "cx_now (pr_context pr) w1")
  have ts: "is_utc t1" "is_utc t2" "dt_le t1 t2" using clock(1) [of w] clock(1) [of w1] clock(2) [of w] t1 t2 by simp_all
  have price: "cd_close (last (bs_candles sample_bars)) = Dec 110" by (simp add: sample_bars_def sample_candle_def)
  have iid: "in_instrument_id sample_instrument = ''BTC-USDT''" by (simp add: sample_instrument_def)
  obtain t where t: "paper_trade pr sample_instrument sample_bars sample_portfolio dc = Inr t" "tg_fills t = [fl]"
    "tg_signals t = []" "tg_decisions t = []"
    unfolding paper_trade_def Let_def parts price iid r_bind_simps sf(1) prod.case p' by simp
  let ?r = "\<lparr>rc_cycle_id = ''c1'', rc_started_at = t1, rc_completed_at = t2,
       rc_processed_instruments = [in_instrument_id sample_instrument], rc_signals = tg_signals t,
       rc_risk_decisions = tg_decisions t, rc_execution_intents = tg_intents t,
       rc_reconciliation_events = [], rc_quality_states = qe_states (q dc), rc_quality_details = qe_details (q dc),
       rc_alerts = [''paper mode simulated order acceptance and fill only'',
         ''paper portfolio state transition persisted''] @ qe_details (q dc), rc_success = True\<rparr>"
  have r: "mk_cycle_result ?r = Inr ?r"
    using ts by (simp add: cycle_result_checks_def iid run(3,4) blank_def py_space_def dt_not_less)
  obtain w3 where w3: "persist (pr_context pr) ?r f dc w2 = Inr (?r, w3)"
  proof -
    obtain h wh where h: "exchange_health (pr_context pr) w2 = (h, wh)" by (cases "exchange_health (pr_context pr) w2")
    obtain w3 where "cx_persist (pr_context pr) ?r f dc h wh = Inr w3" using store(1) by blast
    then show thesis by (intro that [of w3]) (simp add: persist_def h)
  qed
  obtain w4 where w4: "(case pr_persist_transition pr of None \<Rightarrow> Inr w3
      | Some g \<Rightarrow> g ''c1'' sample_portfolio (tg_ending t) (tg_orders t) (tg_fills t) w3) = Inr w4"
    using store(2) [of _ "''c1''" sample_portfolio "tg_ending t" "tg_orders t" "tg_fills t" w3]
    by (cases "pr_persist_transition pr") auto
  obtain x where x: "report_trade pr ''c1'' sample_instrument sample_portfolio f dc (q dc) t1 t w1 = Inr (x, w4)"
    using w3 w4 by (simp only: report_trade_def Let_def t2 prod.case r r_bind_simps)
  have "paper_cycle pr ''c1'' sample_instrument sample_bars sample_portfolio None w = Inr (x, w4)"
    unfolding paper_cycle_def Let_def t1 prod.case sample_bars_close bar_validation.simps
      run(1,2) [unfolded cx_def] run(3) [unfolded q_def cx_def] r_bind_simps
    using x by (simp add: t(1) q_def cx_def)
  moreover have "length (po_fills x) = 1" using report_trade_Inr(3) [OF x] t(2) by (metis One_nat_def length_Cons list.size(3))
  ultimately show ?thesis by blast
qed

lemma sample_paper_cycle:
  obtains x w' where "paper_cycle sample_paper ''c1'' sample_instrument sample_bars sample_portfolio None 0 = Inr (x, w')"
    and "length (po_fills x) = 1"
proof -
  let ?cx = "pr_context sample_paper"
  obtain f where f: "cx_features ?cx sample_bars None = Inr f" "ft_instrument_id f = bs_instrument_id sample_bars"
    "ft_timeframe f = bs_timeframe sample_bars"
    using build_features_total [OF sample_bars_valid] by (auto simp: sample_paper_def)
  have c: "\<not> blank ''c1''" "in_instrument_id sample_instrument = bs_instrument_id sample_bars"
    by (simp_all add: blank_def py_space_def sample_instrument_def sample_bars_def)
  obtain dc where dc: "build_context ?cx ''c1'' sample_instrument sample_bars sample_portfolio f = Inr dc"
    "dc_latest_candle dc = last (bs_candles sample_bars)"
    using build_context_total [OF sample_bars_valid(1,4) c f(2,3)] by blast
  have none: "dc_index_snapshot_status dc = None" "dc_stablecoin_snapshot_status dc = None"
    using dc(1) by (auto simp: build_context_def index_of_def stable_of_def mk_decision_context_def sample_paper_def)
  have q: "qe_states (evaluate_quality (pr_max_lag sample_paper) (cx_mode ?cx) ?cx dc None) = []"
    "qe_details (evaluate_quality (pr_max_lag sample_paper) (cx_mode ?cx) ?cx dc None) = []"
    by (simp_all add: evaluate_quality_def Let_def dc(2) none context_issues_def snapshot_issues_def sample_bars_def
        sample_candle_def sample_paper_def)
  have "\<exists>x w'. paper_cycle sample_paper ''c1'' sample_instrument sample_bars sample_portfolio None 0 = Inr (x, w') \<and>
      length (po_fills x) = 1"
    by (rule paper_cycle_sample [OF f(1) dc(1) q]) (simp_all add: sample_paper_def)
  then show thesis using that by blast
qed

lemma session_is_one_replay_witness:
  "\<exists>s w' p2. run_cycles sample_paper ''s1'' sample_instrument [(''c1'', sample_bars)] sample_portfolio 0 = Inr (s, w') \<and>
     (\<exists>fill. concat (map po_fills (pss_outcomes s)) = [fill] \<and>
       apply_fills ''USDT'' sample_portfolio [fill] = Inr p2 \<and> books p2 = books (pss_final s))"
proof -
  obtain x w1 where x: "paper_cycle sample_paper ''c1'' sample_instrument sample_bars sample_portfolio None 0 = Inr (x, w1)"
    "length (po_fills x) = 1" by (rule sample_paper_cycle)
  obtain fill where fill: "po_fills x = [fill]" using x(2) by (cases "po_fills x") auto
  let ?s = "\<lparr>pss_id = ''s1'', pss_outcomes = [x], pss_final = po_ending x, pss_positions = po_positions x\<rparr>"
  have run: "run_cycles sample_paper ''s1'' sample_instrument [(''c1'', sample_bars)] sample_portfolio 0 = Inr (?s, w1)"
    by (simp add: run_cycles_def x(1)) (simp add: sample_paper_def)
  have "valid_portfolio sample_portfolio" by (simp add: valid_portfolio_iff sample_portfolio_def blank_def py_space_def)
  from session_is_one_replay [OF run this] fill run show ?thesis by (auto simp: sample_paper_def)
qed

end
