(* ===== verification/RestrictedTransport.thy ===== *)
theory RestrictedTransport
  imports PrivateStream
begin

text \<open>
  \<open>app/exchanges/binance/restricted_live_transport.py\<close>: the payload source that keeps one private
  stream session alive over many polls - bootstrap, heartbeat watchdog, rollover, reconnect - and its
  counters. The transport is a record of operations that return the state they leave behind even when
  they raise, because the source catches their exceptions; \<open>stream_ops_of\<close> gives the stream client its
  view of it. The text of an exception and the epoch milliseconds of a time are parameters, and the
  float seconds of the heartbeat statistics are kept exact.
\<close>

section \<open>Transport\<close>

datatype read_outcome = ReadPayload payload | ReadTimeout | ReadFailed py_error

record 't transport_ops =
  to_open :: "string \<Rightarrow> 't \<Rightarrow> string result \<times> 't"
  to_subscribe :: "string \<Rightarrow> string \<Rightarrow> 't \<Rightarrow> stream_subscription result \<times> 't"
  to_close :: "string \<Rightarrow> 't \<Rightarrow> unit result \<times> 't"
  to_read :: "string \<Rightarrow> 't \<Rightarrow> read_outcome \<times> 't"

definition stream_ops_of :: "'t transport_ops \<Rightarrow> 't stream_ops" where
  "stream_ops_of ops =
     \<lparr>so_open = (\<lambda>scope t. let (r, t') = to_open ops scope t in r_bind r (\<lambda>c. Inr (c, t'))),
      so_subscribe = (\<lambda>c scope t. let (r, t') = to_subscribe ops c scope t in r_bind r (\<lambda>sub. Inr (sub, t'))),
      so_close = (\<lambda>c t. let (r, t') = to_close ops c t in r_bind r (\<lambda>_. Inr t'))\<rparr>"

text \<open>The state left behind by closing, opening and subscribing, which stop at the first exception.\<close>

definition left_behind :: "'t transport_ops \<Rightarrow> private_session \<Rightarrow> 't \<Rightarrow> 't" where
  "left_behind ops s t =
     (let (closed, t1) = (case ses_connection_id s of None \<Rightarrow> (Inr (), t) | Some c \<Rightarrow> to_close ops c t)
      in case closed of
           Inl e \<Rightarrow> t1
         | Inr u \<Rightarrow>
             (let (opened, t2) = to_open ops (ses_account_scope s) t1
              in case opened of
                   Inl e \<Rightarrow> t2
                 | Inr c \<Rightarrow> snd (to_subscribe ops c (ses_account_scope s) t2)))"

section \<open>The payload source\<close>

record transport_stats =
  ts_reconnects :: int
  ts_refresh_attempts :: int
  ts_refresh_failures :: int
  ts_overdue_events :: int
  ts_overdue_streak :: int
  ts_bootstraps :: int
  ts_last_refresh :: "string option"
  ts_last_error :: "string option"
  ts_hb_observed_at :: "datetime option"
  ts_hb_message_at :: "datetime option"
  ts_hb_delta :: "timedelta option"
  ts_hb_timeout :: "timedelta option"
  ts_hb_reconnected :: "bool option"

definition no_stats :: transport_stats where
  "no_stats =
     \<lparr>ts_reconnects = 0, ts_refresh_attempts = 0, ts_refresh_failures = 0, ts_overdue_events = 0,
      ts_overdue_streak = 0, ts_bootstraps = 0, ts_last_refresh = None, ts_last_error = None,
      ts_hb_observed_at = None, ts_hb_message_at = None, ts_hb_delta = None, ts_hb_timeout = None,
      ts_hb_reconnected = None\<rparr>"

record payload_source =
  src_session :: "private_session option"
  src_health :: "stream_health option"
  src_stats :: transport_stats

definition new_source :: payload_source where
  "new_source = \<lparr>src_session = None, src_health = None, src_stats = no_stats\<rparr>"

record 't source_env =
  se_client :: stream_client
  se_ops :: "'t transport_ops"
  se_error_text :: "py_error \<Rightarrow> string"
  se_millis :: "datetime \<Rightarrow> int"

definition current_session :: "payload_source \<Rightarrow> private_session result" where
  "current_session src =
     (case src_session src of None \<Rightarrow> Inl AssertionError | Some s \<Rightarrow> Inr s)"

definition with_session :: "'t source_env \<Rightarrow> datetime \<Rightarrow> private_session \<Rightarrow> payload_source \<Rightarrow> payload_source" where
  "with_session env now s src =
     src\<lparr>src_session := Some s,
         src_health := Some (build_health_snapshot (se_client env) s None (Some now) None)\<rparr>"

definition on_stats :: "(transport_stats \<Rightarrow> transport_stats) \<Rightarrow> payload_source \<Rightarrow> payload_source" where
  "on_stats f src = src\<lparr>src_stats := f (src_stats src)\<rparr>"

definition bootstrap_new ::
    "'t source_env \<Rightarrow> datetime \<Rightarrow> payload_source \<times> 't \<Rightarrow> (payload_source \<times> 't) result" where
  "bootstrap_new env now = (\<lambda>(src, t).
     r_bind (bootstrap_session (se_client env) (stream_ops_of (se_ops env)) now t) (\<lambda>(s, t').
       Inr (with_session env now s (on_stats (\<lambda>st. st\<lparr>ts_overdue_streak := 0,
              ts_bootstraps := ts_bootstraps st + 1, ts_hb_reconnected := None\<rparr>) src), t')))"

definition refresh_source ::
    "'t source_env \<Rightarrow> datetime \<Rightarrow> private_session \<Rightarrow> payload_source \<times> 't \<Rightarrow> payload_source \<times> 't" where
  "refresh_source env now s = (\<lambda>(src, t).
     case refresh_session (se_client env) (Some (stream_ops_of (se_ops env))) s now t of
       Inr (s', t') \<Rightarrow>
         ((on_stats (\<lambda>st. st\<lparr>ts_refresh_attempts := ts_refresh_attempts st + 1,
             ts_last_refresh := Some ''success''\<rparr>) src)\<lparr>src_session := Some s'\<rparr>, t')
     | Inl e \<Rightarrow>
         ((on_stats (\<lambda>st. st\<lparr>ts_refresh_attempts := ts_refresh_attempts st + 1,
             ts_refresh_failures := ts_refresh_failures st + 1, ts_last_refresh := Some ''failed'',
             ts_last_error := Some (se_error_text env e)\<rparr>) src)\<lparr>src_health :=
               Some (terminated_stream_health now
                 (''private stream subscription renewal failed: '' @ se_error_text env e))\<rparr>,
          left_behind (se_ops env) s t))"

definition reconnect ::
    "'t source_env \<Rightarrow> datetime \<Rightarrow> string \<Rightarrow> private_session \<Rightarrow> payload_source \<times> 't
      \<Rightarrow> (payload_source \<times> 't) result" where
  "reconnect env now reason s = (\<lambda>(src, t).
     r_bind (case reconnect_session (stream_ops_of (se_ops env)) s now t of
               Inr (s', t') \<Rightarrow> Inr (with_session env now s' src, t')
             | Inl e \<Rightarrow> bootstrap_new env now (src, left_behind (se_ops env) s t)) (\<lambda>(src', t').
       Inr (on_stats (\<lambda>st. st\<lparr>ts_reconnects := ts_reconnects st + 1, ts_overdue_streak := 0,
              ts_last_error := Some reason\<rparr>) src', t')))"

section \<open>Polling\<close>

definition grace :: timedelta where
  "grace = seconds 30"

text \<open>What one overdue observation records before anything is decided.\<close>

definition note_overdue :: "'t source_env \<Rightarrow> datetime \<Rightarrow> private_session \<Rightarrow> transport_stats \<Rightarrow> transport_stats" where
  "note_overdue env now s st =
     st\<lparr>ts_overdue_streak := ts_overdue_streak st + 1, ts_hb_observed_at := Some now,
        ts_hb_message_at := ses_last_message_at s,
        ts_hb_delta := map_option (dt_diff now) (ses_last_message_at s),
        ts_hb_timeout := Some (psc_heartbeat_timeout (se_client env)), ts_hb_reconnected := Some False\<rparr>"

definition within_grace :: "'t source_env \<Rightarrow> datetime \<Rightarrow> private_session \<Rightarrow> bool" where
  "within_grace env now s \<longleftrightarrow>
     (case ses_last_message_at s of None \<Rightarrow> False
      | Some m \<Rightarrow> dt_diff now m \<le> psc_heartbeat_timeout (se_client env) + grace)"

text \<open>The watchdog's verdict; the flag says that the poll ends without reading.\<close>

definition act_on_watchdog ::
    "'t source_env \<Rightarrow> datetime \<Rightarrow> private_session \<Rightarrow> stream_health \<Rightarrow> payload_source \<times> 't
      \<Rightarrow> (bool \<times> payload_source \<times> 't) result" where
  "act_on_watchdog env now s wd = (\<lambda>(src, t).
     let src1 = src\<lparr>src_health := Some wd\<rparr> in
     if list_ex (str_contains ''heartbeat overdue'') (sh_alerts wd) then
       (let src2 = on_stats (note_overdue env now s) src1 in
        if within_grace env now s \<or> ts_overdue_streak (src_stats src2) < 2 then Inr (True, src2, t)
        else r_bind (reconnect env now ''heartbeat overdue'' s
               (on_stats (\<lambda>st. st\<lparr>ts_overdue_events := ts_overdue_events st + 1,
                  ts_hb_reconnected := Some True\<rparr>) src2, t)) (\<lambda>x. Inr (False, x)))
     else if sh_alerts wd \<noteq> [] \<and> str_contains ''subscription expired'' (hd (sh_alerts wd)) then
       r_bind (bootstrap_new env now (src1, t)) (\<lambda>x. Inr (False, x))
     else Inr (False, src1, t))"

definition read_next ::
    "'t source_env \<Rightarrow> datetime \<Rightarrow> payload_source \<times> 't \<Rightarrow> (payload list \<times> payload_source \<times> 't) result" where
  "read_next env now = (\<lambda>(src, t).
     r_bind (current_session src) (\<lambda>s.
       let (outcome, t') = to_read (se_ops env) (py_or (ses_connection_id s) []) t in
       case outcome of
         ReadTimeout \<Rightarrow> Inr ([], with_session env now s src, t')
       | ReadFailed e \<Rightarrow>
           r_bind (reconnect env now (se_error_text env e) s
             (on_stats (\<lambda>st. st\<lparr>ts_last_error := Some (se_error_text env e), ts_overdue_streak := 0\<rparr>) src, t'))
             (\<lambda>x. Inr ([[(''e'', JStr ''eventStreamTerminated''), (''E'', JInt (se_millis env now))]], x))
       | ReadPayload p \<Rightarrow>
           Inr ([p], with_session env now (mark_streaming s now)
             (on_stats (\<lambda>st. st\<lparr>ts_overdue_streak := 0, ts_hb_reconnected := None\<rparr>) src), t')))"

definition poll_private_payloads ::
    "'t source_env \<Rightarrow> datetime \<Rightarrow> payload_source \<times> 't \<Rightarrow> (payload list \<times> payload_source \<times> 't) result" where
  "poll_private_payloads env now x =
     r_bind (if src_session (fst x) \<noteq> None then Inr x else bootstrap_new env now x) (\<lambda>(src, t).
     r_bind (current_session src) (\<lambda>s.
     r_bind (case check_runtime_health (se_client env) s (Some now) of
               None \<Rightarrow> Inr (False, src, t)
             | Some wd \<Rightarrow> act_on_watchdog env now s wd (src, t)) (\<lambda>(stop, src', t').
       if stop then Inr ([], src', t')
       else r_bind (current_session src') (\<lambda>s'.
         read_next env now
           (if check_session_rollover (se_client env) s' now \<noteq> None
            then refresh_source env now s' (src', t') else (src', t'))))))"

text \<open>A run of the source: polls at the given times, with all payloads they delivered.\<close>

inductive polls :: "'t source_env \<Rightarrow> payload_source \<times> 't \<Rightarrow> payload list \<Rightarrow> payload_source \<times> 't \<Rightarrow> bool"
  for env where
  start: "polls env x [] x"
| poll: "polls env x ps y \<Longrightarrow> poll_private_payloads env now y = Inr (qs, z) \<Longrightarrow> polls env x (ps @ qs) z"

inductive_cases polls_Nil: "polls env x [] y"

section \<open>Facts\<close>

text \<open>How the counters move: none goes back, and failures and overdue events are counted twice.\<close>

definition stats_step :: "transport_stats \<Rightarrow> transport_stats \<Rightarrow> bool" where
  "stats_step a b \<longleftrightarrow>
     ts_refresh_failures a \<le> ts_refresh_failures b \<and> ts_overdue_events a \<le> ts_overdue_events b \<and>
     ts_bootstraps a \<le> ts_bootstraps b \<and>
     ts_refresh_failures b - ts_refresh_failures a \<le> ts_refresh_attempts b - ts_refresh_attempts a \<and>
     ts_overdue_events b - ts_overdue_events a \<le> ts_reconnects b - ts_reconnects a"

lemma stats_step_refl [simp]: "stats_step a a"
  by (simp add: stats_step_def)

lemma stats_step_trans: "stats_step a b \<Longrightarrow> stats_step b c \<Longrightarrow> stats_step a c"
  by (auto simp: stats_step_def)

lemma source_fields [simp]:
  "src_stats (with_session env now s src) = src_stats src"
  "src_session (with_session env now s src) = Some s"
  "src_health (with_session env now s src) = Some (build_health_snapshot (se_client env) s None (Some now) None)"
  "src_stats (on_stats f src) = f (src_stats src)" "src_session (on_stats f src) = src_session src"
  "src_health (on_stats f src) = src_health src"
  by (simp_all add: with_session_def on_stats_def)

lemma current_session_Inr [simp]: "current_session src = Inr s \<longleftrightarrow> src_session src = Some s"
  by (simp add: current_session_def split: option.splits)

lemma bootstrap_new_Inr:
  assumes "bootstrap_new env now (src, t) = Inr (src', t')"
  shows "src_session src' \<noteq> None" and "ts_bootstraps (src_stats src') = ts_bootstraps (src_stats src) + 1"
    and "ts_reconnects (src_stats src') = ts_reconnects (src_stats src)"
    and "ts_refresh_attempts (src_stats src') = ts_refresh_attempts (src_stats src)"
    and "ts_refresh_failures (src_stats src') = ts_refresh_failures (src_stats src)"
    and "ts_overdue_events (src_stats src') = ts_overdue_events (src_stats src)"
  using assms by (auto simp: bootstrap_new_def r_bind_Inr)

lemma bootstrap_new_step: "bootstrap_new env now (src, t) = Inr (src', t') \<Longrightarrow> stats_step (src_stats src) (src_stats src')"
  by (simp add: stats_step_def bootstrap_new_Inr)

lemma reconnect_Inr:
  assumes "reconnect env now reason s (src, t) = Inr (src', t')"
  shows "src_session src' \<noteq> None" and "ts_reconnects (src_stats src') = ts_reconnects (src_stats src) + 1"
    and "ts_bootstraps (src_stats src) \<le> ts_bootstraps (src_stats src')"
    and "ts_refresh_attempts (src_stats src') = ts_refresh_attempts (src_stats src)"
    and "ts_refresh_failures (src_stats src') = ts_refresh_failures (src_stats src)"
    and "ts_overdue_events (src_stats src') = ts_overdue_events (src_stats src)"
    and "ts_overdue_streak (src_stats src') = 0"
  using assms bootstrap_new_Inr [of env now src "left_behind (se_ops env) s t"]
  by (auto simp: reconnect_def r_bind_Inr split: sum.splits)

lemma reconnect_step: "reconnect env now reason s (src, t) = Inr (src', t') \<Longrightarrow> stats_step (src_stats src) (src_stats src')"
  by (simp add: stats_step_def reconnect_Inr)

lemma refresh_source_step:
  assumes "src_session src = Some s"
  shows "stats_step (src_stats src) (src_stats (fst (refresh_source env now s (src, t))))"
    and "src_session (fst (refresh_source env now s (src, t))) \<noteq> None"
  using assms by (auto simp: refresh_source_def stats_step_def split: sum.splits)

lemma act_on_watchdog_step:
  assumes "act_on_watchdog env now s wd (src, t) = Inr (stop, src', t')" and "src_session src \<noteq> None"
  shows "stats_step (src_stats src) (src_stats src') \<and> src_session src' \<noteq> None"
proof -
  let ?src1 = "src\<lparr>src_health := Some wd\<rparr>"
  let ?src2 = "on_stats (note_overdue env now s) ?src1"
  let ?src3 = "on_stats (\<lambda>st. st\<lparr>ts_overdue_events := ts_overdue_events st + 1, ts_hb_reconnected := Some True\<rparr>) ?src2"
  consider "src' = ?src2" | "src' = ?src1" | "bootstrap_new env now (?src1, t) = Inr (src', t')"
    | "reconnect env now ''heartbeat overdue'' s (?src3, t) = Inr (src', t')"
    using assms(1) by (auto simp: act_on_watchdog_def Let_def r_bind_Inr split: if_splits)
  then show ?thesis
  proof cases
    case 1
    then show ?thesis using assms(2) by (simp add: stats_step_def note_overdue_def)
  next
    case 2
    then show ?thesis using assms(2) by simp
  next
    case 3
    then show ?thesis using bootstrap_new_Inr(1) [OF 3] bootstrap_new_step [OF 3] by simp
  next
    case 4
    then show ?thesis using reconnect_Inr [OF 4] by (simp add: stats_step_def note_overdue_def)
  qed
qed

lemma read_next_step:
  assumes "read_next env now (src, t) = Inr (ps, src', t')"
  shows "stats_step (src_stats src) (src_stats src') \<and> src_session src' \<noteq> None \<and> length ps \<le> 1"
proof -
  obtain s where s: "src_session src = Some s" using assms by (auto simp: read_next_def r_bind_Inr)
  obtain outcome t1 where rd: "to_read (se_ops env) (py_or (ses_connection_id s) []) t = (outcome, t1)"
    by (cases "to_read (se_ops env) (py_or (ses_connection_id s) []) t")
  show ?thesis
  proof (cases outcome)
    case (ReadPayload p)
    then show ?thesis using assms s rd by (auto simp: read_next_def current_session_def stats_step_def)
  next
    case ReadTimeout
    then show ?thesis using assms s rd by (auto simp: read_next_def current_session_def)
  next
    case (ReadFailed e)
    let ?src1 = "on_stats (\<lambda>st. st\<lparr>ts_last_error := Some (se_error_text env e), ts_overdue_streak := 0\<rparr>) src"
    have r: "reconnect env now (se_error_text env e) s (?src1, t1) = Inr (src', t')" and "length ps = 1"
      using assms s rd ReadFailed by (auto simp: read_next_def current_session_def r_bind_Inr)
    then show ?thesis using reconnect_Inr [OF r] by (simp add: stats_step_def)
  qed
qed

text \<open>One poll: what happens before the read, and the read.\<close>

lemma poll_step:
  assumes "poll_private_payloads env now (src, t) = Inr (ps, src', t')"
  shows "stats_step (src_stats src) (src_stats src') \<and> src_session src' \<noteq> None \<and> length ps \<le> 1"
proof -
  obtain src1 t1 s where 1: "(if src_session src \<noteq> None then Inr (src, t) else bootstrap_new env now (src, t)) = Inr (src1, t1)"
    "src_session src1 = Some s"
    using assms by (auto simp: poll_private_payloads_def r_bind_Inr)
  obtain stop src2 t2 where 2: "(case check_runtime_health (se_client env) s (Some now) of
       None \<Rightarrow> Inr (False, src1, t1) | Some wd \<Rightarrow> act_on_watchdog env now s wd (src1, t1)) = Inr (stop, src2, t2)"
    and rest: "(if stop then Inr ([], src2, t2) else r_bind (current_session src2) (\<lambda>s'. read_next env now
        (if check_session_rollover (se_client env) s' now \<noteq> None then refresh_source env now s' (src2, t2)
         else (src2, t2)))) = Inr (ps, src', t')"
    using assms 1 unfolding poll_private_payloads_def fst_conv 1(1) r_bind_simps prod.case current_session_def option.case
    by (auto simp: r_bind_Inr current_session_def)
  have s1: "stats_step (src_stats src) (src_stats src1)"
    using 1(1) bootstrap_new_step by (auto split: if_splits)
  have s2: "stats_step (src_stats src1) (src_stats src2) \<and> src_session src2 \<noteq> None"
    using 2 1(2) act_on_watchdog_step [of env now s _ src1 t1 stop src2 t2]
    by (cases "check_runtime_health (se_client env) s (Some now)") auto
  show ?thesis
  proof (cases stop)
    case True
    then show ?thesis using rest s1 s2 stats_step_trans by auto
  next
    case False
    obtain s' where s': "src_session src2 = Some s'" using s2 by blast
    obtain src3 t3 where 3: "(if check_session_rollover (se_client env) s' now \<noteq> None
        then refresh_source env now s' (src2, t2) else (src2, t2)) = (src3, t3)" by force
    have "stats_step (src_stats src2) (src_stats src3)"
      using 3 refresh_source_step(1) [OF s', of env now t2] by (auto split: if_splits)
    moreover have "read_next env now (src3, t3) = Inr (ps, src', t')"
      using rest False s' 3 by (simp add: current_session_def)
    ultimately show ?thesis using read_next_step s1 s2 stats_step_trans by meson
  qed
qed

lemma polls_step: "polls env x ps y \<Longrightarrow> stats_step (src_stats (fst x)) (src_stats (fst y))"
proof (induction rule: polls.induct)
  case (poll x ps y now qs z)
  then show ?case using poll_step [of env now "fst y" "snd y" qs "fst z" "snd z"] stats_step_trans by fastforce
qed simp

section \<open>Properties\<close>

text \<open>
  The counters of the payload source are sound: over any run of polls none of them goes back, every
  refresh failure was an attempt, and every overdue event was followed by a reconnect.
\<close>

theorem source_counters_sound:
  assumes "polls env (new_source, t) ps (src, t')"
  shows "0 \<le> ts_refresh_failures (src_stats src) \<and>
    ts_refresh_failures (src_stats src) \<le> ts_refresh_attempts (src_stats src) \<and>
    0 \<le> ts_overdue_events (src_stats src) \<and> ts_overdue_events (src_stats src) \<le> ts_reconnects (src_stats src) \<and>
    (polls env (src, t') qs (src2, t2) \<longrightarrow> stats_step (src_stats src) (src_stats src2))"
  using polls_step [OF assms] polls_step [of env "(src, t')" qs "(src2, t2)"]
  by (simp add: stats_step_def new_source_def no_stats_def)

text \<open>
  An overdue stream is not read: while the last message is older than the heartbeat timeout, a poll
  delivers nothing and leaves the transport alone, even when payloads are waiting there, unless it is
  the second such observation in a row and the message is also older than the grace window; then the
  session is replaced first.
\<close>

theorem overdue_stream_not_read:
  assumes "src_session src = Some s" and "ses_last_message_at s = Some m"
    and "psc_heartbeat_timeout (se_client env) < dt_diff now m"
    and "opt_all (\<lambda>e. dt_less now e) (ses_expires_at s)"
  shows "if dt_diff now m \<le> psc_heartbeat_timeout (se_client env) + grace \<or> ts_overdue_streak (src_stats src) < 1
    then \<exists>src'. poll_private_payloads env now (src, t) = Inr ([], src', t) \<and> src_session src' = Some s \<and>
      ts_overdue_streak (src_stats src') = ts_overdue_streak (src_stats src) + 1 \<and>
      map_option sh_state (src_health src') = Some DEGRADED
    else \<forall>ps src' t'. poll_private_payloads env now (src, t) = Inr (ps, src', t') \<longrightarrow>
      ts_reconnects (src_stats src) < ts_reconnects (src_stats src') \<and>
      ts_overdue_events (src_stats src) < ts_overdue_events (src_stats src')"
proof -
  let ?wd = "unhealthy s DEGRADED ''private stream heartbeat overdue''"
  have wd: "check_runtime_health (se_client env) s (Some now) = Some ?wd"
    using assms(2-4) by (auto simp: check_runtime_health_def opt_all_def dt_not_less [symmetric] split: option.splits)
  have overdue: "list_ex (str_contains ''heartbeat overdue'') (sh_alerts ?wd)" by (simp add: unhealthy_def)
  let ?src2 = "on_stats (note_overdue env now s) (src\<lparr>src_health := Some ?wd\<rparr>)"
  let ?src3 = "on_stats (\<lambda>st. st\<lparr>ts_overdue_events := ts_overdue_events st + 1, ts_hb_reconnected := Some True\<rparr>) ?src2"
  have act: "act_on_watchdog env now s ?wd (src, t) = (if within_grace env now s \<or> ts_overdue_streak (src_stats src) < 1
      then Inr (True, ?src2, t)
      else r_bind (reconnect env now ''heartbeat overdue'' s (?src3, t)) (\<lambda>x. Inr (False, x)))"
    unfolding act_on_watchdog_def prod.case Let_def if_P [OF overdue] by (auto simp: note_overdue_def)
  have wg: "within_grace env now s \<longleftrightarrow> dt_diff now m \<le> psc_heartbeat_timeout (se_client env) + grace"
    by (simp add: within_grace_def assms(2))
  show ?thesis
  proof (cases "within_grace env now s \<or> ts_overdue_streak (src_stats src) < 1")
    case True
    then show ?thesis
      using assms(1) act wg by (auto simp: poll_private_payloads_def wd current_session_def note_overdue_def unhealthy_def)
  next
    case False
    have "ts_reconnects (src_stats src) < ts_reconnects (src_stats src') \<and>
        ts_overdue_events (src_stats src) < ts_overdue_events (src_stats src')"
      if run: "poll_private_payloads env now (src, t) = Inr (ps, src', t')" for ps src' t'
    proof -
      obtain src4 t4 s' where 4: "reconnect env now ''heartbeat overdue'' s (?src3, t) = Inr (src4, t4)"
        "src_session src4 = Some s'" "read_next env now (if check_session_rollover (se_client env) s' now \<noteq> None
          then refresh_source env now s' (src4, t4) else (src4, t4)) = Inr (ps, src', t')"
        using run assms(1) act False by (auto simp: poll_private_payloads_def wd r_bind_Inr)
      obtain src5 t5 where 5: "(if check_session_rollover (se_client env) s' now \<noteq> None
          then refresh_source env now s' (src4, t4) else (src4, t4)) = (src5, t5)" by force
      have "stats_step (src_stats src4) (src_stats src5)"
        using 5 refresh_source_step(1) [OF 4(2), of env now t4] by (auto split: if_splits)
      moreover have "stats_step (src_stats src5) (src_stats src')" using 4(3) unfolding 5 by (simp add: read_next_step)
      ultimately have "stats_step (src_stats src4) (src_stats src')" by (rule stats_step_trans)
      moreover have "ts_reconnects (src_stats src4) = ts_reconnects (src_stats src) + 1"
        "ts_overdue_events (src_stats src4) = ts_overdue_events (src_stats src) + 1"
        using reconnect_Inr(2,6) [OF 4(1)] by (simp_all add: note_overdue_def)
      ultimately show ?thesis unfolding stats_step_def by linarith
    qed
    then show ?thesis using False wg by auto
  qed
qed

text \<open>
  A failing connection is never mistaken for silence: when the transport raises during the read (and
  the session or a new one can be opened again), the poll delivers one payload that the stream client
  reads as the end of the stream and the translator as an invalidated stream.
\<close>

theorem read_failure_invalidates_stream:
  assumes "poll_private_payloads env now x = Inr (ps, src', t')" and "src_session (fst x) = Some s"
    and "check_runtime_health (se_client env) s (Some now) = None"
    and "check_session_rollover (se_client env) s now = None"
    and "to_read (se_ops env) (py_or (ses_connection_id s) []) (snd x) = (ReadFailed e, t1)"
    and "0 \<le> se_millis env now" and "se_millis env now < 253402300800000"
  shows "ts_reconnects (src_stats src') = ts_reconnects (src_stats (fst x)) + 1 \<and>
    (\<exists>b. ingest_payloads cl ps cursor gap = Inr b \<and> pb_stream_state b = TERMINATED) \<and>
    (\<exists>tr'. translate_payloads tenv tr ps = Inr [tr'] \<and> pt_stream_invalidated tr')"
proof -
  obtain src t where x: "x = (src, t)" by (cases x)
  let ?src1 = "on_stats (\<lambda>st. st\<lparr>ts_last_error := Some (se_error_text env e), ts_overdue_streak := 0\<rparr>) src"
  let ?p = "[(''e'', JStr ''eventStreamTerminated''), (''E'', JInt (se_millis env now))] :: payload"
  have r: "reconnect env now (se_error_text env e) s (?src1, t1) = Inr (src', t')" and ps: "ps = [?p]"
    using assms(1-5) unfolding x
    by (auto simp: poll_private_payloads_def read_next_def current_session_def r_bind_Inr)
  have ts: "from_timestamp_ms (se_millis env now) = Inr (utc (se_millis env now * 1000))"
    using assms(6,7) by (simp add: from_timestamp_ms_def)
  have ty: "payload_type ?p d = ''eventStreamTerminated''" for d by (simp add: payload_type_def)
  have n: "normalize_event_payload cl ?p = Inr (stream_event cl ''stream_terminated'' STREAM_STATUS
      (utc (se_millis env now * 1000)) [(''reason'', ''eventStreamTerminated'')])"
    using ts by (simp add: normalize_event_payload_def ty jget_or_def json_int_def stream_end_types_def)
  have "\<exists>b. ingest_payloads cl ps cursor gap = Inr b \<and> pb_stream_state b = TERMINATED"
    by (simp add: ps ingest_payloads_def n ingest_state stream_event_def)
  moreover have "parse_event_time (jget ?p ''E'') = Inr (Some (utc (se_millis env now * 1000)))"
    using ts by (simp add: parse_event_time_def jget_def json_int_def catching_def)
  then have "\<exists>tr'. translate_payloads tenv tr ps = Inr [tr'] \<and> pt_stream_invalidated tr'"
    by (simp add: ps translate_payloads_def translate_payload_def ty translate_stream_status_def Let_def)
  ultimately show ?thesis using reconnect_Inr(2) [OF r] by (simp add: x)
qed

section \<open>Witnesses\<close>

text \<open>A scripted transport: it connects whenever asked and plays the given reads.\<close>

definition sample_source :: "read_outcome list source_env" where
  "sample_source =
     \<lparr>se_client = default_stream_client,
      se_ops = \<lparr>to_open = (\<lambda>scope t. (Inr ''conn'', t)),
        to_subscribe = (\<lambda>c scope t. (Inr \<lparr>sub_subscription_id = ''1'', sub_stream_key = ''key'',
          sub_bootstrap_method = ''m'', sub_expires_at = Some (utc (seconds 864000))\<rparr>, t)),
        to_close = (\<lambda>c t. (Inr (), t)),
        to_read = (\<lambda>c t. case t of [] \<Rightarrow> (ReadTimeout, []) | r # rs \<Rightarrow> (r, rs))\<rparr>,
      se_error_text = (\<lambda>e. ''connection lost''), se_millis = (\<lambda>t. dt_us t div 1000)\<rparr>"

definition sample_stream :: "datetime \<Rightarrow> private_session" where
  "sample_stream t = mark_streaming (initialize_session default_stream_client ''key'' (utc 0) (Some ''conn'') None
     (Some (utc (seconds 864000))) None) t"

lemma sample_stream_fields [simp]:
  "ses_last_message_at (sample_stream t) = Some t" "ses_expires_at (sample_stream t) = Some (utc (seconds 864000))"
  "ses_connection_id (sample_stream t) = Some ''conn''"
  by (simp_all add: sample_stream_def mark_streaming_def initialize_session_def)

lemma source_counters_sound_witness:
  "\<exists>ps src t'. polls sample_source (new_source, [ReadFailed IndexError]) ps (src, t') \<and> length ps = 1 \<and>
     ts_overdue_events (src_stats src) \<le> ts_reconnects (src_stats src)"
proof -
  have "\<exists>ps src t'. poll_private_payloads sample_source (utc 0) (new_source, [ReadFailed IndexError]) = Inr (ps, src, t') \<and>
      length ps = 1"
    by (simp add: poll_private_payloads_def new_source_def no_stats_def bootstrap_new_def bootstrap_session_def
        open_subscription_def stream_ops_of_def sample_source_def with_session_def on_stats_def current_session_def
        subscribe_def initialize_session_def check_runtime_health_def check_session_rollover_def read_next_def
        reconnect_def reconnect_session_def close_session_def default_stream_client_def seconds_def py_or_def Let_def)
  then obtain ps src t' where p: "poll_private_payloads sample_source (utc 0) (new_source, [ReadFailed IndexError])
      = Inr (ps, src, t')" "length ps = 1" by blast
  have run: "polls sample_source (new_source, [ReadFailed IndexError]) ([] @ ps) (src, t')"
    by (rule polls.poll [OF polls.start p(1)])
  with source_counters_sound [OF run, of "[]" src t'] p(2) show ?thesis by auto
qed

lemma overdue_stream_not_read_witness:
  "\<exists>src'. poll_private_payloads sample_source (utc (seconds 100)) (new_source\<lparr>src_session := Some (sample_stream (utc 0))\<rparr>,
     [ReadPayload []]) = Inr ([], src', [ReadPayload []])"
  using overdue_stream_not_read [of "new_source\<lparr>src_session := Some (sample_stream (utc 0))\<rparr>" "sample_stream (utc 0)"
      "utc 0" sample_source "utc (seconds 100)" "[ReadPayload []]"]
  by (auto simp: sample_source_def default_stream_client_def seconds_def opt_all_def grace_def)

lemma read_failure_invalidates_stream_witness:
  "\<exists>ps src' t'. poll_private_payloads sample_source (utc 0) (new_source\<lparr>src_session := Some (sample_stream (utc 0))\<rparr>,
     [ReadFailed IndexError]) = Inr (ps, src', t') \<and>
     (\<exists>b. ingest_payloads default_stream_client ps None False = Inr b \<and> pb_stream_state b = TERMINATED)"
proof -
  let ?x = "(new_source\<lparr>src_session := Some (sample_stream (utc 0))\<rparr>, [ReadFailed IndexError])"
  have h: "check_runtime_health (se_client sample_source) (sample_stream (utc 0)) (Some (utc 0)) = None"
    "check_session_rollover (se_client sample_source) (sample_stream (utc 0)) (utc 0) = None"
    "to_read (se_ops sample_source) (py_or (ses_connection_id (sample_stream (utc 0))) []) (snd ?x) = (ReadFailed IndexError, [])"
    "0 \<le> se_millis sample_source (utc 0)" "se_millis sample_source (utc 0) < 253402300800000"
    by (simp_all add: check_runtime_health_def check_session_rollover_def sample_source_def default_stream_client_def
        seconds_def)
  have "\<exists>ps src' t'. poll_private_payloads sample_source (utc 0) ?x = Inr (ps, src', t')"
    using h by (simp add: poll_private_payloads_def current_session_def read_next_def reconnect_def
        reconnect_session_def close_session_def open_subscription_def stream_ops_of_def sample_source_def Let_def)
  then obtain ps src' t' where p: "poll_private_payloads sample_source (utc 0) ?x = Inr (ps, src', t')" by blast
  have "src_session (fst ?x) = Some (sample_stream (utc 0))" by simp
  from read_failure_invalidates_stream [OF p this h] p show ?thesis by blast
qed

end
