(* ===== verification/Soak.thy ===== *)
theory Soak
  imports Runners RestrictedTransport LiveGate
begin

text \<open>
  \<open>app/monitoring/restricted_live_soak.py\<close>: the long-running rehearsal that repeats restricted-live
  cycles over a recording gate, carries the portfolio and the applied fills from cycle to cycle, collects
  transitions and evidence, and stops by its criteria. The world is the recording gate's last result
  with the environment of the injected parts. A run without a bound may not end, so the loop's value
  is an option. Writing the artifacts to files is not modelled.
\<close>

section \<open>Records\<close>

datatype soak_stop = SOAK_COMPLETED | SOAK_FATAL_HEALTH | SOAK_MANUAL_ATTENTION | SOAK_MAX_BLOCKED

fun soak_stop_value :: "soak_stop \<Rightarrow> string" where
  "soak_stop_value SOAK_COMPLETED = ''completed''"
| "soak_stop_value SOAK_FATAL_HEALTH = ''fatal_exchange_health''"
| "soak_stop_value SOAK_MANUAL_ATTENTION = ''manual_attention''"
| "soak_stop_value SOAK_MAX_BLOCKED = ''max_blocked_mutations''"

record soak_transition =
  tn_index :: nat
  tn_cycle_id :: string
  tn_recorded_at :: datetime
  tn_success :: bool
  tn_attempted :: bool
  tn_applied :: bool
  tn_blocked :: bool
  tn_reconnects :: int
  tn_refresh_attempts :: int
  tn_refresh_failures :: int
  tn_overdue_events :: int
  tn_recovery_attempts :: nat
  tn_health :: string
  tn_private_stream :: string
  tn_reconciliation :: string
  tn_clock_sync :: string
  tn_status_query :: string
  tn_alerts :: "string list"

record reconnect_event =
  rv_index :: nat
  rv_cycle_id :: string
  rv_recorded_at :: datetime
  rv_count :: int
  rv_delta :: int
  rv_reason :: "string option"

record refresh_event =
  fv_index :: nat
  fv_cycle_id :: string
  fv_recorded_at :: datetime
  fv_attempts :: int
  fv_failures :: int
  fv_delta :: int
  fv_outcome :: "string option"

record reconciliation_record =
  rn_index :: nat
  rn_cycle_id :: string
  rn_recorded_at :: datetime
  rn_attempts :: nat
  rn_trigger :: "string option"
  rn_automatic :: bool
  rn_gap :: bool
  rn_resumed :: bool
  rn_convergence :: "string option"
  rn_manual_attention :: bool
  rn_alerts :: "string list"

record account_record =
  an_index :: nat
  an_cycle_id :: string
  an_recorded_at :: datetime
  an_as_of :: datetime
  an_venue :: string
  an_scope :: string
  an_event_type :: string
  an_version :: string
  an_is_partial :: bool
  an_assets :: "string list"
  an_rows :: "asset_balance list"
  an_alerts :: "string list"

record soak_summary =
  sm_started_at :: datetime
  sm_ended_at :: datetime
  sm_total_cycles :: int
  sm_completed_cycles :: nat
  sm_blocked :: nat
  sm_stats :: transport_stats
  sm_attempts :: nat
  sm_successes :: nat
  sm_success_rate :: "rat option"
  sm_accounts :: nat
  sm_partial_accounts :: nat
  sm_full_accounts :: nat
  sm_final_health :: string
  sm_stop :: string
  sm_aborted :: bool
  sm_alerts :: "string list"

record stop_criteria =
  cr_max_cycles :: "int option"
  cr_max_duration :: "timedelta option"
  cr_poll_seconds :: rat
  cr_max_blocked :: int
  cr_abort_fatal :: bool
  cr_abort_manual :: bool

definition default_criteria :: stop_criteria where
  "default_criteria =
     \<lparr>cr_max_cycles = None, cr_max_duration = None, cr_poll_seconds = 0, cr_max_blocked = 3,
      cr_abort_fatal = True, cr_abort_manual = True\<rparr>"

section \<open>The recording gate and the health provider\<close>

type_synonym 'e soak_world = "gate_result option \<times> 'e"

type_synonym 'e detailed_gate =
  "portfolio_state \<Rightarrow> string list \<Rightarrow> string list \<Rightarrow> 'e \<Rightarrow> (gate_result \<times> 'e) result"

definition recording_gate ::
    "'e detailed_gate \<Rightarrow> portfolio_state \<Rightarrow> string list \<Rightarrow> string list \<Rightarrow> 'e soak_world
      \<Rightarrow> (mutation_outcome \<times> 'e soak_world) result" where
  "recording_gate delegate p expected already w =
     r_bind (delegate p expected already (snd w)) (\<lambda>(r, e'). Inr (gr_outcome r, (Some r, e')))"

definition current_health ::
    "string \<Rightarrow> ('e \<Rightarrow> stream_health option) \<Rightarrow> ('e \<Rightarrow> datetime \<times> 'e) \<Rightarrow> 'e soak_world
      \<Rightarrow> health_snapshot option \<times> 'e soak_world" where
  "current_health venue stream now w =
     (let tx = Option.bind (fst w) gr_transport; (t, e') = now (snd w)
      in (Some (build_snapshot venue (stream (snd w)) (map_option tx_workflow tx) None
            (case tx of None \<Rightarrow> [] | Some x \<Rightarrow> tx_query_health x) (Option.bind tx tx_snapshot) t), (fst w, e')))"

record 'e soak_runner =
  sk_context :: "'e soak_world runtime_context"
  sk_max_lag :: timedelta
  sk_health :: "'e soak_world \<Rightarrow> health_snapshot option \<times> 'e soak_world"
  sk_stats :: "'e \<Rightarrow> transport_stats"
  sk_time :: "'e \<Rightarrow> datetime \<times> 'e"
  sk_sleep :: "rat \<Rightarrow> 'e \<Rightarrow> 'e"

record soak_input =
  si_prefix :: string
  si_instrument :: instrument
  si_bars :: bar_slice
  si_context :: "bar_slice option"

section \<open>One cycle\<close>

record soak_state =
  ks_index :: nat
  ks_portfolio :: portfolio_state
  ks_already :: "string list"
  ks_blocked :: nat
  ks_attempts :: nat
  ks_successes :: nat
  ks_last_reconnects :: int
  ks_last_refreshes :: int
  ks_transitions :: "soak_transition list"
  ks_reconnects :: "reconnect_event list"
  ks_refreshes :: "refresh_event list"
  ks_reconciliations :: "reconciliation_record list"
  ks_accounts :: "account_record list"

definition soak_start :: "portfolio_state \<Rightarrow> soak_state" where
  "soak_start p =
     \<lparr>ks_index = 0, ks_portfolio = p, ks_already = [], ks_blocked = 0, ks_attempts = 0,
      ks_successes = 0, ks_last_reconnects = 0, ks_last_refreshes = 0, ks_transitions = [],
      ks_reconnects = [], ks_refreshes = [], ks_reconciliations = [], ks_accounts = []\<rparr>"

definition carried_portfolio :: "mutation_outcome option \<Rightarrow> portfolio_state \<Rightarrow> portfolio_state" where
  "carried_portfolio m p =
     (case m of None \<Rightarrow> p | Some o' \<Rightarrow> if mo_applied o' then mo_portfolio o' else p)"

definition carried_fills :: "mutation_outcome option \<Rightarrow> string list \<Rightarrow> string list" where
  "carried_fills m already =
     (case m of None \<Rightarrow> already
      | Some o' \<Rightarrow> dedup (already @ lr_applied_fill_ids (mo_translation o')
          @ lr_ignored_fill_ids (mo_translation o')))"

definition blocked_mutation :: "mutation_outcome option \<Rightarrow> bool" where
  "blocked_mutation m \<longleftrightarrow> (case m of None \<Rightarrow> False | Some o' \<Rightarrow> mo_attempted o' \<and> \<not> mo_applied o')"

definition health_text :: "(health_snapshot \<Rightarrow> health_state) \<Rightarrow> health_snapshot option \<Rightarrow> string" where
  "health_text f h = (case h of None \<Rightarrow> ''unknown'' | Some s \<Rightarrow> health_value (f s))"

definition account_records :: "nat \<Rightarrow> string \<Rightarrow> datetime \<Rightarrow> transport_result \<Rightarrow> account_record list" where
  "account_records i cid done_at tx =
     map (\<lambda>s. \<lparr>an_index = i, an_cycle_id = cid, an_recorded_at = done_at, an_as_of = acc_as_of s,
         an_venue = acc_venue s, an_scope = acc_account_scope s, an_event_type = acc_source_event_type s,
         an_version = acc_translation_version s, an_is_partial = acc_is_partial s,
         an_assets = map ab_asset (acc_balances s), an_rows = acc_balances s, an_alerts = acc_alerts s\<rparr>)
       (List.map_filter pt_account_snapshot (tx_translations tx))"

definition reconciliation_evidence ::
    "nat \<Rightarrow> string \<Rightarrow> datetime \<Rightarrow> transport_result \<Rightarrow> reconciliation_record" where
  "reconciliation_evidence i cid done_at tx =
     (let w = tx_workflow tx in
      \<lparr>rn_index = i, rn_cycle_id = cid, rn_recorded_at = done_at, rn_attempts = length (tx_query_health tx),
       rn_trigger = wr_trigger_reason w, rn_automatic = wr_automatic w, rn_gap = wr_gap_detected w,
       rn_resumed = wr_resumed w, rn_convergence = wr_convergence w,
       rn_manual_attention = (wr_convergence w = Some ''unreconciled_manual_attention''),
       rn_alerts = wr_alerts w\<rparr>)"

text \<open>What a cycle's result, the gate's last result, the health and the counters add to the run.\<close>

definition record_cycle ::
    "cycle_result \<Rightarrow> gate_result option \<Rightarrow> health_snapshot option \<Rightarrow> transport_stats \<Rightarrow> soak_state \<Rightarrow> soak_state" where
  "record_cycle c gr health st ks =
     (let m = map_option gr_outcome gr; tx = Option.bind gr gr_transport;
          i = ks_index ks + 1; cid = rc_cycle_id c; done_at = rc_completed_at c;
          was_blocked = blocked_mutation m;
          attempts = ks_attempts ks + (case tx of None \<Rightarrow> 0 | Some x \<Rightarrow> length (tx_query_health x));
          reconnect_delta = ts_reconnects st - ks_last_reconnects ks;
          refresh_delta = ts_refresh_attempts st - ks_last_refreshes ks
      in \<lparr>ks_index = i, ks_portfolio = carried_portfolio m (ks_portfolio ks),
          ks_already = carried_fills m (ks_already ks),
          ks_blocked = ks_blocked ks + (if was_blocked then 1 else 0), ks_attempts = attempts,
          ks_successes = ks_successes ks + (case tx of None \<Rightarrow> 0
            | Some x \<Rightarrow> if wr_convergence (tx_workflow x) = Some ''converged_terminal'' then 1 else 0),
          ks_last_reconnects = ts_reconnects st, ks_last_refreshes = ts_refresh_attempts st,
          ks_transitions = ks_transitions ks @
            [\<lparr>tn_index = i, tn_cycle_id = cid, tn_recorded_at = done_at, tn_success = rc_success c,
              tn_attempted = (case m of None \<Rightarrow> False | Some o' \<Rightarrow> mo_attempted o'),
              tn_applied = (case m of None \<Rightarrow> False | Some o' \<Rightarrow> mo_applied o'), tn_blocked = was_blocked,
              tn_reconnects = ts_reconnects st, tn_refresh_attempts = ts_refresh_attempts st,
              tn_refresh_failures = ts_refresh_failures st, tn_overdue_events = ts_overdue_events st,
              tn_recovery_attempts = attempts, tn_health = health_text hs_overall health,
              tn_private_stream = health_text (ch_state \<circ> hs_private_stream) health,
              tn_reconciliation = health_text (ch_state \<circ> hs_reconciliation) health,
              tn_clock_sync = health_text (ch_state \<circ> hs_clock_sync) health,
              tn_status_query = health_text (ch_state \<circ> hs_status_query) health,
              tn_alerts = rc_alerts c\<rparr>],
          ks_reconnects = ks_reconnects ks @ (if 0 < reconnect_delta then
            [\<lparr>rv_index = i, rv_cycle_id = cid, rv_recorded_at = done_at, rv_count = ts_reconnects st,
              rv_delta = reconnect_delta, rv_reason = ts_last_error st\<rparr>] else []),
          ks_refreshes = ks_refreshes ks @ (if 0 < refresh_delta then
            [\<lparr>fv_index = i, fv_cycle_id = cid, fv_recorded_at = done_at, fv_attempts = ts_refresh_attempts st,
              fv_failures = ts_refresh_failures st, fv_delta = refresh_delta,
              fv_outcome = ts_last_refresh st\<rparr>] else []),
          ks_reconciliations = ks_reconciliations ks @ (case tx of None \<Rightarrow> []
            | Some x \<Rightarrow> [reconciliation_evidence i cid done_at x]),
          ks_accounts = ks_accounts ks @ (case tx of None \<Rightarrow> [] | Some x \<Rightarrow> account_records i cid done_at x)\<rparr>)"

definition soak_cycle ::
    "'e soak_runner \<Rightarrow> soak_input \<Rightarrow> soak_state \<Rightarrow> 'e soak_world
      \<Rightarrow> ((soak_state \<times> health_snapshot option) \<times> 'e soak_world) result" where
  "soak_cycle k inp ks w =
     r_bind (restricted_live_cycle (sk_max_lag k) (sk_context k)
         (si_prefix inp @ ''-'' @ pad0 4 (ks_index ks + 1)) (si_instrument inp) (si_bars inp)
         (si_context inp) (ks_portfolio ks) [] (ks_already ks) w) (\<lambda>(c, w1).
       let (health, w2) = sk_health k w1
       in Inr ((record_cycle c (fst w1) health (sk_stats k (snd w2)) ks, health), w2))"

section \<open>The run\<close>

definition abort_reason :: "stop_criteria \<Rightarrow> health_snapshot option \<Rightarrow> nat \<Rightarrow> soak_stop option" where
  "abort_reason cr health blocks =
     (if cr_abort_fatal cr \<and> health_text hs_overall health = ''fatal'' then Some SOAK_FATAL_HEALTH
      else if cr_abort_manual cr \<and> health_text (ch_state \<circ> hs_reconciliation) health = ''fatal''
      then Some SOAK_MANUAL_ATTENTION
      else if cr_max_blocked cr \<le> int blocks then Some SOAK_MAX_BLOCKED else None)"

definition past_deadline ::
    "'e soak_runner \<Rightarrow> datetime option \<Rightarrow> 'e soak_world \<Rightarrow> bool \<times> 'e soak_world" where
  "past_deadline k deadline w =
     (case deadline of None \<Rightarrow> (False, w)
      | Some d \<Rightarrow> (let (t, e') = sk_time k (snd w) in (dt_le d t, (fst w, e'))))"

text \<open>The pause between cycles; the flag says that the deadline left no time for it.\<close>

definition pause ::
    "'e soak_runner \<Rightarrow> stop_criteria \<Rightarrow> datetime option \<Rightarrow> 'e soak_world \<Rightarrow> bool \<times> 'e soak_world" where
  "pause k cr deadline w =
     (if cr_poll_seconds cr \<le> 0 then (False, w)
      else case deadline of
        None \<Rightarrow> (False, (fst w, sk_sleep k (cr_poll_seconds cr) (snd w)))
      | Some d \<Rightarrow>
          (let (t, e') = sk_time k (snd w); remaining = of_int (dt_diff d t) / 1000000
           in if remaining \<le> 0 then (True, (fst w, e'))
              else (False, (fst w, sk_sleep k (min (cr_poll_seconds cr) remaining) e'))))"

partial_function (option) soak_loop ::
    "'e soak_runner \<Rightarrow> stop_criteria \<Rightarrow> soak_input \<Rightarrow> datetime option \<Rightarrow> soak_state \<Rightarrow> 'e soak_world
      \<Rightarrow> ((soak_state \<times> soak_stop) \<times> 'e soak_world) result option" where
  "soak_loop k cr inp deadline ks w =
     (if (case cr_max_cycles cr of None \<Rightarrow> False | Some n \<Rightarrow> n \<le> int (ks_index ks))
      then Some (Inr ((ks, SOAK_COMPLETED), w))
      else case past_deadline k deadline w of (late, w1) \<Rightarrow>
        if late then Some (Inr ((ks, SOAK_COMPLETED), w1))
        else case soak_cycle k inp ks w1 of
               Inl e \<Rightarrow> Some (Inl e)
             | Inr ((ks', health), w2) \<Rightarrow>
                 (case abort_reason cr health (ks_blocked ks') of
                    Some reason \<Rightarrow> Some (Inr ((ks', reason), w2))
                  | None \<Rightarrow>
                      (case past_deadline k deadline w2 of (late', w3) \<Rightarrow>
                         if late' then Some (Inr ((ks', SOAK_COMPLETED), w3))
                         else case pause k cr deadline w3 of (over, w4) \<Rightarrow>
                           if over then Some (Inr ((ks', SOAK_COMPLETED), w4))
                           else soak_loop k cr inp deadline ks' w4)))"

definition summarise :: "stop_criteria \<Rightarrow> datetime \<Rightarrow> transport_stats \<Rightarrow> soak_state \<Rightarrow> soak_stop \<Rightarrow> soak_summary" where
  "summarise cr started st ks reason =
     (let ts = ks_transitions ks; n = length (filter (\<lambda>r. 0 < rn_attempts r) (ks_reconciliations ks)) in
      \<lparr>sm_started_at = started, sm_ended_at = (if ts = [] then started else tn_recorded_at (last ts)),
       sm_total_cycles = (case cr_max_cycles cr of Some m \<Rightarrow> if m \<noteq> 0 then m else int (length ts)
         | None \<Rightarrow> int (length ts)),
       sm_completed_cycles = length ts, sm_blocked = ks_blocked ks, sm_stats = st,
       sm_attempts = ks_attempts ks, sm_successes = ks_successes ks,
       sm_success_rate = (if n = 0 then None else Some (of_nat (ks_successes ks) / of_nat n)),
       sm_accounts = length (ks_accounts ks),
       sm_partial_accounts = length (filter an_is_partial (ks_accounts ks)),
       sm_full_accounts = length (filter (\<lambda>r. \<not> an_is_partial r) (ks_accounts ks)),
       sm_final_health = (if ts = [] then ''unknown'' else tn_health (last ts)),
       sm_stop = soak_stop_value reason, sm_aborted = (reason \<noteq> SOAK_COMPLETED),
       sm_alerts = concat (map tn_alerts ts)\<rparr>)"

definition soak_run ::
    "'e soak_runner \<Rightarrow> stop_criteria \<Rightarrow> soak_input \<Rightarrow> portfolio_state \<Rightarrow> 'e soak_world
      \<Rightarrow> ((soak_summary \<times> soak_state) \<times> 'e soak_world) result option" where
  "soak_run k cr inp p w =
     (let (started, e') = sk_time k (snd w); deadline = map_option (dt_add started) (cr_max_duration cr)
      in map_option (\<lambda>r. r_bind r (\<lambda>((ks, reason), w').
           Inr ((summarise cr started (sk_stats k (snd w')) ks reason, ks), w')))
         (soak_loop k cr inp deadline (soak_start p) (fst w, e')))"

section \<open>The gate of a soak\<close>

text \<open>What the soak needs of the gate it records: no fill twice, and nothing without an applied mutation.\<close>

locale once_gate =
  fixes delegate :: "'e detailed_gate"
  assumes applies_once: "delegate p expected already e = Inr (r, e') \<Longrightarrow>
      distinct (lr_applied_fill_ids (mo_translation (gr_outcome r))) \<and>
      set (lr_applied_fill_ids (mo_translation (gr_outcome r))) \<inter> set already = {}"
    and unapplied_keeps: "delegate p expected already e = Inr (r, e') \<Longrightarrow> \<not> mo_applied (gr_outcome r) \<Longrightarrow>
      mo_portfolio (gr_outcome r) = p \<and> lr_applied_fill_ids (mo_translation (gr_outcome r)) = []"

text \<open>
  The Binance gate polled from a payload source: the gate's session and clock may depend on the source,
  and the reconciliation state is threaded through.
\<close>

definition live_delegate ::
    "('x \<Rightarrow> gate) \<Rightarrow> 't lookup_ops \<Rightarrow> 's store_ops option \<Rightarrow> ('x \<Rightarrow> (payload list \<times> 'x) result)
      \<Rightarrow> (('t, 's) recon_state \<times> 'x) detailed_gate" where
  "live_delegate ga ops store poll p expected already e =
     r_bind (poll (snd e)) (\<lambda>(payloads, x).
     r_bind (apply_with_details (ga x) ops store p expected already payloads (fst e)) (\<lambda>(r, ts).
       Inr (r, (ts, x))))"

lemma live_delegate_Inr:
  assumes "live_delegate ga ops store poll p expected already e = Inr (r, e')"
  obtains payloads x ts where "poll (snd e) = Inr (payloads, x)" and "e' = (ts, x)"
    and "apply_with_details (ga x) ops store p expected already payloads (fst e) = Inr (r, ts)"
  using assms by (auto simp: live_delegate_def r_bind_Inr)

interpretation live: once_gate "live_delegate ga ops store poll" for ga ops store poll
proof unfold_locales
  fix p :: portfolio_state and expected already e r e'
  assume d: "live_delegate ga ops store poll p expected already e = Inr (r, e')"
  then obtain payloads x ts where g: "apply_with_details (ga x) ops store p expected already payloads (fst e) = Inr (r, ts)"
    by (rule live_delegate_Inr)
  show "distinct (lr_applied_fill_ids (mo_translation (gr_outcome r))) \<and>
      set (lr_applied_fill_ids (mo_translation (gr_outcome r))) \<inter> set already = {}"
    by (rule gate_applies_once [OF g])
  show "mo_portfolio (gr_outcome r) = p \<and> lr_applied_fill_ids (mo_translation (gr_outcome r)) = []"
    if "\<not> mo_applied (gr_outcome r)"
    using unapplied_keeps_portfolio [OF g that] by simp
qed

text \<open>The gates asked in a run, in order, from the first portfolio on, with the fills each applied.\<close>

inductive gate_chain :: "'e detailed_gate \<Rightarrow> portfolio_state \<Rightarrow> string list list \<Rightarrow> portfolio_state \<Rightarrow> string list \<Rightarrow> bool"
  for delegate p0 where
  chain_start: "gate_chain delegate p0 [] p0 []"
| chain_gate: "gate_chain delegate p0 idss p already \<Longrightarrow> delegate p [] already e = Inr (r, e') \<Longrightarrow>
    gate_chain delegate p0 (idss @ [lr_applied_fill_ids (mo_translation (gr_outcome r))])
      (carried_portfolio (Some (gr_outcome r)) p) (carried_fills (Some (gr_outcome r)) already)"

lemma carried_fills_Some [simp]:
  "set (carried_fills (Some o') already) = set already \<union> set (lr_applied_fill_ids (mo_translation o'))
     \<union> set (lr_ignored_fill_ids (mo_translation o'))"
  by (auto simp: carried_fills_def)

context once_gate
begin

lemma chain_applies_once:
  assumes "gate_chain delegate p0 idss p already"
  shows "distinct (concat idss) \<and> set (concat idss) \<subseteq> set already"
  using assms
proof (induction rule: gate_chain.induct)
  case chain_start
  show ?case by simp
next
  case (chain_gate idss p already e r e')
  show ?case using chain_gate.IH applies_once [OF chain_gate.hyps(2)] by auto
qed

end

section \<open>Reachable states\<close>

text \<open>
  The parts of a runner wired to one recording gate: nothing but the gate writes the last result.
\<close>

definition wired :: "'e detailed_gate \<Rightarrow> 'e soak_runner \<Rightarrow> bool" where
  "wired delegate k \<longleftrightarrow>
     (let cx = sk_context k in
      cx_gate cx = Some (recording_gate delegate) \<and> (\<forall>w. fst (snd (cx_now cx w)) = fst w) \<and>
      (\<forall>r f c h w w'. cx_persist cx r f c h w = Inr w' \<longrightarrow> fst w' = fst w) \<and>
      (\<forall>f w. cx_health cx = Some f \<longrightarrow> fst (snd (f w)) = fst w) \<and>
      (\<forall>w. fst (snd (sk_health k w)) = fst w))"

lemma wired_now: "wired d k \<Longrightarrow> cx_now (sk_context k) w = (t, w') \<Longrightarrow> fst w' = fst w"
  by (metis wired_def snd_conv)

lemma wired_exchange_health:
  assumes "wired d k" and "exchange_health (sk_context k) w = (h, w')"
  shows "fst w' = fst w"
proof (cases "cx_health (sk_context k)")
  case None
  then show ?thesis
    using assms(2) by (auto simp: exchange_health_def current_or_unknown_def Let_def
        split: if_splits prod.splits dest: wired_now [OF assms(1)])
next
  case (Some f)
  have f: "fst w2 = fst w1" if "f w1 = (s, w2)" for s w1 w2 using assms(1) Some that by (metis wired_def snd_conv)
  obtain s w1 where s: "f w = (s, w1)" by (cases "f w")
  have "w' = w1 \<or> (\<exists>t. cx_now (sk_context k) w1 = (t, w'))"
    using assms(2) Some s by (cases s) (auto simp: exchange_health_def current_or_unknown_def Let_def
        split: if_splits prod.splits)
  then show ?thesis using f [OF s] wired_now [OF assms(1)] by fastforce
qed

lemma wired_persist:
  assumes "wired d k" and "persist (sk_context k) r f dc w = Inr (r', w')"
  shows "fst w' = fst w"
proof -
  obtain h w1 where h: "exchange_health (sk_context k) w = (h, w1)" by (cases "exchange_health (sk_context k) w")
  have "cx_persist (sk_context k) r f dc h w1 = Inr w'" using assms(2) h by (auto simp: persist_def r_bind_Inr)
  then have "fst w' = fst w1" using assms(1) by (metis wired_def)
  with wired_exchange_health [OF assms(1) h] show ?thesis by simp
qed

text \<open>A cycle leaves the last result alone or replaces it by the gate's answer to its portfolio and fills.\<close>

lemma cycle_gate:
  assumes w: "wired d k"
    and c: "restricted_live_cycle lag (sk_context k) cid instr b ctx p expected already w = Inr (c, w')"
  shows "fst w' = fst w \<or> (\<exists>e r e'. d p expected already e = Inr (r, e') \<and> fst w' = Some r)"
  using c
proof (cases rule: restricted_live_cases)
  case (invalid started w1)
  obtain t w2 where "cx_now (sk_context k) w1 = (t, w2)" by (cases "cx_now (sk_context k) w1")
  with invalid(3) have "fst w' = fst w1" by (auto simp: invalid_bar_cycle_def r_bind_Inr dest: wired_now [OF w])
  with wired_now [OF w invalid(1)] show ?thesis by simp
next
  case (closed started w1 features dc)
  obtain t w2 where n: "cx_now (sk_context k) w1 = (t, w2)" by (cases "cx_now (sk_context k) w1")
  with closed(6) have "fst w' = fst w2"
    by (auto simp: fail_closed_cycle_def r_bind_Inr dest: wired_persist [OF w])
  with wired_now [OF w closed(1)] wired_now [OF w n] show ?thesis by simp
next
  case (prepared started w1 features dc)
  let ?q = "evaluate_quality lag (cx_mode (sk_context k)) (sk_context k) dc ctx"
  obtain signals decisions intents where 1: "cx_strategy (sk_context k) dc = Inr signals"
    "cx_risk (sk_context k) signals p (cx_venue_profile (sk_context k)) = Inr decisions"
    "prepare_intents cid (py_or (cx_execution_venue (sk_context k)) []) instr (bs_end_time b) decisions = Inr intents"
    using prepared(6) unfolding prepared_cycle_def by (auto simp: r_bind_Inr)
  obtain events alerts ok w2 where 2: "consult_gate (sk_context k) p expected already w1 = Inr ((events, alerts, ok), w2)"
    using prepared(6) unfolding prepared_cycle_def 1 r_bind_simps by (auto simp: r_bind_Inr)
  obtain t w3 where 3: "cx_now (sk_context k) w2 = (t, w3)" by (cases "cx_now (sk_context k) w2")
  have "fst w' = fst w3"
    using prepared(6) unfolding prepared_cycle_def 1 r_bind_simps 2 prod.case 3 Let_def r_bind_Inr
    by (auto simp del: dedup.simps dest: wired_persist [OF w])
  with wired_now [OF w 3] have same: "fst w' = fst w2" by simp
  have g: "cx_gate (sk_context k) = Some (recording_gate d)" using w by (metis wired_def)
  obtain o' where "recording_gate d p expected already w1 = Inr (o', w2)"
    using 2 g by (rule consult_gate_Inr)
  then obtain r e' where "d p expected already (snd w1) = Inr (r, e')" "fst w2 = Some r"
    by (auto simp: recording_gate_def r_bind_Inr)
  with same show ?thesis by auto
qed

text \<open>
  The states a run reaches: a state with the gate's last result, whatever happens to the environment
  between the cycles.
\<close>

inductive soak_reaches ::
    "'e soak_runner \<Rightarrow> soak_input \<Rightarrow> soak_state \<times> gate_result option \<Rightarrow> soak_state \<times> gate_result option \<Rightarrow> bool"
  for k inp x where
  reach_start: "soak_reaches k inp x x"
| reach_cycle: "soak_reaches k inp x (ks, g) \<Longrightarrow> soak_cycle k inp ks (g, e) = Inr ((ks', h), (g', e')) \<Longrightarrow>
    soak_reaches k inp x (ks', g')"

lemma reaches_front:
  assumes "soak_reaches k inp (ks', g') y" and "soak_cycle k inp ks (g, e) = Inr ((ks', h), (g', e'))"
  shows "soak_reaches k inp (ks, g) y"
  using assms(1)
proof (induction rule: soak_reaches.induct)
  case reach_start
  show ?case using soak_reaches.reach_cycle [OF soak_reaches.reach_start assms(2)] .
next
  case (reach_cycle ks1 g1 e1 ks2 h2 g2 e2)
  show ?case by (rule soak_reaches.reach_cycle [OF reach_cycle.IH reach_cycle.hyps(2)])
qed

lemma past_deadline_keeps [simp]: "past_deadline k d w = (b, w') \<Longrightarrow> fst w' = fst w"
  by (auto simp: past_deadline_def Let_def split: option.splits prod.splits)

lemma pause_keeps [simp]: "pause k cr d w = (b, w') \<Longrightarrow> fst w' = fst w"
  by (auto simp: pause_def Let_def split: option.splits prod.splits if_splits)

text \<open>How a run ends: at the bound or the deadline, or after a cycle that a stop criterion ends.\<close>

definition ends_at ::
    "'e soak_runner \<Rightarrow> stop_criteria \<Rightarrow> soak_input \<Rightarrow> soak_state \<times> gate_result option \<Rightarrow> soak_state \<Rightarrow> soak_stop \<Rightarrow> bool" where
  "ends_at k cr inp x ks reason \<longleftrightarrow>
     (\<exists>g. soak_reaches k inp x (ks, g)) \<and>
     (reason = SOAK_COMPLETED \<or>
      (\<exists>ks0 g0 g e h e'. soak_reaches k inp x (ks0, g0) \<and>
         soak_cycle k inp ks0 (g0, e) = Inr ((ks, h), (g, e')) \<and> abort_reason cr h (ks_blocked ks) = Some reason))"

lemma ends_at_front:
  assumes "ends_at k cr inp (ks', g') ks1 reason" and "soak_cycle k inp ks (g, e) = Inr ((ks', h), (g', e'))"
  shows "ends_at k cr inp (ks, g) ks1 reason"
  using assms(1) reaches_front [OF _ assms(2)] unfolding ends_at_def by blast

lemma soak_loop_ends:
  fixes k :: "'e soak_runner"
  assumes "soak_loop k cr inp deadline ks w = Some (Inr ((ks1, reason), w1))"
  shows "ends_at k cr inp (ks, fst w) ks1 reason"
proof -
  let ?P = "\<lambda>(k :: 'e soak_runner) cr inp (deadline :: datetime option) ks (w :: 'e soak_world) r. \<forall>ks1 reason (w1 :: 'e soak_world). r = Inr ((ks1, reason), w1) \<longrightarrow>
    ends_at k cr inp (ks, fst w) ks1 reason"
  have step: "ends_at k cr inp (ks, fst w) ks1 reason"
    if IH: "\<And>k cr inp deadline ks w r ks1 reason w1. f k cr inp deadline ks w = Some r \<Longrightarrow>
        r = Inr ((ks1, reason), w1) \<Longrightarrow> ends_at k cr inp (ks, fst w) ks1 reason"
      and run: "(if (case cr_max_cycles cr of None \<Rightarrow> False | Some n \<Rightarrow> n \<le> int (ks_index ks))
        then Some (Inr ((ks, SOAK_COMPLETED), w))
        else case past_deadline k deadline w of (late, w1) \<Rightarrow>
          if late then Some (Inr ((ks, SOAK_COMPLETED), w1))
          else case soak_cycle k inp ks w1 of
                 Inl e \<Rightarrow> Some (Inl e)
               | Inr ((ks', health), w2) \<Rightarrow>
                   (case abort_reason cr health (ks_blocked ks') of
                      Some reason \<Rightarrow> Some (Inr ((ks', reason), w2))
                    | None \<Rightarrow>
                        (case past_deadline k deadline w2 of (late', w3) \<Rightarrow>
                           if late' then Some (Inr ((ks', SOAK_COMPLETED), w3))
                           else case pause k cr deadline w3 of (over, w4) \<Rightarrow>
                             if over then Some (Inr ((ks', SOAK_COMPLETED), w4))
                             else f k cr inp deadline ks' w4))) = Some r"
      and r: "r = Inr ((ks1, reason), wr)"
    for f k cr inp deadline ks reason ks1 and w wr :: "'e soak_world" and r
  proof -
    have stay: "ends_at k cr inp (ks, g) ks SOAK_COMPLETED" for g
      by (auto simp: ends_at_def intro: soak_reaches.reach_start)
    obtain late w1 where 1: "past_deadline k deadline w = (late, w1)" by (cases "past_deadline k deadline w")
    show ?thesis
    proof (cases "(case cr_max_cycles cr of None \<Rightarrow> False | Some n \<Rightarrow> n \<le> int (ks_index ks)) \<or> late \<or>
        (\<exists>e. soak_cycle k inp ks w1 = Inl e)")
      case True
      with run r 1 stay show ?thesis by (auto split: if_splits)
    next
      case False
      then obtain ks' h w2 where c: "soak_cycle k inp ks w1 = Inr ((ks', h), w2)"
        by (cases "soak_cycle k inp ks w1") auto
      have w1: "fst w1 = fst w" by (rule past_deadline_keeps [OF 1])
      have c': "soak_cycle k inp ks (fst w, snd w1) = Inr ((ks', h), (fst w2, snd w2))" by (simp add: c flip: w1)
      obtain late' w3 where 3: "past_deadline k deadline w2 = (late', w3)" by (cases "past_deadline k deadline w2")
      obtain over w4 where 4: "pause k cr deadline w3 = (over, w4)" by (cases "pause k cr deadline w3")
      have w4: "fst w4 = fst w2" using past_deadline_keeps [OF 3] pause_keeps [OF 4] by simp
      have one: "soak_reaches k inp (ks, fst w) (ks', fst w2)"
        by (rule soak_reaches.reach_cycle [OF soak_reaches.reach_start c'])
      show ?thesis
      proof (cases "abort_reason cr h (ks_blocked ks')")
        case (Some why)
        have "ends_at k cr inp (ks, fst w) ks' why"
          unfolding ends_at_def using one c' Some soak_reaches.reach_start by metis
        then show ?thesis using run r False 1 c Some by auto
      next
        case None
        have done': "ends_at k cr inp (ks, fst w) ks' SOAK_COMPLETED" unfolding ends_at_def using one by blast
        have "r = Inr ((ks', SOAK_COMPLETED), w3) \<or> r = Inr ((ks', SOAK_COMPLETED), w4) \<or>
            f k cr inp deadline ks' w4 = Some r"
          using run False 1 3 4 c None by (auto split: if_splits)
        then show ?thesis using r done' IH [of k cr inp deadline ks' w4 r ks1 reason wr] ends_at_front [OF _ c'] w4 by auto
      qed
    qed
  qed
  note ind = soak_loop.raw_induct [where P = ?P, of k cr inp deadline ks w "Inr ((ks1, reason), w1)", OF _ assms, rule_format]
  show ?thesis by (rule ind [OF _ refl]) (rule step; assumption)
qed

section \<open>Facts: what a run carries\<close>

lemma record_cycle_fields:
  "ks_portfolio (record_cycle c g h st ks) = carried_portfolio (map_option gr_outcome g) (ks_portfolio ks)"
  "ks_already (record_cycle c g h st ks) = carried_fills (map_option gr_outcome g) (ks_already ks)"
  "ks_index (record_cycle c g h st ks) = ks_index ks + 1"
  "ks_last_reconnects (record_cycle c g h st ks) = ts_reconnects st"
  "ks_blocked (record_cycle c g h st ks)
     = ks_blocked ks + (if blocked_mutation (map_option gr_outcome g) then 1 else 0)"
  by (simp_all add: record_cycle_def Let_def)

lemma record_cycle_transition:
  "\<exists>t. ks_transitions (record_cycle c g h st ks) = ks_transitions ks @ [t] \<and> tn_index t = ks_index ks + 1 \<and>
     tn_blocked t = blocked_mutation (map_option gr_outcome g) \<and> tn_reconnects t = ts_reconnects st \<and>
     tn_health t = health_text hs_overall h \<and> tn_reconciliation t = health_text (ch_state \<circ> hs_reconciliation) h"
  by (simp add: record_cycle_def Let_def)

lemma record_cycle_reconnects:
  "map rv_delta (ks_reconnects (record_cycle c g h st ks)) = map rv_delta (ks_reconnects ks) @
     (if 0 < ts_reconnects st - ks_last_reconnects ks then [ts_reconnects st - ks_last_reconnects ks] else [])"
  by (simp add: record_cycle_def Let_def)

lemma soak_cycle_Inr:
  assumes "soak_cycle k inp ks w = Inr ((ks', h), w')"
  obtains c w1 st where "restricted_live_cycle (sk_max_lag k) (sk_context k)
         (si_prefix inp @ ''-'' @ pad0 4 (ks_index ks + 1)) (si_instrument inp) (si_bars inp)
         (si_context inp) (ks_portfolio ks) [] (ks_already ks) w = Inr (c, w1)"
    and "sk_health k w1 = (h, w')" and "ks' = record_cycle c (fst w1) h st ks"
proof -
  obtain c w1 where c: "restricted_live_cycle (sk_max_lag k) (sk_context k)
         (si_prefix inp @ ''-'' @ pad0 4 (ks_index ks + 1)) (si_instrument inp) (si_bars inp)
         (si_context inp) (ks_portfolio ks) [] (ks_already ks) w = Inr (c, w1)"
    and rest: "(let (health, w2) = sk_health k w1
       in Inr ((record_cycle c (fst w1) health (sk_stats k (snd w2)) ks, health), w2)) = Inr ((ks', h), w')"
    using assms unfolding soak_cycle_def r_bind_Inr by (elim exE conjE) (auto split: prod.splits)
  obtain h2 w2 where h2: "sk_health k w1 = (h2, w2)" by (cases "sk_health k w1")
  show thesis by (rule that [OF c]) (use rest h2 in auto)
qed

text \<open>A gate result whose effect the state already has.\<close>

definition absorbed :: "gate_result \<Rightarrow> soak_state \<Rightarrow> bool" where
  "absorbed r ks \<longleftrightarrow>
     set (lr_applied_fill_ids (mo_translation (gr_outcome r))) \<union>
     set (lr_ignored_fill_ids (mo_translation (gr_outcome r))) \<subseteq> set (ks_already ks) \<and>
     (mo_applied (gr_outcome r) \<longrightarrow> mo_portfolio (gr_outcome r) = ks_portfolio ks)"

lemma dedup_absorb: "distinct xs \<Longrightarrow> set ys \<subseteq> set xs \<Longrightarrow> dedup (xs @ ys) = xs"
  by (induction ys rule: rev_induct) (simp_all add: dedup_snoc dedup_distinct flip: append_assoc)

text \<open>A cycle asks the gate at most once, and a stale result changes nothing.\<close>

lemma soak_cycle_gate:
  assumes "wired d k" and "soak_cycle k inp ks (g, e) = Inr ((ks', h), (g', e'))"
    and "distinct (ks_already ks)" and "\<forall>r. g = Some r \<longrightarrow> absorbed r ks"
  obtains "g' = g" and "ks_portfolio ks' = ks_portfolio ks" and "ks_already ks' = ks_already ks"
  | e1 r e2 where "d (ks_portfolio ks) [] (ks_already ks) e1 = Inr (r, e2)" and "g' = Some r"
      and "ks_portfolio ks' = carried_portfolio (Some (gr_outcome r)) (ks_portfolio ks)"
      and "ks_already ks' = carried_fills (Some (gr_outcome r)) (ks_already ks)"
proof -
  obtain c w1 st where c: "restricted_live_cycle (sk_max_lag k) (sk_context k)
         (si_prefix inp @ ''-'' @ pad0 4 (ks_index ks + 1)) (si_instrument inp) (si_bars inp)
         (si_context inp) (ks_portfolio ks) [] (ks_already ks) (g, e) = Inr (c, w1)"
    and h: "sk_health k w1 = (h, (g', e'))" and ks': "ks' = record_cycle c (fst w1) h st ks"
    using assms(2) by (rule soak_cycle_Inr)
  have g': "g' = fst w1" using assms(1) h by (metis wired_def fst_conv snd_conv)
  from cycle_gate [OF assms(1) c] show thesis
  proof
    assume "fst w1 = fst (g, e)"
    then have stale: "g' = g" using g' by simp
    show thesis
    proof (cases g)
      case None
      then show thesis using that(1) stale ks' g'
        by (simp add: record_cycle_fields carried_portfolio_def carried_fills_def)
    next
      case (Some r)
      then have a: "absorbed r ks" using assms(4) by blast
      have "carried_fills (Some (gr_outcome r)) (ks_already ks) = ks_already ks"
        using a assms(3) by (auto simp: carried_fills_def absorbed_def intro!: dedup_absorb)
      then show thesis using that(1) stale ks' g' a Some
        by (auto simp: record_cycle_fields carried_portfolio_def absorbed_def)
    qed
  next
    assume "\<exists>e r e'. d (ks_portfolio ks) [] (ks_already ks) e = Inr (r, e') \<and> fst w1 = Some r"
    then show thesis using that(2) ks' g' by (auto simp: record_cycle_fields)
  qed
qed

lemma reaches_chain:
  assumes "soak_reaches k inp (soak_start p, None) y" and "wired d k"
  shows "(\<exists>idss. gate_chain d p idss (ks_portfolio (fst y)) (ks_already (fst y))) \<and>
    distinct (ks_already (fst y)) \<and> (\<forall>r. snd y = Some r \<longrightarrow> absorbed r (fst y))"
  using assms(1)
proof (induction rule: soak_reaches.induct)
  case reach_start
  show ?case by (auto simp: soak_start_def intro: gate_chain.chain_start)
next
  case (reach_cycle ks g e ks' h g' e')
  then have ih: "\<exists>idss. gate_chain d p idss (ks_portfolio ks) (ks_already ks)" "distinct (ks_already ks)"
    "\<forall>r. g = Some r \<longrightarrow> absorbed r ks" by auto
  show ?case
  proof (cases rule: soak_cycle_gate [OF assms(2) reach_cycle.hyps(2) ih(2,3)])
    case 1
    with ih show ?thesis by (auto simp: absorbed_def)
  next
    case (2 e1 r e2)
    obtain idss where "gate_chain d p idss (ks_portfolio ks) (ks_already ks)" using ih(1) by blast
    note gate_chain.chain_gate [OF this 2(1)]
    moreover have "distinct (carried_fills (Some (gr_outcome r)) (ks_already ks))" by (simp add: carried_fills_def)
    ultimately show ?thesis using 2 by (auto simp: absorbed_def carried_portfolio_def)
  qed
qed

lemma soak_loop_total:
  assumes "cr_max_cycles cr = Some n"
  shows "\<exists>r. soak_loop k cr inp deadline ks w = Some r \<and>
    (\<forall>ks1 reason w1. r = Inr ((ks1, reason), w1) \<longrightarrow> int (ks_index ks1) \<le> max n (int (ks_index ks)))"
proof (induction "nat (n - int (ks_index ks))" arbitrary: ks w rule: less_induct)
  case less
  obtain late w1 where 1: "past_deadline k deadline w = (late, w1)" by (cases "past_deadline k deadline w")
  show ?case
  proof (cases "n \<le> int (ks_index ks) \<or> late \<or> (\<exists>e. soak_cycle k inp ks w1 = Inl e)")
    case True
    then show ?thesis using assms 1 by (subst soak_loop.simps) auto
  next
    case False
    then obtain ks' h w2 where c: "soak_cycle k inp ks w1 = Inr ((ks', h), w2)"
      by (cases "soak_cycle k inp ks w1") auto
    then have i: "ks_index ks' = ks_index ks + 1" by (rule soak_cycle_Inr) (simp add: record_cycle_fields)
    obtain late' w3 where 3: "past_deadline k deadline w2 = (late', w3)" by (cases "past_deadline k deadline w2")
    obtain over w4 where 4: "pause k cr deadline w3 = (over, w4)" by (cases "pause k cr deadline w3")
    obtain r where "soak_loop k cr inp deadline ks' w4 = Some r"
      "\<forall>ks1 reason w1. r = Inr ((ks1, reason), w1) \<longrightarrow> int (ks_index ks1) \<le> max n (int (ks_index ks'))"
      using less.hyps [of ks' w4] i False by auto
    then show ?thesis using assms False 1 c 3 4 i
      by (subst soak_loop.simps) (auto split: option.splits)
  qed
qed

text \<open>Counters, indices and evidence agree in every reachable state.\<close>

fun deltas :: "int \<Rightarrow> int list \<Rightarrow> int list" where
  "deltas a [] = []"
| "deltas a (b # bs) = (if 0 < b - a then [b - a] else []) @ deltas b bs"

lemma deltas_append: "deltas a (xs @ [b]) = deltas a xs @ (if 0 < b - last (a # xs) then [b - last (a # xs)] else [])"
  by (induction xs arbitrary: a) auto

lemma deltas_sum: "sorted (a # bs) \<Longrightarrow> sum_list (deltas a bs) = last (a # bs) - a"
proof (induction bs arbitrary: a)
  case (Cons b bs)
  then show ?case by (cases bs) auto
qed simp

definition consistent :: "soak_state \<Rightarrow> bool" where
  "consistent ks \<longleftrightarrow>
     ks_index ks = length (ks_transitions ks) \<and> map tn_index (ks_transitions ks) = [1..<length (ks_transitions ks) + 1] \<and>
     ks_blocked ks = length (filter tn_blocked (ks_transitions ks)) \<and>
     ks_last_reconnects ks = last (0 # map tn_reconnects (ks_transitions ks)) \<and>
     map rv_delta (ks_reconnects ks) = deltas 0 (map tn_reconnects (ks_transitions ks))"

lemma consistent_start: "consistent (soak_start p)"
  by (simp add: consistent_def soak_start_def)

lemma consistent_record:
  assumes "consistent ks"
  shows "consistent (record_cycle c g h st ks)"
proof -
  obtain t where t: "ks_transitions (record_cycle c g h st ks) = ks_transitions ks @ [t]" "tn_index t = ks_index ks + 1"
    "tn_blocked t = blocked_mutation (map_option gr_outcome g)" "tn_reconnects t = ts_reconnects st"
    using record_cycle_transition by blast
  show ?thesis using assms t
    by (auto simp: consistent_def record_cycle_fields record_cycle_reconnects deltas_append)
qed

lemma reaches_consistent:
  assumes "soak_reaches k inp x y" and "consistent (fst x)"
  shows "consistent (fst y)"
  using assms
proof (induction rule: soak_reaches.induct)
  case (reach_cycle ks g e ks' h g' e')
  from reach_cycle.hyps(2) show ?case
    by (rule soak_cycle_Inr) (use reach_cycle consistent_record in auto)
qed simp

lemma soak_run_Inr:
  assumes "soak_run k cr inp p w = Some (Inr ((sm, ks), w'))"
  obtains started reason st where "ends_at k cr inp (soak_start p, fst w) ks reason"
    and "sm = summarise cr started st ks reason"
proof -
  obtain started e' where t: "sk_time k (snd w) = (started, e')" by (cases "sk_time k (snd w)")
  obtain r where r: "soak_loop k cr inp (map_option (dt_add started) (cr_max_duration cr)) (soak_start p) (fst w, e') = Some r"
    "r_bind r (\<lambda>((ks, reason), w'). Inr ((summarise cr started (sk_stats k (snd w')) ks reason, ks), w')) = Inr ((sm, ks), w')"
    using assms by (auto simp: soak_run_def t)
  obtain reason where "r = Inr ((ks, reason), w')" "sm = summarise cr started (sk_stats k (snd w')) ks reason"
    using r(2) by (cases r) auto
  with r(1) soak_loop_ends show thesis by (intro that [of reason]) fastforce+
qed

text \<open>Whatever the recorder holds was answered by the gate.\<close>

lemma reaches_asked:
  assumes "soak_reaches k inp (soak_start p, None) y" and "wired d k" and "snd y = Some r"
  shows "\<exists>q al e e'. d q [] al e = Inr (r, e')"
  using assms(1,3)
proof (induction arbitrary: r rule: soak_reaches.induct)
  case (reach_cycle ks g e ks' h g' e')
  have c: "distinct (ks_already ks)" "\<forall>r. g = Some r \<longrightarrow> absorbed r ks"
    using reaches_chain [OF reach_cycle.hyps(1) assms(2)] by auto
  from assms(2) reach_cycle.hyps(2) c show ?case
    by (rule soak_cycle_gate) (use reach_cycle in auto)
qed simp

section \<open>Properties\<close>

text \<open>
  C3. A soak is a chain of gate applications that applies no fill twice: over the live gate and a fresh
  recorder, the final portfolio of any run is reached by asking the gate with the portfolio and the fill
  ids carried so far, one answer after the other, and all applied fill ids of the run are different.
\<close>

theorem soak_applies_each_fill_once:
  assumes "soak_run k cr inp p (None, e) = Some (Inr ((sm, ks), w'))"
    and "wired (live_delegate ga ops store poll) k"
  shows "\<exists>idss. gate_chain (live_delegate ga ops store poll) p idss (ks_portfolio ks) (ks_already ks) \<and>
    distinct (concat idss) \<and> set (concat idss) \<subseteq> set (ks_already ks)"
proof -
  obtain started reason st where "ends_at k cr inp (soak_start p, fst (None :: gate_result option, e)) ks reason"
    using assms(1) by (rule soak_run_Inr)
  then obtain g where "soak_reaches k inp (soak_start p, None) (ks, g)" by (auto simp: ends_at_def)
  from reaches_chain [OF this assms(2)] live.chain_applies_once show ?thesis by fastforce
qed

text \<open>
  C26. A bounded soak ends: with a maximal number of cycles every run returns or raises, and a run that
  returns has at most that many cycles.
\<close>

theorem soak_terminates:
  assumes "cr_max_cycles cr = Some n"
  shows "\<exists>r. soak_run k cr inp p w = Some r \<and>
    (\<forall>sm ks w'. r = Inr ((sm, ks), w') \<longrightarrow> int (length (ks_transitions ks)) \<le> max n 0)"
proof -
  obtain started e' where t: "sk_time k (snd w) = (started, e')" by (cases "sk_time k (snd w)")
  obtain r where r: "soak_loop k cr inp (map_option (dt_add started) (cr_max_duration cr)) (soak_start p) (fst w, e') = Some r"
    "\<forall>ks1 reason w1. r = Inr ((ks1, reason), w1) \<longrightarrow> int (ks_index ks1) \<le> max n 0"
    using soak_loop_total [OF assms, of k inp "map_option (dt_add started) (cr_max_duration cr)" "soak_start p" "(fst w, e')"]
    by (auto simp: soak_start_def)
  have "int (length (ks_transitions ks)) \<le> max n 0" if "r = Inr ((ks, reason), w')" for ks reason w'
  proof -
    have "ends_at k cr inp (soak_start p, fst w) ks reason" using r(1) that soak_loop_ends by fastforce
    then have "consistent ks"
      using reaches_consistent [of k inp "(soak_start p, fst w)"] consistent_start by (fastforce simp: ends_at_def)
    with r(2) that show ?thesis by (auto simp: consistent_def)
  qed
  then show ?thesis using r(1) by (cases r) (auto simp: soak_run_def t)
qed


text \<open>
  C15. An id a blocked mutation reports as ignored is lost: the soak records it as applied although nothing
  was applied, so no later cycle applies that fill, for any gate that keeps the gate's contract.
\<close>

theorem blocked_ignored_fill_lost:
  assumes "once_gate d" and "wired d k"
    and "soak_reaches k inp (soak_start p, None) (ks0, g0)"
    and "soak_cycle k inp ks0 (g0, e) = Inr ((ks1, h), (Some r, e1))"
    and "\<not> mo_applied (gr_outcome r)" and "i \<in> set (lr_ignored_fill_ids (mo_translation (gr_outcome r)))"
    and "soak_reaches k inp (ks1, Some r) (ks2, Some r2)"
  shows "i \<notin> set (lr_applied_fill_ids (mo_translation (gr_outcome r2)))"
proof -
  have r1: "soak_reaches k inp (soak_start p, None) (ks1, Some r)"
    by (rule soak_reaches.reach_cycle [OF assms(3,4)])
  note start = reaches_chain [OF r1 assms(2)]
  have "lr_applied_fill_ids (mo_translation (gr_outcome r)) = []"
    using reaches_asked [OF r1 assms(2)] once_gate.unapplied_keeps [OF assms(1) _ assms(5)] by fastforce
  moreover have "i \<in> set (ks_already ks1)" using start assms(6) by (auto simp: absorbed_def)
  ultimately have lost: "i \<in> set (ks_already ks1)" "lr_applied_fill_ids (mo_translation (gr_outcome r)) = []" by simp_all
  have "i \<in> set (ks_already (fst y)) \<and> distinct (ks_already (fst y)) \<and> (\<forall>r2. snd y = Some r2 \<longrightarrow>
      absorbed r2 (fst y) \<and> i \<notin> set (lr_applied_fill_ids (mo_translation (gr_outcome r2))))"
    if "soak_reaches k inp (ks1, Some r) y" for y
    using that
  proof (induction rule: soak_reaches.induct)
    case reach_start
    with start lost show ?case by auto
  next
    case (reach_cycle ks g e ks' h g' e')
    then have ih: "i \<in> set (ks_already ks)" "distinct (ks_already ks)" "\<forall>r. g = Some r \<longrightarrow> absorbed r ks" by auto
    show ?case
    proof (cases rule: soak_cycle_gate [OF assms(2) reach_cycle.hyps(2) ih(2,3)])
      case 1
      with reach_cycle show ?thesis by (auto simp: absorbed_def)
    next
      case (2 e1 r2 e2)
      have "i \<notin> set (lr_applied_fill_ids (mo_translation (gr_outcome r2)))"
        using once_gate.applies_once [OF assms(1) 2(1)] ih(1) by blast
      moreover have "distinct (ks_already ks')" using 2(4) by (simp add: carried_fills_def)
      ultimately show ?thesis using 2 ih(1) by (auto simp: absorbed_def carried_portfolio_def)
    qed
  qed
  from this [OF assms(7)] show ?thesis by simp
qed

section \<open>Witnesses\<close>

text \<open>A sample runner without signals, and a cycle of it over any recorded gate.\<close>

definition sample_soak_context :: "'e detailed_gate \<Rightarrow> 'e soak_world runtime_context" where
  "sample_soak_context d =
     \<lparr>cx_mode = MODE_RESTRICTED_LIVE,
      cx_features = build_features \<lparr>bld_tolerate_partial = True, bld_index = None, bld_stable = None\<rparr>,
      cx_strategy = (\<lambda>dc. Inr []), cx_risk = (\<lambda>sigs p v. Inr []), cx_intents = (\<lambda>ds v t. Inr []),
      cx_persist = (\<lambda>r f dc h w. Inr w), cx_index = None, cx_stable = None,
      cx_gate = Some (recording_gate d), cx_health = None, cx_venue_profile = None,
      cx_execution_venue = Some ''paper'', cx_time_sync_ok = None, cx_time_sync_detail = None,
      cx_now = (\<lambda>w. (utc 0, w))\<rparr>"

definition sample_soak :: "'e detailed_gate \<Rightarrow> 'e soak_runner" where
  "sample_soak d =
     \<lparr>sk_context = sample_soak_context d, sk_max_lag = 0, sk_health = (\<lambda>w. (None, w)),
      sk_stats = (\<lambda>e. no_stats), sk_time = (\<lambda>e. (utc 0, e)), sk_sleep = (\<lambda>t e. e)\<rparr>"

definition sample_soak_input :: soak_input where
  "sample_soak_input =
     \<lparr>si_prefix = ''soak'', si_instrument = sample_instrument, si_bars = sample_bars, si_context = None\<rparr>"

lemma sample_soak_wired: "wired d (sample_soak d)"
  by (simp add: wired_def sample_soak_def sample_soak_context_def)

lemma sample_soak_parts [simp]:
  "cx_mode (sample_soak_context d) = MODE_RESTRICTED_LIVE" "cx_strategy (sample_soak_context d) = (\<lambda>dc. Inr [])"
  "cx_risk (sample_soak_context d) = (\<lambda>sigs p v. Inr [])" "cx_gate (sample_soak_context d) = Some (recording_gate d)"
  "cx_now (sample_soak_context d) = (\<lambda>w. (utc 0, w))" "cx_persist (sample_soak_context d) = (\<lambda>r f dc h w. Inr w)"
  "cx_index (sample_soak_context d) = None" "cx_stable (sample_soak_context d) = None"
  "cx_time_sync_ok (sample_soak_context d) = None" "cx_time_sync_detail (sample_soak_context d) = None"
  "cx_health (sample_soak_context d) = None" "cx_execution_venue (sample_soak_context d) = Some ''paper''"
  "cx_features (sample_soak_context d)
     = build_features \<lparr>bld_tolerate_partial = True, bld_index = None, bld_stable = None\<rparr>"
  by (simp_all add: sample_soak_context_def)

lemma sample_soak_persist: "persist (sample_soak_context d) r f dc w = Inr (r, w)"
  by (simp add: persist_def exchange_health_def current_or_unknown_def truthy_def py_or_def str_strip_def
      str_lower_def char_lower_def py_space_def Let_def)

lemma sample_live_cycle:
  assumes d: "d p [] already (snd w) = Inr (r, e')" and alerts: "\<forall>a\<in>set (mo_alerts (gr_outcome r)). \<not> blank a"
    and cid: "\<not> blank cid"
  shows "\<exists>c. restricted_live_cycle 0 (sample_soak_context d) cid sample_instrument sample_bars None p [] already w
    = Inr (c, (Some r, e'))"
proof -
  let ?cx = "sample_soak_context d"
  obtain f where f: "cx_features ?cx sample_bars None = Inr f" "ft_instrument_id f = bs_instrument_id sample_bars"
    "ft_timeframe f = bs_timeframe sample_bars" using build_features_total [OF sample_bars_valid] by auto
  have i: "in_instrument_id sample_instrument = bs_instrument_id sample_bars"
    by (simp add: sample_instrument_def sample_bars_def)
  obtain dc where dc: "build_context ?cx cid sample_instrument sample_bars p f = Inr dc"
    "dc_latest_candle dc = last (bs_candles sample_bars)"
    using build_context_total [OF sample_bars_valid(1,4) cid i f(2,3)] by blast
  have none: "dc_index_snapshot_status dc = None" "dc_stablecoin_snapshot_status dc = None"
    using dc(1) by (auto simp: build_context_def index_of_def stable_of_def mk_decision_context_def)
  let ?q = "evaluate_quality 0 MODE_RESTRICTED_LIVE ?cx dc None"
  have q: "qe_states ?q = []" "qe_details ?q = []" "\<not> qe_fail_closed ?q"
    by (simp_all add: evaluate_quality_def Let_def dc(2) none context_issues_def snapshot_issues_def sample_bars_def
        sample_candle_def should_fail_closed_def)
  obtain al ok where cg: "consult_gate ?cx p [] already w = Inr ((mo_events (gr_outcome r), al, ok), (Some r, e'))"
    "\<forall>a\<in>set al. \<not> blank a"
    using d alerts by (cases "mo_attempted (gr_outcome r)"; cases "mo_applied (gr_outcome r)")
      (auto simp: consult_gate_def recording_gate_def blank_def py_space_def)
  have pi: "prepare_intents cid v sample_instrument t [] = Inr []" for v t by (simp add: prepare_intents_def)
  let ?c = "\<lparr>rc_cycle_id = cid, rc_started_at = utc 0, rc_completed_at = utc 0,
    rc_processed_instruments = [in_instrument_id sample_instrument], rc_signals = [],
    rc_risk_decisions = [], rc_execution_intents = [], rc_reconciliation_events = mo_events (gr_outcome r),
    rc_quality_states = qe_states ?q, rc_quality_details = qe_details ?q,
    rc_alerts = dedup ([''restricted-live mode prepared intents only'',
      ''exchange execution remains future work''] @ qe_details ?q @ al), rc_success = ok\<rparr>"
  have c: "mk_cycle_result ?c = Inr ?c"
    using cg(2) cid by (auto simp: cycle_result_checks_def sample_instrument_def blank_def py_space_def q
        simp del: dedup.simps)
  have "\<exists>c. prepared_cycle ?cx cid sample_instrument sample_bars p [] already f dc ?q (utc 0) w = Inr (c, (Some r, e'))"
    unfolding prepared_cycle_def sample_soak_parts r_bind_simps pi cg(1) prod.case Let_def c sample_soak_persist by blast
  then obtain c where "prepared_cycle ?cx cid sample_instrument sample_bars p [] already f dc ?q (utc 0) w
      = Inr (c, (Some r, e'))" by blast
  then show ?thesis
    using f(1) dc(1) q(3) by (simp add: restricted_live_cycle_def sample_bars_close)
qed

lemma sample_soak_step:
  assumes "d (ks_portfolio ks) [] (ks_already ks) e = Inr (r, e')" and "\<forall>a\<in>set (mo_alerts (gr_outcome r)). \<not> blank a"
  shows "\<exists>ks'. soak_cycle (sample_soak d) sample_soak_input ks (g, e) = Inr ((ks', None), (Some r, e')) \<and>
    ks_index ks' = ks_index ks + 1 \<and> ks_portfolio ks' = carried_portfolio (Some (gr_outcome r)) (ks_portfolio ks) \<and>
    ks_already ks' = carried_fills (Some (gr_outcome r)) (ks_already ks) \<and>
    ks_blocked ks' = ks_blocked ks + (if blocked_mutation (Some (gr_outcome r)) then 1 else 0)"
proof -
  let ?cid = "''soak'' @ ''-'' @ pad0 4 (ks_index ks + 1)"
  have "\<not> blank ?cid" by (simp add: blank_def py_space_def)
  from sample_live_cycle [of d "ks_portfolio ks" "ks_already ks" "(g, e)", OF _ assms(2) this] assms(1)
  obtain c where "restricted_live_cycle 0 (sample_soak_context d) ?cid sample_instrument sample_bars None
      (ks_portfolio ks) [] (ks_already ks) (g, e) = Inr (c, (Some r, e'))" by auto
  then show ?thesis
    by (simp add: soak_cycle_def sample_soak_def sample_soak_input_def record_cycle_fields)
qed

lemma sample_soak_loop:
  assumes "cr_max_cycles cr = Some (int (ks_index ks) + 1)" and "cr_poll_seconds cr = 0"
    and "d (ks_portfolio ks) [] (ks_already ks) e = Inr (r, e')" and "\<forall>a\<in>set (mo_alerts (gr_outcome r)). \<not> blank a"
  shows "\<exists>ks' reason w'. soak_loop (sample_soak d) cr sample_soak_input None ks (g, e) = Some (Inr ((ks', reason), w')) \<and>
    ks_index ks' = ks_index ks + 1 \<and> ks_blocked ks' = ks_blocked ks + (if blocked_mutation (Some (gr_outcome r)) then 1 else 0)"
proof -
  obtain ks' where c: "soak_cycle (sample_soak d) sample_soak_input ks (g, e) = Inr ((ks', None), (Some r, e'))"
    "ks_index ks' = ks_index ks + 1"
    "ks_blocked ks' = ks_blocked ks + (if blocked_mutation (Some (gr_outcome r)) then 1 else 0)"
    using sample_soak_step [of d ks e r e' g] assms(3,4) by blast
  have stop: "soak_loop (sample_soak d) cr sample_soak_input None ks' w = Some (Inr ((ks', SOAK_COMPLETED), w))" for w
    using assms(1) c(2) by (subst soak_loop.simps) simp
  show ?thesis
    using assms(1,2) c by (subst soak_loop.simps) (simp add: past_deadline_def pause_def stop split: option.splits)
qed

lemma sample_soak_run:
  assumes "d p [] [] e = Inr (r, e')" and "\<forall>a\<in>set (mo_alerts (gr_outcome r)). \<not> blank a"
  shows "\<exists>sm ks w'. soak_run (sample_soak d) (default_criteria\<lparr>cr_max_cycles := Some 1\<rparr>) sample_soak_input p (None, e)
    = Some (Inr ((sm, ks), w')) \<and> ks_index ks = 1 \<and>
    ks_blocked ks = (if blocked_mutation (Some (gr_outcome r)) then 1 else 0)"
proof -
  obtain ks reason w' where l: "soak_loop (sample_soak d) (default_criteria\<lparr>cr_max_cycles := Some 1\<rparr>) sample_soak_input None
      (soak_start p) (None, e) = Some (Inr ((ks, reason), w'))" "ks_index ks = 1"
      "ks_blocked ks = (if blocked_mutation (Some (gr_outcome r)) then 1 else 0)"
    using sample_soak_loop [of "default_criteria\<lparr>cr_max_cycles := Some 1\<rparr>" "soak_start p" d e r e' None] assms
    by (auto simp: soak_start_def default_criteria_def)
  have "cr_max_duration (default_criteria\<lparr>cr_max_cycles := Some 1\<rparr>) = None" by (simp add: default_criteria_def)
  moreover have "sk_time (sample_soak d) e = (utc 0, e)" by (simp add: sample_soak_def)
  ultimately show ?thesis using l by (simp add: soak_run_def)
qed

lemma soak_applies_each_fill_once_witness:
  "\<exists>sm ks w' idss. soak_run (sample_soak (live_delegate (\<lambda>x :: unit. sample_gate True) (rest_ops down_env) (Some json_store_ops)
       (\<lambda>x. Inr ([], x)))) (default_criteria\<lparr>cr_max_cycles := Some 1\<rparr>) sample_soak_input sample_portfolio
       (None, ((sample_transport, None), ())) = Some (Inr ((sm, ks), w')) \<and> distinct (concat idss) \<and>
     gate_chain (live_delegate (\<lambda>x :: unit. sample_gate True) (rest_ops down_env) (Some json_store_ops) (\<lambda>x. Inr ([], x)))
       sample_portfolio idss (ks_portfolio ks) (ks_already ks)"
proof -
  let ?d = "live_delegate (\<lambda>x :: unit. sample_gate True) (rest_ops down_env) (Some json_store_ops) (\<lambda>x. Inr ([], x))"
  have "?d sample_portfolio [] [] ((sample_transport, None), ()) = Inr (no_payloads sample_portfolio, ((sample_transport, None), ()))"
    by (simp add: live_delegate_def apply_with_details_def)
  moreover have "\<forall>a\<in>set (mo_alerts (gr_outcome (no_payloads sample_portfolio))). \<not> blank a"
    by (simp add: no_payloads_parts blank_def py_space_def)
  ultimately obtain sm ks w' where run: "soak_run (sample_soak ?d) (default_criteria\<lparr>cr_max_cycles := Some 1\<rparr>)
      sample_soak_input sample_portfolio (None, ((sample_transport, None), ())) = Some (Inr ((sm, ks), w'))"
    using sample_soak_run [of ?d sample_portfolio "((sample_transport, None), ())" "no_payloads sample_portfolio"] by blast
  from soak_applies_each_fill_once [OF run sample_soak_wired] run show ?thesis by blast
qed

lemma soak_terminates_witness:
  "\<exists>r. soak_run (sample_soak (\<lambda>p ex al e. Inr (no_payloads p, e))) (default_criteria\<lparr>cr_max_cycles := Some 2\<rparr>)
     sample_soak_input sample_portfolio (None, ()) = Some r"
  using soak_terminates [of "default_criteria\<lparr>cr_max_cycles := Some 2\<rparr>" 2
      "sample_soak (\<lambda>p ex al e. Inr (no_payloads p, e))" sample_soak_input sample_portfolio "(None, ())"]
  by auto

text \<open>A gate that always blocks and reports one ignored fill.\<close>

definition blocking_gate :: "unit detailed_gate" where
  "blocking_gate p expected already e =
     (let r = no_payloads p; o' = gr_outcome r
      in Inr (r\<lparr>gr_outcome := o'\<lparr>mo_attempted := True,
           mo_translation := (mo_translation o')\<lparr>lr_ignored_fill_ids := [''f1'']\<rparr>\<rparr>\<rparr>, e))"


lemma blocked_ignored_fill_lost_witness:
  "\<exists>ks1 r e1. soak_cycle (sample_soak blocking_gate) sample_soak_input (soak_start sample_portfolio) (None, ())
     = Inr ((ks1, None), (Some r, e1)) \<and> ''f1'' \<notin> set (lr_applied_fill_ids (mo_translation (gr_outcome r)))"
proof -
  let ?r = "fst (projr (blocking_gate sample_portfolio [] [] ()))"
  have b: "blocking_gate (ks_portfolio (soak_start sample_portfolio)) [] (ks_already (soak_start sample_portfolio)) () = Inr (?r, ())"
    by (simp add: blocking_gate_def Let_def soak_start_def)
  have "\<forall>a\<in>set (mo_alerts (gr_outcome ?r)). \<not> blank a"
    by (simp add: blocking_gate_def Let_def no_payloads_parts blank_def py_space_def)
  from sample_soak_step [of blocking_gate "soak_start sample_portfolio" "()" ?r "()" None, OF b this] obtain ks1 where c: "soak_cycle (sample_soak blocking_gate) sample_soak_input
      (soak_start sample_portfolio) (None, ()) = Inr ((ks1, None), (Some ?r, ()))" by blast
  have once: "once_gate blocking_gate" by unfold_locales (auto simp: blocking_gate_def Let_def)
  have "\<not> mo_applied (gr_outcome ?r)" "''f1'' \<in> set (lr_ignored_fill_ids (mo_translation (gr_outcome ?r)))"
    by (simp_all add: blocking_gate_def Let_def)
  from blocked_ignored_fill_lost [OF once sample_soak_wired soak_reaches.reach_start c this soak_reaches.reach_start] c
  show ?thesis by blast
qed

end
