(* ===== verification/WebSocketFrames.thy ===== *)
theory WebSocketFrames
  imports Prelude "HOL-Library.Word"
begin

text \<open>
  \<open>StdlibWebSocketConnection\<close> of \<open>app/exchanges/binance/private_transport.py\<close>: the frame codec of
  the private stream over bytes of eight bits, the socket reads below it and the text reads above it.
  A socket is the list of what its next reads meet: chunks of bytes as they arrive, and read timeouts;
  at its end the peer has closed the connection. Every operation returns the connection it leaves
  behind also when it raises, because its callers go on using it. \<open>os.urandom\<close> is a parameter, the
  masking keys by their number; text is a list of code points, and \<open>str.encode\<close> and
  \<open>bytes.decode\<close> are UTF-8 without surrogates. Opening the connection (URL, TLS, HTTP upgrade) is not
  modelled.
\<close>

unbundle bit_operations_syntax

type_synonym octets = "8 word list"
type_synonym unicode = "nat list"

section \<open>Calls that leave a state behind\<close>

definition s_bind ::
    "'a result \<times> 's \<Rightarrow> ('a \<Rightarrow> 's \<Rightarrow> 'b result \<times> 's) \<Rightarrow> 'b result \<times> 's" where
  "s_bind m f = (case m of (Inl e, s) \<Rightarrow> (Inl e, s) | (Inr x, s) \<Rightarrow> f x s)"

lemma s_bind_simps [simp]:
  "s_bind (Inl e, s) f = (Inl e, s)"
  "s_bind (Inr x, s) f = f x s"
  by (simp_all add: s_bind_def)

lemma s_bind_Inr: "s_bind m f = (Inr y, s') \<longleftrightarrow> (\<exists>x s. m = (Inr x, s) \<and> f x s = (Inr y, s'))"
  by (auto simp: s_bind_def split: prod.splits sum.splits)

lemma s_bind_assoc: "s_bind (s_bind m f) g = s_bind m (\<lambda>x s. s_bind (f x s) g)"
  by (auto simp: s_bind_def split: prod.splits sum.splits)

lemma s_bind_cong [fundef_cong]:
  "m = m' \<Longrightarrow> (\<And>x s. m' = (Inr x, s) \<Longrightarrow> f x s = g x s) \<Longrightarrow> s_bind m f = s_bind m' g"
  by (auto simp: s_bind_def split: prod.splits sum.splits)

section \<open>UTF-8\<close>

definition scalar :: "nat \<Rightarrow> bool" where
  "scalar c \<longleftrightarrow> c < 0x110000 \<and> \<not> (0xD800 \<le> c \<and> c < 0xE000)"

definition utf8_char :: "nat \<Rightarrow> octets" where
  "utf8_char c =
     (if c < 0x80 then [of_nat c]
      else if c < 0x800 then [of_nat (0xC0 + c div 64), of_nat (0x80 + c mod 64)]
      else if c < 0x10000 then
        [of_nat (0xE0 + c div 4096), of_nat (0x80 + c div 64 mod 64), of_nat (0x80 + c mod 64)]
      else [of_nat (0xF0 + c div 262144), of_nat (0x80 + c div 4096 mod 64),
            of_nat (0x80 + c div 64 mod 64), of_nat (0x80 + c mod 64)])"

text \<open>\<open>text.encode("utf-8")\<close>: a lone surrogate raises UnicodeEncodeError, a ValueError.\<close>

definition utf8_encode :: "unicode \<Rightarrow> octets result" where
  "utf8_encode t =
     (if list_all scalar t then Inr (concat (map utf8_char t))
      else Inl (ValueError ''surrogates not allowed''))"

definition continuation :: "8 word \<Rightarrow> bool" where
  "continuation b \<longleftrightarrow> 0x80 \<le> unat b \<and> unat b < 0xC0"

text \<open>\<open>payload.decode("utf-8")\<close>: no overlong forms, no surrogates, nothing above U+10FFFF.\<close>

fun utf8_decode :: "octets \<Rightarrow> unicode option" where
  "utf8_decode [] = Some []"
| "utf8_decode (b # bs) =
     (if unat b < 0x80 then map_option (Cons (unat b)) (utf8_decode bs)
      else if unat b < 0xC0 then None
      else if unat b < 0xE0 then
        (case bs of
           c # cs \<Rightarrow>
             (let n = (unat b - 0xC0) * 64 + (unat c - 0x80)
              in if continuation c \<and> 0x80 \<le> n then map_option (Cons n) (utf8_decode cs) else None)
         | _ \<Rightarrow> None)
      else if unat b < 0xF0 then
        (case bs of
           c # d # ds \<Rightarrow>
             (let n = (unat b - 0xE0) * 4096 + (unat c - 0x80) * 64 + (unat d - 0x80)
              in if continuation c \<and> continuation d \<and> 0x800 \<le> n \<and> scalar n
                 then map_option (Cons n) (utf8_decode ds) else None)
         | _ \<Rightarrow> None)
      else
        (case bs of
           c # d # e # es \<Rightarrow>
             (let n = (unat b - 0xF0) * 262144 + (unat c - 0x80) * 4096 + (unat d - 0x80) * 64
                    + (unat e - 0x80)
              in if continuation c \<and> continuation d \<and> continuation e \<and> 0x10000 \<le> n \<and> scalar n
                 then map_option (Cons n) (utf8_decode es) else None)
         | _ \<Rightarrow> None))"

lemma unat_byte: "n < 256 \<Longrightarrow> unat (of_nat n :: 8 word) = n"
  by (simp add: unat_of_nat)

lemma decode_char:
  assumes "scalar c"
  shows "utf8_decode (utf8_char c @ bs) = map_option (Cons c) (utf8_decode bs)"
proof -
  have top: "c < 0x110000" using assms by (simp add: scalar_def)
  have cont: "continuation (of_nat (0x80 + n mod 64))" "unat (of_nat (0x80 + n mod 64) :: 8 word) - 0x80 = n mod 64"
    for n by (simp_all add: continuation_def unat_byte del: of_nat_add)
  consider "c < 0x80" | "0x80 \<le> c" "c < 0x800" | "0x800 \<le> c" "c < 0x10000" | "0x10000 \<le> c" by linarith
  then show ?thesis
  proof cases
    case 1
    then show ?thesis by (simp add: utf8_char_def unat_byte)
  next
    case 2
    then have u: "unat (of_nat (0xC0 + c div 64) :: 8 word) = 0xC0 + c div 64" by (intro unat_byte) simp
    have n: "c div 64 * 64 + c mod 64 = c" "c div 64 < 32" using 2 by simp_all
    show ?thesis using 2 u cont [of c] n by (simp add: utf8_char_def Let_def del: of_nat_add)
  next
    case 3
    then have u: "unat (of_nat (0xE0 + c div 4096) :: 8 word) = 0xE0 + c div 4096" by (intro unat_byte) simp
    have "c div 64 = c div 4096 * 64 + c div 64 mod 64"
      using div_mult_mod_eq [of "c div 64" 64] by (simp add: div_mult2_eq [symmetric])
    then have n: "c div 4096 * 4096 + c div 64 mod 64 * 64 + c mod 64 = c"
      using div_mult_mod_eq [of c 64] by linarith
    have "c div 4096 < 16" using 3 by simp
    then show ?thesis using 3 u cont [of c] cont [of "c div 64"] n assms
      by (simp add: utf8_char_def Let_def del: of_nat_add)
  next
    case 4
    then have u: "unat (of_nat (0xF0 + c div 262144) :: 8 word) = 0xF0 + c div 262144"
      using top by (intro unat_byte) simp
    have "c div 64 = c div 4096 * 64 + c div 64 mod 64" "c div 4096 = c div 262144 * 64 + c div 4096 mod 64"
      using div_mult_mod_eq [of "c div 64" 64] div_mult_mod_eq [of "c div 4096" 64]
      by (simp_all add: div_mult2_eq [symmetric])
    then have n: "c div 262144 * 262144 + c div 4096 mod 64 * 4096 + c div 64 mod 64 * 64 + c mod 64 = c"
      using div_mult_mod_eq [of c 64] by linarith
    show ?thesis using 4 u cont [of c] cont [of "c div 64"] cont [of "c div 4096"] n assms
      by (simp add: utf8_char_def Let_def del: of_nat_add)
  qed
qed

lemma utf8_decode_encode: "utf8_encode t = Inr bs \<Longrightarrow> utf8_decode bs = Some t"
  by (induction t arbitrary: bs) (auto simp: utf8_encode_def decode_char split: if_splits)

section \<open>The socket\<close>

datatype arrival = Chunk octets | Stall

text \<open>
  \<open>sock.recv(n)\<close>: at most \<open>n\<close> bytes of the next chunk, nothing once the peer has closed, and
  TimeoutError (\<open>socket.timeout\<close>) when the read waits too long.
\<close>

fun sock_recv :: "nat \<Rightarrow> arrival list \<Rightarrow> octets result \<times> arrival list" where
  "sock_recv n [] = (Inr [], [])"
| "sock_recv n (Stall # inc) = (Inl (TimeoutError ''timed out''), inc)"
| "sock_recv n (Chunk bs # inc) =
     (if length bs \<le> n then (Inr bs, inc) else (Inr (take n bs), Chunk (drop n bs) # inc))"

function read_exact :: "nat \<Rightarrow> arrival list \<Rightarrow> octets result \<times> arrival list" where
  "read_exact n inc =
     (if n = 0 then (Inr [], inc)
      else s_bind (sock_recv n inc) (\<lambda>chunk inc'.
        if chunk = [] then (Inl (ConnectionError ''unexpected EOF while reading websocket frame''), inc')
        else s_bind (read_exact (n - length chunk) inc') (\<lambda>chunks inc''. (Inr (chunk @ chunks), inc''))))"
  by pat_completeness auto
termination by (relation "measure fst") (auto intro: diff_less)

declare read_exact.simps [simp del]

record ws_connection =
  wc_incoming :: "arrival list"
  wc_sent :: octets
  wc_open :: bool
  wc_writable :: bool
  wc_keys :: nat

text \<open>\<open>sock.sendall\<close> and \<open>os.urandom(4)\<close>\<close>

definition send_bytes :: "octets \<Rightarrow> ws_connection \<Rightarrow> unit result \<times> ws_connection" where
  "send_bytes bs c =
     (if wc_open c \<and> wc_writable c then (Inr (), c\<lparr>wc_sent := wc_sent c @ bs\<rparr>)
      else (Inl (ConnectionError ''broken pipe''), c))"

section \<open>Frames\<close>

fun to_bytes :: "nat \<Rightarrow> nat \<Rightarrow> octets" where
  "to_bytes 0 n = []"
| "to_bytes (Suc k) n = to_bytes k (n div 256) @ [of_nat (n mod 256)]"

definition from_bytes :: "octets \<Rightarrow> nat" where
  "from_bytes bs = foldl (\<lambda>n b. n * 256 + unat b) 0 bs"

definition apply_mask :: "octets \<Rightarrow> octets \<Rightarrow> octets" where
  "apply_mask key payload = map (\<lambda>(i, v). v XOR key ! (i mod 4)) (enumerate 0 payload)"

definition frame_header :: "nat \<Rightarrow> 8 word \<Rightarrow> octets result" where
  "frame_header len first =
     (if len < 126 then Inr [first, 0x80 OR of_nat len]
      else if len < 65536 then Inr ([first, 0x80 OR 126] @ to_bytes 2 len)
      else if len < 2 ^ 64 then Inr ([first, 0x80 OR 127] @ to_bytes 8 len)
      else Inl OverflowError)"

definition send_frame ::
    "(nat \<Rightarrow> octets) \<Rightarrow> 8 word \<Rightarrow> octets \<Rightarrow> ws_connection \<Rightarrow> unit result \<times> ws_connection" where
  "send_frame urandom opcode payload c =
     (let key = urandom (wc_keys c); c1 = c\<lparr>wc_keys := Suc (wc_keys c)\<rparr>
      in case frame_header (length payload) (0x80 OR (opcode AND 0x0F)) of
           Inl e \<Rightarrow> (Inl e, c1)
         | Inr header \<Rightarrow> send_bytes (header @ key @ apply_mask key payload) c1)"

definition read_frame :: "arrival list \<Rightarrow> (8 word \<times> octets) result \<times> arrival list" where
  "read_frame inc =
     s_bind (read_exact 2 inc) (\<lambda>hs inc1.
       let opcode = hs ! 0 AND 0x0F; masked = (hs ! 1 AND 0x80 \<noteq> 0); short = hs ! 1 AND 0x7F
       in s_bind (if short = 126 then s_bind (read_exact 2 inc1) (\<lambda>bs i. (Inr (from_bytes bs), i))
                  else if short = 127 then s_bind (read_exact 8 inc1) (\<lambda>bs i. (Inr (from_bytes bs), i))
                  else (Inr (unat short), inc1)) (\<lambda>len inc2.
          s_bind (if masked then read_exact 4 inc2 else (Inr [], inc2)) (\<lambda>key inc3.
          s_bind (read_exact len inc3) (\<lambda>payload inc4.
            (Inr (opcode, if masked then apply_mask key payload else payload), inc4)))))"

section \<open>Text\<close>

definition with_incoming :: "ws_connection \<Rightarrow> 'a result \<times> arrival list \<Rightarrow> 'a result \<times> ws_connection" where
  "with_incoming c = (\<lambda>(r, inc). (r, c\<lparr>wc_incoming := inc\<rparr>))"

definition send_text :: "(nat \<Rightarrow> octets) \<Rightarrow> unicode \<Rightarrow> ws_connection \<Rightarrow> unit result \<times> ws_connection" where
  "send_text urandom text c =
     (case utf8_encode text of Inl e \<Rightarrow> (Inl e, c) | Inr bs \<Rightarrow> send_frame urandom 0x1 bs c)"

definition close_socket :: "(nat \<Rightarrow> octets) \<Rightarrow> ws_connection \<Rightarrow> ws_connection" where
  "close_socket urandom c = (snd (send_frame urandom 0x8 [] c))\<lparr>wc_open := False\<rparr>"

section \<open>What a socket still delivers\<close>

text \<open>
  The bytes and timeouts to come, whatever the chunks: \<open>None\<close> is a timeout.
\<close>

fun flat :: "arrival list \<Rightarrow> 8 word option list" where
  "flat [] = []"
| "flat (Stall # inc) = None # flat inc"
| "flat (Chunk bs # inc) = map Some bs @ flat inc"

definition proper_chunks :: "arrival list \<Rightarrow> bool" where
  "proper_chunks inc \<longleftrightarrow> Chunk [] \<notin> set inc"

lemma sock_recv_flat:
  "sock_recv n inc = (Inr bs, inc') \<Longrightarrow> flat inc = map Some bs @ flat inc' \<and> length bs \<le> n"
  by (cases "(n, inc)" rule: sock_recv.cases) (auto split: if_splits simp flip: map_append)

section \<open>The upgrade response\<close>

text \<open>
  \<open>_read_http_response\<close> returns all bytes it has read, the blank line and whatever followed it in the same
  chunk; nothing hands those bytes to the frame reader.
\<close>

function read_http_response :: "octets \<Rightarrow> arrival list \<Rightarrow> octets result \<times> arrival list" where
  "read_http_response data inc =
     (if sublist [13, 10, 13, 10] data then (Inr data, inc)
      else s_bind (sock_recv 4096 inc) (\<lambda>chunk inc'.
        if chunk = [] then (Inl (ConnectionError ''unexpected EOF during websocket handshake''), inc')
        else read_http_response (data @ chunk) inc'))"
  by pat_completeness auto
termination by (relation "measure (\<lambda>(data, inc). length (flat inc))") (auto dest!: sock_recv_flat)

lemma read_exact_flat:
  "read_exact n inc = (Inr bs, inc') \<Longrightarrow> flat inc = map Some bs @ flat inc' \<and> length bs = n"
proof (induction n inc arbitrary: bs inc' rule: read_exact.induct)
  case (1 n inc)
  show ?case
  proof (cases "n = 0")
    case True
    then show ?thesis using "1.prems" by (simp add: read_exact.simps)
  next
    case False
    then obtain chunk i chunks where c: "sock_recv n inc = (Inr chunk, i)" "chunk \<noteq> []"
        "read_exact (n - length chunk) i = (Inr chunks, inc')" "bs = chunk @ chunks"
      using "1.prems" by (subst (asm) read_exact.simps) (auto simp: s_bind_Inr split: if_splits)
    then show ?thesis using "1.IH" [OF False c(1,2,3)] sock_recv_flat [OF c(1)] by simp
  qed
qed

lemma read_frame_flat:
  assumes "read_frame inc = (Inr f, inc')"
  shows "length (flat inc') < length (flat inc)"
  using assms
  by (auto simp: read_frame_def s_bind_Inr Let_def split: if_splits dest!: read_exact_flat)

lemma send_frame_incoming [simp]: "wc_incoming (snd (send_frame urandom opcode payload c)) = wc_incoming c"
  by (simp add: send_frame_def send_bytes_def Let_def split: sum.split)

function recv_text :: "(nat \<Rightarrow> octets) \<Rightarrow> ws_connection \<Rightarrow> unicode result \<times> ws_connection" where
  "recv_text urandom c =
     s_bind (with_incoming c (read_frame (wc_incoming c))) (\<lambda>f c1.
       if fst f = 0x1 then
         (case utf8_decode (snd f) of
            None \<Rightarrow> (Inl (ValueError ''invalid utf-8''), c1) | Some t \<Rightarrow> (Inr t, c1))
       else if fst f = 0x9 then s_bind (send_frame urandom 0xA (snd f) c1) (\<lambda>u c2. recv_text urandom c2)
       else if fst f = 0x8 then (Inl (ConnectionError ''websocket closed by remote peer''), c1)
       else if fst f = 0xA then recv_text urandom c1
       else (Inl (ConnectionError (''unsupported websocket opcode: '' @ nat_str (unat (fst f)))), c1))"
  by pat_completeness auto
termination
proof (relation "measure (\<lambda>(u, c). length (flat (wc_incoming c)))", goal_cases)
  case (2 urandom c f c1 u c2)
  have "wc_incoming c2 = wc_incoming c1" using send_frame_incoming 2 by (metis snd_conv)
  then show ?case using 2(1) by (auto simp: with_incoming_def split: prod.splits dest!: read_frame_flat)
qed (auto simp: with_incoming_def split: prod.splits dest!: read_frame_flat)

declare recv_text.simps [simp del]

lemma recv_text_consumes:
  "recv_text urandom c = (Inr t, c') \<Longrightarrow> length (flat (wc_incoming c')) < length (flat (wc_incoming c))"
proof (induction urandom c rule: recv_text.induct)
  case (1 urandom c)
  obtain f inc where f: "read_frame (wc_incoming c) = (Inr f, inc)"
    using "1.prems" by (subst (asm) recv_text.simps) (auto simp: s_bind_Inr with_incoming_def split: prod.splits)
  let ?c1 = "c\<lparr>wc_incoming := inc\<rparr>"
  have w: "with_incoming c (read_frame (wc_incoming c)) = (Inr f, ?c1)" by (simp add: f with_incoming_def)
  have less: "length (flat inc) < length (flat (wc_incoming c))" using f by (rule read_frame_flat)
  have run: "recv_text urandom c =
      (if fst f = 0x1 then (case utf8_decode (snd f) of
            None \<Rightarrow> (Inl (ValueError ''invalid utf-8''), ?c1) | Some t \<Rightarrow> (Inr t, ?c1))
       else if fst f = 0x9 then s_bind (send_frame urandom 0xA (snd f) ?c1) (\<lambda>u c2. recv_text urandom c2)
       else if fst f = 0x8 then (Inl (ConnectionError ''websocket closed by remote peer''), ?c1)
       else if fst f = 0xA then recv_text urandom ?c1
       else (Inl (ConnectionError (''unsupported websocket opcode: '' @ nat_str (unat (fst f)))), ?c1))"
    using w by (subst recv_text.simps) simp
  consider (txt_frame) "fst f = 0x1" | (ping) "fst f = 0x9" | (pong) "fst f = 0xA"
    using "1.prems" run by (auto split: if_splits)
  then show ?case
  proof cases
    case txt_frame
    then show ?thesis using "1.prems" run less by (auto split: option.splits)
  next
    case ping
    then obtain c2 where c2: "send_frame urandom 0xA (snd f) ?c1 = (Inr (), c2)" "recv_text urandom c2 = (Inr t, c')"
      using "1.prems" run by (auto simp: s_bind_Inr)
    have "wc_incoming c2 = inc" using send_frame_incoming [of urandom "0xA" "snd f" ?c1] c2(1) by simp
    then show ?thesis using "1.IH"(1) [OF w _ _ c2(1) c2(2)] ping less by simp
  next
    case pong
    then show ?thesis using "1.IH"(2) [OF w] "1.prems" run less by simp
  qed
qed

lemma sock_recv_arrives:
  assumes "proper_chunks inc" and "flat inc = Some b # rest" and "0 < n"
  obtains x bs inc' where "sock_recv n inc = (Inr (x # bs), inc')" and "proper_chunks inc'"
    and "flat inc = map Some (x # bs) @ flat inc'" and "length (x # bs) \<le> n"
proof (cases inc)
  case Nil
  then show thesis using assms by simp
next
  case (Cons a inc1)
  then obtain bs where a: "a = Chunk bs" "bs \<noteq> []"
    using assms(1,2) by (cases a) (auto simp: proper_chunks_def)
  obtain chunk inc' where r: "sock_recv n inc = (Inr chunk, inc')" "chunk \<noteq> []" "proper_chunks inc'"
    using a assms(1,3) Cons by (cases "length bs \<le> n") (auto simp: proper_chunks_def)
  then show thesis using that sock_recv_flat [OF r(1)] by (cases chunk) auto
qed

lemma map_Some_split:
  assumes "map Some xs @ ys = map Some as @ cs" and "length xs \<le> length as"
  shows "\<exists>bs. as = xs @ bs \<and> ys = map Some bs @ cs"
  using assms
proof (induction xs arbitrary: as)
  case Nil
  then show ?case by simp
next
  case (Cons x xs)
  then show ?case by (cases as) auto
qed

lemma read_exact_ok:
  "proper_chunks inc \<Longrightarrow> flat inc = map Some bs @ rest \<Longrightarrow> n = length bs \<Longrightarrow>
     \<exists>inc'. read_exact n inc = (Inr bs, inc') \<and> flat inc' = rest \<and> proper_chunks inc'"
proof (induction n inc arbitrary: bs rule: read_exact.induct)
  case (1 n inc)
  show ?case
  proof (cases bs)
    case Nil
    then show ?thesis using "1.prems" by (simp add: read_exact.simps)
  next
    case (Cons b bs1)
    obtain x xs i where r: "sock_recv n inc = (Inr (x # xs), i)" "proper_chunks i"
        "flat inc = map Some (x # xs) @ flat i" "length (x # xs) \<le> n"
      by (rule sock_recv_arrives [of inc b "map Some bs1 @ rest" n]) (use "1.prems" Cons in auto)
    obtain cs where cs: "bs = (x # xs) @ cs" "flat i = map Some cs @ rest"
      using map_Some_split [of "x # xs" "flat i" bs rest] r(3,4) "1.prems" by auto
    obtain j where j: "read_exact (n - length (x # xs)) i = (Inr cs, j)" "flat j = rest" "proper_chunks j"
      using "1.IH" [OF _ r(1) _ r(2) cs(2)] cs(1) "1.prems" Cons by auto
    then show ?thesis using r(1) cs(1) "1.prems" Cons by (subst read_exact.simps) simp
  qed
qed

lemma read_exact_stall:
  "proper_chunks inc \<Longrightarrow> flat inc = map Some bs @ None # rest \<Longrightarrow> length bs < n \<Longrightarrow>
     \<exists>inc'. read_exact n inc = (Inl (TimeoutError ''timed out''), inc') \<and> flat inc' = rest \<and> proper_chunks inc'"
proof (induction n inc arbitrary: bs rule: read_exact.induct)
  case (1 n inc)
  show ?case
  proof (cases bs)
    case Nil
    obtain inc1 where "inc = Stall # inc1" "flat inc1 = rest"
      using "1.prems"(1,2) Nil by (cases inc rule: flat.cases)
      (auto simp: proper_chunks_def append_eq_Cons_conv map_eq_Cons_conv)
    then show ?thesis using "1.prems" by (subst read_exact.simps) (auto simp: proper_chunks_def)
  next
    case (Cons b bs1)
    obtain x xs i where r: "sock_recv n inc = (Inr (x # xs), i)" "proper_chunks i"
        "flat inc = map Some (x # xs) @ flat i" "length (x # xs) \<le> n"
      by (rule sock_recv_arrives [of inc b "map Some bs1 @ None # rest" n]) (use "1.prems" Cons in auto)
    have "length (x # xs) \<le> length bs"
    proof (rule ccontr)
      assume "\<not> length (x # xs) \<le> length bs"
      then have "map Some (x # xs) ! length bs = (None :: 8 word option)"
        using r(3) "1.prems"(2) by (metis append.right_neutral length_map linorder_le_less_linear nth_append
            nth_append_length)
      then show False using \<open>\<not> length (x # xs) \<le> length bs\<close> by (simp del: list.map)
    qed
    then obtain cs where cs: "bs = (x # xs) @ cs" "flat i = map Some cs @ None # rest"
      using map_Some_split [of "x # xs" "flat i" bs "None # rest"] r(3) "1.prems"(2) by auto
    obtain j where j: "read_exact (n - length (x # xs)) i = (Inl (TimeoutError ''timed out''), j)" "flat j = rest"
        "proper_chunks j"
      using "1.IH" [OF _ r(1) _ r(2) cs(2)] cs(1) "1.prems"(3) by (auto simp: less_diff_conv)
    then show ?thesis using r(1) cs(1) "1.prems" by (subst read_exact.simps) simp
  qed
qed

section \<open>The wire format\<close>

text \<open>
  A frame as a peer writes it: a first byte with flags and opcode, the shortest length form, and the
  payload, masked when there is a key.
\<close>

definition length_form :: "8 word \<Rightarrow> nat \<Rightarrow> octets" where
  "length_form flag len =
     (if len < 126 then [flag OR of_nat len]
      else if len < 65536 then (flag OR 126) # to_bytes 2 len
      else (flag OR 127) # to_bytes 8 len)"

definition wire_frame :: "8 word \<Rightarrow> octets option \<Rightarrow> octets \<Rightarrow> octets" where
  "wire_frame first key payload =
     first # length_form (if key = None then 0 else 0x80) (length payload)
       @ (case key of None \<Rightarrow> payload | Some k \<Rightarrow> k @ apply_mask k payload)"

definition proper_frame :: "octets option \<Rightarrow> octets \<Rightarrow> bool" where
  "proper_frame key payload \<longleftrightarrow> length payload < 2 ^ 64 \<and> (case key of None \<Rightarrow> True | Some k \<Rightarrow> length k = 4)"

lemma from_to_bytes: "from_bytes (to_bytes k n) = n mod 256 ^ k"
proof (induction k arbitrary: n)
  case 0
  show ?case by (simp add: from_bytes_def)
next
  case (Suc k)
  have "from_bytes (to_bytes (Suc k) n) = from_bytes (to_bytes k (n div 256)) * 256 + n mod 256"
    by (simp add: from_bytes_def unat_of_nat)
  then show ?case by (simp add: Suc mod_mult2_eq)
qed

lemma length_to_bytes [simp]: "length (to_bytes k n) = k"
  by (induction k arbitrary: n) simp_all

lemma apply_mask_length [simp]: "length (apply_mask k p) = length p"
  by (simp add: apply_mask_def)

lemma apply_mask_involution [simp]: "apply_mask k (apply_mask k p) = p"
  by (rule nth_equalityI) (simp_all add: apply_mask_def nth_enumerate_eq xor.assoc)

lemma short_length:
  assumes "n < 128"
  shows "(flag OR of_nat n) AND 0x7F = (flag AND 0x7F) OR (of_nat n :: 8 word)"
proof -
  have m: "(0x7F :: 8 word) = mask 7" by (simp add: mask_eq_exp_minus_1)
  have "take_bit 7 (of_nat n :: 8 word) = of_nat n"
    using assms by (simp add: take_bit_of_nat take_bit_nat_eq_self)
  then show ?thesis unfolding m by (simp flip: take_bit_eq_mask)
qed

lemma high_bit:
  "n < 128 \<Longrightarrow> ((0x80 :: 8 word) OR of_nat n) AND 0x80 \<noteq> 0" "n < 128 \<Longrightarrow> (of_nat n :: 8 word) AND 0x80 = 0"
proof -
  have "((0x80 :: 8 word) OR of_nat n) AND 0x80 = 0x80"
    by (rule bit_word_eqI) (auto simp: bit_simps)
  then show "((0x80 :: 8 word) OR of_nat n) AND 0x80 \<noteq> 0" by simp
  assume "n < 128"
  then have "take_bit 7 (of_nat n :: 8 word) = of_nat n" by (simp add: take_bit_of_nat take_bit_nat_eq_self)
  then have "(of_nat n :: 8 word) AND 0x80 = (of_nat n AND mask 7) AND 0x80" by (simp flip: take_bit_eq_mask)
  also have "\<dots> = of_nat n AND (mask 7 AND 0x80)" by (simp only: and.assoc)
  finally show "(of_nat n :: 8 word) AND 0x80 = 0" by (simp add: mask_eq_exp_minus_1)
qed

lemma length_code:
  assumes "n < 128"
  shows "((if masked then 0x80 else 0) OR of_nat n) AND 0x7F = (of_nat n :: 8 word)"
    and "((if masked then 0x80 else 0) OR (of_nat n :: 8 word)) AND 0x80 \<noteq> 0 \<longleftrightarrow> masked"
  using short_length [OF assms, of "if masked then 0x80 else 0"] high_bit [OF assms] by auto

text \<open>The reads of one frame: two bytes, the length extension, the key, the data.\<close>

lemma read_frame_parts:
  assumes "proper_frame key payload"
  obtains hs ext k data measure' where "wire_frame first key payload = hs @ ext @ k @ data" and "length hs = 2"
    and "measure' ext = length data" and "(if key \<noteq> None then apply_mask k data else data) = payload"
    and "\<And>inc i. read_exact 2 inc = (Inr hs, i) \<Longrightarrow> read_frame inc =
      s_bind (read_exact (length ext) i) (\<lambda>bs i2. s_bind (read_exact (length k) i2) (\<lambda>m i3.
        s_bind (read_exact (measure' bs) i3) (\<lambda>p i4.
          (Inr (first AND 0x0F, if key \<noteq> None then apply_mask m p else p), i4))))"
    and "\<And>inc e i. read_exact 2 inc = (Inl e, i) \<Longrightarrow> read_frame inc = (Inl e, i)"
proof -
  let ?len = "length payload" and ?flag = "if key \<noteq> None then 0x80 else (0 :: 8 word)"
  let ?code = "if ?len < 126 then ?len else if ?len < 65536 then 126 else 127"
  let ?ext = "if ?len < 126 then [] else if ?len < 65536 then to_bytes 2 ?len else to_bytes 8 ?len"
  let ?measure = "\<lambda>bs. if ?len < 126 then ?len else from_bytes bs"
  let ?k = "case key of None \<Rightarrow> [] | Some k \<Rightarrow> k"
  let ?data = "case key of None \<Rightarrow> payload | Some k \<Rightarrow> apply_mask k payload"
  let ?hs = "[first, ?flag OR of_nat ?code]"
  have code: "(?flag OR of_nat ?code) AND 0x7F = (of_nat ?code :: 8 word)"
    "((?flag OR (of_nat ?code :: 8 word)) AND 0x80 \<noteq> 0) = (key \<noteq> None)"
    using length_code [of ?code "key \<noteq> None"] by auto
  have len: "(if (of_nat ?code :: 8 word) = 126 then s_bind (read_exact 2 i) (\<lambda>bs i. (Inr (from_bytes bs), i))
      else if (of_nat ?code :: 8 word) = 127 then s_bind (read_exact 8 i) (\<lambda>bs i. (Inr (from_bytes bs), i))
      else (Inr (unat (of_nat ?code :: 8 word)), i))
    = s_bind (read_exact (length ?ext) i) (\<lambda>bs i. (Inr (?measure bs), i))" for i
    by (auto simp: read_exact.simps [of 0] unat_of_nat dest!: arg_cong [of _ _ unat])
  have key: "(if key \<noteq> None then read_exact 4 i else (Inr [], i)) = read_exact (length ?k) i" for i
    using assms by (auto simp: read_exact.simps [of 0] proper_frame_def split: option.split)
  show thesis
  proof (rule that [of ?hs ?ext ?k ?data ?measure])
    show "wire_frame first key payload = ?hs @ ?ext @ ?k @ ?data"
      by (simp add: wire_frame_def length_form_def split: option.split)
    show "?measure ?ext = length ?data"
      using assms by (auto simp: from_to_bytes proper_frame_def split: option.split)
    show "(if key \<noteq> None then apply_mask ?k ?data else ?data) = payload" by (cases key) simp_all
    fix inc i
    assume r: "read_exact 2 inc = (Inr ?hs, i)"
    show "read_frame inc = s_bind (read_exact (length ?ext) i) (\<lambda>bs i2. s_bind (read_exact (length ?k) i2) (\<lambda>m i3.
        s_bind (read_exact (?measure bs) i3) (\<lambda>p i4.
          (Inr (first AND 0x0F, if key \<noteq> None then apply_mask m p else p), i4))))"
      unfolding read_frame_def r s_bind_simps Let_def nth_Cons_0 nth_Cons_Suc One_nat_def code len key s_bind_assoc ..
  qed (simp_all add: read_frame_def)
qed

text \<open>Reading a frame returns what the wire format put into it, whatever the chunks.\<close>

lemma read_frame_wire:
  assumes "proper_chunks inc" and "flat inc = map Some (wire_frame first key payload) @ rest"
    and "proper_frame key payload"
  shows "\<exists>inc'. read_frame inc = (Inr (first AND 0x0F, payload), inc') \<and> flat inc' = rest \<and> proper_chunks inc'"
proof (rule read_frame_parts [OF assms(3), of first])
  fix hs ext k data and measure' :: "octets \<Rightarrow> nat"
  assume w: "wire_frame first key payload = hs @ ext @ k @ data" "length hs = 2" "measure' ext = length data"
      "(if key \<noteq> None then apply_mask k data else data) = payload"
    and run: "\<And>inc i. read_exact 2 inc = (Inr hs, i) \<Longrightarrow> read_frame inc =
      s_bind (read_exact (length ext) i) (\<lambda>bs i2. s_bind (read_exact (length k) i2) (\<lambda>m i3.
        s_bind (read_exact (measure' bs) i3) (\<lambda>p i4.
          (Inr (first AND 0x0F, if key \<noteq> None then apply_mask m p else p), i4))))"
  obtain i1 where i1: "read_exact 2 inc = (Inr hs, i1)" "proper_chunks i1"
    "flat i1 = map Some ext @ map Some k @ map Some data @ rest"
    using read_exact_ok [OF assms(1), of hs] assms(2) w(1,2) by auto
  obtain i2 where i2: "read_exact (length ext) i1 = (Inr ext, i2)" "proper_chunks i2"
    "flat i2 = map Some k @ map Some data @ rest" using read_exact_ok [OF i1(2,3)] by auto
  obtain i3 where i3: "read_exact (length k) i2 = (Inr k, i3)" "proper_chunks i3"
    "flat i3 = map Some data @ rest" using read_exact_ok [OF i2(2,3)] by auto
  obtain i4 where i4: "read_exact (length data) i3 = (Inr data, i4)" "proper_chunks i4" "flat i4 = rest"
    using read_exact_ok [OF i3(2,3)] by auto
  show ?thesis using run [OF i1(1)] i2(1) i3(1) i4 w(3,4) by simp
qed

lemma send_frame_wire:
  assumes "length payload < 2 ^ 64" and "wc_open c" and "wc_writable c"
  shows "send_frame urandom opcode payload c =
    (Inr (), c\<lparr>wc_keys := Suc (wc_keys c),
      wc_sent := wc_sent c @ wire_frame (0x80 OR (opcode AND 0x0F)) (Some (urandom (wc_keys c))) payload\<rparr>)"
  using assms by (simp add: send_frame_def send_bytes_def frame_header_def wire_frame_def length_form_def Let_def)

text \<open>A read that meets a timeout either completes before it or gives up what it has read.\<close>

lemma read_exact_partial:
  assumes "proper_chunks inc" and "flat inc = map Some part @ None # rest" and "part @ remaining = xs @ ys"
  obtains (stalled) inc' where "read_exact (length xs) inc = (Inl (TimeoutError ''timed out''), inc')"
      and "flat inc' = rest" and "proper_chunks inc'"
  | (complete) part' inc' where "read_exact (length xs) inc = (Inr xs, inc')" and "proper_chunks inc'"
      and "flat inc' = map Some part' @ None # rest" and "part' @ remaining = ys"
proof (cases "length part < length xs")
  case True
  then show thesis using read_exact_stall [OF assms(1,2)] stalled by blast
next
  case False
  obtain us where "part = xs @ us \<and> us @ remaining = ys \<or> part @ us = xs \<and> remaining = us @ ys"
    using assms(3) by (auto simp: append_eq_append_conv2)
  then obtain part' where p: "part = xs @ part'" "part' @ remaining = ys" using False by (elim disjE) auto
  then show thesis using read_exact_ok [OF assms(1), of xs "map Some part' @ None # rest"] assms(2) complete by auto
qed

lemma read_frame_stalled:
  assumes "proper_chunks inc" and "flat inc = map Some part @ None # rest"
    and "part @ remaining = wire_frame first key payload" and "remaining \<noteq> []" and "proper_frame key payload"
  shows "\<exists>inc'. read_frame inc = (Inl (TimeoutError ''timed out''), inc') \<and> flat inc' = rest \<and> proper_chunks inc'"
proof (rule read_frame_parts [OF assms(5), of first])
  fix hs ext k data and measure' :: "octets \<Rightarrow> nat"
  assume w: "wire_frame first key payload = hs @ ext @ k @ data" "length hs = 2" "measure' ext = length data"
    and run: "\<And>inc i. read_exact 2 inc = (Inr hs, i) \<Longrightarrow> read_frame inc =
      s_bind (read_exact (length ext) i) (\<lambda>bs i2. s_bind (read_exact (length k) i2) (\<lambda>m i3.
        s_bind (read_exact (measure' bs) i3) (\<lambda>p i4.
          (Inr (first AND 0x0F, if key \<noteq> None then apply_mask m p else p), i4))))"
    and fail: "\<And>inc e i. read_exact 2 inc = (Inl e, i) \<Longrightarrow> read_frame inc = (Inl e, i)"
  from assms(1,2) assms(3) [unfolded w(1)] show ?thesis
  proof (cases rule: read_exact_partial)
    case (stalled i)
    then show ?thesis using fail w(2) by auto
  next
    case (complete part1 i1)
    note r1 = run [OF complete(1) [unfolded w(2)]]
    from complete(2-4) show ?thesis
    proof (cases rule: read_exact_partial)
      case (stalled i)
      then show ?thesis using r1 by simp
    next
      case (complete part2 i2)
      note r2 = r1 [unfolded complete(1) s_bind_simps]
      from complete(2-4) show ?thesis
      proof (cases rule: read_exact_partial)
        case (stalled i)
        then show ?thesis using r2 by simp
      next
        case (complete part3 i3)
        then have "length part3 < length data" using assms(4) by (metis length_append length_greater_0_conv less_add_same_cancel1)
        then obtain i where "read_exact (length data) i3 = (Inl (TimeoutError ''timed out''), i)" "flat i = rest"
          "proper_chunks i" using read_exact_stall [OF complete(2,3)] by blast
        then show ?thesis using r2 complete(1) w(3) by simp
      qed
    qed
  qed
qed

section \<open>Delivery\<close>

definition text_frame :: "octets option \<Rightarrow> octets \<Rightarrow> octets" where
  "text_frame key bs = wire_frame 0x81 key bs"

text \<open>A peer's ping or pong, and the pongs that answer the pings, keyed from the \<open>n\<close>th key on.\<close>

definition control_frame :: "bool \<times> octets option \<times> octets \<Rightarrow> octets" where
  "control_frame = (\<lambda>(ping, key, payload). wire_frame (if ping then 0x89 else 0x8A) key payload)"

fun pongs :: "(nat \<Rightarrow> octets) \<Rightarrow> nat \<Rightarrow> (bool \<times> octets option \<times> octets) list \<Rightarrow> octets" where
  "pongs urandom n [] = []"
| "pongs urandom n ((ping, key, payload) # cs) =
     (if ping then wire_frame 0x8A (Some (urandom n)) payload @ pongs urandom (Suc n) cs
      else pongs urandom n cs)"

lemma recv_text_frame:
  assumes "proper_chunks (wc_incoming c)" and "flat (wc_incoming c) = map Some (text_frame key bs) @ rest"
    and "utf8_encode t = Inr bs" and "proper_frame key bs"
  shows "\<exists>inc'. recv_text urandom c = (Inr t, c\<lparr>wc_incoming := inc'\<rparr>) \<and> flat inc' = rest \<and> proper_chunks inc'"
  using read_frame_wire [OF assms(1) assms(2) [unfolded text_frame_def] assms(4)] utf8_decode_encode [OF assms(3)]
  by (auto simp: recv_text.simps with_incoming_def)

lemma recv_text_controls:
  assumes "proper_chunks (wc_incoming c)" and "wc_open c" and "wc_writable c"
    and "flat (wc_incoming c) = map Some (concat (map control_frame cs) @ text_frame key bs) @ rest"
    and "\<forall>(ping, k, p)\<in>set cs. proper_frame k p" and "utf8_encode t = Inr bs" and "proper_frame key bs"
  shows "\<exists>c'. recv_text urandom c = (Inr t, c') \<and> flat (wc_incoming c') = rest \<and>
    proper_chunks (wc_incoming c') \<and> wc_sent c' = wc_sent c @ pongs urandom (wc_keys c) cs"
  using assms(1-5)
proof (induction cs arbitrary: c)
  case Nil
  then show ?case using recv_text_frame [OF Nil(1) _ assms(6,7)] by fastforce
next
  case (Cons x cs)
  obtain ping k p where x: "x = (ping, k, p)" by (cases x) simp
  have p: "proper_frame k p" using Cons.prems(5) x by simp
  obtain inc where f: "read_frame (wc_incoming c) = (Inr ((if ping then 0x89 else 0x8A) AND 0x0F, p), inc)"
    "flat inc = map Some (concat (map control_frame cs) @ text_frame key bs) @ rest" "proper_chunks inc"
    using read_frame_wire [OF Cons.prems(1) _ p] Cons.prems(4) x by (force simp: control_frame_def)
  let ?c1 = "c\<lparr>wc_incoming := inc\<rparr>"
  show ?case
  proof (cases ping)
    case True
    let ?c2 = "?c1\<lparr>wc_keys := Suc (wc_keys c), wc_sent := wc_sent c @ wire_frame 0x8A (Some (urandom (wc_keys c))) p\<rparr>"
    have "send_frame urandom 0xA p ?c1 = (Inr (), ?c2)"
      using p Cons.prems(2,3) by (subst send_frame_wire) (simp_all add: proper_frame_def)
    then have "recv_text urandom c = recv_text urandom ?c2"
      using f(1) True by (subst recv_text.simps) (simp add: with_incoming_def)
    then show ?thesis using Cons.IH [of ?c2] f(2,3) Cons.prems(2,3,5) x True by simp
  next
    case False
    then have "recv_text urandom c = recv_text urandom ?c1"
      using f(1) by (subst recv_text.simps) (simp add: with_incoming_def)
    then show ?thesis using Cons.IH [of ?c1] f(2,3) Cons.prems(2,3,5) x False by simp
  qed
qed

fun send_texts :: "(nat \<Rightarrow> octets) \<Rightarrow> unicode list \<Rightarrow> ws_connection \<Rightarrow> unit result \<times> ws_connection" where
  "send_texts urandom [] c = (Inr (), c)"
| "send_texts urandom (t # ts) c = s_bind (send_text urandom t c) (\<lambda>u c'. send_texts urandom ts c')"

fun recv_texts :: "(nat \<Rightarrow> octets) \<Rightarrow> nat \<Rightarrow> ws_connection \<Rightarrow> unicode list result \<times> ws_connection" where
  "recv_texts urandom 0 c = (Inr [], c)"
| "recv_texts urandom (Suc n) c =
     s_bind (recv_text urandom c) (\<lambda>t c1. s_bind (recv_texts urandom n c1) (\<lambda>ts c2. (Inr (t # ts), c2)))"

lemma send_text_Inr:
  assumes "send_text urandom t c = (Inr (), c')" and "\<And>n. length (urandom n) = 4"
  obtains bs where "utf8_encode t = Inr bs" and "proper_frame (Some (urandom (wc_keys c))) bs"
    and "wc_sent c' = wc_sent c @ text_frame (Some (urandom (wc_keys c))) bs"
proof -
  obtain bs where bs: "utf8_encode t = Inr bs" "send_frame urandom 0x1 bs c = (Inr (), c')"
    using assms(1) by (auto simp: send_text_def split: sum.splits)
  then have "length bs < 2 ^ 64" "wc_open c" "wc_writable c"
    by (auto simp: send_frame_def Let_def frame_header_def send_bytes_def split: if_splits sum.splits)
  moreover from this have "wc_sent c' = wc_sent c @ text_frame (Some (urandom (wc_keys c))) bs"
    using bs(2) by (auto simp: send_frame_wire text_frame_def)
  ultimately show thesis using bs(1) assms(2) by (intro that) (simp_all add: proper_frame_def)
qed

lemma texts_arrive:
  assumes "\<And>n. length (urandom n) = 4"
  shows "send_texts urandom ts c = (Inr (), c') \<Longrightarrow>
    \<exists>bs. wc_sent c' = wc_sent c @ bs \<and> (\<forall>d rest. proper_chunks (wc_incoming d) \<longrightarrow>
      flat (wc_incoming d) = map Some bs @ rest \<longrightarrow>
      (\<exists>d'. recv_texts urandom' (length ts) d = (Inr ts, d') \<and> flat (wc_incoming d') = rest \<and> wc_sent d' = wc_sent d))"
proof (induction ts arbitrary: c)
  case Nil
  then show ?case by simp
next
  case (Cons t ts)
  from Cons.prems obtain c1 where c1: "send_text urandom t c = (Inr (), c1)" "send_texts urandom ts c1 = (Inr (), c')"
    by (auto simp: s_bind_Inr)
  obtain b where b: "utf8_encode t = Inr b" "proper_frame (Some (urandom (wc_keys c))) b"
    "wc_sent c1 = wc_sent c @ text_frame (Some (urandom (wc_keys c))) b"
    using send_text_Inr [OF c1(1) assms] by blast
  obtain bs where bs: "wc_sent c' = wc_sent c1 @ bs" "\<And>d rest. proper_chunks (wc_incoming d) \<Longrightarrow>
      flat (wc_incoming d) = map Some bs @ rest \<Longrightarrow>
      \<exists>d'. recv_texts urandom' (length ts) d = (Inr ts, d') \<and> flat (wc_incoming d') = rest \<and> wc_sent d' = wc_sent d"
    using Cons.IH [OF c1(2)] by blast
  show ?case
  proof (intro exI [of _ "text_frame (Some (urandom (wc_keys c))) b @ bs"] conjI allI impI)
    show "wc_sent c' = wc_sent c @ text_frame (Some (urandom (wc_keys c))) b @ bs" using bs(1) b(3) by simp
    fix d :: ws_connection and rest
    assume d: "proper_chunks (wc_incoming d)"
      "flat (wc_incoming d) = map Some (text_frame (Some (urandom (wc_keys c))) b @ bs) @ rest"
    obtain inc where inc: "recv_text urandom' d = (Inr t, d\<lparr>wc_incoming := inc\<rparr>)" "flat inc = map Some bs @ rest"
      "proper_chunks inc"
      using recv_text_frame [OF d(1) _ b(1,2)] d(2) by fastforce
    then show "\<exists>d'. recv_texts urandom' (length (t # ts)) d = (Inr (t # ts), d') \<and> flat (wc_incoming d') = rest
        \<and> wc_sent d' = wc_sent d"
      using bs(2) [of "d\<lparr>wc_incoming := inc\<rparr>" rest] by auto
  qed
qed

section \<open>Properties\<close>

text \<open>
  C35. Whatever texts one end sends through the frame codec, the other end receives: the same texts, in
  order, each once, however the network cuts the bytes into chunks, and the bytes after them are
  untouched.
\<close>

theorem texts_arrive_in_order:
  assumes "send_texts urandom ts c = (Inr (), c')" and "\<And>n. length (urandom n) = 4"
    and "wc_sent c' = wc_sent c @ bs" and "proper_chunks (wc_incoming d)"
    and "flat (wc_incoming d) = map Some bs @ rest"
  shows "\<exists>d'. recv_texts urandom' (length ts) d = (Inr ts, d') \<and> flat (wc_incoming d') = rest"
proof -
  obtain bs' where "wc_sent c' = wc_sent c @ bs'" "\<And>d rest. proper_chunks (wc_incoming d) \<Longrightarrow>
      flat (wc_incoming d) = map Some bs' @ rest \<Longrightarrow>
      \<exists>d'. recv_texts urandom' (length ts) d = (Inr ts, d') \<and> flat (wc_incoming d') = rest \<and> wc_sent d' = wc_sent d"
    using texts_arrive [OF assms(2,1)] by blast
  then show ?thesis using assms(3-5) by force
qed

definition fresh_socket :: "arrival list \<Rightarrow> ws_connection" where
  "fresh_socket inc = \<lparr>wc_incoming = inc, wc_sent = [], wc_open = True, wc_writable = True, wc_keys = 0\<rparr>"

definition sample_texts :: "unicode list" where
  "sample_texts = [[72, 8364, 128512], []]"

definition sample_keys :: "nat \<Rightarrow> octets" where
  "sample_keys n = [1, 2, 3, of_nat n]"

definition sample_bytes :: octets where
  "sample_bytes = [0x81, 0x88, 1, 2, 3, 0, 0x49, 0xE0, 0x81, 0xAC, 0xF1, 0x9D, 0x9B, 0x80, 0x81, 0x80, 1, 2, 3, 1]"

lemma sample_sent: "send_texts sample_keys sample_texts (fresh_socket []) =
    (Inr (), (fresh_socket [])\<lparr>wc_sent := sample_bytes, wc_keys := 2\<rparr>)"
  by (simp add: sample_texts_def fresh_socket_def send_text_def utf8_encode_def scalar_def utf8_char_def
      send_frame_def frame_header_def send_bytes_def apply_mask_def sample_keys_def sample_bytes_def)

lemma texts_arrive_in_order_witness:
  "\<exists>d'. recv_texts sample_keys 2 (fresh_socket [Chunk (take 3 sample_bytes), Chunk (drop 3 sample_bytes), Stall])
     = (Inr sample_texts, d') \<and> flat (wc_incoming d') = [None]"
  using texts_arrive_in_order [OF sample_sent, of sample_bytes
      "fresh_socket [Chunk (take 3 sample_bytes), Chunk (drop 3 sample_bytes), Stall]" "[None]" sample_keys]
  by (simp del: recv_texts.simps add: numeral_2_eq_2 sample_keys_def fresh_socket_def sample_bytes_def proper_chunks_def sample_texts_def)

text \<open>
  Control frames never reach the caller and never stop it: reading a text skips any pings and pongs
  before it, answers every ping with exactly one pong that carries the ping's payload, in order, and
  returns the text with the bytes after it untouched.
\<close>

theorem pings_answered:
  assumes "proper_chunks (wc_incoming c)" and "wc_open c" and "wc_writable c"
    and "flat (wc_incoming c) = map Some (concat (map control_frame cs) @ text_frame key bs) @ rest"
    and "\<forall>(ping, k, p)\<in>set cs. proper_frame k p" and "utf8_encode t = Inr bs" and "proper_frame key bs"
  shows "\<exists>c'. recv_text urandom c = (Inr t, c') \<and> flat (wc_incoming c') = rest \<and>
    wc_sent c' = wc_sent c @ pongs urandom (wc_keys c) cs"
  using recv_text_controls [OF assms] by blast

lemma pings_answered_witness:
  "\<exists>c'. recv_text sample_keys (fresh_socket [Chunk [0x89, 1, 7, 0x8A], Chunk [0, 0x89], Chunk [0, 0x81, 1, 65]])
     = (Inr [65], c') \<and> wc_sent c' = pongs sample_keys 0 [(True, None, [7]), (True, None, [])]"
  using pings_answered [of "fresh_socket [Chunk [0x89, 1, 7, 0x8A], Chunk [0, 0x89], Chunk [0, 0x81, 1, 65]]"
      "[(True, None, [7]), (False, None, []), (True, None, [])]" None "[65]" "[]" "[65]" sample_keys]
  by (simp add: fresh_socket_def proper_chunks_def control_frame_def text_frame_def wire_frame_def length_form_def
      proper_frame_def utf8_encode_def scalar_def utf8_char_def) blast

text \<open>
  A read timeout in the middle of a frame loses the bytes already read: the timeout is raised, nothing
  is put back, and the next read starts inside the frame.
\<close>

theorem timeout_drops_partial_frame:
  assumes "proper_chunks (wc_incoming c)" and "wire_frame first key payload = part @ remaining"
    and "remaining \<noteq> []" and "proper_frame key payload"
    and "flat (wc_incoming c) = map Some part @ None # map Some remaining @ rest"
  shows "\<exists>c'. recv_text urandom c = (Inl (TimeoutError ''timed out''), c') \<and>
    flat (wc_incoming c') = map Some remaining @ rest \<and> wc_sent c' = wc_sent c"
  using read_frame_stalled [OF assms(1,5) assms(2) [symmetric] assms(3,4)]
  by (auto simp: recv_text.simps with_incoming_def)

lemma timeout_drops_partial_frame_witness:
  "\<exists>c' c''. recv_text sample_keys (fresh_socket [Chunk [0x81, 4], Stall, Chunk [65, 2, 104, 105]])
     = (Inl (TimeoutError ''timed out''), c') \<and> recv_text sample_keys c' = (Inr [104, 105], c'')"
proof -
  let ?c = "fresh_socket [Chunk [0x81, 4], Stall, Chunk [65, 2, 104, 105]]"
  have "\<exists>c'. recv_text sample_keys ?c = (Inl (TimeoutError ''timed out''), c') \<and>
      flat (wc_incoming c') = map Some [65, 2, 104, 105] @ [] \<and> wc_sent c' = wc_sent ?c"
    by (rule timeout_drops_partial_frame [where first = "0x81" and key = None and payload = "[65, 2, 104, 105]"
          and part = "[0x81, 4]"])
      (simp_all add: fresh_socket_def proper_chunks_def wire_frame_def length_form_def proper_frame_def)
  moreover have "recv_text sample_keys ?c = (Inl (TimeoutError ''timed out''), fresh_socket [Chunk [65, 2, 104, 105]])"
    by code_simp
  moreover have "\<exists>c''. recv_text sample_keys (fresh_socket [Chunk [65, 2, 104, 105]]) = (Inr [104, 105], c'')"
    by (rule exI [of _ "fresh_socket []"]) code_simp
  ultimately show ?thesis by auto
qed

end
