(* ===== verification/PrivateTransport.thy ===== *)
theory PrivateTransport
  imports RestrictedTransport WebSocketFrames ExchangeEdge
begin

text \<open>
  \<open>BinancePrivateUserDataTransport\<close> of \<open>app/exchanges/binance/private_transport.py\<close>: the private-stream
  transport over the WebSocket API. It numbers its connections and requests, subscribes with a signed
  request, keeps the messages that arrive before the answer, and reads event payloads. Its connections
  are those of WebSocketFrames, the default factory's. Parameters are the factory (the connection each
  attempt opens, or its exception), \<open>json.loads\<close> and \<open>json.dumps\<close>, HMAC, the clock and its epoch
  milliseconds. \<open>private_ops\<close> is the transport as the payload source of RestrictedTransport uses it.
\<close>

section \<open>State\<close>

record private_transport =
  px_connections :: "(string, ws_connection) dict"
  px_pending :: "(string, json list) dict"
  px_subscriptions :: "(string, stream_subscription) dict"
  px_next_connection :: nat
  px_next_request :: nat
  px_tracker :: "weight_tracker option"
  px_attempts :: nat
  px_ticks :: nat

record transport_env =
  pe_api_key :: string
  pe_api_secret :: string
  pe_profile :: string
  pe_recv_window_ms :: int
  pe_session_ttl :: timedelta
  pe_connect :: "string \<Rightarrow> nat \<Rightarrow> ws_connection result"
  pe_urandom :: "string \<Rightarrow> nat \<Rightarrow> octets"
  pe_loads :: "unicode \<Rightarrow> json result"
  pe_dumps :: "payload \<Rightarrow> unicode"
  pe_sign :: "string \<Rightarrow> string \<Rightarrow> string"
  pe_clock :: "nat \<Rightarrow> datetime"
  pe_millis :: "datetime \<Rightarrow> int"

text \<open>\<open>__post_init__\<close>\<close>

definition new_private_transport ::
    "(string \<Rightarrow> string option) \<Rightarrow> adapter_config \<Rightarrow> weight_tracker option \<Rightarrow> private_transport result" where
  "new_private_transport hostname config tracker =
     r_bind (validate_endpoint_profile hostname config) (\<lambda>_.
       Inr \<lparr>px_connections = [], px_pending = [], px_subscriptions = [], px_next_connection = 1,
            px_next_request = 1, px_tracker = tracker, px_attempts = 0, px_ticks = 0\<rparr>)"

section \<open>Connections\<close>

definition ws_api_url :: "string \<Rightarrow> string result" where
  "ws_api_url profile =
     (if profile = ''binance_spot_prod'' then Inr ''wss://ws-api.binance.com:443/ws-api/v3''
      else if profile = ''binance_spot_testnet'' then Inr ''wss://ws-api.testnet.binance.vision/ws-api/v3''
      else Inl (ValueError (''unsupported Binance endpoint profile for WS-API private stream: '' @ profile)))"

definition connection_name :: "nat \<Rightarrow> string" where
  "connection_name n = ''private-connection-'' @ nat_str n"

definition open_connection ::
    "transport_env \<Rightarrow> string \<Rightarrow> private_transport \<Rightarrow> string result \<times> private_transport" where
  "open_connection env scope t =
     (case ws_api_url (pe_profile env) of
        Inl e \<Rightarrow> (Inl e, t)
      | Inr url \<Rightarrow>
          (let t1 = t\<lparr>px_attempts := Suc (px_attempts t)\<rparr>
           in case pe_connect env url (px_attempts t) of
                Inl e \<Rightarrow> (Inl e, t1)
              | Inr connection \<Rightarrow>
                  (let cid = connection_name (px_next_connection t)
                   in (Inr cid, t1\<lparr>px_next_connection := px_next_connection t + 1,
                         px_connections := dict_set cid connection (px_connections t),
                         px_pending := dict_set cid [] (px_pending t)\<rparr>))))"

definition close_connection ::
    "transport_env \<Rightarrow> string \<Rightarrow> private_transport \<Rightarrow> unit result \<times> private_transport" where
  "close_connection env cid t =
     (Inr (), t\<lparr>px_connections := AList.delete cid (px_connections t),
                px_pending := AList.delete cid (px_pending t),
                px_subscriptions := AList.delete cid (px_subscriptions t)\<rparr>)"

section \<open>Subscribing\<close>

definition reserve_weight ::
    "transport_env \<Rightarrow> string \<Rightarrow> int \<Rightarrow> private_transport \<Rightarrow> unit result \<times> private_transport" where
  "reserve_weight env endpoint weight t =
     (case px_tracker t of
        None \<Rightarrow> (Inr (), t)
      | Some tracker \<Rightarrow>
          (let (snap, tracker') = consume endpoint weight (pe_clock env (px_ticks t)) tracker;
               t' = t\<lparr>px_tracker := Some tracker', px_ticks := Suc (px_ticks t)\<rparr>
           in if ws_is_throttled snap
              then (Inl (RuntimeError (py_or (ws_alert snap) ''request-weight budget exceeded'')), t')
              else (Inr (), t')))"

definition signed_ws_api_params :: "transport_env \<Rightarrow> datetime \<Rightarrow> payload" where
  "signed_ws_api_params env now =
     (let window = pe_recv_window_ms env; timestamp = pe_millis env now;
          query = ''apiKey='' @ pe_api_key env @ ''&recvWindow='' @ int_str window
            @ ''&timestamp='' @ int_str timestamp
      in [(''apiKey'', JStr (pe_api_key env)), (''recvWindow'', JInt window), (''timestamp'', JInt timestamp),
          (''signature'', JStr (pe_sign env (pe_api_secret env) query))])"

text \<open>\<open>v == n\<close> for an int \<open>n\<close>\<close>

definition json_eq_int :: "json \<Rightarrow> int \<Rightarrow> bool" where
  "json_eq_int v n =
     (case v of JInt i \<Rightarrow> i = n | JBool b \<Rightarrow> (if b then 1 else 0) = n
      | JFloat r \<Rightarrow> float_value r = Some (of_int n) | _ \<Rightarrow> False)"

definition check_response :: "payload \<Rightarrow> payload result" where
  "check_response p =
     (if jget p ''status'' \<noteq> JNull \<and> \<not> json_eq_int (jget p ''status'') 200 then
        Inl (RuntimeError (''Binance private WS-API request failed: ''
          @ py_str (json_or (json_or (jget p ''error'') (jget p ''msg'')) (JStr ''private WS-API request failed''))))
      else case dict_get p ''error'' of
             Some e \<Rightarrow> Inl (RuntimeError (''Binance private WS-API request failed: '' @ py_str e))
           | None \<Rightarrow> Inr p)"

text \<open>The loop of \<open>_await_response\<close>, with the pending messages of the connection.\<close>

function await_response ::
    "(unicode \<Rightarrow> json result) \<Rightarrow> (nat \<Rightarrow> octets) \<Rightarrow> int \<Rightarrow> ws_connection \<times> json list
      \<Rightarrow> payload result \<times> (ws_connection \<times> json list)" where
  "await_response loads urandom request_id (c, pending) =
     (case recv_text urandom c of
        (Inl e, c') \<Rightarrow> (Inl e, (c', pending))
      | (Inr raw, c') \<Rightarrow>
          (case loads raw of
             Inl e \<Rightarrow> (Inl e, (c', pending))
           | Inr (JObj p) \<Rightarrow>
               if json_eq_int (jget p ''id'') request_id then (check_response p, (c', pending))
               else await_response loads urandom request_id (c', pending @ [JObj p])
           | Inr v \<Rightarrow> (Inl (ValueError ''private WS-API response must decode to an object''), (c', pending))))"
  by pat_completeness auto
termination
  by (relation "measure (\<lambda>(l, u, r, c, p). length (flat (wc_incoming c)))") (auto dest!: sym [of _ "recv_text _ _"] recv_text_consumes)

declare await_response.simps [simp del]

definition extract_subscription_id :: "payload \<Rightarrow> string result" where
  "extract_subscription_id p =
     (let r = jget p ''result'';
          nested = (case r of JObj q \<Rightarrow> jget q ''subscriptionId'' | _ \<Rightarrow> JNull)
      in if nested \<noteq> JNull then Inr (py_str nested)
         else if jget p ''subscriptionId'' \<noteq> JNull then Inr (py_str (jget p ''subscriptionId''))
         else if \<not> absent r \<and> (case r of JObj q \<Rightarrow> False | _ \<Rightarrow> True) then Inr (py_str r)
         else Inl (ValueError ''private WS-API subscribe response missing subscriptionId''))"

definition subscription_of :: "transport_env \<Rightarrow> string \<Rightarrow> datetime \<Rightarrow> stream_subscription" where
  "subscription_of env sid now =
     \<lparr>sub_subscription_id = sid, sub_stream_key = ''subscription-'' @ sid,
      sub_bootstrap_method = ''userDataStream.subscribe.signature'',
      sub_expires_at = Some (dt_add now (pe_session_ttl env))\<rparr>"

text \<open>The two stores of one connection, as the request and its answer leave them.\<close>

definition put_link :: "string \<Rightarrow> ws_connection \<times> json list \<Rightarrow> private_transport \<Rightarrow> private_transport" where
  "put_link cid = (\<lambda>(c, pending) t.
     t\<lparr>px_connections := dict_set cid c (px_connections t), px_pending := dict_set cid pending (px_pending t)\<rparr>)"

definition subscribe_private ::
    "transport_env \<Rightarrow> string \<Rightarrow> string \<Rightarrow> private_transport \<Rightarrow> stream_subscription result \<times> private_transport" where
  "subscribe_private env cid scope t =
     (case dict_get (px_connections t) cid of
        None \<Rightarrow> (Inl (KeyError (''unknown private connection: '' @ cid)), t)
      | Some c \<Rightarrow>
          s_bind (reserve_weight env ''ws-api:userDataStream.subscribe.signature'' 2 t) (\<lambda>u t1.
          let request_id = px_next_request t1;
              params = signed_ws_api_params env (pe_clock env (px_ticks t1));
              t2 = t1\<lparr>px_next_request := request_id + 1, px_ticks := Suc (px_ticks t1)\<rparr>;
              request = [(''id'', JInt (int request_id)), (''method'', JStr ''userDataStream.subscribe.signature''),
                (''params'', JObj params)];
              pending = dict_get_default (px_pending t2) cid []
          in s_bind (case send_text (pe_urandom env cid) (pe_dumps env request) c of
                 (r, c1) \<Rightarrow> (r, put_link cid (c1, pending) t2)) (\<lambda>u t3.
          s_bind (case await_response (pe_loads env) (pe_urandom env cid) (int request_id)
                     (case dict_get (px_connections t3) cid of None \<Rightarrow> c | Some c1 \<Rightarrow> c1, pending) of
                 (r, link) \<Rightarrow> (r, put_link cid link t3)) (\<lambda>response t4.
          case extract_subscription_id response of
            Inl e \<Rightarrow> (Inl e, t4)
          | Inr sid \<Rightarrow>
              (let sub = subscription_of env sid (pe_clock env (px_ticks t4))
               in (Inr sub, t4\<lparr>px_ticks := Suc (px_ticks t4),
                     px_subscriptions := dict_set cid sub (px_subscriptions t4)\<rparr>))))))"

section \<open>Reading\<close>

definition normalize_event_payload :: "json \<Rightarrow> payload result" where
  "normalize_event_payload parsed =
     (case parsed of
        JObj p \<Rightarrow>
          (let q = (case jget p ''event'' of JObj e \<Rightarrow> e
                    | _ \<Rightarrow> (case jget p ''data'' of JObj d \<Rightarrow> d | _ \<Rightarrow> p))
           in if dict_get q ''status'' \<noteq> None \<and> jget q ''e'' = JNull \<and> jget q ''event'' = JNull
              then Inl (ValueError ''private websocket payload is a control response, not an event'')
              else Inr q)
      | _ \<Rightarrow> Inl (ValueError ''private websocket payload must decode to an object''))"

text \<open>What one message is to the reader.\<close>

definition event_of :: "json \<Rightarrow> read_outcome" where
  "event_of parsed =
     (case normalize_event_payload parsed of
        Inl e \<Rightarrow> ReadFailed e
      | Inr p \<Rightarrow> if dict_get p ''e'' = None
          then ReadFailed (ValueError ''private websocket payload missing event type'') else ReadPayload p)"

definition read_payload ::
    "transport_env \<Rightarrow> string \<Rightarrow> private_transport \<Rightarrow> read_outcome \<times> private_transport" where
  "read_payload env cid t =
     (case dict_get (px_connections t) cid of
        None \<Rightarrow> (ReadFailed (KeyError (''unknown private connection: '' @ cid)), t)
      | Some c \<Rightarrow>
          (case dict_get_default (px_pending t) cid [] of
             m # ms \<Rightarrow> (event_of m, t\<lparr>px_pending := dict_set cid ms (px_pending t)\<rparr>)
           | [] \<Rightarrow>
               (let (r, c') = recv_text (pe_urandom env cid) c;
                    t' = t\<lparr>px_connections := dict_set cid c' (px_connections t)\<rparr>
                in case r of
                     Inl (TimeoutError msg) \<Rightarrow> (ReadTimeout, t')
                   | Inl e \<Rightarrow> (ReadFailed e, t')
                   | Inr raw \<Rightarrow>
                       (case pe_loads env raw of Inl e \<Rightarrow> (ReadFailed e, t') | Inr m \<Rightarrow> (event_of m, t')))))"

definition private_ops :: "transport_env \<Rightarrow> private_transport transport_ops" where
  "private_ops env =
     \<lparr>to_open = open_connection env, to_subscribe = subscribe_private env,
      to_close = close_connection env, to_read = read_payload env\<rparr>"

section \<open>Uses of the transport\<close>

inductive used :: "transport_env \<Rightarrow> private_transport \<Rightarrow> private_transport \<Rightarrow> bool" for env t where
  unused: "used env t t"
| opened: "used env t u \<Longrightarrow> open_connection env scope u = (r, v) \<Longrightarrow> used env t v"
| subscribed: "used env t u \<Longrightarrow> subscribe_private env cid scope u = (r', v) \<Longrightarrow> used env t v"
| read: "used env t u \<Longrightarrow> read_payload env cid u = (out, v) \<Longrightarrow> used env t v"
| closed: "used env t u \<Longrightarrow> close_connection env cid u = (r'', v) \<Longrightarrow> used env t v"

definition px_ok :: "private_transport \<Rightarrow> bool" where
  "px_ok t \<longleftrightarrow>
     wf_dict (px_connections t) \<and> wf_dict (px_pending t) \<and> wf_dict (px_subscriptions t) \<and>
     fst ` set (px_pending t) = fst ` set (px_connections t) \<and>
     fst ` set (px_subscriptions t) \<subseteq> fst ` set (px_connections t) \<and>
     fst ` set (px_connections t) \<subseteq> connection_name ` {n. 1 \<le> n \<and> n < px_next_connection t} \<and>
     1 \<le> px_next_connection t"

definition others_untouched :: "string \<Rightarrow> private_transport \<Rightarrow> private_transport \<Rightarrow> bool" where
  "others_untouched cid t t' \<longleftrightarrow>
     (\<forall>other. other \<noteq> cid \<longrightarrow> dict_get (px_connections t') other = dict_get (px_connections t) other \<and>
       dict_get (px_pending t') other = dict_get (px_pending t) other)"

fun reads :: "transport_env \<Rightarrow> string \<Rightarrow> nat \<Rightarrow> private_transport \<Rightarrow> read_outcome list \<times> private_transport" where
  "reads env cid 0 t = ([], t)"
| "reads env cid (Suc n) t =
     (let (r, t') = read_payload env cid t; (rs, t'') = reads env cid n t' in (r # rs, t''))"

section \<open>Facts\<close>

lemma nat_str_inj [simp]: "nat_str m = nat_str n \<longleftrightarrow> m = n"
  using int_str_inj [of "int m" "int n"] by (simp add: int_str_def)

lemma connection_name_inj [simp]: "connection_name m = connection_name n \<longleftrightarrow> m = n"
  by (simp add: connection_name_def)

lemma dict_get_delete [simp]: "dict_get (AList.delete k d) k' = (if k' = k then None else dict_get d k')"
  by (simp add: delete_conv')

lemma wf_dict_delete [simp]: "wf_dict d \<Longrightarrow> wf_dict (AList.delete k d)"
  by (simp add: wf_dict_def distinct_delete)

lemma keys_delete [simp]: "fst ` set (AList.delete k d) = fst ` set d - {k}"
  by (simp add: delete_keys flip: set_map)

lemma dict_get_key: "dict_get d k = Some v \<Longrightarrow> k \<in> fst ` set d"
  by (metis map_of_eq_None_iff option.distinct(1))

lemma reserve_weight_fields [simp]:
  "reserve_weight env e w t = (r, t') \<Longrightarrow> px_connections t' = px_connections t \<and> px_pending t' = px_pending t \<and>
     px_subscriptions t' = px_subscriptions t \<and> px_next_connection t' = px_next_connection t \<and>
     px_next_request t' = px_next_request t \<and> px_attempts t' = px_attempts t"
  by (auto simp: reserve_weight_def Let_def split: option.splits prod.splits if_splits)

lemma put_link_fields [simp]:
  "px_connections (put_link cid l t) = dict_set cid (fst l) (px_connections t)"
  "px_pending (put_link cid l t) = dict_set cid (snd l) (px_pending t)"
  "px_subscriptions (put_link cid l t) = px_subscriptions t"
  "px_next_connection (put_link cid l t) = px_next_connection t"
  "px_next_request (put_link cid l t) = px_next_request t"
  "px_ticks (put_link cid l t) = px_ticks t"
  by (simp_all add: put_link_def split: prod.splits)

text \<open>Work on one connection: its own entries may change, those of the others do not.\<close>

definition grown :: "'k \<Rightarrow> ('k, 'v) dict \<Rightarrow> ('k, 'v) dict \<Rightarrow> bool" where
  "grown k d d' \<longleftrightarrow>
     fst ` set d \<subseteq> fst ` set d' \<and> fst ` set d' \<subseteq> insert k (fst ` set d) \<and> (wf_dict d \<longrightarrow> wf_dict d') \<and>
     (\<forall>k'. k' \<noteq> k \<longrightarrow> dict_get d' k' = dict_get d k')"

lemma grown_refl [simp]: "grown k d d"
  by (auto simp: grown_def)

lemma grown_set [simp]: "grown k d (dict_set k v d)"
  by (auto simp: grown_def keys_dict_set dict_get_set)

lemma grown_trans:
  assumes "grown k d e" and "grown k e f"
  shows "grown k d f"
proof -
  have "fst ` set e \<subseteq> insert k (fst ` set d)" "fst ` set f \<subseteq> insert k (fst ` set e)"
    using assms by (simp_all add: grown_def)
  then have "fst ` set f \<subseteq> insert k (fst ` set d)" by blast
  moreover have "fst ` set d \<subseteq> fst ` set e" "fst ` set e \<subseteq> fst ` set f" using assms by (simp_all add: grown_def)
  then have "fst ` set d \<subseteq> fst ` set f" by (rule subset_trans)
  ultimately show ?thesis using assms by (simp add: grown_def)
qed

lemma grown_keys: "grown k d d' \<Longrightarrow> k \<in> fst ` set d \<Longrightarrow> fst ` set d' = fst ` set d"
  by (auto simp: grown_def)

lemma grown_wf: "grown k d d' \<Longrightarrow> wf_dict d \<Longrightarrow> wf_dict d'"
  by (simp add: grown_def)

definition moved :: "string \<Rightarrow> private_transport \<Rightarrow> private_transport \<Rightarrow> bool" where
  "moved cid t t' \<longleftrightarrow>
     grown cid (px_connections t) (px_connections t') \<and> grown cid (px_pending t) (px_pending t') \<and>
     grown cid (px_subscriptions t) (px_subscriptions t') \<and> px_next_connection t' = px_next_connection t"

lemma moved_refl [simp]: "moved cid t t"
  by (simp add: moved_def)

lemma moved_trans: "moved cid t u \<Longrightarrow> moved cid u v \<Longrightarrow> moved cid t v"
  by (auto simp: moved_def intro: grown_trans)

lemma moved_put_link: "moved cid t u \<Longrightarrow> moved cid t (put_link cid l u)"
  by (erule moved_trans) (simp add: moved_def)

lemma moved_reserve: "reserve_weight env e w t = (r, t') \<Longrightarrow> moved cid t t'"
  by (drule reserve_weight_fields) (simp add: moved_def)

lemma moved_counters:
  "moved cid t u \<Longrightarrow> moved cid t (u\<lparr>px_next_request := n, px_ticks := k\<rparr>)"
  "moved cid t u \<Longrightarrow> moved cid t (u\<lparr>px_ticks := k, px_subscriptions := dict_set cid sub (px_subscriptions u)\<rparr>)"
  by (auto intro: moved_trans simp: moved_def grown_trans [OF _ grown_set])

lemma subscribe_moved:
  assumes "subscribe_private env cid scope t = (r, t')"
  shows "moved cid t t' \<and> (dict_get (px_connections t) cid = None \<longrightarrow> t' = t)"
proof (cases "dict_get (px_connections t) cid")
  case None
  then show ?thesis using assms by (simp add: subscribe_private_def)
next
  case (Some c)
  obtain r1 t1 where w: "reserve_weight env ''ws-api:userDataStream.subscribe.signature'' 2 t = (r1, t1)" by force
  show ?thesis
  proof (cases r1)
    case (Inl e)
    then show ?thesis using assms Some w moved_reserve [OF w] by (simp add: subscribe_private_def)
  next
    case (Inr u)
    let ?t2 = "t1\<lparr>px_next_request := px_next_request t1 + 1, px_ticks := Suc (px_ticks t1)\<rparr>"
    have t2: "moved cid t ?t2" using moved_reserve [OF w] by (rule moved_counters)
    obtain r3 c3 where s: "send_text (pe_urandom env cid) (pe_dumps env
          [(''id'', JInt (int (px_next_request t1))), (''method'', JStr ''userDataStream.subscribe.signature''),
           (''params'', JObj (signed_ws_api_params env (pe_clock env (px_ticks t1))))]) c = (r3, c3)" by force
    let ?t3 = "put_link cid (c3, dict_get_default (px_pending ?t2) cid []) ?t2"
    have t3: "moved cid t ?t3" using t2 by (rule moved_put_link)
    show ?thesis
    proof (cases r3)
      case (Inl e)
      then show ?thesis using assms Some w Inr s t3 by (simp add: subscribe_private_def Let_def)
    next
      case Inr3: (Inr u')
      obtain r4 l4 where a: "await_response (pe_loads env) (pe_urandom env cid) (int (px_next_request t1))
          (case dict_get (px_connections ?t3) cid of None \<Rightarrow> c | Some c1 \<Rightarrow> c1,
           dict_get_default (px_pending ?t2) cid []) = (r4, l4)" by (metis surj_pair)
      let ?t4 = "put_link cid l4 ?t3"
      have t4: "moved cid t ?t4" using t3 by (rule moved_put_link)
      have "t' = ?t4 \<or> (\<exists>k sub. t' = ?t4\<lparr>px_ticks := k, px_subscriptions := dict_set cid sub (px_subscriptions ?t4)\<rparr>)"
        using assms Some w Inr s Inr3 a
        by (auto simp: subscribe_private_def Let_def s_bind_def split: sum.splits)
      then show ?thesis using t4 Some moved_counters(2) [OF t4] by (elim disjE exE) simp_all
    qed
  qed
qed

lemma read_moved:
  assumes "read_payload env cid t = (out, t')"
  shows "moved cid t t' \<and> (dict_get (px_connections t) cid = None \<longrightarrow> t' = t)"
proof (cases "dict_get (px_connections t) cid")
  case None
  then show ?thesis using assms by (simp add: read_payload_def)
next
  case (Some c)
  have "\<exists>c' ms. t' = t\<lparr>px_connections := dict_set cid c' (px_connections t)\<rparr> \<or>
      t' = t\<lparr>px_pending := dict_set cid ms (px_pending t)\<rparr>"
    using assms Some by (auto simp: read_payload_def Let_def split: list.splits prod.splits sum.splits py_error.splits)
  then show ?thesis using Some by (auto simp: moved_def)
qed

lemma moved_ok:
  assumes "px_ok t" and "moved cid t t'" and "dict_get (px_connections t) cid = None \<longrightarrow> t' = t"
  shows "px_ok t'"
proof (cases "dict_get (px_connections t) cid")
  case None
  then show ?thesis using assms by simp
next
  case (Some c)
  then have c: "cid \<in> fst ` set (px_connections t)" by (rule dict_get_key)
  then have p: "cid \<in> fst ` set (px_pending t)" using assms(1) by (simp add: px_ok_def)
  have "grown cid (px_connections t) (px_connections t')" "grown cid (px_pending t) (px_pending t')"
    using assms(2) by (simp_all add: moved_def)
  note keys = grown_keys [OF this(1) c] grown_keys [OF this(2) p]
  have "fst ` set (px_subscriptions t') \<subseteq> insert cid (fst ` set (px_subscriptions t))"
    using assms(2) by (simp add: moved_def grown_def)
  then have "fst ` set (px_subscriptions t') \<subseteq> fst ` set (px_connections t')"
    using assms(1) c unfolding keys px_ok_def by blast
  moreover have "wf_dict (px_connections t')" "wf_dict (px_pending t')" "wf_dict (px_subscriptions t')"
    using assms(1,2) by (simp_all add: px_ok_def moved_def grown_def)
  ultimately show ?thesis using assms(1,2) keys unfolding px_ok_def moved_def by simp
qed

lemma open_connection_cases:
  assumes "open_connection env scope t = (r, t')"
  obtains (failed) e where "r = Inl e" and "px_connections t' = px_connections t" and "px_pending t' = px_pending t"
      and "px_subscriptions t' = px_subscriptions t" and "px_next_connection t' = px_next_connection t"
  | (opened) c where "r = Inr (connection_name (px_next_connection t))"
      and "px_connections t' = dict_set (connection_name (px_next_connection t)) c (px_connections t)"
      and "px_pending t' = dict_set (connection_name (px_next_connection t)) [] (px_pending t)"
      and "px_subscriptions t' = px_subscriptions t" and "px_next_connection t' = Suc (px_next_connection t)"
proof (cases "ws_api_url (pe_profile env)")
  case (Inl e)
  then show thesis using assms failed [of e] by (simp add: open_connection_def)
next
  case url: (Inr url)
  show thesis
  proof (cases "pe_connect env url (px_attempts t)")
    case (Inl e)
    then have "r = Inl e" "t' = t\<lparr>px_attempts := Suc (px_attempts t)\<rparr>"
      using assms url by (simp_all add: open_connection_def Let_def)
    then show thesis using failed [of e] by simp
  next
    case (Inr c)
    then have "r = Inr (connection_name (px_next_connection t))"
      "t' = t\<lparr>px_attempts := Suc (px_attempts t), px_next_connection := px_next_connection t + 1,
        px_connections := dict_set (connection_name (px_next_connection t)) c (px_connections t),
        px_pending := dict_set (connection_name (px_next_connection t)) [] (px_pending t)\<rparr>"
      using assms url by (simp_all add: open_connection_def Let_def)
    then show thesis using opened [of c] by simp
  qed
qed

lemma open_ok:
  assumes "px_ok t" and "open_connection env scope t = (r, t')"
  shows "px_ok t'"
  using assms(2)
proof (cases rule: open_connection_cases)
  case failed
  then show ?thesis using assms(1) by (simp add: px_ok_def)
next
  case (opened c)
  let ?names = "\<lambda>n. connection_name ` {i. 1 \<le> i \<and> i < n}"
  have names: "?names (Suc (px_next_connection t)) = insert (connection_name (px_next_connection t)) (?names (px_next_connection t))"
    using assms(1) by (auto simp: px_ok_def less_Suc_eq)
  have a: "fst ` set (px_subscriptions t) \<subseteq> fst ` set (px_connections t)"
    "fst ` set (px_connections t) \<subseteq> ?names (px_next_connection t)" using assms(1) unfolding px_ok_def by simp_all
  have "fst ` set (px_subscriptions t') \<subseteq> fst ` set (px_connections t')"
    unfolding opened keys_dict_set using a(1) by (rule subset_insertI2)
  moreover have "fst ` set (px_connections t') \<subseteq> ?names (px_next_connection t')"
    unfolding opened names keys_dict_set using a(2) by (rule insert_mono)
  ultimately show ?thesis using assms(1) unfolding px_ok_def opened keys_dict_set by simp
qed

lemma close_ok:
  assumes "px_ok t" and "close_connection env cid t = (r, t')"
  shows "px_ok t'"
proof -
  have "fst ` set (px_subscriptions t) - {cid} \<subseteq> fst ` set (px_connections t) - {cid}"
    "fst ` set (px_connections t) - {cid} \<subseteq> connection_name ` {n. 1 \<le> n \<and> n < px_next_connection t}"
    using assms(1) unfolding px_ok_def by auto
  moreover have "t' = t\<lparr>px_connections := AList.delete cid (px_connections t),
      px_pending := AList.delete cid (px_pending t), px_subscriptions := AList.delete cid (px_subscriptions t)\<rparr>"
    using assms(2) by (simp add: close_connection_def)
  ultimately show ?thesis using assms(1) unfolding px_ok_def by simp
qed

lemma used_ok:
  assumes "used env t u" and "px_ok t"
  shows "px_ok u"
  using assms(1)
proof (induction rule: used.induct)
  case unused
  show ?case by (rule assms(2))
next
  case (opened u scope r v)
  then show ?case using open_ok by blast
next
  case (subscribed u cid scope r' v)
  then show ?case using moved_ok [of u cid v] subscribe_moved by simp
next
  case (read u cid out v)
  then show ?case using moved_ok [of u cid v] read_moved by simp
next
  case (closed u cid r'' v)
  then show ?case using close_ok by blast
qed

lemma new_transport_ok: "new_private_transport hostname config tracker = Inr t \<Longrightarrow> px_ok t"
  by (auto simp: new_private_transport_def r_bind_Inr px_ok_def)

lemma fresh_name:
  assumes "px_ok t"
  shows "dict_get (px_connections t) (connection_name (px_next_connection t)) = None"
proof (rule ccontr)
  assume "dict_get (px_connections t) (connection_name (px_next_connection t)) \<noteq> None"
  then have "connection_name (px_next_connection t) \<in> fst ` set (px_connections t)" by (simp add: map_of_eq_None_iff)
  then have "connection_name (px_next_connection t) \<in> connection_name ` {n. 1 \<le> n \<and> n < px_next_connection t}"
    using assms unfolding px_ok_def by blast
  then show False by auto
qed

section \<open>Messages before the answer\<close>

lemma check_response_Inr: "check_response p = Inr q \<Longrightarrow> q = p"
  by (auto simp: check_response_def split: if_splits option.splits)

lemma await_response_keeps:
  assumes "await_response loads urandom rid (c, pending) = (Inr p, (c', pending'))"
  shows "\<exists>ts raw ms. recv_texts urandom (Suc (length ts)) c = (Inr (ts @ [raw]), c') \<and> loads raw = Inr (JObj p) \<and>
    json_eq_int (jget p ''id'') rid \<and> map loads ts = map (Inr \<circ> JObj) ms \<and> pending' = pending @ map JObj ms"
  using assms
proof (induction loads urandom rid "(c, pending)" arbitrary: c pending rule: await_response.induct)
  case (1 loads urandom rid c pending)
  obtain raw c1 where r: "recv_text urandom c = (Inr raw, c1)"
    using "1.prems" by (subst (asm) await_response.simps) (auto split: prod.splits sum.splits)
  obtain q where q: "loads raw = Inr (JObj q)"
    using "1.prems" r by (subst (asm) await_response.simps) (auto split: sum.splits json.splits)
  have run: "await_response loads urandom rid (c, pending) =
      (if json_eq_int (jget q ''id'') rid then (check_response q, (c1, pending))
       else await_response loads urandom rid (c1, pending @ [JObj q]))"
    using r q by (subst await_response.simps) simp
  show ?case
  proof (cases "json_eq_int (jget q ''id'') rid")
    case True
    then have "p = q" "c' = c1" "pending' = pending" using "1.prems" run check_response_Inr by auto
    then show ?thesis using r q True by (intro exI [of _ "[]"] exI [of _ raw]) simp
  next
    case False
    then obtain ts raw' ms where ih: "recv_texts urandom (Suc (length ts)) c1 = (Inr (ts @ [raw']), c')"
      "loads raw' = Inr (JObj p)" "json_eq_int (jget p ''id'') rid" "map loads ts = map (Inr \<circ> JObj) ms"
      "pending' = (pending @ [JObj q]) @ map JObj ms"
      using "1.hyps" [OF r [symmetric] refl q refl False] "1.prems" run by auto
    have "recv_texts urandom (Suc (length (raw # ts))) c = (Inr (raw # ts @ [raw']), c')"
      unfolding list.size add_0_right add_Suc_right recv_texts.simps(2) [of _ "Suc (length ts)"] r s_bind_simps ih(1) ..
    then show ?thesis using ih q by (intro exI [of _ "raw # ts"] exI [of _ raw'] exI [of _ "q # ms"]) simp
  qed
qed

lemma reads_pending:
  assumes "dict_get (px_connections t) cid = Some c" and "dict_get (px_pending t) cid = Some (ms @ ns)"
  shows "\<exists>t'. reads env cid (length ms) t = (map event_of ms, t') \<and>
    dict_get (px_connections t') cid = Some c \<and> dict_get (px_pending t') cid = Some ns"
  using assms
proof (induction ms arbitrary: t)
  case Nil
  then show ?case by simp
next
  case (Cons m ms)
  let ?t1 = "t\<lparr>px_pending := dict_set cid (ms @ ns) (px_pending t)\<rparr>"
  have "read_payload env cid t = (event_of m, ?t1)"
    using Cons.prems by (simp add: read_payload_def dict_get_default_def)
  moreover obtain t' where "reads env cid (length ms) ?t1 = (map event_of ms, t')"
      "dict_get (px_connections t') cid = Some c" "dict_get (px_pending t') cid = Some ns"
    using Cons.IH [of ?t1] Cons.prems by (auto simp: dict_get_set)
  ultimately show ?case by (intro exI [of _ t']) simp
qed

lemma subscribe_Inr:
  assumes "subscribe_private env cid scope t = (Inr sub, t')"
  obtains c ticks c1 p c2 pending where "dict_get (px_connections t) cid = Some c"
    and "send_text (pe_urandom env cid) (pe_dumps env
          [(''id'', JInt (int (px_next_request t))), (''method'', JStr ''userDataStream.subscribe.signature''),
           (''params'', JObj (signed_ws_api_params env (pe_clock env ticks)))]) c = (Inr (), c1)"
    and "await_response (pe_loads env) (pe_urandom env cid) (int (px_next_request t))
          (c1, dict_get_default (px_pending t) cid []) = (Inr p, (c2, pending))"
    and "extract_subscription_id p = Inr (sub_subscription_id sub)"
    and "dict_get (px_connections t') cid = Some c2" and "dict_get (px_pending t') cid = Some pending"
proof -
  obtain c where c: "dict_get (px_connections t) cid = Some c"
    using assms by (cases "dict_get (px_connections t) cid") (simp_all add: subscribe_private_def)
  obtain u t1 where w: "reserve_weight env ''ws-api:userDataStream.subscribe.signature'' 2 t = (Inr u, t1)"
    using assms c by (auto simp: subscribe_private_def s_bind_Inr)
  have f: "px_connections t1 = px_connections t" "px_pending t1 = px_pending t" "px_next_request t1 = px_next_request t"
    using reserve_weight_fields [OF w] by simp_all
  obtain r1 c1 where s: "send_text (pe_urandom env cid) (pe_dumps env
          [(''id'', JInt (int (px_next_request t))), (''method'', JStr ''userDataStream.subscribe.signature''),
           (''params'', JObj (signed_ws_api_params env (pe_clock env (px_ticks t1))))]) c = (r1, c1)" by force
  have r1: "r1 = Inr ()"
    using assms c w s f by (cases r1) (simp_all add: subscribe_private_def Let_def)
  obtain r2 c2 pending where a: "await_response (pe_loads env) (pe_urandom env cid) (int (px_next_request t))
          (c1, dict_get_default (px_pending t) cid []) = (r2, (c2, pending))" by (metis surj_pair)
  obtain p where r2: "r2 = Inr p"
    using assms c w s r1 a f by (cases r2) (simp_all add: subscribe_private_def Let_def dict_get_set)
  have "extract_subscription_id p = Inr (sub_subscription_id sub) \<and>
      dict_get (px_connections t') cid = Some c2 \<and> dict_get (px_pending t') cid = Some pending"
    using assms c w s r1 a r2 f
    by (auto simp: subscribe_private_def Let_def dict_get_set subscription_of_def split: sum.splits)
  then show thesis using that c s r1 a r2 by blast
qed

section \<open>Properties\<close>

text \<open>
  No message is lost while a subscription waits for its answer: after a successful subscribe the
  next reads return exactly the messages that were pending and those that arrived before the answer,
  in order, without touching the socket, which then stands right behind the answer; the answer is the
  first message with the request's id, and the subscription id is taken from it.
\<close>

theorem early_messages_delivered:
  assumes "subscribe_private env cid scope t = (Inr sub, t')" and "dict_get (px_pending t) cid = Some ms"
  shows "\<exists>c1 ts raw p ns c2 t''.
    recv_texts (pe_urandom env cid) (Suc (length ts)) c1 = (Inr (ts @ [raw]), c2) \<and>
    (\<exists>c payload. dict_get (px_connections t) cid = Some c \<and> send_text (pe_urandom env cid) payload c = (Inr (), c1)) \<and>
    pe_loads env raw = Inr (JObj p) \<and> json_eq_int (jget p ''id'') (int (px_next_request t)) \<and>
    extract_subscription_id p = Inr (sub_subscription_id sub) \<and>
    map (pe_loads env) ts = map (Inr \<circ> JObj) ns \<and>
    reads env cid (length ms + length ns) t' = (map event_of (ms @ map JObj ns), t'') \<and>
    dict_get (px_connections t'') cid = Some c2 \<and> dict_get (px_pending t'') cid = Some []"
  using assms(1)
proof (rule subscribe_Inr)
  fix c ticks c1 p c2 pending
  assume c: "dict_get (px_connections t) cid = Some c"
    and s: "send_text (pe_urandom env cid) (pe_dumps env
          [(''id'', JInt (int (px_next_request t))), (''method'', JStr ''userDataStream.subscribe.signature''),
           (''params'', JObj (signed_ws_api_params env (pe_clock env ticks)))]) c = (Inr (), c1)"
    and a: "await_response (pe_loads env) (pe_urandom env cid) (int (px_next_request t))
          (c1, dict_get_default (px_pending t) cid []) = (Inr p, (c2, pending))"
    and e: "extract_subscription_id p = Inr (sub_subscription_id sub)"
    and t': "dict_get (px_connections t') cid = Some c2" "dict_get (px_pending t') cid = Some pending"
  obtain ts raw ns where k: "recv_texts (pe_urandom env cid) (Suc (length ts)) c1 = (Inr (ts @ [raw]), c2)"
    "pe_loads env raw = Inr (JObj p)" "json_eq_int (jget p ''id'') (int (px_next_request t))"
    "map (pe_loads env) ts = map (Inr \<circ> JObj) ns" "pending = ms @ map JObj ns"
    using await_response_keeps [OF a] assms(2) by (auto simp: dict_get_default_def)
  obtain t'' where "reads env cid (length (ms @ map JObj ns)) t' = (map event_of (ms @ map JObj ns), t'')"
    "dict_get (px_connections t'') cid = Some c2" "dict_get (px_pending t'') cid = Some []"
    using reads_pending [of t' cid c2 "ms @ map JObj ns" "[]"] t' k(5) by auto
  then show ?thesis using c s e k
    by (intro exI [of _ c1] exI [of _ ts] exI [of _ raw] exI [of _ p] exI [of _ ns] exI [of _ c2] exI [of _ t''])
      auto
qed

text \<open>
  Connections are kept apart: in every state the transport can reach, messages are stored for
  exactly the open connections and subscriptions only for open ones, opening gives a connection whose
  id is not in use, and opening, subscribing and reading on one connection leave the sockets and the
  stored messages of all others as they were.
\<close>

theorem connections_kept_apart:
  assumes "new_private_transport hostname config tracker = Inr t0" and "used env t0 t"
  shows "px_ok t \<and>
    (\<forall>scope cid t'. open_connection env scope t = (Inr cid, t') \<longrightarrow>
      dict_get (px_connections t) cid = None \<and> others_untouched cid t t') \<and>
    (\<forall>cid scope r t'. subscribe_private env cid scope t = (r, t') \<longrightarrow> others_untouched cid t t') \<and>
    (\<forall>cid out t'. read_payload env cid t = (out, t') \<longrightarrow> others_untouched cid t t')"
proof -
  have ok: "px_ok t" using used_ok [OF assms(2) new_transport_ok [OF assms(1)]] .
  have "dict_get (px_connections t) cid = None \<and> others_untouched cid t t'"
    if "open_connection env scope t = (Inr cid, t')" for scope cid t'
    using that
  proof (cases rule: open_connection_cases)
    case failed
    then show ?thesis by simp
  next
    case (opened c)
    then show ?thesis using fresh_name [OF ok] by (auto simp: others_untouched_def dict_get_set)
  qed
  moreover have "moved cid t t' \<Longrightarrow> others_untouched cid t t'" for cid t'
    by (simp add: moved_def grown_def others_untouched_def)
  ultimately show ?thesis using ok subscribe_moved read_moved by blast
qed

text \<open>
  A failed subscription leaks its connection: when opening succeeds and subscribing on the new
  connection raises, the connection stays open in the transport under an id that the raising call never
  hands to anybody.
\<close>

theorem failed_subscription_leaks:
  assumes "px_ok t" and "to_open (private_ops env) scope t = (Inr cid, t1)"
    and "to_subscribe (private_ops env) cid scope t1 = (Inl e, t2)"
  shows "open_subscription (stream_ops_of (private_ops env)) scope t = Inl e \<and>
    dict_get (px_connections t) cid = None \<and> dict_get (px_connections t2) cid \<noteq> None"
proof -
  have o: "open_connection env scope t = (Inr cid, t1)" and s: "subscribe_private env cid scope t1 = (Inl e, t2)"
    using assms(2,3) by (simp_all add: private_ops_def)
  have "cid = connection_name (px_next_connection t) \<and> dict_get (px_connections t1) cid \<noteq> None"
    using o by (cases rule: open_connection_cases) (auto simp: dict_get_set)
  moreover have "dict_get (px_connections t1) cid \<noteq> None \<Longrightarrow> dict_get (px_connections t2) cid \<noteq> None"
    using subscribe_moved [OF s] by (auto simp: moved_def grown_def map_of_eq_None_iff)
  ultimately show ?thesis using fresh_name [OF assms(1)] o s
    by (auto simp: open_subscription_def stream_ops_of_def private_ops_def)
qed

lemma left_behind_closed:
  assumes "px_ok t" and "cid = connection_name k" and "k < px_next_connection t"
    and "ses_connection_id s = Some cid"
  shows "dict_get (px_connections (left_behind (private_ops env) s t)) cid = None"
proof -
  obtain t1 where c: "close_connection env cid t = (Inr (), t1)" by (simp add: close_connection_def)
  then have t1: "dict_get (px_connections t1) cid = None" "px_next_connection t1 = px_next_connection t"
    by (auto simp: close_connection_def)
  obtain r t2 where o: "open_connection env (ses_account_scope s) t1 = (r, t2)" by force
  show ?thesis using o
  proof (cases rule: open_connection_cases)
    case failed
    then show ?thesis using c o t1 assms(4) by (simp add: left_behind_def private_ops_def)
  next
    case (opened c')
    let ?new = "connection_name (px_next_connection t1)"
    obtain r' t3 where s: "subscribe_private env ?new (ses_account_scope s) t2 = (r', t3)" by force
    have "?new \<noteq> cid" using assms(2,3) t1(2) by auto
    then have "dict_get (px_connections t3) cid = None"
      using subscribe_moved [OF s] opened t1(1) by (auto simp: moved_def grown_def dict_get_set)
    then show ?thesis using c o s opened(1) assms(4) by (simp add: left_behind_def private_ops_def)
  qed
qed

text \<open>
  A failed renewal ends the stream: the client closes the subscription in use before it opens the
  new one, so when the renewal raises, the read of the same poll meets an unknown connection, the
  source reconnects once more, and the poll delivers a stream termination instead of the events.
\<close>

theorem failed_renewal_ends_stream:
  assumes "poll_private_payloads env now (src, t) = Inr (ps, src', t')"
    and "se_ops env = private_ops penv" and "src_session src = Some s"
    and "check_runtime_health (se_client env) s (Some now) = None"
    and "check_session_rollover (se_client env) s now \<noteq> None"
    and "refresh_session (se_client env) (Some (stream_ops_of (private_ops penv))) s now t = Inl e"
    and "px_ok t" and "ses_connection_id s = Some (connection_name k)" and "k < px_next_connection t"
  shows "ps = [[(''e'', JStr ''eventStreamTerminated''), (''E'', JInt (se_millis env now))]] \<and>
    ts_refresh_failures (src_stats src') = ts_refresh_failures (src_stats src) + 1 \<and>
    ts_reconnects (src_stats src') = ts_reconnects (src_stats src) + 1"
proof -
  let ?cid = "connection_name k" and ?t1 = "left_behind (private_ops penv) s t"
  have gone: "dict_get (px_connections ?t1) ?cid = None"
    by (rule left_behind_closed [OF assms(7) refl assms(9,8)])
  have name: "py_or (Some ?cid) [] = ?cid" by (simp add: py_or_def connection_name_def)
  have read: "to_read (private_ops penv) ?cid ?t1
      = (ReadFailed (KeyError (''unknown private connection: '' @ ?cid)), ?t1)"
  proof -
    have "to_read (private_ops penv) = read_payload penv" by (simp add: private_ops_def)
    then show ?thesis by (simp add: read_payload_def gone)
  qed
  obtain src1 where src1: "refresh_source env now s (src, t) = (src1, ?t1)" "src_session src1 = Some s"
    "ts_refresh_failures (src_stats src1) = ts_refresh_failures (src_stats src) + 1"
    "ts_reconnects (src_stats src1) = ts_reconnects (src_stats src)"
    using assms(2,3,6) by (simp add: refresh_source_def on_stats_def)
  have "read_next env now (src1, ?t1) = Inr (ps, src', t')"
    using assms(1,3-5) src1(1) by (auto simp: poll_private_payloads_def current_session_def)
  then obtain reason src2 where r: "reconnect env now reason s (src2, ?t1) = Inr (src', t')"
    "ts_refresh_failures (src_stats src2) = ts_refresh_failures (src_stats src1)"
    "ts_reconnects (src_stats src2) = ts_reconnects (src_stats src1)"
    and ps: "ps = [[(''e'', JStr ''eventStreamTerminated''), (''E'', JInt (se_millis env now))]]"
    using src1(2) assms(2,8) read name by (auto simp: read_next_def r_bind_Inr current_session_def Let_def)
  then show ?thesis using src1 reconnect_Inr [OF r(1)] by simp
qed

section \<open>Concrete transports\<close>

definition sample_answer :: "int \<Rightarrow> json" where
  "sample_answer i = JObj [(''id'', JInt i), (''status'', JInt 200),
     (''result'', JObj [(''subscriptionId'', JInt 5)])]"

definition sample_event :: json where
  "sample_event = JObj [(''event'', JObj [(''e'', JStr ''executionReport'')])]"

definition sample_loads :: "unicode \<Rightarrow> json result" where
  "sample_loads t =
     (if t = [1] then Inr (sample_answer 1) else if t = [2] then Inr sample_event
      else if t = [3] then Inr (sample_answer 2)
      else if t = [4] then Inr (JObj [(''id'', JInt 1), (''error'', JStr ''denied'')])
      else Inl (ValueError ''invalid JSON''))"

text \<open>A transport whose \<open>n\<close>th connection delivers the one-letter texts \<open>scripts ! n\<close>.\<close>

definition scripted :: "8 word list list \<Rightarrow> transport_env" where
  "scripted scripts =
     \<lparr>pe_api_key = ''key'', pe_api_secret = ''secret'', pe_profile = ''binance_spot_testnet'',
      pe_recv_window_ms = 5000, pe_session_ttl = seconds 86400,
      pe_connect = (\<lambda>url n. if n < length scripts
         then Inr (fresh_socket (map (\<lambda>b. Chunk [0x81, 1, b]) (scripts ! n)))
         else Inl (ConnectionError ''refused'')),
      pe_urandom = (\<lambda>cid. sample_keys), pe_loads = sample_loads, pe_dumps = (\<lambda>p. [123]),
      pe_sign = (\<lambda>k m. ''sig''), pe_clock = (\<lambda>n. utc (int n)), pe_millis = (\<lambda>d. dt_us d div 1000)\<rparr>"

definition empty_transport :: private_transport where
  "empty_transport = \<lparr>px_connections = [], px_pending = [], px_subscriptions = [], px_next_connection = 1,
     px_next_request = 1, px_tracker = None, px_attempts = 0, px_ticks = 0\<rparr>"

lemma empty_transport_ok [simp]: "px_ok empty_transport"
  by (simp add: empty_transport_def px_ok_def)

lemma scripted_open: "scripts \<noteq> [] \<Longrightarrow> open_connection (scripted scripts) scope empty_transport
   = (Inr (connection_name 1), empty_transport\<lparr>px_attempts := 1, px_next_connection := 2,
       px_connections := [(connection_name 1, fresh_socket (map (\<lambda>b. Chunk [0x81, 1, b]) (scripts ! 0)))],
       px_pending := [(connection_name 1, [])]\<rparr>)"
  by (simp add: open_connection_def scripted_def ws_api_url_def empty_transport_def Let_def numeral_2_eq_2)

lemma letter_arrives:
  "unat b < 128 \<Longrightarrow> recv_text urandom
      \<lparr>wc_incoming = Chunk [0x81, 1, b] # inc, wc_sent = s, wc_open = u, wc_writable = v, wc_keys = k\<rparr>
    = (Inr [unat b], \<lparr>wc_incoming = inc, wc_sent = s, wc_open = u, wc_writable = v, wc_keys = k\<rparr>)"
  by (simp add: recv_text.simps with_incoming_def read_frame_def read_exact.simps)

lemma request_sent:
  "send_text sample_keys [123] (fresh_socket inc)
     = (Inr (), (fresh_socket inc)\<lparr>wc_sent := [0x81, 0x81, 1, 2, 3, 0, 122], wc_keys := 1\<rparr>)"
  by (simp add: fresh_socket_def send_text_def utf8_encode_def scalar_def utf8_char_def
      send_frame_def frame_header_def send_bytes_def apply_mask_def sample_keys_def)

lemma scripted_fields [simp]:
  "pe_urandom (scripted scripts) cid = sample_keys" "pe_loads (scripted scripts) = sample_loads"
  "pe_dumps (scripted scripts) p = [123]"
  by (simp_all add: scripted_def)

text \<open>Subscribing without a weight tracker, step by step.\<close>

lemma subscribe_run:
  fixes env cid scope t
  defines "t2 \<equiv> t\<lparr>px_next_request := px_next_request t + 1, px_ticks := Suc (px_ticks t)\<rparr>"
  assumes "dict_get (px_connections t) cid = Some c" and "px_tracker t = None"
    and "dict_get (px_pending t) cid = Some pending"
    and "\<And>p. send_text (pe_urandom env cid) (pe_dumps env p) c = (Inr (), c1)"
    and "await_response (pe_loads env) (pe_urandom env cid) (int (px_next_request t)) (c1, pending) = (r, link)"
  shows "subscribe_private env cid scope t =
    (let t4 = put_link cid link (put_link cid (c1, pending) t2)
     in case r of
          Inl e \<Rightarrow> (Inl e, t4)
        | Inr p \<Rightarrow> (case extract_subscription_id p of
             Inl e \<Rightarrow> (Inl e, t4)
           | Inr sid \<Rightarrow> (Inr (subscription_of env sid (pe_clock env (px_ticks t4))),
               t4\<lparr>px_ticks := Suc (px_ticks t4), px_subscriptions :=
                 dict_set cid (subscription_of env sid (pe_clock env (px_ticks t4))) (px_subscriptions t4)\<rparr>)))"
  using assms(2-6)
  by (simp add: t2_def subscribe_private_def reserve_weight_def Let_def dict_get_default_def dict_get_set
      split: sum.split)

lemma scripted_await:
  "await_response sample_loads sample_keys 1 ((fresh_socket [Chunk [0x81, 1, 2], Chunk [0x81, 1, 1]])
      \<lparr>wc_sent := s, wc_keys := 1\<rparr>, [])
    = (Inr [(''id'', JInt 1), (''status'', JInt 200), (''result'', JObj [(''subscriptionId'', JInt 5)])],
       ((fresh_socket [])\<lparr>wc_sent := s, wc_keys := 1\<rparr>, [sample_event]))"
  "await_response sample_loads sample_keys 1 ((fresh_socket [Chunk [0x81, 1, 4]])\<lparr>wc_sent := s, wc_keys := 1\<rparr>, [])
    = (Inl (RuntimeError ''Binance private WS-API request failed: denied''),
       ((fresh_socket [])\<lparr>wc_sent := s, wc_keys := 1\<rparr>, []))"
  "await_response sample_loads sample_keys 2 ((fresh_socket [Chunk [0x81, 1, 3]])\<lparr>wc_sent := s, wc_keys := 1\<rparr>, [])
    = (Inr [(''id'', JInt 2), (''status'', JInt 200), (''result'', JObj [(''subscriptionId'', JInt 5)])],
       ((fresh_socket [])\<lparr>wc_sent := s, wc_keys := 1\<rparr>, []))"
  by (simp_all add: await_response.simps letter_arrives fresh_socket_def sample_loads_def sample_event_def
      sample_answer_def json_eq_int_def check_response_def)

abbreviation opened_transport :: "8 word list list \<Rightarrow> private_transport" where
  "opened_transport scripts \<equiv> snd (open_connection (scripted scripts) ''user'' empty_transport)"

lemma int_str_five: "int_str 5 = ''5''"
  by code_simp

lemma opened_fields [simp]:
  "dict_get (px_connections (opened_transport (script # rest))) (connection_name 1)
     = Some (fresh_socket (map (\<lambda>b. Chunk [0x81, 1, b]) script))"
  "dict_get (px_pending (opened_transport (script # rest))) (connection_name 1) = Some []"
  "px_tracker (opened_transport (script # rest)) = None" "px_next_request (opened_transport (script # rest)) = 1"
  "px_attempts (opened_transport (script # rest)) = 1" "px_next_connection (opened_transport (script # rest)) = 2"
  by (simp_all add: scripted_open) (simp_all add: empty_transport_def)

lemma scripted_subscribe:
  fixes script
  defines "c \<equiv> fresh_socket (map (\<lambda>b. Chunk [0x81, 1, b]) script)"
  assumes "dict_get (px_connections t) cid = Some c" and "dict_get (px_pending t) cid = Some []"
    and "px_tracker t = None"
    and "await_response sample_loads sample_keys (int (px_next_request t))
      (c\<lparr>wc_sent := [0x81, 0x81, 1, 2, 3, 0, 122], wc_keys := 1\<rparr>, []) = (r, link)"
  shows "\<exists>r' t'. subscribe_private (scripted scripts) cid scope t = (r', t') \<and>
    px_next_connection t' = px_next_connection t \<and> px_attempts t' = px_attempts t \<and>
    px_next_request t' = Suc (px_next_request t) \<and> px_tracker t' = None \<and>
    dict_get (px_pending t') cid = Some (snd link) \<and>
    map_sum id sub_subscription_id r' = r_bind r extract_subscription_id"
proof -
  let ?env = "scripted scripts"
  obtain r' t' where s: "subscribe_private ?env cid scope t = (r', t')" by force
  have "subscribe_private ?env cid scope t =
    (let t4 = put_link cid link (put_link cid (c\<lparr>wc_sent := [0x81, 0x81, 1, 2, 3, 0, 122], wc_keys := 1\<rparr>, [])
          (t\<lparr>px_next_request := px_next_request t + 1, px_ticks := Suc (px_ticks t)\<rparr>))
     in case r of
          Inl e \<Rightarrow> (Inl e, t4)
        | Inr p \<Rightarrow> (case extract_subscription_id p of
             Inl e \<Rightarrow> (Inl e, t4)
           | Inr sid \<Rightarrow> (Inr (subscription_of ?env sid (pe_clock ?env (px_ticks t4))),
               t4\<lparr>px_ticks := Suc (px_ticks t4), px_subscriptions :=
                 dict_set cid (subscription_of ?env sid (pe_clock ?env (px_ticks t4))) (px_subscriptions t4)\<rparr>)))"
    by (rule subscribe_run [OF assms(2,4,3)])
      (simp_all only: scripted_fields c_def request_sent assms(5) [unfolded c_def])
  then show ?thesis
    using s assms(4) by (auto simp: Let_def dict_get_set put_link_def subscription_of_def split: sum.splits prod.splits)
qed

lemma early_messages_delivered_witness:
  "\<exists>sub t' ns t''. subscribe_private (scripted [[2, 1]]) (connection_name 1) ''user'' (opened_transport [[2, 1]])
      = (Inr sub, t') \<and> dict_get (px_pending t') (connection_name 1) = Some [sample_event] \<and>
    reads (scripted [[2, 1]]) (connection_name 1) (length ns) t' = (map event_of (map JObj ns), t'') \<and>
    dict_get (px_pending t'') (connection_name 1) = Some []"
proof -
  let ?env = "scripted [[2, 1]]" and ?cid = "connection_name 1"
  obtain r t' where r: "subscribe_private ?env ?cid ''user'' (opened_transport [[2, 1]]) = (r, t')"
    "dict_get (px_pending t') ?cid = Some [sample_event]"
    "map_sum id sub_subscription_id r = Inr ''5''"
    using scripted_subscribe [of "opened_transport [[2, 1]]" ?cid "[2, 1]" _ _ "[[2, 1]]" "''user''"]
      scripted_await(1) [of "[0x81, 0x81, 1, 2, 3, 0, 122]"]
    by (auto simp: extract_subscription_id_def int_str_five simp del: One_nat_def)
  then obtain sub where sub: "r = Inr sub" by (cases r) auto
  have "dict_get (px_pending (opened_transport [[2, 1]])) ?cid = Some []"
    by (simp add: scripted_open)
  from early_messages_delivered [OF r(1) [unfolded sub] this] show ?thesis using r sub by auto
qed

lemma failed_subscription_leaks_witness:
  "\<exists>e t2. to_subscribe (private_ops (scripted [[4]])) (connection_name 1) ''user'' (opened_transport [[4]])
      = (Inl e, t2) \<and> dict_get (px_connections t2) (connection_name 1) \<noteq> None"
proof -
  let ?env = "scripted [[4]]" and ?cid = "connection_name 1"
  obtain r t2 where r: "subscribe_private ?env ?cid ''user'' (opened_transport [[4]]) = (r, t2)"
    "map_sum id sub_subscription_id r = Inl (RuntimeError ''Binance private WS-API request failed: denied'')"
    using scripted_subscribe [of "opened_transport [[4]]" ?cid "[4]" _ _ "[[4]]" "''user''"]
      scripted_await(2) [of "[0x81, 0x81, 1, 2, 3, 0, 122]"] by (auto simp del: One_nat_def)
  then obtain e where e: "to_subscribe (private_ops ?env) ?cid ''user'' (opened_transport [[4]]) = (Inl e, t2)"
    by (cases r) (auto simp: private_ops_def)
  have "to_open (private_ops ?env) ''user'' empty_transport = (Inr ?cid, opened_transport [[4]])"
    by (simp add: private_ops_def scripted_open)
  from failed_subscription_leaks [OF empty_transport_ok this e] e show ?thesis by blast
qed

lemma connections_kept_apart_witness:
  "\<exists>t. used (scripted [[4]]) empty_transport t \<and> px_ok t \<and> px_connections t \<noteq> []"
proof -
  have new: "new_private_transport (\<lambda>u. Some u) (adapter_config.make ''testnet.binance.vision''
      ''stream.testnet.binance.vision'' [] [] 5000 1000 False ''binance_spot_testnet'' 1200) None = Inr empty_transport"
  proof -
    have "str_lower ''testnet.binance.vision'' = ''testnet.binance.vision''"
      "str_lower ''stream.testnet.binance.vision'' = ''stream.testnet.binance.vision''" by code_simp+
    then show ?thesis by (simp add: new_private_transport_def empty_transport_def validate_endpoint_profile_def
        adapter_config.defs resolve_endpoint_profile_def profiles_def py_or_def Let_def)
  qed
  have "used (scripted [[4]]) empty_transport (opened_transport [[4]])"
    by (rule used.opened [OF used.unused, of _ "''user''"]) (rule prod.collapse [symmetric])
  moreover from connections_kept_apart [OF new this] have "px_ok (opened_transport [[4]])" by blast
  ultimately show ?thesis by (intro exI [of _ "opened_transport [[4]]"]) (simp add: scripted_open)
qed

text \<open>A renewal that is refused, and a reconnect that is accepted.\<close>

lemma scripted_open_at:
  "px_attempts t < length scripts \<Longrightarrow> open_connection (scripted scripts) scope t =
    (Inr (connection_name (px_next_connection t)), t\<lparr>px_attempts := Suc (px_attempts t),
       px_next_connection := px_next_connection t + 1,
       px_connections := dict_set (connection_name (px_next_connection t))
         (fresh_socket (map (\<lambda>b. Chunk [0x81, 1, b]) (scripts ! px_attempts t))) (px_connections t),
       px_pending := dict_set (connection_name (px_next_connection t)) [] (px_pending t)\<rparr>)"
  by (simp add: open_connection_def scripted_def ws_api_url_def Let_def)

lemma scripted_session:
  assumes "px_attempts t < length scripts" and "px_tracker t = None" and "scripts ! px_attempts t = [b]"
    and "await_response sample_loads sample_keys (int (px_next_request t))
      ((fresh_socket [Chunk [0x81, 1, b]])\<lparr>wc_sent := [0x81, 0x81, 1, 2, 3, 0, 122], wc_keys := 1\<rparr>, []) = (r, link)"
  shows "\<exists>t1 r' t2. to_open (private_ops (scripted scripts)) scope t = (Inr (connection_name (px_next_connection t)), t1) \<and>
    to_subscribe (private_ops (scripted scripts)) (connection_name (px_next_connection t)) scope t1 = (r', t2) \<and>
    px_attempts t2 = Suc (px_attempts t) \<and> px_next_request t2 = Suc (px_next_request t) \<and> px_tracker t2 = None \<and>
    map_sum id sub_subscription_id r' = r_bind r extract_subscription_id"
  using scripted_subscribe [of "snd (open_connection (scripted scripts) scope t)" "connection_name (px_next_connection t)" "[b]"]
    assms by (simp add: private_ops_def scripted_open_at dict_get_set) blast

definition renewing_session :: private_session where
  "renewing_session = mark_streaming (initialize_session default_stream_client ''key'' (utc 0) (Some (connection_name 1))
     None (Some (utc (seconds 60))) None) (utc 0)"

definition renewing_source :: "private_transport source_env" where
  "renewing_source = \<lparr>se_client = default_stream_client, se_ops = private_ops (scripted [[], [4], [3]]),
     se_error_text = (\<lambda>e. ''lost''), se_millis = (\<lambda>t. dt_us t div 1000)\<rparr>"

lemma failed_renewal_ends_stream_witness:
  "\<exists>src' t'. poll_private_payloads renewing_source (utc 0)
      (new_source\<lparr>src_session := Some renewing_session\<rparr>, opened_transport [[], [4], [3]])
    = Inr ([[(''e'', JStr ''eventStreamTerminated''), (''E'', JInt 0)]], src', t')"
proof -
  let ?t = "opened_transport [[], [4], [3]]" and ?ops = "private_ops (scripted [[], [4], [3]])"
  let ?src = "new_source\<lparr>src_session := Some renewing_session\<rparr>" and ?cl = "se_client renewing_source"
  have s: "ses_connection_id renewing_session = Some (connection_name 1)" "ses_account_scope renewing_session = psc_scope ?cl"
    "check_runtime_health ?cl renewing_session (Some (utc 0)) = None"
    "check_session_rollover ?cl renewing_session (utc 0) \<noteq> None"
    by (simp_all add: renewing_session_def mark_streaming_def initialize_session_def renewing_source_def
        default_stream_client_def seconds_def check_runtime_health_def check_session_rollover_def)
  obtain t1 where t1: "to_close ?ops (connection_name 1) ?t = (Inr (), t1)" "px_attempts t1 = 1" "px_tracker t1 = None"
    "px_next_request t1 = 1"
    by (simp add: private_ops_def close_connection_def)
  obtain t2 r3 t3 where t3: "to_open ?ops (psc_scope ?cl) t1 = (Inr (connection_name (px_next_connection t1)), t2)"
    "to_subscribe ?ops (connection_name (px_next_connection t1)) (psc_scope ?cl) t2 = (r3, t3)"
    "px_attempts t3 = 2" "px_next_request t3 = 2" "px_tracker t3 = None"
    "map_sum id sub_subscription_id r3 = Inl (RuntimeError ''Binance private WS-API request failed: denied'')"
    using scripted_session [of t1 "[[], [4], [3]]" 4 _ _ "psc_scope ?cl"] scripted_await(2) t1 by auto
  then obtain e where e: "r3 = Inl e" by (cases r3) auto
  have lb: "left_behind ?ops renewing_session ?t = t3" using s t1(1) t3(1,2) by (simp add: left_behind_def)
  have refresh: "refresh_session ?cl (Some (stream_ops_of ?ops)) renewing_session (utc 0) ?t = Inl e"
    using s t1(1) t3(1,2) e by (simp add: refresh_session_def close_session_def stream_ops_of_def open_subscription_def)
  have ok: "px_ok ?t" "1 < px_next_connection ?t" using open_ok [OF empty_transport_ok]
    by (metis prod.collapse, simp add: scripted_open)
  obtain t4 where t4: "to_close ?ops (connection_name 1) t3 = (Inr (), t4)" "px_attempts t4 = 2" "px_tracker t4 = None"
    "px_next_request t4 = 2" using t3(3-5) by (simp add: private_ops_def close_connection_def)
  obtain t5 r6 t6 where t6: "to_open ?ops (psc_scope ?cl) t4 = (Inr (connection_name (px_next_connection t4)), t5)"
    "to_subscribe ?ops (connection_name (px_next_connection t4)) (psc_scope ?cl) t5 = (r6, t6)"
    "map_sum id sub_subscription_id r6 = Inr ''5''"
    using scripted_session [of t4 "[[], [4], [3]]" 3 _ _ "psc_scope ?cl"] scripted_await(3) t4
    by (auto simp: extract_subscription_id_def int_str_five)
  then obtain sub where sub: "r6 = Inr sub" by (cases r6) auto
  have reconnected: "\<exists>s'. reconnect_session (stream_ops_of ?ops) renewing_session (utc 0) t3 = Inr (s', t6)"
    using s t4(1) t6(1,2) sub by (simp add: reconnect_session_def close_session_def stream_ops_of_def open_subscription_def)
  have ops: "se_ops renewing_source = ?ops" by (simp add: renewing_source_def)
  have none: "dict_get (px_connections t3) (connection_name 1) = None"
    using left_behind_closed [OF ok(1) refl ok(2) s(1), of "scripted [[], [4], [3]]"] unfolding lb .
  have "to_read ?ops = read_payload (scripted [[], [4], [3]])" by (simp add: private_ops_def)
  then have gone: "\<exists>x. to_read ?ops (connection_name 1) t3 = (ReadFailed x, t3)" using none by (simp add: read_payload_def)
  have "\<exists>ps src' t'. poll_private_payloads renewing_source (utc 0) (?src, ?t) = Inr (ps, src', t')"
    using s refresh lb reconnected gone
    by (auto simp: poll_private_payloads_def current_session_def refresh_source_def on_stats_def ops read_next_def
        reconnect_def py_or_def connection_name_def)
  then obtain ps src' t' where p: "poll_private_payloads renewing_source (utc 0) (?src, ?t) = Inr (ps, src', t')" by blast
  show ?thesis
    using failed_renewal_ends_stream [OF p ops _ s(3,4) refresh ok(1) s(1) ok(2)] p by (simp add: renewing_source_def)
qed

end
