(* ===== verification/ReplayHarness.thy ===== *)
theory ReplayHarness
  imports Runners
begin

text \<open>
  \<open>app/runtime/replay_harness.py\<close>: the replay of historical bars through the report-only and the paper
  runner, with a reference evaluation of each cycle outside the runners and a parity record of the
  differences. A feature builder that has snapshot providers is given as \<open>Some\<close> record and rebuilt
  with the snapshots of the replayed input; any other builder is used as it is. The text of a Decimal
  and the text of a time are parameters.
\<close>

section \<open>Inputs and results\<close>

record replay_input =
  ri_cycle_id :: string
  ri_instrument :: instrument
  ri_bars :: bar_slice
  ri_portfolio :: portfolio_state
  ri_context_bars :: "bar_slice option"
  ri_index :: "index_snapshot option"
  ri_stable :: "stablecoin_snapshot option"

record reference_result =
  rf_context :: decision_context
  rf_cycle :: cycle_result

record intent_shape =
  ish_venue :: string
  ish_side :: order_side
  ish_order_type :: order_type
  ish_time_in_force :: time_in_force
  ish_quantity :: string

record cycle_summary =
  cys_signal_sides :: "signal_side list"
  cys_actionable :: bool
  cys_risk_posture :: "risk_decision_status list"
  cys_intent_shape :: "intent_shape list"

record parity_record =
  pc_schema_version :: string
  pc_recorded_at :: datetime
  pc_runtime_mode :: string
  pc_cycle_id :: string
  pc_instrument_id :: string
  pc_timeframe :: string
  pc_bar_close_time :: datetime
  pc_matches :: bool
  pc_mismatches :: "string list"
  pc_key_instrument_id :: string
  pc_key_timeframe :: string
  pc_key_bar_close_time :: string
  pc_key_has_index :: bool
  pc_key_has_stable :: bool
  pc_runtime_output :: cycle_summary
  pc_reference_output :: cycle_summary

record replay_result =
  rs_report_cycles :: "cycle_result list"
  rs_paper_cycles :: "paper_outcome list"
  rs_reference_cycles :: "reference_result list"
  rs_parity_records :: "parity_record list"

text \<open>A runtime context together with its feature builder when that has snapshot providers.\<close>

type_synonym 'w base_context = "'w runtime_context \<times> feature_builder option"

definition bind_replay_context :: "'w base_context \<Rightarrow> replay_input \<Rightarrow> 'w runtime_context" where
  "bind_replay_context = (\<lambda>(cx, builder) i.
     let index = Some (IndexGetter (\<lambda>instrument_id as_of. ri_index i));
         stable = Some (StableGetter (\<lambda>as_of. ri_stable i))
     in cx\<lparr>cx_features := (case builder of None \<Rightarrow> cx_features cx
             | Some fb \<Rightarrow> build_features (fb\<lparr>bld_index := index, bld_stable := stable\<rparr>)),
           cx_index := index, cx_stable := stable\<rparr>)"

section \<open>The reference evaluation\<close>

definition reference_evaluate ::
    "'w base_context \<Rightarrow> replay_input \<Rightarrow> portfolio_state option \<Rightarrow> string option \<Rightarrow> reference_result result" where
  "reference_evaluate base i portfolio venue =
     r_bind (validated check_report_only (bind_replay_context base i)) (\<lambda>cx.
     let p = (case portfolio of None \<Rightarrow> ri_portfolio i | Some q \<Rightarrow> q); end_time = bs_end_time (ri_bars i) in
     r_bind (cx_features cx (ri_bars i) (ri_context_bars i)) (\<lambda>features.
     r_bind (build_context cx (ri_cycle_id i) (ri_instrument i) (ri_bars i) p features) (\<lambda>dc.
     r_bind (cx_strategy cx dc) (\<lambda>signals.
     r_bind (cx_risk cx signals p (cx_venue_profile cx)) (\<lambda>decisions.
     r_bind (cx_intents cx decisions
         (py_or (if truthy venue then venue else cx_execution_venue cx) ''unassigned_venue'') end_time) (\<lambda>intents.
     r_bind (mk_cycle_result
       \<lparr>rc_cycle_id = ri_cycle_id i, rc_started_at = end_time, rc_completed_at = end_time,
        rc_processed_instruments = [in_instrument_id (ri_instrument i)], rc_signals = signals,
        rc_risk_decisions = decisions, rc_execution_intents = intents, rc_reconciliation_events = [],
        rc_quality_states = [], rc_quality_details = [],
        rc_alerts = [''reference backtest-style evaluation''], rc_success = True\<rparr>) (\<lambda>r.
       Inr \<lparr>rf_context = dc, rf_cycle = r\<rparr>)))))))"

section \<open>Parity\<close>

definition cycle_summary_of :: "(decimal \<Rightarrow> string) \<Rightarrow> cycle_result \<Rightarrow> cycle_summary" where
  "cycle_summary_of text r =
     \<lparr>cys_signal_sides = map sd_side (rc_signals r), cys_actionable = (rc_execution_intents r \<noteq> []),
      cys_risk_posture = map rd_status (rc_risk_decisions r),
      cys_intent_shape = map (\<lambda>i. \<lparr>ish_venue = ei_venue i, ish_side = ei_side i, ish_order_type = ei_order_type i,
        ish_time_in_force = ei_time_in_force i, ish_quantity = text (ei_quantity i)\<rparr>) (rc_execution_intents r)\<rparr>"

definition summary_mismatches :: "cycle_summary \<Rightarrow> cycle_summary \<Rightarrow> string list" where
  "summary_mismatches a b =
     (if cys_signal_sides a \<noteq> cys_signal_sides b then [''signal_sides''] else [])
     @ (if cys_actionable a \<noteq> cys_actionable b then [''actionable''] else [])
     @ (if cys_risk_posture a \<noteq> cys_risk_posture b then [''risk_posture''] else [])
     @ (if cys_intent_shape a \<noteq> cys_intent_shape b then [''execution_intent_shape''] else [])"

definition build_parity_record ::
    "(decimal \<Rightarrow> string) \<Rightarrow> (datetime \<Rightarrow> string) \<Rightarrow> string \<Rightarrow> cycle_result \<Rightarrow> cycle_result \<Rightarrow> decision_context
      \<Rightarrow> parity_record" where
  "build_parity_record text isotext mode runtime reference dc =
     (let a = cycle_summary_of text runtime; b = cycle_summary_of text reference;
          mismatches = summary_mismatches a b; close = cd_close_time (dc_latest_candle dc)
      in \<lparr>pc_schema_version = ''parity_cycle.v1'', pc_recorded_at = close, pc_runtime_mode = mode,
          pc_cycle_id = rc_cycle_id runtime, pc_instrument_id = in_instrument_id (dc_instrument dc),
          pc_timeframe = ft_timeframe (dc_features dc), pc_bar_close_time = close,
          pc_matches = (mismatches = []), pc_mismatches = mismatches,
          pc_key_instrument_id = in_instrument_id (dc_instrument dc),
          pc_key_timeframe = ft_timeframe (dc_features dc), pc_key_bar_close_time = isotext close,
          pc_key_has_index = (dc_index_snapshot dc \<noteq> None), pc_key_has_stable = (dc_stablecoin_snapshot dc \<noteq> None),
          pc_runtime_output = a, pc_reference_output = b\<rparr>)"

section \<open>The replay\<close>

record 'w replay_harness =
  rh_report_context :: "'w base_context"
  rh_paper_context :: "'w base_context"
  rh_reference_context :: "'w base_context"
  rh_gateway :: "(parity_record \<Rightarrow> 'w \<Rightarrow> 'w result) option"
  rh_text :: "decimal \<Rightarrow> string"
  rh_iso :: "datetime \<Rightarrow> string"

text \<open>\<open>PaperRunner(context)\<close> and the quality gate with their defaults.\<close>

definition default_lag :: timedelta where
  "default_lag = seconds 172800"

definition default_paper_runner :: "'w runtime_context \<Rightarrow> 'w paper_runner" where
  "default_paper_runner cx =
     \<lparr>pr_context = cx, pr_simulator = \<lparr>sim_fee_bps = 0, sim_fee_asset = ''USDT''\<rparr>, pr_quote_asset = ''USDT'',
      pr_persist_transition = None, pr_persist_summary = None, pr_max_lag = default_lag\<rparr>"

definition persist_parity ::
    "'w replay_harness \<Rightarrow> parity_record \<Rightarrow> parity_record \<Rightarrow> 'w \<Rightarrow> 'w result" where
  "persist_parity h report paper w =
     (case rh_gateway h of None \<Rightarrow> Inr w | Some f \<Rightarrow> r_bind (f report w) (f paper))"

text \<open>One replayed input, with the paper portfolio carried from the inputs before it.\<close>

record replay_step =
  rp_report :: cycle_result
  rp_paper :: paper_outcome
  rp_reference :: reference_result
  rp_report_record :: parity_record
  rp_paper_record :: parity_record

definition replay_one ::
    "'w replay_harness \<Rightarrow> replay_input \<Rightarrow> portfolio_state option \<Rightarrow> 'w \<Rightarrow> (replay_step \<times> 'w) result" where
  "replay_one h i carried w =
     (let report_cx = bind_replay_context (rh_report_context h) i;
          paper_cx = bind_replay_context (rh_paper_context h) i;
          p = (case carried of None \<Rightarrow> ri_portfolio i | Some q \<Rightarrow> q)
      in r_bind (validated check_report_only report_cx) (\<lambda>_.
         r_bind (report_only_run default_lag report_cx (ri_cycle_id i) (ri_instrument i) (ri_bars i)
             (ri_context_bars i) (ri_portfolio i) w) (\<lambda>((report, _), w1).
         r_bind (validated check_paper paper_cx) (\<lambda>_.
         r_bind (paper_cycle (default_paper_runner paper_cx) (ri_cycle_id i) (ri_instrument i) (ri_bars i) p
             (ri_context_bars i) w1) (\<lambda>(paper, w2).
         r_bind (reference_evaluate (rh_reference_context h) i (Some (ri_portfolio i)) (cx_execution_venue report_cx))
           (\<lambda>report_ref.
         r_bind (reference_evaluate (rh_reference_context h) i (Some p) (cx_execution_venue paper_cx)) (\<lambda>paper_ref.
           let a = build_parity_record (rh_text h) (rh_iso h) ''report_only'' report (rf_cycle report_ref)
                 (rf_context report_ref);
               b = build_parity_record (rh_text h) (rh_iso h) ''paper'' (po_cycle paper) (rf_cycle paper_ref)
                 (rf_context paper_ref)
           in r_bind (persist_parity h a b w2) (\<lambda>w3.
                Inr (\<lparr>rp_report = report, rp_paper = paper, rp_reference = report_ref,
                      rp_report_record = a, rp_paper_record = b\<rparr>, w3)))))))))"

fun replay_steps ::
    "'w replay_harness \<Rightarrow> replay_input list \<Rightarrow> portfolio_state option \<Rightarrow> 'w \<Rightarrow> (replay_step list \<times> 'w) result" where
  "replay_steps h [] carried w = Inr ([], w)"
| "replay_steps h (i # rest) carried w =
     r_bind (replay_one h i carried w) (\<lambda>(s, w1).
     r_bind (replay_steps h rest (Some (po_ending (rp_paper s))) w1) (\<lambda>(ss, w2). Inr (s # ss, w2)))"

definition replay :: "'w replay_harness \<Rightarrow> replay_input list \<Rightarrow> 'w \<Rightarrow> (replay_result \<times> 'w) result" where
  "replay h inputs w =
     r_bind (replay_steps h inputs None w) (\<lambda>(steps, w').
       Inr (\<lparr>rs_report_cycles = map rp_report steps, rs_paper_cycles = map rp_paper steps,
             rs_reference_cycles = map rp_reference steps,
             rs_parity_records = concat (map (\<lambda>s. [rp_report_record s, rp_paper_record s]) steps)\<rparr>, w'))"

section \<open>Facts\<close>

text \<open>Two contexts that decide alike: the same features, strategies, risk rules, intents and venue profile.\<close>

definition same_decisions :: "'w base_context \<Rightarrow> 'w base_context \<Rightarrow> bool" where
  "same_decisions a b \<longleftrightarrow>
     snd a = snd b \<and> cx_features (fst a) = cx_features (fst b) \<and> cx_strategy (fst a) = cx_strategy (fst b) \<and>
     cx_risk (fst a) = cx_risk (fst b) \<and> cx_intents (fst a) = cx_intents (fst b) \<and>
     cx_venue_profile (fst a) = cx_venue_profile (fst b)"

text \<open>A strategy that does not read the recorded quality of its context.\<close>

definition quality_blind :: "strategy \<Rightarrow> bool" where
  "quality_blind s \<longleftrightarrow>
     (\<forall>dc states details. s (dc\<lparr>dc_quality_states := states, dc_quality_details := details\<rparr>) = s dc)"

lemma real_strategies_blind: "quality_blind (route [evaluate_breakout k, evaluate_regime name] flat)"
proof -
  have "evaluate_breakout k (dc\<lparr>dc_quality_states := states, dc_quality_details := details\<rparr>) = evaluate_breakout k dc"
    "evaluate_regime name (dc\<lparr>dc_quality_states := states, dc_quality_details := details\<rparr>) = evaluate_regime name dc"
    for dc states details by (simp_all add: evaluate_breakout_def evaluate_regime_def Let_def)
  then show ?thesis by (simp add: quality_blind_def route_def)
qed

lemma bind_fields:
  "cx_index (bind_replay_context base i) = Some (IndexGetter (\<lambda>instrument_id as_of. ri_index i))"
  "cx_stable (bind_replay_context base i) = Some (StableGetter (\<lambda>as_of. ri_stable i))"
  "cx_strategy (bind_replay_context base i) = cx_strategy (fst base)"
  "cx_risk (bind_replay_context base i) = cx_risk (fst base)"
  "cx_intents (bind_replay_context base i) = cx_intents (fst base)"
  "cx_venue_profile (bind_replay_context base i) = cx_venue_profile (fst base)"
  "cx_execution_venue (bind_replay_context base i) = cx_execution_venue (fst base)"
  "cx_mode (bind_replay_context base i) = cx_mode (fst base)"
  "cx_now (bind_replay_context base i) = cx_now (fst base)"
  by (simp_all add: bind_replay_context_def Let_def split: prod.splits)

lemma bind_features:
  "same_decisions a b \<Longrightarrow> cx_features (bind_replay_context a i) = cx_features (bind_replay_context b i)"
  by (cases a; cases b) (auto simp: bind_replay_context_def same_decisions_def Let_def split: option.splits)

lemma build_context_bound: "build_context (bind_replay_context a i) = build_context (bind_replay_context b i)"
  by (intro ext) (simp add: build_context_def bind_fields)

text \<open>The decisions of one pipeline run, with the context they were made in.\<close>

definition decides ::
    "'w runtime_context \<Rightarrow> instrument \<Rightarrow> bar_slice \<Rightarrow> bar_slice option \<Rightarrow> string \<Rightarrow> portfolio_state \<Rightarrow> string
      \<Rightarrow> decision_context \<Rightarrow> cycle_result \<Rightarrow> bool" where
  "decides cx instrument b ctx cid p venue dc r \<longleftrightarrow>
     (\<exists>features. cx_features cx b ctx = Inr features \<and> build_context cx cid instrument b p features = Inr dc) \<and>
     cx_strategy cx dc = Inr (rc_signals r) \<and>
     cx_risk cx (rc_signals r) p (cx_venue_profile cx) = Inr (rc_risk_decisions r) \<and>
     cx_intents cx (rc_risk_decisions r) venue (bs_end_time b) = Inr (rc_execution_intents r)"

lemma recorded_quality:
  assumes "quality_blind s" and "(if qe_states q \<noteq> [] then record_quality q dc else Inr dc) = Inr dc'"
  shows "s dc' = s dc"
  using assms by (auto simp: quality_blind_def record_quality_def mk_decision_context_def split: if_splits)

lemma report_run_decides:
  assumes "report_only_run lag cx cid instrument b ctx p w = Inr ((r, m), w')"
    and "bv_is_valid (validate_bars b)" and "quality_blind (cx_strategy cx)"
  shows "\<exists>dc. decides cx instrument b ctx cid p (py_or (cx_execution_venue cx) ''unassigned_venue'') dc r"
proof -
  obtain t1 w1 t2 w2 where t1: "cx_now cx w = (t1, w1)" "cx_now cx w1 = (t2, w2)" by force
  obtain features dc where f: "cx_features cx b ctx = Inr features"
    "build_context cx cid instrument b p features = Inr dc"
    using assms(1,2) t1 by (auto simp: report_only_run_def r_bind_Inr)
  define q where "q = evaluate_quality lag (cx_mode cx) cx dc ctx"
  obtain dc' where dc': "(if qe_states q \<noteq> [] then record_quality q dc else Inr dc) = Inr dc'"
    using assms(1,2) t1 f unfolding report_only_run_def Let_def q_def by (auto simp: r_bind_Inr simp del: if_split)
  have "cx_strategy cx dc' = Inr (rc_signals r) \<and>
     cx_risk cx (rc_signals r) p (cx_venue_profile cx) = Inr (rc_risk_decisions r) \<and>
     cx_intents cx (rc_risk_decisions r) (py_or (cx_execution_venue cx) ''unassigned_venue'') (bs_end_time b)
       = Inr (rc_execution_intents r)"
    using assms(1,2) t1 f dc' unfolding report_only_run_def Let_def q_def
    by (auto simp: r_bind_Inr split: prod.splits dest!: persist_Inr)
  then show ?thesis using f recorded_quality [OF assms(3) dc'] by (auto simp: decides_def)
qed

lemma paper_cycle_decides:
  assumes "paper_cycle pr cid instrument b p ctx w = Inr (x, w')"
    and "bv_is_valid (validate_bars b)" and "quality_blind (cx_strategy (pr_context pr))"
  shows "\<exists>dc. decides (pr_context pr) instrument b ctx cid p
    (py_or (cx_execution_venue (pr_context pr)) ''paper'') dc (po_cycle x)"
proof -
  let ?cx = "pr_context pr"
  obtain t1 w1 where t1: "cx_now ?cx w = (t1, w1)" by force
  obtain features dc where f: "cx_features ?cx b ctx = Inr features"
    "build_context ?cx cid instrument b p features = Inr dc"
    using assms(1,2) t1 unfolding paper_cycle_def Let_def by (auto simp: r_bind_Inr)
  define q where "q = evaluate_quality (pr_max_lag pr) (cx_mode ?cx) ?cx dc ctx"
  obtain dc' t where dc': "(if qe_states q \<noteq> [] then record_quality q dc else Inr dc) = Inr dc'"
    and t: "paper_trade pr instrument b p dc' = Inr t"
      "report_trade pr cid instrument p features dc' q t1 t w1 = Inr (x, w')"
    using assms(1,2) t1 f unfolding paper_cycle_def Let_def q_def by (auto simp: r_bind_Inr simp del: if_split)
  have "rc_signals (po_cycle x) = tg_signals t" "rc_risk_decisions (po_cycle x) = tg_decisions t"
    "rc_execution_intents (po_cycle x) = tg_intents t"
    using t(2) by (auto simp: report_trade_def Let_def r_bind_Inr split: prod.splits dest!: persist_Inr)
  moreover have "cx_strategy ?cx dc' = Inr (tg_signals t) \<and>
     cx_risk ?cx (tg_signals t) p (cx_venue_profile ?cx) = Inr (tg_decisions t) \<and>
     cx_intents ?cx (tg_decisions t) (py_or (cx_execution_venue ?cx) ''paper'') (bs_end_time b) = Inr (tg_intents t)"
    using t(1) unfolding paper_trade_def Let_def by (auto simp: r_bind_Inr split: prod.splits)
  ultimately show ?thesis using f recorded_quality [OF assms(3) dc'] by (auto simp: decides_def)
qed

lemma reference_decides:
  assumes "reference_evaluate base i portfolio venue = Inr rf"
  shows "decides (bind_replay_context base i) (ri_instrument i) (ri_bars i) (ri_context_bars i) (ri_cycle_id i)
    (case portfolio of None \<Rightarrow> ri_portfolio i | Some q \<Rightarrow> q)
    (py_or (if truthy venue then venue else cx_execution_venue (fst base)) ''unassigned_venue'')
    (rf_context rf) (rf_cycle rf)"
  using assms unfolding reference_evaluate_def Let_def
  by (auto simp: r_bind_Inr decides_def bind_fields)

lemma decides_unique:
  assumes "decides (bind_replay_context a i) instrument b ctx cid p venue dc r"
    and "decides (bind_replay_context c i) instrument b ctx cid p venue dc' r'" and "same_decisions a c"
  shows "rc_signals r = rc_signals r' \<and> rc_risk_decisions r = rc_risk_decisions r' \<and>
    rc_execution_intents r = rc_execution_intents r'"
proof -
  have "dc = dc'"
    using assms bind_features [OF assms(3), of i] build_context_bound [of a i c] by (auto simp: decides_def)
  then show ?thesis using assms by (auto simp: decides_def bind_fields same_decisions_def)
qed

lemma matching_record:
  assumes "rc_signals r = rc_signals r' \<and> rc_risk_decisions r = rc_risk_decisions r' \<and>
    rc_execution_intents r = rc_execution_intents r'"
  shows "pc_matches (build_parity_record text isotext mode r r' dc)"
  using assms by (simp add: build_parity_record_def Let_def cycle_summary_of_def summary_mismatches_def)

section \<open>Properties\<close>

lemma replay_one_matches:
  assumes "replay_one h i carried w = Inr (s, w')"
    and "same_decisions (rh_report_context h) (rh_reference_context h)"
    and "same_decisions (rh_paper_context h) (rh_reference_context h)"
    and "quality_blind (cx_strategy (fst (rh_reference_context h)))"
    and "truthy (cx_execution_venue (fst (rh_report_context h)))"
    and "bv_is_valid (validate_bars (ri_bars i))"
  shows "pc_matches (rp_report_record s) \<and> pc_matches (rp_paper_record s)"
proof -
  let ?rc = "bind_replay_context (rh_report_context h) i" and ?pc = "bind_replay_context (rh_paper_context h) i"
  let ?p = "case carried of None \<Rightarrow> ri_portfolio i | Some q \<Rightarrow> q"
  obtain report m w1 paper w2 rref pref where run:
      "report_only_run default_lag ?rc (ri_cycle_id i) (ri_instrument i) (ri_bars i) (ri_context_bars i)
         (ri_portfolio i) w = Inr ((report, m), w1)"
      "paper_cycle (default_paper_runner ?pc) (ri_cycle_id i) (ri_instrument i) (ri_bars i) ?p (ri_context_bars i) w1
         = Inr (paper, w2)"
      "reference_evaluate (rh_reference_context h) i (Some (ri_portfolio i)) (cx_execution_venue ?rc) = Inr rref"
      "reference_evaluate (rh_reference_context h) i (Some ?p) (cx_execution_venue ?pc) = Inr pref"
    and venue: "truthy (cx_execution_venue ?pc)"
    and recs: "rp_report_record s = build_parity_record (rh_text h) (rh_iso h) ''report_only'' report (rf_cycle rref) (rf_context rref)"
      "rp_paper_record s = build_parity_record (rh_text h) (rh_iso h) ''paper'' (po_cycle paper) (rf_cycle pref) (rf_context pref)"
    using assms(1) unfolding replay_one_def Let_def by (auto simp: r_bind_Inr check_paper_def split: prod.splits)
  have blind: "quality_blind (cx_strategy ?rc)" "quality_blind (cx_strategy ?pc)"
    using assms(2-4) by (simp_all add: bind_fields same_decisions_def)
  have py: "py_or v d = py_or v d'" if "truthy v" for v d d'
    using that by (cases v) (auto simp: py_or_def truthy_def)
  obtain dc1 where d1: "decides ?rc (ri_instrument i) (ri_bars i) (ri_context_bars i) (ri_cycle_id i) (ri_portfolio i)
      (py_or (cx_execution_venue ?rc) ''unassigned_venue'') dc1 report"
    using report_run_decides [OF run(1) assms(6) blind(1)] by blast
  obtain dc2 where d2: "decides ?pc (ri_instrument i) (ri_bars i) (ri_context_bars i) (ri_cycle_id i) ?p
      (py_or (cx_execution_venue ?pc) ''unassigned_venue'') dc2 (po_cycle paper)"
    using paper_cycle_decides [OF run(2) assms(6)] blind(2) py [OF venue, of "''paper''" "''unassigned_venue''"]
    by (auto simp: default_paper_runner_def)
  have "truthy (cx_execution_venue ?rc)" using assms(5) by (simp add: bind_fields)
  then show ?thesis
    unfolding recs using decides_unique [OF d1 _ assms(2)] decides_unique [OF d2 _ assms(3)]
      reference_decides [OF run(3)] reference_decides [OF run(4)] venue
    by (auto intro!: matching_record)
qed

lemma replay_steps_match:
  assumes "same_decisions (rh_report_context h) (rh_reference_context h)"
    and "same_decisions (rh_paper_context h) (rh_reference_context h)"
    and "quality_blind (cx_strategy (fst (rh_reference_context h)))"
    and "truthy (cx_execution_venue (fst (rh_report_context h)))"
  shows "replay_steps h inputs carried w = Inr (steps, w') \<Longrightarrow>
    \<forall>i\<in>set inputs. bv_is_valid (validate_bars (ri_bars i)) \<Longrightarrow>
    length steps = length inputs \<and> (\<forall>s\<in>set steps. pc_matches (rp_report_record s) \<and> pc_matches (rp_paper_record s))"
proof (induction inputs arbitrary: carried w steps)
  case Nil
  then show ?case by simp
next
  case (Cons i inputs)
  obtain s w1 ss where s: "replay_one h i carried w = Inr (s, w1)"
    "replay_steps h inputs (Some (po_ending (rp_paper s))) w1 = Inr (ss, w')" "steps = s # ss"
    using Cons.prems(1) by (auto simp: r_bind_Inr)
  then show ?case using Cons.IH [OF s(2)] replay_one_matches [OF s(1) assms] Cons.prems(2) by simp
qed


section \<open>A concrete replay\<close>

definition sample_base :: "runner_mode \<Rightarrow> int base_context" where
  "sample_base mode =
     ((sample_context mode None None)
        \<lparr>cx_strategy := (\<lambda>dc. Inr []), cx_risk := (\<lambda>sigs p v. Inr []), cx_intents := (\<lambda>ds v t. Inr [sample_intent])\<rparr>,
      Some \<lparr>bld_tolerate_partial = True, bld_index = None, bld_stable = None\<rparr>)"

definition sample_replay :: "int replay_harness" where
  "sample_replay =
     \<lparr>rh_report_context = sample_base MODE_REPORT_ONLY, rh_paper_context = sample_base MODE_PAPER,
      rh_reference_context = sample_base MODE_REPORT_ONLY, rh_gateway = Some (\<lambda>r w. Inr (w + 1)),
      rh_text = (\<lambda>d. []), rh_iso = (\<lambda>t. [])\<rparr>"

definition sample_input :: replay_input where
  "sample_input =
     \<lparr>ri_cycle_id = ''c1'', ri_instrument = sample_instrument, ri_bars = sample_bars, ri_portfolio = sample_portfolio,
      ri_context_bars = None, ri_index = None, ri_stable = None\<rparr>"

lemma sample_bound:
  "cx_strategy (bind_replay_context (sample_base mode) i) = (\<lambda>dc. Inr [])"
  "cx_risk (bind_replay_context (sample_base mode) i) = (\<lambda>s p v. Inr [])"
  "cx_intents (bind_replay_context (sample_base mode) i) = (\<lambda>ds v t. Inr [sample_intent])"
  "cx_now (bind_replay_context (sample_base mode) i) = (\<lambda>w. (utc w, w + 1))"
  "cx_mode (bind_replay_context (sample_base mode) i) = mode"
  "cx_execution_venue (bind_replay_context (sample_base mode) i) = Some ''paper''"
  "cx_persist (bind_replay_context (sample_base mode) i) = (\<lambda>r f dc h w. Inr w)"
  "cx_features (bind_replay_context (sample_base mode) i) = cx_features (bind_replay_context (sample_base m) i)"
  "cx_time_sync_ok (bind_replay_context (sample_base mode) i) = None"
  by (simp_all add: bind_replay_context_def sample_base_def sample_context_def Let_def)

lemma sample_pipeline:
  obtains f dc where "\<forall>mode. cx_features (bind_replay_context (sample_base mode) sample_input) sample_bars None = Inr f \<and>
      build_context (bind_replay_context (sample_base mode) sample_input) ''c1'' sample_instrument sample_bars
        sample_portfolio f = Inr dc \<and>
      qe_states (evaluate_quality default_lag mode (bind_replay_context (sample_base mode) sample_input) dc None) = [] \<and>
      qe_details (evaluate_quality default_lag mode (bind_replay_context (sample_base mode) sample_input) dc None) = []"
proof -
  let ?cx = "bind_replay_context (sample_base MODE_PAPER) sample_input"
  obtain f where f: "cx_features ?cx sample_bars None = Inr f" "ft_instrument_id f = bs_instrument_id sample_bars"
    "ft_timeframe f = bs_timeframe sample_bars"
    using build_features_total [OF sample_bars_valid] by (auto simp: bind_replay_context_def sample_base_def Let_def)
  have c: "\<not> blank ''c1''" "in_instrument_id sample_instrument = bs_instrument_id sample_bars"
    by (simp_all add: blank_def py_space_def sample_instrument_def sample_bars_def)
  obtain dc where dc: "build_context ?cx ''c1'' sample_instrument sample_bars sample_portfolio f = Inr dc"
    "dc_latest_candle dc = last (bs_candles sample_bars)"
    using build_context_total [OF sample_bars_valid(1,4) c f(2,3)] by blast
  have none: "dc_index_snapshot_status dc = None" "dc_stablecoin_snapshot_status dc = None"
    using dc(1) by (auto simp: build_context_def index_of_def stable_of_def mk_decision_context_def bind_fields sample_input_def)
  have q: "qe_states (evaluate_quality default_lag mode (bind_replay_context (sample_base mode) sample_input) dc None) = []"
    "qe_details (evaluate_quality default_lag mode (bind_replay_context (sample_base mode) sample_input) dc None) = []" for mode
    by (simp_all add: evaluate_quality_def Let_def dc(2) none context_issues_def snapshot_issues_def sample_bars_def
        sample_candle_def sample_bound)
  have "cx_features (bind_replay_context (sample_base mode) sample_input) sample_bars None = Inr f" for mode
    using f(1) sample_bound(8) [of mode sample_input MODE_PAPER] by simp
  moreover have "build_context (bind_replay_context (sample_base mode) sample_input) ''c1'' sample_instrument sample_bars
      sample_portfolio f = Inr dc" for mode
    using dc(1) build_context_bound [of "sample_base mode" sample_input "sample_base MODE_PAPER"] by simp
  ultimately show thesis using q by (intro that) blast
qed

lemma sample_persist: "\<exists>w'. persist (bind_replay_context (sample_base mode) i) r f dc w = Inr (r, w')"
  by (cases "exchange_health (bind_replay_context (sample_base mode) i) w") (simp add: persist_def sample_bound)

lemma sample_report_run:
  "\<exists>r m w'. report_only_run default_lag (bind_replay_context (sample_base MODE_REPORT_ONLY) sample_input) ''c1''
     sample_instrument sample_bars None sample_portfolio 0 = Inr ((r, m), w')"
proof -
  let ?cx = "bind_replay_context (sample_base MODE_REPORT_ONLY) sample_input"
  obtain f dc where f: "cx_features ?cx sample_bars None = Inr f"
    "build_context ?cx ''c1'' sample_instrument sample_bars sample_portfolio f = Inr dc"
    "qe_states (evaluate_quality default_lag MODE_REPORT_ONLY ?cx dc None) = []"
    "qe_details (evaluate_quality default_lag MODE_REPORT_ONLY ?cx dc None) = []"
    using sample_pipeline by metis
  let ?r = "\<lparr>rc_cycle_id = ''c1'', rc_started_at = utc 0, rc_completed_at = utc 1,
    rc_processed_instruments = [in_instrument_id sample_instrument], rc_signals = [], rc_risk_decisions = [],
    rc_execution_intents = [sample_intent], rc_reconciliation_events = [], rc_quality_states = [],
    rc_quality_details = [],
    rc_alerts = [''report-only generated intents were persisted only; no exchange submission''] @ [], rc_success = True\<rparr>"
  have r: "mk_cycle_result ?r = Inr ?r"
    by (simp add: cycle_result_checks_def sample_instrument_def blank_def py_space_def)
  obtain w' where w': "persist ?cx ?r f dc (0 + 1 + 1) = Inr (?r, w')" using sample_persist by blast
  show ?thesis
    unfolding report_only_run_def Let_def sample_bound prod.case sample_bars_close bar_validation.simps f(1,2) r_bind_simps f(3,4)
    using r w' by (simp only: r_bind_simps if_True if_False simp_thms not_True_eq_False list.distinct prod.case
        add_0 refl) auto
qed

lemma sample_paper_run:
  "\<exists>x w'. paper_cycle (default_paper_runner (bind_replay_context (sample_base MODE_PAPER) sample_input)) ''c1''
     sample_instrument sample_bars sample_portfolio None w = Inr (x, w')"
proof -
  let ?cx = "bind_replay_context (sample_base MODE_PAPER) sample_input"
  obtain f dc where f: "cx_features ?cx sample_bars None = Inr f"
    "build_context ?cx ''c1'' sample_instrument sample_bars sample_portfolio f = Inr dc"
    "qe_states (evaluate_quality default_lag MODE_PAPER ?cx dc None) = []"
    "qe_details (evaluate_quality default_lag MODE_PAPER ?cx dc None) = []"
    using sample_pipeline by metis
  have "\<exists>x w'. paper_cycle (default_paper_runner ?cx) ''c1'' sample_instrument sample_bars sample_portfolio None w
      = Inr (x, w') \<and> length (po_fills x) = 1"
    by (rule paper_cycle_sample) (use f in \<open>simp_all add: default_paper_runner_def sample_bound sample_paper_def\<close>)
  then show ?thesis by blast
qed

lemma sample_reference:
  "\<exists>rf. reference_evaluate (sample_base MODE_REPORT_ONLY) sample_input (Some sample_portfolio) (Some ''paper'') = Inr rf"
proof -
  let ?cx = "bind_replay_context (sample_base MODE_REPORT_ONLY) sample_input"
  obtain f dc where f: "cx_features ?cx sample_bars None = Inr f"
    "build_context ?cx ''c1'' sample_instrument sample_bars sample_portfolio f = Inr dc"
    using sample_pipeline by metis
  then show ?thesis
    by (auto simp: reference_evaluate_def Let_def sample_bound r_bind_Inr sample_input_def check_report_only_def
        cycle_result_checks_def sample_instrument_def sample_bars_def blank_def py_space_def)
qed


end
