(* ===== verification/PrivateSoak.thy ===== *)
theory PrivateSoak
  imports PrivateStream
begin

text \<open>
  \<open>app/exchanges/binance/private_transport_soak.py\<close>: the scripted rehearsal of the private stream
  client. A script is a list of steps; every step changes the session, yields a health and is recorded
  as a transition. The transport is a parameter: the stream operations and a read.
\<close>

section \<open>Scripts, transitions and summaries\<close>

datatype private_soak_action =
    READ_PAYLOAD | HEARTBEAT_CHECK | REFRESH | RECONNECT | TERMINATE | SHUTDOWN_STREAM

record private_soak_step =
  pk_action :: private_soak_action
  pk_occurred_at :: datetime
  pk_payload :: "payload option"
  pk_reason :: "string option"
  pk_transport_error :: "string option"

record private_soak_transition =
  px_step_index :: int
  px_action :: private_soak_action
  px_occurred_at :: datetime
  px_previous_state :: private_stream_state
  px_state :: private_stream_state
  px_state_changed :: bool
  px_is_authoritative :: bool
  px_authoritative_changed :: bool
  px_reconnect_attempts :: int
  px_refresh_attempts :: int
  px_refresh_failures :: int
  px_connection_id :: "string option"
  px_stream_key :: string
  px_alerts :: "string list"

record private_soak_summary =
  pu_started_at :: datetime
  pu_ended_at :: datetime
  pu_total_steps :: int
  pu_final_state :: private_stream_state
  pu_reconnect_count :: int
  pu_refresh_attempts :: int
  pu_refresh_failures :: int
  pu_authoritative_transition_count :: int
  pu_degraded_transition_count :: int
  pu_termination_count :: int
  pu_alerts :: "string list"

record private_soak_run =
  pv_summary :: private_soak_summary
  pv_transitions :: "private_soak_transition list"
  pv_final_session :: private_session

record 't readable_transport =
  rt_ops :: "'t stream_ops"
  rt_read :: "string \<Rightarrow> 't \<Rightarrow> (payload \<times> 't) result"

fun unique_onto :: "'a list \<Rightarrow> 'a list \<Rightarrow> 'a list" where
  "unique_onto values [] = values"
| "unique_onto values (a # as) = unique_onto (if a \<notin> set values then values @ [a] else values) as"

definition unique_alerts :: "string list list \<Rightarrow> string list" where
  "unique_alerts groups = unique_onto [] (concat groups)"

section \<open>The steps\<close>

text \<open>What a step yields: the session, its health, and how much it adds to the number of terminations.\<close>

type_synonym step_outcome = "private_session \<times> stream_health \<times> int"

definition soak_health :: "private_session \<Rightarrow> private_stream_state \<Rightarrow> string list \<Rightarrow> stream_health" where
  "soak_health s state alerts =
     \<lparr>sh_state = state, sh_reconnect_attempts = ses_reconnect_attempts s,
      sh_last_message_at = ses_last_message_at s, sh_last_reconnect_at = None,
      sh_session_expires_at = ses_expires_at s, sh_is_authoritative = False, sh_alerts = alerts\<rparr>"

definition expired_at :: "private_session \<Rightarrow> datetime \<Rightarrow> bool" where
  "expired_at s now \<longleftrightarrow> (case ses_expires_at s of None \<Rightarrow> False | Some e \<Rightarrow> dt_le e now)"

definition end_session :: "private_session \<Rightarrow> private_stream_state \<Rightarrow> datetime \<Rightarrow> string list \<Rightarrow> private_session" where
  "end_session s state last_message alerts =
     s\<lparr>ses_state := state, ses_last_message_at := Some last_message,
       ses_alerts := unique_alerts [ses_alerts s, alerts]\<rparr>"

definition soak_read ::
    "stream_client \<Rightarrow> 't readable_transport \<Rightarrow> private_soak_step \<Rightarrow> private_session \<Rightarrow> 't
      \<Rightarrow> (step_outcome \<times> 't) result" where
  "soak_read cl tr st s t =
     (case pk_transport_error st of
        Some e \<Rightarrow> Inr ((s, soak_health s DEGRADED [''private transport read failed: '' @ e], 0), t)
      | None \<Rightarrow>
          r_bind (case pk_payload st of Some p \<Rightarrow> Inr (p, t)
                  | None \<Rightarrow> rt_read tr (py_or (ses_connection_id s) []) t) (\<lambda>(p, t1).
          r_bind (ingest_payloads cl [p] None False) (\<lambda>batch.
            let ended = (pb_stream_state batch = TERMINATED);
                s1 = (if ended
                      then end_session s TERMINATED (case pb_last_event_time batch of None \<Rightarrow> pk_occurred_at st
                             | Some m \<Rightarrow> m) (pb_alerts batch)
                      else mark_streaming s (pk_occurred_at st))
            in Inr ((s1, build_health_snapshot cl s1 (Some batch) (Some (pk_occurred_at st)) None,
                     if ended then 1 else 0), t1))))"

definition soak_heartbeat ::
    "stream_client \<Rightarrow> timedelta \<Rightarrow> private_soak_step \<Rightarrow> private_session \<Rightarrow> step_outcome" where
  "soak_heartbeat cl timeout st s =
     (let now = pk_occurred_at st in
      if expired_at s now then
        let h = terminated_stream_health now ''subscription_expired''
        in (end_session s TERMINATED now (sh_alerts h), h, 1)
      else if (case ses_last_message_at s of None \<Rightarrow> True | Some m \<Rightarrow> timeout < dt_diff now m) then
        (s, soak_health s DEGRADED [''private stream heartbeat overdue''], 0)
      else (s, build_health_snapshot cl s None (Some now) None, 0))"

definition soak_refresh ::
    "stream_client \<Rightarrow> 't readable_transport \<Rightarrow> private_soak_step \<Rightarrow> private_session \<Rightarrow> 't
      \<Rightarrow> (step_outcome \<times> 't) result" where
  "soak_refresh cl tr st s t =
     (let now = pk_occurred_at st in
      case pk_transport_error st of
        Some e \<Rightarrow>
          (let expired = expired_at s now;
               h = soak_health s (if expired then TERMINATED else DEGRADED)
                 ([''private stream subscription renewal failed: '' @ e]
                  @ (if expired then [''private stream subscription expired before renewal completed''] else []))
           in Inr ((s\<lparr>ses_state := sh_state h, ses_alerts := unique_alerts [ses_alerts s, sh_alerts h]\<rparr>, h,
                    if expired then 1 else 0), t))
      | None \<Rightarrow>
          r_bind (refresh_session cl (Some (rt_ops tr)) s now t) (\<lambda>(s1, t1).
            let h = build_health_snapshot cl s1 None (Some now) None
            in Inr ((s1, h\<lparr>sh_alerts := unique_alerts [sh_alerts h, [''private stream subscription renewed'']]\<rparr>, 0), t1)))"

definition soak_reconnect ::
    "'t readable_transport \<Rightarrow> private_soak_step \<Rightarrow> private_session \<Rightarrow> 't \<Rightarrow> (step_outcome \<times> 't) result" where
  "soak_reconnect tr st s t =
     (let now = pk_occurred_at st in
      case pk_transport_error st of
        Some e \<Rightarrow>
          (let h = (soak_health s DEGRADED [''private stream reconnect failed: '' @ e])
                 \<lparr>sh_reconnect_attempts := ses_reconnect_attempts s + 1, sh_last_reconnect_at := Some now\<rparr>
           in Inr ((s\<lparr>ses_reconnect_attempts := ses_reconnect_attempts s + 1,
                      ses_alerts := unique_alerts [ses_alerts s, sh_alerts h]\<rparr>, h, 0), t))
      | None \<Rightarrow>
          r_bind (reconnect_session (rt_ops tr) s now t) (\<lambda>(s1, t1).
            Inr ((s1, on_reconnect (s1\<lparr>ses_reconnect_attempts := ses_reconnect_attempts s1 - 1\<rparr>) now
                        (ses_connection_id s1), 0), t1)))"

definition soak_terminate :: "private_soak_step \<Rightarrow> private_session \<Rightarrow> step_outcome" where
  "soak_terminate st s =
     (let h = terminated_stream_health (pk_occurred_at st) (py_or (pk_reason st) ''manual_termination'')
      in (end_session s TERMINATED (pk_occurred_at st) (sh_alerts h), h, 1))"

definition soak_shutdown ::
    "'t readable_transport \<Rightarrow> private_soak_step \<Rightarrow> private_session \<Rightarrow> 't \<Rightarrow> (step_outcome \<times> 't) result" where
  "soak_shutdown tr st s t =
     r_bind (shutdown (Some (rt_ops tr)) s (pk_occurred_at st) t) (\<lambda>(h, t1).
       Inr ((end_session s SHUTDOWN (pk_occurred_at st) (sh_alerts h), h, 0), t1))"

definition soak_step ::
    "stream_client \<Rightarrow> timedelta \<Rightarrow> 't readable_transport \<Rightarrow> private_soak_step \<Rightarrow> private_session \<Rightarrow> 't
      \<Rightarrow> (step_outcome \<times> 't) result" where
  "soak_step cl timeout tr st s t =
     (case pk_action st of
        READ_PAYLOAD \<Rightarrow> soak_read cl tr st s t
      | HEARTBEAT_CHECK \<Rightarrow> Inr (soak_heartbeat cl timeout st s, t)
      | REFRESH \<Rightarrow> soak_refresh cl tr st s t
      | RECONNECT \<Rightarrow> soak_reconnect tr st s t
      | TERMINATE \<Rightarrow> Inr (soak_terminate st s, t)
      | SHUTDOWN_STREAM \<Rightarrow> soak_shutdown tr st s t)"

section \<open>The run\<close>

record private_soak_state =
  pq_session :: private_session
  pq_health :: stream_health
  pq_refresh_attempts :: int
  pq_refresh_failures :: int
  pq_termination_count :: int

definition transition_of ::
    "int \<Rightarrow> private_soak_step \<Rightarrow> stream_health \<Rightarrow> private_soak_state \<Rightarrow> private_soak_transition" where
  "transition_of index st previous q =
     (let s = pq_session q; h = pq_health q
      in \<lparr>px_step_index = index, px_action = pk_action st, px_occurred_at = pk_occurred_at st,
          px_previous_state = sh_state previous, px_state = sh_state h,
          px_state_changed = (sh_state previous \<noteq> sh_state h), px_is_authoritative = sh_is_authoritative h,
          px_authoritative_changed = (sh_is_authoritative previous \<noteq> sh_is_authoritative h),
          px_reconnect_attempts = sh_reconnect_attempts h, px_refresh_attempts = pq_refresh_attempts q,
          px_refresh_failures = pq_refresh_failures q, px_connection_id = ses_connection_id s,
          px_stream_key = ses_stream_key s, px_alerts = unique_alerts [ses_alerts s, sh_alerts h]\<rparr>)"

definition run_step ::
    "stream_client \<Rightarrow> timedelta \<Rightarrow> 't readable_transport \<Rightarrow> private_soak_step \<Rightarrow> private_soak_state \<Rightarrow> 't
      \<Rightarrow> (private_soak_state \<times> 't) result" where
  "run_step cl timeout tr st q t =
     r_bind (soak_step cl timeout tr st (pq_session q) t) (\<lambda>((s, h, ended), t1).
       Inr (\<lparr>pq_session = s, pq_health = h,
             pq_refresh_attempts = pq_refresh_attempts q + (if pk_action st = REFRESH then 1 else 0),
             pq_refresh_failures = pq_refresh_failures q
               + (if pk_action st = REFRESH \<and> pk_transport_error st \<noteq> None then 1 else 0),
             pq_termination_count = pq_termination_count q + ended\<rparr>, t1))"

fun run_steps ::
    "stream_client \<Rightarrow> timedelta \<Rightarrow> 't readable_transport \<Rightarrow> int \<Rightarrow> private_soak_step list \<Rightarrow> private_soak_state \<Rightarrow> 't
      \<Rightarrow> ((private_soak_transition list \<times> private_soak_state) \<times> 't) result" where
  "run_steps cl timeout tr index [] q t = Inr (([], q), t)"
| "run_steps cl timeout tr index (st # sts) q t =
     r_bind (run_step cl timeout tr st q t) (\<lambda>(q1, t1).
     r_bind (run_steps cl timeout tr (index + 1) sts q1 t1) (\<lambda>((ts, q2), t2).
       Inr ((transition_of index st (pq_health q) q1 # ts, q2), t2)))"

definition private_soak ::
    "stream_client \<Rightarrow> timedelta \<Rightarrow> 't readable_transport \<Rightarrow> private_soak_step list \<Rightarrow> datetime \<Rightarrow> 't
      \<Rightarrow> (private_soak_run \<times> 't) result" where
  "private_soak cl timeout tr steps started_at t =
     r_bind (bootstrap_session cl (rt_ops tr) started_at t) (\<lambda>(s0, t0).
     r_bind (run_steps cl timeout tr 1 steps
         \<lparr>pq_session = s0, pq_health = build_health_snapshot cl s0 None (Some started_at) None,
          pq_refresh_attempts = 0, pq_refresh_failures = 0, pq_termination_count = 0\<rparr> t0) (\<lambda>((ts, q), t1).
       Inr (\<lparr>pv_summary =
              \<lparr>pu_started_at = started_at,
               pu_ended_at = (if steps = [] then started_at else pk_occurred_at (last steps)),
               pu_total_steps = int (length steps), pu_final_state = sh_state (pq_health q),
               pu_reconnect_count = ses_reconnect_attempts (pq_session q),
               pu_refresh_attempts = pq_refresh_attempts q, pu_refresh_failures = pq_refresh_failures q,
               pu_authoritative_transition_count = int (length (filter px_is_authoritative ts)),
               pu_degraded_transition_count = int (length (filter (\<lambda>x. px_state x = DEGRADED) ts)),
               pu_termination_count = pq_termination_count q,
               pu_alerts = unique_alerts (map px_alerts ts)\<rparr>,
             pv_transitions = ts, pv_final_session = pq_session q\<rparr>, t1)))"

section \<open>Facts\<close>

lemma unique_onto_dedup: "distinct vs \<Longrightarrow> unique_onto vs as = dedup (vs @ as)"
proof (induction as arbitrary: vs)
  case Nil
  then show ?case by (simp add: dedup_distinct)
next
  case (Cons a as)
  let ?vs = "if a \<notin> set vs then vs @ [a] else vs"
  have v: "dedup (vs @ [a]) = ?vs" "distinct ?vs" using Cons.prems by (simp_all add: dedup_snoc dedup_distinct)
  have "dedup (?vs @ as) = dedup ((vs @ [a]) @ as)" unfolding v(1) [symmetric] by (rule dedup_prefix)
  then show ?case using Cons.IH [OF v(2)] by (simp only: unique_onto.simps append_assoc append.simps)
qed

lemma unique_alerts_dedup: "unique_alerts groups = dedup (concat groups)"
  by (simp add: unique_alerts_def unique_onto_dedup)

lemma snapshot_attempts [simp]:
  "sh_reconnect_attempts (build_health_snapshot cl s b n r) = ses_reconnect_attempts s"
  unfolding build_health_snapshot_def Let_def by (simp add: case_prod_beta)

lemma ended_snapshot:
  "pb_stream_state b = TERMINATED \<Longrightarrow> sh_state (build_health_snapshot cl s (Some b) n r) = TERMINATED"
  by (cases "check_runtime_health cl s n") (simp_all add: build_health_snapshot_def Let_def)

lemma soak_read_batch:
  assumes "soak_read cl tr st s t = Inr ((s', h, n), t')" and "pk_transport_error st = None"
  shows "\<exists>batch. s' = (if pb_stream_state batch = TERMINATED
        then end_session s TERMINATED (case pb_last_event_time batch of None \<Rightarrow> pk_occurred_at st | Some m \<Rightarrow> m)
               (pb_alerts batch)
        else mark_streaming s (pk_occurred_at st)) \<and>
      h = build_health_snapshot cl s' (Some batch) (Some (pk_occurred_at st)) None \<and>
      n = (if pb_stream_state batch = TERMINATED then 1 else 0)"
proof -
  obtain y where "(case y of (p, t1) \<Rightarrow> r_bind (ingest_payloads cl [p] None False) (\<lambda>batch.
        let ended = (pb_stream_state batch = TERMINATED);
            s1 = (if ended
                  then end_session s TERMINATED (case pb_last_event_time batch of None \<Rightarrow> pk_occurred_at st
                         | Some m \<Rightarrow> m) (pb_alerts batch)
                  else mark_streaming s (pk_occurred_at st))
        in Inr ((s1, build_health_snapshot cl s1 (Some batch) (Some (pk_occurred_at st)) None,
                 if ended then 1 else 0), t1))) = Inr ((s', h, n), t')"
    using assms(1) unfolding soak_read_def assms(2) option.case r_bind_Inr by blast
  then show ?thesis unfolding case_prod_beta r_bind_Inr Let_def by blast
qed

lemma soak_step_sound:
  assumes "soak_step cl timeout tr st s t = Inr ((s', h, n), t')"
  shows "ses_reconnect_attempts s' = ses_reconnect_attempts s + (if pk_action st = RECONNECT then 1 else 0)"
    "sh_is_authoritative h \<longleftrightarrow> sh_state h = STREAMING"
    "n = 0 \<or> n = 1 \<and> sh_state h = TERMINATED"
proof -
  have "ses_reconnect_attempts s' = ses_reconnect_attempts s + (if pk_action st = RECONNECT then 1 else 0) \<and>
    (sh_is_authoritative h \<longleftrightarrow> sh_state h = STREAMING) \<and> (n = 0 \<or> n = 1 \<and> sh_state h = TERMINATED)"
  proof (cases "pk_action st")
    case READ_PAYLOAD
    then have run: "soak_read cl tr st s t = Inr ((s', h, n), t')" using assms by (simp add: soak_step_def)
    show ?thesis
    proof (cases "pk_transport_error st")
      case None
      obtain batch where "s' = (if pb_stream_state batch = TERMINATED
            then end_session s TERMINATED (case pb_last_event_time batch of None \<Rightarrow> pk_occurred_at st
                   | Some m \<Rightarrow> m) (pb_alerts batch)
            else mark_streaming s (pk_occurred_at st))"
        and h: "h = build_health_snapshot cl s' (Some batch) (Some (pk_occurred_at st)) None"
          "n = (if pb_stream_state batch = TERMINATED then 1 else 0)"
        using soak_read_batch [OF run None] by blast
      then have "ses_reconnect_attempts s' = ses_reconnect_attempts s"
        by (simp add: end_session_def mark_streaming_def)
      then show ?thesis using READ_PAYLOAD h by (simp add: health_authoritative ended_snapshot)
    qed (use run READ_PAYLOAD in \<open>auto simp: soak_read_def soak_health_def\<close>)
  next
    case HEARTBEAT_CHECK
    then show ?thesis using assms
      by (auto simp: soak_step_def soak_heartbeat_def soak_health_def end_session_def Let_def terminated_stream_health_def
          health_authoritative split: if_splits)
  next
    case REFRESH
    then show ?thesis using assms
      by (auto simp: soak_step_def soak_refresh_def soak_health_def Let_def r_bind_Inr refresh_session_def
          health_authoritative split: option.splits prod.splits if_splits)
  next
    case RECONNECT
    then show ?thesis using assms
      by (auto simp: soak_step_def soak_reconnect_def soak_health_def Let_def r_bind_Inr reconnect_session_def
          on_reconnect_def split: option.splits prod.splits)
  next
    case TERMINATE
    then show ?thesis using assms
      by (auto simp: soak_step_def soak_terminate_def end_session_def Let_def terminated_stream_health_def)
  next
    case SHUTDOWN_STREAM
    then show ?thesis using assms
      by (auto simp: soak_step_def soak_shutdown_def end_session_def Let_def r_bind_Inr shutdown_def)
  qed
  then show "ses_reconnect_attempts s' = ses_reconnect_attempts s + (if pk_action st = RECONNECT then 1 else 0)"
    "sh_is_authoritative h \<longleftrightarrow> sh_state h = STREAMING" "n = 0 \<or> n = 1 \<and> sh_state h = TERMINATED" by auto
qed

definition steps_of :: "private_soak_action \<Rightarrow> private_soak_step list \<Rightarrow> int" where
  "steps_of a sts = int (length (filter (\<lambda>st. pk_action st = a) sts))"

definition failed_refreshes :: "private_soak_step list \<Rightarrow> int" where
  "failed_refreshes sts = int (length (filter (\<lambda>st. pk_action st = REFRESH \<and> pk_transport_error st \<noteq> None) sts))"

definition terminated_transitions :: "private_soak_transition list \<Rightarrow> int" where
  "terminated_transitions ts = int (length (filter (\<lambda>x. px_state x = TERMINATED) ts))"

text \<open>Transitions that record a list of steps from a given health, numbered from an index.\<close>

fun records_steps ::
    "int \<Rightarrow> private_stream_state \<Rightarrow> private_soak_step list \<Rightarrow> private_soak_transition list \<Rightarrow> bool" where
  "records_steps index state [] [] = True"
| "records_steps index state (st # sts) (x # xs) =
     (px_step_index x = index \<and> px_action x = pk_action st \<and> px_occurred_at x = pk_occurred_at st \<and>
      px_previous_state x = state \<and> (px_state_changed x \<longleftrightarrow> px_state x \<noteq> state) \<and>
      (px_is_authoritative x \<longleftrightarrow> px_state x = STREAMING) \<and>
      (px_authoritative_changed x \<longleftrightarrow> (px_state x = STREAMING) \<noteq> (state = STREAMING)) \<and>
      records_steps (index + 1) (px_state x) sts xs)"
| "records_steps index state _ _ = False"

lemma run_steps_sound:
  assumes "run_steps cl timeout tr index sts q t = Inr ((ts, q'), t')"
    and "sh_is_authoritative (pq_health q) \<longleftrightarrow> sh_state (pq_health q) = STREAMING"
  shows "records_steps index (sh_state (pq_health q)) sts ts \<and>
    sh_state (pq_health q') = (if ts = [] then sh_state (pq_health q) else px_state (last ts)) \<and>
    ses_reconnect_attempts (pq_session q') = ses_reconnect_attempts (pq_session q) + steps_of RECONNECT sts \<and>
    pq_refresh_attempts q' = pq_refresh_attempts q + steps_of REFRESH sts \<and>
    pq_refresh_failures q' = pq_refresh_failures q + failed_refreshes sts \<and>
    pq_termination_count q \<le> pq_termination_count q' \<and>
    pq_termination_count q' \<le> pq_termination_count q + terminated_transitions ts"
  using assms
proof (induction sts arbitrary: index q t ts)
  case Nil
  then show ?case by (simp add: steps_of_def failed_refreshes_def terminated_transitions_def)
next
  case (Cons st sts)
  obtain q1 t1 ts2 where run: "run_step cl timeout tr st q t = Inr (q1, t1)"
    "run_steps cl timeout tr (index + 1) sts q1 t1 = Inr ((ts2, q'), t')"
    "ts = transition_of index st (pq_health q) q1 # ts2"
    using Cons.prems(1) by (auto simp: r_bind_Inr split: prod.splits)
  obtain s h n where s: "soak_step cl timeout tr st (pq_session q) t = Inr ((s, h, n), t1)"
    "pq_session q1 = s" "pq_health q1 = h" "pq_termination_count q1 = pq_termination_count q + n"
    "pq_refresh_attempts q1 = pq_refresh_attempts q + (if pk_action st = REFRESH then 1 else 0)"
    "pq_refresh_failures q1 = pq_refresh_failures q
       + (if pk_action st = REFRESH \<and> pk_transport_error st \<noteq> None then 1 else 0)"
    using run(1) by (auto simp: run_step_def r_bind_Inr split: prod.splits)
  note step = soak_step_sound [OF s(1)]
  have "sh_is_authoritative (pq_health q1) \<longleftrightarrow> sh_state (pq_health q1) = STREAMING" using step(2) s(3) by simp
  note rest = Cons.IH [OF run(2) this]
  have x: "px_state (transition_of index st (pq_health q) q1) = sh_state h"
    by (simp add: transition_of_def Let_def s(3))
  have "records_steps index (sh_state (pq_health q)) (st # sts) ts"
    using rest step(2) Cons.prems(2) s(3) run(3) x by (auto simp: transition_of_def Let_def)
  moreover have "sh_state (pq_health q') = (if ts = [] then sh_state (pq_health q) else px_state (last ts))"
    using rest run(3) x s(3) by simp
  moreover have "terminated_transitions ts = terminated_transitions ts2 + (if sh_state h = TERMINATED then 1 else 0)"
    using run(3) x by (simp add: terminated_transitions_def)
  moreover have "steps_of a (st # sts) = steps_of a sts + (if pk_action st = a then 1 else 0)" for a
    by (simp add: steps_of_def)
  moreover have "failed_refreshes (st # sts) = failed_refreshes sts
      + (if pk_action st = REFRESH \<and> pk_transport_error st \<noteq> None then 1 else 0)"
    by (simp add: failed_refreshes_def)
  ultimately show ?case using rest step s by auto
qed

lemma run_steps_append:
  "run_steps cl timeout tr index (xs @ ys) q t = Inr ((ts, q'), t') \<Longrightarrow>
   \<exists>ts1 ts2 q1 t1. run_steps cl timeout tr index xs q t = Inr ((ts1, q1), t1) \<and>
     run_steps cl timeout tr (index + int (length xs)) ys q1 t1 = Inr ((ts2, q'), t') \<and> ts = ts1 @ ts2"
proof (induction xs arbitrary: index q t ts)
  case Nil
  then show ?case by simp
next
  case (Cons x xs)
  obtain q1 t1 ts0 where step: "run_step cl timeout tr x q t = Inr (q1, t1)"
    "run_steps cl timeout tr (index + 1) (xs @ ys) q1 t1 = Inr ((ts0, q'), t')"
    "ts = transition_of index x (pq_health q) q1 # ts0"
    using Cons.prems by (auto simp: r_bind_Inr)
  obtain ts1 ts2 q2 t2 where "run_steps cl timeout tr (index + 1) xs q1 t1 = Inr ((ts1, q2), t2)"
    "run_steps cl timeout tr (index + 1 + int (length xs)) ys q2 t2 = Inr ((ts2, q'), t')" "ts0 = ts1 @ ts2"
    using Cons.IH [OF step(2)] by blast
  then have "run_steps cl timeout tr index (x # xs) q t = Inr ((transition_of index x (pq_health q) q1 # ts1, q2), t2) \<and>
      run_steps cl timeout tr (index + int (length (x # xs))) ys q2 t2 = Inr ((ts2, q'), t') \<and>
      ts = (transition_of index x (pq_health q) q1 # ts1) @ ts2"
    using step by (simp add: r_bind_Inr ac_simps)
  then show ?case by blast
qed

lemma good_read_streams:
  assumes "soak_read cl tr st s t = Inr ((s', h, n), t')" and "pk_transport_error st = None" and "pk_payload st = Some p"
    and "ingest_payloads cl [p] None False = Inr b" and "pb_stream_state b = STREAMING" and "\<not> pb_has_gap b"
    and "\<not> expired_at s (pk_occurred_at st)" and "0 \<le> psc_heartbeat_timeout cl"
  shows "sh_state h = STREAMING \<and> sh_is_authoritative h"
proof -
  have h: "h = build_health_snapshot cl (mark_streaming s (pk_occurred_at st)) (Some b) (Some (pk_occurred_at st)) None"
    using assms(1-5) by (auto simp: soak_read_def Let_def)
  have "check_runtime_health cl (mark_streaming s (pk_occurred_at st)) (Some (pk_occurred_at st)) = None"
    using assms(7,8) by (simp add: check_runtime_health_def mark_streaming_def expired_at_def dt_diff_def split: option.splits)
  then show ?thesis unfolding h using assms(5,6) by (simp add: build_health_snapshot_def Let_def)
qed

lemma end_step:
  assumes "soak_step cl timeout tr st s t = Inr ((s', h, n), t')" and "pk_action st \<in> {TERMINATE, SHUTDOWN_STREAM}"
  shows "sh_state h \<in> {TERMINATED, SHUTDOWN} \<and> ses_state s' = sh_state h \<and> ses_expires_at s' = ses_expires_at s \<and>
    ses_connection_id s' = ses_connection_id s"
  using assms by (auto simp: soak_step_def soak_terminate_def soak_shutdown_def end_session_def terminated_stream_health_def
      Let_def r_bind_Inr shutdown_def)

lemma private_soak_run:
  assumes "private_soak cl timeout tr steps started_at t = Inr (run, t')"
  obtains s0 t0 q where "bootstrap_session cl (rt_ops tr) started_at t = Inr (s0, t0)"
    and "run_steps cl timeout tr 1 steps
         \<lparr>pq_session = s0, pq_health = build_health_snapshot cl s0 None (Some started_at) None,
          pq_refresh_attempts = 0, pq_refresh_failures = 0, pq_termination_count = 0\<rparr> t0
       = Inr ((pv_transitions run, q), t')"
    and "pv_final_session run = pq_session q"
    and "pv_summary run = \<lparr>pu_started_at = started_at,
               pu_ended_at = (if steps = [] then started_at else pk_occurred_at (last steps)),
               pu_total_steps = int (length steps), pu_final_state = sh_state (pq_health q),
               pu_reconnect_count = ses_reconnect_attempts (pq_session q),
               pu_refresh_attempts = pq_refresh_attempts q, pu_refresh_failures = pq_refresh_failures q,
               pu_authoritative_transition_count = int (length (filter px_is_authoritative (pv_transitions run))),
               pu_degraded_transition_count = int (length (filter (\<lambda>x. px_state x = DEGRADED) (pv_transitions run))),
               pu_termination_count = pq_termination_count q,
               pu_alerts = unique_alerts (map px_alerts (pv_transitions run))\<rparr>"
  using assms unfolding private_soak_def by (fastforce simp: r_bind_Inr)

lemma bootstrap_attempts:
  "bootstrap_session cl ops started_at t = Inr (s, t') \<Longrightarrow> ses_reconnect_attempts s = 0 \<and> ses_state s = SUBSCRIBED \<and>
     ses_last_message_at s = None"
  by (auto simp: bootstrap_session_def r_bind_Inr subscribe_def initialize_session_def)

lemma first_health:
  assumes "bootstrap_session cl ops started_at t = Inr (s, t')"
  shows "sh_state (build_health_snapshot cl s None (Some started_at) None) \<in> {SUBSCRIBED, TERMINATED}"
  using bootstrap_attempts [OF assms]
  by (auto simp: build_health_snapshot_def check_runtime_health_def unhealthy_def Let_def split: option.splits)

section \<open>Properties\<close>

text \<open>
  C34. A rehearsal that returns is accounted for: one transition per step, numbered from 1, with the action
  and the time of the step and the state the previous transition left; a transition is authoritative
  exactly in the state STREAMING. The summary has the exact numbers of reconnects, renewals and failed
  renewals of the script and of the streaming and degraded transitions, the last state, every alert once,
  and it counts at most the transitions that ended in TERMINATED as terminations.
\<close>

theorem private_soak_accounted:
  assumes "private_soak cl timeout tr steps started_at t = Inr (run, t')"
  shows "\<exists>first\<in>{SUBSCRIBED, TERMINATED}. records_steps 1 first steps (pv_transitions run) \<and>
      pu_final_state (pv_summary run)
        = (if pv_transitions run = [] then first else px_state (last (pv_transitions run))) \<and>
      pu_total_steps (pv_summary run) = int (length steps) \<and>
      pu_reconnect_count (pv_summary run) = steps_of RECONNECT steps \<and>
      pu_refresh_attempts (pv_summary run) = steps_of REFRESH steps \<and>
      pu_refresh_failures (pv_summary run) = failed_refreshes steps \<and>
      pu_authoritative_transition_count (pv_summary run)
        = int (length (filter px_is_authoritative (pv_transitions run))) \<and>
      0 \<le> pu_termination_count (pv_summary run) \<and>
      pu_termination_count (pv_summary run) \<le> terminated_transitions (pv_transitions run) \<and>
      distinct (pu_alerts (pv_summary run)) \<and>
      set (pu_alerts (pv_summary run)) = \<Union> (set ` px_alerts ` set (pv_transitions run))"
proof -
  obtain s0 t0 q where r: "bootstrap_session cl (rt_ops tr) started_at t = Inr (s0, t0)"
    "run_steps cl timeout tr 1 steps
         \<lparr>pq_session = s0, pq_health = build_health_snapshot cl s0 None (Some started_at) None,
          pq_refresh_attempts = 0, pq_refresh_failures = 0, pq_termination_count = 0\<rparr> t0
       = Inr ((pv_transitions run, q), t')"
    and sum: "pv_summary run = \<lparr>pu_started_at = started_at,
               pu_ended_at = (if steps = [] then started_at else pk_occurred_at (last steps)),
               pu_total_steps = int (length steps), pu_final_state = sh_state (pq_health q),
               pu_reconnect_count = ses_reconnect_attempts (pq_session q),
               pu_refresh_attempts = pq_refresh_attempts q, pu_refresh_failures = pq_refresh_failures q,
               pu_authoritative_transition_count = int (length (filter px_is_authoritative (pv_transitions run))),
               pu_degraded_transition_count = int (length (filter (\<lambda>x. px_state x = DEGRADED) (pv_transitions run))),
               pu_termination_count = pq_termination_count q,
               pu_alerts = unique_alerts (map px_alerts (pv_transitions run))\<rparr>"
    using private_soak_run [OF assms] .
  show ?thesis
    using run_steps_sound [OF r(2)] bootstrap_attempts [OF r(1)] first_health [OF r(1)] sum
    by (intro bexI [of _ "sh_state (build_health_snapshot cl s0 None (Some started_at) None)"])
      (simp_all add: health_authoritative unique_alerts_dedup)
qed

text \<open>
  An ended stream comes back by itself: when a step terminates or shuts down the stream, which leaves
  no connection, then the next read of an ordinary payload makes the health STREAMING and authoritative
  again before the expiry time, without a reconnect and with the connection id of the ended connection.
\<close>

theorem ended_stream_revives:
  assumes "private_soak cl timeout tr (steps @ [e, r]) started_at t = Inr (run, t')"
    and "pk_action e \<in> {TERMINATE, SHUTDOWN_STREAM}"
    and "pk_action r = READ_PAYLOAD" and "pk_transport_error r = None" and "pk_payload r = Some p"
    and "ingest_payloads cl [p] None False = Inr b" and "pb_stream_state b = STREAMING"
    and "0 \<le> psc_heartbeat_timeout cl" and "\<not> expired_at (pv_final_session run) (pk_occurred_at r)"
  shows "\<exists>ts x y. pv_transitions run = ts @ [x, y] \<and> px_state x \<in> {TERMINATED, SHUTDOWN} \<and>
      \<not> px_is_authoritative x \<and> px_state y = STREAMING \<and> px_is_authoritative y \<and>
      px_connection_id y = px_connection_id x \<and> px_reconnect_attempts y = ses_reconnect_attempts (pv_final_session run)"
proof -
  obtain s0 t0 q where run: "run_steps cl timeout tr 1 (steps @ [e, r])
         \<lparr>pq_session = s0, pq_health = build_health_snapshot cl s0 None (Some started_at) None,
          pq_refresh_attempts = 0, pq_refresh_failures = 0, pq_termination_count = 0\<rparr> t0
       = Inr ((pv_transitions run, q), t')" "pv_final_session run = pq_session q"
    using private_soak_run [OF assms(1)] by metis
  obtain ts1 ts2 q1 t1 i where tail: "run_steps cl timeout tr i [e, r] q1 t1 = Inr ((ts2, q), t')"
    "pv_transitions run = ts1 @ ts2" using run_steps_append [OF run(1)] by blast
  obtain q2 t2 where two: "run_step cl timeout tr e q1 t1 = Inr (q2, t2)" "run_step cl timeout tr r q2 t2 = Inr (q, t')"
    "ts2 = [transition_of i e (pq_health q1) q2, transition_of (i + 1) r (pq_health q2) q]"
    using tail(1) by (auto simp: r_bind_Inr)
  obtain n1 where e: "soak_step cl timeout tr e (pq_session q1) t1 = Inr ((pq_session q2, pq_health q2, n1), t2)"
    using two(1) by (auto simp: run_step_def r_bind_Inr)
  obtain n2 where r: "soak_step cl timeout tr r (pq_session q2) t2 = Inr ((pq_session q, pq_health q, n2), t')"
    using two(2) by (auto simp: run_step_def r_bind_Inr)
  have read: "soak_read cl tr r (pq_session q2) t2 = Inr ((pq_session q, pq_health q, n2), t')"
    using r assms(3) by (simp add: soak_step_def)
  have s: "pq_session q = mark_streaming (pq_session q2) (pk_occurred_at r)"
    "pq_health q = build_health_snapshot cl (pq_session q) (Some b) (Some (pk_occurred_at r)) None"
    using read assms(4-7) by (auto simp: soak_read_def Let_def)
  have "\<not> expired_at (pq_session q2) (pk_occurred_at r)"
    using assms(9) run(2) s(1) by (simp add: expired_at_def mark_streaming_def)
  moreover have "\<not> pb_has_gap b" using assms(6) by (auto simp: ingest_payloads_def r_bind_Inr)
  ultimately have "sh_state (pq_health q) = STREAMING \<and> sh_is_authoritative (pq_health q)"
    using good_read_streams [OF read assms(4-7)] assms(8) by blast
  moreover have "sh_state (pq_health q2) \<in> {TERMINATED, SHUTDOWN}" using end_step [OF e assms(2)] by blast
  moreover have "\<not> sh_is_authoritative (pq_health q2)"
    using soak_step_sound(2) [OF e] calculation(2) by auto
  ultimately show ?thesis
    using tail(2) two(3) s run(2) by (auto simp: transition_of_def Let_def mark_streaming_def)
qed

section \<open>A concrete rehearsal\<close>

definition rehearsal_transport :: "int readable_transport" where
  "rehearsal_transport =
     \<lparr>rt_ops = \<lparr>so_open = (\<lambda>scope t. Inr (''c'', t)),
        so_subscribe = (\<lambda>c scope t. Inr (\<lparr>sub_subscription_id = ''1'', sub_stream_key = ''k'',
          sub_bootstrap_method = ''m'', sub_expires_at = None\<rparr>, t)),
        so_close = (\<lambda>c t. Inr t)\<rparr>,
      rt_read = (\<lambda>c t. Inr ([], t))\<rparr>"

definition rehearsal_step :: "private_soak_action \<Rightarrow> int \<Rightarrow> private_soak_step" where
  "rehearsal_step a us =
     \<lparr>pk_action = a, pk_occurred_at = utc us,
      pk_payload = Some [(''e'', JStr ''balanceUpdate''), (''E'', JInt 5)],
      pk_reason = None, pk_transport_error = None\<rparr>"

lemma total_step:
  assumes "\<And>scope t. \<exists>c t'. so_open (rt_ops tr) scope t = Inr (c, t')"
    and "\<And>c scope t. \<exists>x t'. so_subscribe (rt_ops tr) c scope t = Inr (x, t')"
    and "\<And>c t. \<exists>t'. so_close (rt_ops tr) c t = Inr t'"
    and "pk_action st = READ_PAYLOAD \<longrightarrow> (\<exists>p b. pk_payload st = Some p \<and> ingest_payloads cl [p] None False = Inr b)"
  shows "\<exists>q' t'. run_step cl timeout tr st q t = Inr (q', t')"
proof -
  have opened: "\<exists>c x t'. open_subscription (rt_ops tr) scope t = Inr (c, x, t')" for scope t
    using assms(1,2) by (force simp: open_subscription_def r_bind_Inr)
  have closed: "\<exists>t'. close_session (rt_ops tr) s t = Inr t'" for s t
    using assms(3) by (auto simp: close_session_def split: option.splits)
  have "\<exists>o' t'. soak_step cl timeout tr st (pq_session q) t = Inr (o', t')"
  proof (cases "pk_action st")
    case READ_PAYLOAD
    then show ?thesis using assms(4) by (cases "pk_transport_error st") (auto simp: soak_step_def soak_read_def Let_def)
  next
    case REFRESH
    obtain t1 where t1: "close_session (rt_ops tr) (pq_session q) t = Inr t1" using closed by blast
    obtain c x t2 where "open_subscription (rt_ops tr) (ses_account_scope (pq_session q)) t1 = Inr (c, x, t2)" using opened by blast
    with t1 REFRESH show ?thesis
      by (cases "pk_transport_error st") (simp_all add: soak_step_def soak_refresh_def refresh_session_def Let_def)
  next
    case RECONNECT
    obtain t1 where t1: "close_session (rt_ops tr) (pq_session q) t = Inr t1" using closed by blast
    obtain c x t2 where "open_subscription (rt_ops tr) (ses_account_scope (pq_session q)) t1 = Inr (c, x, t2)" using opened by blast
    with t1 RECONNECT show ?thesis
      by (cases "pk_transport_error st") (simp_all add: soak_step_def soak_reconnect_def reconnect_session_def Let_def)
  next
    case SHUTDOWN_STREAM
    obtain t1 where "close_session (rt_ops tr) (pq_session q) t = Inr t1" using closed by blast
    with SHUTDOWN_STREAM show ?thesis by (simp add: soak_step_def soak_shutdown_def shutdown_def)
  qed (simp_all add: soak_step_def split_paired_Ex [symmetric] del: split_paired_Ex)
  then obtain s h n t' where "soak_step cl timeout tr st (pq_session q) t = Inr ((s, h, n), t')" by (metis surj_pair)
  then show ?thesis by (simp add: run_step_def)
qed

lemma total_steps:
  assumes "\<And>scope t. \<exists>c t'. so_open (rt_ops tr) scope t = Inr (c, t')"
    and "\<And>c scope t. \<exists>x t'. so_subscribe (rt_ops tr) c scope t = Inr (x, t')"
    and "\<And>c t. \<exists>t'. so_close (rt_ops tr) c t = Inr t'"
  shows "\<forall>st\<in>set sts. pk_action st = READ_PAYLOAD \<longrightarrow>
      (\<exists>p b. pk_payload st = Some p \<and> ingest_payloads cl [p] None False = Inr b) \<Longrightarrow>
    \<exists>ts q' t'. run_steps cl timeout tr index sts q t = Inr ((ts, q'), t')"
proof (induction sts arbitrary: index q t)
  case Nil
  then show ?case by simp
next
  case (Cons st sts)
  obtain q1 t1 where st: "run_step cl timeout tr st q t = Inr (q1, t1)"
    using total_step [OF assms, of st cl timeout q t] Cons.prems by auto
  obtain ts q2 t2 where "run_steps cl timeout tr (index + 1) sts q1 t1 = Inr ((ts, q2), t2)"
    using Cons.IH [of "index + 1" q1 t1] Cons.prems by auto
  with st show ?case by simp
qed

lemma expiry_kept:
  assumes "run_step cl timeout tr st q t = Inr (q', t')" and "pk_action st \<in> {TERMINATE, READ_PAYLOAD}"
    and "pk_transport_error st = None"
  shows "ses_expires_at (pq_session q') = ses_expires_at (pq_session q)"
proof -
  obtain n where st: "soak_step cl timeout tr st (pq_session q) t = Inr ((pq_session q', pq_health q', n), t')"
    using assms(1) by (auto simp: run_step_def r_bind_Inr)
  show ?thesis
  proof (cases "pk_action st = TERMINATE")
    case True
    then show ?thesis using end_step [OF st] by simp
  next
    case False
    then have "soak_read cl tr st (pq_session q) t = Inr ((pq_session q', pq_health q', n), t')"
      using st assms(2) by (simp add: soak_step_def)
    from soak_read_batch [OF this assms(3)] obtain batch :: private_batch where "pq_session q' = (if pb_stream_state batch = TERMINATED
        then end_session (pq_session q) TERMINATED (case pb_last_event_time batch of None \<Rightarrow> pk_occurred_at st
               | Some m \<Rightarrow> m) (pb_alerts batch)
        else mark_streaming (pq_session q) (pk_occurred_at st))" by blast
    then show ?thesis by (simp add: end_session_def mark_streaming_def)
  qed
qed

definition rehearsal_script :: "private_soak_step list" where
  "rehearsal_script =
     [rehearsal_step REFRESH 1, rehearsal_step RECONNECT 2, rehearsal_step TERMINATE 3, rehearsal_step READ_PAYLOAD 4]"

lemma rehearsal_batch:
  "\<exists>b. ingest_payloads cl [[(''e'', JStr ''balanceUpdate''), (''E'', JInt 5)]] None False = Inr b \<and> pb_stream_state b = STREAMING"
  by (simp add: ingest_payloads_def normalize_event_payload_def payload_type_def jget_or_def json_int_def
      from_timestamp_ms_def stream_end_types_def ingest_state stream_event_def)

lemma rehearsal_steps_run:
  assumes "\<forall>st\<in>set sts. \<exists>a i. st = rehearsal_step a i"
  shows "\<exists>ts q' t'. run_steps cl timeout rehearsal_transport index sts q t = Inr ((ts, q'), t')"
proof (rule total_steps)
  show "\<forall>st\<in>set sts. pk_action st = READ_PAYLOAD \<longrightarrow>
      (\<exists>p b. pk_payload st = Some p \<and> ingest_payloads cl [p] None False = Inr b)"
    using assms rehearsal_batch by (fastforce simp: rehearsal_step_def)
qed (simp_all add: rehearsal_transport_def)

lemma rehearsal_start:
  "\<exists>s. bootstrap_session default_stream_client (rt_ops rehearsal_transport) (utc 0) 0 = Inr (s, 0) \<and>
     ses_expires_at s = Some (dt_add (utc 0) (psc_ttl default_stream_client))"
  by (simp add: bootstrap_session_def open_subscription_def initialize_session_def subscribe_def rehearsal_transport_def)

lemma rehearsal_run:
  assumes "\<forall>st\<in>set sts. \<exists>a i. st = rehearsal_step a i"
  shows "\<exists>run t'. private_soak default_stream_client timeout rehearsal_transport sts (utc 0) 0 = Inr (run, t')"
proof -
  obtain s where s: "bootstrap_session default_stream_client (rt_ops rehearsal_transport) (utc 0) 0 = Inr (s, 0)"
    using rehearsal_start by blast
  let ?q = "\<lparr>pq_session = s, pq_health = build_health_snapshot default_stream_client s None (Some (utc 0)) None,
    pq_refresh_attempts = 0, pq_refresh_failures = 0, pq_termination_count = 0\<rparr>"
  obtain ts q' t' where "run_steps default_stream_client timeout rehearsal_transport 1 sts ?q 0 = Inr ((ts, q'), t')"
    using rehearsal_steps_run [OF assms] by blast
  then show ?thesis by (simp add: private_soak_def s)
qed

theorem private_soak_accounted_witness:
  "\<exists>run t'. private_soak default_stream_client (seconds 60) rehearsal_transport rehearsal_script (utc 0) 0 = Inr (run, t') \<and>
     pu_reconnect_count (pv_summary run) = 1 \<and> pu_refresh_attempts (pv_summary run) = 1"
proof -
  obtain run t' where r: "private_soak default_stream_client (seconds 60) rehearsal_transport rehearsal_script (utc 0) 0 = Inr (run, t')"
    using rehearsal_run [of rehearsal_script "seconds 60"] by (auto simp: rehearsal_script_def)
  then show ?thesis
    using private_soak_accounted [OF r] by (auto simp: steps_of_def rehearsal_script_def rehearsal_step_def)
qed

theorem ended_stream_revives_witness:
  "\<exists>run t' ts x y. private_soak default_stream_client (seconds 60) rehearsal_transport
       [rehearsal_step TERMINATE 3, rehearsal_step READ_PAYLOAD 4] (utc 0) 0 = Inr (run, t') \<and>
     pv_transitions run = ts @ [x, y] \<and> \<not> px_is_authoritative x \<and> px_is_authoritative y"
proof -
  let ?e = "rehearsal_step TERMINATE 3" and ?r = "rehearsal_step READ_PAYLOAD 4"
  obtain run t' where r: "private_soak default_stream_client (seconds 60) rehearsal_transport ([] @ [?e, ?r]) (utc 0) 0 = Inr (run, t')"
    using rehearsal_run [of "[?e, ?r]" "seconds 60"] by auto
  obtain b where b: "ingest_payloads default_stream_client [[(''e'', JStr ''balanceUpdate''), (''E'', JInt 5)]] None False = Inr b"
    "pb_stream_state b = STREAMING" using rehearsal_batch by blast
  obtain s0 t0 q where run: "bootstrap_session default_stream_client (rt_ops rehearsal_transport) (utc 0) 0 = Inr (s0, t0)"
    "run_steps default_stream_client (seconds 60) rehearsal_transport 1 ([] @ [?e, ?r])
         \<lparr>pq_session = s0, pq_health = build_health_snapshot default_stream_client s0 None (Some (utc 0)) None,
          pq_refresh_attempts = 0, pq_refresh_failures = 0, pq_termination_count = 0\<rparr> t0
       = Inr ((pv_transitions run, q), t')" "pv_final_session run = pq_session q"
    using private_soak_run [OF r] by metis
  then obtain q1 t1 where "run_step default_stream_client (seconds 60) rehearsal_transport ?e
         \<lparr>pq_session = s0, pq_health = build_health_snapshot default_stream_client s0 None (Some (utc 0)) None,
          pq_refresh_attempts = 0, pq_refresh_failures = 0, pq_termination_count = 0\<rparr> t0 = Inr (q1, t1)"
      "run_step default_stream_client (seconds 60) rehearsal_transport ?r q1 t1 = Inr (q, t')"
    by (auto simp: r_bind_Inr)
  from expiry_kept [OF this(1)] expiry_kept [OF this(2)]
  have "ses_expires_at (pv_final_session run) = ses_expires_at s0" using run(3) by (simp add: rehearsal_step_def)
  then have "ses_expires_at (pv_final_session run) = Some (dt_add (utc 0) (psc_ttl default_stream_client))"
    using rehearsal_start run(1) by auto
  then have "\<not> expired_at (pv_final_session run) (pk_occurred_at ?r)"
    by (simp add: expired_at_def rehearsal_step_def default_stream_client_def dt_add_def seconds_def)
  then show ?thesis
    using ended_stream_revives [OF r _ _ _ _ b] r
    by (fastforce simp: rehearsal_step_def default_stream_client_def seconds_def)
qed

end
