(* ===== verification/MarketData.thy ===== *)
theory MarketData
  imports Runners OrderClient
begin

text \<open>
  Market data at the edge: \<open>app/exchanges/binance/market_data_client.py\<close> (kline rows and kline stream
  messages as candles, closed bar slices, the health of the public stream), the report-only entry point
  over raw klines (\<open>app/runtime/report_only_runner.py\<close>) and the signed account snapshot
  (\<open>app/exchanges/binance/account_snapshot_bootstrap.py\<close>). A JSON value is a \<open>json\<close>; the epoch
  milliseconds of a time (a float computation) are a parameter.
\<close>

section \<open>Kline messages and bar slices\<close>

record market_client =
  mkc_config :: adapter_config
  mkc_mappings :: "symbol_mapping list"

record kline_message =
  kl_venue_symbol :: string
  kl_timeframe :: string
  kl_event_time :: datetime
  kl_candle :: candle
  kl_is_closed_bar :: bool

record market_context =
  mc_execution :: bar_slice
  mc_context :: bar_slice

definition to_venue_symbol :: "market_client \<Rightarrow> string \<Rightarrow> string" where
  "to_venue_symbol m instrument_id =
     (case List.find (\<lambda>x. sm_instrument_id x = instrument_id) (mkc_mappings m) of
        Some x \<Rightarrow> sm_venue_symbol x
      | None \<Rightarrow> filter (\<lambda>c. c \<noteq> CHR ''-'') instrument_id)"

definition json_time :: "json \<Rightarrow> datetime result" where
  "json_time v = r_bind (json_int v) from_timestamp_ms"

definition json_decimal :: "json \<Rightarrow> decimal result" where
  "json_decimal v = parse_decimal (py_str v)"

text \<open>The fields of a candle, in the order the constructor call evaluates them.\<close>

definition item_time :: "payload \<Rightarrow> string \<Rightarrow> datetime result" where
  "item_time k f = r_bind (jitem k f) json_time"

definition item_decimal :: "payload \<Rightarrow> string \<Rightarrow> decimal result" where
  "item_decimal k f = r_bind (jitem k f) json_decimal"

definition kline_candle :: "string \<Rightarrow> payload \<Rightarrow> candle result" where
  "kline_candle instrument_id k =
     r_bind (jitem k ''i'') (\<lambda>tf.
     r_bind (item_time k ''t'') (\<lambda>open_time.
     r_bind (item_time k ''T'') (\<lambda>close_time.
     r_bind (item_decimal k ''o'') (\<lambda>open_price.
     r_bind (item_decimal k ''h'') (\<lambda>high.
     r_bind (item_decimal k ''l'') (\<lambda>low.
     r_bind (item_decimal k ''c'') (\<lambda>close_price.
     r_bind (item_decimal k ''v'') (\<lambda>volume.
     r_bind (json_decimal (jget_or k ''q'' (JStr ''0''))) (\<lambda>quote_volume.
     r_bind (json_int (jget_or k ''n'' (JInt 0))) (\<lambda>trades.
     r_bind (jitem k ''x'') (\<lambda>closed.
       mk_candle \<lparr>cd_instrument_id = instrument_id, cd_timeframe = py_str tf, cd_open_time = open_time,
         cd_close_time = close_time, cd_open = open_price, cd_high = high, cd_low = low, cd_close = close_price,
         cd_volume = volume, cd_quote_volume = Some quote_volume, cd_trade_count = trades,
         cd_is_closed = json_truthy closed\<rparr>)))))))))))"

definition message_data :: "payload \<Rightarrow> payload result" where
  "message_data p =
     (case jget_or p ''data'' (JObj p) of
        JObj d \<Rightarrow> if jget d ''e'' = JStr ''kline'' then Inr d
          else Inl (ValueError ''payload does not contain a Binance kline event'')
      | _ \<Rightarrow> Inl (ValueError ''payload does not contain a Binance kline event''))"

definition normalize_kline_stream_message ::
    "market_client \<Rightarrow> payload \<Rightarrow> string \<Rightarrow> kline_message result" where
  "normalize_kline_stream_message m p instrument_id =
     r_bind (message_data p) (\<lambda>d.
     case jget d ''k'' of
       JObj k \<Rightarrow>
         r_bind (kline_candle instrument_id k) (\<lambda>c.
         r_bind (jitem k ''i'') (\<lambda>tf.
         r_bind (item_time d ''E'') (\<lambda>event_time.
         r_bind (jitem k ''x'') (\<lambda>closed.
           Inr \<lparr>kl_venue_symbol = py_str (jget_or d ''s'' (JStr (to_venue_symbol m instrument_id))),
                kl_timeframe = py_str tf, kl_event_time = event_time, kl_candle = c,
                kl_is_closed_bar = json_truthy closed\<rparr>))))
     | _ \<Rightarrow> Inl (ValueError ''payload missing kline body''))"

definition detect_closed_bar_event :: "market_client \<Rightarrow> payload \<Rightarrow> string \<Rightarrow> candle option result" where
  "detect_closed_bar_event m p instrument_id =
     r_bind (normalize_kline_stream_message m p instrument_id) (\<lambda>msg.
       Inr (if kl_is_closed_bar msg then Some (kl_candle msg) else None))"

text \<open>\<open>xs[-limit:]\<close>, and what both slice builders do with the closed candles.\<close>

definition tail_slice :: "int \<Rightarrow> 'a list \<Rightarrow> 'a list" where
  "tail_slice limit xs = (if 0 < limit then drop (length xs - nat limit) xs else drop (nat (- limit)) xs)"

definition closed_bar_slice :: "string \<Rightarrow> string \<Rightarrow> candle list \<Rightarrow> int \<Rightarrow> bar_slice result" where
  "closed_bar_slice instrument_id timeframe candles limit =
     (let closed = filter cd_is_closed candles; selected = tail_slice limit closed in
      if int (length closed) < limit
      then Inl (ValueError (''insufficient closed candles for timeframe '' @ timeframe))
      else if selected = [] then Inl IndexError
      else mk_bar_slice \<lparr>bs_instrument_id = instrument_id, bs_timeframe = timeframe,
             bs_end_time = cd_close_time (last selected), bs_candles = selected\<rparr>)"

definition build_bar_slice_from_closed_candles ::
    "string \<Rightarrow> string \<Rightarrow> candle list \<Rightarrow> int \<Rightarrow> bar_slice result" where
  "build_bar_slice_from_closed_candles = closed_bar_slice"

definition parse_kline :: "string \<Rightarrow> string \<Rightarrow> int \<Rightarrow> json list \<Rightarrow> candle result" where
  "parse_kline instrument_id timeframe reference_ms row =
     (if length row < 9 then Inl (ValueError ''binance kline row must contain at least 9 fields'')
      else
        r_bind (json_int (row ! 0)) (\<lambda>open_ms.
        r_bind (json_int (row ! 6)) (\<lambda>close_ms.
        r_bind (from_timestamp_ms open_ms) (\<lambda>open_time.
        r_bind (from_timestamp_ms close_ms) (\<lambda>close_time.
        r_bind (json_decimal (row ! 1)) (\<lambda>open_price.
        r_bind (json_decimal (row ! 2)) (\<lambda>high.
        r_bind (json_decimal (row ! 3)) (\<lambda>low.
        r_bind (json_decimal (row ! 4)) (\<lambda>close_price.
        r_bind (json_decimal (row ! 5)) (\<lambda>volume.
        r_bind (json_decimal (row ! 7)) (\<lambda>quote_volume.
        r_bind (json_int (row ! 8)) (\<lambda>trades.
          mk_candle \<lparr>cd_instrument_id = instrument_id, cd_timeframe = timeframe, cd_open_time = open_time,
            cd_close_time = close_time, cd_open = open_price, cd_high = high, cd_low = low, cd_close = close_price,
            cd_volume = volume, cd_quote_volume = Some quote_volume, cd_trade_count = trades,
            cd_is_closed = (close_ms < reference_ms)\<rparr>))))))))))))"

definition parse_klines :: "string \<Rightarrow> string \<Rightarrow> int \<Rightarrow> json list list \<Rightarrow> candle list result" where
  "parse_klines instrument_id timeframe reference_ms rows = r_map (parse_kline instrument_id timeframe reference_ms) rows"

definition build_closed_bar_slice ::
    "(datetime \<Rightarrow> int) \<Rightarrow> string \<Rightarrow> string \<Rightarrow> json list list \<Rightarrow> datetime \<Rightarrow> int \<Rightarrow> bar_slice result" where
  "build_closed_bar_slice epoch_ms instrument_id timeframe rows reference_time limit =
     r_bind (parse_klines instrument_id timeframe (epoch_ms reference_time) rows) (\<lambda>candles.
       closed_bar_slice instrument_id timeframe candles limit)"

text \<open>The reference time is the given one, or what the clock says (\<open>now\<close>).\<close>

definition build_report_only_market_context ::
    "(datetime \<Rightarrow> int) \<Rightarrow> string \<Rightarrow> string \<Rightarrow> string \<Rightarrow> json list list \<Rightarrow> json list list \<Rightarrow> datetime option \<Rightarrow> datetime
      \<Rightarrow> int \<Rightarrow> int \<Rightarrow> market_context result" where
  "build_report_only_market_context epoch_ms instrument_id execution_tf context_tf execution_rows context_rows
       reference_time now execution_limit context_limit =
     (let reference = (case reference_time of None \<Rightarrow> now | Some t \<Rightarrow> t) in
      r_bind (build_closed_bar_slice epoch_ms instrument_id execution_tf execution_rows reference execution_limit) (\<lambda>e.
      r_bind (build_closed_bar_slice epoch_ms instrument_id context_tf context_rows reference context_limit) (\<lambda>c.
        Inr \<lparr>mc_execution = e, mc_context = c\<rparr>)))"

definition classify_market_error ::
    "(string \<Rightarrow> rat option) \<Rightarrow> string \<Rightarrow> client_error" where
  "classify_market_error parse_float message =
     (let status = (if str_contains ''429'' message then Some 429
            else if str_contains ''401'' message then Some 401
            else if str_contains ''403'' message then Some 403 else None)
      in classify_http_error parse_float status None (Some message) [])"

section \<open>The report-only cycle over klines\<close>

definition run_real_data_cycle ::
    "timedelta \<Rightarrow> 'w runtime_context \<Rightarrow> (datetime \<Rightarrow> int) \<Rightarrow> string \<Rightarrow> instrument \<Rightarrow> portfolio_state \<Rightarrow> json list list
      \<Rightarrow> json list list \<Rightarrow> datetime option \<Rightarrow> datetime \<Rightarrow> string \<Rightarrow> string \<Rightarrow> 'w
      \<Rightarrow> ((cycle_result \<times> state_machine) \<times> 'w) result" where
  "run_real_data_cycle lag cx epoch_ms cid instrument p execution_rows context_rows reference_time now
       execution_tf context_tf w =
     r_bind (build_report_only_market_context epoch_ms (in_instrument_id instrument) execution_tf context_tf
         execution_rows context_rows reference_time now 2 2) (\<lambda>mc.
       report_only_run lag cx cid instrument (mc_execution mc) (Some (mc_context mc)) p w)"

section \<open>The public stream\<close>

record market_health =
  mh_state :: public_stream_state
  mh_reconnect_attempts :: int
  mh_failover_active :: bool
  mh_last_heartbeat_at :: "datetime option"
  mh_last_message_at :: "datetime option"
  mh_alerts :: "string list"

record market_event =
  me_event_type :: string
  me_venue_symbol :: "string option"
  me_timeframe :: "string option"
  me_kline :: "kline_message option"
  me_health :: "market_health option"
  me_alerts :: "string list"

record public_client =
  pbc_market :: market_client
  pbc_heartbeat_timeout :: timedelta
  pbc_session_rollover :: timedelta
  pbc_failover_attempts :: int

definition default_public_client :: "market_client \<Rightarrow> public_client" where
  "default_public_client m =
     \<lparr>pbc_market = m, pbc_heartbeat_timeout = seconds 60, pbc_session_rollover = seconds (23 * 3600),
      pbc_failover_attempts = 3\<rparr>"

definition build_kline_subscribe_message :: "public_client \<Rightarrow> string \<Rightarrow> string \<Rightarrow> payload" where
  "build_kline_subscribe_message cl instrument_id timeframe =
     [(''method'', JStr ''SUBSCRIBE''),
      (''params'', JList [JStr (str_lower (to_venue_symbol (pbc_market cl) instrument_id) @ ''@kline_'' @ timeframe)]),
      (''id'', JInt 1)]"

definition is_kline_payload :: "payload \<Rightarrow> bool" where
  "is_kline_payload p \<longleftrightarrow> jget p ''e'' = JStr ''kline'' \<or>
     (case jget p ''data'' of JObj d \<Rightarrow> jget d ''e'' = JStr ''kline'' | _ \<Rightarrow> False)"

definition normalize_public_message :: "public_client \<Rightarrow> payload \<Rightarrow> string \<Rightarrow> market_event result" where
  "normalize_public_message cl p instrument_id =
     (if is_kline_payload p then
        r_bind (normalize_kline_stream_message (pbc_market cl) p instrument_id) (\<lambda>msg.
          Inr \<lparr>me_event_type = ''kline'', me_venue_symbol = Some (kl_venue_symbol msg),
               me_timeframe = Some (kl_timeframe msg), me_kline = Some msg, me_health = None, me_alerts = []\<rparr>)
      else if jget p ''op'' = JStr ''pong'' \<or> jget p ''result'' = JStr ''pong'' then
        Inr \<lparr>me_event_type = ''pong'', me_venue_symbol = None, me_timeframe = None, me_kline = None,
             me_health = Some \<lparr>mh_state = PUB_STREAMING, mh_reconnect_attempts = 0, mh_failover_active = False,
               mh_last_heartbeat_at = None, mh_last_message_at = None, mh_alerts = []\<rparr>, me_alerts = []\<rparr>
      else Inl (ValueError ''unsupported public websocket payload''))"

definition on_disconnect :: "public_client \<Rightarrow> string \<Rightarrow> int \<Rightarrow> datetime \<Rightarrow> market_health" where
  "on_disconnect cl reason attempts now =
     (let state = (if pbc_failover_attempts cl \<le> attempts then PUB_FAILOVER_REST else PUB_DEGRADED)
      in \<lparr>mh_state = state, mh_reconnect_attempts = attempts, mh_failover_active = (state = PUB_FAILOVER_REST),
          mh_last_heartbeat_at = None, mh_last_message_at = Some now,
          mh_alerts = [if state = PUB_FAILOVER_REST
            then ''public websocket unavailable; failover to REST polling required''
            else ''public websocket disconnected: '' @ reason]\<rparr>)"

definition on_public_reconnect :: "int \<Rightarrow> datetime \<Rightarrow> market_health" where
  "on_public_reconnect attempts now =
     \<lparr>mh_state = PUB_STREAMING, mh_reconnect_attempts = attempts, mh_failover_active = False,
      mh_last_heartbeat_at = None, mh_last_message_at = Some now, mh_alerts = [''public websocket reconnected'']\<rparr>"

definition on_heartbeat :: "public_client \<Rightarrow> datetime \<Rightarrow> datetime option \<Rightarrow> market_health" where
  "on_heartbeat cl now last_heartbeat =
     (if (case last_heartbeat of None \<Rightarrow> False | Some t \<Rightarrow> pbc_heartbeat_timeout cl < dt_diff now t) then
        \<lparr>mh_state = PUB_DEGRADED, mh_reconnect_attempts = 0, mh_failover_active = False,
         mh_last_heartbeat_at = Some now, mh_last_message_at = None,
         mh_alerts = [''public websocket heartbeat overdue'']\<rparr>
      else
        \<lparr>mh_state = PUB_STREAMING, mh_reconnect_attempts = 0, mh_failover_active = False,
         mh_last_heartbeat_at = Some now, mh_last_message_at = None, mh_alerts = []\<rparr>)"

definition check_public_rollover :: "public_client \<Rightarrow> datetime \<Rightarrow> datetime \<Rightarrow> market_health option" where
  "check_public_rollover cl started_at now =
     (if dt_diff now started_at < pbc_session_rollover cl then None
      else Some \<lparr>mh_state = PUB_SESSION_ROLLOVER, mh_reconnect_attempts = 0, mh_failover_active = False,
             mh_last_heartbeat_at = None, mh_last_message_at = Some now,
             mh_alerts = [''public websocket session rollover required'']\<rparr>)"

section \<open>The account snapshot\<close>

definition account_url :: "rest_env \<Rightarrow> adapter_config \<Rightarrow> string" where
  "account_url env config =
     (let qs = renv_urlencode env [(''timestamp'', int_str (renv_time_ms env)),
            (''recvWindow'', int_str (cfg_recv_window_ms config))];
          base = rev (dropWhile (\<lambda>c. c = CHR ''/'') (rev (cfg_rest_base_url config)))
      in base @ ''/api/v3/account?'' @ qs @ ''&signature='' @ renv_sign env (cfg_api_secret config) qs)"

definition held_balance :: "payload \<Rightarrow> bool result" where
  "held_balance b =
     r_bind (json_decimal (jget_or b ''free'' (JStr ''0''))) (\<lambda>free.
       if 0 < free then Inr True
       else r_bind (json_decimal (jget_or b ''locked'' (JStr ''0''))) (\<lambda>locked. Inr (0 < locked)))"

definition snapshot_balance :: "datetime \<Rightarrow> json \<Rightarrow> asset_balance list result" where
  "snapshot_balance updated_at j =
     (case j of
        JObj b \<Rightarrow>
          r_bind (held_balance b) (\<lambda>held.
            if \<not> held then Inr []
            else r_bind (jitem b ''asset'') (\<lambda>asset.
                 r_bind (item_decimal b ''free'') (\<lambda>free.
                 r_bind (item_decimal b ''locked'') (\<lambda>locked.
                 r_bind (mk_asset_balance \<lparr>ab_asset = py_str asset, ab_free = Some free, ab_locked = Some locked,
                     ab_delta = None, ab_updated_at = Some updated_at\<rparr>) (\<lambda>x. Inr [x])))))
      | _ \<Rightarrow> Inr [])"

definition fetch_snapshot :: "rest_env \<Rightarrow> adapter_config \<Rightarrow> account_snapshot result" where
  "fetch_snapshot env config =
     (case renv_http env (account_url env config) of
        HttpFailed message \<Rightarrow> Inl (ConnectionError message)
      | HttpOk (JObj p) _ _ \<Rightarrow>
          (case jget p ''balances'' of
             JList balances \<Rightarrow>
               r_bind (parse_event_time (jget p ''updateTime'')) (\<lambda>event_time.
               r_bind (case event_time of Some t \<Rightarrow> Inr t | None \<Rightarrow> from_timestamp_ms (renv_time_ms env)) (\<lambda>updated_at.
               r_bind (r_map (snapshot_balance updated_at) balances) (\<lambda>kept.
                 if concat kept = [] then Inl (ValueError ''account snapshot bootstrap produced no non-zero balances'')
                 else mk_account_snapshot
                   \<lparr>acc_venue = ''binance'', acc_account_scope = ''spot'', acc_as_of = updated_at,
                    acc_balances = concat kept, acc_source_event_type = ''restAccountSnapshot'',
                    acc_translation_version = ''binance.account.bootstrap.v1'', acc_is_partial = False,
                    acc_alerts = []\<rparr>)))
           | _ \<Rightarrow> Inl (ValueError ''account snapshot bootstrap payload missing balances''))
      | HttpOk _ _ _ \<Rightarrow> Inl (ValueError ''account snapshot bootstrap returned non-object payload''))"

text \<open>Building the bootstrap validates the endpoint profile.\<close>

definition bootstrap_snapshot ::
    "(string \<Rightarrow> string option) \<Rightarrow> rest_env \<Rightarrow> adapter_config \<Rightarrow> account_snapshot result" where
  "bootstrap_snapshot hostname env config =
     r_bind (validate_endpoint_profile hostname config) (\<lambda>_. fetch_snapshot env config)"

section \<open>Facts\<close>

lemma r_map_filter:
  assumes "r_map f xs = Inr ys" and "\<And>x y. f x = Inr y \<Longrightarrow> Q y \<longleftrightarrow> P x"
  shows "r_map f (filter P xs) = Inr (filter Q ys)"
  using assms(1)
proof (induction xs arbitrary: ys)
  case Nil
  then show ?case by simp
next
  case (Cons x xs)
  then obtain y ys' where "f x = Inr y" "r_map f xs = Inr ys'" "ys = y # ys'" by (auto simp: r_bind_Inr)
  with Cons.IH assms(2) show ?case by (simp add: r_bind_Inr)
qed

lemma from_timestamp_Inr: "from_timestamp_ms ms = Inr t \<Longrightarrow> t = utc (ms * 1000)"
  by (auto simp: from_timestamp_ms_def split: if_splits)

text \<open>A row whose close time lies before the reference time.\<close>

definition closes_before :: "int \<Rightarrow> json list \<Rightarrow> bool" where
  "closes_before reference_ms row \<longleftrightarrow> (case json_int (row ! 6) of Inr ms \<Rightarrow> ms < reference_ms | Inl e \<Rightarrow> False)"

lemma parse_kline_Inr:
  assumes "parse_kline iid tf reference_ms row = Inr c"
  obtains ms where "json_int (row ! 6) = Inr ms" and "cd_close_time c = utc (ms * 1000)"
    and "cd_is_closed c \<longleftrightarrow> ms < reference_ms" and "cd_instrument_id c = iid" and "cd_timeframe c = tf"
    and "candle_invariant c"
proof -
  obtain ms where "json_int (row ! 6) = Inr ms" "cd_close_time c = utc (ms * 1000)"
    "cd_is_closed c \<longleftrightarrow> ms < reference_ms" "cd_instrument_id c = iid" "cd_timeframe c = tf"
    "mk_candle c = Inr c"
    using assms by (auto simp: parse_kline_def r_bind_Inr mk_candle_def dest!: from_timestamp_Inr split: if_splits)
  then show thesis using that candle_checks_invariant by (auto simp: mk_candle_def)
qed

lemma parsed_closed:
  "parse_klines iid tf reference_ms rows = Inr cs \<Longrightarrow>
    parse_klines iid tf reference_ms (filter (closes_before reference_ms) rows) = Inr (filter cd_is_closed cs)"
  unfolding parse_klines_def
  by (erule r_map_filter) (auto simp: closes_before_def elim!: parse_kline_Inr)

lemma suffix_tail: "suffix (tail_slice limit xs) xs"
  by (simp add: tail_slice_def suffix_drop)

lemma length_tail: "0 < limit \<Longrightarrow> limit \<le> int (length xs) \<Longrightarrow> length (tail_slice limit xs) = nat limit"
  by (simp add: tail_slice_def)

lemma closed_bar_slice_Inr:
  assumes "closed_bar_slice iid tf cs limit = Inr b" and "0 < limit"
  shows "mk_bar_slice b = Inr b" and "suffix (bs_candles b) (filter cd_is_closed cs)"
    and "length (bs_candles b) = nat limit" and "bs_instrument_id b = iid" and "bs_timeframe b = tf"
  using assms suffix_tail [of limit "filter cd_is_closed cs"] length_tail [of limit "filter cd_is_closed cs"]
  by (auto simp: closed_bar_slice_def Let_def mk_bar_slice_def split: if_splits)

lemma closed_bars_valid:
  assumes "mk_bar_slice b = Inr b" and "\<forall>c\<in>set (bs_candles b). cd_is_closed c" and "\<not> windows_overlap (bs_candles b)"
  shows "bv_is_valid (validate_bars b)"
proof -
  have b: "bar_slice_invariant b" using assms(1) bar_slice_checks_iff by (auto simp: mk_bar_slice_def)
  then have "cd_is_closed (last (bs_candles b))" using assms(2) by (simp add: bar_slice_invariant_def)
  with b assms(3) show ?thesis by (simp add: validate_bars_def bar_slice_invariant_def Let_def)
qed

lemma built_slice:
  assumes "build_closed_bar_slice epoch_ms iid tf rows reference limit = Inr b" and "0 < limit"
  shows "mk_bar_slice b = Inr b" and "length (bs_candles b) = nat limit" and "bs_instrument_id b = iid"
    and "bs_timeframe b = tf"
    and "\<exists>cs. parse_klines iid tf (epoch_ms reference) rows = Inr cs \<and> suffix (bs_candles b) (filter cd_is_closed cs)"
    and "\<forall>c\<in>set (bs_candles b). cd_is_closed c \<and> (\<exists>ms<epoch_ms reference. cd_close_time c = utc (ms * 1000))"
proof -
  obtain cs where cs: "parse_klines iid tf (epoch_ms reference) rows = Inr cs"
    "closed_bar_slice iid tf cs limit = Inr b" using assms(1) by (auto simp: build_closed_bar_slice_def r_bind_Inr)
  note s = closed_bar_slice_Inr [OF cs(2) assms(2)]
  show "mk_bar_slice b = Inr b" "length (bs_candles b) = nat limit" "bs_instrument_id b = iid" "bs_timeframe b = tf"
    using s by blast+
  show "\<exists>cs. parse_klines iid tf (epoch_ms reference) rows = Inr cs \<and> suffix (bs_candles b) (filter cd_is_closed cs)"
    using cs(1) s(2) by blast
  show "\<forall>c\<in>set (bs_candles b). cd_is_closed c \<and> (\<exists>ms<epoch_ms reference. cd_close_time c = utc (ms * 1000))"
  proof
    fix c assume "c \<in> set (bs_candles b)"
    then have c: "c \<in> set cs" "cd_is_closed c" using set_mono_suffix [OF s(2)] by auto
    then obtain row where "parse_kline iid tf (epoch_ms reference) row = Inr c"
      using r_map_Inr_set cs(1) by (fastforce simp: parse_klines_def)
    then show "cd_is_closed c \<and> (\<exists>ms<epoch_ms reference. cd_close_time c = utc (ms * 1000))"
      using c(2) by (auto elim!: parse_kline_Inr)
  qed
qed

section \<open>Properties\<close>

text \<open>
  A market context that is built has no bar from the future: each of its two slices is an accepted bar
  slice of the instrument with exactly the asked number of candles, namely the last ones of the parsed
  rows that are closed, and every candle is closed and closed strictly before the reference time.
\<close>

theorem market_context_closed:
  assumes "build_report_only_market_context epoch_ms iid execution_tf context_tf execution_rows context_rows
      reference_time now n m = Inr mc"
    and "0 < n" and "0 < m" and "reference_ms = epoch_ms (case reference_time of None \<Rightarrow> now | Some t \<Rightarrow> t)"
    and "(b, tf, rows, k) \<in> {(mc_execution mc, execution_tf, execution_rows, n), (mc_context mc, context_tf, context_rows, m)}"
  shows "mk_bar_slice b = Inr b \<and> bs_instrument_id b = iid \<and> bs_timeframe b = tf \<and> length (bs_candles b) = nat k \<and>
    (\<exists>cs. parse_klines iid tf reference_ms rows = Inr cs \<and> suffix (bs_candles b) (filter cd_is_closed cs)) \<and>
    (\<forall>c\<in>set (bs_candles b). cd_is_closed c \<and> (\<exists>ms<reference_ms. cd_close_time c = utc (ms * 1000)))"
proof -
  let ?t = "case reference_time of None \<Rightarrow> now | Some t \<Rightarrow> t"
  have "build_closed_bar_slice epoch_ms iid execution_tf execution_rows ?t n = Inr (mc_execution mc)"
    "build_closed_bar_slice epoch_ms iid context_tf context_rows ?t m = Inr (mc_context mc)"
    using assms(1) by (auto simp: build_report_only_market_context_def Let_def r_bind_Inr)
  then have b: "build_closed_bar_slice epoch_ms iid tf rows ?t k = Inr b" "0 < k" using assms(2,3,5) by auto
  show ?thesis using built_slice [OF b] unfolding assms(4) by simp
qed

text \<open>
  No look-ahead: of the rows that parse, only those closed before the reference time count. Two
  histories with the same closed rows give the same slice (or the same error), whatever their open rows say.
\<close>

theorem open_bars_ignored:
  assumes "\<And>r. r \<in> set rows \<union> set rows' \<Longrightarrow> \<exists>c. parse_kline iid tf (epoch_ms reference) r = Inr c"
    and "filter (closes_before (epoch_ms reference)) rows = filter (closes_before (epoch_ms reference)) rows'"
  shows "build_closed_bar_slice epoch_ms iid tf rows reference limit
    = build_closed_bar_slice epoch_ms iid tf rows' reference limit"
proof -
  have "\<exists>cs. parse_klines iid tf (epoch_ms reference) xs = Inr cs" if "set xs \<subseteq> set rows \<union> set rows'" for xs
    using that assms(1) by (induction xs) (fastforce simp: parse_klines_def r_bind_Inr)+
  then obtain cs cs' where cs: "parse_klines iid tf (epoch_ms reference) rows = Inr cs"
    "parse_klines iid tf (epoch_ms reference) rows' = Inr cs'" by blast
  have "filter cd_is_closed cs = filter cd_is_closed cs'"
    using parsed_closed [OF cs(1)] parsed_closed [OF cs(2)] assms(2) by simp
  then show ?thesis by (simp add: build_closed_bar_slice_def cs closed_bar_slice_def)
qed

text \<open>
  The stream and the REST history describe bars alike: a kline message and a kline row with the same
  values give the same candle, when the flag of the message says what the reference time says of the row.
\<close>

theorem stream_and_history_agree:
  assumes "normalize_kline_stream_message m p iid = Inr msg" and "message_data p = Inr d" and "jget d ''k'' = JObj k"
    and "row = map (jget k) [''t'', ''o'', ''h'', ''l'', ''c'', ''v'', ''T'', ''q'', ''n'']"
    and "dict_get k ''q'' \<noteq> None" and "dict_get k ''n'' \<noteq> None"
    and "kl_is_closed_bar msg \<longleftrightarrow> closes_before reference_ms row"
  shows "parse_kline iid (kl_timeframe msg) reference_ms row = Inr (kl_candle msg) \<and>
    kl_is_closed_bar msg = cd_is_closed (kl_candle msg)"
proof -
  have get: "jitem k f = Inr v \<Longrightarrow> jget k f = v" for f v by (auto simp: jitem_def jget_def split: option.splits)
  have q: "jget_or k ''q'' (JStr ''0'') = jget k ''q''" "jget_or k ''n'' (JInt 0) = jget k ''n''"
    using assms(5,6) by (auto simp: jget_or_def jget_def)
  obtain c x tf where c: "kline_candle iid k = Inr c" "jitem k ''i'' = Inr tf" "jitem k ''x'' = Inr x"
    and msg: "kl_candle msg = c" "kl_timeframe msg = py_str tf" "kl_is_closed_bar msg = json_truthy x"
    using assms(1-3) by (auto simp: normalize_kline_stream_message_def r_bind_Inr)
  obtain t u u' t' prices vol quote' trades where f:
    "json_int (jget k ''t'') = Inr t" "json_int (jget k ''T'') = Inr u" "from_timestamp_ms t = Inr t'" "from_timestamp_ms u = Inr u'"
    "json_decimal (jget k ''o'') = Inr (fst prices)" "json_decimal (jget k ''h'') = Inr (fst (snd prices))"
    "json_decimal (jget k ''l'') = Inr (fst (snd (snd prices)))" "json_decimal (jget k ''c'') = Inr (snd (snd (snd prices)))"
    "json_decimal (jget k ''v'') = Inr vol" "json_decimal (jget k ''q'') = Inr quote'" "json_int (jget k ''n'') = Inr trades"
    and mk: "mk_candle \<lparr>cd_instrument_id = iid, cd_timeframe = py_str tf, cd_open_time = t', cd_close_time = u',
      cd_open = fst prices, cd_high = fst (snd prices), cd_low = fst (snd (snd prices)), cd_close = snd (snd (snd prices)),
      cd_volume = vol, cd_quote_volume = Some quote', cd_trade_count = trades, cd_is_closed = json_truthy x\<rparr> = Inr c"
    using c unfolding kline_candle_def q
    by (simp add: r_bind_Inr item_time_def item_decimal_def json_time_def) (elim exE conjE, drule get, metis get fst_conv snd_conv)
  have closed: "json_truthy x \<longleftrightarrow> u < reference_ms" using assms(4,7) f(2) msg(3) by (simp add: closes_before_def)
  have "parse_kline iid (kl_timeframe msg) reference_ms row = Inr c"
    using mk by (simp add: parse_kline_def assms(4) f msg(2) closed)
  moreover have "cd_is_closed c = json_truthy x" using mk by (auto simp: mk_candle_def)
  ultimately show ?thesis using msg by simp
qed

text \<open>
  A report-only cycle over raw klines completes: with the real builder, strategies, risk rules and intent
  builder, rows from which a market context can be built and whose bars do not overlap give a successful
  cycle that passes every stage in order, and every intent buys the configured quantity. A cycle over klines
  is never stopped as an incomplete bar. (The clock must be UTC and not go back, the store must accept it.)
\<close>

theorem real_data_cycle_completes:
  assumes "build_report_only_market_context epoch_ms (in_instrument_id instrument) execution_tf context_tf execution_rows
      context_rows reference_time now 2 2 = Inr mc"
    and "\<not> windows_overlap (bs_candles (mc_execution mc))" and "\<not> blank cid"
    and wiring: "cx_features cx = build_features fb"
      "cx_strategy cx = route [evaluate_breakout k, evaluate_regime name] flat"
      "cx_risk cx = (\<lambda>sigs p v. evaluate_risk m sigs)" "cx_intents cx = (\<lambda>ds v t. build_intents dv v t ds)"
    and strategy: "\<not> blank (bk_name k)" "0 \<le> bk_threshold k" "0 \<le> bk_min_confidence k" "0 < bk_quantity k"
      "\<not> blank name"
    and clock: "\<And>w. is_utc (fst (cx_now cx w))"
      "\<And>w. dt_le (fst (cx_now cx w)) (fst (cx_now cx (snd (cx_now cx w))))"
    and store: "\<And>r f dc h w. \<exists>w'. cx_persist cx r f dc h w = Inr w'"
    and texts: "opt_all (\<lambda>d. d = [] \<or> \<not> blank d) (cx_time_sync_detail cx)"
      "opt_all (\<lambda>v. v = [] \<or> \<not> blank v) (cx_execution_venue cx)"
  shows "\<exists>r mach w'. run_real_data_cycle lag cx epoch_ms cid instrument p execution_rows context_rows reference_time now
        execution_tf context_tf w = Inr ((r, mach), w') \<and> rc_success r \<and>
    st_completed mach = [NORMALIZED_SLICE, FEATURE_SNAPSHOT, STRATEGY_EVALUATION, RISK_EVALUATION,
      EXECUTION_INTENT, PERSISTENCE_REPORTING, EXCHANGE_RECONCILIATION] \<and> st_failure mach = None \<and>
    (\<forall>i. i \<in> set (rc_execution_intents r) \<longrightarrow> ei_side i = BUY \<and> ei_quantity i = bk_quantity k)"
proof -
  have "build_closed_bar_slice epoch_ms (in_instrument_id instrument) execution_tf execution_rows
      (case reference_time of None \<Rightarrow> now | Some t \<Rightarrow> t) 2 = Inr (mc_execution mc)"
    using assms(1) by (auto simp: build_report_only_market_context_def Let_def r_bind_Inr)
  note b = built_slice [OF this]
  have "bv_is_valid (validate_bars (mc_execution mc))"
    using closed_bars_valid b(1,6) assms(2) by simp
  then show ?thesis
    using report_only_completes [OF b(1) _ b(3) [symmetric] assms(3) wiring strategy clock store texts, where w = w] assms(1)
    by (simp add: run_real_data_cycle_def)
qed

text \<open>
  The account snapshot taken over REST is a full snapshot of held assets: it is accepted by its own
  constructor, not partial and dated in UTC, and it consists of balances with non-negative parts of which
  one is positive; the profile check stands before the request.
\<close>

theorem bootstrap_snapshot_sound:
  assumes "bootstrap_snapshot hostname env config = Inr s"
  shows "(\<exists>p. validate_endpoint_profile hostname config = Inr p) \<and> mk_account_snapshot s = Inr s \<and> \<not> acc_is_partial s \<and>
    is_utc (acc_as_of s) \<and> acc_balances s \<noteq> [] \<and>
    (\<forall>b\<in>set (acc_balances s). \<exists>free locked. ab_free b = Some free \<and> ab_locked b = Some locked \<and> 0 \<le> free \<and> 0 \<le> locked \<and>
       (0 < free \<or> 0 < locked) \<and> ab_updated_at b = Some (acc_as_of s) \<and> \<not> blank (ab_asset b))"
proof -
  obtain p where p: "validate_endpoint_profile hostname config = Inr p" and run: "fetch_snapshot env config = Inr s"
    using assms by (auto simp: bootstrap_snapshot_def r_bind_Inr)
  have "\<exists>t balances kept. r_map (snapshot_balance t) balances = Inr kept \<and> concat kept \<noteq> [] \<and>
      mk_account_snapshot s = Inr s \<and> acc_as_of s = t \<and> acc_balances s = concat kept \<and> \<not> acc_is_partial s"
    using run by (auto simp: fetch_snapshot_def r_bind_Inr mk_account_snapshot_def
        split: http_response.splits json.splits if_splits) blast
  then obtain t balances kept where s: "r_map (snapshot_balance t) balances = Inr kept" "concat kept \<noteq> []"
      "mk_account_snapshot s = Inr s" "acc_as_of s = t" "acc_balances s = concat kept" "\<not> acc_is_partial s" by blast
  have "\<exists>free locked. ab_free b = Some free \<and> ab_locked b = Some locked \<and> 0 \<le> free \<and> 0 \<le> locked \<and>
       (0 < free \<or> 0 < locked) \<and> ab_updated_at b = Some t \<and> \<not> blank (ab_asset b)" if b: "b \<in> set (concat kept)" for b
  proof -
    obtain xs where xs: "xs \<in> set kept" "b \<in> set xs" using b by auto
    obtain j where "snapshot_balance t j = Inr xs" "b \<in> set xs" using r_map_Inr_set [OF s(1) xs(1)] xs(2) by blast
    then obtain kvs free locked where j: "held_balance kvs = Inr True" "item_decimal kvs ''free'' = Inr free"
        "item_decimal kvs ''locked'' = Inr locked" "mk_asset_balance b = Inr b" "ab_free b = Some free"
        "ab_locked b = Some locked" "ab_updated_at b = Some t"
      by (auto simp: snapshot_balance_def r_bind_Inr mk_asset_balance_def split: json.splits if_splits)
    then have "0 < free \<or> 0 < locked"
      by (auto simp: held_balance_def item_decimal_def r_bind_Inr jitem_def jget_or_def split: option.splits if_splits)
    then show ?thesis using j by (auto simp: mk_asset_balance_def asset_balance_checks_def not_less)
  qed
  then show ?thesis using s p by (auto simp: mk_account_snapshot_def account_snapshot_checks_def)
qed

section \<open>Concrete rows\<close>

definition sample_row :: "int \<Rightarrow> int \<Rightarrow> json list" where
  "sample_row t u =
     [JInt t, JStr ''1'', JStr ''2'', JStr ''1'', JStr ''2'', JStr ''100'', JInt u, JStr ''100'', JInt 3]"

definition sample_rows :: "json list list" where
  "sample_rows = [sample_row 0 9, sample_row 10 19, sample_row 20 29]"

lemma sample_row_parses:
  assumes "t < u" and "0 \<le> t" and "u < 1000"
  shows "\<exists>c. parse_kline ''BTC-USDT'' ''4h'' reference_ms (sample_row t u) = Inr c \<and> cd_open_time c = utc (t * 1000) \<and>
    cd_close_time c = utc (u * 1000) \<and> (cd_is_closed c \<longleftrightarrow> u < reference_ms) \<and>
    cd_instrument_id c = ''BTC-USDT'' \<and> cd_timeframe c = ''4h''"
  using assms
  by (simp add: sample_row_def parse_kline_def json_int_def from_timestamp_ms_def json_decimal_def parse_samples
      mk_candle_def candle_checks_def blank_def py_space_def less_decimal_def less_eq_decimal_def max_def min_def)

lemma sample_rows_slice:
  "\<exists>b. build_closed_bar_slice epoch_ms ''BTC-USDT'' ''4h'' sample_rows reference 2 = Inr b \<and>
     \<not> windows_overlap (bs_candles b)" if "epoch_ms reference = 25"
proof -
  obtain a b c where abc:
    "parse_kline ''BTC-USDT'' ''4h'' 25 (sample_row 0 9) = Inr a" "parse_kline ''BTC-USDT'' ''4h'' 25 (sample_row 10 19) = Inr b"
    "parse_kline ''BTC-USDT'' ''4h'' 25 (sample_row 20 29) = Inr c" "cd_is_closed a" "cd_is_closed b" "\<not> cd_is_closed c"
    "cd_instrument_id a = ''BTC-USDT''" "cd_timeframe a = ''4h''" "cd_instrument_id b = ''BTC-USDT''" "cd_timeframe b = ''4h''"
    "cd_open_time a = utc 0" "cd_close_time a = utc 9000" "cd_open_time b = utc 10000" "cd_close_time b = utc 19000"
    using sample_row_parses [of 0 9 25] sample_row_parses [of 10 19 25] sample_row_parses [of 20 29 25] by auto
  then show ?thesis using that
    by (simp add: build_closed_bar_slice_def parse_klines_def sample_rows_def closed_bar_slice_def Let_def tail_slice_def
        mk_bar_slice_def bar_slice_checks_def blank_def py_space_def)
qed

lemma sample_market_context:
  "\<exists>mc. build_report_only_market_context (\<lambda>t. 25) ''BTC-USDT'' ''4h'' ''4h'' sample_rows sample_rows None (utc 0) 2 2 = Inr mc \<and>
     \<not> windows_overlap (bs_candles (mc_execution mc))"
  using sample_rows_slice [of "\<lambda>t. 25" "utc 0"] by (auto simp: build_report_only_market_context_def Let_def)

theorem market_context_closed_witness:
  "\<exists>mc. build_report_only_market_context (\<lambda>t. 25) ''BTC-USDT'' ''4h'' ''4h'' sample_rows sample_rows None (utc 0) 2 2 = Inr mc \<and>
     length (bs_candles (mc_execution mc)) = 2 \<and> (\<forall>c\<in>set (bs_candles (mc_execution mc)). cd_is_closed c)"
proof -
  obtain mc where mc: "build_report_only_market_context (\<lambda>t. 25) ''BTC-USDT'' ''4h'' ''4h'' sample_rows sample_rows None (utc 0) 2 2
    = Inr mc" using sample_market_context by blast
  show ?thesis
    using market_context_closed [OF mc, of 25 "mc_execution mc" "''4h''" sample_rows 2] mc by auto
qed

theorem open_bars_ignored_witness:
  "build_closed_bar_slice (\<lambda>t. 25) ''BTC-USDT'' ''4h'' [sample_row 0 9, sample_row 10 19, sample_row 20 29] (utc 0) 2
    = build_closed_bar_slice (\<lambda>t. 25) ''BTC-USDT'' ''4h'' [sample_row 0 9, sample_row 10 19, sample_row 20 99] (utc 0) 2"
proof (rule open_bars_ignored)
  fix r assume "r \<in> set [sample_row 0 9, sample_row 10 19, sample_row 20 29] \<union> set [sample_row 0 9, sample_row 10 19, sample_row 20 99]"
  then consider t u where "r = sample_row t u" "t < u" "0 \<le> t" "u < 1000" by force
  then show "\<exists>c. parse_kline ''BTC-USDT'' ''4h'' 25 r = Inr c" using sample_row_parses by (cases) blast
qed (simp add: closes_before_def sample_row_def json_int_def)

theorem real_data_cycle_completes_witness:
  "\<exists>r mach w'. run_real_data_cycle 0 (sample_context MODE_REPORT_ONLY None None) (\<lambda>t. 25) ''c1'' sample_instrument sample_portfolio
     sample_rows sample_rows None (utc 0) ''4h'' ''4h'' 0 = Inr ((r, mach), w') \<and> rc_success r"
proof -
  obtain mc where mc: "build_report_only_market_context (\<lambda>t. 25) ''BTC-USDT'' ''4h'' ''4h'' sample_rows sample_rows None (utc 0) 2 2
    = Inr mc" "\<not> windows_overlap (bs_candles (mc_execution mc))" using sample_market_context by blast
  have "in_instrument_id sample_instrument = ''BTC-USDT''" by (simp add: sample_instrument_def)
  note mc(1) [folded this]
  from real_data_cycle_completes [OF this mc(2), of "''c1''" "sample_context MODE_REPORT_ONLY None None"
      "\<lparr>bld_tolerate_partial = True, bld_index = None, bld_stable = None\<rparr>" default_breakout "''regime''" True "Dec 1000" "''paper''" 0
      sample_portfolio 0]
  have "\<exists>r mach w'. run_real_data_cycle 0 (sample_context MODE_REPORT_ONLY None None) (\<lambda>t. 25) ''c1'' sample_instrument
      sample_portfolio sample_rows sample_rows None (utc 0) ''4h'' ''4h'' 0 = Inr ((r, mach), w') \<and> rc_success r \<and>
    st_completed mach = [NORMALIZED_SLICE, FEATURE_SNAPSHOT, STRATEGY_EVALUATION, RISK_EVALUATION,
      EXECUTION_INTENT, PERSISTENCE_REPORTING, EXCHANGE_RECONCILIATION] \<and> st_failure mach = None \<and>
    (\<forall>i. i \<in> set (rc_execution_intents r) \<longrightarrow> ei_side i = BUY \<and> ei_quantity i = bk_quantity default_breakout)"
    by (simp add: sample_context_def default_breakout_def blank_def py_space_def less_eq_decimal_def less_decimal_def)
  then show ?thesis by blast
qed

definition sample_kline :: payload where
  "sample_kline =
     [(''t'', JInt 0), (''T'', JInt 9), (''i'', JStr ''4h''), (''o'', JStr ''1''), (''c'', JStr ''2''), (''h'', JStr ''2''),
      (''l'', JStr ''1''), (''v'', JStr ''100''), (''n'', JInt 3), (''x'', JBool True), (''q'', JStr ''100'')]"

definition sample_message :: payload where
  "sample_message = [(''e'', JStr ''kline''), (''E'', JInt 11), (''s'', JStr ''BTCUSDT''), (''k'', JObj sample_kline)]"

theorem stream_and_history_agree_witness:
  "\<exists>msg. normalize_kline_stream_message \<lparr>mkc_config = sample_config ''https://r'' ''binance_spot_prod'', mkc_mappings = []\<rparr>
       sample_message ''BTC-USDT'' = Inr msg \<and>
     parse_kline ''BTC-USDT'' (kl_timeframe msg) 25 (sample_row 0 9) = Inr (kl_candle msg)"
proof -
  let ?m = "\<lparr>mkc_config = sample_config ''https://r'' ''binance_spot_prod'', mkc_mappings = []\<rparr>"
  have "\<exists>c. kline_candle ''BTC-USDT'' sample_kline = Inr c"
    by (simp add: kline_candle_def sample_kline_def item_time_def item_decimal_def json_time_def json_decimal_def json_int_def
        from_timestamp_ms_def parse_samples jget_or_def
        mk_candle_def candle_checks_def blank_def py_space_def less_decimal_def less_eq_decimal_def max_def min_def)
  then obtain c where c: "kline_candle ''BTC-USDT'' sample_kline = Inr c" by blast
  have d: "message_data sample_message = Inr sample_message" "jget sample_message ''k'' = JObj sample_kline"
    by (simp_all add: message_data_def sample_message_def jget_or_def)
  obtain msg where msg: "normalize_kline_stream_message ?m sample_message ''BTC-USDT'' = Inr msg" "kl_is_closed_bar msg"
    using c by (simp add: normalize_kline_stream_message_def d)
      (simp add: sample_message_def sample_kline_def item_time_def json_time_def json_int_def from_timestamp_ms_def json_truthy_def)
  have row: "sample_row 0 9 = map (jget sample_kline) [''t'', ''o'', ''h'', ''l'', ''c'', ''v'', ''T'', ''q'', ''n'']"
    by (simp add: sample_row_def sample_kline_def)
  have "kl_is_closed_bar msg \<longleftrightarrow> closes_before 25 (sample_row 0 9)"
    using msg(2) by (simp add: closes_before_def sample_row_def json_int_def)
  then show ?thesis
    using stream_and_history_agree [OF msg(1) d row] msg(1) by (simp add: sample_kline_def)
qed

definition snapshot_env :: rest_env where
  "snapshot_env =
     \<lparr>renv_http = (\<lambda>url. HttpOk (JObj [(''updateTime'', JInt 5), (''balances'', JList
        [JObj [(''asset'', JStr ''USDT''), (''free'', JStr ''100''), (''locked'', JStr ''2'')]])]) (Some 200) []),
      renv_time_ms = 5, renv_now = 9, renv_urlencode = (\<lambda>q. []), renv_sign = (\<lambda>k s. ''sig'')\<rparr>"

theorem bootstrap_snapshot_sound_witness:
  "\<exists>hostname config s. bootstrap_snapshot hostname snapshot_env config = Inr s \<and> acc_balances s \<noteq> [] \<and>
     \<not> acc_is_partial s"
proof -
  let ?h = "\<lambda>u. if u = ''https://r'' then Some ''API.binance.com'' else Some ''stream.binance.com''"
  let ?c = "sample_config ''https://r'' ''binance_spot_prod''"
  have l: "str_lower ''API.binance.com'' = ''api.binance.com''"
    "str_lower ''stream.binance.com'' = ''stream.binance.com''" by code_simp+
  obtain p where "validate_endpoint_profile ?h ?c = Inr p"
    by (auto simp: validate_endpoint_profile_def resolve_endpoint_profile_def profiles_def sample_config_def py_or_def l)
  then have "\<exists>s. bootstrap_snapshot ?h snapshot_env ?c = Inr s"
    by (simp add: r_bind_Inr bootstrap_snapshot_def fetch_snapshot_def snapshot_env_def parse_event_time_def json_int_def
        from_timestamp_ms_def catching_def snapshot_balance_def held_balance_def jget_or_def json_decimal_def parse_samples
        item_decimal_def mk_asset_balance_def asset_balance_checks_def blank_def py_space_def less_decimal_def
        less_eq_decimal_def mk_account_snapshot_def account_snapshot_checks_def)
  then obtain s where "bootstrap_snapshot ?h snapshot_env ?c = Inr s" by blast
  from bootstrap_snapshot_sound [OF this] this show ?thesis by blast
qed

end
