(* ===== verification/FailureInjection.thy ===== *)
theory FailureInjection
  imports Soak ReplayHarness
begin

text \<open>
  \<open>app/monitoring/restricted_live_failure_injection.py\<close>: scripted restricted-live cycles over the real
  runner, gate, reconciliation service and JSON store, with scripted payloads, lookup answers and stream
  health, and the verdict on a scenario. The clock is a parameter, read by ticks; so are the texts of
  the payload translator. Writing the artifacts of a run to files is not modelled.
\<close>

section \<open>Scenarios and records\<close>

record cycle_plan =
  fp_label :: string
  fp_payloads :: "payload list"
  fp_expected_order_ids :: "string list"
  fp_lookup_results :: "lookup_result list"
  fp_stream_health :: "stream_health option"

record failure_scenario =
  fx_id :: string
  fx_description :: string
  fx_cycles :: "cycle_plan list"
  fx_final_applied :: bool
  fx_expect_recovery :: bool
  fx_expect_manual :: bool
  fx_expect_blocked :: bool
  fx_expect_duplicate :: bool
  fx_expect_degraded :: bool

record failure_record =
  fr_index :: nat
  fr_cycle_id :: string
  fr_success :: bool
  fr_attempted :: bool
  fr_applied :: bool
  fr_blocked_reasons :: "string list"
  fr_ignored_fill_ids :: "string list"
  fr_pending_order_ids :: "string list"
  fr_reconciliation_states :: "string list"
  fr_trigger_reason :: "string option"
  fr_convergence :: "string option"
  fr_health :: "string option"
  fr_private_stream :: "string option"
  fr_query_states :: "string list"
  fr_reconnect_attempts :: int
  fr_alerts :: "string list"

record failure_summary =
  fy_scenario_id :: string
  fy_description :: string
  fy_passed :: bool
  fy_total_cycles :: nat
  fy_blocked :: nat
  fy_applied :: nat
  fy_ignored :: nat
  fy_trigger_reasons :: "string list"
  fy_final_convergence :: "string option"
  fy_manual_attention :: bool
  fy_health_states :: "string list"
  fy_final_health :: "string option"
  fy_reconnect_high_watermark :: int
  fy_visible :: bool
  fy_alerts :: "string list"
  fy_recorded_at :: datetime

fun query_state_value :: "status_query_state \<Rightarrow> string" where
  "query_state_value QUERY_SUCCESS = ''success''"
| "query_state_value QUERY_FAILED = ''failed''"
| "query_state_value QUERY_BLOCKED = ''blocked''"

section \<open>The scripted parts\<close>

text \<open>\<open>_dt(hour, minute)\<close> on 13 March 2026.\<close>

definition scenario_time :: "int \<Rightarrow> int \<Rightarrow> datetime" where
  "scenario_time hour minute = utc (seconds (1773360000 + hour * 3600 + minute * 60))"

text \<open>The answers of a scripted lookup transport carry its name as their source.\<close>

definition unresolved_lookup :: "string \<Rightarrow> string \<Rightarrow> lookup_result" where
  "unresolved_lookup source oid =
     \<lparr>lk_found = False, lk_field = ''exchange_order_id'', lk_value = oid, lk_source = source,
      lk_status_summary = None, lk_alert = Some ''lookup unresolved'', lk_order_state = None, lk_fill_events = [],
      lk_attempt_number = 1\<rparr>"

definition answered_lookup :: "string \<Rightarrow> string \<Rightarrow> string \<Rightarrow> lookup_result" where
  "answered_lookup source oid status =
     \<lparr>lk_found = True, lk_field = ''exchange_order_id'', lk_value = oid, lk_source = source,
      lk_status_summary = Some status, lk_alert = None, lk_order_state = None, lk_fill_events = [],
      lk_attempt_number = 1\<rparr>"

definition lookup_failure :: "string \<Rightarrow> lookup_result" where
  "lookup_failure = unresolved_lookup ''failure_injection_lookup_transport''"

definition lookup_success :: "string \<Rightarrow> string \<Rightarrow> lookup_result" where
  "lookup_success = answered_lookup ''failure_injection_lookup_transport''"

text \<open>The lookup transport pops its scripted answers; without one it fails.\<close>

type_synonym scripted_lookups = "lookup_result list \<times> query_health option"

definition next_lookup ::
    "string \<Rightarrow> string \<Rightarrow> string \<Rightarrow> scripted_lookups \<Rightarrow> lookup_result \<times> scripted_lookups" where
  "next_lookup transport field val = (\<lambda>(rs, health).
     (let (r, rest) = (case rs of [] \<Rightarrow> (unresolved_lookup transport val, []) | x # xs \<Rightarrow> (x, xs))
      in (r, (rest, Some \<lparr>qh_lookup_field = field, qh_lookup_value = val,
            qh_state = (if lk_found r then QUERY_SUCCESS else QUERY_FAILED), qh_checked_at = scenario_time 0 2,
            qh_transport = transport, qh_http_status = None, qh_alert = lk_alert r,
            qh_request_weight_used = None, qh_request_weight_limit = None, qh_endpoint_profile_name = None\<rparr>))))"

definition scripted_ops :: "string \<Rightarrow> scripted_lookups lookup_ops" where
  "scripted_ops transport =
     \<lparr>lo_client = (\<lambda>oid t. Inr (next_lookup transport ''client_order_id'' oid t)),
      lo_exchange = (\<lambda>oid t. Inr (next_lookup transport ''exchange_order_id'' oid t)), lo_health = snd\<rparr>"

definition scenario_config :: adapter_config where
  "scenario_config =
     \<lparr>cfg_rest_base_url = ''https://api.binance.com'', cfg_websocket_base_url = ''wss://stream.binance.com:9443'',
      cfg_api_key = ''key'', cfg_api_secret = ''secret'', cfg_recv_window_ms = 5000, cfg_max_clock_skew_ms = 1000,
      cfg_allow_order_submission = False, cfg_endpoint_profile_name = ''binance_spot_prod'',
      cfg_request_weight_limit_per_minute = 1200\<rparr>"

definition scenario_instrument :: instrument where
  "scenario_instrument =
     \<lparr>in_instrument_id = ''BTC-USDT'', in_base_asset = ''BTC'', in_quote_asset = ''USDT'', in_price_precision = 2,
      in_quantity_precision = 6, in_price_increment = None, in_quantity_increment = None, in_min_quantity = None,
      in_min_notional = None, in_is_active = True\<rparr>"

definition scenario_portfolio :: portfolio_state where
  "scenario_portfolio =
     \<lparr>pf_as_of = scenario_time 0 2, pf_cash = [(''USDT'', Dec 1000)], pf_position_qty = [(''BTC-USDT'', 0)],
      pf_avg_entry = [(''BTC-USDT'', 0)], pf_realized_pnl = 0, pf_unrealized_pnl = 0, pf_gross_exposure = 0,
      pf_net_exposure = 0\<rparr>"

definition scenario_candle :: "int \<Rightarrow> decimal \<Rightarrow> decimal \<Rightarrow> decimal \<Rightarrow> candle" where
  "scenario_candle minute high low close_price =
     \<lparr>cd_instrument_id = ''BTC-USDT'', cd_timeframe = ''1m'', cd_open_time = scenario_time 0 minute,
      cd_close_time = scenario_time 0 (minute + 1), cd_open = Dec 100, cd_high = high, cd_low = low,
      cd_close = close_price, cd_volume = 1, cd_quote_volume = None, cd_trade_count = 0, cd_is_closed = True\<rparr>"

definition scenario_bars :: bar_slice where
  "scenario_bars =
     \<lparr>bs_instrument_id = ''BTC-USDT'', bs_timeframe = ''1m'', bs_end_time = scenario_time 0 2,
      bs_candles = [scenario_candle 0 (Dec 101) (Dec 99) (Dec 100), scenario_candle 1 (Dec 102) (Dec 100) (Dec 101)]\<rparr>"

definition scenario_venue_profile :: venue_profile where
  "scenario_venue_profile =
     \<lparr>vp_venue = ''binance'', vp_account_scope = ''spot'', vp_maker_fee_bps = Dec 7, vp_taker_fee_bps = Dec 10,
      vp_supports_market_orders = True, vp_supports_post_only = True, vp_default_time_in_force = GTC,
      vp_supports_reduce_only = False, vp_supports_client_order_ids = True,
      vp_supported_time_in_force = [GTC, IOC], vp_max_requests_per_second = None\<rparr>"

definition scripted_features :: "bar_slice \<Rightarrow> bar_slice option \<Rightarrow> feature_snapshot result" where
  "scripted_features b ctx = mk_feature_snapshot
     \<lparr>ft_instrument_id = bs_instrument_id b, ft_timeframe = bs_timeframe b, ft_as_of = bs_end_time b,
      ft_feature_values = [(''candle.close_return_1'', Dec (2 / 100))], ft_source_bar_count = 2, ft_is_complete = True\<rparr>"

definition scripted_strategy :: strategy where
  "scripted_strategy dc =
     r_bind (mk_signal_decision
       \<lparr>sd_strategy_name = ''breakout_v1'', sd_instrument_id = in_instrument_id (dc_instrument dc),
        sd_timeframe = ft_timeframe (dc_features dc), sd_as_of = dc_as_of dc, sd_side = Buy,
        sd_confidence = Dec (8 / 10), sd_rationale = ''restricted-live failure injection'',
        sd_target_notional = None, sd_target_quantity = Some (Dec 1)\<rparr>) (\<lambda>s. Inr [s])"

definition scripted_risk ::
    "signal_decision list \<Rightarrow> portfolio_state \<Rightarrow> venue_profile option \<Rightarrow> risk_decision list result" where
  "scripted_risk signals p profile = r_map (\<lambda>s. mk_risk_decision
     \<lparr>rd_signal = s, rd_status = Allow, rd_evaluated_at = sd_as_of s, rd_reasons = [''failure injection allow''],
      rd_approved_notional = None, rd_approved_quantity = sd_target_quantity s, rd_rule_hits = []\<rparr>) signals"

text \<open>The persistence gateway keeps the records of its cycle; the clock ticks at every reading.\<close>

record scenario_env =
  se_ticks :: nat
  se_records :: "(cycle_result \<times> health_snapshot option) list"

type_synonym scenario_world = "((scripted_lookups, json_store) recon_state \<times> scenario_env) soak_world"

definition read_clock :: "(nat \<Rightarrow> datetime) \<Rightarrow> 'a \<times> scenario_env \<Rightarrow> datetime \<times> ('a \<times> scenario_env)" where
  "read_clock clock = (\<lambda>(ts, x). (clock (se_ticks x), (ts, x\<lparr>se_ticks := se_ticks x + 1\<rparr>)))"

definition scenario_gate :: "(nat \<Rightarrow> datetime) \<Rightarrow> text_env \<Rightarrow> scenario_env \<Rightarrow> gate" where
  "scenario_gate clock texts x =
     \<lparr>ga_service = \<lparr>sv_max_rounds = 3, sv_coordinator = default_coordinator, sv_client = default_stream_client,
        sv_translator = \<lparr>tr_version = ''binance.private.v1'', tr_venue = ''binance'', tr_scope = ''spot'',
          tr_mappings = [\<lparr>sm_instrument_id = ''BTC-USDT'', sm_venue_symbol = ''BTCUSDT''\<rparr>]\<rparr>,
        sv_text = texts, sv_session = None, sv_cursor = None, sv_has_gap = False,
        sv_effective_time = clock (se_ticks x), sv_coordination_time = clock (se_ticks x)\<rparr>,
      ga_config = scenario_config, ga_clock_now = clock (se_ticks x), ga_quote_asset = ''USDT''\<rparr>"

definition scenario_delegate ::
    "(nat \<Rightarrow> datetime) \<Rightarrow> text_env \<Rightarrow> cycle_plan
      \<Rightarrow> ((scripted_lookups, json_store) recon_state \<times> scenario_env) detailed_gate" where
  "scenario_delegate clock texts plan =
     live_delegate (scenario_gate clock texts) (scripted_ops ''failure_injection_lookup_transport'') (Some json_store_ops) (\<lambda>x. Inr (fp_payloads plan, x))"

definition scenario_health ::
    "(nat \<Rightarrow> datetime) \<Rightarrow> cycle_plan \<Rightarrow> scenario_world \<Rightarrow> health_snapshot option \<times> scenario_world" where
  "scenario_health clock plan = current_health ''binance'' (\<lambda>e. fp_stream_health plan) (read_clock clock)"

definition scenario_context :: "(nat \<Rightarrow> datetime) \<Rightarrow> text_env \<Rightarrow> cycle_plan \<Rightarrow> scenario_world runtime_context" where
  "scenario_context clock texts plan =
     \<lparr>cx_mode = MODE_RESTRICTED_LIVE, cx_features = scripted_features, cx_strategy = scripted_strategy,
      cx_risk = scripted_risk, cx_intents = (\<lambda>ds v t. build_intents ''binance'' v t ds),
      cx_persist = (\<lambda>r f dc h (g, ts, x). Inr (g, ts, x\<lparr>se_records := se_records x @ [(r, h)]\<rparr>)),
      cx_index = None, cx_stable = None, cx_gate = Some (recording_gate (scenario_delegate clock texts plan)),
      cx_health = Some (scenario_health clock plan), cx_venue_profile = Some scenario_venue_profile,
      cx_execution_venue = Some ''binance'', cx_time_sync_ok = None, cx_time_sync_detail = None,
      cx_now = (\<lambda>(g, e). (let (t, e') = read_clock clock e in (t, (g, e'))))\<rparr>"

section \<open>The run of a scenario\<close>

definition latest_health :: "scenario_env \<Rightarrow> health_snapshot option" where
  "latest_health x = (if se_records x = [] then None else snd (last (se_records x)))"

definition blocked_alerts :: "mutation_outcome \<Rightarrow> string list" where
  "blocked_alerts m = filter (\<lambda>a. str_contains ''blocked'' a \<or> str_contains ''mismatch'' a
     \<or> str_contains ''malformed'' a) (mo_alerts m)"

definition failure_record_of ::
    "nat \<Rightarrow> cycle_plan \<Rightarrow> cycle_result \<Rightarrow> gate_result \<Rightarrow> health_snapshot option \<Rightarrow> failure_record" where
  "failure_record_of i plan c r health =
     (let m = gr_outcome r; workflow = map_option tx_workflow (gr_transport r)
      in \<lparr>fr_index = i, fr_cycle_id = rc_cycle_id c, fr_success = rc_success c, fr_attempted = mo_attempted m,
          fr_applied = mo_applied m, fr_blocked_reasons = blocked_alerts m,
          fr_ignored_fill_ids = lr_ignored_fill_ids (mo_translation m),
          fr_pending_order_ids = lr_pending_order_ids (mo_translation m),
          fr_reconciliation_states = map (\<lambda>e. recon_state_value (re_state e)) (rc_reconciliation_events c),
          fr_trigger_reason = Option.bind workflow wr_trigger_reason,
          fr_convergence = Option.bind workflow wr_convergence,
          fr_health = map_option (\<lambda>h. health_value (hs_overall h)) health,
          fr_private_stream = map_option (\<lambda>h. health_value (ch_state (hs_private_stream h))) health,
          fr_query_states = (case gr_transport r of None \<Rightarrow> []
            | Some tx \<Rightarrow> map (\<lambda>h. query_state_value (qh_state h)) (tx_query_health tx)),
          fr_reconnect_attempts = (case fp_stream_health plan of None \<Rightarrow> 0 | Some h \<Rightarrow> sh_reconnect_attempts h),
          fr_alerts = rc_alerts c\<rparr>)"

record scenario_state =
  ss_portfolio :: portfolio_state
  ss_already :: "string list"
  ss_store :: json_store
  ss_ticks :: nat

definition after_cycle :: "gate_result \<Rightarrow> json_store \<Rightarrow> nat \<Rightarrow> scenario_state \<Rightarrow> scenario_state" where
  "after_cycle r store ticks s =
     \<lparr>ss_portfolio = (if mo_applied (gr_outcome r) then mo_portfolio (gr_outcome r) else ss_portfolio s),
      ss_already = dedup (ss_already s @ lr_applied_fill_ids (mo_translation (gr_outcome r))),
      ss_store = store, ss_ticks = ticks\<rparr>"

definition plan_cycle ::
    "(nat \<Rightarrow> datetime) \<Rightarrow> text_env \<Rightarrow> string \<Rightarrow> nat \<Rightarrow> cycle_plan \<Rightarrow> scenario_state
      \<Rightarrow> ((failure_record \<times> gate_result) \<times> scenario_state) result" where
  "plan_cycle clock texts scenario_id i plan s =
     (let cx = scenario_context clock texts plan in
      r_bind (validated check_restricted_live cx) (\<lambda>_.
      r_bind (restricted_live_cycle default_lag cx (scenario_id @ ''-'' @ fp_label plan) scenario_instrument
          scenario_bars None (ss_portfolio s) (fp_expected_order_ids plan) (ss_already s)
          (None, (((fp_lookup_results plan, None), ss_store s), \<lparr>se_ticks = ss_ticks s, se_records = []\<rparr>)))
        (\<lambda>(c, (g, ((lookups, store), x))).
        case g of None \<Rightarrow> Inl AssertionError
        | Some r \<Rightarrow> Inr ((failure_record_of i plan c r (latest_health x), r), after_cycle r store (se_ticks x) s))))"

fun plan_cycles ::
    "(nat \<Rightarrow> datetime) \<Rightarrow> text_env \<Rightarrow> string \<Rightarrow> nat \<Rightarrow> cycle_plan list \<Rightarrow> scenario_state
      \<Rightarrow> ((failure_record \<times> gate_result) list \<times> scenario_state) result" where
  "plan_cycles clock texts sid i [] s = Inr ([], s)"
| "plan_cycles clock texts sid i (p # ps) s =
     r_bind (plan_cycle clock texts sid i p s) (\<lambda>(x, s1).
     r_bind (plan_cycles clock texts sid (i + 1) ps s1) (\<lambda>(xs, s2). Inr (x # xs, s2)))"

definition opt_values :: "'a option list \<Rightarrow> 'a list" where
  "opt_values xs = List.map_filter id xs"

definition build_summary ::
    "failure_scenario \<Rightarrow> datetime \<Rightarrow> failure_record list \<Rightarrow> failure_summary result" where
  "build_summary sc now records =
     (let blocks = length (filter (\<lambda>r. fr_blocked_reasons r \<noteq> []) records);
          ignored = sum_list (map (\<lambda>r. length (fr_ignored_fill_ids r)) records);
          reasons = dedup (opt_values (map fr_trigger_reason
            (filter (\<lambda>r. truthy (fr_trigger_reason r) \<and> fr_trigger_reason r \<noteq> Some ''not_required'') records)));
          states = dedup (opt_values (map fr_health records));
          manual = list_ex (\<lambda>r. ''unreconciled_manual_attention'' \<in> set (fr_reconciliation_states r)
            \<or> fr_convergence r = Some ''unreconciled_manual_attention'') records;
          visible = list_ex (\<lambda>r. fr_health r \<noteq> None \<and>
            (fr_alerts r \<noteq> [] \<or> truthy (fr_trigger_reason r) \<or> fr_blocked_reasons r \<noteq> [])) records
      in if records = [] then Inl IndexError
         else Inr \<lparr>fy_scenario_id = fx_id sc, fy_description = fx_description sc,
           fy_passed = (fr_applied (last records) = fx_final_applied sc
             \<and> (fx_expect_recovery sc \<longrightarrow> reasons \<noteq> []) \<and> (fx_expect_manual sc \<longrightarrow> manual)
             \<and> (fx_expect_blocked sc \<longrightarrow> 0 < blocks) \<and> (fx_expect_duplicate sc \<longrightarrow> 0 < ignored)
             \<and> (fx_expect_degraded sc \<longrightarrow> list_ex (\<lambda>h. h \<in> {''degraded'', ''fatal''}) states) \<and> visible),
           fy_total_cycles = length records, fy_blocked = blocks,
           fy_applied = length (filter fr_applied records), fy_ignored = ignored, fy_trigger_reasons = reasons,
           fy_final_convergence = fr_convergence (last records), fy_manual_attention = manual,
           fy_health_states = states, fy_final_health = fr_health (last records),
           fy_reconnect_high_watermark = foldl max (fr_reconnect_attempts (hd records))
             (map fr_reconnect_attempts (tl records)),
           fy_visible = visible, fy_alerts = dedup (concat (map fr_alerts records)), fy_recorded_at = now\<rparr>)"

definition scenario_start :: "json_store \<Rightarrow> nat \<Rightarrow> scenario_state" where
  "scenario_start store ticks =
     \<lparr>ss_portfolio = scenario_portfolio, ss_already = [], ss_store = store, ss_ticks = ticks\<rparr>"

text \<open>A run starts from the state file the scenario's directory holds, and leaves the file it wrote.\<close>

definition run_scenario ::
    "(nat \<Rightarrow> datetime) \<Rightarrow> text_env \<Rightarrow> failure_scenario \<Rightarrow> json_store \<Rightarrow> nat
      \<Rightarrow> ((failure_summary \<times> failure_record list) \<times> scenario_state) result" where
  "run_scenario clock texts sc store ticks =
     r_bind (plan_cycles clock texts (fx_id sc) 1 (fx_cycles sc) (scenario_start store ticks)) (\<lambda>(xs, s).
     r_bind (build_summary sc (clock (ss_ticks s)) (map fst xs)) (\<lambda>summary.
       Inr ((summary, map fst xs), s\<lparr>ss_ticks := ss_ticks s + 1\<rparr>)))"

text \<open>A campaign keeps one state file per scenario id.\<close>

fun run_campaign ::
    "(nat \<Rightarrow> datetime) \<Rightarrow> text_env \<Rightarrow> failure_scenario list \<Rightarrow> (string \<Rightarrow> json_store) \<Rightarrow> nat
      \<Rightarrow> ((failure_summary \<times> failure_record list) list \<times> (string \<Rightarrow> json_store)) result" where
  "run_campaign clock texts [] stores ticks = Inr ([], stores)"
| "run_campaign clock texts (sc # scs) stores ticks =
     r_bind (run_scenario clock texts sc (stores (fx_id sc)) ticks) (\<lambda>(run, s).
     r_bind (run_campaign clock texts scs (stores(fx_id sc := ss_store s)) (ss_ticks s)) (\<lambda>(runs, stores').
       Inr (run # runs, stores')))"

section \<open>The default campaign\<close>

definition private_health :: "private_stream_state \<Rightarrow> int \<Rightarrow> string list \<Rightarrow> bool option \<Rightarrow> stream_health" where
  "private_health state attempts alerts authoritative =
     \<lparr>sh_state = state, sh_reconnect_attempts = attempts, sh_last_message_at = Some (scenario_time 0 1), sh_last_reconnect_at = None,
      sh_session_expires_at = Some (scenario_time 1 0),
      sh_is_authoritative = (case authoritative of None \<Rightarrow> state = STREAMING | Some b \<Rightarrow> b), sh_alerts = alerts\<rparr>"

definition filled_trade_payload :: "int \<Rightarrow> int \<Rightarrow> payload" where
  "filled_trade_payload order_id trade_id =
     [(''e'', JStr ''executionReport''), (''E'', JInt 1773360000000), (''s'', JStr ''BTCUSDT''),
      (''c'', JStr (''client-'' @ int_str order_id)), (''S'', JStr ''BUY''), (''o'', JStr ''MARKET''),
      (''X'', JStr ''FILLED''), (''x'', JStr ''TRADE''), (''q'', JStr ''1''), (''z'', JStr ''1''), (''l'', JStr ''1''),
      (''L'', JStr ''100''), (''Z'', JStr ''100''), (''n'', JStr ''1''), (''N'', JStr ''USDT''),
      (''i'', JInt order_id), (''t'', JInt trade_id), (''m'', JBool False)]"

definition account_update_payload :: payload where
  "account_update_payload =
     [(''e'', JStr ''outboundAccountPosition''), (''E'', JInt 1773360010000),
      (''B'', JList [JObj [(''a'', JStr ''USDT''), (''f'', JStr ''1000''), (''l'', JStr ''25'')],
        JObj [(''a'', JStr ''BTC''), (''f'', JStr ''0.25''), (''l'', JStr ''0'')]])]"

definition terminated_payload :: "string \<Rightarrow> payload" where
  "terminated_payload event_type = [(''e'', JStr event_type), (''E'', JInt 1773360000000)]"

definition default_plan :: "string \<Rightarrow> payload list \<Rightarrow> string list \<Rightarrow> lookup_result list \<Rightarrow> stream_health \<Rightarrow> cycle_plan" where
  "default_plan label payloads expected lookups health =
     \<lparr>fp_label = label, fp_payloads = payloads, fp_expected_order_ids = expected, fp_lookup_results = lookups,
      fp_stream_health = Some health\<rparr>"

definition private_stream_disconnect :: failure_scenario where
  "private_stream_disconnect =
     \<lparr>fx_id = ''private_stream_disconnect'',
      fx_description = ''private stream terminates and reconciliation escalates to manual attention'',
      fx_cycles = [default_plan ''cycle-1'' [terminated_payload ''eventStreamTerminated''] [''9101'']
        [lookup_failure ''9101'', lookup_failure ''9101'', lookup_failure ''9101'']
        (private_health TERMINATED 1 [''private stream disconnected''] (Some False))],
      fx_final_applied = False, fx_expect_recovery = True, fx_expect_manual = True, fx_expect_blocked = True,
      fx_expect_duplicate = False, fx_expect_degraded = True\<rparr>"

definition listen_key_expiration :: failure_scenario where
  "listen_key_expiration =
     \<lparr>fx_id = ''listen_key_expiration'',
      fx_description = ''listen-key expiry blocks mutation first, then resumes after a later fill arrives'',
      fx_cycles = [default_plan ''expired'' [terminated_payload ''listenKeyExpired''] [''9201'']
          [lookup_success ''9201'' ''filled''] (private_health TERMINATED 1 [''listen key expired''] (Some False)),
        default_plan ''recovered'' [filled_trade_payload 9201 19201] [''9201''] []
          (private_health STREAMING 1 [] None)],
      fx_final_applied = True, fx_expect_recovery = True, fx_expect_manual = False, fx_expect_blocked = True,
      fx_expect_duplicate = False, fx_expect_degraded = True\<rparr>"

definition websocket_reconnect_storms :: failure_scenario where
  "websocket_reconnect_storms =
     \<lparr>fx_id = ''websocket_reconnect_storms'',
      fx_description = ''reconnect storms remain operator-visible and keep exchange health degraded'',
      fx_cycles =
        [default_plan ''storm-1'' [] [] []
          (private_health DEGRADED 2 [''heartbeat overdue'', ''reconnect storm''] (Some False)),
         default_plan ''storm-2'' [] [] []
          (private_health DEGRADED 5 [''heartbeat overdue'', ''reconnect storm''] (Some False)),
         default_plan ''storm-3'' [] [] []
          (private_health DEGRADED 8 [''heartbeat overdue'', ''reconnect storm''] (Some False))],
      fx_final_applied = False, fx_expect_recovery = False, fx_expect_manual = False, fx_expect_blocked = False,
      fx_expect_duplicate = False, fx_expect_degraded = True\<rparr>"

definition delayed_private_events :: failure_scenario where
  "delayed_private_events =
     \<lparr>fx_id = ''delayed_private_events'',
      fx_description = ''missing private updates recover first through REST, then the late fill arrives safely'',
      fx_cycles = [default_plan ''delayed'' [account_update_payload] [''9301''] [lookup_success ''9301'' ''filled'']
          (private_health STREAMING 0 [] None),
        default_plan ''late-fill'' [filled_trade_payload 9301 19301] [''9301''] []
          (private_health STREAMING 0 [] None)],
      fx_final_applied = True, fx_expect_recovery = True, fx_expect_manual = False, fx_expect_blocked = True,
      fx_expect_duplicate = False, fx_expect_degraded = False\<rparr>"

definition missing_order_events :: failure_scenario where
  "missing_order_events =
     \<lparr>fx_id = ''missing_order_events'',
      fx_description = ''expected order updates never arrive and reconciliation escalates manually'',
      fx_cycles = [default_plan ''missing'' [account_update_payload] [''9401'']
          [lookup_failure ''9401'', lookup_failure ''9401'', lookup_failure ''9401'']
          (private_health STREAMING 0 [] None)],
      fx_final_applied = False, fx_expect_recovery = True, fx_expect_manual = True, fx_expect_blocked = True,
      fx_expect_duplicate = False, fx_expect_degraded = True\<rparr>"

definition duplicated_fill_events :: failure_scenario where
  "duplicated_fill_events =
     \<lparr>fx_id = ''duplicated_fill_events'',
      fx_description = ''duplicate fills are deduplicated so mutation applies once without double counting'',
      fx_cycles = [default_plan ''duplicate-fill'' [filled_trade_payload 9501 19501, filled_trade_payload 9501 19501]
          [''9501''] [] (private_health STREAMING 0 [] None)],
      fx_final_applied = True, fx_expect_recovery = False, fx_expect_manual = False, fx_expect_blocked = False,
      fx_expect_duplicate = True, fx_expect_degraded = False\<rparr>"

definition default_failure_scenarios :: "failure_scenario list" where
  "default_failure_scenarios =
     [private_stream_disconnect, listen_key_expiration, websocket_reconnect_storms, delayed_private_events,
      missing_order_events, duplicated_fill_events]"

section \<open>Facts\<close>

text \<open>The parts of a scenario's runner, wired to its recording gate.\<close>

definition scenario_runner ::
    "(nat \<Rightarrow> datetime) \<Rightarrow> text_env \<Rightarrow> cycle_plan
      \<Rightarrow> ((scripted_lookups, json_store) recon_state \<times> scenario_env) soak_runner" where
  "scenario_runner clock texts plan =
     \<lparr>sk_context = scenario_context clock texts plan, sk_max_lag = default_lag,
      sk_health = scenario_health clock plan, sk_stats = (\<lambda>e. no_stats), sk_time = read_clock clock,
      sk_sleep = (\<lambda>t e. e)\<rparr>"

lemma scenario_health_keeps: "fst (snd (scenario_health clock plan w)) = fst w"
  by (simp add: scenario_health_def current_health_def Let_def split_beta)

lemma scenario_context_parts [simp]:
  "cx_mode (scenario_context clock texts plan) = MODE_RESTRICTED_LIVE"
  "cx_features (scenario_context clock texts plan) = scripted_features"
  "cx_strategy (scenario_context clock texts plan) = scripted_strategy"
  "cx_risk (scenario_context clock texts plan) = scripted_risk"
  "cx_gate (scenario_context clock texts plan) = Some (recording_gate (scenario_delegate clock texts plan))"
  "cx_health (scenario_context clock texts plan) = Some (scenario_health clock plan)"
  "cx_venue_profile (scenario_context clock texts plan) = Some scenario_venue_profile"
  "cx_execution_venue (scenario_context clock texts plan) = Some ''binance''"
  "cx_index (scenario_context clock texts plan) = None" "cx_stable (scenario_context clock texts plan) = None"
  "cx_time_sync_ok (scenario_context clock texts plan) = None"
  "cx_time_sync_detail (scenario_context clock texts plan) = None"
  "cx_persist (scenario_context clock texts plan) r f dc h (g, ts, x)
     = Inr (g, ts, x\<lparr>se_records := se_records x @ [(r, h)]\<rparr>)"
  "cx_now (scenario_context clock texts plan) (g, ts, x)
     = (clock (se_ticks x), (g, ts, x\<lparr>se_ticks := se_ticks x + 1\<rparr>))"
  by (simp_all add: scenario_context_def read_clock_def)

lemma scenario_wired: "wired (scenario_delegate clock texts plan) (scenario_runner clock texts plan)"
proof -
  have 1: "fst (snd (cx_now (scenario_context clock texts plan) w)) = fst w" for w by (cases w) auto
  have 2: "fst w' = fst w" if "cx_persist (scenario_context clock texts plan) r f c h w = Inr w'" for r f c h w w'
    using that by (cases w) auto
  show ?thesis
    unfolding wired_def scenario_runner_def Let_def using 1 2 scenario_health_keeps by auto
qed

definition applied_ids :: "gate_result \<Rightarrow> string list" where
  "applied_ids r = lr_applied_fill_ids (mo_translation (gr_outcome r))"

text \<open>The gate answers a list of plans, each with the portfolio and the fills carried so far.\<close>

fun plans_answered ::
    "(nat \<Rightarrow> datetime) \<Rightarrow> text_env \<Rightarrow> cycle_plan list \<Rightarrow> portfolio_state \<Rightarrow> string list \<Rightarrow> gate_result list \<Rightarrow> bool" where
  "plans_answered clock texts [] p already rs \<longleftrightarrow> rs = []"
| "plans_answered clock texts (plan # plans) p already [] \<longleftrightarrow> False"
| "plans_answered clock texts (plan # plans) p already (r # rs) \<longleftrightarrow>
     (\<exists>e e'. scenario_delegate clock texts plan p (fp_expected_order_ids plan) already e = Inr (r, e')) \<and>
     plans_answered clock texts plans (carried_portfolio (Some (gr_outcome r)) p) (already @ applied_ids r) rs"

interpretation scripted: once_gate "scenario_delegate clock texts plan" for clock texts plan
  unfolding scenario_delegate_def by (rule live.once_gate_axioms)

lemma plan_cycle_Inr:
  assumes "plan_cycle clock texts sid i plan s = Inr ((rec, r), s')" and "distinct (ss_already s)"
  obtains e e' c h where "scenario_delegate clock texts plan (ss_portfolio s) (fp_expected_order_ids plan) (ss_already s) e = Inr (r, e')"
    and "rec = failure_record_of i plan c r h"
    and "ss_portfolio s' = carried_portfolio (Some (gr_outcome r)) (ss_portfolio s)"
    and "ss_already s' = ss_already s @ applied_ids r" and "distinct (ss_already s')"
proof -
  let ?cx = "scenario_context clock texts plan"
  let ?w = "(None, (((fp_lookup_results plan, None), ss_store s), \<lparr>se_ticks = ss_ticks s, se_records = []\<rparr>))"
  have "\<exists>y. restricted_live_cycle default_lag ?cx (sid @ ''-'' @ fp_label plan) scenario_instrument
      scenario_bars None (ss_portfolio s) (fp_expected_order_ids plan) (ss_already s) ?w = Inr y \<and>
      (case fst (snd y) of None \<Rightarrow> Inl AssertionError
        | Some r \<Rightarrow> Inr ((failure_record_of i plan (fst y) r (latest_health (snd (snd (snd y)))), r),
             after_cycle r (snd (fst (snd (snd y)))) (se_ticks (snd (snd (snd y)))) s)) = Inr ((rec, r), s')"
    using assms(1) unfolding plan_cycle_def Let_def r_bind_Inr case_prod_beta by blast
  then obtain c g lookups store x where c: "restricted_live_cycle default_lag ?cx (sid @ ''-'' @ fp_label plan)
      scenario_instrument scenario_bars None (ss_portfolio s) (fp_expected_order_ids plan) (ss_already s) ?w
      = Inr (c, (g, ((lookups, store), x)))"
    and rest: "(case g of None \<Rightarrow> Inl AssertionError
        | Some r \<Rightarrow> Inr ((failure_record_of i plan c r (latest_health x), r), after_cycle r store (se_ticks x) s))
      = Inr ((rec, r), s')" by (auto simp: split_paired_all cong: option.case_cong)
  from rest have g: "g = Some r" and rec: "rec = failure_record_of i plan c r (latest_health x)"
    and s': "ss_portfolio s' = carried_portfolio (Some (gr_outcome r)) (ss_portfolio s)"
      "ss_already s' = dedup (ss_already s @ applied_ids r)"
    by (auto simp: carried_portfolio_def applied_ids_def after_cycle_def split: option.splits)
  have cx: "?cx = sk_context (scenario_runner clock texts plan)" by (simp add: scenario_runner_def)
  note cycle_gate [OF scenario_wired c [unfolded cx]]
  with g obtain e e' where d: "scenario_delegate clock texts plan (ss_portfolio s) (fp_expected_order_ids plan) (ss_already s) e
      = Inr (r, e')" unfolding fst_conv by blast
  have "distinct (ss_already s @ applied_ids r)"
    using scripted.applies_once [OF d] assms(2) by (auto simp: applied_ids_def)
  with that [OF d rec s'(1)] s'(2) show thesis by (simp add: dedup_distinct)
qed

lemma failure_record_fields [simp]:
  "fr_index (failure_record_of i plan c r h) = i"
  "fr_applied (failure_record_of i plan c r h) = mo_applied (gr_outcome r)"
  "fr_attempted (failure_record_of i plan c r h) = mo_attempted (gr_outcome r)"
  "fr_ignored_fill_ids (failure_record_of i plan c r h) = lr_ignored_fill_ids (mo_translation (gr_outcome r))"
  by (simp_all add: failure_record_of_def Let_def)

lemma plan_cycles_answered:
  assumes "plan_cycles clock texts sid i plans s = Inr (xs, s')" and "distinct (ss_already s)"
  shows "plans_answered clock texts plans (ss_portfolio s) (ss_already s) (map snd xs)" (is ?answered)
    and "ss_already s' = ss_already s @ concat (map applied_ids (map snd xs))" (is ?ids)
    and "distinct (ss_already s')" (is ?once)
    and "ss_portfolio s' = foldl (\<lambda>p r. carried_portfolio (Some (gr_outcome r)) p) (ss_portfolio s) (map snd xs)" (is ?books)
    and "map fr_applied (map fst xs) = map (mo_applied \<circ> gr_outcome) (map snd xs)" (is ?applied)
    and "map fr_index (map fst xs) = [i..<i + length plans]" (is ?indices)
proof -
  have "?answered \<and> ?ids \<and> ?once \<and> ?books \<and> ?applied \<and> ?indices"
    using assms
  proof (induction plans arbitrary: i s xs)
    case Nil
    then show ?case by simp
  next
    case (Cons plan plans)
    obtain rec r s1 ys where 1: "plan_cycle clock texts sid i plan s = Inr ((rec, r), s1)"
      and 2: "plan_cycles clock texts sid (i + 1) plans s1 = Inr (ys, s')" and xs: "xs = (rec, r) # ys"
      using Cons.prems(1) by (auto simp: r_bind_Inr)
    obtain e e' c h where d: "scenario_delegate clock texts plan (ss_portfolio s) (fp_expected_order_ids plan) (ss_already s) e
        = Inr (r, e')" and rec: "rec = failure_record_of i plan c r h"
      and s1: "ss_portfolio s1 = carried_portfolio (Some (gr_outcome r)) (ss_portfolio s)"
        "ss_already s1 = ss_already s @ applied_ids r" "distinct (ss_already s1)"
      using 1 Cons.prems(2) by (rule plan_cycle_Inr)
    note ih = Cons.IH [OF 2 s1(3)]
    have "\<exists>e e'. scenario_delegate clock texts plan (ss_portfolio s) (fp_expected_order_ids plan) (ss_already s) e
        = Inr (r, e')" using d by blast
    moreover have "[i..<i + length (plan # plans)] = i # [i + 1..<i + 1 + length plans]"
      by (simp add: upt_conv_Cons del: upt_Suc)
    ultimately show ?case using ih unfolding xs rec s1(1,2) by (elim conjE) (simp del: upt_Suc distinct_append)
  qed
  then show ?answered ?ids ?once ?books ?applied ?indices by blast+
qed

lemma plans_answered_length: "plans_answered clock texts plans p already rs \<Longrightarrow> length rs = length plans"
  by (induction clock texts plans p already rs rule: plans_answered.induct) auto

lemma plans_answered_unapplied:
  "plans_answered clock texts plans p already rs \<Longrightarrow> r \<in> set rs \<Longrightarrow> \<not> mo_applied (gr_outcome r) \<Longrightarrow> applied_ids r = []"
proof (induction clock texts plans p already rs rule: plans_answered.induct)
  case (3 clock texts plan plans p already r0 rs)
  then show ?case using scripted.unapplied_keeps by (fastforce simp: applied_ids_def)
qed simp_all

lemma length_filter_as_map: "length (filter P xs) = length (filter id (map P xs))"
  by (simp add: filter_map)

lemma build_summary_Inr:
  assumes "build_summary sc now records = Inr sm"
  shows "records \<noteq> []" and "fy_total_cycles sm = length records" and "fy_applied sm = length (filter fr_applied records)"
    and "fy_ignored sm = sum_list (map (\<lambda>r. length (fr_ignored_fill_ids r)) records)"
    and "fy_passed sm \<Longrightarrow> fr_applied (last records) = fx_final_applied sc"
    and "fy_passed sm \<Longrightarrow> fx_expect_blocked sc \<Longrightarrow> \<exists>r\<in>set records. fr_blocked_reasons r \<noteq> []"
    and "fy_passed sm \<Longrightarrow> \<exists>r\<in>set records. fr_health r \<noteq> None"
proof -
  show ne: "records \<noteq> []" using assms by (cases records) (simp_all add: build_summary_def)
  have sm: "sm = projr (build_summary sc now records)" by (simp add: assms)
  show "fy_total_cycles sm = length records" "fy_applied sm = length (filter fr_applied records)"
    "fy_ignored sm = sum_list (map (\<lambda>r. length (fr_ignored_fill_ids r)) records)"
    by (simp_all add: sm build_summary_def Let_def ne)
  assume p: "fy_passed sm"
  then show "fr_applied (last records) = fx_final_applied sc"
    and "\<exists>r\<in>set records. fr_health r \<noteq> None"
    by (auto simp: sm build_summary_def Let_def ne list_ex_iff)
  show "\<exists>r\<in>set records. fr_blocked_reasons r \<noteq> []" if "fx_expect_blocked sc"
    using p that by (auto simp: sm build_summary_def Let_def ne filter_empty_conv)
qed

lemma run_scenario_Inr:
  assumes "run_scenario clock texts sc store n = Inr ((sm, records), s')"
  obtains xs s where "plan_cycles clock texts (fx_id sc) 1 (fx_cycles sc) (scenario_start store n) = Inr (xs, s)"
    and "build_summary sc (clock (ss_ticks s)) records = Inr sm" and "records = map fst xs"
    and "s' = s\<lparr>ss_ticks := ss_ticks s + 1\<rparr>"
proof -
  obtain xs s where 1: "plan_cycles clock texts (fx_id sc) 1 (fx_cycles sc) (scenario_start store n) = Inr (xs, s)"
    and 2: "r_bind (build_summary sc (clock (ss_ticks s)) (map fst xs)) (\<lambda>summary.
       Inr ((summary, map fst xs), s\<lparr>ss_ticks := ss_ticks s + 1\<rparr>)) = Inr ((sm, records), s')"
    using assms unfolding run_scenario_def r_bind_Inr case_prod_beta by (metis prod.collapse)
  from 2 show thesis by (intro that [OF 1]) (auto simp: r_bind_Inr)
qed

section \<open>Properties\<close>

text \<open>
  C4. A failure scenario applies no fill twice and its verdict counts what the gate answered: there is one
  gate answer per scripted cycle, each given to the portfolio and the fill ids carried from the answers
  before; the final fill ids are exactly the applied ones, all different, answers without an applied
  mutation contribute none, the final portfolio is the one carried through, and a passed scenario's last
  answer did what the scenario expects.
\<close>

theorem scenario_applies_each_fill_once:
  assumes "run_scenario clock texts sc store n = Inr ((sm, records), s')"
  shows "\<exists>rs. plans_answered clock texts (fx_cycles sc) scenario_portfolio [] rs \<and>
    map fr_index records = [1..<length (fx_cycles sc) + 1] \<and>
    map fr_applied records = map (mo_applied \<circ> gr_outcome) rs \<and>
    fy_applied sm = length (filter (mo_applied \<circ> gr_outcome) rs) \<and>
    ss_already s' = concat (map applied_ids rs) \<and> distinct (concat (map applied_ids rs)) \<and>
    (\<forall>r\<in>set rs. \<not> mo_applied (gr_outcome r) \<longrightarrow> applied_ids r = []) \<and>
    ss_portfolio s' = foldl (\<lambda>p r. carried_portfolio (Some (gr_outcome r)) p) scenario_portfolio rs \<and>
    (fy_passed sm \<longrightarrow> mo_applied (gr_outcome (last rs)) = fx_final_applied sc)"
proof -
  obtain xs s where run: "plan_cycles clock texts (fx_id sc) 1 (fx_cycles sc) (scenario_start store n) = Inr (xs, s)"
    and sm: "build_summary sc (clock (ss_ticks s)) records = Inr sm" and rec: "records = map fst xs"
    and s': "s' = s\<lparr>ss_ticks := ss_ticks s + 1\<rparr>"
    using assms by (rule run_scenario_Inr)
  have "distinct (ss_already (scenario_start store n))" by (simp add: scenario_start_def)
  note a = plan_cycles_answered [OF run this, unfolded scenario_start_def scenario_state.simps]
  have applied: "map fr_applied records = map (mo_applied \<circ> gr_outcome) (map snd xs)" using a(5) by (simp add: rec)
  then have n: "length (filter fr_applied records) = length (filter (mo_applied \<circ> gr_outcome) (map snd xs))"
    unfolding length_filter_as_map [of fr_applied] length_filter_as_map [of "mo_applied \<circ> gr_outcome"] by (rule arg_cong)
  have "fr_applied (last records) = mo_applied (gr_outcome (last (map snd xs)))"
    using build_summary_Inr(1) [OF sm] arg_cong [OF applied, of last] by (simp add: rec last_map)
  then have p: "fy_passed sm \<Longrightarrow> mo_applied (gr_outcome (last (map snd xs))) = fx_final_applied sc"
    using build_summary_Inr(5) [OF sm] by simp
  have i: "map fr_index records = [1..<length (fx_cycles sc) + 1]" using a(6) by (simp add: rec add.commute)
  have ids: "ss_already s' = concat (map applied_ids (map snd xs))" "distinct (ss_already s')"
    "ss_portfolio s' = foldl (\<lambda>p r. carried_portfolio (Some (gr_outcome r)) p) scenario_portfolio (map snd xs)"
    using a(2-4) by (simp_all add: s')
  have t: "fy_applied sm = length (filter (mo_applied \<circ> gr_outcome) (map snd xs))"
    using build_summary_Inr(3) [OF sm] n by (rule trans)
  have u: "\<forall>r\<in>set (map snd xs). \<not> mo_applied (gr_outcome r) \<longrightarrow> applied_ids r = []"
    using plans_answered_unapplied [OF a(1)] by blast
  have d: "distinct (concat (map applied_ids (map snd xs)))" using ids(2) unfolding ids(1) .
  show ?thesis using a(1) i applied t ids(1) d u ids(3) p by blast
qed

section \<open>Scenarios without payloads\<close>

lemma scenario_bars_valid:
  "bar_slice_invariant scenario_bars" "is_utc (bs_end_time scenario_bars)"
  "validate_bars scenario_bars = \<lparr>bv_is_valid = True, bv_reasons = []\<rparr>"
  by (simp_all add: scenario_bars_def bar_slice_invariant_def scenario_candle_def scenario_time_def seconds_def blank_def
      py_space_def validate_bars_def)

definition scripted_snapshot :: feature_snapshot where
  "scripted_snapshot =
     \<lparr>ft_instrument_id = ''BTC-USDT'', ft_timeframe = ''1m'', ft_as_of = scenario_time 0 2,
      ft_feature_values = [(''candle.close_return_1'', Dec (2 / 100))], ft_source_bar_count = 2, ft_is_complete = True\<rparr>"

lemma scripted_parts:
  "scripted_features scenario_bars ctx = Inr scripted_snapshot"
  by (simp add: scripted_features_def scripted_snapshot_def scenario_bars_def mk_feature_snapshot_def
      feature_snapshot_checks_def scenario_time_def blank_def py_space_def)

definition scripted_signal :: signal_decision where
  "scripted_signal =
     \<lparr>sd_strategy_name = ''breakout_v1'', sd_instrument_id = ''BTC-USDT'', sd_timeframe = ''1m'',
      sd_as_of = scenario_time 0 2, sd_side = Buy, sd_confidence = Dec (8 / 10),
      sd_rationale = ''restricted-live failure injection'', sd_target_notional = None, sd_target_quantity = Some (Dec 1)\<rparr>"

definition scripted_decision :: risk_decision where
  "scripted_decision =
     \<lparr>rd_signal = scripted_signal, rd_status = Allow, rd_evaluated_at = scenario_time 0 2,
      rd_reasons = [''failure injection allow''], rd_approved_notional = None, rd_approved_quantity = Some (Dec 1),
      rd_rule_hits = []\<rparr>"

lemma scripted_decisions:
  assumes "dc_instrument dc = scenario_instrument" and "dc_features dc = scripted_snapshot"
    and "dc_as_of dc = bs_end_time scenario_bars"
  shows "scripted_strategy dc = Inr [scripted_signal]" and "scripted_risk [scripted_signal] p v = Inr [scripted_decision]"
proof -
  have s: "validated signal_decision_checks scripted_signal = Inr scripted_signal"
    by (simp add: signal_decision_checks_def scripted_signal_def scenario_time_def blank_def py_space_def)
  have d: "validated risk_decision_checks scripted_decision = Inr scripted_decision"
    by (simp add: risk_decision_checks_def scripted_decision_def scenario_time_def blank_def py_space_def)
  show "scripted_strategy dc = Inr [scripted_signal]"
    using s by (simp add: scripted_strategy_def assms mk_signal_decision_def scenario_instrument_def
        scripted_snapshot_def scenario_bars_def scripted_signal_def validated_def split: if_splits option.splits)
  show "scripted_risk [scripted_signal] p v = Inr [scripted_decision]"
    using d by (simp add: scripted_risk_def mk_risk_decision_def scripted_decision_def validated_def
        split: if_splits option.splits) (simp add: scripted_signal_def)
qed

lemma scripted_intents:
  assumes "\<not> blank cid"
  shows "\<exists>ints. prepare_intents cid ''binance'' scenario_instrument (bs_end_time scenario_bars) [scripted_decision] = Inr ints"
proof -
  have "passes (execution_intent_checks \<lparr>ei_intent_id = cid @ '':'' @ ''breakout_v1'', ei_venue = ''binance'',
      ei_instrument_id = ''BTC-USDT'', ei_side = BUY, ei_order_type = MARKET, ei_time_in_force = IOC, ei_quantity = Dec 1,
      ei_submitted_at = scenario_time 0 2, ei_source_strategy = ''breakout_v1'',
      ei_rationale = ''restricted-live prepared intent pending future exchange execution'', ei_limit_price = None,
      ei_reduce_only = False\<rparr>)"
    using assms by (simp add: execution_intent_checks_def scenario_time_def blank_def py_space_def less_eq_decimal_def)
  moreover have "(1 :: decimal) \<noteq> 0" by (simp add: decimal_eq_iff)
  ultimately show ?thesis
    by (simp add: prepare_intents_def scripted_decision_def scripted_signal_def scenario_instrument_def
        scenario_bars_def prepared_quantity_def mk_execution_intent_def r_bind_Inr)
qed

text \<open>A cycle completes whenever the gate answers with readable alerts, and its answer is what is recorded.\<close>

lemma scenario_cycle_completes:
  assumes d: "scenario_delegate clock texts plan p expected already (ts, x\<lparr>se_ticks := se_ticks x + 1\<rparr>)
      = Inr (r, (ts', x\<lparr>se_ticks := se_ticks x + 1\<rparr>))"
    and alerts: "\<forall>a\<in>set (mo_alerts (gr_outcome r)). \<not> blank a" and cid: "\<not> blank cid"
    and clock: "\<And>n. is_utc (clock n)" "\<And>n. dt_le (clock n) (clock (n + 1))"
  shows "\<exists>c h. restricted_live_cycle default_lag (scenario_context clock texts plan) cid scenario_instrument scenario_bars None
      p expected already (g, (ts, x)) = Inr (c, (Some r, (ts', x\<lparr>se_ticks := se_ticks x + 3,
        se_records := se_records x @ [(c, Some h)]\<rparr>))) \<and> rc_alerts c \<noteq> [] \<and>
    rc_reconciliation_events c = mo_events (gr_outcome r) \<and>
    h = build_snapshot ''binance'' (fp_stream_health plan) (map_option tx_workflow (gr_transport r)) None
      (case gr_transport r of None \<Rightarrow> [] | Some tx \<Rightarrow> tx_query_health tx) (Option.bind (gr_transport r) tx_snapshot)
      (clock (se_ticks x + 2))"
proof -
  let ?cx = "scenario_context clock texts plan"
  have i: "in_instrument_id scenario_instrument = bs_instrument_id scenario_bars"
    and f: "ft_instrument_id scripted_snapshot = bs_instrument_id scenario_bars"
      "ft_timeframe scripted_snapshot = bs_timeframe scenario_bars"
    by (simp_all add: scenario_instrument_def scenario_bars_def scripted_snapshot_def)
  obtain dc where dc: "build_context ?cx cid scenario_instrument scenario_bars p scripted_snapshot = Inr dc"
    "dc_latest_candle dc = last (bs_candles scenario_bars)" "dc_instrument dc = scenario_instrument"
    "dc_features dc = scripted_snapshot" "dc_as_of dc = bs_end_time scenario_bars"
    using build_context_total [OF scenario_bars_valid(1,2) cid i f] by blast
  have none: "dc_index_snapshot_status dc = None" "dc_stablecoin_snapshot_status dc = None"
    using dc(1) by (auto simp: build_context_def index_of_def stable_of_def mk_decision_context_def)
  let ?q = "evaluate_quality default_lag MODE_RESTRICTED_LIVE ?cx dc None"
  have q: "qe_states ?q = []" "qe_details ?q = []" "\<not> qe_fail_closed ?q"
    by (simp_all add: evaluate_quality_def Let_def dc(2) none context_issues_def snapshot_issues_def scenario_bars_def
        scenario_candle_def should_fail_closed_def)
  note parts = scripted_decisions [OF dc(3-5)]
  obtain ints where ints: "prepare_intents cid ''binance'' scenario_instrument (bs_end_time scenario_bars) [scripted_decision] = Inr ints"
    using scripted_intents [OF cid] by blast
  let ?x1 = "x\<lparr>se_ticks := se_ticks x + 1\<rparr>"
  obtain al ok where cg: "consult_gate ?cx p expected already (g, (ts, ?x1)) = Inr ((mo_events (gr_outcome r), al, ok), (Some r, (ts', ?x1)))"
    "\<forall>a\<in>set al. \<not> blank a"
    using d alerts by (cases "mo_attempted (gr_outcome r)"; cases "mo_applied (gr_outcome r)")
      (auto simp: consult_gate_def recording_gate_def blank_def py_space_def)
  let ?c = "\<lparr>rc_cycle_id = cid, rc_started_at = clock (se_ticks x), rc_completed_at = clock (se_ticks x + 1),
    rc_processed_instruments = [in_instrument_id scenario_instrument], rc_signals = [scripted_signal],
    rc_risk_decisions = [scripted_decision], rc_execution_intents = ints,
    rc_reconciliation_events = mo_events (gr_outcome r),
    rc_quality_states = qe_states ?q, rc_quality_details = qe_details ?q,
    rc_alerts = dedup ([''restricted-live mode prepared intents only'',
      ''exchange execution remains future work''] @ qe_details ?q @ al), rc_success = ok\<rparr>"
  have time: "\<not> dt_less (clock (se_ticks x + 1)) (clock (se_ticks x))"
    using clock(2) [of "se_ticks x"] by (simp add: dt_less_def dt_le_def)
  have c: "mk_cycle_result ?c = Inr ?c"
    using cg(2) cid clock(1) time by (auto simp: cycle_result_checks_def scenario_instrument_def blank_def py_space_def q
        simp del: dedup.simps)
  let ?h = "build_snapshot ''binance'' (fp_stream_health plan) (map_option tx_workflow (gr_transport r)) None
      (case gr_transport r of None \<Rightarrow> [] | Some tx \<Rightarrow> tx_query_health tx) (Option.bind (gr_transport r) tx_snapshot)
      (clock (se_ticks x + 2))"
  let ?w = "(Some r, (ts', x\<lparr>se_ticks := se_ticks x + 3, se_records := se_records x @ [(?c, Some ?h)]\<rparr>))"
  have p: "persist ?cx ?c scripted_snapshot dc (Some r, (ts', x\<lparr>se_ticks := se_ticks x + 2\<rparr>)) = Inr (?c, ?w)"
    by (simp add: persist_def exchange_health_def current_or_unknown_def Let_def scenario_health_def current_health_def
        read_clock_def)
  have venue: "py_or (Some ''binance'') [] = ''binance''" by (simp add: py_or_def)
  have now: "cx_now ?cx (Some r, (ts', ?x1)) = (clock (se_ticks x + 1), (Some r, (ts', x\<lparr>se_ticks := se_ticks x + 2\<rparr>)))"
    by simp
  have cyc: "prepared_cycle ?cx cid scenario_instrument scenario_bars p expected already scripted_snapshot dc ?q
      (clock (se_ticks x)) (g, (ts, ?x1)) = Inr (?c, ?w)"
    unfolding prepared_cycle_def scenario_context_parts(3,4,7,8) parts r_bind_simps venue ints cg(1) prod.case now
      Let_def c p by (rule refl)
  have ne: "rc_alerts ?c \<noteq> []" "rc_reconciliation_events ?c = mo_events (gr_outcome r)" by simp_all
  show ?thesis
    unfolding restricted_live_cycle_def Let_def scenario_context_parts scenario_bars_valid(3) prod.case
    using scripted_parts dc(1) q(3) cyc ne by (intro exI [of _ ?c] exI [of _ ?h]) (simp del: dedup.simps)
qed

definition stream_text :: "cycle_plan \<Rightarrow> string" where
  "stream_text plan = health_value (ch_state (private_stream_component (fp_stream_health plan)))"

definition plan_reconnects :: "cycle_plan \<Rightarrow> int" where
  "plan_reconnects plan = (case fp_stream_health plan of None \<Rightarrow> 0 | Some h \<Rightarrow> sh_reconnect_attempts h)"

text \<open>The record of a cycle without payloads.\<close>

definition quiet_record :: "cycle_plan \<Rightarrow> failure_record \<Rightarrow> bool" where
  "quiet_record plan rec \<longleftrightarrow>
     \<not> fr_applied rec \<and> fr_blocked_reasons rec = [] \<and> fr_ignored_fill_ids rec = [] \<and> fr_reconciliation_states rec = [] \<and>
     fr_trigger_reason rec = None \<and> fr_convergence rec = None \<and> fr_health rec = Some (stream_text plan) \<and>
     fr_private_stream rec = Some (stream_text plan) \<and> fr_reconnect_attempts rec = plan_reconnects plan \<and>
     fr_alerts rec \<noteq> []"

lemma overall_alone: "overall_state [s, HEALTH_UNKNOWN, HEALTH_UNKNOWN, HEALTH_UNKNOWN] = s"
  by (cases s) (simp_all add: overall_state_def)

lemma quiet_delegate:
  "fp_payloads plan = [] \<Longrightarrow> scenario_delegate clock texts plan p expected already (ts, x) = Inr (no_payloads p, (ts, x))"
  by (simp add: scenario_delegate_def live_delegate_def apply_with_details_def)

lemma quiet_plan_cycle:
  assumes "fp_payloads plan = []" and "distinct (ss_already s)"
    and clock: "\<And>n. is_utc (clock n)" "\<And>n. dt_le (clock n) (clock (n + 1))"
  shows "\<exists>rec. plan_cycle clock texts sid i plan s
      = Inr ((rec, no_payloads (ss_portfolio s)), s\<lparr>ss_ticks := ss_ticks s + 3\<rparr>) \<and> quiet_record plan rec"
proof -
  let ?r = "no_payloads (ss_portfolio s)"
  let ?x = "\<lparr>se_ticks = ss_ticks s, se_records = []\<rparr>"
  let ?h = "build_snapshot ''binance'' (fp_stream_health plan) None None [] None (clock (ss_ticks s + 2))"
  have tx: "gr_transport ?r = None" and al: "\<forall>a\<in>set (mo_alerts (gr_outcome ?r)). \<not> blank a"
    and ev: "mo_events (gr_outcome ?r) = []" and bl: "blocked_alerts (gr_outcome ?r) = []"
    by (simp_all add: no_payloads_def Let_def blank_def py_space_def blocked_alerts_def)
  have cid: "\<not> blank (sid @ ''-'' @ fp_label plan)" by (simp add: blank_def py_space_def)
  obtain c where c: "restricted_live_cycle default_lag (scenario_context clock texts plan) (sid @ ''-'' @ fp_label plan)
      scenario_instrument scenario_bars None (ss_portfolio s) (fp_expected_order_ids plan) (ss_already s)
      (None, (((fp_lookup_results plan, None), ss_store s), ?x))
    = Inr (c, (Some ?r, (((fp_lookup_results plan, None), ss_store s), ?x\<lparr>se_ticks := se_ticks ?x + 3,
        se_records := se_records ?x @ [(c, Some ?h)]\<rparr>)))" "rc_alerts c \<noteq> []" "rc_reconciliation_events c = []"
    using scenario_cycle_completes [of clock texts plan "ss_portfolio s" "fp_expected_order_ids plan" "ss_already s"
        "((fp_lookup_results plan, None), ss_store s)" ?x ?r "((fp_lookup_results plan, None), ss_store s)"
        "sid @ ''-'' @ fp_label plan" None, OF quiet_delegate [OF assms(1)] al cid] clock
    unfolding tx ev option.map option.case Option.bind.simps scenario_env.select_convs by blast
  have v: "validated check_restricted_live (scenario_context clock texts plan) = Inr (scenario_context clock texts plan)"
    by (simp add: check_restricted_live_def truthy_def)
  let ?rec = "failure_record_of i plan c ?r (Some ?h)"
  have "plan_cycle clock texts sid i plan s = Inr ((?rec, ?r), s\<lparr>ss_ticks := ss_ticks s + 3\<rparr>)"
    unfolding plan_cycle_def Let_def v r_bind_simps c(1) prod.case option.case
    using assms(2) by (simp add: latest_health_def after_cycle_def dedup_distinct)
  moreover have "quiet_record plan ?rec"
    unfolding quiet_record_def failure_record_of_def Let_def tx bl
    by (simp add: c(2,3) stream_text_def plan_reconnects_def overall_alone reconciliation_component_def
        status_query_component_def)
  ultimately show ?thesis by blast
qed

lemma quiet_plan_cycles:
  assumes "\<forall>plan\<in>set plans. fp_payloads plan = []" and "distinct (ss_already s)"
    and clock: "\<And>n. is_utc (clock n)" "\<And>n. dt_le (clock n) (clock (n + 1))"
  shows "\<exists>xs n. plan_cycles clock texts sid i plans s = Inr (xs, s\<lparr>ss_ticks := n\<rparr>) \<and>
    list_all2 quiet_record plans (map fst xs)"
  using assms(1,2)
proof (induction plans arbitrary: i s)
  case Nil
  have "plan_cycles clock texts sid i [] s = Inr ([], s\<lparr>ss_ticks := ss_ticks s\<rparr>)" by simp
  then show ?case by (metis list.simps(8) list_all2_Nil)
next
  case (Cons plan plans)
  obtain rec where 1: "plan_cycle clock texts sid i plan s
      = Inr ((rec, no_payloads (ss_portfolio s)), s\<lparr>ss_ticks := ss_ticks s + 3\<rparr>)" "quiet_record plan rec"
    using quiet_plan_cycle [of plan s clock texts sid i] Cons.prems clock by auto
  obtain xs n where 2: "plan_cycles clock texts sid (i + 1) plans (s\<lparr>ss_ticks := ss_ticks s + 3\<rparr>)
      = Inr (xs, s\<lparr>ss_ticks := n\<rparr>)" "list_all2 quiet_record plans (map fst xs)"
    using Cons.IH [of "s\<lparr>ss_ticks := ss_ticks s + 3\<rparr>" "i + 1"] Cons.prems by auto
  have "plan_cycles clock texts sid i (plan # plans) s
      = Inr ((rec, no_payloads (ss_portfolio s)) # xs, s\<lparr>ss_ticks := n\<rparr>)"
    using 1(1) 2(1) by simp
  with 1(2) 2(2) show ?case by (intro exI conjI) auto
qed

text \<open>What the summary of quiet records says.\<close>

lemma quiet_all:
  assumes "list_all2 quiet_record plans records"
  shows "map fr_private_stream records = map (Some \<circ> stream_text) plans"
    and "map fr_health records = map (Some \<circ> stream_text) plans"
    and "map fr_reconnect_attempts records = map plan_reconnects plans"
    and "\<forall>r\<in>set records. \<not> fr_applied r \<and> fr_blocked_reasons r = [] \<and> fr_ignored_fill_ids r = [] \<and>
      fr_reconciliation_states r = [] \<and> fr_trigger_reason r = None \<and> fr_convergence r = None \<and>
      fr_health r \<noteq> None \<and> fr_alerts r \<noteq> []"
  using assms by (induction plans records rule: list_all2_induct) (auto simp: quiet_record_def)

lemma opt_values_Some [simp]: "opt_values (map (Some \<circ> f) xs) = map f xs"
  by (induction xs) (simp_all add: opt_values_def)

lemma quiet_summary:
  assumes "list_all2 quiet_record plans records" and "plans \<noteq> []"
  shows "\<exists>sm. build_summary sc now records = Inr sm \<and> fy_applied sm = 0 \<and>
    fy_final_health sm = Some (stream_text (last plans)) \<and>
    fy_reconnect_high_watermark sm = foldl max (plan_reconnects (hd plans)) (map plan_reconnects (tl plans)) \<and>
    (fy_passed sm \<longleftrightarrow> \<not> (fx_final_applied sc \<or> fx_expect_recovery sc \<or> fx_expect_manual sc \<or>
      fx_expect_blocked sc \<or> fx_expect_duplicate sc) \<and>
      (fx_expect_degraded sc \<longrightarrow> (\<exists>plan\<in>set plans. stream_text plan \<in> {''degraded'', ''fatal''})))"
proof -
  note q = quiet_all [OF assms(1)]
  have ne: "records \<noteq> []" using assms by auto
  then have l: "last records \<in> set records" and h: "hd records \<in> set records" by simp_all
  have blocks: "filter (\<lambda>r. fr_blocked_reasons r \<noteq> []) records = []"
    and app: "filter fr_applied records = []"
    and trig: "filter (\<lambda>r. truthy (fr_trigger_reason r) \<and> fr_trigger_reason r \<noteq> Some ''not_required'') records = []"
    using q(4) by (simp_all add: filter_empty_conv truthy_def)
  have ign: "map (\<lambda>r. length (fr_ignored_fill_ids r)) records = map (\<lambda>r. 0) records"
    using q(4) by simp
  then have ignored: "sum_list (map (\<lambda>r. length (fr_ignored_fill_ids r)) records) = 0"
    by (simp add: map_replicate_const sum_list_replicate)
  have manual: "\<not> list_ex (\<lambda>r. ''unreconciled_manual_attention'' \<in> set (fr_reconciliation_states r)
      \<or> fr_convergence r = Some ''unreconciled_manual_attention'') records"
    using q(4) by (simp add: list_ex_iff)
  have visible: "list_ex (\<lambda>r. fr_health r \<noteq> None \<and>
      (fr_alerts r \<noteq> [] \<or> truthy (fr_trigger_reason r) \<or> fr_blocked_reasons r \<noteq> [])) records"
    unfolding list_ex_iff using q(4) l by blast
  have states: "dedup (opt_values (map fr_health records)) = dedup (map stream_text plans)" by (simp add: q(2))
  have fin: "fr_health (last records) = Some (stream_text (last plans))"
    using arg_cong [OF q(2), of last] ne assms(2) by (simp add: last_map)
  have "map fr_reconnect_attempts (tl records) = map plan_reconnects (tl plans)"
    "fr_reconnect_attempts (hd records) = plan_reconnects (hd plans)"
    using arg_cong [OF q(3), of tl] arg_cong [OF q(3), of hd] ne assms(2) by (simp_all add: map_tl hd_map)
  moreover have "\<not> fr_applied (last records)" using q(4) l by blast
  ultimately show ?thesis
    unfolding build_summary_def Let_def blocks app trig ignored states
    using ne manual visible fin by (simp add: opt_values_def list_ex_iff)
qed

text \<open>
  C28. A failure scenario whose cycles bring no private payloads completes with a verdict: over any UTC
  clock that does not run back and any state file, nothing is applied, the portfolio and the state file
  stay, every cycle shows the operator the health of the scripted stream, and the scenario passes exactly
  when it expects no mutation, recovery, blocking or duplicate, and expects degraded health only where a
  scripted stream is degraded or terminated.
\<close>

theorem quiet_scenario_completes:
  assumes "fx_cycles sc \<noteq> []" and "\<forall>plan\<in>set (fx_cycles sc). fp_payloads plan = []"
    and "\<And>n. is_utc (clock n)" and "\<And>n. dt_le (clock n) (clock (n + 1))"
  shows "\<exists>sm records s'. run_scenario clock texts sc store n = Inr ((sm, records), s') \<and>
    ss_portfolio s' = scenario_portfolio \<and> ss_already s' = [] \<and> ss_store s' = store \<and> fy_applied sm = 0 \<and>
    map fr_private_stream records = map (Some \<circ> stream_text) (fx_cycles sc) \<and>
    fy_final_health sm = Some (stream_text (last (fx_cycles sc))) \<and>
    fy_reconnect_high_watermark sm
      = foldl max (plan_reconnects (hd (fx_cycles sc))) (map plan_reconnects (tl (fx_cycles sc))) \<and>
    (fy_passed sm \<longleftrightarrow> \<not> (fx_final_applied sc \<or> fx_expect_recovery sc \<or> fx_expect_manual sc \<or>
      fx_expect_blocked sc \<or> fx_expect_duplicate sc) \<and>
      (fx_expect_degraded sc \<longrightarrow> (\<exists>plan\<in>set (fx_cycles sc). stream_text plan \<in> {''degraded'', ''fatal''})))"
proof -
  let ?s = "scenario_start store n"
  have d: "distinct (ss_already ?s)" by (simp add: scenario_start_def)
  obtain xs m where run: "plan_cycles clock texts (fx_id sc) 1 (fx_cycles sc) ?s = Inr (xs, ?s\<lparr>ss_ticks := m\<rparr>)"
    and q: "list_all2 quiet_record (fx_cycles sc) (map fst xs)"
    using quiet_plan_cycles [OF assms(2) d, of clock texts "fx_id sc" 1] assms(3,4) by blast
  obtain sm where sm: "build_summary sc (clock m) (map fst xs) = Inr sm"
    and facts: "fy_applied sm = 0"
    "fy_final_health sm = Some (stream_text (last (fx_cycles sc)))"
    "fy_reconnect_high_watermark sm
      = foldl max (plan_reconnects (hd (fx_cycles sc))) (map plan_reconnects (tl (fx_cycles sc)))"
    "fy_passed sm \<longleftrightarrow> \<not> (fx_final_applied sc \<or> fx_expect_recovery sc \<or> fx_expect_manual sc \<or>
      fx_expect_blocked sc \<or> fx_expect_duplicate sc) \<and>
      (fx_expect_degraded sc \<longrightarrow> (\<exists>plan\<in>set (fx_cycles sc). stream_text plan \<in> {''degraded'', ''fatal''}))"
    using quiet_summary [OF q assms(1)] by blast
  have "run_scenario clock texts sc store n = Inr ((sm, map fst xs), ?s\<lparr>ss_ticks := m + 1\<rparr>)"
    using run sm by (simp add: run_scenario_def)
  moreover have "ss_portfolio (?s\<lparr>ss_ticks := m + 1\<rparr>) = scenario_portfolio" "ss_already (?s\<lparr>ss_ticks := m + 1\<rparr>) = []"
    "ss_store (?s\<lparr>ss_ticks := m + 1\<rparr>) = store" by (simp_all add: scenario_start_def)
  ultimately show ?thesis using facts quiet_all(1) [OF q] by blast
qed

section \<open>Witnesses\<close>

definition sample_clock :: "nat \<Rightarrow> datetime" where
  "sample_clock n = utc (int n)"

lemma sample_clock_parts: "is_utc (sample_clock n)" "dt_le (sample_clock n) (sample_clock (n + 1))"
  by (simp_all add: sample_clock_def dt_le_def)

text \<open>The default reconnect storms: the scenario passes with its high watermark.\<close>

lemma quiet_scenario_completes_witness:
  "\<exists>sm records s'. run_scenario sample_clock sample_env websocket_reconnect_storms None 0 = Inr ((sm, records), s') \<and>
     fy_passed sm \<and> fy_final_health sm = Some ''degraded'' \<and> fy_reconnect_high_watermark sm = 8"
proof -
  have p: "fx_cycles websocket_reconnect_storms \<noteq> []"
    "\<forall>plan\<in>set (fx_cycles websocket_reconnect_storms). fp_payloads plan = []"
    by (simp_all add: websocket_reconnect_storms_def default_plan_def)
  show ?thesis
    using quiet_scenario_completes [OF p, of sample_clock sample_env None 0] sample_clock_parts
    by (auto simp: websocket_reconnect_storms_def default_plan_def private_health_def stream_text_def plan_reconnects_def
        private_stream_component_def)
qed

lemma scenario_applies_each_fill_once_witness:
  "\<exists>sm records s' rs. run_scenario sample_clock sample_env websocket_reconnect_storms None 0 = Inr ((sm, records), s') \<and>
     plans_answered sample_clock sample_env (fx_cycles websocket_reconnect_storms) scenario_portfolio [] rs \<and>
     map fr_index records = [1, 2, 3] \<and> ss_already s' = concat (map applied_ids rs)"
proof -
  have p: "\<forall>plan\<in>set (fx_cycles websocket_reconnect_storms). fp_payloads plan = []"
    "fx_cycles websocket_reconnect_storms \<noteq> []" "length (fx_cycles websocket_reconnect_storms) = 3"
    by (simp_all add: websocket_reconnect_storms_def default_plan_def)
  have d: "distinct (ss_already (scenario_start None 0))" by (simp add: scenario_start_def)
  obtain xs m where run: "plan_cycles sample_clock sample_env (fx_id websocket_reconnect_storms) 1
      (fx_cycles websocket_reconnect_storms) (scenario_start None 0) = Inr (xs, (scenario_start None 0)\<lparr>ss_ticks := m\<rparr>)"
    and q: "list_all2 quiet_record (fx_cycles websocket_reconnect_storms) (map fst xs)"
    using quiet_plan_cycles [OF p(1) d, of sample_clock sample_env "fx_id websocket_reconnect_storms" 1] sample_clock_parts
    by blast
  obtain sm where "build_summary websocket_reconnect_storms (sample_clock m) (map fst xs) = Inr sm"
    using quiet_summary [OF q p(2)] by blast
  with run have "run_scenario sample_clock sample_env websocket_reconnect_storms None 0
      = Inr ((sm, map fst xs), (scenario_start None 0)\<lparr>ss_ticks := m + 1\<rparr>)"
    by (simp add: run_scenario_def)
  moreover have "[1..<length (fx_cycles websocket_reconnect_storms) + 1] = [1, 2, 3]" by (simp add: p(3) upt_rec)
  ultimately show ?thesis using scenario_applies_each_fill_once by metis
qed

end
