(* ===== verification/Disruption.thy ===== *)
theory Disruption
  imports FailureInjection
begin

text \<open>
  \<open>app/monitoring/reconciliation_disruption.py\<close>: scripted reconciliations over one state file, step after
  step, and the verdict on them. The workflow log is the list of the workflows appended to it. The
  coordination time of each step, which the code reads from the clock, is a parameter. Writing the
  artifacts is not modelled.
\<close>

section \<open>Scenarios and records\<close>

record disruption_step =
  dp_id :: string
  dp_expected :: "string list"
  dp_payloads :: "payload list"
  dp_lookups :: "lookup_result list"
  dp_has_gap :: bool

record disruption_scenario =
  dx_id :: string
  dx_description :: string
  dx_steps :: "disruption_step list"
  dx_final_convergence :: string
  dx_expect_manual :: bool
  dx_expect_recovery :: bool

record disruption_record =
  dr_index :: nat
  dr_step_id :: string
  dr_matched :: "string list"
  dr_missing :: "string list"
  dr_unknown :: "string list"
  dr_attempts :: nat
  dr_summaries :: nat
  dr_trigger_reason :: "string option"
  dr_automatic :: bool
  dr_convergence :: "string option"
  dr_manual_attention :: bool
  dr_query_states :: "string list"
  dr_unresolved :: "string list"
  dr_alerts :: "string list"

record disruption_summary =
  dy_id :: string
  dy_description :: string
  dy_passed :: bool
  dy_total_steps :: nat
  dy_total_attempts :: nat
  dy_persisted_attempts :: nat
  dy_trigger_reasons :: "string list"
  dy_convergences :: "string list"
  dy_final_convergence :: "string option"
  dy_manual_attention :: bool
  dy_unresolved :: "string list"
  dy_alerts :: "string list"
  dy_recorded_at :: datetime

section \<open>The run of a scenario\<close>

abbreviation disruption_transport :: string where
  "disruption_transport \<equiv> ''reconciliation_disruption_lookup_transport''"

definition disruption_service ::
    "(nat \<Rightarrow> datetime) \<Rightarrow> text_env \<Rightarrow> string \<Rightarrow> nat \<Rightarrow> disruption_step \<Rightarrow> service_env" where
  "disruption_service clock texts scenario_id i step =
     \<lparr>sv_max_rounds = 3, sv_coordinator = default_coordinator, sv_client = default_stream_client,
      sv_translator = \<lparr>tr_version = ''binance.private.v1'', tr_venue = ''binance'', tr_scope = ''spot'',
        tr_mappings = [\<lparr>sm_instrument_id = ''BTC-USDT'', sm_venue_symbol = ''BTCUSDT''\<rparr>]\<rparr>,
      sv_text = texts, sv_session = None, sv_cursor = Some (scenario_id @ '':'' @ dp_id step),
      sv_has_gap = dp_has_gap step, sv_effective_time = scenario_time 0 (int i), sv_coordination_time = clock i\<rparr>"

definition disruption_record_of ::
    "nat \<Rightarrow> disruption_step \<Rightarrow> transport_result \<Rightarrow> cursor_snapshot \<Rightarrow> disruption_record" where
  "disruption_record_of i step r snap =
     (let w = tx_workflow r; rr = tx_reconciliation r in
      \<lparr>dr_index = i, dr_step_id = dp_id step, dr_matched = rr_matched rr, dr_missing = rr_missing rr,
       dr_unknown = rr_unknown_ids rr, dr_attempts = length (wr_attempts w), dr_summaries = length (wr_summaries w),
       dr_trigger_reason = wr_trigger_reason w, dr_automatic = wr_automatic w, dr_convergence = wr_convergence w,
       dr_manual_attention = list_ex (\<lambda>s. case os_reconciliation_state s of None \<Rightarrow> False
         | Some st \<Rightarrow> recon_state_value st = ''unreconciled_manual_attention'') (wr_order_states w),
       dr_query_states = map (\<lambda>h. query_state_value (qh_state h)) (tx_query_health r),
       dr_unresolved = cu_unresolved snap, dr_alerts = wr_alerts w\<rparr>)"

text \<open>One step: the record, the workflow appended to the log, and the state file it leaves.\<close>

definition run_disruption_step ::
    "(nat \<Rightarrow> datetime) \<Rightarrow> text_env \<Rightarrow> string \<Rightarrow> nat \<Rightarrow> disruption_step \<Rightarrow> json_store
      \<Rightarrow> ((disruption_record \<times> workflow_result) \<times> json_store) result" where
  "run_disruption_step clock texts scenario_id i step store =
     r_bind (reconcile_with_transports (disruption_service clock texts scenario_id i step)
         (scripted_ops disruption_transport) (Some json_store_ops) (dp_expected step) (dp_payloads step)
         ((dp_lookups step, None), store)) (\<lambda>(r, (t, store')).
       Inr ((disruption_record_of i step r (load_snapshot store'), tx_workflow r), store'))"

fun run_disruption_steps ::
    "(nat \<Rightarrow> datetime) \<Rightarrow> text_env \<Rightarrow> string \<Rightarrow> nat \<Rightarrow> disruption_step list \<Rightarrow> json_store
      \<Rightarrow> ((disruption_record \<times> workflow_result) list \<times> json_store) result" where
  "run_disruption_steps clock texts sid i [] store = Inr ([], store)"
| "run_disruption_steps clock texts sid i (step # steps) store =
     r_bind (run_disruption_step clock texts sid i step store) (\<lambda>(x, store1).
     r_bind (run_disruption_steps clock texts sid (i + 1) steps store1) (\<lambda>(xs, store2). Inr (x # xs, store2)))"

definition disruption_summary_of ::
    "disruption_scenario \<Rightarrow> datetime \<Rightarrow> disruption_record list \<Rightarrow> cursor_snapshot \<Rightarrow> disruption_summary result" where
  "disruption_summary_of sc now records snap =
     (let reasons = dedup (opt_values (map dr_trigger_reason
            (filter (\<lambda>r. truthy (dr_trigger_reason r) \<and> dr_trigger_reason r \<noteq> Some ''not_required'') records)));
          manual = list_ex dr_manual_attention records
      in if records = [] then Inl IndexError
         else Inr \<lparr>dy_id = dx_id sc, dy_description = dx_description sc,
           dy_passed = (dr_convergence (last records) = Some (dx_final_convergence sc)
             \<and> (dx_expect_manual sc \<longrightarrow> manual) \<and> (dx_expect_recovery sc \<longrightarrow> reasons \<noteq> [])),
           dy_total_steps = length records, dy_total_attempts = sum_list (map dr_attempts records),
           dy_persisted_attempts = length (cu_attempts snap), dy_trigger_reasons = reasons,
           dy_convergences = dedup (opt_values (map dr_convergence records)),
           dy_final_convergence = dr_convergence (last records), dy_manual_attention = manual,
           dy_unresolved = cu_unresolved snap, dy_alerts = dedup (concat (map dr_alerts records)),
           dy_recorded_at = now\<rparr>)"

definition run_disruption ::
    "(nat \<Rightarrow> datetime) \<Rightarrow> text_env \<Rightarrow> disruption_scenario \<Rightarrow> json_store
      \<Rightarrow> ((disruption_summary \<times> disruption_record list) \<times> (workflow_result list \<times> json_store)) result" where
  "run_disruption clock texts sc store =
     r_bind (run_disruption_steps clock texts (dx_id sc) 1 (dx_steps sc) store) (\<lambda>(xs, store').
     r_bind (disruption_summary_of sc (clock (length (dx_steps sc) + 1)) (map fst xs) (load_snapshot store'))
       (\<lambda>summary. Inr ((summary, map fst xs), (map snd xs, store'))))"

section \<open>The default campaign\<close>

definition disruption_success :: "string \<Rightarrow> string \<Rightarrow> lookup_result" where
  "disruption_success = answered_lookup disruption_transport"

definition partial_trade_payload :: "int \<Rightarrow> int \<Rightarrow> string \<Rightarrow> string \<Rightarrow> payload" where
  "partial_trade_payload order_id trade_id cumulative last_quantity =
     [(''e'', JStr ''executionReport''), (''E'', JInt 1773360005000), (''s'', JStr ''BTCUSDT''),
      (''c'', JStr (''client-'' @ int_str order_id)), (''S'', JStr ''BUY''), (''o'', JStr ''LIMIT''),
      (''X'', JStr ''PARTIALLY_FILLED''), (''x'', JStr ''TRADE''), (''q'', JStr ''1.0''), (''z'', JStr cumulative),
      (''l'', JStr last_quantity), (''L'', JStr ''101500''), (''Z'', JStr ''40600''), (''n'', JStr ''0.05''),
      (''N'', JStr ''USDT''), (''i'', JInt order_id), (''t'', JInt trade_id), (''p'', JStr ''101500''),
      (''m'', JBool True)]"

definition private_event_loss :: disruption_scenario where
  "private_event_loss =
     \<lparr>dx_id = ''private_event_loss'',
      dx_description = ''private event loss triggers automatic REST recovery and terminal convergence'',
      dx_steps = [\<lparr>dp_id = ''gap-recovery'', dp_expected = [''6101''], dp_payloads = [],
        dp_lookups = [disruption_success ''6101'' ''filled''], dp_has_gap = True\<rparr>],
      dx_final_convergence = ''converged_terminal'', dx_expect_manual = False, dx_expect_recovery = True\<rparr>"

definition delayed_status_query :: disruption_scenario where
  "delayed_status_query =
     \<lparr>dx_id = ''delayed_status_query'',
      dx_description = ''status lookup stays pending first, then converges on a later retry'',
      dx_steps =
        [\<lparr>dp_id = ''pending'', dp_expected = [''6201''], dp_payloads = [],
          dp_lookups = [disruption_success ''6201'' ''new'', disruption_success ''6201'' ''new'',
            disruption_success ''6201'' ''new''], dp_has_gap = True\<rparr>,
         \<lparr>dp_id = ''resolved'', dp_expected = [], dp_payloads = [],
          dp_lookups = [disruption_success ''6201'' ''filled''], dp_has_gap = True\<rparr>],
      dx_final_convergence = ''converged_terminal'', dx_expect_manual = False, dx_expect_recovery = True\<rparr>"

definition duplicated_execution_reports :: disruption_scenario where
  "duplicated_execution_reports =
     \<lparr>dx_id = ''duplicated_execution_reports'',
      dx_description = ''duplicate execution reports stay deterministic without manual-attention escalation'',
      dx_steps = [\<lparr>dp_id = ''duplicate-trades'', dp_expected = [''6301''],
        dp_payloads = [filled_trade_payload 6301 16301, filled_trade_payload 6301 16301], dp_lookups = [],
        dp_has_gap = False\<rparr>],
      dx_final_convergence = ''not_required'', dx_expect_manual = False, dx_expect_recovery = False\<rparr>"

definition partial_fill_reorder :: disruption_scenario where
  "partial_fill_reorder =
     \<lparr>dx_id = ''partial_fill_reorder'',
      dx_description = ''reordered partial fills remain deterministic and avoid unnecessary escalation'',
      dx_steps =
        [\<lparr>dp_id = ''late-partial'', dp_expected = [''6401''],
          dp_payloads = [partial_trade_payload 6401 26402 ''0.5'' ''0.2''], dp_lookups = [], dp_has_gap = False\<rparr>,
         \<lparr>dp_id = ''early-partial-arrives-late'', dp_expected = [''6401''],
          dp_payloads = [partial_trade_payload 6401 26401 ''0.3'' ''0.3''], dp_lookups = [], dp_has_gap = False\<rparr>],
      dx_final_convergence = ''not_required'', dx_expect_manual = False, dx_expect_recovery = False\<rparr>"

definition default_disruption_scenarios :: "disruption_scenario list" where
  "default_disruption_scenarios =
     [private_event_loss, delayed_status_query, duplicated_execution_reports, partial_fill_reorder]"

section \<open>Facts\<close>

lemma disruption_step_Inr:
  assumes "run_disruption_step clock texts sid i step store = Inr ((rec, w), store')"
  obtains r t where "reconcile_with_transports (disruption_service clock texts sid i step)
      (scripted_ops disruption_transport) (Some json_store_ops) (dp_expected step) (dp_payloads step)
      ((dp_lookups step, None), store) = Inr (r, (t, store'))"
    and "w = tx_workflow r" and "rec = disruption_record_of i step r (load_snapshot store')"
  using assms unfolding run_disruption_step_def by (auto simp: r_bind_Inr)

lemma disruption_record_fields [simp]:
  "dr_index (disruption_record_of i step r snap) = i"
  "dr_unresolved (disruption_record_of i step r snap) = cu_unresolved snap"
  "dr_convergence (disruption_record_of i step r snap) = wr_convergence (tx_workflow r)"
  "dr_attempts (disruption_record_of i step r snap) = length (wr_attempts (tx_workflow r))"
  by (simp_all add: disruption_record_of_def Let_def)

text \<open>A step with a gap detects it and leaves it in the state file.\<close>

lemma step_gap:
  assumes "reconcile_with_transports sv ops (Some json_store_ops) expected payloads (t, s) = Inr (r, (t', s'))"
    and "sv_has_gap sv \<or> cu_gap_active (load_snapshot s)"
  shows "wr_gap_detected (tx_workflow r) \<and> cu_gap_active (load_snapshot s')"
proof -
  obtain batch trs where run: "run_recovery sv ops (Some json_store_ops)
      (resumed_expected (Some json_store_ops) s expected) batch trs (t, s) = Inr (r, (t', s'))"
    using reconcile_rest_Inr [OF assms(1)] by blast
  have gap: "gap_detected (Some json_store_ops) s (sv_has_gap sv) batch"
    using assms(2) by (auto simp: gap_detected_def resume_snapshot_def json_store_ops_def)
  obtain s1 g where p: "persist_workflow_state (tx_workflow r) (sv_effective_time sv) (sv_cursor sv) g s1
      = (load_snapshot s', s')" and "g"
    using json.run_recovery_persists [OF run [unfolded json_store_ops_def]] assms(2) by blast
  then have "cu_gap_active (load_snapshot s')"
    by (auto simp: persist_workflow_state_def Let_def next_snapshot_def load_snapshot_def)
  moreover have "wr_gap_detected (tx_workflow r)"
    using run by (rule run_recovery_Inr) (simp add: finish_workflow_def gap)
  ultimately show ?thesis by blast
qed

definition settles :: "string \<Rightarrow> workflow_result \<Rightarrow> bool" where
  "settles i w \<longleftrightarrow> (\<exists>x. find (\<lambda>x. os_order_id x = i) (rev (wr_order_states w)) = Some x \<and> \<not> is_pending x)"

lemma step_keeps_open:
  assumes "reconcile_with_transports sv ops (Some json_store_ops) expected payloads (t, s) = Inr (r, (t', s'))"
    and "i \<in> set (cu_unresolved (load_snapshot s))"
  shows "i \<in> set (cu_unresolved (load_snapshot s')) \<or> settles i (tx_workflow r)"
proof -
  obtain batch trs where "run_recovery sv ops (Some json_store_ops)
      (resumed_expected (Some json_store_ops) s expected) batch trs (t, s) = Inr (r, (t', s'))"
    using reconcile_rest_Inr [OF assms(1)] by blast
  from json.run_recovery_resumes [OF this [unfolded json_store_ops_def] assms(2), of "[]"]
  show ?thesis by (auto simp: settles_def resume_expected_order_ids_def)
qed

lemma disruption_steps_facts:
  assumes "run_disruption_steps clock texts sid i steps store = Inr (xs, store')"
  shows "length xs = length steps" (is ?len)
    and "map (dr_index \<circ> fst) xs = [i..<i + length steps]" (is ?indices)
    and "map (dr_convergence \<circ> fst) xs = map (wr_convergence \<circ> snd) xs" (is ?converged)
    and "map (dr_attempts \<circ> fst) xs = map (length \<circ> wr_attempts \<circ> snd) xs" (is ?attempts)
    and "cu_gap_active (load_snapshot store) \<Longrightarrow>
      (\<forall>x\<in>set xs. wr_gap_detected (snd x)) \<and> cu_gap_active (load_snapshot store')"
    and "k \<in> set (cu_unresolved (load_snapshot store)) \<Longrightarrow>
      k \<in> set (cu_unresolved (load_snapshot store')) \<or> (\<exists>x\<in>set xs. settles k (snd x))"
proof -
  have "?len \<and> ?indices \<and> ?converged \<and> ?attempts \<and>
    (cu_gap_active (load_snapshot store) \<longrightarrow>
      (\<forall>x\<in>set xs. wr_gap_detected (snd x)) \<and> cu_gap_active (load_snapshot store')) \<and>
    (k \<in> set (cu_unresolved (load_snapshot store)) \<longrightarrow>
      k \<in> set (cu_unresolved (load_snapshot store')) \<or> (\<exists>x\<in>set xs. settles k (snd x)))"
    using assms
  proof (induction steps arbitrary: i store xs)
    case Nil
    then show ?case by simp
  next
    case (Cons step steps)
    obtain rec w store1 ys where 1: "run_disruption_step clock texts sid i step store = Inr ((rec, w), store1)"
      and 2: "run_disruption_steps clock texts sid (i + 1) steps store1 = Inr (ys, store')"
      and xs: "xs = (rec, w) # ys"
      using Cons.prems by (auto simp: r_bind_Inr)
    obtain r t where r: "reconcile_with_transports (disruption_service clock texts sid i step)
        (scripted_ops disruption_transport) (Some json_store_ops) (dp_expected step) (dp_payloads step)
        ((dp_lookups step, None), store) = Inr (r, (t, store1))"
      and w: "w = tx_workflow r" and rec: "rec = disruption_record_of i step r (load_snapshot store1)"
      using 1 by (rule disruption_step_Inr)
    have i: "[i..<i + length (step # steps)] = i # [i + 1..<i + 1 + length steps]"
      by (simp add: upt_conv_Cons del: upt_Suc)
    show ?case using Cons.IH [OF 2] step_gap [OF r] step_keeps_open [OF r, of k]
      unfolding xs i rec w by (elim conjE) (simp del: upt_Suc, blast)
  qed
  then show ?len ?indices ?converged ?attempts
    "cu_gap_active (load_snapshot store) \<Longrightarrow>
      (\<forall>x\<in>set xs. wr_gap_detected (snd x)) \<and> cu_gap_active (load_snapshot store')"
    "k \<in> set (cu_unresolved (load_snapshot store)) \<Longrightarrow>
      k \<in> set (cu_unresolved (load_snapshot store')) \<or> (\<exists>x\<in>set xs. settles k (snd x))"
    by blast+
qed

lemma disruption_step_at:
  assumes "run_disruption_steps clock texts sid i steps store = Inr (xs, store')" and "j < length steps"
  shows "\<exists>s0 s1. run_disruption_step clock texts sid (i + j) (steps ! j) s0 = Inr (xs ! j, s1) \<and>
    run_disruption_steps clock texts sid (i + j + 1) (drop (j + 1) steps) s1 = Inr (drop (j + 1) xs, store')"
  using assms
proof (induction steps arbitrary: i store xs j)
  case (Cons step steps)
  obtain x store1 ys where 1: "run_disruption_step clock texts sid i step store = Inr (x, store1)"
    and 2: "run_disruption_steps clock texts sid (i + 1) steps store1 = Inr (ys, store')" and xs: "xs = x # ys"
    using Cons.prems(1) by (auto simp: r_bind_Inr)
  show ?case
  proof (cases j)
    case 0
    with 1 2 show ?thesis unfolding xs by (metis add.right_neutral add_0 drop0 drop_Suc_Cons nth_Cons_0 One_nat_def)
  next
    case (Suc m)
    then have "m < length steps" using Cons.prems(2) by simp
    from Cons.IH [OF 2 this] show ?thesis by (simp add: xs Suc)
  qed
qed simp

section \<open>A lost order\<close>

text \<open>The answers a step uses for one order: up to the first terminal one, and not more than its rounds.\<close>

fun asked :: "nat \<Rightarrow> string \<Rightarrow> lookup_result list \<Rightarrow> lookup_result list" where
  "asked 0 v ls = []"
| "asked (Suc n) v ls =
     (let l = (case ls of [] \<Rightarrow> unresolved_lookup disruption_transport v | x # xs \<Rightarrow> x)
      in l # (if reports_terminal l then [] else asked n v (tl ls)))"

definition lone_answer :: "string \<Rightarrow> lookup_result \<Rightarrow> bool" where
  "lone_answer v l \<longleftrightarrow> lk_value l = v \<and> lk_order_state l = None \<and> opt_all (\<lambda>a. a = [] \<or> \<not> blank a) (lk_alert l)"

lemma lone_unresolved [simp]: "lone_answer v (unresolved_lookup tr v)"
  by (simp add: lone_answer_def unresolved_lookup_def blank_def py_space_def)

lemma asked_lone: "\<forall>l\<in>set ls. lone_answer v l \<Longrightarrow> \<forall>l\<in>set (asked n v ls). lone_answer v l"
proof (induction n arbitrary: ls)
  case (Suc n)
  have "\<forall>l\<in>set (tl ls). lone_answer v l" using Suc.prems by (cases ls) auto
  from Suc.IH [OF this] Suc.prems show ?case by (cases ls) (auto simp: Let_def)
qed simp

lemma asked_nonempty: "0 < n \<Longrightarrow> asked n v ls \<noteq> []"
  by (cases n) (simp_all add: Let_def)

lemma asked_request:
  assumes "\<forall>l\<in>set ls. lone_answer v l" and "rd_transport st = (ls, h)" and "rd_switched st = []"
  shows "\<exists>st' h'. one_request (scripted_ops disruption_transport) [] st (''exchange_order_id'', v) = Inr st' \<and>
    rd_lookups st' = rd_lookups st @ [case ls of [] \<Rightarrow> unresolved_lookup disruption_transport v | x # xs \<Rightarrow> x] \<and>
    rd_transport st' = (tl ls, h') \<and> rd_switched st' = [] \<and>
    rd_latest st' = dict_set v (case ls of [] \<Rightarrow> unresolved_lookup disruption_transport v | x # xs \<Rightarrow> x) (rd_latest st)"
proof -
  have "lk_value (case ls of [] \<Rightarrow> unresolved_lookup disruption_transport v | x # xs \<Rightarrow> x) = v"
    using assms(1) by (auto simp: lone_answer_def unresolved_lookup_def split: list.splits)
  then show ?thesis
    using assms(2,3) by (cases ls) (simp_all add: one_request_def effective_lookup_def dict_get_default_def lookup_by_def
        lookup_order_by_exchange_id_def scripted_ops_def next_lookup_def record_lookup_def Let_def)
qed

lemma lone_rounds:
  assumes "\<forall>l\<in>set ls. lone_answer v l" and "rd_transport st = (ls, h)" and "rd_switched st = []"
    and "rd_latest st = [] \<or> (\<exists>l. rd_latest st = [(v, l)])"
  shows "\<exists>st'. lookup_rounds (scripted_ops disruption_transport) [] True [(''exchange_order_id'', v)] n st = Inr st' \<and>
    rd_lookups st' = rd_lookups st @ asked n v ls"
  using assms
proof (induction n arbitrary: ls st h)
  case 0
  then show ?case by simp
next
  case (Suc n)
  let ?l = "case ls of [] \<Rightarrow> unresolved_lookup disruption_transport v | x # xs \<Rightarrow> x"
  obtain st' h' where 1: "one_request (scripted_ops disruption_transport) [] st (''exchange_order_id'', v) = Inr st'"
    and f: "rd_lookups st' = rd_lookups st @ [?l]" "rd_transport st' = (tl ls, h')" "rd_switched st' = []"
      "rd_latest st' = dict_set v ?l (rd_latest st)"
    using asked_request [OF Suc.prems(1-3)] by blast
  have latest: "rd_latest st' = [(v, ?l)]" using f(4) Suc.prems(4) by auto
  have tl: "\<forall>l\<in>set (tl ls). lone_answer v l" using Suc.prems(1) by (cases ls) auto
  show ?case
  proof (cases "reports_terminal ?l")
    case True
    then show ?thesis using 1 f(1) latest by (simp add: Let_def)
  next
    case False
    obtain st'' where "lookup_rounds (scripted_ops disruption_transport) [] True [(''exchange_order_id'', v)] n st' = Inr st''"
      "rd_lookups st'' = rd_lookups st' @ asked n v (tl ls)"
      using Suc.IH [OF tl f(2,3)] latest by blast
    then show ?thesis using False 1 f(1) latest by (simp add: Let_def)
  qed
qed

lemma verdict_unnumbered:
  assumes "map unnumbered ns = map unnumbered ls" and "ls \<noteq> []"
  shows "verdict m ns = verdict m ls"
proof -
  have "list_ex is_terminal xs \<longleftrightarrow> list_ex is_terminal (map unnumbered xs)" for xs :: "lookup_result list"
    by (simp add: list_ex_iff)
  then have "list_ex is_terminal ns \<longleftrightarrow> list_ex is_terminal ls" using assms(1) by metis
  moreover have "length ns = length ls" using assms(1) by (metis length_map)
  moreover have "lk_found (last ns) = lk_found (last ls)"
  proof -
    have "ns \<noteq> []" using assms by auto
    then have "lk_found (unnumbered (last ns)) = lk_found (unnumbered (last ls))"
      using arg_cong [OF assms(1), of "\<lambda>xs. lk_found (last xs)"] assms(2) by (simp add: last_map del: unnumbered_fields)
    then show ?thesis by simp
  qed
  ultimately show ?thesis by (simp add: verdict_def)
qed

lemma lone_group:
  assumes "\<forall>l\<in>set ls. lk_value l = v" and "ls \<noteq> []"
  shows "group_lookups ls = [(v, ls)]"
proof -
  have k: "map fst (group_lookups ls) = [v]"
  proof -
    have "map fst (group_lookups ls) = dedup (map lk_value ls)" by (simp add: group_lookups_def keys_group_by)
    moreover have "dedup (map lk_value ls) = [v]"
      using assms
    proof (induction ls rule: rev_induct)
      case (snoc l ls)
      then show ?case by (cases "ls = []") (auto simp: dedup_snoc image_iff)
    qed simp
    ultimately show ?thesis by simp
  qed
  then obtain as where g: "group_lookups ls = [(v, as)]" by (cases "group_lookups ls") auto
  then have "as = filter (\<lambda>l. lk_value l = v) ls" by (intro group_lookups_mem) simp
  then show ?thesis using g assms(1) by simp
qed

text \<open>Without a recovered order state the group's last order carries the looked-up id.\<close>

lemma coordinate_lookup_order_id:
  assumes "coordinate_lookup co t acc (v, as) = Inr acc'" and "\<forall>l\<in>set as. lk_order_state l = None"
  shows "wa_order_states acc' \<noteq> [] \<and> os_order_id (last (wa_order_states acc')) = v"
proof -
  obtain s0 base tr u order where s0: "make_order_state co v STATUS_QUERY_PENDING t
      ''status lookup initiated for reconciliation recovery'' = Inr s0"
    and base: "mark_recovering s0 t ''recovery in progress'' STATUS_QUERY_PENDING = Inr (base, tr)"
    and u: "lookup_outcome_of co t base v as = Inr u"
    and order: "order = (lu_order u)\<lparr>os_reconciliation_state := Some (lu_state u),
        os_reconciliation_detail := Some (lu_detail u)\<rparr>" "wa_order_states acc' = wa_order_states acc @ [order]"
    using assms(1) unfolding coordinate_lookup_def by (auto simp: r_bind_Inr)
  have "os_order_id base = v"
    using s0 base by (auto simp: make_order_state_def mark_recovering_def with_transition_Inr)
  moreover have "os_order_id (lu_order u) = os_order_id base"
  proof (cases "find is_terminal (rev as)")
    case None
    then show ?thesis using u
      by (auto simp: lookup_outcome_of_def Let_def r_bind_Inr mark_unreconciled_def with_transition_Inr split: if_splits)
  next
    case (Some l)
    then have "lk_order_state l = None" using find_terminal_Some assms(2) by blast
    then show ?thesis using u Some
      by (auto simp: lookup_outcome_of_def Let_def terminal_outcome_def r_bind_Inr resolve_recovery_def with_transition_Inr)
  qed
  ultimately show ?thesis using order by simp
qed

text \<open>The workflow of one missing order.\<close>

lemma lone_coordinate:
  assumes "rr_matched rr = []" and "rr_unknown_ids rr = []" and "rr_missing rr = [v]" and "\<not> blank v" and "is_utc t"
    and "\<forall>l\<in>set ls. lone_answer v l" and "ls \<noteq> []"
  shows "\<exists>w. coordinate default_coordinator rr ls t = Inr w \<and> wr_attempts w = ls \<and>
    convergence_of (wr_summaries w) = convergence_value (verdict 3 ls) \<and>
    (\<exists>n x. wr_order_states w = [n, x] \<and> os_order_id n = v \<and> os_order_id x = v \<and>
      (is_pending x \<longleftrightarrow> verdict 3 ls \<noteq> CONVERGED_TERMINAL))"
proof -
  have val: "\<forall>l\<in>set ls. lk_value l = v" and os: "\<forall>l\<in>set ls. lk_order_state l = None"
    and clean: "\<forall>l\<in>set ls. clean_lookup l"
    using assms(4,6) by (auto simp: lone_answer_def clean_lookup_def)
  note g = lone_group [OF val assms(7)]
  obtain w where w: "coordinate default_coordinator rr ls t = Inr w"
    using coordinate_total [of default_coordinator t rr ls] assms(1-5) clean
    by (auto simp: default_coordinator_def blank_def py_space_def)
  have views: "wr_attempts w = ls \<and> map summary_view (wr_summaries w) = [(v, int (length ls), verdict 3 ls)] \<and>
    (\<exists>n x. wr_order_states w = [n, x] \<and> os_order_id n = v \<and> group_order_ok default_coordinator ls x)"
  proof (rule coordinate_Inr [OF w])
    fix ms us ns xs
    assume 1: "wr_order_states w = ms @ us @ ns @ xs" "map os_order_id ms = rr_matched rr"
      "map os_order_id us = rr_unknown_ids rr" "map os_order_id ns = rr_missing rr"
      "list_all2 (\<lambda>(v, as) s. group_order_ok default_coordinator as s) (group_lookups ls) xs"
      and 2: "map summary_view (wr_summaries w)
        = map (\<lambda>(v, as). (v, int (length as), verdict (co_max_attempts default_coordinator) as)) (group_lookups ls)"
      and 3: "wr_attempts w = ls"
    obtain n where "ns = [n]" "os_order_id n = v" using 1(4) assms(3) by auto
    moreover obtain x where "xs = [x]" "group_order_ok default_coordinator ls x"
      using 1(5) g by (auto simp: list_all2_Cons1)
    ultimately show ?thesis using 1(1-3) 2 3 g assms(1,2) by (simp add: default_coordinator_def)
  qed
  then obtain n x where o: "wr_order_states w = [n, x]" "os_order_id n = v" "group_order_ok default_coordinator ls x"
    by blast
  obtain sm where sm: "wr_summaries w = [sm]" "rs_convergence sm = verdict 3 ls"
    using views by (auto simp: summary_view_def)
  have "convergence_of (wr_summaries w) = convergence_value (verdict 3 ls)"
    by (cases "verdict 3 ls") (simp_all add: sm convergence_of_def)
  moreover have "os_order_id x = v"
  proof -
    obtain a3 a where "r_foldl (coordinate_lookup default_coordinator t) a3 (group_lookups ls) = Inr a"
      and st: "wr_order_states w = wa_order_states a"
      using w by (auto simp: coordinate_def r_bind_Inr)
    then have "coordinate_lookup default_coordinator t a3 (v, ls) = Inr a" by (auto simp: g r_bind_Inr)
    from coordinate_lookup_order_id [OF this os] show ?thesis using o(1) st by simp
  qed
  moreover have "is_pending x \<longleftrightarrow> verdict 3 ls \<noteq> CONVERGED_TERMINAL"
  proof (cases "find is_terminal (rev ls)")
    case None
    then have "verdict 3 ls \<noteq> CONVERGED_TERMINAL" using find_terminal_None [of ls] by (simp add: verdict_def)
    then show ?thesis using o(3) None
      by (cases "verdict 3 ls") (auto simp: group_order_ok_def is_pending_def default_coordinator_def)
  next
    case (Some l)
    then have t: "is_terminal l" "verdict 3 ls = CONVERGED_TERMINAL"
      using find_terminal_Some [OF Some] by (auto simp: verdict_def list_ex_iff)
    then have "resolved_status l \<in> {FILLED, CANCELED, REJECTED, EXPIRED}"
      by (auto simp: is_terminal_def resolved_status_def terminal_statuses_def split: option.splits if_splits)
    then show ?thesis using o(3) Some t by (auto simp: group_order_ok_def is_pending_def default_coordinator_def)
  qed
  ultimately show ?thesis using w views o by blast
qed

lemma lone_unnumbered: "unnumbered x = unnumbered y \<Longrightarrow> lone_answer v x = lone_answer v y"
proof -
  assume eq: "unnumbered x = unnumbered y"
  have "lone_answer v z = lone_answer v (unnumbered z)" for z
    by (simp add: lone_answer_def unnumbered_def)
  with eq show ?thesis by metis
qed

lemma lone_unnumbered_list:
  assumes "map unnumbered ns = map unnumbered ls" and "\<forall>l\<in>set ls. lone_answer v l"
  shows "\<forall>l\<in>set ns. lone_answer v l"
  using unnumbered_same(2) [OF assms(1)] lone_unnumbered assms(2) by blast

lemma lone_step:
  assumes payloads: "dp_payloads step = []" and ids: "resume_expected_order_ids store (dp_expected step) = [v]"
    and nb: "\<not> blank v" and utc: "is_utc (clock i)" and answers: "\<forall>l\<in>set (dp_lookups step). lone_answer v l"
  shows "\<exists>rec w store'. run_disruption_step clock texts sid i step store = Inr ((rec, w), store') \<and>
    dr_missing rec = [v] \<and> dr_attempts rec = length (asked 3 v (dp_lookups step)) \<and>
    dr_convergence rec = Some (convergence_value (verdict 3 (asked 3 v (dp_lookups step)))) \<and>
    (\<exists>reason. reason \<noteq> NOT_REQUIRED \<and> dr_trigger_reason rec = Some (trigger_value reason)) \<and>
    dr_unresolved rec = cu_unresolved (load_snapshot store') \<and>
    set (cu_unresolved (load_snapshot store')) \<union> {v}
      = set (cu_unresolved (load_snapshot store)) \<union> {v} \<and>
    (v \<in> set (cu_unresolved (load_snapshot store')) \<longleftrightarrow> verdict 3 (asked 3 v (dp_lookups step)) \<noteq> CONVERGED_TERMINAL)"
proof -
  let ?sv = "disruption_service clock texts sid i step"
  let ?as = "asked 3 v (dp_lookups step)"
  let ?store = "Some json_store_ops"
  let ?rr = "reconcile [v] []"
  let ?ops = "scripted_ops disruption_transport"
  let ?t = "(dp_lookups step, None) :: scripted_lookups"
  obtain batch where ingest: "ingest_payloads (sv_client ?sv) (dp_payloads step) (sv_cursor ?sv) (sv_has_gap ?sv) = Inr batch"
    and events: "events_for_reconciliation batch = []"
    by (simp add: payloads ingest_payloads_def events_for_reconciliation_def ingest_events_def Let_def)
  have translate: "translate_payloads (sv_text ?sv) (sv_translator ?sv) (dp_payloads step) = Inr []"
    by (simp add: payloads translate_payloads_def)
  have expected: "resumed_expected ?store store (dp_expected step) = [v]"
    by (simp add: sample_resumed ids)
  have rr: "rr_matched ?rr = []" "rr_unknown_ids ?rr = []" "rr_missing ?rr = [v]"
    "lookup_requests ?rr = [(''exchange_order_id'', v)]"
    by (simp_all add: reconcile_def lookup_requests_def)
  let ?gap = "gap_detected ?store store (sv_has_gap ?sv) batch"
  define plan where "plan = build_automatic_recovery_plan ?rr ?gap (resumed_from_snapshot ?store store)"
  have auto: "rp_automatic plan" "rp_lookup_requests plan = [(''exchange_order_id'', v)]"
    unfolding plan_def plan_automatic by (simp_all add: rr)
  have trigger: "rp_trigger plan \<noteq> NOT_REQUIRED"
    using auto(1) by (auto simp: plan_def build_automatic_recovery_plan_def Let_def split: prod.splits)
  obtain st where st: "lookup_rounds ?ops [] True [(''exchange_order_id'', v)] 3 (rounds_start ?t) = Inr st"
    "rd_lookups st = ?as"
    using lone_rounds [OF answers, of "rounds_start ?t" None 3] by (auto simp: rounds_start_def)
  obtain ns s1 where reg: "register_with ?store (rd_lookups st) (sv_effective_time ?sv) (sv_cursor ?sv) store = (ns, s1)"
    by (cases "register_with ?store (rd_lookups st) (sv_effective_time ?sv) (sv_cursor ?sv) store")
  have ns: "map unnumbered ns = map unnumbered ?as" using register_with_unnumbered [OF _ reg] st(2) by simp
  have s1: "cu_unresolved (load_snapshot s1) = cu_unresolved (load_snapshot store)"
    using reg register_lookup_results_facts(2) by (auto simp: register_with_def json_store_ops_def)
  have ne: "?as \<noteq> []" by (rule asked_nonempty) simp
  then have ns': "ns \<noteq> []" "\<forall>l\<in>set ns. lone_answer v l" "length ns = length ?as" "verdict 3 ns = verdict 3 ?as"
    using ns lone_unnumbered_list [OF ns asked_lone [OF answers]] verdict_unnumbered [OF ns ne] map_eq_imp_length_eq [OF ns]
    by auto
  obtain w0 n x where w0: "coordinate default_coordinator ?rr ns (clock i) = Inr w0" "wr_attempts w0 = ns"
    "convergence_of (wr_summaries w0) = convergence_value (verdict 3 ns)"
    "wr_order_states w0 = [n, x]" "os_order_id n = v" "os_order_id x = v"
    "is_pending x \<longleftrightarrow> verdict 3 ns \<noteq> CONVERGED_TERMINAL"
    using lone_coordinate [OF rr(1-3) nb utc ns'(2,1)] by blast
  define w where "w = finish_workflow plan w0"
  have w: "wr_attempts w = ns" "wr_order_states w = [n, x]" "wr_trigger_reason w = Some (trigger_value (rp_trigger plan))"
    "wr_convergence w = Some (convergence_value (verdict 3 ?as))"
    using w0 ns'(4) by (simp_all add: w_def finish_workflow_def)
  obtain snap s2 where per: "persist_workflow_state w (sv_effective_time ?sv) (sv_cursor ?sv) ?gap s1 = (snap, s2)"
    by (cases "persist_workflow_state w (sv_effective_time ?sv) (sv_cursor ?sv) ?gap s1")
  have s2: "set (cu_unresolved (load_snapshot s2)) = foldl (track is_pending) (set (cu_unresolved (load_snapshot store))) [n, x]"
    using per next_snapshot_ids(1) [of w] s1 w(2) by (auto simp: persist_workflow_state_def Let_def load_snapshot_def)
  have tracked: "set (cu_unresolved (load_snapshot s2)) \<union> {v} = set (cu_unresolved (load_snapshot store)) \<union> {v}"
    "v \<in> set (cu_unresolved (load_snapshot s2)) \<longleftrightarrow> verdict 3 ?as \<noteq> CONVERGED_TERMINAL"
    using s2 w0(5-7) ns'(4) by (auto simp: track_def)
  have pw: "persist_with ?store w (sv_effective_time ?sv) (sv_cursor ?sv) ?gap s1 = (Some snap, s2)"
    using per by (simp add: persist_with_def json_store_ops_def)
  have co: "coordinate_recovery (sv_coordinator ?sv) (sv_coordination_time ?sv) ?rr ns = Inr w0"
    using w0(1) by (simp add: coordinate_recovery_def disruption_service_def)
  have fb: "unknown_execution_fallbacks [v] [] = []" by (simp add: unknown_execution_fallbacks_def)
  have rounds: "(if rp_automatic plan then sv_max_rounds ?sv else 1) = 3"
    by (simp add: auto(1) disruption_service_def)
  obtain r where run: "run_recovery ?sv ?ops ?store [v] batch [] (?t, store) = Inr (r, (rd_transport st, s2))"
    and r: "tx_workflow r = w" "tx_reconciliation r = ?rr"
    unfolding run_recovery_def Let_def prod.case events plan_def [symmetric] auto(2) rounds fb
    using st(1) reg co pw by (simp add: auto(1) w_def)
  have "reconcile_with_transports ?sv ?ops ?store (dp_expected step) (dp_payloads step) (?t, store)
      = Inr (r, (rd_transport st, s2))"
    unfolding reconcile_with_transports_def ingest r_bind_simps translate using run by (simp add: expected)
  then have "run_disruption_step clock texts sid i step store
      = Inr ((disruption_record_of i step r (load_snapshot s2), w), s2)"
    by (simp add: run_disruption_step_def r)
  then show ?thesis using tracked trigger w r ns'(3) rr
    by (intro exI conjI) (auto simp: disruption_record_of_def Let_def)
qed

section \<open>Properties\<close>

text \<open>
  C29. A disruption run forgets no order and no gap over its steps: there is one record and one logged
  workflow per step; once a step had a gap, it and every later step report the gap and the state file
  keeps it; an order left unresolved by a step is unresolved in the summary or was settled by a later
  workflow of the log; the attempts of the summary are those of the log, and a passed scenario's last
  workflow has the expected convergence.
\<close>

theorem disruption_forgets_nothing:
  assumes "run_disruption clock texts sc store = Inr ((sm, records), (flows, store'))"
  shows "length flows = length (dx_steps sc) \<and> map dr_index records = [1..<length (dx_steps sc) + 1] \<and>
    dy_total_attempts sm = sum_list (map (length \<circ> wr_attempts) flows) \<and>
    (\<forall>j<length (dx_steps sc). dp_has_gap (dx_steps sc ! j) \<longrightarrow>
      (\<forall>w\<in>set (drop j flows). wr_gap_detected w) \<and> cu_gap_active (load_snapshot store')) \<and>
    (\<forall>j<length (dx_steps sc). \<forall>k\<in>set (dr_unresolved (records ! j)).
      k \<in> set (dy_unresolved sm) \<or> (\<exists>w\<in>set (drop (j + 1) flows). settles k w)) \<and>
    (dy_passed sm \<longrightarrow> wr_convergence (last flows) = Some (dx_final_convergence sc))"
proof -
  obtain xs where run: "run_disruption_steps clock texts (dx_id sc) 1 (dx_steps sc) store = Inr (xs, store')"
    and sm: "disruption_summary_of sc (clock (length (dx_steps sc) + 1)) (map fst xs) (load_snapshot store') = Inr sm"
    and records: "records = map fst xs" and flows: "flows = map snd xs"
    using assms unfolding run_disruption_def by (auto simp: r_bind_Inr)
  note f = disruption_steps_facts [OF run]
  have ne: "xs \<noteq> []" using sm by (cases xs) (simp_all add: disruption_summary_of_def)
  have s: "dy_total_attempts sm = sum_list (map dr_attempts records)" "dy_unresolved sm = cu_unresolved (load_snapshot store')"
    "dy_passed sm \<longrightarrow> dr_convergence (last records) = Some (dx_final_convergence sc)"
    using sm ne by (auto simp: disruption_summary_of_def Let_def records)
  have gap: "(\<forall>w\<in>set (drop j flows). wr_gap_detected w) \<and> cu_gap_active (load_snapshot store')"
    if j: "j < length (dx_steps sc)" "dp_has_gap (dx_steps sc ! j)" for j
  proof -
    obtain s0 s1 where 1: "run_disruption_step clock texts (dx_id sc) (1 + j) (dx_steps sc ! j) s0 = Inr (xs ! j, s1)"
      and 2: "run_disruption_steps clock texts (dx_id sc) (1 + j + 1) (drop (j + 1) (dx_steps sc)) s1
        = Inr (drop (j + 1) xs, store')"
      using disruption_step_at [OF run j(1)] by blast
    from 1 have "wr_gap_detected (snd (xs ! j)) \<and> cu_gap_active (load_snapshot s1)"
      by (cases "xs ! j") (auto elim!: disruption_step_Inr dest!: step_gap simp: disruption_service_def j(2))
    moreover have "drop j xs = xs ! j # drop (j + 1) xs" using j(1) f(1) by (simp add: Cons_nth_drop_Suc)
    ultimately show ?thesis using disruption_steps_facts(5) [OF 2] by (auto simp: flows drop_map)
  qed
  have open': "k \<in> set (dy_unresolved sm) \<or> (\<exists>w\<in>set (drop (j + 1) flows). settles k w)"
    if j: "j < length (dx_steps sc)" "k \<in> set (dr_unresolved (records ! j))" for j k
  proof -
    obtain s0 s1 where 1: "run_disruption_step clock texts (dx_id sc) (1 + j) (dx_steps sc ! j) s0 = Inr (xs ! j, s1)"
      and 2: "run_disruption_steps clock texts (dx_id sc) (1 + j + 1) (drop (j + 1) (dx_steps sc)) s1
        = Inr (drop (j + 1) xs, store')"
      using disruption_step_at [OF run j(1)] by blast
    from 1 have "dr_unresolved (fst (xs ! j)) = cu_unresolved (load_snapshot s1)"
      by (cases "xs ! j") (auto elim!: disruption_step_Inr)
    then have "k \<in> set (cu_unresolved (load_snapshot s1))" using j f(1) by (simp add: records)
    from disruption_steps_facts(6) [OF 2 this] show ?thesis by (auto simp: s(2) flows drop_map)
  qed
  have "dr_convergence (last records) = wr_convergence (last flows)"
    using arg_cong [OF f(3), of last] ne by (simp add: records flows last_map)
  moreover have "map dr_index records = [1..<length (dx_steps sc) + 1]" using f(2) by (simp add: records add.commute)
  moreover have "sum_list (map dr_attempts records) = sum_list (map (length \<circ> wr_attempts) flows)"
    using arg_cong [OF f(4), of sum_list] by (simp add: records flows comp_assoc)
  ultimately show ?thesis using f(1) s gap open' by (simp add: flows)
qed


section \<open>Witnesses\<close>

lemma sample_answer [simp]: "lone_answer v (disruption_success v status)"
  "reports_terminal (disruption_success v status) \<longleftrightarrow> status \<in> set terminal_lookup_statuses"
  by (simp_all add: lone_answer_def disruption_success_def answered_lookup_def reports_terminal_def)


text \<open>The two default scenarios with lost events: run from an empty state file they pass.\<close>

lemma resume_only:
  assumes "set (cu_unresolved (load_snapshot store)) = {v}"
  shows "resume_expected_order_ids store [] = [v]"
proof -
  have "set (resume_expected_order_ids store []) = {v}" "distinct (resume_expected_order_ids store [])"
    using assms by (simp_all add: resume_expected_order_ids_def)
  then show ?thesis by (cases "resume_expected_order_ids store []") (auto simp: subset_singleton_iff)
qed

lemma only_elem: "a \<union> {x} = b \<union> {x} \<Longrightarrow> b = {x} \<Longrightarrow> x \<notin> a \<Longrightarrow> a = {}"
  by auto

lemma delayed_status_query_passes:
  assumes "\<And>n. is_utc (clock n)"
  shows "\<exists>sm records flows store'. run_disruption clock texts delayed_status_query None
     = Inr ((sm, records), (flows, store')) \<and> dy_passed sm \<and> dy_unresolved sm = [] \<and>
     map dr_convergence records = [Some ''pending'', Some ''converged_terminal'']"
proof -
  define s1 s2 where "s1 = dx_steps delayed_status_query ! 0" and "s2 = dx_steps delayed_status_query ! 1"
  then have steps: "dx_steps delayed_status_query = [s1, s2]"
    and s1: "dp_payloads s1 = []" "dp_expected s1 = [''6201'']"
      "dp_lookups s1 = replicate 3 (disruption_success ''6201'' ''new'')"
    and s2: "dp_payloads s2 = []" "dp_expected s2 = []" "dp_lookups s2 = [disruption_success ''6201'' ''filled'']"
    by (simp_all add: delayed_status_query_def numeral_3_eq_3)
  let ?id = "dx_id delayed_status_query"
  have as: "asked 3 ''6201'' (dp_lookups s1) = replicate 3 (disruption_success ''6201'' ''new'')"
    "asked 3 ''6201'' (dp_lookups s2) = [disruption_success ''6201'' ''filled'']"
    by (simp_all add: s1 s2 eval_nat_numeral Let_def terminal_lookup_statuses_def)
  have v: "verdict 3 (asked 3 ''6201'' (dp_lookups s1)) = CONV_PENDING"
    "verdict 3 (asked 3 ''6201'' (dp_lookups s2)) = CONVERGED_TERMINAL"
    unfolding as by (simp_all add: eval_nat_numeral verdict_def is_terminal_def disruption_success_def answered_lookup_def
        terminal_statuses_def)
  have nb: "\<not> blank ''6201''" by (simp add: blank_def py_space_def)
  have r1: "resume_expected_order_ids None (dp_expected s1) = [''6201'']"
    by (simp add: s1 resume_expected_order_ids_def load_snapshot_def empty_snapshot_def)
  have l: "\<forall>l\<in>set (dp_lookups s1). lone_answer ''6201'' l" "\<forall>l\<in>set (dp_lookups s2). lone_answer ''6201'' l"
    by (simp_all add: s1 s2)
  obtain rec1 w1 st1 reason where 1: "run_disruption_step clock texts ?id 1 s1 None = Inr ((rec1, w1), st1)"
    "dr_convergence rec1 = Some ''pending''" "set (cu_unresolved (load_snapshot st1)) = {''6201''}"
    and reason: "reason \<noteq> NOT_REQUIRED" "dr_trigger_reason rec1 = Some (trigger_value reason)"
    using lone_step [where clock = clock and texts = texts and sid = ?id and i = 1, OF s1(1) r1 nb assms l(1)] v(1)
    by (auto simp: load_snapshot_def empty_snapshot_def)
  have r2: "resume_expected_order_ids st1 (dp_expected s2) = [''6201'']" by (simp add: s2 resume_only [OF 1(3)])
  obtain rec2 w2 st2 where 2: "run_disruption_step clock texts ?id 2 s2 st1 = Inr ((rec2, w2), st2)"
    and c2: "dr_convergence rec2 = Some (convergence_value (verdict 3 (asked 3 ''6201'' (dp_lookups s2))))"
    and u2: "set (cu_unresolved (load_snapshot st2)) \<union> {''6201''} = set (cu_unresolved (load_snapshot st1)) \<union> {''6201''}"
      "''6201'' \<in> set (cu_unresolved (load_snapshot st2)) \<longleftrightarrow> verdict 3 (asked 3 ''6201'' (dp_lookups s2)) \<noteq> CONVERGED_TERMINAL"
    using lone_step [where clock = clock and texts = texts and sid = ?id and i = 2, OF s2(1) r2 nb assms l(2)]
    by (elim exE conjE) (rule that; assumption)
  have c2': "dr_convergence rec2 = Some ''converged_terminal''" using c2 v(2) by simp
  have "''6201'' \<notin> set (cu_unresolved (load_snapshot st2))" unfolding u2(2) v(2) by simp
  then have "set (cu_unresolved (load_snapshot st2)) = {}" by (rule only_elem [OF u2(1) 1(3)])
  then have u2': "cu_unresolved (load_snapshot st2) = []" by simp
  have run: "run_disruption_steps clock texts ?id 1 (dx_steps delayed_status_query) None
      = Inr ([(rec1, w1), (rec2, w2)], st2)"
    unfolding steps run_disruption_steps.simps 1(1) r_bind_simps prod.case one_add_one 2 by (rule refl)
  have "trigger_value reason \<noteq> ''not_required''" "trigger_value reason \<noteq> []" using reason(1) by (cases reason; simp)+
  then have "\<exists>sm. disruption_summary_of delayed_status_query now [rec1, rec2] (load_snapshot st2) = Inr sm \<and>
      dy_passed sm \<and> dy_unresolved sm = []" for now
    using c2' u2' reason(2)
    by (simp add: disruption_summary_of_def Let_def truthy_def opt_values_def delayed_status_query_def)
  then obtain sm where sm: "disruption_summary_of delayed_status_query
      (clock (length (dx_steps delayed_status_query) + 1)) [rec1, rec2] (load_snapshot st2) = Inr sm"
    and p: "dy_passed sm" "dy_unresolved sm = []" by blast
  have "run_disruption clock texts delayed_status_query None = Inr ((sm, [rec1, rec2]), ([w1, w2], st2))"
    unfolding run_disruption_def run r_bind_simps prod.case using sm by simp
  moreover have "map dr_convergence [rec1, rec2] = [Some ''pending'', Some ''converged_terminal'']"
    using 1(2) c2' by simp
  ultimately show ?thesis using p by (intro exI conjI)
qed

lemma disruption_forgets_nothing_witness:
  "\<exists>sm records flows store'. run_disruption sample_clock sample_env delayed_status_query None
     = Inr ((sm, records), (flows, store')) \<and> length flows = 2 \<and> (\<forall>w\<in>set flows. wr_gap_detected w) \<and>
     cu_gap_active (load_snapshot store') \<and> dy_unresolved sm = []"
proof -
  obtain sm records flows store' where run: "run_disruption sample_clock sample_env delayed_status_query None
      = Inr ((sm, records), (flows, store'))" "dy_unresolved sm = []"
    using delayed_status_query_passes [of sample_clock sample_env] sample_clock_parts by blast
  have "length (dx_steps delayed_status_query) = 2" "dp_has_gap (dx_steps delayed_status_query ! 0)"
    by (simp_all add: delayed_status_query_def)
  with disruption_forgets_nothing [OF run(1)] run show ?thesis by fastforce
qed

end
