(* ===== verification/Reports.thy ===== *)
theory Reports
  imports Runners "HOL-Library.Countable"
begin

text \<open>
  What a cycle leaves behind: the operator summaries (\<open>app/monitoring/runtime_status.py\<close>), the report
  records (\<open>app/storage/report_serializer.py\<close>, \<open>report_models.py\<close>, \<open>report_repository.py\<close>), the gateways that
  write them (\<open>app/storage/reporting.py\<close>, \<open>paper_reporting.py\<close>). A JSONL file is the list of what was appended to it; the texts of
  decimals and times and the failures of the disk are parameters, and the key order of a JSON object is not
  kept.
\<close>

section \<open>Values and their JSON\<close>

text \<open>What \<open>asdict\<close> yields; the string enumerations are their values.\<close>

datatype pyval =
    PNone | PBool bool | PInt int | PStr string | PDec decimal | PTime datetime
  | PList "pyval list" | PDict "(string \<times> pyval) list"

text \<open>\<open>str(Decimal)\<close>, \<open>datetime.isoformat\<close> and \<open>json.dumps\<close>.\<close>

record value_texts =
  vt_dec :: "decimal \<Rightarrow> string"
  vt_iso :: "datetime \<Rightarrow> string"
  vt_dumps :: "json \<Rightarrow> string"

fun to_json_compatible :: "value_texts \<Rightarrow> pyval \<Rightarrow> json" where
  "to_json_compatible x PNone = JNull"
| "to_json_compatible x (PBool b) = JBool b"
| "to_json_compatible x (PInt i) = JInt i"
| "to_json_compatible x (PStr s) = JStr s"
| "to_json_compatible x (PDec d) = JStr (vt_dec x d)"
| "to_json_compatible x (PTime t) = JStr (vt_iso x t)"
| "to_json_compatible x (PList vs) = JList (map (to_json_compatible x) vs)"
| "to_json_compatible x (PDict kvs) = JObj (map (\<lambda>kv. (fst kv, to_json_compatible x (snd kv))) kvs)"

definition opt_dec :: "decimal option \<Rightarrow> pyval" where
  "opt_dec v = (case v of None \<Rightarrow> PNone | Some d \<Rightarrow> PDec d)"

definition str_list :: "string list \<Rightarrow> pyval" where
  "str_list ss = PList (map PStr ss)"

definition dec_dict :: "(string, decimal) dict \<Rightarrow> pyval" where
  "dec_dict d = PDict (map (\<lambda>kv. (fst kv, PDec (snd kv))) d)"

definition signal_dict :: "signal_decision \<Rightarrow> pyval" where
  "signal_dict s = PDict
     [(''strategy_name'', PStr (sd_strategy_name s)), (''instrument_id'', PStr (sd_instrument_id s)),
      (''timeframe'', PStr (sd_timeframe s)), (''as_of'', PTime (sd_as_of s)),
      (''side'', PStr (signal_side_value (sd_side s))), (''confidence'', PDec (sd_confidence s)),
      (''rationale'', PStr (sd_rationale s)), (''target_notional'', opt_dec (sd_target_notional s)),
      (''target_quantity'', opt_dec (sd_target_quantity s))]"

definition risk_dict :: "risk_decision \<Rightarrow> pyval" where
  "risk_dict r = PDict
     [(''signal'', signal_dict (rd_signal r)), (''status'', PStr (risk_status_value (rd_status r))),
      (''evaluated_at'', PTime (rd_evaluated_at r)), (''reasons'', str_list (rd_reasons r)),
      (''approved_notional'', opt_dec (rd_approved_notional r)),
      (''approved_quantity'', opt_dec (rd_approved_quantity r)), (''rule_hits'', str_list (rd_rule_hits r))]"

definition intent_dict :: "execution_intent \<Rightarrow> pyval" where
  "intent_dict i = PDict
     [(''intent_id'', PStr (ei_intent_id i)), (''venue'', PStr (ei_venue i)),
      (''instrument_id'', PStr (ei_instrument_id i)), (''side'', PStr (order_side_value (ei_side i))),
      (''order_type'', PStr (order_type_value (ei_order_type i))),
      (''time_in_force'', PStr (time_in_force_value (ei_time_in_force i))), (''quantity'', PDec (ei_quantity i)),
      (''submitted_at'', PTime (ei_submitted_at i)), (''source_strategy'', PStr (ei_source_strategy i)),
      (''rationale'', PStr (ei_rationale i)), (''limit_price'', opt_dec (ei_limit_price i)),
      (''reduce_only'', PBool (ei_reduce_only i))]"

definition event_dict :: "reconciliation_event \<Rightarrow> pyval" where
  "event_dict e = PDict
     [(''venue'', PStr (re_venue e)), (''order_id'', PStr (re_order_id e)),
      (''reconciliation_state'', PStr (recon_state_value (re_state e))), (''occurred_at'', PTime (re_occurred_at e)),
      (''detail'', PStr (re_detail e))]"

definition cycle_dict :: "cycle_result \<Rightarrow> pyval" where
  "cycle_dict r = PDict
     [(''cycle_id'', PStr (rc_cycle_id r)), (''started_at'', PTime (rc_started_at r)),
      (''completed_at'', PTime (rc_completed_at r)), (''processed_instruments'', str_list (rc_processed_instruments r)),
      (''signals'', PList (map signal_dict (rc_signals r))),
      (''risk_decisions'', PList (map risk_dict (rc_risk_decisions r))),
      (''execution_intents'', PList (map intent_dict (rc_execution_intents r))),
      (''reconciliation_events'', PList (map event_dict (rc_reconciliation_events r))),
      (''quality_states'', str_list (map quality_state_value (rc_quality_states r))),
      (''quality_details'', str_list (rc_quality_details r)), (''alerts'', str_list (rc_alerts r)),
      (''success'', PBool (rc_success r))]"

section \<open>The report record\<close>

record feature_summary =
  fz_feature_count :: nat
  fz_feature_names :: "string list"
  fz_is_complete :: bool
  fz_source_bar_count :: int
  fz_candle_features :: "(string, string) dict"
  fz_index_features :: "(string, string) dict option"
  fz_stablecoin_features :: "(string, string) dict option"

record context_summary =
  xs_cycle_id :: string
  xs_instrument_id :: string
  xs_timeframe :: string
  xs_as_of :: datetime
  xs_bar_close_time :: datetime
  xs_has_index :: bool
  xs_has_stablecoin :: bool
  xs_index_version :: "string option"
  xs_index_status :: "string option"

record index_context =
  xi_present :: bool
  xi_instrument_id :: string
  xi_requested_as_of :: datetime
  xi_requested_version :: "string option"
  xi_snapshot_as_of :: "datetime option"
  xi_index_version :: "string option"
  xi_value :: "string option"
  xi_status :: "string option"
  xi_detail :: "string option"

record report_record =
  rep_schema_version :: string
  rep_recorded_at :: datetime
  rep_cycle_timestamp :: datetime
  rep_instrument_id :: string
  rep_timeframe :: string
  rep_bar_close_time :: datetime
  rep_features :: feature_summary
  rep_signals :: "json list"
  rep_risk_decisions :: "json list"
  rep_intents :: "json list"
  rep_cycle :: json
  rep_context :: context_summary
  rep_index_context :: index_context

definition features_under :: "value_texts \<Rightarrow> string \<Rightarrow> feature_snapshot \<Rightarrow> (string, string) dict" where
  "features_under x stem f =
     map (\<lambda>kv. (fst kv, vt_dec x (snd kv))) (filter (\<lambda>kv. prefix stem (fst kv)) (ft_feature_values f))"

definition none_if_empty :: "'a list \<Rightarrow> 'a list option" where
  "none_if_empty xs = (if xs = [] then None else Some xs)"

definition build_record :: "value_texts \<Rightarrow> cycle_result \<Rightarrow> feature_snapshot \<Rightarrow> decision_context \<Rightarrow> datetime \<Rightarrow> report_record" where
  "build_record x r f dc recorded_at =
     (let iid = in_instrument_id (dc_instrument dc); tf = ft_timeframe (dc_features dc);
          close = cd_close_time (dc_latest_candle dc); names = sort (map fst (ft_feature_values f));
          ix = dc_index_snapshot dc
      in \<lparr>rep_schema_version = ''report_cycle.v1'', rep_recorded_at = recorded_at, rep_cycle_timestamp = dc_as_of dc,
          rep_instrument_id = iid, rep_timeframe = tf, rep_bar_close_time = close,
          rep_features = \<lparr>fz_feature_count = length names, fz_feature_names = names, fz_is_complete = ft_is_complete f,
            fz_source_bar_count = ft_source_bar_count f, fz_candle_features = features_under x ''candle.'' f,
            fz_index_features = none_if_empty (features_under x ''index_suite.'' f),
            fz_stablecoin_features = none_if_empty (features_under x ''stablecoin.'' f)\<rparr>,
          rep_signals = map (to_json_compatible x \<circ> signal_dict) (rc_signals r),
          rep_risk_decisions = map (to_json_compatible x \<circ> risk_dict) (rc_risk_decisions r),
          rep_intents = map (to_json_compatible x \<circ> intent_dict) (rc_execution_intents r),
          rep_cycle = to_json_compatible x (cycle_dict r),
          rep_context = \<lparr>xs_cycle_id = dc_cycle_id dc, xs_instrument_id = iid, xs_timeframe = tf, xs_as_of = dc_as_of dc,
            xs_bar_close_time = close, xs_has_index = (ix \<noteq> None), xs_has_stablecoin = (dc_stablecoin_snapshot dc \<noteq> None),
            xs_index_version = map_option ix_index_version ix, xs_index_status = dc_index_snapshot_status dc\<rparr>,
          rep_index_context = \<lparr>xi_present = (ix \<noteq> None), xi_instrument_id = iid, xi_requested_as_of = dc_as_of dc,
            xi_requested_version = dc_index_snapshot_requested_version dc, xi_snapshot_as_of = map_option ix_as_of ix,
            xi_index_version = map_option ix_index_version ix, xi_value = map_option (vt_dec x \<circ> ix_value) ix,
            xi_status = dc_index_snapshot_status dc, xi_detail = dc_index_snapshot_detail dc\<rparr>\<rparr>)"

section \<open>Summaries for operators\<close>

datatype degradation_flag = INDEX_SUITE_MISSING | STABLECOIN_MISSING | EXCHANGE_DATA_DEGRADED

fun flag_value :: "degradation_flag \<Rightarrow> string" where
  "flag_value INDEX_SUITE_MISSING = ''index_suite_missing''"
| "flag_value STABLECOIN_MISSING = ''stablecoin_missing''"
| "flag_value EXCHANGE_DATA_DEGRADED = ''exchange_data_degraded''"

record runtime_summary =
  rm_cycle_id :: string
  rm_mode :: string
  rm_instrument_id :: string
  rm_timeframe :: string
  rm_cycle_completed_at :: datetime
  rm_bar_close_time :: datetime
  rm_feature_snapshot_time :: datetime
  rm_signal_count :: nat
  rm_risk_decision_count :: nat
  rm_execution_intent_count :: nat
  rm_persisted_at :: datetime
  rm_flags :: "degradation_flag list"
  rm_alerts :: "string list"
  rm_health_state :: "health_state option"

record runtime_health =
  rth_generated_at :: datetime
  rth_mode :: string
  rth_last_bar_at :: "datetime option"
  rth_last_features_at :: "datetime option"
  rth_last_strategy_at :: "datetime option"
  rth_last_persistence_at :: "datetime option"
  rth_flags :: "degradation_flag list"
  rth_cycle_id :: "string option"
  rth_instrument_id :: "string option"
  rth_alerts :: "string list"
  rth_exchange_health :: "health_snapshot option"

definition build_cycle_summary ::
    "string \<Rightarrow> cycle_result \<Rightarrow> feature_snapshot \<Rightarrow> decision_context \<Rightarrow> datetime \<Rightarrow> health_snapshot option \<Rightarrow> runtime_summary" where
  "build_cycle_summary mode r f dc persisted_at health =
     \<lparr>rm_cycle_id = rc_cycle_id r, rm_mode = mode, rm_instrument_id = in_instrument_id (dc_instrument dc),
      rm_timeframe = ft_timeframe (dc_features dc), rm_cycle_completed_at = rc_completed_at r,
      rm_bar_close_time = cd_close_time (dc_latest_candle dc), rm_feature_snapshot_time = ft_as_of f,
      rm_signal_count = length (rc_signals r), rm_risk_decision_count = length (rc_risk_decisions r),
      rm_execution_intent_count = length (rc_execution_intents r), rm_persisted_at = persisted_at,
      rm_flags = (if dc_index_snapshot dc = None then [INDEX_SUITE_MISSING] else [])
        @ (if dc_stablecoin_snapshot dc = None then [STABLECOIN_MISSING] else [])
        @ (if \<not> ft_is_complete f \<or> \<not> rc_success r then [EXCHANGE_DATA_DEGRADED] else []),
      rm_alerts = rc_alerts r, rm_health_state = map_option hs_overall health\<rparr>"

definition build_runtime_health :: "runtime_summary \<Rightarrow> health_snapshot option \<Rightarrow> runtime_health" where
  "build_runtime_health s health =
     \<lparr>rth_generated_at = rm_persisted_at s, rth_mode = rm_mode s, rth_last_bar_at = Some (rm_bar_close_time s),
      rth_last_features_at = Some (rm_feature_snapshot_time s), rth_last_strategy_at = Some (rm_cycle_completed_at s),
      rth_last_persistence_at = Some (rm_persisted_at s), rth_flags = rm_flags s, rth_cycle_id = Some (rm_cycle_id s),
      rth_instrument_id = Some (rm_instrument_id s), rth_alerts = rm_alerts s, rth_exchange_health = health\<rparr>"

definition or_none :: "string \<Rightarrow> string" where
  "or_none s = (if s = [] then ''none'' else s)"

definition optional_time :: "value_texts \<Rightarrow> datetime option \<Rightarrow> string" where
  "optional_time x t = (case t of None \<Rightarrow> ''none'' | Some d \<Rightarrow> vt_iso x d)"

definition optional_text :: "string option \<Rightarrow> string" where
  "optional_text s = (case s of None \<Rightarrow> ''None'' | Some v \<Rightarrow> v)"

definition component_line :: "string \<Rightarrow> component_health \<Rightarrow> string" where
  "component_line name c = ''- '' @ name @ '': '' @ health_value (ch_state c) @ '' ('' @ ch_detail c @ '')''"

definition newline :: string where
  "newline = [CHR 0x0A]"

definition render_operator_report :: "value_texts \<Rightarrow> runtime_summary \<Rightarrow> runtime_health \<Rightarrow> string" where
  "render_operator_report x s h =
     str_join newline
       ([''# Runtime Status'', ''- mode: '' @ rth_mode h, ''- latest_cycle_id: '' @ optional_text (rth_cycle_id h),
         ''- latest_instrument_id: '' @ optional_text (rth_instrument_id h),
         ''- last_closed_bar_processed_at: '' @ optional_time x (rth_last_bar_at h),
         ''- last_successful_feature_snapshot_at: '' @ optional_time x (rth_last_features_at h),
         ''- last_strategy_evaluation_at: '' @ optional_time x (rth_last_strategy_at h),
         ''- last_persistence_success_at: '' @ optional_time x (rth_last_persistence_at h),
         ''- degradation_flags: '' @ or_none (str_join '', '' (map flag_value (rth_flags h))),
         ''- alerts: '' @ or_none (str_join '', '' (rth_alerts h)),
         ''- signal_count: '' @ int_str (int (rm_signal_count s)),
         ''- risk_decision_count: '' @ int_str (int (rm_risk_decision_count s)),
         ''- execution_intent_count: '' @ int_str (int (rm_execution_intent_count s))]
        @ (case rth_exchange_health h of None \<Rightarrow> [] | Some e \<Rightarrow>
             [''## Exchange Health'', ''- overall_state: '' @ health_value (hs_overall e),
              component_line ''private_stream'' (hs_private_stream e),
              component_line ''reconciliation'' (hs_reconciliation e), component_line ''clock_sync'' (hs_clock_sync e),
              component_line ''status_query'' (hs_status_query e),
              ''- exchange_alerts: '' @ or_none (str_join '', '' (hs_alerts e))]))"

section \<open>The files\<close>

record state_transition =
  tn_cycle_id :: string
  tn_starting :: portfolio_state
  tn_ending :: portfolio_state
  tn_orders :: "order_state list"
  tn_fills :: "fill_event list"

record session_summary =
  ses_id :: string
  ses_cycle_ids :: "string list"
  ses_total_cycles :: nat
  ses_action_cycles :: nat
  ses_final_portfolio :: portfolio_state
  ses_final_positions :: "position_state list"

record report_files =
  rf_cycles :: "report_record list"
  rf_summaries :: "runtime_summary list"
  rf_health :: "runtime_health option"
  rf_report :: "string option"
  rf_transitions :: "state_transition list"
  rf_sessions :: "session_summary list"

datatype artifact = CYCLE_FILE | SUMMARY_FILE | HEALTH_FILE | REPORT_FILE | TRANSITION_FILE | SESSION_FILE
  | SNAPSHOT_FILE | CSV_FILE | MARKDOWN_FILE | RUN_FILE | RUN_MARKDOWN | LAUNCH_FILE | LAUNCH_MARKDOWN

datatype disk_access = MakeParent artifact | WriteTo artifact

type_synonym disk = "disk_access \<Rightarrow> py_error option"

definition access :: "disk \<Rightarrow> disk_access \<Rightarrow> unit result" where
  "access disk a = (case disk a of None \<Rightarrow> Inr () | Some e \<Rightarrow> Inl e)"

definition write_file :: "disk \<Rightarrow> artifact \<Rightarrow> ('s \<Rightarrow> 's) \<Rightarrow> 's \<Rightarrow> 's result" where
  "write_file disk a change s = r_bind (access disk (WriteTo a)) (\<lambda>_. Inr (change s))"

definition append_record :: "disk \<Rightarrow> report_record \<Rightarrow> report_files \<Rightarrow> report_files result" where
  "append_record disk r s =
     r_bind (access disk (MakeParent CYCLE_FILE)) (\<lambda>_.
       write_file disk CYCLE_FILE (\<lambda>s. s\<lparr>rf_cycles := rf_cycles s @ [r]\<rparr>) s)"

definition persist_status ::
    "disk \<Rightarrow> runtime_summary \<Rightarrow> runtime_health \<Rightarrow> string \<Rightarrow> report_files \<Rightarrow> report_files result" where
  "persist_status disk summary health report s =
     r_bind (access disk (MakeParent SUMMARY_FILE)) (\<lambda>_.
     r_bind (access disk (MakeParent HEALTH_FILE)) (\<lambda>_.
     r_bind (access disk (MakeParent REPORT_FILE)) (\<lambda>_.
     r_bind (write_file disk SUMMARY_FILE (\<lambda>s. s\<lparr>rf_summaries := rf_summaries s @ [summary]\<rparr>) s) (\<lambda>s.
     r_bind (write_file disk HEALTH_FILE (\<lambda>s. s\<lparr>rf_health := Some health\<rparr>) s)
       (write_file disk REPORT_FILE (\<lambda>s. s\<lparr>rf_report := Some report\<rparr>))))))"

record report_gateway =
  gw_texts :: value_texts
  gw_disk :: disk
  gw_has_status :: bool
  gw_mode :: string

definition persist_cycle ::
    "report_gateway \<Rightarrow> cycle_result \<Rightarrow> feature_snapshot \<Rightarrow> decision_context \<Rightarrow> health_snapshot option
      \<Rightarrow> report_files \<Rightarrow> report_files result" where
  "persist_cycle gw r f dc health s =
     r_bind (append_record (gw_disk gw) (build_record (gw_texts gw) r f dc (rc_completed_at r)) s) (\<lambda>s.
     if gw_has_status gw then
       (let summary = build_cycle_summary (gw_mode gw) r f dc (rc_completed_at r) health;
            latest = build_runtime_health summary health
        in persist_status (gw_disk gw) summary latest (render_operator_report (gw_texts gw) summary latest) s)
     else Inr s)"

definition persist_transition ::
    "disk \<Rightarrow> string \<Rightarrow> portfolio_state \<Rightarrow> portfolio_state \<Rightarrow> order_state list \<Rightarrow> fill_event list
      \<Rightarrow> report_files \<Rightarrow> report_files result" where
  "persist_transition disk cycle_id p p' orders fills s =
     r_bind (access disk (MakeParent TRANSITION_FILE)) (\<lambda>_.
       write_file disk TRANSITION_FILE (\<lambda>s. s\<lparr>rf_transitions := rf_transitions s @
         [\<lparr>tn_cycle_id = cycle_id, tn_starting = p, tn_ending = p', tn_orders = orders, tn_fills = fills\<rparr>]\<rparr>) s)"

definition persist_session_summary ::
    "disk \<Rightarrow> bool \<Rightarrow> string \<Rightarrow> string list \<Rightarrow> portfolio_state \<Rightarrow> position_state list \<Rightarrow> nat \<Rightarrow> nat
      \<Rightarrow> report_files \<Rightarrow> report_files result" where
  "persist_session_summary disk has_path session_id cycle_ids final positions n actions s =
     (if \<not> has_path then Inr s
      else r_bind (access disk (MakeParent SESSION_FILE)) (\<lambda>_.
        write_file disk SESSION_FILE (\<lambda>s. s\<lparr>rf_sessions := rf_sessions s @
          [\<lparr>ses_id = session_id, ses_cycle_ids = cycle_ids, ses_total_cycles = n, ses_action_cycles = actions,
            ses_final_portfolio = final, ses_final_positions = positions\<rparr>]\<rparr>) s))"

text \<open>The gateways a runner is given, over a world with the files in its second component.\<close>

definition file_gateway ::
    "report_gateway \<Rightarrow> cycle_result \<Rightarrow> feature_snapshot \<Rightarrow> decision_context \<Rightarrow> health_snapshot option
      \<Rightarrow> 'v \<times> report_files \<Rightarrow> ('v \<times> report_files) result" where
  "file_gateway gw r f dc health w = r_bind (persist_cycle gw r f dc health (snd w)) (\<lambda>s. Inr (fst w, s))"

definition file_transitions ::
    "disk \<Rightarrow> string \<Rightarrow> portfolio_state \<Rightarrow> portfolio_state \<Rightarrow> order_state list \<Rightarrow> fill_event list
      \<Rightarrow> 'v \<times> report_files \<Rightarrow> ('v \<times> report_files) result" where
  "file_transitions disk cid p p' orders fills w =
     r_bind (persist_transition disk cid p p' orders fills (snd w)) (\<lambda>s. Inr (fst w, s))"

definition file_sessions ::
    "disk \<Rightarrow> bool \<Rightarrow> string \<Rightarrow> string list \<Rightarrow> portfolio_state \<Rightarrow> position_state list \<Rightarrow> nat \<Rightarrow> nat
      \<Rightarrow> 'v \<times> report_files \<Rightarrow> ('v \<times> report_files) result" where
  "file_sessions disk has_path sid cids final positions n actions w =
     r_bind (persist_session_summary disk has_path sid cids final positions n actions (snd w))
       (\<lambda>s. Inr (fst w, s))"

section \<open>What the records tell\<close>

text \<open>Texts that tell different values apart.\<close>

definition proper_texts :: "value_texts \<Rightarrow> bool" where
  "proper_texts x \<longleftrightarrow> inj (vt_dec x) \<and> inj (vt_iso x)"

lemma text_inject:
  assumes "proper_texts x"
  shows "vt_dec x a = vt_dec x b \<longleftrightarrow> a = b" "vt_iso x t = vt_iso x u \<longleftrightarrow> t = u"
  using assms by (simp_all add: proper_texts_def inj_eq)

lemma opt_dec_inject:
  "proper_texts x \<Longrightarrow> to_json_compatible x (opt_dec a) = to_json_compatible x (opt_dec b) \<longleftrightarrow> a = b"
  by (auto simp: opt_dec_def text_inject split: option.splits)

lemma str_list_json [simp]: "to_json_compatible x (str_list ss) = JList (map JStr ss)"
  by (simp add: str_list_def)

lemma map_JStr_inject [simp]: "map JStr ss = map JStr ts \<longleftrightarrow> ss = ts"
  by (rule inj_map_eq_map) (simp add: inj_def)

lemma signal_json_inject:
  "proper_texts x \<Longrightarrow> to_json_compatible x (signal_dict s) = to_json_compatible x (signal_dict s') \<longleftrightarrow> s = s'"
  by (cases s; cases s') (auto simp: signal_dict_def text_inject opt_dec_inject)

lemma risk_json_inject:
  "proper_texts x \<Longrightarrow> to_json_compatible x (risk_dict r) = to_json_compatible x (risk_dict r') \<longleftrightarrow> r = r'"
  by (cases r; cases r') (auto simp: risk_dict_def text_inject opt_dec_inject signal_json_inject)

lemma intent_json_inject:
  "proper_texts x \<Longrightarrow> to_json_compatible x (intent_dict i) = to_json_compatible x (intent_dict i') \<longleftrightarrow> i = i'"
  by (cases i; cases i') (auto simp: intent_dict_def text_inject opt_dec_inject)

lemma event_json_inject:
  "proper_texts x \<Longrightarrow> to_json_compatible x (event_dict e) = to_json_compatible x (event_dict e') \<longleftrightarrow> e = e'"
  by (cases e; cases e') (auto simp: event_dict_def text_inject)

lemma map_json_inject:
  assumes "\<And>a b. to_json_compatible x (f a) = to_json_compatible x (f b) \<longleftrightarrow> a = b"
  shows "map (to_json_compatible x \<circ> f) as = map (to_json_compatible x \<circ> f) bs \<longleftrightarrow> as = bs"
  by (rule inj_map_eq_map) (simp add: inj_def assms)

lemma quality_values_inject [simp]:
  "map quality_state_value qs = map quality_state_value qs' \<longleftrightarrow> qs = qs'"
  "map (JStr \<circ> quality_state_value) qs = map (JStr \<circ> quality_state_value) qs' \<longleftrightarrow> qs = qs'"
  by (rule inj_map_eq_map, simp add: inj_def)+

text \<open>The stored record of a cycle determines the cycle.\<close>

lemma cycle_json_inject:
  assumes "proper_texts x"
  shows "to_json_compatible x (cycle_dict r) = to_json_compatible x (cycle_dict r') \<longleftrightarrow> r = r'"
  by (cases r; cases r')
    (auto simp: cycle_dict_def text_inject [OF assms] map_json_inject [OF signal_json_inject [OF assms]]
      map_json_inject [OF risk_json_inject [OF assms]] map_json_inject [OF intent_json_inject [OF assms]]
      map_json_inject [OF event_json_inject [OF assms]])

section \<open>What a run leaves in the files\<close>

text \<open>The files after a persisted cycle.\<close>

definition filed ::
    "report_gateway \<Rightarrow> cycle_result \<Rightarrow> feature_snapshot \<Rightarrow> decision_context \<Rightarrow> health_snapshot option \<Rightarrow> report_files
      \<Rightarrow> report_files" where
  "filed gw r f dc health s =
     (let summary = build_cycle_summary (gw_mode gw) r f dc (rc_completed_at r) health;
          latest = build_runtime_health summary health;
          s1 = s\<lparr>rf_cycles := rf_cycles s @ [build_record (gw_texts gw) r f dc (rc_completed_at r)]\<rparr>
      in if gw_has_status gw
         then s1\<lparr>rf_summaries := rf_summaries s @ [summary], rf_health := Some latest,
           rf_report := Some (render_operator_report (gw_texts gw) summary latest)\<rparr>
         else s1)"

lemma access_Inr [simp]: "access disk a = Inr u \<longleftrightarrow> disk a = None"
  by (cases "disk a") (simp_all add: access_def)

lemma write_file_Inr [simp]: "write_file disk a change s = Inr s' \<longleftrightarrow> disk (WriteTo a) = None \<and> s' = change s"
  by (auto simp: write_file_def r_bind_Inr)

lemma persist_cycle_Inr: "persist_cycle gw r f dc health s = Inr s' \<Longrightarrow> s' = filed gw r f dc health s"
  by (auto simp: persist_cycle_def append_record_def persist_status_def filed_def Let_def r_bind_Inr split: if_splits)

lemma persist_cycle_total: "gw_disk gw = (\<lambda>_. None) \<Longrightarrow> persist_cycle gw r f dc health s = Inr (filed gw r f dc health s)"
  by (simp add: persist_cycle_def append_record_def persist_status_def filed_def Let_def write_file_def access_def)

text \<open>A context whose clock, health provider and gate leave the files alone.\<close>

definition keeps_files :: "('v \<times> report_files) runtime_context \<Rightarrow> bool" where
  "keeps_files cx \<longleftrightarrow> (\<forall>w. snd (snd (cx_now cx w)) = snd w) \<and>
     (\<forall>g w. cx_health cx = Some g \<longrightarrow> snd (snd (g w)) = snd w) \<and>
     (\<forall>g p e a w o' w'. cx_gate cx = Some g \<longrightarrow> g p e a w = Inr (o', w') \<longrightarrow> snd w' = snd w)"

lemma keeps_files_now: "keeps_files cx \<Longrightarrow> cx_now cx w = (t, w') \<Longrightarrow> snd w' = snd w"
  by (metis keeps_files_def snd_conv)

lemma keeps_files_provider: "keeps_files cx \<Longrightarrow> cx_health cx = Some g \<Longrightarrow> g w = (h, w') \<Longrightarrow> snd w' = snd w"
  by (metis keeps_files_def snd_conv)

lemma keeps_files_health:
  assumes "keeps_files cx" and "exchange_health cx w = (h, w')" shows "snd w' = snd w"
proof (cases "cx_health cx")
  case None
  then show ?thesis using assms(2) keeps_files_now [OF assms(1)]
    by (auto simp: exchange_health_def current_or_unknown_def Let_def simp del: split_paired_All split: if_splits prod.splits)
next
  case (Some g)
  obtain h1 w1 where g: "g w = (h1, w1)" by (cases "g w")
  then have "snd w1 = snd w" using keeps_files_provider [OF assms(1) Some] by blast
  then show ?thesis using assms(2) keeps_files_now [OF assms(1), of w1] Some g
    by (cases "cx_now cx w1") (auto simp: exchange_health_def current_or_unknown_def Let_def simp del: split_paired_All
        split: if_splits option.splits)
qed

lemma keeps_files_gate:
  assumes "keeps_files cx" and "consult_gate cx p e a w = Inr (x, w')" shows "snd w' = snd w"
proof (cases "cx_gate cx")
  case (Some g)
  then obtain o' where "g p e a w = Inr (o', w')"
    using assms(2) by (auto simp: consult_gate_def Let_def r_bind_Inr split: if_splits)
  with Some assms(1) show ?thesis unfolding keeps_files_def by blast
qed (use assms(2) in \<open>simp add: consult_gate_def\<close>)

lemma file_gateway_Inr: "file_gateway gw r f dc h w = Inr w' \<Longrightarrow> snd w' = filed gw r f dc h (snd w)"
  by (auto simp: file_gateway_def r_bind_Inr dest: persist_cycle_Inr)

lemma persist_filed:
  assumes "persist cx r f dc w = Inr (r', w')" and "cx_persist cx = file_gateway gw" and "keeps_files cx"
  obtains h where "r' = r" and "snd w' = filed gw r f dc h (snd w)"
proof -
  obtain h w1 where h: "exchange_health cx w = (h, w1)" by (cases "exchange_health cx w")
  have "file_gateway gw r f dc h w1 = Inr w'" "r' = r"
    using assms(1,2) h by (auto simp: persist_def r_bind_Inr)
  then show thesis using file_gateway_Inr keeps_files_health [OF assms(3) h] that by metis
qed

text \<open>A cycle that was persisted with its own identity, decision context and features.\<close>

definition left_record ::
    "report_gateway \<Rightarrow> string \<Rightarrow> instrument \<Rightarrow> bar_slice \<Rightarrow> cycle_result \<Rightarrow> report_files \<Rightarrow> report_files \<Rightarrow> bool" where
  "left_record gw cid i b r s s' \<longleftrightarrow>
     (\<exists>f dc h. s' = filed gw r f dc h s \<and> dc_cycle_id dc = cid \<and> dc_instrument dc = i \<and> dc_as_of dc = bs_end_time b \<and>
        rc_cycle_id r = cid)"

lemma build_context_identity:
  assumes "build_context cx cid i b p f = Inr dc"
  shows "dc_cycle_id dc = cid" "dc_instrument dc = i" "dc_as_of dc = bs_end_time b"
  using assms by (auto simp: build_context_def Let_def mk_decision_context_def split: prod.splits)

lemma record_quality_identity:
  assumes "record_quality q dc = Inr dc'"
  shows "dc_cycle_id dc' = dc_cycle_id dc" "dc_instrument dc' = dc_instrument dc" "dc_as_of dc' = dc_as_of dc"
  using assms by (auto simp: record_quality_def mk_decision_context_def)

lemma recorded_identity:
  assumes "(if c then record_quality q dc else Inr dc) = Inr dc'" and "build_context cx cid i b p f = Inr dc"
  shows "dc_cycle_id dc' = cid \<and> dc_instrument dc' = i \<and> dc_as_of dc' = bs_end_time b"
  using assms build_context_identity [OF assms(2)] record_quality_identity by (auto split: if_splits)

lemma stopped_cycle_id: "stopped_cycle cid t1 t2 i states details alerts = Inr r \<Longrightarrow> rc_cycle_id r = cid"
  by (auto simp: stopped_cycle_def)

lemma invalid_bar_files:
  assumes "invalid_bar_cycle cx cid i reasons t w = Inr (r, w')" and "keeps_files cx"
  shows "snd w' = snd w"
  using assms keeps_files_now [OF assms(2)] by (auto simp: invalid_bar_cycle_def r_bind_Inr split: prod.splits)

text \<open>The cycle of each runner.\<close>

lemma live_cycle_files:
  assumes "restricted_live_cycle lag cx cid i b ctx p e a w = Inr (r, w')" and "cx_persist cx = file_gateway gw"
    and "keeps_files cx"
  shows "if bv_is_valid (validate_bars b) then left_record gw cid i b r (snd w) (snd w') else snd w' = snd w"
  using assms(1)
proof (cases rule: restricted_live_cases)
  case (invalid started w1)
  then show ?thesis using invalid_bar_files [OF _ assms(3)] keeps_files_now [OF assms(3)] by metis
next
  case (closed started w1 f dc)
  let ?q = "evaluate_quality lag (cx_mode cx) cx dc ctx"
  obtain t w2 where t: "cx_now cx w1 = (t, w2)" by (cases "cx_now cx w1")
  obtain r0 dc' where r0: "stopped_cycle cid started t i (qe_states ?q) (qe_details ?q)
      (if qe_details ?q = [] then [''restricted-live quality gate failed closed''] else qe_details ?q) = Inr r0"
    and dc': "record_quality ?q dc = Inr dc'" and stored: "persist cx r0 f dc' w2 = Inr (r, w')"
    using closed(6) unfolding fail_closed_cycle_def t Let_def prod.case r_bind_Inr by blast
  obtain h where h: "r = r0" "snd w' = filed gw r0 f dc' h (snd w2)" using persist_filed [OF stored assms(2,3)] by blast
  moreover have "snd w2 = snd w" using keeps_files_now [OF assms(3)] t closed(1) by metis
  moreover have "dc_cycle_id dc' = cid \<and> dc_instrument dc' = i \<and> dc_as_of dc' = bs_end_time b"
    using record_quality_identity [OF dc'] build_context_identity [OF closed(4)] by simp
  ultimately show ?thesis using closed(2) stopped_cycle_id [OF r0] unfolding left_record_def by auto
next
  case (prepared started w1 f dc)
  let ?q = "evaluate_quality lag (cx_mode cx) cx dc ctx"
  obtain signals decisions intents events alerts ok w2 where 1: "cx_strategy cx dc = Inr signals"
    "cx_risk cx signals p (cx_venue_profile cx) = Inr decisions"
    "prepare_intents cid (py_or (cx_execution_venue cx) []) i (bs_end_time b) decisions = Inr intents"
    "consult_gate cx p e a w1 = Inr ((events, alerts, ok), w2)"
    using prepared(6) unfolding prepared_cycle_def by (auto simp: r_bind_Inr)
  obtain t w3 where t: "cx_now cx w2 = (t, w3)" by (cases "cx_now cx w2")
  obtain r0 where r0: "rc_cycle_id r0 = cid" and stored: "persist cx r0 f dc w3 = Inr (r, w')"
    using prepared(6) unfolding prepared_cycle_def 1 r_bind_simps prod.case t Let_def r_bind_Inr mk_cycle_result_Inr
    by (force simp del: dedup.simps)
  obtain h where h: "r = r0" "snd w' = filed gw r0 f dc h (snd w3)" using persist_filed [OF stored assms(2,3)] by blast
  moreover have "snd w3 = snd w"
    using keeps_files_now [OF assms(3)] keeps_files_gate [OF assms(3) 1(4)] t prepared(1) by metis
  ultimately show ?thesis using prepared(2) r0 build_context_identity [OF prepared(4)]
    unfolding left_record_def by auto
qed

lemma report_only_files:
  assumes "report_only_run lag cx cid i b ctx p w = Inr ((r, mach), w')" and "cx_persist cx = file_gateway gw"
    and "keeps_files cx"
  shows "left_record gw cid i b r (snd w) (snd w')"
proof -
  obtain t1 w1 where t1: "cx_now cx w = (t1, w1)" by (cases "cx_now cx w")
  obtain t2 w2 where t2: "cx_now cx w1 = (t2, w2)" by (cases "cx_now cx w1")
  obtain f dc where f: "cx_features cx b ctx = Inr f" and dc: "build_context cx cid i b p f = Inr dc"
    using assms(1) by (auto simp: report_only_run_def Let_def r_bind_Inr split: prod.splits)
  have same: "snd w2 = snd w" using keeps_files_now [OF assms(3)] t1 t2 by metis
  have "\<exists>r0 dc'. rc_cycle_id r0 = cid \<and> persist cx r0 f dc' w2 = Inr (r, w') \<and>
      dc_cycle_id dc' = cid \<and> dc_instrument dc' = i \<and> dc_as_of dc' = bs_end_time b"
  proof (cases "bv_is_valid (validate_bars b)")
    case False
    obtain r0 where "stopped_cycle cid t1 t2 i [INCOMPLETE_BAR] (bv_reasons (validate_bars b)) (bv_reasons (validate_bars b))
        = Inr r0" "persist cx r0 f dc w2 = Inr (r, w')"
      using assms(1) False unfolding report_only_run_def t1 Let_def prod.case f r_bind_simps dc t2 by (auto simp: r_bind_Inr)
    then show ?thesis using stopped_cycle_id build_context_identity [OF dc] by blast
  next
    case True
    let ?q = "evaluate_quality lag (cx_mode cx) cx dc ctx"
    obtain dc' r0 where "(if qe_states ?q \<noteq> [] then record_quality ?q dc else Inr dc) = Inr dc'"
      "rc_cycle_id r0 = cid" "persist cx r0 f dc' w2 = Inr (r, w')"
      using assms(1) True unfolding report_only_run_def t1 Let_def prod.case f r_bind_simps dc t2 r_bind_Inr mk_cycle_result_Inr
      by (force simp: r_bind_Inr simp del: if_split)
    then show ?thesis using recorded_identity [OF _ dc] by blast
  qed
  then obtain r0 dc' where r0: "rc_cycle_id r0 = cid" and stored: "persist cx r0 f dc' w2 = Inr (r, w')"
    and id: "dc_cycle_id dc' = cid" "dc_instrument dc' = i" "dc_as_of dc' = bs_end_time b" by blast
  obtain h where "r = r0" "snd w' = filed gw r0 f dc' h (snd w2)" using persist_filed [OF stored assms(2,3)] by blast
  with r0 id same show ?thesis unfolding left_record_def by auto
qed

lemma left_record_facts:
  assumes "left_record gw cid i b r s s'" and "proper_texts (gw_texts gw)" and "gw_has_status gw"
  shows "\<exists>rec sm hl text. rf_cycles s' = rf_cycles s @ [rec] \<and> rf_summaries s' = rf_summaries s @ [sm] \<and>
    rf_health s' = Some hl \<and> rf_report s' = Some text \<and> rf_transitions s' = rf_transitions s \<and>
    rf_sessions s' = rf_sessions s \<and> rep_cycle_timestamp rec = bs_end_time b \<and>
    rep_instrument_id rec = in_instrument_id i \<and> rep_recorded_at rec = rc_completed_at r \<and>
    (\<forall>r'. rep_cycle rec = to_json_compatible (gw_texts gw) (cycle_dict r') \<longleftrightarrow> r' = r) \<and>
    rm_cycle_id sm = cid \<and> rm_mode sm = gw_mode gw \<and> rm_signal_count sm = length (rc_signals r) \<and>
    rm_risk_decision_count sm = length (rc_risk_decisions r) \<and>
    rm_execution_intent_count sm = length (rc_execution_intents r) \<and> rm_alerts sm = rc_alerts r \<and>
    (\<not> rc_success r \<longrightarrow> EXCHANGE_DATA_DEGRADED \<in> set (rth_flags hl)) \<and> rth_cycle_id hl = Some cid"
proof -
  obtain f dc h where 1: "s' = filed gw r f dc h s" "dc_cycle_id dc = cid" "dc_instrument dc = i"
    "dc_as_of dc = bs_end_time b" "rc_cycle_id r = cid" using assms(1) unfolding left_record_def by blast
  have j: "to_json_compatible (gw_texts gw) (cycle_dict r) = to_json_compatible (gw_texts gw) (cycle_dict r') \<longleftrightarrow> r' = r" for r'
    using cycle_json_inject [OF assms(2), of r r'] by auto
  show ?thesis using assms(3) 1
    by (auto simp: filed_def Let_def build_record_def build_cycle_summary_def build_runtime_health_def j)
qed

definition transition_of :: "string \<Rightarrow> paper_outcome \<Rightarrow> state_transition" where
  "transition_of cid x =
     \<lparr>tn_cycle_id = cid, tn_starting = po_starting x, tn_ending = po_ending x, tn_orders = po_orders x,
      tn_fills = po_fills x\<rparr>"

lemma paper_cycle_files:
  assumes "paper_cycle pr cid i b p ctx w = Inr (x, w')" and "cx_persist (pr_context pr) = file_gateway gw"
    and "pr_persist_transition pr = Some (file_transitions disk)" and "keeps_files (pr_context pr)"
  shows "po_starting x = p \<and> (if bv_is_valid (validate_bars b)
      then (\<exists>s. left_record gw cid i b (po_cycle x) (snd w) s \<and>
             snd w' = s\<lparr>rf_transitions := rf_transitions s @ [transition_of cid x]\<rparr>) \<and>
           apply_fills (pr_quote_asset pr) p (po_fills x) = Inr (po_ending x)
      else snd w' = snd w \<and> po_ending x = p \<and> po_orders x = [] \<and> po_fills x = [])"
proof -
  let ?cx = "pr_context pr"
  obtain t1 w1 where t1: "cx_now ?cx w = (t1, w1)" by (cases "cx_now ?cx w")
  then have w1: "snd w1 = snd w" using keeps_files_now [OF assms(4)] by blast
  show ?thesis
  proof (cases "bv_is_valid (validate_bars b)")
    case False
    obtain r w2 where r: "invalid_bar_cycle ?cx cid i (bv_reasons (validate_bars b)) t1 w1 = Inr (r, w2)"
      using assms(1) t1 False by (auto simp: paper_cycle_def r_bind_Inr)
    then have "snd w2 = snd w1" using invalid_bar_files [OF r assms(4)] by simp
    with assms(1) t1 False r w1 show ?thesis by (auto simp: paper_cycle_def r_bind_Inr)
  next
    case True
    obtain f dc dc' t where dc: "build_context ?cx cid i b p f = Inr dc"
      and dc': "(if qe_states (evaluate_quality (pr_max_lag pr) (cx_mode ?cx) ?cx dc ctx) \<noteq> [] then
        record_quality (evaluate_quality (pr_max_lag pr) (cx_mode ?cx) ?cx dc ctx) dc else Inr dc) = Inr dc'"
      and t: "paper_trade pr i b p dc' = Inr t"
      and rep: "report_trade pr cid i p f dc' (evaluate_quality (pr_max_lag pr) (cx_mode ?cx) ?cx dc ctx) t1 t w1 = Inr (x, w')"
      using assms(1) t1 True unfolding paper_cycle_def Let_def by (auto simp: r_bind_Inr simp del: if_split)
    obtain t2 w2 where t2: "cx_now ?cx w1 = (t2, w2)" by (cases "cx_now ?cx w1")
    obtain r0 r1 w3 where r0: "rc_cycle_id r0 = cid" and stored: "persist ?cx r0 f dc' w2 = Inr (r1, w3)"
      and moved: "file_transitions disk cid p (tg_ending t) (tg_orders t) (tg_fills t) w3 = Inr w'"
      and x: "x = \<lparr>po_cycle = r1, po_starting = p, po_ending = tg_ending t, po_positions = tg_positions t,
        po_orders = tg_orders t, po_fills = tg_fills t\<rparr>"
      using rep unfolding report_trade_def Let_def t2 prod.case assms(3) option.case r_bind_Inr mk_cycle_result_Inr
      by (force simp: r_bind_Inr)
    obtain h where h: "r1 = r0" "snd w3 = filed gw r0 f dc' h (snd w2)" using persist_filed [OF stored assms(2,4)] by blast
    have "left_record gw cid i b (po_cycle x) (snd w) (snd w3)"
      using h r0 recorded_identity [OF dc' dc] keeps_files_now [OF assms(4) t2] w1 unfolding left_record_def by (auto simp: x)
    moreover have "snd w' = (snd w3)\<lparr>rf_transitions := rf_transitions (snd w3) @ [transition_of cid x]\<rparr>"
      using moved by (auto simp: file_transitions_def persist_transition_def r_bind_Inr transition_of_def x)
    ultimately show ?thesis using True paper_trade_Inr(2) [OF t] by (auto simp: x)
  qed
qed

text \<open>Transitions that lead from one portfolio to the next, each by its own fills.\<close>

fun replayed :: "string \<Rightarrow> portfolio_state \<Rightarrow> state_transition list \<Rightarrow> portfolio_state \<Rightarrow> bool" where
  "replayed quote p [] final \<longleftrightarrow> final = p"
| "replayed quote p (t # ts) final \<longleftrightarrow> tn_starting t = p \<and> apply_fills quote p (tn_fills t) = Inr (tn_ending t) \<and>
     replayed quote (tn_ending t) ts final"

abbreviation traded :: "string \<times> bar_slice \<Rightarrow> bool" where
  "traded input \<equiv> bv_is_valid (validate_bars (snd input))"

lemma paper_cycles_files:
  assumes "paper_cycles pr i inputs p w = Inr ((xs, final), w')" and "cx_persist (pr_context pr) = file_gateway gw"
    and "pr_persist_transition pr = Some (file_transitions disk)" and "keeps_files (pr_context pr)"
  shows "\<exists>ts recs. rf_transitions (snd w') = rf_transitions (snd w) @ ts \<and> rf_cycles (snd w') = rf_cycles (snd w) @ recs \<and>
    rf_sessions (snd w') = rf_sessions (snd w) \<and> length xs = length inputs \<and>
    map tn_cycle_id ts = map fst (filter traded inputs) \<and> replayed (pr_quote_asset pr) p ts final \<and>
    concat (map tn_fills ts) = concat (map po_fills xs) \<and>
    map (\<lambda>r. xs_cycle_id (rep_context r)) recs = map fst (filter traded inputs) \<and>
    length (filter (\<lambda>x. po_orders x \<noteq> []) xs) \<le> length ts"
  using assms(1)
proof (induction inputs arbitrary: p w xs)
  case (Cons c inputs)
  obtain cid b where c: "c = (cid, b)" by (cases c)
  obtain x w1 ys where x: "paper_cycle pr cid i b p None w = Inr (x, w1)"
    and rest: "paper_cycles pr i inputs (po_ending x) w1 = Inr ((ys, final), w')" and xs: "xs = x # ys"
    using Cons.prems unfolding c by (auto simp: r_bind_Inr)
  note step = paper_cycle_files [OF x assms(2-4)]
  obtain ts recs where ih: "rf_transitions (snd w') = rf_transitions (snd w1) @ ts"
    "rf_cycles (snd w') = rf_cycles (snd w1) @ recs" "rf_sessions (snd w') = rf_sessions (snd w1)"
    "length ys = length inputs" "map tn_cycle_id ts = map fst (filter traded inputs)"
    "replayed (pr_quote_asset pr) (po_ending x) ts final" "concat (map tn_fills ts) = concat (map po_fills ys)"
    "map (\<lambda>r. xs_cycle_id (rep_context r)) recs = map fst (filter traded inputs)"
    "length (filter (\<lambda>x. po_orders x \<noteq> []) ys) \<le> length ts" using Cons.IH [OF rest] by blast
  show ?case
  proof (cases "bv_is_valid (validate_bars b)")
    case False
    then show ?thesis using step ih by (intro exI [of _ ts] exI [of _ recs]) (simp add: c xs)
  next
    case True
    then obtain s where s: "left_record gw cid i b (po_cycle x) (snd w) s"
      "snd w1 = s\<lparr>rf_transitions := rf_transitions s @ [transition_of cid x]\<rparr>"
      "apply_fills (pr_quote_asset pr) p (po_fills x) = Inr (po_ending x)" "po_starting x = p" using step by auto
    obtain f dc h where "s = filed gw (po_cycle x) f dc h (snd w)" "dc_cycle_id dc = cid"
      using s(1) unfolding left_record_def by blast
    then obtain rec where rec: "rf_cycles s = rf_cycles (snd w) @ [rec]" "xs_cycle_id (rep_context rec) = cid"
      "rf_transitions s = rf_transitions (snd w)" "rf_sessions s = rf_sessions (snd w)"
      by (auto simp: filed_def Let_def build_record_def)
    show ?thesis using ih s(2-4) rec True
      by (intro exI [of _ "transition_of cid x # ts"] exI [of _ "rec # recs"]) (simp add: c xs transition_of_def)
  qed
qed simp

section \<open>Properties\<close>

text \<open>The record, the summary and the status of exactly this cycle, and nothing else, were added.\<close>

definition audited :: "report_gateway \<Rightarrow> string \<Rightarrow> instrument \<Rightarrow> bar_slice \<Rightarrow> cycle_result \<Rightarrow> report_files \<Rightarrow> report_files \<Rightarrow> bool" where
  "audited gw cid i b r s s' \<longleftrightarrow>
     (\<exists>rec sm hl text. rf_cycles s' = rf_cycles s @ [rec] \<and> rf_summaries s' = rf_summaries s @ [sm] \<and>
    rf_health s' = Some hl \<and> rf_report s' = Some text \<and> rf_transitions s' = rf_transitions s \<and>
    rf_sessions s' = rf_sessions s \<and> rep_cycle_timestamp rec = bs_end_time b \<and>
    rep_instrument_id rec = in_instrument_id i \<and> rep_recorded_at rec = rc_completed_at r \<and>
    (\<forall>r'. rep_cycle rec = to_json_compatible (gw_texts gw) (cycle_dict r') \<longleftrightarrow> r' = r) \<and>
    rm_cycle_id sm = cid \<and> rm_mode sm = gw_mode gw \<and> rm_signal_count sm = length (rc_signals r) \<and>
    rm_risk_decision_count sm = length (rc_risk_decisions r) \<and>
    rm_execution_intent_count sm = length (rc_execution_intents r) \<and> rm_alerts sm = rc_alerts r \<and>
    (\<not> rc_success r \<longrightarrow> EXCHANGE_DATA_DEGRADED \<in> set (rth_flags hl)) \<and> rth_cycle_id hl = Some cid)"

text \<open>
  C19. A cycle that returns has left its audit trail: with the JSONL gateway and its status files, a report-only
  cycle always adds exactly one record, one summary and the latest status, of its own bar, instrument and
  cycle id; the record determines the whole cycle result, and a failed cycle shows as degraded. A
  restricted-live cycle does so exactly when its bar slice closes bars; for any other slice the files stay
  as they were, and its failure is on record nowhere.
\<close>

theorem cycle_leaves_audit_trail:
  assumes "cx_persist cx = file_gateway gw" and "gw_has_status gw" and "keeps_files cx" and "proper_texts (gw_texts gw)"
  shows "(\<forall>r mach w'. report_only_run lag cx cid i b ctx p w = Inr ((r, mach), w') \<longrightarrow>
      audited gw cid i b r (snd w) (snd w')) \<and>
    (\<forall>r w'. restricted_live_cycle lag cx cid i b ctx p e a w = Inr (r, w') \<longrightarrow>
      (if bv_is_valid (validate_bars b) then audited gw cid i b r (snd w) (snd w')
       else snd w' = snd w \<and> \<not> rc_success r))"
proof (intro conjI allI impI)
  fix r mach w' assume "report_only_run lag cx cid i b ctx p w = Inr ((r, mach), w')"
  from left_record_facts [OF report_only_files [OF this assms(1,3)] assms(4,2)]
  show "audited gw cid i b r (snd w) (snd w')" unfolding audited_def .
next
  fix r w' assume run: "restricted_live_cycle lag cx cid i b ctx p e a w = Inr (r, w')"
  note files = live_cycle_files [OF run assms(1,3)]
  show "if bv_is_valid (validate_bars b) then audited gw cid i b r (snd w) (snd w') else snd w' = snd w \<and> \<not> rc_success r"
  proof (cases "bv_is_valid (validate_bars b)")
    case True
    then show ?thesis using left_record_facts [OF _ assms(4,2)] files unfolding audited_def by simp
  next
    case False
    obtain t w1 where "invalid_bar_cycle cx cid i (bv_reasons (validate_bars b)) t w1 = Inr (r, w')"
      using run False by (cases rule: restricted_live_cases) auto
    then have "\<not> rc_success r"
      by (auto simp: invalid_bar_cycle_def r_bind_Inr stopped_cycle_def split: prod.splits)
    with False files show ?thesis by simp
  qed
qed

text \<open>
  C20. The files of a paper session replay it: with the paper gateway every cycle over a closed bar slice adds one
  transition and one cycle record under its id, in order; each transition starts where the one before ended
  and its ending portfolio is that of applying its own fills; the chain leads from the initial portfolio to
  the final one; its fills are the session's fills; and one session summary with the counts is added.
\<close>

theorem session_files_replay:
  assumes "run_cycles pr sid i inputs p w = Inr (s, w')" and "cx_persist (pr_context pr) = file_gateway gw"
    and "pr_persist_transition pr = Some (file_transitions disk)"
    and "pr_persist_summary pr = Some (file_sessions disk True)" and "keeps_files (pr_context pr)"
  shows "\<exists>ts recs. rf_transitions (snd w') = rf_transitions (snd w) @ ts \<and> rf_cycles (snd w') = rf_cycles (snd w) @ recs \<and>
    map tn_cycle_id ts = map fst (filter traded inputs) \<and>
    map (\<lambda>r. xs_cycle_id (rep_context r)) recs = map fst (filter traded inputs) \<and>
    replayed (pr_quote_asset pr) p ts (pss_final s) \<and>
    concat (map tn_fills ts) = concat (map po_fills (pss_outcomes s)) \<and>
    (\<exists>n\<le>length ts. rf_sessions (snd w') = rf_sessions (snd w) @
      [\<lparr>ses_id = sid, ses_cycle_ids = map fst inputs, ses_total_cycles = length inputs, ses_action_cycles = n,
        ses_final_portfolio = pss_final s, ses_final_positions = pss_positions s\<rparr>])"
proof -
  obtain xs final w1 positions where xs: "paper_cycles pr i inputs p w = Inr ((xs, final), w1)"
    and s: "s = \<lparr>pss_id = sid, pss_outcomes = xs, pss_final = final, pss_positions = positions\<rparr>"
    and summary: "file_sessions disk True sid (map fst inputs) final positions (length xs)
      (length (filter (\<lambda>x. po_orders x \<noteq> []) xs)) w1 = Inr w'"
    using assms(1) unfolding run_cycles_def assms(4) option.case r_bind_Inr by (force simp: r_bind_Inr)
  have "snd w' = (snd w1)\<lparr>rf_sessions := rf_sessions (snd w1) @ [\<lparr>ses_id = sid, ses_cycle_ids = map fst inputs,
      ses_total_cycles = length xs, ses_action_cycles = length (filter (\<lambda>x. po_orders x \<noteq> []) xs),
      ses_final_portfolio = final, ses_final_positions = positions\<rparr>]\<rparr>"
    using summary by (auto simp: file_sessions_def persist_session_summary_def r_bind_Inr)
  with paper_cycles_files [OF xs assms(2,3,5)] show ?thesis by (auto simp: s)
qed

section \<open>Concrete runs\<close>

text \<open>Injective texts: an encoding of the numerator and denominator, or of the instant and offset.\<close>

definition sample_texts :: value_texts where
  "sample_texts =
     \<lparr>vt_dec = (\<lambda>d. let (a, b) = quotient_of (dec_val d) in nat_str (prod_encode (int_encode a, int_encode b))),
      vt_iso = (\<lambda>t. nat_str (prod_encode (int_encode (dt_us t),
        case dt_offset t of None \<Rightarrow> 0 | Some k \<Rightarrow> Suc (int_encode k)))),
      vt_dumps = (\<lambda>v. json_repr v)\<rparr>"

lemma nat_str_inject: "nat_str m = nat_str n \<longleftrightarrow> m = n"
  using parse_nat_str by (metis option.inject)

lemma sample_texts_proper: "proper_texts sample_texts"
proof -
  have "inj (vt_dec sample_texts)"
  proof (rule injI)
    fix d e assume "vt_dec sample_texts d = vt_dec sample_texts e"
    then have "quotient_of (dec_val d) = quotient_of (dec_val e)"
      by (auto simp: sample_texts_def nat_str_inject inj_eq [OF inj_int_encode] split: prod.splits)
    then show "d = e" by (simp add: quotient_of_inject decimal_eq_iff)
  qed
  moreover have "inj (vt_iso sample_texts)"
  proof (rule injI)
    fix t u assume "vt_iso sample_texts t = vt_iso sample_texts u"
    then show "t = u"
      by (cases t; cases u) (auto simp: sample_texts_def nat_str_inject inj_eq [OF inj_int_encode] split: option.splits)
  qed
  ultimately show ?thesis by (simp add: proper_texts_def)
qed

definition sample_gateway :: report_gateway where
  "sample_gateway = \<lparr>gw_texts = sample_texts, gw_disk = (\<lambda>_. None), gw_has_status = True, gw_mode = ''paper''\<rparr>"

definition empty_files :: report_files where
  "empty_files =
     \<lparr>rf_cycles = [], rf_summaries = [], rf_health = None, rf_report = None, rf_transitions = [], rf_sessions = []\<rparr>"

definition sample_filed_context :: "runner_mode \<Rightarrow> (int \<times> report_files) runtime_context" where
  "sample_filed_context mode =
     \<lparr>cx_mode = mode,
      cx_features = build_features \<lparr>bld_tolerate_partial = True, bld_index = None, bld_stable = None\<rparr>,
      cx_strategy = route [evaluate_breakout default_breakout, evaluate_regime ''regime''] True,
      cx_risk = (\<lambda>sigs p v. evaluate_risk (Dec 1000) sigs), cx_intents = (\<lambda>ds v t. build_intents ''paper'' v t ds),
      cx_persist = file_gateway sample_gateway, cx_index = None, cx_stable = None, cx_gate = None,
      cx_health = None, cx_venue_profile = None, cx_execution_venue = Some ''paper'', cx_time_sync_ok = None,
      cx_time_sync_detail = None, cx_now = (\<lambda>w. (utc (fst w), (fst w + 1, snd w)))\<rparr>"

lemma sample_gateway_stores: "\<exists>w'. file_gateway sample_gateway r f dc h w = Inr w'"
  by (simp add: file_gateway_def persist_cycle_total sample_gateway_def)

lemma sample_filed_keeps: "keeps_files (sample_filed_context mode)"
  by (simp add: keeps_files_def sample_filed_context_def)

theorem cycle_leaves_audit_trail_witness:
  "\<exists>r mach w'. report_only_run 0 (sample_filed_context MODE_REPORT_ONLY) ''c1'' sample_instrument sample_bars None
     sample_portfolio (0, empty_files) = Inr ((r, mach), w') \<and>
     audited sample_gateway ''c1'' sample_instrument sample_bars r empty_files (snd w')"
proof -
  let ?cx = "sample_filed_context MODE_REPORT_ONLY"
  have "\<exists>r mach w'. report_only_run 0 ?cx ''c1'' sample_instrument sample_bars None sample_portfolio (0, empty_files)
      = Inr ((r, mach), w') \<and> rc_success r \<and>
    st_completed mach = [NORMALIZED_SLICE, FEATURE_SNAPSHOT, STRATEGY_EVALUATION, RISK_EVALUATION,
      EXECUTION_INTENT, PERSISTENCE_REPORTING, EXCHANGE_RECONCILIATION] \<and> st_failure mach = None \<and>
    (\<forall>i. i \<in> set (rc_execution_intents r) \<longrightarrow> ei_side i = BUY \<and> ei_quantity i = bk_quantity default_breakout)"
  proof (rule report_only_completes [OF sample_bars_accepted])
    show "bv_is_valid (validate_bars sample_bars)" by (simp add: sample_bars_close)
  qed (auto simp: sample_filed_context_def sample_instrument_def sample_bars_def default_breakout_def blank_def
      py_space_def less_eq_decimal_def less_decimal_def sample_gateway_stores [simplified])
  then obtain r mach w' where run: "report_only_run 0 ?cx ''c1'' sample_instrument sample_bars None sample_portfolio
      (0, empty_files) = Inr ((r, mach), w')" by blast
  have "cx_persist ?cx = file_gateway sample_gateway" "gw_has_status sample_gateway" "proper_texts (gw_texts sample_gateway)"
    by (simp_all add: sample_filed_context_def sample_gateway_def sample_texts_proper)
  then have "audited sample_gateway ''c1'' sample_instrument sample_bars r (snd (0 :: int, empty_files)) (snd w')"
    using cycle_leaves_audit_trail [of ?cx sample_gateway 0 "''c1''" sample_instrument sample_bars None sample_portfolio
      "(0, empty_files)"] sample_filed_keeps run by blast
  with run show ?thesis by auto
qed

definition sample_filed_paper :: "(int \<times> report_files) paper_runner" where
  "sample_filed_paper =
     \<lparr>pr_context = (sample_filed_context MODE_PAPER)
        \<lparr>cx_strategy := (\<lambda>dc. Inr []), cx_risk := (\<lambda>sigs p v. Inr []), cx_intents := (\<lambda>ds v t. Inr [sample_intent])\<rparr>,
      pr_simulator = \<lparr>sim_fee_bps = 0, sim_fee_asset = ''USDT''\<rparr>, pr_quote_asset = ''USDT'',
      pr_persist_transition = Some (file_transitions (\<lambda>_. None)),
      pr_persist_summary = Some (file_sessions (\<lambda>_. None) True), pr_max_lag = 0\<rparr>"

lemma sample_filed_cycle:
  "\<exists>x w'. paper_cycle sample_filed_paper ''c1'' sample_instrument sample_bars sample_portfolio None w = Inr (x, w') \<and>
     length (po_fills x) = 1"
proof -
  let ?cx = "pr_context sample_filed_paper"
  obtain f where f: "cx_features ?cx sample_bars None = Inr f" "ft_instrument_id f = bs_instrument_id sample_bars"
    "ft_timeframe f = bs_timeframe sample_bars"
    using build_features_total [OF sample_bars_valid] by (auto simp: sample_filed_paper_def sample_filed_context_def)
  have c: "\<not> blank ''c1''" "in_instrument_id sample_instrument = bs_instrument_id sample_bars"
    by (simp_all add: blank_def py_space_def sample_instrument_def sample_bars_def)
  obtain dc where dc: "build_context ?cx ''c1'' sample_instrument sample_bars sample_portfolio f = Inr dc"
    "dc_latest_candle dc = last (bs_candles sample_bars)"
    using build_context_total [OF sample_bars_valid(1,4) c f(2,3)] by blast
  have none: "dc_index_snapshot_status dc = None" "dc_stablecoin_snapshot_status dc = None"
    using dc(1) by (auto simp: build_context_def index_of_def stable_of_def mk_decision_context_def sample_filed_paper_def
        sample_filed_context_def)
  have q: "qe_states (evaluate_quality (pr_max_lag sample_filed_paper) (cx_mode ?cx) ?cx dc None) = []"
    "qe_details (evaluate_quality (pr_max_lag sample_filed_paper) (cx_mode ?cx) ?cx dc None) = []"
    by (simp_all add: evaluate_quality_def Let_def dc(2) none context_issues_def snapshot_issues_def sample_bars_def
        sample_candle_def sample_filed_paper_def sample_filed_context_def)
  show ?thesis
    by (rule paper_cycle_sample [OF f(1) dc(1) q])
      (auto simp: sample_filed_paper_def sample_filed_context_def sample_paper_def sample_gateway_stores [simplified]
        file_transitions_def persist_transition_def access_def write_file_def)
qed

theorem session_files_replay_witness:
  "\<exists>s w' ts. run_cycles sample_filed_paper ''s1'' sample_instrument [(''c1'', sample_bars)] sample_portfolio (0, empty_files)
     = Inr (s, w') \<and> rf_transitions (snd w') = ts \<and> map tn_cycle_id ts = [''c1''] \<and>
     replayed ''USDT'' sample_portfolio ts (pss_final s) \<and> length (concat (map tn_fills ts)) = 1"
proof -
  obtain x w1 where x: "paper_cycle sample_filed_paper ''c1'' sample_instrument sample_bars sample_portfolio None (0, empty_files)
      = Inr (x, w1)" "length (po_fills x) = 1" using sample_filed_cycle by blast
  have parts: "cx_persist (pr_context sample_filed_paper) = file_gateway sample_gateway"
    "pr_persist_transition sample_filed_paper = Some (file_transitions (\<lambda>_. None))"
    "pr_persist_summary sample_filed_paper = Some (file_sessions (\<lambda>_. None) True)"
    "keeps_files (pr_context sample_filed_paper)" "pr_quote_asset sample_filed_paper = ''USDT''"
    by (simp_all add: sample_filed_paper_def sample_filed_context_def keeps_files_def)
  have total: "\<exists>w2. file_sessions (\<lambda>_. None) True sid cids final ps n k w1 = Inr w2" for sid cids final ps n k
    by (simp add: file_sessions_def persist_session_summary_def access_def write_file_def)
  obtain w2 where "file_sessions (\<lambda>_. None) True ''s1'' [''c1''] (po_ending x) (po_positions x) 1
      (length (filter (\<lambda>x. po_orders x \<noteq> []) [x])) w1 = Inr w2" using total by blast
  then have run: "run_cycles sample_filed_paper ''s1'' sample_instrument [(''c1'', sample_bars)] sample_portfolio (0, empty_files)
    = Inr (\<lparr>pss_id = ''s1'', pss_outcomes = [x], pss_final = po_ending x, pss_positions = po_positions x\<rparr>, w2)"
    by (simp add: run_cycles_def x(1) parts(3))
  from session_files_replay [OF run parts(1-4)] run x(2) show ?thesis
    by (auto simp: parts(5) empty_files_def sample_bars_close)
qed


end
