(* ===== verification/Launch.thy ===== *)
theory Launch
  imports ReplayHarness MarketData Reports
begin

text \<open>
  \<open>app/config/rehearsal.py\<close> and \<open>scripts/runtime2_rehearsal.py\<close>: the preflight validation of a rehearsal, the
  launch configuration read from TOML, and the launcher that builds a runtime and runs one cycle in the
  mode asked for. The file system, the TOML and JSON readers, \<open>datetime.fromisoformat\<close>, the clock and the
  gateways that write artifacts are parameters. Paths are their strings; command-line parsing and the
  printed lines are not modelled.
\<close>

section \<open>Settings and preflight\<close>

record rehearsal_settings =
  st_mode :: runner_mode
  st_venue :: string
  st_config_path :: string
  st_execution_data_path :: string
  st_context_data_path :: string
  st_reports_dir :: string
  st_logs_dir :: string
  st_exchange_mode :: string
  st_command_name :: string
  st_allow_order_submission :: bool
  st_confirm_rehearsal_only :: bool
  st_allow_restricted_live :: bool
  st_confirm_no_submission :: bool

record preflight_result =
  pre_ok :: bool
  pre_errors :: "string list"
  pre_warnings :: "string list"
  pre_checks :: "string list"

record run_summary =
  rs_recorded_at :: datetime
  rs_mode :: string
  rs_venue :: string
  rs_exchange_mode :: string
  rs_config_path :: string
  rs_execution_data_path :: string
  rs_context_data_path :: string
  rs_reports_dir :: string
  rs_logs_dir :: string
  rs_preflight_ok :: bool
  rs_errors :: "string list"
  rs_warnings :: "string list"
  rs_checks :: "string list"
  rs_order_submission_enabled :: bool
  rs_command_name :: string

fun runner_mode_value :: "runner_mode \<Rightarrow> string" where
  "runner_mode_value MODE_REPORT_ONLY = ''report_only''"
| "runner_mode_value MODE_PAPER = ''paper''"
| "runner_mode_value MODE_RESTRICTED_LIVE = ''restricted_live''"

fun expected_exchange_mode :: "runner_mode \<Rightarrow> string" where
  "expected_exchange_mode MODE_REPORT_ONLY = ''read_only''"
| "expected_exchange_mode MODE_PAPER = ''paper''"
| "expected_exchange_mode MODE_RESTRICTED_LIVE = ''restricted_live_rehearsal''"

text \<open>What the validation asks of the machine; a write probe that fails gives the text of its OSError.\<close>

record machine =
  ma_is_file :: "string \<Rightarrow> bool"
  ma_is_dir :: "string \<Rightarrow> bool"
  ma_write_probe :: "string \<Rightarrow> string option"
  ma_environ :: "(string, string) dict"

text \<open>A validation step gives one error, one warning or one passed check.\<close>

datatype finding = ErrorLine string | WarningLine string | CheckLine string

definition require :: "bool \<Rightarrow> string \<Rightarrow> string \<Rightarrow> finding" where
  "require ok error check = (if ok then CheckLine check else ErrorLine error)"

definition credentials_present :: "(string, string) dict \<Rightarrow> bool" where
  "credentials_present env \<longleftrightarrow>
     truthy (dict_get env ''BINANCE_API_KEY'') \<and> truthy (dict_get env ''BINANCE_API_SECRET'')"

definition probe_finding :: "machine \<Rightarrow> string \<Rightarrow> string \<Rightarrow> finding" where
  "probe_finding m label path =
     (case ma_write_probe m path of
        None \<Rightarrow> CheckLine (label @ '' path writable'')
      | Some exc \<Rightarrow> ErrorLine (label @ '' path not writable: '' @ path @ '' ('' @ exc @ '')''))"

definition preflight_findings :: "machine \<Rightarrow> rehearsal_settings \<Rightarrow> finding list" where
  "preflight_findings m s =
     (let live = (st_mode s = MODE_RESTRICTED_LIVE); expected = expected_exchange_mode (st_mode s) in
      [require (st_venue s = ''binance'') ''phase-1 rehearsal supports venue=binance only''
         ''venue restricted to binance'',
       require (ma_is_file m (st_config_path s)) (''config path missing: '' @ st_config_path s) ''config path present'',
       require (ma_is_dir m (st_execution_data_path s))
         (''execution data path missing: '' @ st_execution_data_path s) ''execution data path present'',
       require (ma_is_dir m (st_context_data_path s))
         (''context data path missing: '' @ st_context_data_path s) ''context data path present'',
       probe_finding m ''reports'' (st_reports_dir s), probe_finding m ''logs'' (st_logs_dir s),
       (if live then require (credentials_present (ma_environ m)) ''restricted-live requires Binance credentials''
          ''Binance credentials present''
        else if credentials_present (ma_environ m) then CheckLine ''optional Binance credentials present''
        else WarningLine ''optional Binance credentials missing: BINANCE_API_KEY, BINANCE_API_SECRET''),
       require (st_exchange_mode s = expected)
         (runner_mode_value (st_mode s) @ '' requires exchange_mode='' @ expected @ '', got '' @ st_exchange_mode s)
         (''exchange mode locked to '' @ expected),
       require (\<not> st_allow_order_submission s) ''order submission must remain disabled in rehearsal scripts''
         ''order submission disabled'']
      @ (if st_command_name s \<noteq> ''preflight'' then
           [require (st_confirm_rehearsal_only s) ''run commands require --confirm-rehearsal-only''
             ''rehearsal-only confirmation present''] else [])
      @ (if live then
           [require (st_allow_restricted_live s) ''restricted-live requires --allow-restricted-live-rehearsal''
              ''restricted-live safety enable flag present'',
            require (st_confirm_no_submission s) ''restricted-live requires --confirm-no-order-submission''
              ''restricted-live no-order-submission confirmation present''] else []))"

definition error_lines :: "finding list \<Rightarrow> string list" where
  "error_lines fs = List.map_filter (\<lambda>f. case f of ErrorLine e \<Rightarrow> Some e | _ \<Rightarrow> None) fs"

definition warning_lines :: "finding list \<Rightarrow> string list" where
  "warning_lines fs = List.map_filter (\<lambda>f. case f of WarningLine w \<Rightarrow> Some w | _ \<Rightarrow> None) fs"

definition check_lines :: "finding list \<Rightarrow> string list" where
  "check_lines fs = List.map_filter (\<lambda>f. case f of CheckLine c \<Rightarrow> Some c | _ \<Rightarrow> None) fs"

definition validate_runtime_rehearsal :: "machine \<Rightarrow> rehearsal_settings \<Rightarrow> preflight_result" where
  "validate_runtime_rehearsal m s =
     (let fs = preflight_findings m s in
      \<lparr>pre_ok = (error_lines fs = []), pre_errors = error_lines fs, pre_warnings = warning_lines fs,
       pre_checks = check_lines fs\<rparr>)"

definition build_run_summary :: "rehearsal_settings \<Rightarrow> preflight_result \<Rightarrow> datetime \<Rightarrow> run_summary" where
  "build_run_summary s pre now =
     \<lparr>rs_recorded_at = now, rs_mode = runner_mode_value (st_mode s), rs_venue = st_venue s,
      rs_exchange_mode = st_exchange_mode s, rs_config_path = st_config_path s,
      rs_execution_data_path = st_execution_data_path s, rs_context_data_path = st_context_data_path s,
      rs_reports_dir = st_reports_dir s, rs_logs_dir = st_logs_dir s, rs_preflight_ok = pre_ok pre,
      rs_errors = pre_errors pre, rs_warnings = pre_warnings pre, rs_checks = pre_checks pre,
      rs_order_submission_enabled = st_allow_order_submission s, rs_command_name = st_command_name s\<rparr>"

section \<open>The launch configuration\<close>

record launch_config =
  lc_mode :: runner_mode
  lc_cycle_id :: string
  lc_reference_time :: datetime
  lc_execution_timeframe :: string
  lc_context_timeframe :: string
  lc_execution_klines_file :: string
  lc_context_klines_file :: string
  lc_instrument_id :: string
  lc_base_asset :: string
  lc_quote_asset :: string
  lc_price_precision :: int
  lc_quantity_precision :: int
  lc_cash_quote_asset :: string
  lc_initial_cash :: decimal
  lc_bootstrap_from_account_snapshot :: bool
  lc_maker_fee_bps :: decimal
  lc_taker_fee_bps :: decimal
  lc_account_scope :: string
  lc_supports_market_orders :: bool
  lc_supports_post_only :: bool
  lc_breakout_threshold :: decimal
  lc_include_regime :: bool
  lc_endpoint_profile_name :: string
  lc_rest_base_url :: string
  lc_websocket_base_url :: string

text \<open>\<open>table["key"]\<close> and \<open>table.get("key", default)\<close> on a TOML value that need not be a table.\<close>

definition table_item :: "json \<Rightarrow> string \<Rightarrow> json result" where
  "table_item table key =
     (case table of JObj p \<Rightarrow> jitem p key | _ \<Rightarrow> Inl (TypeError ''the value is not subscriptable by a string''))"

definition table_get :: "json \<Rightarrow> string \<Rightarrow> json \<Rightarrow> json result" where
  "table_get table key dflt =
     (case table of JObj p \<Rightarrow> Inr (jget_or p key dflt) | _ \<Rightarrow> Inl (AttributeError ''get''))"

definition runner_mode_of :: "json \<Rightarrow> runner_mode result" where
  "runner_mode_of v =
     (if v = JStr ''report_only'' then Inr MODE_REPORT_ONLY
      else if v = JStr ''paper'' then Inr MODE_PAPER
      else if v = JStr ''restricted_live'' then Inr MODE_RESTRICTED_LIVE
      else Inl (ValueError (json_repr v @ '' is not a valid RunnerMode'')))"

definition item_text :: "json \<Rightarrow> string \<Rightarrow> string result" where
  "item_text table key = r_bind (table_item table key) (\<lambda>v. Inr (py_str v))"

definition item_int :: "json \<Rightarrow> string \<Rightarrow> int result" where
  "item_int table key = r_bind (table_item table key) json_int"

definition item_amount :: "json \<Rightarrow> string \<Rightarrow> decimal result" where
  "item_amount table key = r_bind (table_item table key) json_decimal"

definition get_text :: "json \<Rightarrow> string \<Rightarrow> string \<Rightarrow> string result" where
  "get_text table key dflt = r_bind (table_get table key (JStr dflt)) (\<lambda>v. Inr (py_str v))"

definition get_flag :: "json \<Rightarrow> string \<Rightarrow> bool \<Rightarrow> bool result" where
  "get_flag table key dflt = r_bind (table_get table key (JBool dflt)) (\<lambda>v. Inr (json_truthy v))"

text \<open>The parsed TOML document; a TOML date is its text.\<close>

definition load_rehearsal_launch_config :: "(string \<Rightarrow> datetime result) \<Rightarrow> payload \<Rightarrow> launch_config result" where
  "load_rehearsal_launch_config read_time raw =
     r_bind (jitem raw ''runtime'') (\<lambda>runtime.
     r_bind (jitem raw ''instrument'') (\<lambda>instrument.
     r_bind (jitem raw ''portfolio'') (\<lambda>portfolio.
     r_bind (jitem raw ''venue_profile'') (\<lambda>venue.
     let strategy = jget_or raw ''strategy'' (JObj []); binance = jget_or raw ''binance'' (JObj []) in
     r_bind (r_bind (table_item runtime ''mode'') runner_mode_of) (\<lambda>mode.
     r_bind (item_text runtime ''cycle_id'') (\<lambda>cycle_id.
     r_bind (r_bind (item_text runtime ''reference_time'') read_time) (\<lambda>reference.
     r_bind (item_text runtime ''execution_timeframe'') (\<lambda>execution_tf.
     r_bind (item_text runtime ''context_timeframe'') (\<lambda>context_tf.
     r_bind (item_text runtime ''execution_klines_file'') (\<lambda>execution_file.
     r_bind (item_text runtime ''context_klines_file'') (\<lambda>context_file.
     r_bind (item_text instrument ''instrument_id'') (\<lambda>iid.
     r_bind (item_text instrument ''base_asset'') (\<lambda>base.
     r_bind (item_text instrument ''quote_asset'') (\<lambda>quote.
     r_bind (item_int instrument ''price_precision'') (\<lambda>price_precision.
     r_bind (item_int instrument ''quantity_precision'') (\<lambda>quantity_precision.
     r_bind (get_text portfolio ''cash_quote_asset'' quote) (\<lambda>cash_asset.
     r_bind (item_amount portfolio ''initial_cash'') (\<lambda>cash.
     r_bind (get_flag portfolio ''bootstrap_from_account_snapshot'' False) (\<lambda>bootstrap.
     r_bind (item_amount venue ''maker_fee_bps'') (\<lambda>maker.
     r_bind (item_amount venue ''taker_fee_bps'') (\<lambda>taker.
     r_bind (get_text venue ''account_scope'' ''spot'') (\<lambda>scope.
     r_bind (get_flag venue ''supports_market_orders'' True) (\<lambda>market_orders.
     r_bind (get_flag venue ''supports_post_only'' True) (\<lambda>post_only.
     r_bind (r_bind (table_get strategy ''breakout_threshold'' (JStr ''0.02'')) json_decimal) (\<lambda>threshold.
     r_bind (get_flag strategy ''include_regime'' True) (\<lambda>regime.
     r_bind (get_text binance ''endpoint_profile_name'' ''binance_spot_prod'') (\<lambda>profile_name.
     r_bind (get_text binance ''rest_base_url'' ''https://api.binance.com'') (\<lambda>rest_url.
     r_bind (get_text binance ''websocket_base_url'' ''wss://stream.binance.com:9443'') (\<lambda>ws_url.
       Inr \<lparr>lc_mode = mode, lc_cycle_id = cycle_id, lc_reference_time = reference,
         lc_execution_timeframe = execution_tf, lc_context_timeframe = context_tf,
         lc_execution_klines_file = execution_file, lc_context_klines_file = context_file, lc_instrument_id = iid,
         lc_base_asset = base, lc_quote_asset = quote, lc_price_precision = price_precision,
         lc_quantity_precision = quantity_precision, lc_cash_quote_asset = cash_asset, lc_initial_cash = cash,
         lc_bootstrap_from_account_snapshot = bootstrap, lc_maker_fee_bps = maker, lc_taker_fee_bps = taker,
         lc_account_scope = scope, lc_supports_market_orders = market_orders, lc_supports_post_only = post_only,
         lc_breakout_threshold = threshold, lc_include_regime = regime, lc_endpoint_profile_name = profile_name,
         lc_rest_base_url = rest_url, lc_websocket_base_url = ws_url\<rparr>)))))))))))))))))))))))))))))"

section \<open>Preparing a launch\<close>

text \<open>
  The files the launcher reads: a TOML document by its path, and a JSON document by directory and name, each
  with what reading or parsing it raises; \<open>str(dir / name)\<close>; \<open>datetime.fromisoformat\<close> and
  \<open>int(datetime.timestamp() * 1000)\<close>.
\<close>

record inputs =
  in_toml :: "string \<Rightarrow> payload result"
  in_json :: "string \<Rightarrow> string \<Rightarrow> json result"
  in_join :: "string \<Rightarrow> string \<Rightarrow> string"
  in_iso :: "string \<Rightarrow> datetime result"
  in_epoch_ms :: "datetime \<Rightarrow> int"

definition load_kline_rows :: "inputs \<Rightarrow> string \<Rightarrow> string \<Rightarrow> json list list result" where
  "load_kline_rows m dir name =
     r_bind (in_json m dir name) (\<lambda>payload.
       case payload of
         JList rows \<Rightarrow> r_map (\<lambda>row. case row of JList cells \<Rightarrow> Inr cells
           | _ \<Rightarrow> Inl (ValueError (''kline row must be a JSON array: '' @ in_join m dir name))) rows
       | _ \<Rightarrow> Inl (ValueError (''kline file must contain a JSON list: '' @ in_join m dir name)))"

definition build_instrument :: "launch_config \<Rightarrow> instrument result" where
  "build_instrument c =
     mk_instrument
       \<lparr>in_instrument_id = lc_instrument_id c, in_base_asset = lc_base_asset c, in_quote_asset = lc_quote_asset c,
        in_price_precision = lc_price_precision c, in_quantity_precision = lc_quantity_precision c,
        in_price_increment = None, in_quantity_increment = None, in_min_quantity = None, in_min_notional = None,
        in_is_active = True\<rparr>"

definition build_portfolio_state :: "launch_config \<Rightarrow> portfolio_state result" where
  "build_portfolio_state c =
     mk_portfolio_state
       \<lparr>pf_as_of = lc_reference_time c, pf_cash = [(lc_cash_quote_asset c, lc_initial_cash c)],
        pf_position_qty = [(lc_instrument_id c, 0)], pf_avg_entry = [(lc_instrument_id c, 0)], pf_realized_pnl = 0,
        pf_unrealized_pnl = 0, pf_gross_exposure = 0, pf_net_exposure = 0\<rparr>"

definition build_venue_profile :: "launch_config \<Rightarrow> venue_profile result" where
  "build_venue_profile c =
     mk_venue_profile
       \<lparr>vp_venue = ''binance'', vp_account_scope = lc_account_scope c, vp_maker_fee_bps = lc_maker_fee_bps c,
        vp_taker_fee_bps = lc_taker_fee_bps c, vp_supports_market_orders = lc_supports_market_orders c,
        vp_supports_post_only = lc_supports_post_only c, vp_default_time_in_force = GTC,
        vp_supports_reduce_only = False, vp_supports_client_order_ids = True,
        vp_supported_time_in_force = [GTC, IOC], vp_max_requests_per_second = None\<rparr>"

definition build_strategy_router :: "launch_config \<Rightarrow> strategy" where
  "build_strategy_router c =
     route (evaluate_breakout (default_breakout\<lparr>bk_threshold := lc_breakout_threshold c\<rparr>)
       # (if lc_include_regime c then [evaluate_regime ''regime''] else [])) True"

text \<open>
  The context of the launch. The world is what the clock reads and the report files; the clock leaves the
  files alone. \<open>FeatureComposer(tolerate_partial=True)\<close>, no snapshot providers, no gate, no health provider.
\<close>

record 'v machine_io =
  io_now :: "'v \<Rightarrow> datetime \<times> 'v"
  io_disk :: disk
  io_texts :: value_texts

definition io_clock :: "'v machine_io \<Rightarrow> 'v \<times> report_files \<Rightarrow> datetime \<times> ('v \<times> report_files)" where
  "io_clock io w = (let (t, v) = io_now io (fst w) in (t, (v, snd w)))"

definition build_runtime_context ::
    "'v machine_io \<Rightarrow> rehearsal_settings \<Rightarrow> launch_config \<Rightarrow> ('v \<times> report_files) runtime_context result" where
  "build_runtime_context io s c =
     r_bind (build_venue_profile c) (\<lambda>venue. Inr
       \<lparr>cx_mode = st_mode s,
        cx_features = build_features \<lparr>bld_tolerate_partial = True, bld_index = None, bld_stable = None\<rparr>,
        cx_strategy = build_strategy_router c, cx_risk = (\<lambda>sigs p v. evaluate_risk (Dec 1000000) sigs),
        cx_intents = (\<lambda>ds v t. build_intents ''binance'' v t ds),
        cx_persist = file_gateway \<lparr>gw_texts = io_texts io, gw_disk = io_disk io, gw_has_status = True,
          gw_mode = runner_mode_value (st_mode s)\<rparr>,
        cx_index = None, cx_stable = None, cx_gate = None, cx_health = None, cx_venue_profile = Some venue,
        cx_execution_venue = Some ''binance'', cx_time_sync_ok = None, cx_time_sync_detail = None,
        cx_now = io_clock io\<rparr>)"

definition load_market_context :: "inputs \<Rightarrow> rehearsal_settings \<Rightarrow> launch_config \<Rightarrow> market_context result" where
  "load_market_context m s c =
     r_bind (load_kline_rows m (st_execution_data_path s) (lc_execution_klines_file c)) (\<lambda>execution_rows.
     r_bind (load_kline_rows m (st_context_data_path s) (lc_context_klines_file c)) (\<lambda>context_rows.
       build_report_only_market_context (in_epoch_ms m) (lc_instrument_id c) (lc_execution_timeframe c)
         (lc_context_timeframe c) execution_rows context_rows (Some (lc_reference_time c)) (lc_reference_time c) 2 2))"

definition config_matches :: "rehearsal_settings \<Rightarrow> launch_config \<Rightarrow> unit result" where
  "config_matches s c =
     (if lc_mode c \<noteq> st_mode s
      then Inl (ValueError (''config mode '' @ runner_mode_value (lc_mode c) @ '' does not match launch mode ''
        @ runner_mode_value (st_mode s)))
      else Inr ())"

record 'v prepared =
  pp_config :: launch_config
  pp_context :: "('v \<times> report_files) runtime_context"
  pp_instrument :: instrument
  pp_portfolio :: portfolio_state
  pp_market :: market_context

definition prepare_runtime_rehearsal :: "inputs \<Rightarrow> 'v machine_io \<Rightarrow> rehearsal_settings \<Rightarrow> 'v prepared result" where
  "prepare_runtime_rehearsal m io s =
     r_bind (r_bind (in_toml m (st_config_path s)) (load_rehearsal_launch_config (in_iso m))) (\<lambda>c.
     r_bind (config_matches s c) (\<lambda>_.
     r_bind (build_runtime_context io s c) (\<lambda>cx.
     r_bind (build_instrument c) (\<lambda>instrument.
     r_bind (build_portfolio_state c) (\<lambda>p.
     r_bind (load_market_context m s c) (\<lambda>market.
       Inr \<lparr>pp_config = c, pp_context = cx, pp_instrument = instrument, pp_portfolio = p, pp_market = market\<rparr>))))))"

section \<open>Launching\<close>

record launch_summary =
  ls_recorded_at :: datetime
  ls_mode :: string
  ls_runner_name :: string
  ls_cycle_id :: string
  ls_instrument_id :: string
  ls_success :: bool
  ls_signal_count :: nat
  ls_risk_decision_count :: nat
  ls_execution_intent_count :: nat
  ls_alerts :: "string list"
  ls_output_path :: string
  ls_final_portfolio :: "portfolio_state option"

definition launch_summary_of ::
    "datetime \<Rightarrow> rehearsal_settings \<Rightarrow> string \<Rightarrow> instrument \<Rightarrow> cycle_result \<Rightarrow> string \<Rightarrow> portfolio_state option
      \<Rightarrow> launch_summary" where
  "launch_summary_of now s runner instrument r path final =
     \<lparr>ls_recorded_at = now, ls_mode = runner_mode_value (st_mode s), ls_runner_name = runner,
      ls_cycle_id = rc_cycle_id r, ls_instrument_id = in_instrument_id instrument, ls_success = rc_success r,
      ls_signal_count = length (rc_signals r), ls_risk_decision_count = length (rc_risk_decisions r),
      ls_execution_intent_count = length (rc_execution_intents r), ls_alerts = rc_alerts r, ls_output_path = path,
      ls_final_portfolio = final\<rparr>"

definition launch_runtime_rehearsal ::
    "inputs \<Rightarrow> 'v machine_io \<Rightarrow> rehearsal_settings \<Rightarrow> 'v \<times> report_files \<Rightarrow> (launch_summary \<times> ('v \<times> report_files)) result" where
  "launch_runtime_rehearsal m io s w =
     r_bind (prepare_runtime_rehearsal m io s) (\<lambda>p.
     let cx = pp_context p; cid = lc_cycle_id (pp_config p); i = pp_instrument p;
         b = mc_execution (pp_market p); ctx = Some (mc_context (pp_market p));
         finish = \<lambda>runner r file final w. (let (t, w') = io_clock io w
           in Inr (launch_summary_of t s runner i r (in_join m (st_reports_dir s) file) final, w'))
     in case st_mode s of
       MODE_REPORT_ONLY \<Rightarrow>
         r_bind (validated check_report_only cx) (\<lambda>_.
         r_bind (report_only_run default_lag cx cid i b ctx (pp_portfolio p) w) (\<lambda>((r, _), w1).
           finish ''ReportOnlyRunner'' r ''runtime_cycles.jsonl'' None w1))
     | MODE_PAPER \<Rightarrow>
         r_bind (validated check_paper cx) (\<lambda>_.
         r_bind (paper_cycle ((default_paper_runner cx)\<lparr>pr_persist_transition := Some (file_transitions (io_disk io)),
             pr_persist_summary := Some (file_sessions (io_disk io) True)\<rparr>) cid i b (pp_portfolio p) ctx w) (\<lambda>(out, w1).
           finish ''PaperRunner'' (po_cycle out) ''paper_state_transitions.jsonl'' (Some (po_ending out)) w1))
     | MODE_RESTRICTED_LIVE \<Rightarrow>
         r_bind (validated check_restricted_live cx) (\<lambda>_.
         r_bind (restricted_live_cycle default_lag cx cid i b ctx (pp_portfolio p) [] [] w) (\<lambda>(r, w1).
           finish ''RestrictedLiveRunner'' r ''runtime_cycles.jsonl'' None w1)))"

section \<open>The command\<close>

record launch_files =
  lf_runs :: "run_summary list"
  lf_run_markdown :: "string option"
  lf_launch :: "launch_summary option"
  lf_launch_markdown :: "string option"

definition bool_text :: "bool \<Rightarrow> string" where
  "bool_text b = (if b then ''True'' else ''False'')"

definition bullet_lines :: "string list \<Rightarrow> string" where
  "bullet_lines items = (if items = [] then ''- none'' else str_join newline (map (\<lambda>i. ''- '' @ i) items))"

definition run_summary_markdown :: "run_summary \<Rightarrow> string" where
  "run_summary_markdown r =
     str_join newline
       [''# Rehearsal Summary'', ''- command: '' @ rs_command_name r, ''- mode: '' @ rs_mode r,
        ''- venue: '' @ rs_venue r, ''- exchange_mode: '' @ rs_exchange_mode r,
        ''- preflight_ok: '' @ bool_text (rs_preflight_ok r), ''- config_path: '' @ rs_config_path r,
        ''- execution_data_path: '' @ rs_execution_data_path r, ''- context_data_path: '' @ rs_context_data_path r,
        ''- reports_dir: '' @ rs_reports_dir r, ''- logs_dir: '' @ rs_logs_dir r,
        ''- order_submission_enabled: '' @ bool_text (rs_order_submission_enabled r), [], ''## Checks'',
        bullet_lines (rs_checks r), [], ''## Warnings'', bullet_lines (rs_warnings r), [], ''## Errors'',
        bullet_lines (rs_errors r)]"

definition portfolio_dict :: "portfolio_state \<Rightarrow> pyval" where
  "portfolio_dict p = PDict
     [(''as_of'', PTime (pf_as_of p)), (''cash_by_asset'', dec_dict (pf_cash p)),
      (''position_qty_by_instrument'', dec_dict (pf_position_qty p)),
      (''average_entry_price_by_instrument'', dec_dict (pf_avg_entry p)), (''realized_pnl'', PDec (pf_realized_pnl p)),
      (''unrealized_pnl'', PDec (pf_unrealized_pnl p)), (''gross_exposure'', PDec (pf_gross_exposure p)),
      (''net_exposure'', PDec (pf_net_exposure p))]"

definition launch_summary_markdown :: "value_texts \<Rightarrow> launch_summary \<Rightarrow> string" where
  "launch_summary_markdown x l =
     str_join newline
       [''# Launch Summary'', ''- mode: '' @ ls_mode l, ''- runner: '' @ ls_runner_name l,
        ''- cycle_id: '' @ ls_cycle_id l, ''- instrument_id: '' @ ls_instrument_id l,
        ''- success: '' @ bool_text (ls_success l), ''- signal_count: '' @ int_str (int (ls_signal_count l)),
        ''- risk_decision_count: '' @ int_str (int (ls_risk_decision_count l)),
        ''- execution_intent_count: '' @ int_str (int (ls_execution_intent_count l)),
        ''- output_path: '' @ ls_output_path l,
        ''- final_portfolio_state: '' @ (case ls_final_portfolio l of None \<Rightarrow> ''none''
          | Some p \<Rightarrow> vt_dumps x (to_json_compatible x (portfolio_dict p))),
        [], ''## Alerts'', bullet_lines (ls_alerts l)]"

definition append_run_summary :: "disk \<Rightarrow> run_summary \<Rightarrow> launch_files \<Rightarrow> launch_files result" where
  "append_run_summary disk r f =
     r_bind (access disk (MakeParent RUN_FILE)) (\<lambda>_.
       write_file disk RUN_FILE (\<lambda>f. f\<lparr>lf_runs := lf_runs f @ [r]\<rparr>) f)"

definition write_latest_run_summary_markdown :: "disk \<Rightarrow> run_summary \<Rightarrow> launch_files \<Rightarrow> launch_files result" where
  "write_latest_run_summary_markdown disk r f =
     r_bind (access disk (MakeParent RUN_MARKDOWN)) (\<lambda>_.
       write_file disk RUN_MARKDOWN (\<lambda>f. f\<lparr>lf_run_markdown := Some (run_summary_markdown r)\<rparr>) f)"

definition append_launch_summary :: "disk \<Rightarrow> launch_summary \<Rightarrow> launch_files \<Rightarrow> launch_files result" where
  "append_launch_summary disk l f =
     r_bind (access disk (MakeParent LAUNCH_FILE)) (\<lambda>_.
       write_file disk LAUNCH_FILE (\<lambda>f. f\<lparr>lf_launch := Some l\<rparr>) f)"

definition write_latest_launch_summary_markdown ::
    "value_texts \<Rightarrow> disk \<Rightarrow> launch_summary \<Rightarrow> launch_files \<Rightarrow> launch_files result" where
  "write_latest_launch_summary_markdown x disk l f =
     r_bind (access disk (MakeParent LAUNCH_MARKDOWN)) (\<lambda>_.
       write_file disk LAUNCH_MARKDOWN (\<lambda>f. f\<lparr>lf_launch_markdown := Some (launch_summary_markdown x l)\<rparr>) f)"

text \<open>
  The exit code, the launcher's files, and the world when a launch returned. A launch that raises gives exit
  code 2; what its runner had written until then is not kept. What the summaries of the command itself raise
  leaves \<open>main\<close>.
\<close>

definition rehearsal_main ::
    "machine \<Rightarrow> inputs \<Rightarrow> 'v machine_io \<Rightarrow> rehearsal_settings \<Rightarrow> launch_files \<Rightarrow> 'v \<times> report_files
      \<Rightarrow> (int \<times> launch_files \<times> ('v \<times> report_files) option) result" where
  "rehearsal_main ma m io s f w =
     (let pre = validate_runtime_rehearsal ma s; (now, w1) = io_clock io w; run = build_run_summary s pre now in
      r_bind (append_run_summary (io_disk io) run f) (\<lambda>f1.
      r_bind (write_latest_run_summary_markdown (io_disk io) run f1) (\<lambda>f2.
      if \<not> pre_ok pre then Inr (1, f2, Some w1)
      else if st_command_name s = ''preflight'' then Inr (0, f2, Some w1)
      else (case launch_runtime_rehearsal m io s w1 of
          Inl e \<Rightarrow> Inr (2, f2, None)
        | Inr (l, w2) \<Rightarrow>
            r_bind (append_launch_summary (io_disk io) l f2) (\<lambda>f3.
            r_bind (write_latest_launch_summary_markdown (io_texts io) (io_disk io) l f3) (\<lambda>f4.
              Inr (if ls_success l then 0 else 2, f4, Some w2)))))))"

section \<open>Facts\<close>

lemma lines_partition:
  "length (error_lines fs) + length (warning_lines fs) + length (check_lines fs) = length fs"
  by (induction fs) (auto simp: error_lines_def warning_lines_def check_lines_def List.map_filter_simps split: finding.splits)

lemma error_lines_simps [simp]:
  "error_lines [] = []" "error_lines (fs @ gs) = error_lines fs @ error_lines gs"
  "error_lines (x # fs) = (case x of ErrorLine e \<Rightarrow> [e] | _ \<Rightarrow> []) @ error_lines fs"
  by (simp_all add: error_lines_def map_filter_def split: finding.splits)

lemma no_error [simp]:
  "(case require ok e c of ErrorLine e \<Rightarrow> [e] | _ \<Rightarrow> []) = [] \<longleftrightarrow> ok"
  "(case probe_finding m label path of ErrorLine e \<Rightarrow> [e] | _ \<Rightarrow> []) = [] \<longleftrightarrow> ma_write_probe m path = None"
  by (simp_all add: require_def probe_finding_def split: option.splits)

lemma optional_credentials_no_error [simp]:
  "(case (if c then CheckLine a else WarningLine b) of ErrorLine e \<Rightarrow> [e] | _ \<Rightarrow> []) = []"
  by simp

definition preflight_conditions :: "machine \<Rightarrow> rehearsal_settings \<Rightarrow> bool" where
  "preflight_conditions m s \<longleftrightarrow>
     st_venue s = ''binance'' \<and> ma_is_file m (st_config_path s) \<and> ma_is_dir m (st_execution_data_path s) \<and>
     ma_is_dir m (st_context_data_path s) \<and> ma_write_probe m (st_reports_dir s) = None \<and>
     ma_write_probe m (st_logs_dir s) = None \<and> st_exchange_mode s = expected_exchange_mode (st_mode s) \<and>
     \<not> st_allow_order_submission s \<and> (st_command_name s = ''preflight'' \<or> st_confirm_rehearsal_only s) \<and>
     (st_mode s \<noteq> MODE_RESTRICTED_LIVE \<or>
       credentials_present (ma_environ m) \<and> st_allow_restricted_live s \<and> st_confirm_no_submission s)"

lemma preflight_iff: "pre_ok (validate_runtime_rehearsal m s) \<longleftrightarrow> preflight_conditions m s"
proof (cases "st_mode s = MODE_RESTRICTED_LIVE")
  case True
  then show ?thesis
    by (cases "st_command_name s = ''preflight''")
      (simp_all add: validate_runtime_rehearsal_def Let_def preflight_findings_def preflight_conditions_def conj_ac)
next
  case False
  then show ?thesis
    by (cases "st_command_name s = ''preflight''")
      (simp_all add: validate_runtime_rehearsal_def Let_def preflight_findings_def preflight_conditions_def conj_ac)
qed

lemma io_clock_files: "snd (snd (io_clock io w)) = snd w"
  by (simp add: io_clock_def split: prod.splits)

lemma built_context:
  assumes "build_runtime_context io s c = Inr cx"
  shows "keeps_files cx" and "cx_mode cx = st_mode s" and "cx_now cx = io_clock io"
    and "cx_persist cx = file_gateway \<lparr>gw_texts = io_texts io, gw_disk = io_disk io, gw_has_status = True,
          gw_mode = runner_mode_value (st_mode s)\<rparr>"
  using assms by (auto simp: build_runtime_context_def r_bind_Inr keeps_files_def io_clock_files simp del: split_paired_All)

lemma built_wiring:
  assumes "build_runtime_context io s c = Inr cx" and "lc_include_regime c"
  shows "cx_features cx = build_features \<lparr>bld_tolerate_partial = True, bld_index = None, bld_stable = None\<rparr>"
    "cx_strategy cx = route [evaluate_breakout (default_breakout\<lparr>bk_threshold := lc_breakout_threshold c\<rparr>),
      evaluate_regime ''regime''] True"
    "cx_risk cx = (\<lambda>sigs p v. evaluate_risk (Dec 1000000) sigs)" "cx_intents cx = (\<lambda>ds v t. build_intents ''binance'' v t ds)"
    "cx_time_sync_detail cx = None" "cx_execution_venue cx = Some ''binance''"
  using assms by (auto simp: build_runtime_context_def r_bind_Inr build_strategy_router_def)

lemma loaded_market:
  assumes "load_market_context m s c = Inr market"
  obtains rows where "build_closed_bar_slice (in_epoch_ms m) (lc_instrument_id c) (lc_execution_timeframe c) rows
    (lc_reference_time c) 2 = Inr (mc_execution market)"
  using assms by (auto simp: load_market_context_def r_bind_Inr build_report_only_market_context_def Let_def)

text \<open>A successful launch has run one cycle of the configured mode and left its record.\<close>

definition launch_gateway :: "'v machine_io \<Rightarrow> rehearsal_settings \<Rightarrow> report_gateway" where
  "launch_gateway io s = \<lparr>gw_texts = io_texts io, gw_disk = io_disk io, gw_has_status = True,
     gw_mode = runner_mode_value (st_mode s)\<rparr>"

lemma prepared_parts:
  assumes "prepare_runtime_rehearsal m io s = Inr p"
  shows "r_bind (in_toml m (st_config_path s)) (load_rehearsal_launch_config (in_iso m)) = Inr (pp_config p)"
    and "lc_mode (pp_config p) = st_mode s" and "build_runtime_context io s (pp_config p) = Inr (pp_context p)"
    and "build_instrument (pp_config p) = Inr (pp_instrument p)"
    and "build_portfolio_state (pp_config p) = Inr (pp_portfolio p)"
    and "load_market_context m s (pp_config p) = Inr (pp_market p)"
  using assms unfolding prepare_runtime_rehearsal_def by (auto simp: r_bind_Inr config_matches_def split: if_splits)

lemma invalid_bar_fails: "invalid_bar_cycle cx cid i reasons t w = Inr (r, w') \<Longrightarrow> \<not> rc_success r"
  by (auto simp: invalid_bar_cycle_def r_bind_Inr stopped_cycle_def split: prod.splits)

lemma launch_succeeds:
  assumes "launch_runtime_rehearsal m io s w = Inr (l, w')" and "ls_success l"
  obtains p r files t runner path final where "prepare_runtime_rehearsal m io s = Inr p"
    and "l = launch_summary_of t s runner (pp_instrument p) r path final"
    and "left_record (launch_gateway io s) (lc_cycle_id (pp_config p)) (pp_instrument p) (mc_execution (pp_market p)) r
      (snd w) files"
    and "rf_cycles (snd w') = rf_cycles files" and "rf_summaries (snd w') = rf_summaries files"
proof -
  obtain p where p: "prepare_runtime_rehearsal m io s = Inr p"
    using assms(1) unfolding launch_runtime_rehearsal_def by (auto simp: r_bind_Inr)
  note cx = built_context [OF prepared_parts(3) [OF p], folded launch_gateway_def]
  let ?cx = "pp_context p" and ?cid = "lc_cycle_id (pp_config p)" and ?i = "pp_instrument p"
    and ?b = "mc_execution (pp_market p)" and ?ctx = "Some (mc_context (pp_market p))"
  note run = assms(1) [unfolded launch_runtime_rehearsal_def p r_bind_simps Let_def]
  have clock: "snd w2 = snd w1" if "io_clock io w1 = (t, w2)" for t and w1 w2 :: "'a \<times> report_files"
    using io_clock_files [of io w1] that by simp
  show thesis
  proof (cases "st_mode s")
    case MODE_REPORT_ONLY
    obtain r mach w1 where r: "report_only_run default_lag ?cx ?cid ?i ?b ?ctx (pp_portfolio p) w = Inr ((r, mach), w1)"
      and l: "(case io_clock io w1 of (t, w2) \<Rightarrow> Inr (launch_summary_of t s ''ReportOnlyRunner'' ?i r
        (in_join m (st_reports_dir s) ''runtime_cycles.jsonl'') None, w2)) = (Inr (l, w') :: _ result)"
      using run by (auto simp: MODE_REPORT_ONLY r_bind_Inr)
    obtain t where t: "io_clock io w1 = (t, w')" "l = launch_summary_of t s ''ReportOnlyRunner'' ?i r
        (in_join m (st_reports_dir s) ''runtime_cycles.jsonl'') None" using l by (auto split: prod.splits)
    show thesis by (rule that [OF p t(2) report_only_files [OF r cx(4,1)]]) (simp_all add: clock [OF t(1)])
  next
    case MODE_PAPER
    obtain out w1 where out: "paper_cycle ((default_paper_runner ?cx)\<lparr>pr_persist_transition := Some (file_transitions (io_disk io)),
          pr_persist_summary := Some (file_sessions (io_disk io) True)\<rparr>) ?cid ?i ?b (pp_portfolio p) ?ctx w = Inr (out, w1)"
      and l: "(case io_clock io w1 of (t, w2) \<Rightarrow> Inr (launch_summary_of t s ''PaperRunner'' ?i (po_cycle out)
        (in_join m (st_reports_dir s) ''paper_state_transitions.jsonl'') (Some (po_ending out)), w2)) = (Inr (l, w') :: _ result)"
      using run by (auto simp: MODE_PAPER r_bind_Inr)
    obtain t where t: "io_clock io w1 = (t, w')" "l = launch_summary_of t s ''PaperRunner'' ?i (po_cycle out)
        (in_join m (st_reports_dir s) ''paper_state_transitions.jsonl'') (Some (po_ending out))" using l by (auto split: prod.splits)
    have ok: "rc_success (po_cycle out)" using assms(2) by (simp add: t(2) launch_summary_of_def)
    have "bv_is_valid (validate_bars ?b)"
    proof (rule ccontr)
      assume "\<not> bv_is_valid (validate_bars ?b)"
      then show False using out ok
        by (cases "io_clock io w") (auto simp: paper_cycle_def default_paper_runner_def cx(3) r_bind_Inr dest: invalid_bar_fails)
    qed
    then obtain files where files: "left_record (launch_gateway io s) ?cid ?i ?b (po_cycle out) (snd w) files"
      "snd w1 = files\<lparr>rf_transitions := rf_transitions files @ [transition_of ?cid out]\<rparr>"
      using paper_cycle_files [OF out, of "launch_gateway io s" "io_disk io"] cx(1,4) by (auto simp: default_paper_runner_def)
    show thesis by (rule that [OF p t(2) files(1)]) (simp_all add: clock [OF t(1)] files(2))
  next
    case MODE_RESTRICTED_LIVE
    obtain r w1 where r: "restricted_live_cycle default_lag ?cx ?cid ?i ?b ?ctx (pp_portfolio p) [] [] w = Inr (r, w1)"
      and l: "(case io_clock io w1 of (t, w2) \<Rightarrow> Inr (launch_summary_of t s ''RestrictedLiveRunner'' ?i r
        (in_join m (st_reports_dir s) ''runtime_cycles.jsonl'') None, w2)) = (Inr (l, w') :: _ result)"
      using run by (auto simp: MODE_RESTRICTED_LIVE r_bind_Inr)
    obtain t where t: "io_clock io w1 = (t, w')" "l = launch_summary_of t s ''RestrictedLiveRunner'' ?i r
        (in_join m (st_reports_dir s) ''runtime_cycles.jsonl'') None" using l by (auto split: prod.splits)
    have ok: "rc_success r" using assms(2) by (simp add: t(2) launch_summary_of_def)
    have "bv_is_valid (validate_bars ?b)"
      using r by (cases rule: restricted_live_cases) (use ok in \<open>auto dest: invalid_bar_fails\<close>)
    then have "left_record (launch_gateway io s) ?cid ?i ?b r (snd w) (snd w1)" using live_cycle_files [OF r cx(4,1)] by simp
    then show thesis by (rule that [OF p t(2)]) (simp_all add: clock [OF t(1)])
  qed
qed

lemma launch_recorded:
  assumes "launch_runtime_rehearsal m io s w = Inr (l, w')" and "ls_success l" and "proper_texts (io_texts io)"
  shows "\<exists>c rec sm. r_bind (in_toml m (st_config_path s)) (load_rehearsal_launch_config (in_iso m)) = Inr c \<and>
    lc_mode c = st_mode s \<and> ls_cycle_id l = lc_cycle_id c \<and> ls_instrument_id l = lc_instrument_id c \<and>
    ls_mode l = runner_mode_value (st_mode s) \<and>
    rf_cycles (snd w') = rf_cycles (snd w) @ [rec] \<and> rf_summaries (snd w') = rf_summaries (snd w) @ [sm] \<and>
    rep_instrument_id rec = ls_instrument_id l \<and> rm_cycle_id sm = ls_cycle_id l \<and> rm_mode sm = ls_mode l \<and>
    rm_signal_count sm = ls_signal_count l \<and> rm_risk_decision_count sm = ls_risk_decision_count l \<and>
    rm_execution_intent_count sm = ls_execution_intent_count l \<and> rm_alerts sm = ls_alerts l"
proof -
  obtain p r fs t runner path final where p: "prepare_runtime_rehearsal m io s = Inr p"
    and l: "l = launch_summary_of t s runner (pp_instrument p) r path final"
    and rec: "left_record (launch_gateway io s) (lc_cycle_id (pp_config p)) (pp_instrument p)
      (mc_execution (pp_market p)) r (snd w) fs"
    and grown: "rf_cycles (snd w') = rf_cycles fs" "rf_summaries (snd w') = rf_summaries fs"
    using launch_succeeds [OF assms(1,2)] .
  have gw: "gw_texts (launch_gateway io s) = io_texts io" "gw_has_status (launch_gateway io s)"
    "gw_mode (launch_gateway io s) = runner_mode_value (st_mode s)" by (simp_all add: launch_gateway_def)
  have iid: "in_instrument_id (pp_instrument p) = lc_instrument_id (pp_config p)"
    using prepared_parts(4) [OF p] by (auto simp: build_instrument_def mk_instrument_def)
  have cid: "rc_cycle_id r = lc_cycle_id (pp_config p)" using rec unfolding left_record_def by blast
  from left_record_facts [OF rec, unfolded gw(1,3), OF assms(3) gw(2)] obtain rc sm where
    "rf_cycles fs = rf_cycles (snd w) @ [rc] \<and> rf_summaries fs = rf_summaries (snd w) @ [sm] \<and>
     rep_instrument_id rc = in_instrument_id (pp_instrument p) \<and> rm_cycle_id sm = lc_cycle_id (pp_config p) \<and>
     rm_mode sm = runner_mode_value (st_mode s) \<and> rm_signal_count sm = length (rc_signals r) \<and>
     rm_risk_decision_count sm = length (rc_risk_decisions r) \<and>
     rm_execution_intent_count sm = length (rc_execution_intents r) \<and> rm_alerts sm = rc_alerts r" by blast
  then show ?thesis using prepared_parts(1,2) [OF p] grown iid cid
    by (intro exI [of _ "pp_config p"] exI [of _ rc] exI [of _ sm]) (simp add: l launch_summary_of_def)
qed

text \<open>A prepared report-only launch succeeds.\<close>

lemma report_only_launch:
  assumes "st_mode s = MODE_REPORT_ONLY" and p: "prepare_runtime_rehearsal m io s = Inr p"
    and disk: "io_disk io = (\<lambda>_. None)" and "\<not> windows_overlap (bs_candles (mc_execution (pp_market p)))"
    and "\<not> blank (lc_cycle_id (pp_config p))" and "lc_include_regime (pp_config p)"
    and "0 \<le> lc_breakout_threshold (pp_config p)"
    and clock: "\<And>v. is_utc (fst (io_now io v))" "\<And>v. dt_le (fst (io_now io v)) (fst (io_now io (snd (io_now io v))))"
  shows "\<exists>l w'. launch_runtime_rehearsal m io s w1 = Inr (l, w') \<and> ls_success l \<and> ls_cycle_id l = lc_cycle_id (pp_config p) \<and>
    length (rf_cycles (snd w')) = length (rf_cycles (snd w1)) + 1"
proof -
  note parts = prepared_parts [OF p]
  note cx = built_context [OF parts(3), folded launch_gateway_def]
  let ?cx = "pp_context p" and ?c = "pp_config p" and ?b = "mc_execution (pp_market p)"
  note wiring = built_wiring [OF parts(3) assms(6)]
  obtain rows where "build_closed_bar_slice (in_epoch_ms m) (lc_instrument_id ?c) (lc_execution_timeframe ?c) rows
      (lc_reference_time ?c) 2 = Inr ?b" using loaded_market [OF parts(6)] .
  note b = built_slice [OF this, simplified]
  have iid: "in_instrument_id (pp_instrument p) = lc_instrument_id ?c"
    using parts(4) by (auto simp: build_instrument_def mk_instrument_def)
  have same: "in_instrument_id (pp_instrument p) = bs_instrument_id ?b" using iid b(3) by simp
  have valid: "bv_is_valid (validate_bars ?b)" using closed_bars_valid b assms(4) by simp
  have stored: "\<exists>w'. cx_persist ?cx r f dc h w = Inr w'" for r f dc h w
    by (simp add: cx(4) file_gateway_def persist_cycle_total launch_gateway_def disk)
  have ticks: "is_utc (fst (cx_now ?cx w))" "dt_le (fst (cx_now ?cx w)) (fst (cx_now ?cx (snd (cx_now ?cx w))))" for w
    using clock(1) [of "fst w"] clock(2) [of "fst w"] by (simp_all add: cx(3) io_clock_def case_prod_beta)
  have strategy: "\<not> blank (bk_name (default_breakout\<lparr>bk_threshold := lc_breakout_threshold ?c\<rparr>))"
    "0 \<le> bk_threshold (default_breakout\<lparr>bk_threshold := lc_breakout_threshold ?c\<rparr>)"
    "0 \<le> bk_min_confidence (default_breakout\<lparr>bk_threshold := lc_breakout_threshold ?c\<rparr>)"
    "0 < bk_quantity (default_breakout\<lparr>bk_threshold := lc_breakout_threshold ?c\<rparr>)" "\<not> blank ''regime''"
    using assms(7) by (simp_all add: default_breakout_def blank_def py_space_def less_eq_decimal_def less_decimal_def)
  have texts: "opt_all (\<lambda>d. d = [] \<or> \<not> blank d) (cx_time_sync_detail ?cx)"
    "opt_all (\<lambda>v. v = [] \<or> \<not> blank v) (cx_execution_venue ?cx)" by (simp_all add: wiring blank_def py_space_def)
  obtain r mach w2 where r: "report_only_run default_lag ?cx (lc_cycle_id ?c) (pp_instrument p) ?b
      (Some (mc_context (pp_market p))) (pp_portfolio p) w1 = Inr ((r, mach), w2)" "rc_success r"
    using report_only_completes [OF b(1) valid same assms(5) wiring(1-4) strategy ticks stored texts, where w = w1] by blast
  have "left_record (launch_gateway io s) (lc_cycle_id ?c) (pp_instrument p) ?b r (snd w1) (snd w2)"
    by (rule report_only_files [OF r(1) cx(4,1)])
  then have grown: "length (rf_cycles (snd w2)) = length (rf_cycles (snd w1)) + 1" "rc_cycle_id r = lc_cycle_id ?c"
    by (auto simp: left_record_def filed_def Let_def)
  obtain t w3 where t: "io_clock io w2 = (t, w3)" by (cases "io_clock io w2")
  have checked: "validated check_report_only ?cx = Inr ?cx" by (simp add: validated_passes check_report_only_def cx(2) assms(1))
  have launch: "launch_runtime_rehearsal m io s w1 = Inr (launch_summary_of t s ''ReportOnlyRunner'' (pp_instrument p) r
      (in_join m (st_reports_dir s) ''runtime_cycles.jsonl'') None, w3)"
    unfolding launch_runtime_rehearsal_def p r_bind_simps Let_def assms(1) runner_mode.case checked by (simp add: r(1) t)
  have "snd w3 = snd w2" using io_clock_files [of io w2] t by simp
  with launch r(2) grown show ?thesis by (auto simp: launch_summary_of_def)
qed

section \<open>Properties\<close>

text \<open>
  C21. The preflight fails closed: it passes exactly when the venue is Binance, the configuration and both data
  directories exist, both output directories accept a write, the exchange mode is the one of the runner mode,
  order submission is off, a run is confirmed as rehearsal only, and restricted live has credentials and both
  of its flags. Every condition checked gives exactly one line, and a failed one is among the errors.
\<close>

theorem preflight_fails_closed:
  shows "(pre_ok (validate_runtime_rehearsal m s) \<longleftrightarrow>
      st_venue s = ''binance'' \<and> ma_is_file m (st_config_path s) \<and> ma_is_dir m (st_execution_data_path s) \<and>
      ma_is_dir m (st_context_data_path s) \<and> ma_write_probe m (st_reports_dir s) = None \<and>
      ma_write_probe m (st_logs_dir s) = None \<and> st_exchange_mode s = expected_exchange_mode (st_mode s) \<and>
      \<not> st_allow_order_submission s \<and> (st_command_name s = ''preflight'' \<or> st_confirm_rehearsal_only s) \<and>
      (st_mode s \<noteq> MODE_RESTRICTED_LIVE \<or>
        credentials_present (ma_environ m) \<and> st_allow_restricted_live s \<and> st_confirm_no_submission s)) \<and>
    (pre_ok (validate_runtime_rehearsal m s) \<longleftrightarrow> pre_errors (validate_runtime_rehearsal m s) = []) \<and>
    length (pre_errors (validate_runtime_rehearsal m s)) + length (pre_warnings (validate_runtime_rehearsal m s)) +
      length (pre_checks (validate_runtime_rehearsal m s)) = length (preflight_findings m s)"
  using preflight_iff [of m s] lines_partition [of "preflight_findings m s"]
  by (simp add: preflight_conditions_def validate_runtime_rehearsal_def Let_def)

text \<open>
  C18. The command is gated: each run that returns adds one run summary; it exits with 1 exactly when the
  preflight fails, and then, as for a preflight command, no runner has run and no report file has changed;
  it exits with 0 after a run only when one cycle of the configured mode, with the configured cycle id,
  succeeded under the gate's conditions and left exactly one record and one summary with the counts shown.
\<close>

theorem rehearsal_command_gated:
  assumes "rehearsal_main ma m io s f w = Inr (code, f', out)" and "proper_texts (io_texts io)"
  shows "(\<exists>run. lf_runs f' = lf_runs f @ [run] \<and> rs_preflight_ok run = preflight_conditions ma s \<and>
      rs_mode run = runner_mode_value (st_mode s)) \<and>
    code \<in> {0, 1, 2} \<and> (code = 1 \<longleftrightarrow> \<not> preflight_conditions ma s) \<and>
    (code = 1 \<or> st_command_name s = ''preflight'' \<longrightarrow>
       lf_launch f' = lf_launch f \<and> (\<exists>w'. out = Some w' \<and> snd w' = snd w)) \<and>
    (code = 0 \<and> st_command_name s \<noteq> ''preflight'' \<longrightarrow>
       (\<exists>c l w' rec sm. r_bind (in_toml m (st_config_path s)) (load_rehearsal_launch_config (in_iso m)) = Inr c \<and>
         lc_mode c = st_mode s \<and> \<not> st_allow_order_submission s \<and>
         out = Some w' \<and> lf_launch f' = Some l \<and> ls_success l \<and> ls_cycle_id l = lc_cycle_id c \<and>
         ls_instrument_id l = lc_instrument_id c \<and> ls_mode l = runner_mode_value (st_mode s) \<and>
         rf_cycles (snd w') = rf_cycles (snd w) @ [rec] \<and> rf_summaries (snd w') = rf_summaries (snd w) @ [sm] \<and>
         rep_instrument_id rec = ls_instrument_id l \<and> rm_cycle_id sm = ls_cycle_id l \<and> rm_mode sm = ls_mode l \<and>
         rm_signal_count sm = ls_signal_count l \<and> rm_risk_decision_count sm = ls_risk_decision_count l \<and>
         rm_execution_intent_count sm = ls_execution_intent_count l \<and> rm_alerts sm = ls_alerts l))"
proof -
  let ?pre = "validate_runtime_rehearsal ma s"
  obtain now w1 where now: "io_clock io w = (now, w1)" by (cases "io_clock io w")
  let ?run = "build_run_summary s ?pre now"
  obtain f1 f2 where f1: "append_run_summary (io_disk io) ?run f = Inr f1"
    and f2: "write_latest_run_summary_markdown (io_disk io) ?run f1 = Inr f2"
    using assms(1) unfolding rehearsal_main_def now Let_def by (auto simp: r_bind_Inr)
  note main = assms(1) [unfolded rehearsal_main_def now Let_def prod.case f1 f2 r_bind_simps]
  have files: "lf_runs f2 = lf_runs f @ [?run]" "lf_launch f2 = lf_launch f"
    using f1 f2 by (auto simp: append_run_summary_def write_latest_run_summary_markdown_def r_bind_Inr)
  have run: "rs_preflight_ok ?run = preflight_conditions ma s" "rs_mode ?run = runner_mode_value (st_mode s)"
    by (simp_all add: build_run_summary_def preflight_iff)
  have same: "snd w1 = snd w" using io_clock_files [of io w] now by simp
  then have w1: "\<exists>v. w1 = (v, snd w)" by (metis prod.collapse)
  consider (stop) "\<not> preflight_conditions ma s" | (check) "preflight_conditions ma s" "st_command_name s = ''preflight''"
    | (launch) "preflight_conditions ma s" "st_command_name s \<noteq> ''preflight''" by blast
  then show ?thesis
  proof cases
    case launch
    show ?thesis
    proof (cases "launch_runtime_rehearsal m io s w1")
      case (Inl e)
      then have "code = 2" "f' = f2" using main launch preflight_iff by auto
      with launch files run show ?thesis by auto
    next
      case (Inr lw)
      obtain l w2 where lw: "launch_runtime_rehearsal m io s w1 = Inr (l, w2)" using Inr by (cases lw) auto
      obtain f3 f4 where "append_launch_summary (io_disk io) l f2 = Inr f3"
        "write_latest_launch_summary_markdown (io_texts io) (io_disk io) l f3 = Inr f4"
        and out: "code = (if ls_success l then 0 else 2)" "f' = f4" "out = Some w2"
        using main launch lw preflight_iff by (auto simp: r_bind_Inr)
      then have f': "lf_runs f' = lf_runs f2" "lf_launch f' = Some l"
        by (auto simp: append_launch_summary_def write_latest_launch_summary_markdown_def r_bind_Inr)
      show ?thesis
      proof (cases "ls_success l")
        case False
        with launch files run f' out show ?thesis by auto
      next
        case True
        from launch_recorded [OF lw True assms(2)] launch(1) f'(2) out(3) True
        have "\<exists>c l w' rec sm. r_bind (in_toml m (st_config_path s)) (load_rehearsal_launch_config (in_iso m)) = Inr c \<and>
         lc_mode c = st_mode s \<and> \<not> st_allow_order_submission s \<and>
         out = Some w' \<and> lf_launch f' = Some l \<and> ls_success l \<and> ls_cycle_id l = lc_cycle_id c \<and>
         ls_instrument_id l = lc_instrument_id c \<and> ls_mode l = runner_mode_value (st_mode s) \<and>
         rf_cycles (snd w') = rf_cycles (snd w) @ [rec] \<and> rf_summaries (snd w') = rf_summaries (snd w) @ [sm] \<and>
         rep_instrument_id rec = ls_instrument_id l \<and> rm_cycle_id sm = ls_cycle_id l \<and> rm_mode sm = ls_mode l \<and>
         rm_signal_count sm = ls_signal_count l \<and> rm_risk_decision_count sm = ls_risk_decision_count l \<and>
         rm_execution_intent_count sm = ls_execution_intent_count l \<and> rm_alerts sm = ls_alerts l"
          unfolding same by (auto simp: preflight_conditions_def)
        with launch files run f' out True show ?thesis by simp
      qed
    qed
  qed (use main preflight_iff [of ma s] files run same w1 in auto)
qed


section \<open>A concrete rehearsal\<close>

definition sample_toml :: payload where
  "sample_toml =
     [(''runtime'', JObj [(''mode'', JStr ''report_only''), (''cycle_id'', JStr ''c1''), (''reference_time'', JStr ''now''),
        (''execution_timeframe'', JStr ''4h''), (''context_timeframe'', JStr ''4h''),
        (''execution_klines_file'', JStr ''a.json''), (''context_klines_file'', JStr ''b.json'')]),
      (''instrument'', JObj [(''instrument_id'', JStr ''BTC-USDT''), (''base_asset'', JStr ''BTC''),
        (''quote_asset'', JStr ''USDT''), (''price_precision'', JInt 2), (''quantity_precision'', JInt 6)]),
      (''portfolio'', JObj [(''initial_cash'', JStr ''100'')]),
      (''venue_profile'', JObj [(''maker_fee_bps'', JStr ''1''), (''taker_fee_bps'', JStr ''2'')]),
      (''strategy'', JObj [(''breakout_threshold'', JStr ''1'')])]"

definition sample_launch :: launch_config where
  "sample_launch =
     \<lparr>lc_mode = MODE_REPORT_ONLY, lc_cycle_id = ''c1'', lc_reference_time = utc 0, lc_execution_timeframe = ''4h'',
      lc_context_timeframe = ''4h'', lc_execution_klines_file = ''a.json'', lc_context_klines_file = ''b.json'',
      lc_instrument_id = ''BTC-USDT'', lc_base_asset = ''BTC'', lc_quote_asset = ''USDT'', lc_price_precision = 2,
      lc_quantity_precision = 6, lc_cash_quote_asset = ''USDT'', lc_initial_cash = Dec 100,
      lc_bootstrap_from_account_snapshot = False, lc_maker_fee_bps = Dec 1, lc_taker_fee_bps = Dec 2,
      lc_account_scope = ''spot'', lc_supports_market_orders = True, lc_supports_post_only = True,
      lc_breakout_threshold = Dec 1, lc_include_regime = True, lc_endpoint_profile_name = ''binance_spot_prod'',
      lc_rest_base_url = ''https://api.binance.com'',
      lc_websocket_base_url = ''wss://stream.binance.com:9443''\<rparr>"

definition sample_inputs :: inputs where
  "sample_inputs =
     \<lparr>in_toml = (\<lambda>p. Inr sample_toml), in_json = (\<lambda>d n. Inr (JList (map JList sample_rows))),
      in_join = (\<lambda>d n. d @ ''/'' @ n), in_iso = (\<lambda>s. Inr (utc 0)), in_epoch_ms = (\<lambda>t. 25)\<rparr>"

definition sample_settings :: rehearsal_settings where
  "sample_settings =
     \<lparr>st_mode = MODE_REPORT_ONLY, st_venue = ''binance'', st_config_path = ''c.toml'',
      st_execution_data_path = ''e'', st_context_data_path = ''x'', st_reports_dir = ''r'', st_logs_dir = ''l'',
      st_exchange_mode = ''read_only'', st_command_name = ''run-report-only'', st_allow_order_submission = False,
      st_confirm_rehearsal_only = True, st_allow_restricted_live = False, st_confirm_no_submission = False\<rparr>"

definition sample_machine :: machine where
  "sample_machine =
     \<lparr>ma_is_file = (\<lambda>p. True), ma_is_dir = (\<lambda>p. True), ma_write_probe = (\<lambda>p. None), ma_environ = []\<rparr>"

definition sample_io :: "int machine_io" where
  "sample_io = \<lparr>io_now = (\<lambda>n. (utc n, n + 1)), io_disk = (\<lambda>_. None), io_texts = sample_texts\<rparr>"

definition no_launch_files :: launch_files where
  "no_launch_files = \<lparr>lf_runs = [], lf_run_markdown = None, lf_launch = None, lf_launch_markdown = None\<rparr>"

lemma sample_config_loads: "load_rehearsal_launch_config (\<lambda>s. Inr (utc 0)) sample_toml = Inr sample_launch"
  by (simp add: load_rehearsal_launch_config_def sample_toml_def Let_def table_item_def table_get_def runner_mode_of_def
      item_text_def item_int_def item_amount_def get_text_def get_flag_def jget_or_def json_int_def json_truthy_def
      json_decimal_def parse_samples sample_launch_def)

lemma sample_prepares:
  obtains p where "prepare_runtime_rehearsal sample_inputs sample_io sample_settings = Inr p"
    and "pp_config p = sample_launch" and "\<not> windows_overlap (bs_candles (mc_execution (pp_market p)))"
proof -
  obtain mc where mc: "build_report_only_market_context (\<lambda>t. 25) ''BTC-USDT'' ''4h'' ''4h'' sample_rows sample_rows
      (Some (utc 0)) (utc 0) 2 2 = Inr mc" "\<not> windows_overlap (bs_candles (mc_execution mc))"
    using sample_rows_slice [of "\<lambda>t. 25" "utc 0"] by (auto simp: build_report_only_market_context_def Let_def)
  have rows: "load_kline_rows sample_inputs d n = Inr sample_rows" for d n
    by (simp add: load_kline_rows_def sample_inputs_def sample_rows_def)
  have market: "load_market_context sample_inputs sample_settings sample_launch = Inr mc"
    unfolding load_market_context_def rows r_bind_simps using mc(1) by (simp add: sample_inputs_def sample_launch_def)
  have config: "r_bind (in_toml sample_inputs (st_config_path sample_settings))
      (load_rehearsal_launch_config (in_iso sample_inputs)) = Inr sample_launch"
    using sample_config_loads by (simp add: sample_inputs_def)
  obtain v where "build_venue_profile sample_launch = Inr v"
    by (auto simp: build_venue_profile_def mk_venue_profile_def sample_launch_def venue_profile_checks_def blank_def
        py_space_def less_decimal_def validated_passes)
  then obtain cx where cx: "build_runtime_context sample_io sample_settings sample_launch = Inr cx"
    by (simp add: build_runtime_context_def)
  obtain i where i: "build_instrument sample_launch = Inr i"
    by (auto simp: build_instrument_def mk_instrument_def sample_launch_def instrument_checks_def blank_def
        py_space_def validated_passes require_positive_opt_def)
  obtain q where q: "build_portfolio_state sample_launch = Inr q"
    by (auto simp: build_portfolio_state_def mk_portfolio_state_def sample_launch_def portfolio_state_checks_def
        mapping_checks_def blank_def py_space_def less_decimal_def validated_passes)
  have "config_matches sample_settings sample_launch = Inr ()"
    by (simp add: config_matches_def sample_settings_def sample_launch_def)
  then show thesis
    using that mc(2) by (simp add: prepare_runtime_rehearsal_def config cx i q market)
qed

lemma sample_preflight: "preflight_conditions sample_machine sample_settings"
  by (simp add: preflight_conditions_def sample_machine_def sample_settings_def)

text \<open>What the samples give the lemmas on report-only launches.\<close>

lemma sample_conditions:
  "st_mode sample_settings = MODE_REPORT_ONLY" "st_command_name sample_settings \<noteq> ''preflight''"
  "io_disk sample_io = (\<lambda>_. None)" "\<not> blank (lc_cycle_id sample_launch)" "lc_include_regime sample_launch"
  "0 \<le> lc_breakout_threshold sample_launch" "is_utc (fst (io_now sample_io v))"
  "dt_le (fst (io_now sample_io v)) (fst (io_now sample_io (snd (io_now sample_io v))))"
  by (simp_all add: sample_settings_def sample_io_def sample_launch_def blank_def py_space_def less_eq_decimal_def)


theorem rehearsal_command_gated_witness:
  "\<exists>f' w'. rehearsal_main sample_machine sample_inputs sample_io sample_settings no_launch_files (0, empty_files)
     = Inr (0, f', Some w') \<and> length (rf_summaries (snd w')) = 1"
proof -
  obtain p where p: "prepare_runtime_rehearsal sample_inputs sample_io sample_settings = Inr p"
    "pp_config p = sample_launch" "\<not> windows_overlap (bs_candles (mc_execution (pp_market p)))"
    using sample_prepares .
  obtain now w1 where now: "io_clock sample_io (0, empty_files) = (now, w1)" by (cases "io_clock sample_io (0, empty_files)")
  obtain l w' where launch: "launch_runtime_rehearsal sample_inputs sample_io sample_settings w1 = Inr (l, w')" "ls_success l"
    using report_only_launch [OF sample_conditions(1) p(1) sample_conditions(3) p(3), unfolded p(2), OF sample_conditions(4-8)]
    by blast
  obtain f' where run: "rehearsal_main sample_machine sample_inputs sample_io sample_settings no_launch_files (0, empty_files)
      = Inr (0, f', Some w')"
    unfolding rehearsal_main_def now Let_def prod.case append_run_summary_def write_latest_run_summary_markdown_def
      append_launch_summary_def write_latest_launch_summary_markdown_def write_file_def sample_conditions(3) access_def
      option.case r_bind_simps
    using sample_preflight preflight_iff [of sample_machine sample_settings] launch sample_conditions(2) by simp
  have "proper_texts (io_texts sample_io)" by (simp add: sample_io_def sample_texts_proper)
  from rehearsal_command_gated [OF run this] run sample_conditions(2) show ?thesis by (auto simp: empty_files_def)
qed

theorem preflight_fails_closed_witness:
  "pre_ok (validate_runtime_rehearsal sample_machine sample_settings) \<and>
   \<not> pre_ok (validate_runtime_rehearsal sample_machine (sample_settings\<lparr>st_allow_order_submission := True\<rparr>))"
  using preflight_fails_closed [of sample_machine sample_settings]
    preflight_fails_closed [of sample_machine "sample_settings\<lparr>st_allow_order_submission := True\<rparr>"]
  by (simp add: sample_machine_def sample_settings_def)

end
