(* ===== verification/SnapshotStorage.thy ===== *)
theory SnapshotStorage
  imports Reports
begin

text \<open>
  \<open>app/storage/stablecoin_reporting.py\<close>: stablecoin snapshots appended to a JSONL and a CSV file with the latest
  one as markdown, and read back from the last JSON line. A file is the list of its lines, none while it does
  not exist; blank lines are not kept. \<open>datetime.fromisoformat\<close> and the exact value of a JSON float are
  parameters, and a JSON array is not read as a Decimal.
\<close>

section \<open>Model\<close>

record snapshot_files =
  sf_jsonl :: "payload list option"
  sf_csv :: "string list list option"
  sf_markdown :: "string option"

definition snapshot_dict :: "stablecoin_snapshot \<Rightarrow> (string \<times> pyval) list" where
  "snapshot_dict s =
     [(''pair'', PStr (sc_pair s)), (''reference_asset'', PStr (sc_reference_asset s)),
      (''snapshot_version'', PStr (sc_snapshot_version s)), (''source_type'', PStr (sc_source_type s)),
      (''as_of'', PTime (sc_as_of s)), (''source_fresh_until'', PTime (sc_source_fresh_until s)),
      (''stablecoin_net_mint_24h'', PDec (sc_net_mint_24h s)), (''stablecoin_net_burn_24h'', PDec (sc_net_burn_24h s)),
      (''stablecoin_supply_change_pct_24h'', PDec (sc_supply_change_pct_24h s)),
      (''stablecoin_chain_supply_delta_24h'', PDec (sc_chain_supply_delta_24h s)),
      (''stablecoin_abnormal_transfer_count'', PInt (sc_abnormal_transfer_count s)),
      (''price'', opt_dec (sc_price s)), (''premium_bps'', opt_dec (sc_premium_bps s)),
      (''volume_24h'', opt_dec (sc_volume_24h s)), (''liquidity_score'', opt_dec (sc_liquidity_score s)),
      (''is_depegged'', PBool (sc_is_depegged s))]"

definition snapshot_payload :: "value_texts \<Rightarrow> stablecoin_snapshot \<Rightarrow> payload" where
  "snapshot_payload x s = map (\<lambda>kv. (fst kv, to_json_compatible x (snd kv))) (snapshot_dict s)"

definition csv_row :: "value_texts \<Rightarrow> stablecoin_snapshot \<Rightarrow> (string \<times> string) list" where
  "csv_row x s =
     [(''as_of'', vt_iso x (sc_as_of s)), (''source_fresh_until'', vt_iso x (sc_source_fresh_until s)),
      (''source_type'', sc_source_type s), (''snapshot_version'', sc_snapshot_version s), (''pair'', sc_pair s),
      (''reference_asset'', sc_reference_asset s),
      (''stablecoin_net_mint_24h'', vt_dec x (sc_net_mint_24h s)),
      (''stablecoin_net_burn_24h'', vt_dec x (sc_net_burn_24h s)),
      (''stablecoin_supply_change_pct_24h'', vt_dec x (sc_supply_change_pct_24h s)),
      (''stablecoin_chain_supply_delta_24h'', vt_dec x (sc_chain_supply_delta_24h s)),
      (''stablecoin_abnormal_transfer_count'', int_str (sc_abnormal_transfer_count s))]"

definition snapshot_markdown :: "value_texts \<Rightarrow> stablecoin_snapshot \<Rightarrow> string" where
  "snapshot_markdown x s =
     (let line = \<lambda>key. ''- '' @ [CHR 0x60] @ key @ [CHR 0x60] @ '': '' @ the (map_of (csv_row x s) key)
      in str_join newline ([''# Stablecoin Observability Summary'', []] @ map line
        [''as_of'', ''source_type'', ''source_fresh_until'', ''snapshot_version'', ''pair'',
         ''stablecoin_net_mint_24h'', ''stablecoin_net_burn_24h'', ''stablecoin_supply_change_pct_24h'',
         ''stablecoin_chain_supply_delta_24h'', ''stablecoin_abnormal_transfer_count'']))"

definition lines_of :: "'a list option \<Rightarrow> 'a list" where
  "lines_of file = (case file of None \<Rightarrow> [] | Some xs \<Rightarrow> xs)"

definition append_csv :: "(string \<times> string) list \<Rightarrow> string list list option \<Rightarrow> string list list" where
  "append_csv row old = (case old of None \<Rightarrow> [map fst row] | Some rows \<Rightarrow> rows) @ [map snd row]"

definition append_snapshot ::
    "value_texts \<Rightarrow> disk \<Rightarrow> stablecoin_snapshot \<Rightarrow> snapshot_files \<Rightarrow> snapshot_files result" where
  "append_snapshot x disk s fs =
     r_bind (r_map (\<lambda>a. access disk (MakeParent a)) [SNAPSHOT_FILE, CSV_FILE, MARKDOWN_FILE]) (\<lambda>_.
     r_bind (write_file disk SNAPSHOT_FILE (\<lambda>fs. fs\<lparr>sf_jsonl := Some (lines_of (sf_jsonl fs) @ [snapshot_payload x s])\<rparr>) fs) (\<lambda>fs.
     r_bind (write_file disk CSV_FILE (\<lambda>fs. fs\<lparr>sf_csv := Some (append_csv (csv_row x s) (sf_csv fs))\<rparr>) fs)
       (write_file disk MARKDOWN_FILE (\<lambda>fs. fs\<lparr>sf_markdown := Some (snapshot_markdown x s)\<rparr>))))"

text \<open>
  \<open>datetime.fromisoformat\<close> and the exact value of a JSON float.\<close>

record value_reader =
  vr_iso :: "string \<Rightarrow> datetime result"
  vr_float :: "string \<Rightarrow> decimal"

definition checked_text :: "string \<Rightarrow> json \<Rightarrow> string result" where
  "checked_text field v =
     (case v of JStr s \<Rightarrow> validated (\<lambda>s. require_non_empty s field) s | _ \<Rightarrow> Inl (AttributeError ''strip''))"

definition stored_time :: "value_reader \<Rightarrow> payload \<Rightarrow> string \<Rightarrow> datetime result" where
  "stored_time rd p k =
     r_bind (jitem p k) (\<lambda>v. case v of JStr s \<Rightarrow> vr_iso rd s
       | _ \<Rightarrow> Inl (TypeError ''fromisoformat: argument must be str''))"

definition stored_decimal :: "value_reader \<Rightarrow> json \<Rightarrow> decimal result" where
  "stored_decimal rd v =
     (case v of JStr s \<Rightarrow> parse_decimal s | JInt i \<Rightarrow> Inr (Dec (of_int i)) | JBool b \<Rightarrow> Inr (if b then 1 else 0)
      | JFloat r \<Rightarrow> Inr (vr_float rd r) | JList js \<Rightarrow> Inl (ValueError ''argument must be a sequence of length 3'')
      | _ \<Rightarrow> Inl (TypeError ''conversion to Decimal is not supported''))"

definition stored_item :: "value_reader \<Rightarrow> payload \<Rightarrow> string \<Rightarrow> decimal result" where
  "stored_item rd p k = r_bind (jitem p k) (stored_decimal rd)"

definition stored_optional :: "value_reader \<Rightarrow> payload \<Rightarrow> string \<Rightarrow> decimal option result" where
  "stored_optional rd p k =
     (if jget p k = JNull then Inr None else r_bind (stored_item rd p k) (\<lambda>d. Inr (Some d)))"

definition read_snapshot :: "value_reader \<Rightarrow> payload \<Rightarrow> stablecoin_snapshot result" where
  "read_snapshot rd p =
     r_bind (jitem p ''pair'') (\<lambda>pair'.
     r_bind (jitem p ''reference_asset'') (\<lambda>asset'.
     r_bind (jitem p ''snapshot_version'') (\<lambda>version'.
     r_bind (jitem p ''source_type'') (\<lambda>source'.
     r_bind (stored_time rd p ''as_of'') (\<lambda>as_of.
     r_bind (stored_time rd p ''source_fresh_until'') (\<lambda>fresh.
     r_bind (stored_item rd p ''stablecoin_net_mint_24h'') (\<lambda>mint.
     r_bind (stored_item rd p ''stablecoin_net_burn_24h'') (\<lambda>burn.
     r_bind (stored_item rd p ''stablecoin_supply_change_pct_24h'') (\<lambda>change.
     r_bind (stored_item rd p ''stablecoin_chain_supply_delta_24h'') (\<lambda>delta.
     r_bind (r_bind (jitem p ''stablecoin_abnormal_transfer_count'') json_int) (\<lambda>transfers.
     r_bind (stored_optional rd p ''price'') (\<lambda>price.
     r_bind (stored_optional rd p ''premium_bps'') (\<lambda>premium.
     r_bind (stored_optional rd p ''volume_24h'') (\<lambda>volume.
     r_bind (stored_optional rd p ''liquidity_score'') (\<lambda>liquidity.
     r_bind (jitem p ''is_depegged'') (\<lambda>depegged.
     r_bind (checked_text ''pair'' pair') (\<lambda>pair.
     r_bind (checked_text ''reference_asset'' asset') (\<lambda>asset.
     r_bind (checked_text ''snapshot_version'' version') (\<lambda>version.
     r_bind (checked_text ''source_type'' source') (\<lambda>source.
       mk_stablecoin_snapshot
         \<lparr>sc_pair = pair, sc_reference_asset = asset, sc_snapshot_version = version, sc_source_type = source,
          sc_as_of = as_of, sc_source_fresh_until = fresh, sc_net_mint_24h = mint, sc_net_burn_24h = burn,
          sc_supply_change_pct_24h = change, sc_chain_supply_delta_24h = delta,
          sc_abnormal_transfer_count = transfers, sc_price = price, sc_premium_bps = premium, sc_volume_24h = volume,
          sc_liquidity_score = liquidity, sc_is_depegged = json_truthy depegged\<rparr>))))))))))))))))))))"

definition read_latest :: "value_reader \<Rightarrow> snapshot_files \<Rightarrow> stablecoin_snapshot option result" where
  "read_latest rd fs =
     (case lines_of (sf_jsonl fs) of [] \<Rightarrow> Inr None
      | ps \<Rightarrow> r_bind (read_snapshot rd (last ps)) (\<lambda>s. Inr (Some s)))"

section \<open>Properties\<close>

text \<open>The decimals a snapshot stores, and a CSV file with one header above rows of its width.\<close>

definition snapshot_decimals :: "stablecoin_snapshot \<Rightarrow> decimal set" where
  "snapshot_decimals s =
     {sc_net_mint_24h s, sc_net_burn_24h s, sc_supply_change_pct_24h s, sc_chain_supply_delta_24h s} \<union>
     set_option (sc_price s) \<union> set_option (sc_premium_bps s) \<union> set_option (sc_volume_24h s) \<union>
     set_option (sc_liquidity_score s)"

definition csv_ok :: "string list list option \<Rightarrow> bool" where
  "csv_ok file = (case file of None \<Rightarrow> True
     | Some rows \<Rightarrow> rows \<noteq> [] \<and> length (hd rows) = 11 \<and> (\<forall>row\<in>set rows. length row = 11))"

lemma append_snapshot_Inr:
  "append_snapshot x disk s fs = Inr fs' \<Longrightarrow>
     fs' = \<lparr>sf_jsonl = Some (lines_of (sf_jsonl fs) @ [snapshot_payload x s]),
       sf_csv = Some (append_csv (csv_row x s) (sf_csv fs)), sf_markdown = Some (snapshot_markdown x s)\<rparr>"
  by (cases fs) (auto simp: append_snapshot_def r_bind_Inr)

lemma csv_ok_append: "csv_ok old \<Longrightarrow> csv_ok (Some (append_csv (csv_row x s) old))"
  by (cases old) (auto simp: csv_ok_def append_csv_def csv_row_def)

lemma checked_text_JStr: "\<not> blank s \<Longrightarrow> checked_text field (JStr s) = Inr s"
  by (simp add: checked_text_def validated_passes)

lemma stored_optional_read:
  assumes "jget p k = to_json_compatible x (opt_dec v)" and "jitem p k = Inr (to_json_compatible x (opt_dec v))"
    and "\<forall>d\<in>set_option v. parse_decimal (vt_dec x d) = Inr d"
  shows "stored_optional rd p k = Inr v"
  using assms by (cases v) (auto simp: stored_optional_def stored_item_def stored_decimal_def opt_dec_def)

lemma read_snapshot_payload:
  assumes valid: "mk_stablecoin_snapshot s = Inr s"
    and decimals: "\<forall>d\<in>snapshot_decimals s. parse_decimal (vt_dec x d) = Inr d"
    and times: "\<forall>t\<in>{sc_as_of s, sc_source_fresh_until s}. vr_iso rd (vt_iso x t) = Inr t"
  shows "read_snapshot rd (snapshot_payload x s) = Inr s"
proof -
  let ?p = "snapshot_payload x s"
  have raw: "jitem ?p ''pair'' = Inr (JStr (sc_pair s))" "jitem ?p ''reference_asset'' = Inr (JStr (sc_reference_asset s))"
    "jitem ?p ''snapshot_version'' = Inr (JStr (sc_snapshot_version s))"
    "jitem ?p ''source_type'' = Inr (JStr (sc_source_type s))" "jitem ?p ''is_depegged'' = Inr (JBool (sc_is_depegged s))"
    "jitem ?p ''stablecoin_abnormal_transfer_count'' = Inr (JInt (sc_abnormal_transfer_count s))"
    by (simp_all add: snapshot_payload_def snapshot_dict_def)
  have texts: "checked_text ''pair'' (JStr (sc_pair s)) = Inr (sc_pair s)"
    "checked_text ''reference_asset'' (JStr (sc_reference_asset s)) = Inr (sc_reference_asset s)"
    "checked_text ''snapshot_version'' (JStr (sc_snapshot_version s)) = Inr (sc_snapshot_version s)"
    "checked_text ''source_type'' (JStr (sc_source_type s)) = Inr (sc_source_type s)"
    using valid by (auto intro!: checked_text_JStr simp: mk_stablecoin_snapshot_def stablecoin_snapshot_checks_def)
  have times': "stored_time rd ?p ''as_of'' = Inr (sc_as_of s)"
    "stored_time rd ?p ''source_fresh_until'' = Inr (sc_source_fresh_until s)"
    using times by (simp_all add: stored_time_def snapshot_payload_def snapshot_dict_def)
  have items: "stored_item rd ?p ''stablecoin_net_mint_24h'' = Inr (sc_net_mint_24h s)"
    "stored_item rd ?p ''stablecoin_net_burn_24h'' = Inr (sc_net_burn_24h s)"
    "stored_item rd ?p ''stablecoin_supply_change_pct_24h'' = Inr (sc_supply_change_pct_24h s)"
    "stored_item rd ?p ''stablecoin_chain_supply_delta_24h'' = Inr (sc_chain_supply_delta_24h s)"
    using decimals by (simp_all add: stored_item_def stored_decimal_def snapshot_payload_def snapshot_dict_def snapshot_decimals_def)
  have options: "stored_optional rd ?p ''price'' = Inr (sc_price s)" "stored_optional rd ?p ''premium_bps'' = Inr (sc_premium_bps s)"
    "stored_optional rd ?p ''volume_24h'' = Inr (sc_volume_24h s)"
    "stored_optional rd ?p ''liquidity_score'' = Inr (sc_liquidity_score s)"
    by (rule stored_optional_read [of _ _ x]; use decimals in \<open>auto simp: snapshot_payload_def snapshot_dict_def snapshot_decimals_def\<close>)+
  show ?thesis unfolding read_snapshot_def raw texts times' items options r_bind_simps using valid
    by (cases s) (simp add: json_int_def json_truthy_def)
qed

lemma read_latest_last:
  "lines_of (sf_jsonl fs) = ps @ [p] \<Longrightarrow> read_latest rd fs = r_bind (read_snapshot rd p) (\<lambda>s. Inr (Some s))"
  by (cases ps) (simp_all add: read_latest_def)

text \<open>
  C23. A stored stablecoin snapshot reads back: after an append that succeeds the latest snapshot in the file is
  the appended one, value for value, provided the texts of its decimals and times are read as they were
  written; earlier lines stay, and the CSV file keeps exactly one header line.
\<close>

theorem stored_snapshot_reads_back:
  assumes "append_snapshot x disk s fs = Inr fs'" and "mk_stablecoin_snapshot s = Inr s"
    and "\<forall>d\<in>snapshot_decimals s. parse_decimal (vt_dec x d) = Inr d"
    and "\<forall>t\<in>{sc_as_of s, sc_source_fresh_until s}. vr_iso rd (vt_iso x t) = Inr t"
  shows "read_latest rd fs' = Inr (Some s) \<and>
    lines_of (sf_jsonl fs') = lines_of (sf_jsonl fs) @ [snapshot_payload x s] \<and>
    (csv_ok (sf_csv fs) \<longrightarrow> csv_ok (sf_csv fs') \<and>
       length (lines_of (sf_csv fs')) = max 1 (length (lines_of (sf_csv fs))) + 1)"
proof -
  note fs' = append_snapshot_Inr [OF assms(1)]
  have "length (lines_of (sf_csv fs')) = max 1 (length (lines_of (sf_csv fs))) + 1" if "csv_ok (sf_csv fs)"
    using that by (cases "sf_csv fs") (auto simp: fs' lines_of_def append_csv_def csv_ok_def Suc_le_eq)
  moreover have "read_latest rd fs' = Inr (Some s)"
    using read_snapshot_payload [OF assms(2-4)] by (simp add: read_latest_last [where ps = "lines_of (sf_jsonl fs)"] fs' lines_of_def)
  moreover have "lines_of (sf_jsonl fs') = lines_of (sf_jsonl fs) @ [snapshot_payload x s]"
    by (simp add: fs' lines_of_def)
  moreover have "csv_ok (sf_csv fs')" if "csv_ok (sf_csv fs)" using csv_ok_append [OF that] by (simp add: fs')
  ultimately show ?thesis by blast
qed

section \<open>A concrete snapshot\<close>

definition sample_snapshot :: stablecoin_snapshot where
  "sample_snapshot =
     \<lparr>sc_pair = ''USDT-USD'', sc_reference_asset = ''USD'', sc_snapshot_version = ''v1'', sc_source_type = ''chain'',
      sc_as_of = utc 0, sc_source_fresh_until = utc 0, sc_net_mint_24h = Dec 1, sc_net_burn_24h = Dec 1,
      sc_supply_change_pct_24h = Dec 1, sc_chain_supply_delta_24h = Dec 1, sc_abnormal_transfer_count = 0,
      sc_price = Some (Dec 1), sc_premium_bps = None, sc_volume_24h = None, sc_liquidity_score = None,
      sc_is_depegged = False\<rparr>"

theorem stored_snapshot_reads_back_witness:
  "\<exists>fs'. append_snapshot (sample_texts\<lparr>vt_dec := (\<lambda>d. ''1'')\<rparr>) (\<lambda>_. None) sample_snapshot
       \<lparr>sf_jsonl = None, sf_csv = None, sf_markdown = None\<rparr> = Inr fs' \<and>
     read_latest \<lparr>vr_iso = (\<lambda>s. Inr (utc 0)), vr_float = (\<lambda>s. 0)\<rparr> fs' = Inr (Some sample_snapshot)"
proof -
  let ?x = "sample_texts\<lparr>vt_dec := (\<lambda>d. ''1'')\<rparr>" and ?fs = "\<lparr>sf_jsonl = None, sf_csv = None, sf_markdown = None\<rparr>"
  obtain fs' where run: "append_snapshot ?x (\<lambda>_. None) sample_snapshot ?fs = Inr fs'"
    by (simp add: append_snapshot_def access_def write_file_def)
  have valid: "mk_stablecoin_snapshot sample_snapshot = Inr sample_snapshot"
    by (simp add: mk_stablecoin_snapshot_def stablecoin_snapshot_checks_def sample_snapshot_def blank_def py_space_def
        less_decimal_def validated_passes)
  have "parse_decimal ''1'' = Inr (Dec 1)"
    by code_simp
  then have "\<forall>d\<in>snapshot_decimals sample_snapshot. parse_decimal (vt_dec ?x d) = Inr d"
    by (simp add: snapshot_decimals_def sample_snapshot_def)
  from stored_snapshot_reads_back [OF run valid this, of "\<lparr>vr_iso = (\<lambda>s. Inr (utc 0)), vr_float = (\<lambda>s. 0)\<rparr>"] run
  show ?thesis by (simp add: sample_snapshot_def)
qed

end
