(* ===== verification/Spec2Isabelle.thy ===== *)
theory Spec2Isabelle
  imports ContractsMarket PaperTrading PaperPortfolio LivePortfolio ExchangeEdge PayloadTranslator OrderClient
    ReconCoordinator ReconStore PrivateStream Reconciliation LiveGate ExchangeHealth Features Strategies Runners
    RestrictedTransport Soak PrivateTransport ReplayHarness PrivateSoak MarketData
    FailureInjection Disruption Launch SnapshotStorage
begin

text \<open>
  A verification development for the trading runtime under \<open>src/app\<close>: a Python program that turns
  market data into trading decisions (paper, report-only or restricted-live) and, in restricted-live
  mode, mirrors what happened on Binance into a portfolio that no fill may enter twice and no
  unreconciled order may enter at all.

  \<^bold>\<open>How the parts interact.\<close> A runner (\<open>app/runtime\<close>) validates a completed bar, builds features and a
  decision context, asks the quality gate whether the input is good enough, lets the strategies and
  the risk rules produce intents, and in restricted-live mode asks the portfolio mutation gate once.
  The gate (\<open>live_portfolio_gate.py\<close>) polls the payload source (\<open>restricted_live_transport.py\<close>), which
  keeps one private stream session alive over the transport (\<open>private_transport.py\<close>, WebSocket frames
  below it); it hands the payloads to the reconciliation service (\<open>reconciliation.py\<close>), which ingests
  and translates them, compares them with the expected orders, looks missing and unknown orders up by
  signed REST queries (\<open>order_client.py\<close>), lets the coordinator (\<open>reconciliation_coordinator.py\<close>) judge
  the answers, and persists the result (\<open>reconciliation_state.py\<close>). Only when nothing is pending does
  the gate let the translator (\<open>app/portfolio/live.py\<close>) change the portfolio. The soak
  (\<open>restricted_live_soak.py\<close>) repeats such cycles and carries portfolio and fill ids from one to the next;
  the failure-injection and disruption runners script such cycles and reconciliations and judge them. The
  rehearsal command (\<open>scripts/runtime2_rehearsal.py\<close>) checks its settings, builds a runtime from a
  configuration file and closed klines, runs one cycle and reports it; the gateways of \<open>app/storage\<close> and
  \<open>app/monitoring/runtime_status.py\<close> leave the records of each cycle.

  \<^bold>\<open>Theories and sources\<close>, in the order they build on each other:
  \<^item> Prelude: exceptions as \<open>py_error\<close>, fallible code as \<open>py_error + 'a\<close> (\<open>r_bind\<close>, \<open>r_map\<close>, \<open>r_foldl\<close>),
    validation chains of frozen dataclasses (\<open>checks\<close>), insertion-ordered dicts as association lists,
    \<open>dict.fromkeys\<close> as \<open>dedup\<close>, Python string operations. PyTime: aware datetimes in microseconds.
    PyDecimal: \<open>Decimal\<close> at the default context, 28 digits, half-even. AuditedMachine: the interface of a
    state machine that returns an audit record per step.
  \<^item> ContractsBase, ContractsMarket, ContractsTrade: \<open>app/contracts/models.py\<close>. OrderLifecycle:
    \<open>app/execution/order_lifecycle.py\<close>. PaperTrading: the report-only risk rules, intents and the paper
    execution simulator. PaperPortfolio, LivePortfolio: \<open>app/portfolio\<close>.
  \<^item> BinanceModels, ExchangeEdge, Payload, PayloadTranslator, OrderClient, ReconCoordinator,
    PrivateStream, Reconciliation, LiveGate, RestrictedTransport, WebSocketFrames, PrivateTransport:
    the files of \<open>app/exchanges/binance\<close> (and \<open>app/exchanges/common\<close>) of the like names.
    ReconStore: \<open>app/storage/reconciliation_state.py\<close>. ExchangeHealth: \<open>app/monitoring/exchange_health.py\<close>.
  \<^item> Features, Strategies, Runtime, Runners, ReplayHarness: \<open>app/features\<close>, \<open>app/strategies\<close>,
    \<open>app/runtime\<close>. Soak: \<open>app/monitoring/restricted_live_soak.py\<close>. FailureInjection:
    \<open>restricted_live_failure_injection.py\<close>, its scripted environment, runner, summary and default scenarios.
    Disruption: \<open>reconciliation_disruption.py\<close>. PrivateSoak: \<open>private_transport_soak.py\<close>. MarketData:
    \<open>market_data_client.py\<close>, \<open>account_snapshot_bootstrap.py\<close> and the report-only entry over raw klines.
  \<^item> Reports: the operator summaries of \<open>app/monitoring/runtime_status.py\<close> and the records and gateways of
    \<open>app/storage\<close>; the files are the second component of the world a cycle runs in. SnapshotStorage:
    \<open>app/storage/stablecoin_reporting.py\<close>. Launch: \<open>app/config/rehearsal.py\<close> and
    \<open>scripts/runtime2_rehearsal.py\<close>, on top of all of these.

  \<^bold>\<open>State and operations.\<close> A dataclass is a record with the same fields (prefixed, since field names are
  global), an enumeration a datatype, a method a function of its object's record that returns the
  changed record, a raised exception an \<open>Inl\<close>. Where a caller catches exceptions and goes on using the
  object, the operation returns the state it leaves behind also when it raises (the transports);
  elsewhere the state of a raising call is not observable. A dictionary or a mutable object that is
  shared is passed explicitly (the store, the weight tracker, the transport).

  \<^bold>\<open>Interfaces\<close> are locales with their interpretation on the model in the providing theory:
  \<open>audited_machine\<close> (order lifecycle), \<open>portfolio_updater\<close> (paper portfolio for the live translator),
  \<open>weight_budget\<close> (request-weight tracker), \<open>status_lookup\<close> (signed REST lookups for the reconciliation
  rounds), \<open>recovery_store\<close> (JSON state store), \<open>once_gate\<close> (the live gate for the soak). The properties of
  the clients are proved once in the locale and reach the code's model through the interpretation.

  \<^bold>\<open>What the lemmas show.\<close> Contracts: constructors accept exactly the valid records. Lifecycle and
  portfolios: runs keep orders valid, books are exact within 28 digits. Live path: no fill is applied
  twice within a translation, a gate call, or a whole soak; only settled orders mutate the portfolio;
  a blocked gate changes nothing. Reconciliation: the plan covers all discrepancies, the rounds end,
  the workflow implements an abstract verdict, convergence means answers, unfound orders are
  escalated, a restart forgets no order. Stream: texts survive framing and chunking, early messages are
  delivered in order, overdue streams are not read, health is authoritative only when healthy.
  Runners: bad input fails closed, success needs the gate, a paper session is one replay,
  and a replay of bars agrees with the reference evaluation. Scenarios: no fill enters twice, gaps and open
  orders stay on record, and the verdicts are those of the gate's answers. Reports: a cycle leaves
  exactly one record that determines it, the files of a paper session replay it, a stored snapshot reads
  back. Launch: the command runs nothing unless the preflight passes, and exits with 0 only after a
  recorded success. Several
  theorems state defects the code really has (lost partial frames, leaked connections, a gap flag that
  never clears, fills a blocked cycle drops): they are named as such in their texts.

  \<^bold>\<open>Bounds and fuel.\<close> Lookup rounds are bounded by the configured number of rounds, a primitive
  recursion; no fuel is invented. Reads from sockets and waits for an answer recurse on what is still to
  arrive and are proved to terminate. The soak loop may run forever when no maximal number of
  cycles is configured, so it is a \<open>partial_function (option)\<close>; with a maximum it is proved to return. Decimal
  theorems state the digit bounds under which they are exact.

  \<^bold>\<open>Parameters.\<close> HTTP responses, HMAC signatures, URL encoding and host parsing, the clock, epoch
  milliseconds of a datetime (a float computation), random mask keys, \<open>json.loads\<close> and \<open>json.dumps\<close>,
  the text of Decimals and datetimes, exception texts, the connection factory, parsed TOML and JSON
  documents, which disk accesses fail, and the runtime's injected dependencies are arguments of the
  definitions that use them.

  \<^bold>\<open>Not modelled.\<close> The bytes of files (a JSONL file is the list of its records, the state store its content),
  the artifact writers and markdown of soaks and scenarios, the restricted-live rehearsal summary, TLS and
  the HTTP upgrade request, argument parsing and printed lines, the scripts that drive a live testnet, the
  Upbit skeletons, and the reference adapters that the runtime does not use. What a raising cycle has
  already written is not part of its result. Floats appear only where they are exact or as parameters;
  characters are bytes, and strings ASCII.
\<close>

end
